(* ===== verification/Shiba_Prelude.thy ===== *)
theory Shiba_Prelude
  imports Main "HOL-Library.Word"
begin

text \<open>
  Vocabulary shared by the model of the Shiba extension.

  Every fallible Rust function returns \<open>Result<T, String>\<close>.  Its model has the type
  \<open>'a result\<close>: \<open>Inl message\<close> is the error with the message of the source,
  \<open>Inr value\<close> is the value.  \<open>bind_res\<close> is the operator \<open>?\<close>.  The integers of the
  execution layer are \<open>nat\<close> (for \<open>u64\<close>, \<open>usize\<close>) and \<open>int\<close> (for \<open>i64\<close>, \<open>i32\<close>, \<open>i16\<close>)
  with their bounds written out in the checked and saturating operations below;
  \<open>usize\<close> has 64 bits.  Wire-level integers are words (theory \<open>Wire_Bytes\<close>).
\<close>

section \<open>Collections of rewrite rules\<close>

named_theorems res_simps \<open>decomposition of successful results\<close>
named_theorems int_bounds \<open>the machine integer bounds\<close>

section \<open>Results\<close>

type_synonym 'a result = "string + 'a"

fun bind_res :: "'e + 'a \<Rightarrow> ('a \<Rightarrow> 'e + 'b) \<Rightarrow> 'e + 'b" where
  "bind_res (Inl e) f = Inl e"
| "bind_res (Inr x) f = f x"

fun map_err :: "('e \<Rightarrow> 'f) \<Rightarrow> 'e + 'a \<Rightarrow> 'f + 'a" where
  "map_err g (Inl e) = Inl (g e)"
| "map_err g (Inr x) = Inr x"

definition ok_or :: "'e \<Rightarrow> 'a option \<Rightarrow> 'e + 'a" where
  "ok_or e x = (case x of None \<Rightarrow> Inl e | Some v \<Rightarrow> Inr v)"

fun is_ok :: "'e + 'a \<Rightarrow> bool" where
  "is_ok (Inl e) = False"
| "is_ok (Inr x) = True"

lemma bind_res_Inr [res_simps]:
  "(bind_res m f = Inr y) = (\<exists>x. m = Inr x \<and> f x = Inr y)"
  by (cases m) auto

lemma Inr_bind_res [res_simps]:
  "(Inr y = bind_res m f) = (\<exists>x. m = Inr x \<and> f x = Inr y)"
  by (cases m) auto

lemma bind_res_Inl: "(bind_res m f = Inl e) = (m = Inl e \<or> (\<exists>x. m = Inr x \<and> f x = Inl e))"
  by (cases m) auto

lemma bind_res_unit [res_simps]:
  "(bind_res m f = Inr y) = (m = Inr () \<and> f () = Inr y)" for m :: "'e + unit"
  by (cases m) auto

lemma bind_res_assoc: "bind_res (bind_res m f) g = bind_res m (\<lambda>x. bind_res (f x) g)"
  by (cases m) auto

lemma map_err_Inr [res_simps]: "(map_err g m = Inr y) = (m = Inr y)"
  by (cases m) auto

lemma ok_or_Inr [res_simps]: "(ok_or e x = Inr y) = (x = Some y)"
  by (auto simp: ok_or_def split: option.splits)

lemma ok_or_simps [simp]: "ok_or e None = Inl e" "ok_or e (Some v) = Inr v"
  by (simp_all add: ok_or_def)

lemma if_Inl_Inr [res_simps]: "((if b then Inl e else r) = Inr y) = (\<not> b \<and> r = Inr y)"
  by simp

lemma if_Inl_else_Inr [res_simps]: "((if b then r else Inl e) = Inr y) = (b \<and> r = Inr y)"
  by simp

lemma is_ok_iff: "is_ok m = (\<exists>x. m = Inr x)"
  by (cases m) auto

lemma bind_res_cong [fundef_cong]:
  "m = m' \<Longrightarrow> (\<And>x. m' = Inr x \<Longrightarrow> f x = f' x) \<Longrightarrow> bind_res m f = bind_res m' f'"
  by (cases m') auto

section \<open>Sequences of fallible steps\<close>

text \<open>A \<open>for\<close> loop whose body ends in \<open>?\<close>, and \<open>collect::<Result<Vec<_>, _>>\<close>.\<close>

fun check_all :: "('a \<Rightarrow> 'e + unit) \<Rightarrow> 'a list \<Rightarrow> 'e + unit" where
  "check_all f [] = Inr ()"
| "check_all f (x # xs) = bind_res (f x) (\<lambda>_. check_all f xs)"

fun traverse :: "('a \<Rightarrow> 'e + 'b) \<Rightarrow> 'a list \<Rightarrow> 'e + 'b list" where
  "traverse f [] = Inr []"
| "traverse f (x # xs) = bind_res (f x) (\<lambda>y. bind_res (traverse f xs) (\<lambda>ys. Inr (y # ys)))"

lemma check_all_Inr [res_simps]: "(check_all f xs = Inr ()) = (\<forall>x\<in>set xs. f x = Inr ())"
  by (induction xs) (auto simp: bind_res_unit)

lemma check_all_cong [fundef_cong]:
  "xs = ys \<Longrightarrow> (\<And>x. x \<in> set ys \<Longrightarrow> f x = g x) \<Longrightarrow> check_all f xs = check_all g ys"
  by (induction xs arbitrary: ys) auto

lemma traverse_cong [fundef_cong]:
  "xs = ys \<Longrightarrow> (\<And>x. x \<in> set ys \<Longrightarrow> f x = g x) \<Longrightarrow> traverse f xs = traverse g ys"
  by (induction xs arbitrary: ys) auto

lemma traverse_Inr [res_simps]:
  "(traverse f xs = Inr ys) = list_all2 (\<lambda>x y. f x = Inr y) xs ys"
  by (induction xs arbitrary: ys) (auto simp: res_simps list_all2_Cons1)

lemma traverse_ok: "(\<exists>ys. traverse f xs = Inr ys) = (\<forall>x\<in>set xs. \<exists>y. f x = Inr y)"
  by (induction xs) (auto simp: bind_res_Inr)

section \<open>Machine integers\<close>

definition u64_max :: nat where "u64_max = 18446744073709551615"
definition u32_max :: nat where "u32_max = 4294967295"
definition u16_max :: nat where "u16_max = 65535"
definition i64_max :: int where "i64_max = 9223372036854775807"
definition i64_min :: int where "i64_min = - 9223372036854775808"
definition i32_max :: int where "i32_max = 2147483647"
definition i16_max :: int where "i16_max = 32767"

text \<open>\<open>i64::MAX as u64\<close>.\<close>

definition i64_max_u64 :: nat where "i64_max_u64 = 9223372036854775807"

lemmas machine_bounds [int_bounds] =
  u64_max_def u32_max_def u16_max_def i64_max_def i64_min_def i32_max_def i16_max_def
  i64_max_u64_def

definition checked_add_u64 :: "nat \<Rightarrow> nat \<Rightarrow> nat option" where
  "checked_add_u64 a b = (if a + b \<le> u64_max then Some (a + b) else None)"

definition checked_mul_u64 :: "nat \<Rightarrow> nat \<Rightarrow> nat option" where
  "checked_mul_u64 a b = (if a * b \<le> u64_max then Some (a * b) else None)"

definition checked_sub_u64 :: "nat \<Rightarrow> nat \<Rightarrow> nat option" where
  "checked_sub_u64 a b = (if b \<le> a then Some (a - b) else None)"

definition saturating_add_u64 :: "nat \<Rightarrow> nat \<Rightarrow> nat" where
  "saturating_add_u64 a b = min (a + b) u64_max"

definition saturating_mul_u64 :: "nat \<Rightarrow> nat \<Rightarrow> nat" where
  "saturating_mul_u64 a b = min (a * b) u64_max"

definition in_i64 :: "int \<Rightarrow> bool" where
  "in_i64 x \<longleftrightarrow> i64_min \<le> x \<and> x \<le> i64_max"

definition checked_add_i64 :: "int \<Rightarrow> int \<Rightarrow> int option" where
  "checked_add_i64 a b = (if in_i64 (a + b) then Some (a + b) else None)"

definition checked_sub_i64 :: "int \<Rightarrow> int \<Rightarrow> int option" where
  "checked_sub_i64 a b = (if in_i64 (a - b) then Some (a - b) else None)"

definition checked_mul_i64 :: "int \<Rightarrow> int \<Rightarrow> int option" where
  "checked_mul_i64 a b = (if in_i64 (a * b) then Some (a * b) else None)"

definition saturating_i64 :: "int \<Rightarrow> int" where
  "saturating_i64 x = max i64_min (min i64_max x)"

lemma checked_add_u64_Some [res_simps]:
  "(checked_add_u64 a b = Some c) = (c = a + b \<and> a + b \<le> u64_max)"
  by (auto simp: checked_add_u64_def)

lemma checked_mul_u64_Some [res_simps]:
  "(checked_mul_u64 a b = Some c) = (c = a * b \<and> a * b \<le> u64_max)"
  by (auto simp: checked_mul_u64_def)

lemma checked_sub_u64_Some [res_simps]:
  "(checked_sub_u64 a b = Some c) = (c = a - b \<and> b \<le> a)"
  by (auto simp: checked_sub_u64_def)

lemma checked_add_i64_Some [res_simps]:
  "(checked_add_i64 a b = Some c) = (c = a + b \<and> in_i64 c)"
  by (auto simp: checked_add_i64_def)

lemma checked_sub_i64_Some [res_simps]:
  "(checked_sub_i64 a b = Some c) = (c = a - b \<and> in_i64 c)"
  by (auto simp: checked_sub_i64_def)

lemma checked_mul_i64_Some [res_simps]:
  "(checked_mul_i64 a b = Some c) = (c = a * b \<and> in_i64 c)"
  by (auto simp: checked_mul_i64_def)

section \<open>Options as Rust orders them\<close>

text \<open>\<open>Option<i64>\<close> derives its order: \<open>None\<close> is below every \<open>Some\<close>.\<close>

fun opt_less :: "int option \<Rightarrow> int option \<Rightarrow> bool" where
  "opt_less _ None = False"
| "opt_less None (Some _) = True"
| "opt_less (Some a) (Some b) = (a < b)"

lemma opt_less_irrefl [simp]: "\<not> opt_less a a"
  by (cases a) auto

lemma opt_less_trans: "opt_less a b \<Longrightarrow> opt_less b c \<Longrightarrow> opt_less a c"
  by (cases a; cases b; cases c) auto

text \<open>The test every cursor of an operator starts with.\<close>

definition non_positive :: "int option \<Rightarrow> bool" where
  "non_positive r \<longleftrightarrow> (case r of None \<Rightarrow> False | Some v \<Rightarrow> v \<le> 0)"

lemma non_positive_simps [simp]: "\<not> non_positive None" "non_positive (Some v) = (v \<le> 0)"
  by (simp_all add: non_positive_def)

end
