(* ===== verification/Work_Quantum.thy ===== *)
theory Work_Quantum
  imports Shiba_Prelude
begin

text \<open>
  The work budget of one operator step (\<open>src/planner/dataflow.rs\<close>): the limits
  \<open>WorkBudget\<close>, the reported \<open>WorkUsage\<close>, the transaction quantum \<open>WorkQuantum\<close> which
  hands its remaining capacity to the next kernel transition, and the outcome of a
  step.  A failing \<open>assert!\<close> is an \<open>Inl\<close> with its message.
\<close>

section \<open>Budgets and usage\<close>

record work_budget =
  max_input_rows :: nat
  max_input_bytes :: nat
  max_output_rows :: nat
  max_output_bytes :: nat

definition work_budget_new :: "nat \<Rightarrow> nat \<Rightarrow> nat \<Rightarrow> nat \<Rightarrow> work_budget result" where
  "work_budget_new ir ib orr ob =
     (if \<not> 0 < ir then Inl ''input-row budget must be positive''
      else if \<not> 0 < ib then Inl ''input-byte budget must be positive''
      else if \<not> 0 < orr then Inl ''output-row budget must be positive''
      else if \<not> 0 < ob then Inl ''output-byte budget must be positive''
      else Inr \<lparr>max_input_rows = ir, max_input_bytes = ib,
                max_output_rows = orr, max_output_bytes = ob\<rparr>)"

record work_usage =
  input_rows :: nat
  input_bytes :: nat
  output_rows :: nat
  output_bytes :: nat

definition usage_default :: work_usage where
  "usage_default = \<lparr>input_rows = 0, input_bytes = 0, output_rows = 0, output_bytes = 0\<rparr>"

definition usage_is_empty :: "work_usage \<Rightarrow> bool" where
  "usage_is_empty u \<longleftrightarrow>
     input_rows u = 0 \<and> input_bytes u = 0 \<and> output_rows u = 0 \<and> output_bytes u = 0"

definition usage_checked_add :: "work_usage \<Rightarrow> work_usage \<Rightarrow> work_usage result" where
  "usage_checked_add u v =
     bind_res (ok_or ''quantum input-row usage overflow''
                 (checked_add_u64 (input_rows u) (input_rows v))) (\<lambda>ir.
     bind_res (ok_or ''quantum input-byte usage overflow''
                 (checked_add_u64 (input_bytes u) (input_bytes v))) (\<lambda>ib.
     bind_res (ok_or ''quantum output-row usage overflow''
                 (checked_add_u64 (output_rows u) (output_rows v))) (\<lambda>orr.
     bind_res (ok_or ''quantum output-byte usage overflow''
                 (checked_add_u64 (output_bytes u) (output_bytes v))) (\<lambda>ob.
     Inr \<lparr>input_rows = ir, input_bytes = ib, output_rows = orr, output_bytes = ob\<rparr>))))"

section \<open>The transaction quantum\<close>

record work_quantum =
  wq_budget :: work_budget
  wq_used :: work_usage
  wq_transitions :: nat
  wq_max_transitions :: nat

definition quantum_new :: "work_budget \<Rightarrow> nat \<Rightarrow> work_quantum result" where
  "quantum_new b n =
     (if \<not> 0 < n then Inl ''transition budget must be positive''
      else Inr \<lparr>wq_budget = b, wq_used = usage_default, wq_transitions = 0,
                wq_max_transitions = n\<rparr>)"

text \<open>The free function \<open>remaining\<close>; \<open>usize::try_from\<close> never fails on 64 bits.\<close>

definition remaining_of :: "nat \<Rightarrow> nat \<Rightarrow> nat option" where
  "remaining_of limit used =
     (case checked_sub_u64 limit used of
        None \<Rightarrow> None
      | Some r \<Rightarrow> if 0 < r then Some r else None)"

text \<open>
  \<open>WorkQuantum::remaining\<close>.  The early return of \<open>?\<close> is \<open>Inr None\<close>; the assertions of
  \<open>WorkBudget::new\<close> stay visible as \<open>Inl\<close>.
\<close>

definition quantum_remaining :: "work_quantum \<Rightarrow> work_budget option result" where
  "quantum_remaining q =
     (if wq_max_transitions q \<le> wq_transitions q then Inr None
      else
        case (remaining_of (max_input_rows (wq_budget q)) (input_rows (wq_used q)),
              remaining_of (max_input_bytes (wq_budget q)) (input_bytes (wq_used q)),
              remaining_of (max_output_rows (wq_budget q)) (output_rows (wq_used q)),
              remaining_of (max_output_bytes (wq_budget q)) (output_bytes (wq_used q))) of
          (Some ir, Some ib, Some orr, Some ob) \<Rightarrow>
            bind_res (work_budget_new ir ib orr ob) (\<lambda>b. Inr (Some b))
        | _ \<Rightarrow> Inr None)"

definition quantum_record :: "work_quantum \<Rightarrow> work_usage \<Rightarrow> work_quantum result" where
  "quantum_record q u =
     (if wq_max_transitions q \<le> wq_transitions q
      then Inl ''work quantum exceeded its transition budget''
      else bind_res (usage_checked_add (wq_used q) u) (\<lambda>used.
             Inr (q\<lparr>wq_used := used, wq_transitions := wq_transitions q + 1\<rparr>)))"

section \<open>Step outcomes\<close>

datatype step_outcome = Progress | Yield | Blocked | Idle

datatype transaction_result = Committed | NotCommitted

record step_execution =
  se_outcome :: step_outcome
  se_usage :: work_usage
  se_transaction :: transaction_result

definition step_execution_new :: "step_outcome \<Rightarrow> work_usage \<Rightarrow> step_execution" where
  "step_execution_new out u =
     \<lparr>se_outcome = out, se_usage = u, se_transaction = Committed\<rparr>"

definition not_committed :: "step_outcome \<Rightarrow> step_execution" where
  "not_committed out =
     \<lparr>se_outcome = out,
      se_usage = \<lparr>input_rows = 0, input_bytes = 0, output_rows = 0, output_bytes = 0\<rparr>,
      se_transaction = NotCommitted\<rparr>"

definition step_execution_empty :: "step_outcome \<Rightarrow> step_execution" where
  "step_execution_empty out = not_committed out"

text \<open>The \<open>Debug\<close> text of an outcome, as \<open>{outcome:?}\<close> prints it.\<close>

fun debug_outcome :: "step_outcome \<Rightarrow> string" where
  "debug_outcome Progress = ''Progress''"
| "debug_outcome Yield = ''Yield''"
| "debug_outcome Blocked = ''Blocked''"
| "debug_outcome Idle = ''Idle''"

definition step_execution_validate :: "step_execution \<Rightarrow> unit result" where
  "step_execution_validate e =
     (case (se_transaction e, se_outcome e) of
        (Committed, Progress) \<Rightarrow> Inr ()
      | (Committed, Yield) \<Rightarrow> Inr ()
      | (NotCommitted, Idle) \<Rightarrow> Inr ()
      | (NotCommitted, Blocked) \<Rightarrow> Inr ()
      | (Committed, out) \<Rightarrow>
          Inl (''committed step returned non-committed outcome '' @ debug_outcome out)
      | (NotCommitted, out) \<Rightarrow> Inl (''non-committed step returned '' @ debug_outcome out))"

section \<open>Lemmas\<close>

lemma usage_checked_add_Inr [res_simps]:
  "(usage_checked_add u v = Inr w) \<longleftrightarrow>
     w = \<lparr>input_rows = input_rows u + input_rows v,
          input_bytes = input_bytes u + input_bytes v,
          output_rows = output_rows u + output_rows v,
          output_bytes = output_bytes u + output_bytes v\<rparr> \<and>
     input_rows u + input_rows v \<le> u64_max \<and>
     input_bytes u + input_bytes v \<le> u64_max \<and>
     output_rows u + output_rows v \<le> u64_max \<and>
     output_bytes u + output_bytes v \<le> u64_max"
  by (auto simp: usage_checked_add_def res_simps)

lemma remaining_of_Some [res_simps]:
  "(remaining_of limit used = Some r) \<longleftrightarrow> used < limit \<and> r = limit - used"
  by (auto simp: remaining_of_def checked_sub_u64_def)

lemma remaining_of_None: "(remaining_of limit used = None) \<longleftrightarrow> limit \<le> used"
  by (auto simp: remaining_of_def checked_sub_u64_def)

text \<open>The assertions inside \<open>remaining\<close> hold: every capacity it passes on is positive.\<close>

lemma quantum_remaining_no_panic: "\<exists>r. quantum_remaining q = Inr r"
  by (auto simp: quantum_remaining_def work_budget_new_def res_simps split: option.splits)

lemma quantum_remaining_Some:
  "quantum_remaining q = Inr (Some b) \<longleftrightarrow>
     wq_transitions q < wq_max_transitions q \<and>
     input_rows (wq_used q) < max_input_rows (wq_budget q) \<and>
     input_bytes (wq_used q) < max_input_bytes (wq_budget q) \<and>
     output_rows (wq_used q) < max_output_rows (wq_budget q) \<and>
     output_bytes (wq_used q) < max_output_bytes (wq_budget q) \<and>
     b = \<lparr>max_input_rows = max_input_rows (wq_budget q) - input_rows (wq_used q),
          max_input_bytes = max_input_bytes (wq_budget q) - input_bytes (wq_used q),
          max_output_rows = max_output_rows (wq_budget q) - output_rows (wq_used q),
          max_output_bytes = max_output_bytes (wq_budget q) - output_bytes (wq_used q)\<rparr>"
  by (auto simp: quantum_remaining_def work_budget_new_def res_simps remaining_of_None
           split: option.splits)

lemma quantum_record_Inr [res_simps]:
  "(quantum_record q u = Inr q') \<longleftrightarrow>
     wq_transitions q < wq_max_transitions q \<and>
     (\<exists>used. usage_checked_add (wq_used q) u = Inr used \<and>
       q' = q\<lparr>wq_used := used, wq_transitions := wq_transitions q + 1\<rparr>)"
  by (auto simp: quantum_record_def res_simps)

lemma step_execution_validate_Inr:
  "step_execution_validate e = Inr () \<longleftrightarrow>
     (se_transaction e = Committed) = (se_outcome e = Progress \<or> se_outcome e = Yield)"
  by (cases "se_transaction e"; cases "se_outcome e") (simp_all add: step_execution_validate_def)

end
