(* ===== verification/Kernel_Contract.thy ===== *)
theory Kernel_Contract
  imports Work_Quantum
begin

text \<open>
  The protocol facts every kernel step reports (\<open>src/execution/contract.rs\<close>): the
  lifecycle phases, the progress witness, the output facts with their validation
  against the budget, and the geometric admission thresholds that schedule a drain.
\<close>

section \<open>Data\<close>

datatype lifecycle_phase = PhAdmit | PhProcess | PhDrain | PhFrontier

record progress_witness =
  input_advanced :: bool
  state_changed :: bool
  output_appended :: bool
  frontier_advanced :: bool
  continuation_changed :: bool
  action_completed :: bool

definition witness_default :: progress_witness where
  "witness_default = \<lparr>input_advanced = False, state_changed = False, output_appended = False,
     frontier_advanced = False, continuation_changed = False, action_completed = False\<rparr>"

definition has_durable_progress :: "progress_witness \<Rightarrow> bool" where
  "has_durable_progress w \<longleftrightarrow>
     input_advanced w \<or> state_changed w \<or> output_appended w \<or> frontier_advanced w
     \<or> continuation_changed w"

datatype continuation_delta = Keep | Replace | Remove

datatype output_facts = NoOutput | DataOutput int | FrontierOutput int

record step_effects =
  ef_state_rows :: nat
  ef_output :: output_facts

definition effects_default :: step_effects where
  "effects_default = \<lparr>ef_state_rows = 0, ef_output = NoOutput\<rparr>"

datatype kernel_completion = Continue | Finished

fun has_continuation :: "kernel_completion \<Rightarrow> bool" where
  "has_continuation Continue = True"
| "has_continuation Finished = False"

record input_position =
  ip_stream_id :: int
  ip_chunk_seq :: int
  ip_row_ordinal :: int

definition input_position_new :: "int \<Rightarrow> int \<Rightarrow> int \<Rightarrow> input_position result" where
  "input_position_new stream_id chunk_seq row_ordinal =
     (if stream_id \<le> 0 \<or> chunk_seq \<le> 0 \<or> row_ordinal < 0
      then Inl ''input position contains an invalid identifier''
      else Inr \<lparr>ip_stream_id = stream_id, ip_chunk_seq = chunk_seq,
                ip_row_ordinal = row_ordinal\<rparr>)"

section \<open>Admission thresholds\<close>

record admission_progress =
  ap_rows :: nat
  ap_bytes :: nat

definition admission_is_empty :: "admission_progress \<Rightarrow> bool" where
  "admission_is_empty p \<longleftrightarrow> ap_rows p = 0 \<and> ap_bytes p = 0"

text \<open>
  The loop that doubles the threshold.  It is a partial function: with a zero threshold the
  Rust loop does not end, so an ending loop is the value \<open>Some\<close>.
\<close>

partial_function (option) threshold_loop :: "nat \<Rightarrow> nat \<Rightarrow> nat \<Rightarrow> nat option" where
  "threshold_loop before cap threshold =
     (if threshold \<le> before \<and> threshold < cap
      then threshold_loop before cap (min (saturating_mul_u64 threshold 2) cap)
      else Some threshold)"

text \<open>
  \<open>crossed_admission_threshold\<close>; the outer \<open>option\<close> is \<open>None\<close> when the loop does not end.
\<close>

definition crossed_admission_threshold ::
    "nat \<Rightarrow> nat \<Rightarrow> nat \<Rightarrow> nat \<Rightarrow> string \<Rightarrow> bool result option" where
  "crossed_admission_threshold before after quantum cap dim =
     (if quantum = 0 \<or> cap = 0 \<or> cap < quantum
      then Some (Inl (''invalid admission '' @ dim @ '' policy''))
      else if after < before \<or> i64_max_u64 < after
      then Some (Inl (''invalid admission '' @ dim @ '' progress''))
      else if before = i64_max_u64 then Some (Inr True)
      else
        let finish = (\<lambda>next.
          Some (Inr ((case next of None \<Rightarrow> False | Some t \<Rightarrow> t \<le> after)
                     \<or> after = i64_max_u64)))
        in if before < cap
           then (case threshold_loop before cap quantum of
                   None \<Rightarrow> None
                 | Some t \<Rightarrow> finish (Some t))
           else finish
             (case checked_add_u64 (before div cap) 1 of
                None \<Rightarrow> None
              | Some epoch \<Rightarrow>
                  (case checked_mul_u64 epoch cap of
                     None \<Rightarrow> None
                   | Some t \<Rightarrow> if t \<le> i64_max_u64 then Some t else None)))"

definition admission_record ::
    "admission_progress \<Rightarrow> work_usage \<Rightarrow> nat \<Rightarrow> nat \<Rightarrow> nat \<Rightarrow> nat
     \<Rightarrow> (admission_progress \<times> bool) result option" where
  "admission_record p u row_quantum row_cap byte_quantum byte_cap =
     (if input_rows u = 0 then Some (Inl ''admission made no input-row progress'')
      else if input_bytes u = 0 then Some (Inl ''admission made no input-byte progress'')
      else
        let next = \<lparr>ap_rows = min (saturating_add_u64 (ap_rows p) (input_rows u)) i64_max_u64,
                    ap_bytes = min (saturating_add_u64 (ap_bytes p) (input_bytes u)) i64_max_u64\<rparr>
        in case crossed_admission_threshold (ap_rows p) (ap_rows next) row_quantum row_cap ''row'' of
             None \<Rightarrow> None
           | Some (Inl e) \<Rightarrow> Some (Inl e)
           | Some (Inr row_drain) \<Rightarrow>
               (case crossed_admission_threshold (ap_bytes p) (ap_bytes next) byte_quantum byte_cap
                       ''byte'' of
                  None \<Rightarrow> None
                | Some (Inl e) \<Rightarrow> Some (Inl e)
                | Some (Inr byte_drain) \<Rightarrow> Some (Inr (next, row_drain \<or> byte_drain))))"

section \<open>Validation against the budget\<close>

definition validate_dimension :: "nat \<Rightarrow> nat \<Rightarrow> nat \<Rightarrow> nat \<Rightarrow> string \<Rightarrow> unit result" where
  "validate_dimension rows bytes max_rows max_bytes name =
     (if max_rows < rows then Inl (name @ '' primitive exceeded its row budget'')
      else if max_bytes < bytes \<and> rows \<noteq> 1
      then Inl (name @ '' primitive exceeded its byte budget'')
      else Inr ())"

definition usage_validate :: "work_usage \<Rightarrow> work_budget \<Rightarrow> unit result" where
  "usage_validate u b =
     bind_res (validate_dimension (input_rows u) (input_bytes u)
                 (max_input_rows b) (max_input_bytes b) ''input'') (\<lambda>_.
     validate_dimension (output_rows u) (output_bytes u)
       (max_output_rows b) (max_output_bytes b) ''output'')"

record page_facts =
  pf_usage :: work_usage
  pf_last_row_id :: "int option"
  pf_complete :: bool

definition page_facts_validate :: "page_facts \<Rightarrow> work_budget \<Rightarrow> unit result" where
  "page_facts_validate p b =
     bind_res (usage_validate (pf_usage p) b) (\<lambda>_.
     if input_rows (pf_usage p) = 0 \<and> pf_last_row_id p \<noteq> None
     then Inl ''empty primitive page returned a row cursor''
     else if 0 < input_rows (pf_usage p) \<and> pf_last_row_id p = None \<and> \<not> pf_complete p
     then Inl ''partial primitive page omitted its row cursor''
     else Inr ())"

record primitive_facts =
  pr_usage :: work_usage
  pr_state_rows :: nat
  pr_output :: output_facts

definition primitive_validate :: "primitive_facts \<Rightarrow> work_budget \<Rightarrow> unit result" where
  "primitive_validate p b =
     bind_res (usage_validate (pr_usage p) b) (\<lambda>_.
     case pr_output p of
       NoOutput \<Rightarrow>
         if 0 < output_rows (pr_usage p)
         then Inl ''primitive emitted rows without an output chunk'' else Inr ()
     | DataOutput chunk_seq \<Rightarrow>
         if chunk_seq \<le> 0 then Inl ''primitive returned a non-positive output chunk''
         else if output_rows (pr_usage p) = 0 then Inl ''data chunk contains no output rows''
         else Inr ()
     | FrontierOutput chunk_seq \<Rightarrow>
         if chunk_seq \<le> 0 then Inl ''primitive returned a non-positive frontier chunk''
         else if output_rows (pr_usage p) \<noteq> 0 \<or> output_bytes (pr_usage p) \<noteq> 0
         then Inl ''frontier chunk contains output rows''
         else Inr ())"

fun is_frontier_output :: "output_facts \<Rightarrow> bool" where
  "is_frontier_output (FrontierOutput _) = True"
| "is_frontier_output _ = False"

fun is_data_output :: "output_facts \<Rightarrow> bool" where
  "is_data_output (DataOutput _) = True"
| "is_data_output _ = False"

definition validate_protocol ::
    "primitive_facts \<Rightarrow> work_budget \<Rightarrow> lifecycle_phase \<Rightarrow> kernel_completion \<Rightarrow> unit result" where
  "validate_protocol p b phase completion =
     bind_res (primitive_validate p b) (\<lambda>_.
     if phase \<noteq> PhFrontier \<and> is_frontier_output (pr_output p)
     then Inl ''non-frontier primitive emitted a frontier chunk''
     else if phase = PhFrontier \<and> is_data_output (pr_output p)
     then Inl ''frontier primitive emitted a data chunk''
     else if is_frontier_output (pr_output p) \<and> completion \<noteq> Finished
     then Inl ''frontier output left a continuation behind''
     else Inr ())"

text \<open>\<open>PhaseCode::active\<close>: the persisted code of an active phase is positive.\<close>

definition phase_code_active :: "int \<Rightarrow> int result" where
  "phase_code_active v =
     (if v \<le> 0 then Inl ''active operator phase code must be positive'' else Inr v)"

section \<open>Lemmas on the validators\<close>

text \<open>\<open>within\<close>: what a validated dimension promises about its budget.\<close>

definition within :: "nat \<Rightarrow> nat \<Rightarrow> nat \<Rightarrow> nat \<Rightarrow> bool" where
  "within rows bytes max_rows max_bytes \<longleftrightarrow>
     rows \<le> max_rows \<and> (bytes \<le> max_bytes \<or> rows = 1)"

lemma validate_dimension_Inr [res_simps]:
  "validate_dimension rows bytes max_rows max_bytes name = Inr () \<longleftrightarrow>
     within rows bytes max_rows max_bytes"
  by (auto simp: validate_dimension_def within_def)

lemma usage_validate_Inr [res_simps]:
  "usage_validate u b = Inr () \<longleftrightarrow>
     within (input_rows u) (input_bytes u) (max_input_rows b) (max_input_bytes b) \<and>
     within (output_rows u) (output_bytes u) (max_output_rows b) (max_output_bytes b)"
  by (simp add: usage_validate_def res_simps)

lemma page_facts_validate_Inr [res_simps]:
  "page_facts_validate p b = Inr () \<longleftrightarrow>
     usage_validate (pf_usage p) b = Inr () \<and>
     (input_rows (pf_usage p) = 0 \<longrightarrow> pf_last_row_id p = None) \<and>
     (0 < input_rows (pf_usage p) \<longrightarrow> pf_last_row_id p \<noteq> None \<or> pf_complete p)"
  by (auto simp: page_facts_validate_def res_simps)

lemma primitive_validate_Inr [res_simps]:
  "primitive_validate p b = Inr () \<longleftrightarrow>
     usage_validate (pr_usage p) b = Inr () \<and>
     (case pr_output p of
        NoOutput \<Rightarrow> output_rows (pr_usage p) = 0
      | DataOutput c \<Rightarrow> 0 < c \<and> 0 < output_rows (pr_usage p)
      | FrontierOutput c \<Rightarrow> 0 < c \<and> output_rows (pr_usage p) = 0
                            \<and> output_bytes (pr_usage p) = 0)"
  by (cases "pr_output p") (auto simp: primitive_validate_def res_simps)

lemma validate_protocol_Inr [res_simps]:
  "validate_protocol p b phase completion = Inr () \<longleftrightarrow>
     primitive_validate p b = Inr () \<and>
     (is_frontier_output (pr_output p) \<longrightarrow> phase = PhFrontier \<and> completion = Finished) \<and>
     (is_data_output (pr_output p) \<longrightarrow> phase \<noteq> PhFrontier)"
  by (cases "pr_output p") (auto simp: validate_protocol_def res_simps)

end
