(* ===== verification/Admission_Schedule.thy ===== *)
theory Admission_Schedule
  imports Kernel_Contract
begin

text \<open>
  The specification of the drain schedule and the proof that the doubling loop of
  \<open>crossed_admission_threshold\<close> (\<open>src/execution/contract.rs\<close>) implements it, with the
  admission settings of \<open>src/config.rs\<close>.
\<close>

section \<open>The schedule\<close>

text \<open>
  The drain points: the quantum doubled up to the interval cap, then every multiple of the
  cap.
\<close>

definition on_schedule :: "nat \<Rightarrow> nat \<Rightarrow> nat \<Rightarrow> bool" where
  "on_schedule quantum cap t \<longleftrightarrow>
     (\<exists>k. t = quantum * 2 ^ k \<and> t < cap) \<or> (\<exists>j. 0 < j \<and> t = cap * j)"

definition drain_due :: "nat \<Rightarrow> nat \<Rightarrow> nat \<Rightarrow> nat \<Rightarrow> bool" where
  "drain_due quantum cap before after \<longleftrightarrow>
     (\<exists>t. on_schedule quantum cap t \<and> before < t \<and> t \<le> after)"

text \<open>The least drain point above \<open>before\<close>.\<close>

definition next_point :: "nat \<Rightarrow> nat \<Rightarrow> nat \<Rightarrow> nat \<Rightarrow> bool" where
  "next_point quantum cap before t \<longleftrightarrow>
     on_schedule quantum cap t \<and> before < t \<and>
     (\<forall>u. on_schedule quantum cap u \<longrightarrow> before < u \<longrightarrow> t \<le> u)"

lemma next_point_drain:
  "next_point quantum cap before t \<Longrightarrow> drain_due quantum cap before after \<longleftrightarrow> t \<le> after"
  unfolding next_point_def drain_due_def by (meson le_trans)

section \<open>Configuration\<close>

text \<open>The admission settings derived from the batch settings.\<close>

definition admission_byte_batches :: nat where "admission_byte_batches = 8"
definition admission_row_interval_cap :: nat where "admission_row_interval_cap = 1000000"
definition admission_byte_interval_cap :: nat where "admission_byte_interval_cap = 2147483647"

definition admission_rows :: "nat \<Rightarrow> nat" where
  "admission_rows batch_rows = batch_rows"

definition admission_bytes_for :: "nat \<Rightarrow> nat" where
  "admission_bytes_for batch_bytes =
     min (saturating_mul_u64 batch_bytes admission_byte_batches) admission_byte_interval_cap"

section \<open>The loop finds the next point\<close>

lemma on_schedule_cap: "0 < cap \<Longrightarrow> on_schedule quantum cap cap"
  unfolding on_schedule_def by (metis mult.right_neutral zero_less_one)

lemma on_schedule_doubled:
  assumes "on_schedule quantum cap u" "before < u" "t \<le> before" "t = quantum * 2 ^ k"
  shows "min (t * 2) cap \<le> u"
proof -
  consider j where "u = quantum * 2 ^ j" | j where "0 < j" "u = cap * j"
    using assms(1) unfolding on_schedule_def by blast
  then show ?thesis
  proof cases
    case 1
    have "quantum * 2 ^ k < quantum * 2 ^ j" using 1 assms by linarith
    then have "k < j" by simp
    then have "quantum * 2 ^ Suc k \<le> quantum * 2 ^ j"
      by (intro mult_le_mono2 power_increasing) auto
    moreover have "t * 2 = quantum * 2 ^ Suc k" using assms(4) by simp
    ultimately have "t * 2 \<le> u" using 1 by (simp only:)
    then show ?thesis by linarith
  next
    case 2
    then show ?thesis by (simp add: min.coboundedI2)
  qed
qed

lemma threshold_loop_next_point:
  assumes "0 < t" "t \<le> cap" "cap \<le> u64_max" "before < cap"
    and "t = cap \<or> (\<exists>k. t = quantum * 2 ^ k)"
    and "\<And>u. on_schedule quantum cap u \<Longrightarrow> before < u \<Longrightarrow> t \<le> u"
  shows "\<exists>r. threshold_loop before cap t = Some r \<and> next_point quantum cap before r"
  using assms
proof (induction "cap - t" arbitrary: t rule: less_induct)
  case less
  show ?case
  proof (cases "t \<le> before \<and> t < cap")
    case True
    then obtain k where k: "t = quantum * 2 ^ k" using less.prems by auto
    let ?t = "min (saturating_mul_u64 t 2) cap"
    have t: "?t = min (t * 2) cap"
      using less.prems by (auto simp: saturating_mul_u64_def min_def)
    have step: "threshold_loop before cap t = threshold_loop before cap ?t"
      using True by (subst threshold_loop.simps) simp
    have dbl: "?t = cap \<or> (\<exists>k. ?t = quantum * 2 ^ k)"
    proof (cases "t * 2 \<le> cap")
      case True
      have "t * 2 = quantum * 2 ^ Suc k" using k by simp
      then show ?thesis using True t by (metis min.absorb1)
    qed (simp add: t)
    have least: "?t \<le> u" if "on_schedule quantum cap u" "before < u" for u
      using on_schedule_doubled[OF that] True k t by auto
    have "t < ?t" using True less.prems(1) t by simp
    then have "cap - ?t < cap - t" "0 < ?t" "?t \<le> cap" using True by auto
    then show ?thesis
      using less.hyps[of ?t] less.prems(3,4) dbl least step by auto
  next
    case False
    then have "before < t" using less.prems by auto
    moreover have "on_schedule quantum cap t"
      using less.prems on_schedule_cap[of cap quantum] unfolding on_schedule_def
      by (metis le_neq_implies_less)
    ultimately show ?thesis
      using False less.prems(6) by (subst threshold_loop.simps) (auto simp: next_point_def)
  qed
qed

lemma next_point_multiple:
  assumes "cap \<le> before" "0 < cap"
  shows "next_point quantum cap before ((before div cap + 1) * cap)"
proof -
  have lt: "before < (before div cap + 1) * cap"
    using assms by (metis Suc_eq_plus1 dividend_less_times_div mult.commute mult_Suc_right add.commute)
  have "(before div cap + 1) * cap \<le> u" if "on_schedule quantum cap u" "before < u" for u
  proof -
    have "\<exists>j. u = cap * j" using that assms by (auto simp: on_schedule_def)
    then obtain j where j: "u = cap * j" by blast
    then have "before div cap < j" using that by (metis div_less_iff_less_mult assms(2) mult.commute)
    then show ?thesis using j by (metis Suc_eq_plus1 Suc_leI mult.commute mult_le_mono2)
  qed
  then show ?thesis
    using lt by (auto simp: next_point_def on_schedule_def mult.commute)
qed

section \<open>The source implements the schedule\<close>

lemma crossed_value:
  assumes "0 < quantum" "quantum \<le> cap" "cap \<le> u64_max" "before \<le> after" "after \<le> i64_max_u64"
  shows "crossed_admission_threshold before after quantum cap dim =
     Some (Inr (drain_due quantum cap before after \<or> after = i64_max_u64))"
proof (cases "before < cap")
  case True
  have "quantum \<le> u" if "on_schedule quantum cap u" "before < u" for u
    using that assms(2) unfolding on_schedule_def by (auto intro: le_trans)
  then obtain r where "threshold_loop before cap quantum = Some r" "next_point quantum cap before r"
    using threshold_loop_next_point[of quantum cap before quantum] assms True
    by (metis mult.right_neutral power_0)
  then show ?thesis
    using assms True next_point_drain
    by (auto simp: crossed_admission_threshold_def)
next
  case False
  let ?t = "(before div cap + 1) * cap"
  have t: "next_point quantum cap before ?t"
    using next_point_multiple False assms by auto
  have split: "?t = before div cap * cap + cap" by simp
  have le: "before div cap * cap \<le> before" "before div cap \<le> before" by simp_all
  have "?t \<le> 2 * i64_max_u64" using False assms(4,5) le(1) split by linarith
  moreover have "before div cap + 1 \<le> 2 * i64_max_u64"
    using le(2) assms(4,5) unfolding int_bounds by linarith
  ultimately have "?t \<le> u64_max" "before div cap + 1 \<le> u64_max" unfolding int_bounds by linarith+
  then have "checked_mul_u64 (before div cap + 1) cap = Some ?t"
    and "checked_add_u64 (before div cap) 1 = Some (before div cap + 1)"
    by (simp_all add: res_simps int_bounds)
  then show ?thesis
    using False assms next_point_drain[OF t, of after]
    by (auto simp: crossed_admission_threshold_def)
qed

text \<open>Every interval of \<open>cap\<close> admitted units holds a drain point.\<close>

lemma drain_due_within_cap:
  assumes "0 < cap" "before + cap \<le> after"
  shows "drain_due quantum cap before after"
proof -
  let ?t = "(before div cap + 1) * cap"
  have "before < ?t"
    using assms by (metis Suc_eq_plus1 dividend_less_times_div mult.commute mult_Suc_right add.commute)
  moreover have "?t \<le> after"
    using assms by (simp add: le_trans[of _ "cap + before"])
  moreover have "on_schedule quantum cap ?t"
    unfolding on_schedule_def by (metis add_is_0 mult.commute neq0_conv one_neq_zero)
  ultimately show ?thesis unfolding drain_due_def by blast
qed

lemma saturating_clamped: "min (saturating_add_u64 a b) i64_max_u64 = min (a + b) i64_max_u64"
  by (simp add: saturating_add_u64_def int_bounds)

text \<open>
  C28: Recording an admission adds its rows and bytes, clamped at the largest \<open>bigint\<close>, and asks
  for a drain exactly when a point of the doubling schedule was crossed in rows or in bytes, or
  a counter is at its clamp.  The doubling loop ends for every valid policy, and a drain is
  never put off by more than one interval cap.\<close>

theorem admission_follows_schedule:
  assumes "0 < rq" "rq \<le> rc" "rc \<le> u64_max" "0 < bq" "bq \<le> bc" "bc \<le> u64_max"
    "ap_rows p \<le> i64_max_u64" "ap_bytes p \<le> i64_max_u64"
    "0 < input_rows u" "0 < input_bytes u"
  shows "\<exists>rows bytes drain. admission_record p u rq rc bq bc =
      Some (Inr (\<lparr>ap_rows = rows, ap_bytes = bytes\<rparr>, drain)) \<and>
    rows = min (ap_rows p + input_rows u) i64_max_u64 \<and>
    bytes = min (ap_bytes p + input_bytes u) i64_max_u64 \<and>
    drain = (drain_due rq rc (ap_rows p) rows \<or> drain_due bq bc (ap_bytes p) bytes \<or>
             rows = i64_max_u64 \<or> bytes = i64_max_u64) \<and>
    (ap_rows p + rc \<le> rows \<longrightarrow> drain) \<and> (ap_bytes p + bc \<le> bytes \<longrightarrow> drain)"
proof -
  let ?rows = "min (ap_rows p + input_rows u) i64_max_u64"
  let ?bytes = "min (ap_bytes p + input_bytes u) i64_max_u64"
  have r: "crossed_admission_threshold (ap_rows p) ?rows rq rc ''row'' =
      Some (Inr (drain_due rq rc (ap_rows p) ?rows \<or> ?rows = i64_max_u64))"
    using assms by (intro crossed_value) auto
  have b: "crossed_admission_threshold (ap_bytes p) ?bytes bq bc ''byte'' =
      Some (Inr (drain_due bq bc (ap_bytes p) ?bytes \<or> ?bytes = i64_max_u64))"
    using assms by (intro crossed_value) auto
  have "admission_record p u rq rc bq bc =
      Some (Inr (\<lparr>ap_rows = ?rows, ap_bytes = ?bytes\<rparr>,
        (drain_due rq rc (ap_rows p) ?rows \<or> ?rows = i64_max_u64) \<or>
        (drain_due bq bc (ap_bytes p) ?bytes \<or> ?bytes = i64_max_u64)))"
    using assms(9,10) r b by (simp add: admission_record_def saturating_clamped Let_def)
  then show ?thesis
    using drain_due_within_cap[of rc "ap_rows p" ?rows rq] drain_due_within_cap[of bc "ap_bytes p" ?bytes bq]
      assms(1,2,4,5) by auto
qed

theorem admission_follows_schedule_witness:
  "\<exists>drain. admission_record \<lparr>ap_rows = 900, ap_bytes = 10\<rparr>
     \<lparr>input_rows = 200, input_bytes = 30, output_rows = 0, output_bytes = 0\<rparr> 100 150 1000 5000 =
     Some (Inr (\<lparr>ap_rows = 1100, ap_bytes = 40\<rparr>, drain)) \<and> drain"
  using admission_follows_schedule[of 100 150 1000 5000 "\<lparr>ap_rows = 900, ap_bytes = 10\<rparr>"
      "\<lparr>input_rows = 200, input_bytes = 30, output_rows = 0, output_bytes = 0\<rparr>"]
  by (auto simp: int_bounds)

end
