(* ===== verification/Wire_Bytes.thy ===== *)
theory Wire_Bytes
  imports Shiba_Prelude
begin

text \<open>
  Bytes on the replication connection: big-endian integers as \<open>to_be_bytes\<close> and
  \<open>from_be_bytes\<close> read and write them, slices at an offset, and the UTF-8 test of
  \<open>std::str::from_utf8\<close>.  A Rust \<open>&[u8]\<close> is a list of 8-bit words; a \<open>String\<close> received
  from the wire is the list of its UTF-8 bytes.
\<close>

type_synonym byte = "8 word"
type_synonym bytes = "8 word list"

abbreviation byte_of :: "char \<Rightarrow> byte" where
  "byte_of c \<equiv> of_char c"

section \<open>Big-endian integers\<close>

fun be_bytes :: "nat \<Rightarrow> nat \<Rightarrow> bytes" where
  "be_bytes 0 v = []"
| "be_bytes (Suc n) v = be_bytes n (v div 256) @ [word_of_nat v]"

definition from_be :: "bytes \<Rightarrow> nat" where
  "from_be bs = foldl (\<lambda>acc b. acc * 256 + unat b) 0 bs"

lemma length_be_bytes [simp]: "length (be_bytes n v) = n"
  by (induction n arbitrary: v) auto

lemma from_be_Nil [simp]: "from_be [] = 0"
  by (simp add: from_be_def)

lemma from_be_snoc [simp]: "from_be (bs @ [b]) = from_be bs * 256 + unat b"
  by (simp add: from_be_def)

lemma unat_byte_less [simp]: "unat (b :: byte) < 256"
  using unsigned_less[of b] by simp

lemma from_be_less: "from_be bs < 256 ^ length bs"
proof (induction bs rule: rev_induct)
  case (snoc b bs)
  have "from_be bs * 256 + unat b < (from_be bs + 1) * 256"
    using unat_byte_less[of b] by simp
  also have "\<dots> \<le> 256 ^ length bs * 256"
    using snoc by (intro mult_le_mono1) simp
  finally show ?case by (simp add: mult.commute)
qed simp

lemma from_be_be_bytes: "from_be (be_bytes n v) = v mod 256 ^ n"
proof (induction n arbitrary: v)
  case (Suc n)
  have "unat (word_of_nat v :: byte) = v mod 256"
    by (simp add: unat_of_nat)
  then show ?case
    using Suc[of "v div 256"] by (simp add: mod_mult2_eq mult.commute)
qed simp

lemma be_bytes_from_be: "be_bytes (length bs) (from_be bs) = bs"
proof (induction bs rule: rev_induct)
  case (snoc b bs)
  have "(from_be bs * 256 + unat b) div 256 = from_be bs"
    using unat_byte_less[of b] by simp
  moreover have "(word_of_nat (from_be bs * 256 + unat b) :: byte) = b"
  proof -
    have "(256 :: byte) = 0" by simp
    then have "(word_of_nat (from_be bs) :: byte) * 256 = 0" by (metis mult_zero_right)
    then show ?thesis by simp
  qed
  ultimately show ?case using snoc by simp
qed simp

text \<open>\<open>u16\<close>, \<open>u32\<close> and \<open>u64\<close> on the wire; an \<open>i64\<close> is its two's complement word.\<close>

definition be_word :: "'a::len word \<Rightarrow> bytes" where
  "be_word w = be_bytes (LENGTH('a) div 8) (unat w)"

definition word_from_be :: "bytes \<Rightarrow> 'a::len word" where
  "word_from_be bs = word_of_nat (from_be bs)"

definition be_i64 :: "int \<Rightarrow> bytes" where
  "be_i64 t = be_word (word_of_int t :: 64 word)"

definition i64_from_be :: "bytes \<Rightarrow> int" where
  "i64_from_be bs = sint (word_from_be bs :: 64 word)"

lemma length_be_word [simp]: "length (be_word (w :: 'a::len word)) = LENGTH('a) div 8"
  by (simp add: be_word_def)

lemma length_be_i64 [simp]: "length (be_i64 t) = 8"
  by (simp add: be_i64_def)

lemma byte_power: "(256::nat) ^ n = 2 ^ (8 * n)"
  by (simp add: power_mult)

lemma word_from_be_word:
  assumes "8 dvd LENGTH('a)"
  shows "word_from_be (be_word w) = (w :: 'a::len word)"
proof -
  have "unat w < 256 ^ (LENGTH('a) div 8)"
    using unsigned_less[of w] assms by (simp add: byte_power)
  then show ?thesis
    by (simp add: word_from_be_def be_word_def from_be_be_bytes)
qed

lemma be_word_from_be:
  assumes "8 * length bs = LENGTH('a)"
  shows "be_word (word_from_be bs :: 'a::len word) = bs"
proof -
  have "from_be bs < 2 ^ LENGTH('a)"
    using from_be_less[of bs] assms by (simp add: byte_power)
  then have "unat (word_from_be bs :: 'a word) = from_be bs"
    by (simp add: word_from_be_def unat_of_nat)
  moreover have "LENGTH('a) div 8 = length bs" using assms by linarith
  ultimately show ?thesis
    by (simp add: be_word_def be_bytes_from_be)
qed

lemma in_i64_sint: "in_i64 (sint (w :: 64 word))"
  using sint_range_size[of w] by (simp add: in_i64_def int_bounds word_size)

lemma sint_word_of_int_i64: "in_i64 t \<Longrightarrow> sint (word_of_int t :: 64 word) = t"
  by (simp add: in_i64_def int_bounds sint_sbintrunc' signed_take_bit_int_eq_self)

lemma i64_from_be_i64: "in_i64 t \<Longrightarrow> i64_from_be (be_i64 t) = t"
  by (simp add: i64_from_be_def be_i64_def word_from_be_word sint_word_of_int_i64)

lemma be_i64_from_be: "length bs = 8 \<Longrightarrow> be_i64 (i64_from_be bs) = bs"
  by (simp add: be_i64_def i64_from_be_def be_word_from_be)

lemma in_i64_from_be [simp]: "in_i64 (i64_from_be bs)"
  by (simp add: i64_from_be_def in_i64_sint)

section \<open>Slices\<close>

text \<open>\<open>input.get(start..end)\<close> and \<open>input.get(index)\<close>.\<close>

definition get_range :: "bytes \<Rightarrow> nat \<Rightarrow> nat \<Rightarrow> bytes option" where
  "get_range xs start stop =
     (if start \<le> stop \<and> stop \<le> length xs then Some (take (stop - start) (drop start xs))
      else None)"

definition get_at :: "bytes \<Rightarrow> nat \<Rightarrow> byte option" where
  "get_at xs i = (if i < length xs then Some (xs ! i) else None)"

text \<open>What stands in the input from an offset on.\<close>

definition rest_at :: "bytes \<Rightarrow> nat \<Rightarrow> bytes \<Rightarrow> bool" where
  "rest_at xs off suffix \<longleftrightarrow> (\<exists>pre. length pre = off \<and> xs = pre @ suffix)"

lemma rest_at_drop: "rest_at xs off ys \<longleftrightarrow> off \<le> length xs \<and> ys = drop off xs"
  unfolding rest_at_def
  by (auto intro!: exI[of _ "take off xs"])

lemma rest_at_0 [simp]: "rest_at xs 0 ys = (xs = ys)"
  by (auto simp: rest_at_def)

lemma rest_at_fun: "rest_at xs off ys \<Longrightarrow> rest_at xs off zs \<Longrightarrow> ys = zs"
  by (simp add: rest_at_drop)

lemma rest_at_length: "rest_at xs off ys \<Longrightarrow> length xs = off + length ys"
  by (auto simp: rest_at_def)

lemma rest_at_append:
  assumes "rest_at xs off (ys @ zs)" "n = length ys"
  shows "rest_at xs (off + n) zs"
proof -
  obtain pre where "length pre = off" "xs = (pre @ ys) @ zs"
    using assms(1) by (auto simp: rest_at_def)
  then show ?thesis unfolding rest_at_def using assms(2) by (metis length_append)
qed

lemma rest_at_skip: "rest_at xs a zs \<Longrightarrow> a = b \<Longrightarrow> rest_at xs b zs"
  by simp

lemma rest_at_Cons: "rest_at xs off (y # ys) \<Longrightarrow> rest_at xs (off + 1) ys"
  using rest_at_append[of xs off "[y]" ys 1] by simp

lemma get_range_Some:
  "get_range xs off (off + n) = Some ys \<longleftrightarrow>
     length ys = n \<and> (\<exists>zs. rest_at xs off (ys @ zs))"
proof
  assume "get_range xs off (off + n) = Some ys"
  then have eq: "ys = take n (drop off xs)" and le: "off + n \<le> length xs"
    by (auto simp: get_range_def split: if_splits)
  have "rest_at xs off (ys @ drop n (drop off xs))"
    using le unfolding rest_at_drop eq append_take_drop_id by simp
  then show "length ys = n \<and> (\<exists>zs. rest_at xs off (ys @ zs))"
    using eq le by auto
next
  assume "length ys = n \<and> (\<exists>zs. rest_at xs off (ys @ zs))"
  then obtain zs pre where "length ys = n" "length pre = off" "xs = pre @ ys @ zs"
    by (auto simp: rest_at_def)
  then show "get_range xs off (off + n) = Some ys"
    by (simp add: get_range_def)
qed

lemma get_at_Some: "get_at xs off = Some b \<longleftrightarrow> (\<exists>zs. rest_at xs off (b # zs))"
proof
  assume "get_at xs off = Some b"
  then have "off < length xs" "xs ! off = b" by (auto simp: get_at_def split: if_splits)
  then have "rest_at xs off (b # drop (Suc off) xs)"
    using Cons_nth_drop_Suc[of off xs] by (auto simp: rest_at_drop)
  then show "\<exists>zs. rest_at xs off (b # zs)" by blast
qed (auto simp: rest_at_def get_at_def)

section \<open>UTF-8\<close>

text \<open>
  The byte sequences \<open>std::str::from_utf8\<close> accepts (Unicode, Table 3-7: no overlong form,
  no surrogate, nothing above U+10FFFF).
\<close>

definition cont_byte :: "byte \<Rightarrow> bool" where
  "cont_byte b \<longleftrightarrow> 128 \<le> b \<and> b \<le> 191"

fun utf8_valid :: "bytes \<Rightarrow> bool" where
  "utf8_valid [] = True"
| "utf8_valid (a # rest) =
     (if a \<le> 127 then utf8_valid rest
      else if 194 \<le> a \<and> a \<le> 223 then
        (case rest of b # r \<Rightarrow> cont_byte b \<and> utf8_valid r | [] \<Rightarrow> False)
      else if 224 \<le> a \<and> a \<le> 239 then
        (case rest of
           b # c # r \<Rightarrow>
             cont_byte b \<and> cont_byte c \<and> (a = 224 \<longrightarrow> 160 \<le> b) \<and> (a = 237 \<longrightarrow> b \<le> 159)
             \<and> utf8_valid r
         | _ \<Rightarrow> False)
      else if 240 \<le> a \<and> a \<le> 244 then
        (case rest of
           b # c # d # r \<Rightarrow>
             cont_byte b \<and> cont_byte c \<and> cont_byte d \<and> (a = 240 \<longrightarrow> 144 \<le> b)
             \<and> (a = 244 \<longrightarrow> b \<le> 143) \<and> utf8_valid r
         | _ \<Rightarrow> False)
      else False)"

end
