(* ===== verification/Pgoutput.thy ===== *)
theory Pgoutput
  imports Wire_Bytes
begin

text \<open>
  The pgoutput protocol-v2 parser (\<open>src/replication/pgoutput.rs\<close>), function by function
  on offsets into the message, as the source reads it.  Texts are the UTF-8 bytes the parser
  has checked.
\<close>

section \<open>Messages\<close>

type_synonym utf8 = bytes
type_synonym tuple = "utf8 option list"
type_synonym oid = "32 word"
type_synonym xid = "32 word"
type_synonym lsn = "64 word"

datatype message =
    Begin lsn xid
  | Commit lsn lsn
  | StreamStart xid bool
  | StreamStop
  | StreamCommit xid byte lsn lsn int
  | StreamAbort xid xid
  | Relation "xid option" oid "utf8 list"
  | TypeMsg "xid option" oid utf8 utf8
  | Origin lsn utf8
  | Logical "xid option" bool lsn utf8 bytes
  | Insert "xid option" oid tuple
  | Update "xid option" oid tuple tuple
  | Delete "xid option" oid tuple
  | Truncate "xid option" "oid list" bool bool

datatype tuple_value = NullValue | TextValue utf8 | UnchangedToast

datatype parse_context = NonStreaming | Streaming

section \<open>Readers\<close>

definition read_range :: "bytes \<Rightarrow> nat \<Rightarrow> nat \<Rightarrow> bytes result" where
  "read_range input off n =
     bind_res (ok_or ''truncated pgoutput message'' (checked_add_u64 off n)) (\<lambda>stop.
     ok_or ''truncated pgoutput message'' (get_range input off stop))"

definition read_u16 :: "bytes \<Rightarrow> nat \<Rightarrow> 16 word result" where
  "read_u16 input off = bind_res (read_range input off 2) (\<lambda>bs. Inr (word_from_be bs))"

definition read_u32 :: "bytes \<Rightarrow> nat \<Rightarrow> 32 word result" where
  "read_u32 input off = bind_res (read_range input off 4) (\<lambda>bs. Inr (word_from_be bs))"

definition read_u64 :: "bytes \<Rightarrow> nat \<Rightarrow> 64 word result" where
  "read_u64 input off = bind_res (read_range input off 8) (\<lambda>bs. Inr (word_from_be bs))"

definition read_i64 :: "bytes \<Rightarrow> nat \<Rightarrow> int result" where
  "read_i64 input off = bind_res (read_range input off 8) (\<lambda>bs. Inr (i64_from_be bs))"

text \<open>\<open>iter().position(|byte| *byte == 0)\<close>.\<close>

fun zero_position :: "bytes \<Rightarrow> nat option" where
  "zero_position [] = None"
| "zero_position (b # bs) = (if b = 0 then Some 0 else map_option Suc (zero_position bs))"

definition read_cstr :: "bytes \<Rightarrow> nat \<Rightarrow> (utf8 \<times> nat) result" where
  "read_cstr input off =
     (if length input < off then Inl ''truncated pgoutput message''
      else
        let rest = drop off input in
        bind_res (ok_or ''unterminated pgoutput string'' (zero_position rest)) (\<lambda>stop.
        if utf8_valid (take stop rest) then Inr (take stop rest, off + stop + 1)
        else Inl ''pgoutput string is not UTF-8''))"

definition require_zero_flag :: "bytes \<Rightarrow> nat \<Rightarrow> string \<Rightarrow> unit result" where
  "require_zero_flag input off err =
     (case get_at input off of
        Some b \<Rightarrow> if b = 0 then Inr () else Inl err
      | None \<Rightarrow> Inl ''truncated pgoutput message'')"

definition require_exact_len :: "bytes \<Rightarrow> nat \<Rightarrow> string \<Rightarrow> unit result" where
  "require_exact_len input expected err =
     (if length input = expected then Inr () else Inl err)"

section \<open>Stream control messages\<close>

definition parse_stream_start :: "bytes \<Rightarrow> message result" where
  "parse_stream_start input =
     bind_res (require_exact_len input 6 ''invalid stream start message length'') (\<lambda>_.
     bind_res (read_u32 input 1) (\<lambda>xid.
     if xid = 0 then Inl ''invalid transaction ID in stream start''
     else if input ! 5 = 0 then Inr (StreamStart xid False)
     else if input ! 5 = 1 then Inr (StreamStart xid True)
     else Inl ''invalid stream start first-segment flag''))"

definition parse_stream_commit :: "bytes \<Rightarrow> message result" where
  "parse_stream_commit input =
     bind_res (require_exact_len input 30 ''invalid stream commit message length'') (\<lambda>_.
     bind_res (require_zero_flag input 5 ''invalid stream commit flags'') (\<lambda>_.
     bind_res (read_u32 input 1) (\<lambda>xid.
     if xid = 0 then Inl ''invalid transaction ID in stream commit''
     else
       bind_res (read_u64 input 6) (\<lambda>lsn.
       bind_res (read_u64 input 14) (\<lambda>end_lsn.
       bind_res (read_i64 input 22) (\<lambda>time.
       Inr (StreamCommit xid (input ! 5) lsn end_lsn time)))))))"

definition parse_stream_abort :: "bytes \<Rightarrow> message result" where
  "parse_stream_abort input =
     bind_res (require_exact_len input 9 ''invalid stream abort message length'') (\<lambda>_.
     bind_res (read_u32 input 1) (\<lambda>xid.
     bind_res (read_u32 input 5) (\<lambda>subxid.
     if xid = 0 \<or> subxid = 0 then Inl ''invalid transaction ID in stream abort''
     else Inr (StreamAbort xid subxid))))"

section \<open>Metadata messages\<close>

text \<open>The loop over the columns of a Relation message; it returns the offset it reaches.\<close>

fun parse_columns :: "bytes \<Rightarrow> nat \<Rightarrow> nat \<Rightarrow> (utf8 list \<times> nat) result" where
  "parse_columns input 0 off = Inr ([], off)"
| "parse_columns input (Suc n) off =
     bind_res (read_cstr input (off + 1)) (\<lambda>(name, name_end).
     bind_res (ok_or ''truncated relation message'' (checked_add_u64 name_end 8)) (\<lambda>next.
     if length input < next then Inl ''truncated relation message''
     else
       bind_res (parse_columns input n next) (\<lambda>(names, stop).
       Inr (name # names, stop))))"

definition parse_relation :: "bytes \<Rightarrow> nat \<Rightarrow> xid option \<Rightarrow> message result" where
  "parse_relation input off source_xid =
     bind_res (read_u32 input off) (\<lambda>relid.
     bind_res (read_cstr input (off + 4)) (\<lambda>(_, namespace_end).
     bind_res (read_cstr input namespace_end) (\<lambda>(_, relation_end).
     bind_res (read_u16 input (relation_end + 1)) (\<lambda>column_count.
     bind_res (parse_columns input (unat column_count) (relation_end + 3)) (\<lambda>(columns, stop).
     bind_res (require_exact_len input stop ''invalid relation message length'') (\<lambda>_.
     Inr (Relation source_xid relid columns)))))))"

definition parse_type :: "bytes \<Rightarrow> nat \<Rightarrow> xid option \<Rightarrow> message result" where
  "parse_type input off source_xid =
     bind_res (read_u32 input off) (\<lambda>typeid.
     bind_res (read_cstr input (off + 4)) (\<lambda>(namespace, namespace_end).
     bind_res (read_cstr input namespace_end) (\<lambda>(name, name_end).
     bind_res (require_exact_len input name_end ''invalid type message length'') (\<lambda>_.
     Inr (TypeMsg source_xid typeid namespace name)))))"

definition parse_origin :: "bytes \<Rightarrow> message result" where
  "parse_origin input =
     bind_res (read_u64 input 1) (\<lambda>origin_lsn.
     bind_res (read_cstr input 9) (\<lambda>(name, name_end).
     bind_res (require_exact_len input name_end ''invalid origin message length'') (\<lambda>_.
     Inr (Origin origin_lsn name))))"

definition parse_logical_message :: "bytes \<Rightarrow> nat \<Rightarrow> xid option \<Rightarrow> message result" where
  "parse_logical_message input off source_xid =
     bind_res (case get_at input off of
                 Some b \<Rightarrow> if b = 0 then Inr False else if b = 1 then Inr True
                           else Inl ''invalid logical message flags''
               | None \<Rightarrow> Inl ''truncated pgoutput message'') (\<lambda>transactional.
     bind_res (read_u64 input (off + 1)) (\<lambda>message_lsn.
     bind_res (read_cstr input (off + 9)) (\<lambda>(prefix, prefix_end).
     bind_res (read_u32 input prefix_end) (\<lambda>content_len.
     bind_res (ok_or ''truncated logical message'' (checked_add_u64 prefix_end 4)) (\<lambda>content_start.
     bind_res (ok_or ''truncated logical message''
                 (checked_add_u64 content_start (unat content_len))) (\<lambda>content_end.
     bind_res (ok_or ''truncated logical message''
                 (get_range input content_start content_end)) (\<lambda>content.
     bind_res (require_exact_len input content_end ''invalid logical message length'') (\<lambda>_.
     Inr (Logical source_xid transactional message_lsn prefix content)))))))))"

section \<open>Tuples\<close>

text \<open>The match on a column tag, inside the loop of \<open>parse_tuple\<close>.\<close>

definition parse_value :: "bytes \<Rightarrow> nat \<Rightarrow> byte \<Rightarrow> (tuple_value \<times> nat) result" where
  "parse_value input cursor tag =
       (if tag = byte_of CHR ''n'' then Inr (NullValue, cursor + 1)
        else if tag = byte_of CHR ''t'' then
          bind_res (read_u32 input (cursor + 1)) (\<lambda>len.
          bind_res (ok_or ''truncated tuple'' (checked_add_u64 (cursor + 5) (unat len))) (\<lambda>stop.
          bind_res (ok_or ''truncated tuple'' (get_range input (cursor + 5) stop)) (\<lambda>value.
          if utf8_valid value then Inr (TextValue value, stop)
          else Inl ''tuple value is not UTF-8'')))
        else if tag = byte_of CHR ''u'' then Inr (UnchangedToast, cursor + 1)
        else Inl ''invalid tuple column tag'')"

fun parse_values :: "bytes \<Rightarrow> nat \<Rightarrow> nat \<Rightarrow> (tuple_value list \<times> nat) result" where
  "parse_values input 0 cursor = Inr ([], cursor)"
| "parse_values input (Suc n) cursor =
     bind_res (ok_or ''truncated tuple'' (get_at input cursor)) (\<lambda>tag.
     bind_res (parse_value input cursor tag) (\<lambda>(value, next).
     bind_res (parse_values input n next) (\<lambda>(values, stop).
     Inr (value # values, stop))))"

definition parse_tuple :: "bytes \<Rightarrow> nat \<Rightarrow> (tuple_value list \<times> nat) result" where
  "parse_tuple input off =
     (case get_at input off of
        None \<Rightarrow> Inl ''invalid tuple tag''
      | Some tag \<Rightarrow>
        if tag = byte_of CHR ''N'' \<or> tag = byte_of CHR ''K'' \<or> tag = byte_of CHR ''O'' then
          bind_res (read_u16 input (off + 1)) (\<lambda>count.
          parse_values input (unat count) (off + 3))
        else Inl ''invalid tuple tag'')"

fun complete_tuple :: "tuple_value list \<Rightarrow> tuple result" where
  "complete_tuple [] = Inr []"
| "complete_tuple (v # vs) =
     bind_res (case v of
                 NullValue \<Rightarrow> Inr None
               | TextValue t \<Rightarrow> Inr (Some t)
               | UnchangedToast \<Rightarrow> Inl ''unchanged TOAST value requires an UPDATE old tuple'')
       (\<lambda>x. bind_res (complete_tuple vs) (\<lambda>xs. Inr (x # xs)))"

text \<open>The value at position \<open>index\<close> of the new tuple, resolved against the old one.\<close>

fun resolve_values :: "tuple \<Rightarrow> nat \<Rightarrow> tuple_value list \<Rightarrow> tuple result" where
  "resolve_values old index [] = Inr []"
| "resolve_values old index (v # vs) =
     bind_res (case v of
                 NullValue \<Rightarrow> Inr None
               | TextValue t \<Rightarrow> Inr (Some t)
               | UnchangedToast \<Rightarrow>
                   if index < length old then Inr (old ! index)
                   else Inl ''unchanged TOAST column is absent from the UPDATE old tuple'')
       (\<lambda>x. bind_res (resolve_values old (index + 1) vs) (\<lambda>xs. Inr (x # xs)))"

definition resolve_unchanged_toast :: "tuple \<Rightarrow> tuple_value list \<Rightarrow> tuple result" where
  "resolve_unchanged_toast old new = resolve_values old 0 new"

section \<open>Row messages\<close>

definition parse_insert :: "bytes \<Rightarrow> nat \<Rightarrow> xid option \<Rightarrow> message result" where
  "parse_insert input off source_xid =
     bind_res (read_u32 input off) (\<lambda>relid.
     if get_at input (off + 4) \<noteq> Some (byte_of CHR ''N'') then Inl ''invalid insert tuple tag''
     else
       bind_res (parse_tuple input (off + 4)) (\<lambda>(row, tuple_end).
       bind_res (require_exact_len input tuple_end ''invalid insert message length'') (\<lambda>_.
       bind_res (complete_tuple row) (\<lambda>row.
       Inr (Insert source_xid relid row)))))"

definition parse_update :: "bytes \<Rightarrow> nat \<Rightarrow> xid option \<Rightarrow> message result" where
  "parse_update input off source_xid =
     bind_res (read_u32 input off) (\<lambda>relid.
     bind_res (ok_or ''truncated update message'' (get_at input (off + 4))) (\<lambda>tag.
     bind_res
       (if tag = byte_of CHR ''K'' \<or> tag = byte_of CHR ''O'' then parse_tuple input (off + 4)
        else if tag = byte_of CHR ''N''
        then Inl ''UPDATE lacks an old tuple; source must use REPLICA IDENTITY FULL''
        else Inl ''invalid update tuple tag'') (\<lambda>(old, new_off).
     if get_at input new_off \<noteq> Some (byte_of CHR ''N'') then Inl ''UPDATE lacks a new tuple''
     else
       bind_res (complete_tuple old) (\<lambda>old.
       bind_res (parse_tuple input new_off) (\<lambda>(new, tuple_end).
       bind_res (require_exact_len input tuple_end ''invalid update message length'') (\<lambda>_.
       bind_res (resolve_unchanged_toast old new) (\<lambda>new.
       Inr (Update source_xid relid old new))))))))"

definition parse_delete :: "bytes \<Rightarrow> nat \<Rightarrow> xid option \<Rightarrow> message result" where
  "parse_delete input off source_xid =
     bind_res (read_u32 input off) (\<lambda>relid.
     if get_at input (off + 4) \<noteq> Some (byte_of CHR ''K'') \<and>
        get_at input (off + 4) \<noteq> Some (byte_of CHR ''O'')
     then Inl ''invalid delete tuple tag''
     else
       bind_res (parse_tuple input (off + 4)) (\<lambda>(old, tuple_end).
       bind_res (require_exact_len input tuple_end ''invalid delete message length'') (\<lambda>_.
       bind_res (complete_tuple old) (\<lambda>old.
       Inr (Delete source_xid relid old)))))"

fun parse_relids :: "bytes \<Rightarrow> nat \<Rightarrow> nat \<Rightarrow> oid list result" where
  "parse_relids input 0 off = Inr []"
| "parse_relids input (Suc n) off =
     bind_res (read_u32 input off) (\<lambda>relid.
     bind_res (parse_relids input n (off + 4)) (\<lambda>relids. Inr (relid # relids)))"

definition parse_truncate :: "bytes \<Rightarrow> nat \<Rightarrow> xid option \<Rightarrow> message result" where
  "parse_truncate input off source_xid =
     bind_res (read_u32 input off) (\<lambda>relation_count.
     bind_res (ok_or ''truncated truncate message'' (get_at input (off + 4))) (\<lambda>options.
     if and options (not 3) \<noteq> 0 then Inl ''invalid truncate options''
     else
       bind_res (ok_or ''truncated truncate message'' (checked_add_u64 off 5)) (\<lambda>relids_start.
       bind_res (ok_or ''truncated truncate message''
                   (checked_mul_u64 (unat relation_count) 4)) (\<lambda>relids_bytes.
       bind_res (ok_or ''truncated truncate message''
                   (checked_add_u64 relids_start relids_bytes)) (\<lambda>expected_len.
       bind_res (require_exact_len input expected_len ''invalid truncate message length'') (\<lambda>_.
       bind_res (parse_relids input (unat relation_count) relids_start) (\<lambda>relids.
       Inr (Truncate source_xid relids (and options 1 \<noteq> 0) (and options 2 \<noteq> 0)))))))))"

section \<open>Dispatch\<close>

definition parse_transactional ::
    "bytes \<Rightarrow> parse_context \<Rightarrow> (bytes \<Rightarrow> nat \<Rightarrow> xid option \<Rightarrow> message result) \<Rightarrow> message result"
where
  "parse_transactional input ctx parser =
     (case ctx of
        NonStreaming \<Rightarrow> parser input 1 None
      | Streaming \<Rightarrow>
          bind_res (read_u32 input 1) (\<lambda>xid.
          if xid = 0 then Inl ''invalid transaction ID in streamed replication transaction''
          else parser input 5 (Some xid)))"

definition parse_begin :: "bytes \<Rightarrow> message result" where
  "parse_begin input =
     bind_res (require_exact_len input 21 ''invalid begin message length'') (\<lambda>_.
     bind_res (read_u64 input 1) (\<lambda>final_lsn.
     bind_res (read_u32 input 17) (\<lambda>xid.
     Inr (Begin final_lsn xid))))"

definition parse_commit :: "bytes \<Rightarrow> message result" where
  "parse_commit input =
     bind_res (require_exact_len input 26 ''invalid commit message length'') (\<lambda>_.
     bind_res (require_zero_flag input 1 ''invalid commit flags'') (\<lambda>_.
     bind_res (read_u64 input 2) (\<lambda>lsn.
     bind_res (read_u64 input 10) (\<lambda>end_lsn.
     Inr (Commit lsn end_lsn)))))"

definition parse_stream_stop :: "bytes \<Rightarrow> message result" where
  "parse_stream_stop input =
     bind_res (require_exact_len input 1 ''invalid stream stop message length'') (\<lambda>_.
     Inr StreamStop)"

definition parse_with_context :: "bytes \<Rightarrow> parse_context \<Rightarrow> message result" where
  "parse_with_context input ctx =
     (case input of
        [] \<Rightarrow> Inl ''empty pgoutput message''
      | tag # _ \<Rightarrow>
        if tag = byte_of CHR ''B'' then parse_begin input
        else if tag = byte_of CHR ''C'' then parse_commit input
        else if tag = byte_of CHR ''S'' then parse_stream_start input
        else if tag = byte_of CHR ''E'' then parse_stream_stop input
        else if tag = byte_of CHR ''c'' then parse_stream_commit input
        else if tag = byte_of CHR ''A'' then parse_stream_abort input
        else if tag = byte_of CHR ''R'' then parse_transactional input ctx parse_relation
        else if tag = byte_of CHR ''Y'' then parse_transactional input ctx parse_type
        else if tag = byte_of CHR ''O'' then parse_origin input
        else if tag = byte_of CHR ''M'' then parse_transactional input ctx parse_logical_message
        else if tag = byte_of CHR ''I'' then parse_transactional input ctx parse_insert
        else if tag = byte_of CHR ''U'' then parse_transactional input ctx parse_update
        else if tag = byte_of CHR ''D'' then parse_transactional input ctx parse_delete
        else if tag = byte_of CHR ''T'' then parse_transactional input ctx parse_truncate
        else Inl ''unsupported or truncated pgoutput message'')"

end
