(* ===== verification/Number_Text.thy ===== *)
theory Number_Text
  imports Shiba_Prelude
begin

text \<open>
  Numbers as text, as the Rust standard library prints and reads them: \<open>to_string\<close>,
  \<open>{:X}\<close> and \<open>{:08X}\<close> on one side, \<open>from_str_radix\<close> and \<open>parse\<close> on the other, with the
  rejection of empty text, foreign characters and values above the type's maximum.
\<close>

section \<open>Digits\<close>

definition digit_char :: "nat \<Rightarrow> char" where
  "digit_char d = (if d < 10 then char_of (48 + d) else char_of (55 + d))"

definition char_digit :: "nat \<Rightarrow> char \<Rightarrow> nat option" where
  "char_digit radix c =
     (let n = of_char c :: nat;
          d = (if 48 \<le> n \<and> n \<le> 57 then Some (n - 48)
               else if 65 \<le> n \<and> n \<le> 90 then Some (n - 55)
               else if 97 \<le> n \<and> n \<le> 122 then Some (n - 87)
               else None)
      in case d of None \<Rightarrow> None | Some v \<Rightarrow> if v < radix then Some v else None)"

lemma of_char_digit: "d < 36 \<Longrightarrow> of_char (digit_char d) = (if d < 10 then 48 + d else 55 + d)"
  by (simp add: digit_char_def of_char_of)

lemma char_digit_digit_char: "d < radix \<Longrightarrow> radix \<le> 36 \<Longrightarrow> char_digit radix (digit_char d) = Some d"
  by (auto simp: char_digit_def of_char_digit Let_def)

lemma digit_char_not_special:
  assumes "d < 36"
  shows "digit_char d \<noteq> CHR ''/''" "digit_char d \<noteq> CHR ''+''"
proof -
  have "(of_char (digit_char d) :: nat) \<noteq> of_char (CHR ''/'')"
    "(of_char (digit_char d) :: nat) \<noteq> of_char (CHR ''+'')"
    using assms by (auto simp: of_char_digit)
  then show "digit_char d \<noteq> CHR ''/''" "digit_char d \<noteq> CHR ''+''" by metis+
qed

section \<open>Printing\<close>

function to_radix :: "nat \<Rightarrow> nat \<Rightarrow> string" where
  "to_radix radix n =
     (if radix \<le> 1 \<or> n < radix then [digit_char n]
      else to_radix radix (n div radix) @ [digit_char (n mod radix)])"
  by pat_completeness auto
termination by (relation "measure snd") auto

declare to_radix.simps [simp del]

definition pad_zero :: "nat \<Rightarrow> string \<Rightarrow> string" where
  "pad_zero width s = replicate (width - length s) CHR ''0'' @ s"

lemma to_radix_chars:
  assumes "2 \<le> radix" "radix \<le> 36"
  shows "set (to_radix radix n) \<subseteq> digit_char ` {..<radix}"
  using assms
proof (induction radix n rule: to_radix.induct)
  case (1 radix n)
  then show ?case by (subst to_radix.simps) auto
qed

lemma to_radix_not_special:
  assumes "2 \<le> radix" "radix \<le> 36" "c = CHR ''/'' \<or> c = CHR ''+''"
  shows "c \<notin> set (to_radix radix n)"
proof
  assume "c \<in> set (to_radix radix n)"
  then obtain d where "c = digit_char d" "d < 36"
    using to_radix_chars[OF assms(1,2), of n] assms(2) by auto
  then show False using digit_char_not_special[of d] assms(3) by metis
qed

lemma to_radix_not_Nil [simp]: "to_radix radix n \<noteq> []"
  by (subst to_radix.simps) simp

section \<open>Parsing\<close>

fun parse_digits :: "nat \<Rightarrow> nat \<Rightarrow> nat \<Rightarrow> string \<Rightarrow> nat option" where
  "parse_digits limit radix acc [] = Some acc"
| "parse_digits limit radix acc (c # cs) =
     (case char_digit radix c of
        None \<Rightarrow> None
      | Some d \<Rightarrow>
          if acc * radix + d \<le> limit then parse_digits limit radix (acc * radix + d) cs else None)"

definition from_str_radix :: "nat \<Rightarrow> nat \<Rightarrow> string \<Rightarrow> nat option" where
  "from_str_radix limit radix s =
     (case s of
        [] \<Rightarrow> None
      | c # cs \<Rightarrow>
          if c = CHR ''+'' then (if cs = [] then None else parse_digits limit radix 0 cs)
          else parse_digits limit radix 0 s)"

lemma parse_digits_append:
  "parse_digits limit radix acc (s @ t) =
     (case parse_digits limit radix acc s of
        None \<Rightarrow> None | Some v \<Rightarrow> parse_digits limit radix v t)"
  by (induction s arbitrary: acc) (auto split: option.splits)

lemma parse_to_radix:
  assumes "2 \<le> radix" "radix \<le> 36" "n \<le> limit"
  shows "parse_digits limit radix 0 (to_radix radix n) = Some n"
  using assms
proof (induction radix n rule: to_radix.induct)
  case (1 radix n)
  show ?case
  proof (cases "n < radix")
    case True
    then show ?thesis
      using 1 by (subst to_radix.simps) (simp add: char_digit_digit_char)
  next
    case False
    have "n div radix \<le> limit" using 1 div_le_dividend[of n radix] by linarith
    then have "parse_digits limit radix 0 (to_radix radix (n div radix)) = Some (n div radix)"
      using 1 False by simp
    then show ?thesis
      using 1 False
      by (subst to_radix.simps) (simp add: parse_digits_append char_digit_digit_char)
  qed
qed

lemma parse_leading_zeros:
  "2 \<le> radix \<Longrightarrow> parse_digits limit radix 0 (replicate k CHR ''0'' @ s) = parse_digits limit radix 0 s"
  by (induction k) (auto simp: char_digit_def)

lemma parse_digits_le: "acc \<le> limit \<Longrightarrow> parse_digits limit radix acc s = Some v \<Longrightarrow> v \<le> limit"
  by (induction s arbitrary: acc) (auto split: option.splits if_splits)

lemma from_str_radix_le: "from_str_radix limit radix s = Some v \<Longrightarrow> v \<le> limit"
  by (auto simp: from_str_radix_def simp del: parse_digits.simps
           split: list.splits if_splits dest!: parse_digits_le[rotated])

lemma from_str_radix_to_radix:
  assumes "2 \<le> radix" "radix \<le> 36" "n \<le> limit"
  shows "from_str_radix limit radix (pad_zero k (to_radix radix n)) = Some n"
proof -
  let ?s = "pad_zero k (to_radix radix n)"
  have "CHR ''+'' \<notin> set (to_radix radix n)"
    by (rule to_radix_not_special[OF assms(1,2)]) simp
  then have "hd (to_radix radix n) \<noteq> CHR ''+''" by (metis hd_in_set to_radix_not_Nil)
  then have "hd ?s \<noteq> CHR ''+''" "?s \<noteq> []" by (simp_all add: pad_zero_def hd_append)
  moreover have "parse_digits limit radix 0 ?s = Some n"
    unfolding pad_zero_def using assms by (simp add: parse_leading_zeros parse_to_radix)
  ultimately show ?thesis
    by (cases ?s) (simp_all add: from_str_radix_def)
qed

section \<open>Unsigned decimals\<close>

text \<open>\<open>u64::to_string\<close> and \<open>str::parse::<u64>\<close>.\<close>

definition u64_to_string :: "nat \<Rightarrow> string" where
  "u64_to_string n = to_radix 10 n"

definition u64_parse :: "string \<Rightarrow> nat option" where
  "u64_parse s = from_str_radix u64_max 10 s"

lemma u64_parse_to_string: "n \<le> u64_max \<Longrightarrow> u64_parse (u64_to_string n) = Some n"
  using from_str_radix_to_radix[of 10 n u64_max 0]
  by (simp add: u64_parse_def u64_to_string_def pad_zero_def)

end
