(* ===== verification/Postgres_Text.thy ===== *)
theory Postgres_Text
  imports Number_Text
begin

text \<open>
  The PostgreSQL text encodings of \<open>src/postgres.rs\<close>: quoted identifiers and WAL
  positions.
\<close>

section \<open>Definitions\<close>

definition quote_identifier :: "string \<Rightarrow> string" where
  "quote_identifier s =
     CHR 0x22 # concat (map (\<lambda>c. if c = CHR 0x22 then [CHR 0x22, CHR 0x22] else [c]) s)
       @ [CHR 0x22]"

definition format_lsn :: "64 word \<Rightarrow> string" where
  "format_lsn lsn =
     to_radix 16 (unat (drop_bit 32 lsn)) @ ''/'' @ pad_zero 8 (to_radix 16 (unat lsn mod 2 ^ 32))"

text \<open>\<open>str::split_once\<close>: the text before and after the first occurrence.\<close>

fun split_once :: "char \<Rightarrow> string \<Rightarrow> (string \<times> string) option" where
  "split_once c [] = None"
| "split_once c (x # xs) =
     (if x = c then Some ([], xs)
      else case split_once c xs of None \<Rightarrow> None | Some (l, r) \<Rightarrow> Some (x # l, r))"

definition parse_lsn :: "string \<Rightarrow> 64 word result" where
  "parse_lsn s =
     bind_res (ok_or ''LSN is missing slash'' (split_once (CHR ''/'') s)) (\<lambda>(high, low).
     bind_res (ok_or ''invalid high LSN word'' (from_str_radix u32_max 16 high)) (\<lambda>h.
     bind_res (ok_or ''invalid low LSN word'' (from_str_radix u32_max 16 low)) (\<lambda>l.
     Inr (or (push_bit 32 (word_of_nat h)) (word_of_nat l)))))"

section \<open>Lemmas\<close>

lemma split_once_append:
  "c \<notin> set l \<Longrightarrow> split_once c (l @ c # r) = Some (l, r)"
  by (induction l) auto

lemma hex_no_slash: "CHR ''/'' \<notin> set (to_radix 16 n)"
  by (rule to_radix_not_special) simp_all

lemma lsn_low_word: "word_of_nat (unat (w :: 64 word) mod 2 ^ 32) = take_bit 32 w"
proof -
  have "unat (take_bit 32 w) = unat w mod 2 ^ 32"
    by (simp only: unsigned_take_bit_eq take_bit_nat_def)
  then show ?thesis by (metis of_nat_unat ucast_id)
qed

lemma lsn_split_words: "or (push_bit 32 (drop_bit 32 w)) (take_bit 32 w) = (w :: 64 word)"
  by (rule bit_eqI) (auto simp: bit_simps)

lemma lsn_high_bound: "unat (drop_bit 32 (w :: 64 word)) \<le> u32_max"
proof -
  have "unat (drop_bit 32 w) = unat w div 2 ^ 32"
    by (simp add: drop_bit_eq_div unat_div_distrib)
  moreover have "unat w < 2 ^ 64" using unsigned_less[of w] by simp
  ultimately show ?thesis by (simp add: u32_max_def)
qed

lemma lsn_low_bound: "unat (w :: 64 word) mod 2 ^ 32 \<le> u32_max"
  by (simp add: u32_max_def)

text \<open>
  The lexical rule for quoted identifiers: after the opening quote a doubled quote stands for
  one quote, and a single quote ends the identifier.
\<close>

fun scan_quoted_body :: "string \<Rightarrow> (string \<times> string) option" where
  "scan_quoted_body [] = None"
| "scan_quoted_body (c # cs) =
     (if c = CHR 0x22
      then (case cs of
              d # ds \<Rightarrow>
                if d = CHR 0x22
                then (case scan_quoted_body ds of
                        None \<Rightarrow> None | Some (name, rest) \<Rightarrow> Some (CHR 0x22 # name, rest))
                else Some ([], cs)
            | [] \<Rightarrow> Some ([], []))
      else (case scan_quoted_body cs of
              None \<Rightarrow> None | Some (name, rest) \<Rightarrow> Some (c # name, rest)))"

definition scan_quoted :: "string \<Rightarrow> (string \<times> string) option" where
  "scan_quoted s =
     (case s of c # cs \<Rightarrow> if c = CHR 0x22 then scan_quoted_body cs else None | [] \<Rightarrow> None)"

lemma scan_quoted_body_quote:
  assumes "rest = [] \<or> hd rest \<noteq> CHR 0x22"
  shows "scan_quoted_body
    (concat (map (\<lambda>c. if c = CHR 0x22 then [CHR 0x22, CHR 0x22] else [c]) s) @ CHR 0x22 # rest)
    = Some (s, rest)"
  using assms by (induction s) (auto split: list.splits)

section \<open>Properties\<close>

lemma parse_format_lsn: "parse_lsn (format_lsn w) = Inr w"
proof -
  have "split_once (CHR ''/'') (format_lsn w) =
      Some (to_radix 16 (unat (drop_bit 32 w)), pad_zero 8 (to_radix 16 (unat w mod 2 ^ 32)))"
    by (simp add: format_lsn_def split_once_append hex_no_slash)
  moreover have "from_str_radix u32_max 16 (to_radix 16 (unat (drop_bit 32 w)))
      = Some (unat (drop_bit 32 w))"
    using from_str_radix_to_radix[of 16 _ u32_max 0] lsn_high_bound by (simp add: pad_zero_def)
  moreover have "from_str_radix u32_max 16 (pad_zero 8 (to_radix 16 (unat w mod 2 ^ 32)))
      = Some (unat w mod 2 ^ 32)"
    by (rule from_str_radix_to_radix) (simp_all add: u32_max_def)
  ultimately show ?thesis
    by (simp add: parse_lsn_def lsn_low_word[simplified] lsn_split_words)
qed

text \<open>C40: Every WAL position survives printing and parsing.\<close>

theorem lsn_round_trip: "parse_lsn (format_lsn w) = Inr w"
  by (rule parse_format_lsn)

text \<open>
  A quoted identifier is read back as exactly the given name, whatever quotes the name
  holds, and the text after it is untouched: a name never becomes SQL.
\<close>

theorem quote_identifier_scans:
  "rest = [] \<or> hd rest \<noteq> CHR 0x22 \<Longrightarrow> scan_quoted (quote_identifier s @ rest) = Some (s, rest)"
  by (simp add: scan_quoted_def quote_identifier_def scan_quoted_body_quote)

theorem quote_identifier_scans_witness:
  "scan_quoted (quote_identifier [CHR ''o'', CHR 0x22, CHR '';''] @ '', x'')
     = Some ([CHR ''o'', CHR 0x22, CHR '';''], '', x'')"
  by (rule quote_identifier_scans) simp

end
