(* ===== verification/Transport.thy ===== *)
theory Transport
  imports Wire_Bytes Postgres_Text
begin

text \<open>
  The libpq transport (\<open>src/replication/transport.rs\<close>): the CopyData envelope, the standby
  status frame, the checks of \<open>START_REPLICATION\<close> and the non-blocking poll.  The functions
  of libpq are the fields of the record \<open>libpq\<close>, functions on a connection state that the
  development never looks into.
\<close>

section \<open>Data\<close>

datatype replication_message =
    XLogData (xl_wal_start: "64 word") (xl_wal_end: "64 word") (xl_server_time: int)
      (xl_pgoutput: bytes)
  | PrimaryKeepalive (ka_wal_end: "64 word") (ka_server_time: int) (ka_reply_requested: bool)

datatype copy_data_poll = CopyMessage replication_message | CopyPending | CopyEnd

datatype write_status = Flushed | WouldBlock | PendingFlush

datatype protocol_error =
    EmptyEnvelope
  | UnknownEnvelope byte
  | TruncatedEnvelope string nat nat
  | InvalidKeepaliveLength nat
  | InvalidReplyRequested byte

datatype replication_error =
    InteriorNul string
  | InvalidSlotName string
  | MissingPublication
  | InvalidPublicationName
  | ConnectError string
  | StartReplicationError string
  | ConfigureNonblocking string
  | InvalidState string
  | ConsumeInput string
  | ReceiveCopyData string
  | CopyDataTooLarge nat
  | SendStatus string
  | FlushError string
  | EscapePublicationNames string
  | Protocol protocol_error

section \<open>The envelope\<close>

definition require_length :: "bytes \<Rightarrow> nat \<Rightarrow> string \<Rightarrow> protocol_error + unit" where
  "require_length input at_least kind =
     (if length input < at_least
      then Inl (TruncatedEnvelope kind at_least (length input)) else Inr ())"

definition env_read_u64 :: "bytes \<Rightarrow> nat \<Rightarrow> string \<Rightarrow> protocol_error + 64 word" where
  "env_read_u64 input off kind =
     bind_res (require_length input (off + 8) kind) (\<lambda>_.
     Inr (word_from_be (take 8 (drop off input))))"

definition env_read_i64 :: "bytes \<Rightarrow> nat \<Rightarrow> string \<Rightarrow> protocol_error + int" where
  "env_read_i64 input off kind =
     bind_res (require_length input (off + 8) kind) (\<lambda>_.
     Inr (i64_from_be (take 8 (drop off input))))"

definition parse_copy_data :: "bytes \<Rightarrow> protocol_error + replication_message" where
  "parse_copy_data input =
     (case input of
        [] \<Rightarrow> Inl EmptyEnvelope
      | tag # _ \<Rightarrow>
        if tag = byte_of CHR ''w'' then
          bind_res (require_length input 25 ''XLogData'') (\<lambda>_.
          bind_res (env_read_u64 input 1 ''XLogData'') (\<lambda>wal_start.
          bind_res (env_read_u64 input 9 ''XLogData'') (\<lambda>wal_end.
          bind_res (env_read_i64 input 17 ''XLogData'') (\<lambda>server_time.
          Inr (XLogData wal_start wal_end server_time (drop 25 input))))))
        else if tag = byte_of CHR ''k'' then
          bind_res (require_length input 18 ''primary keepalive'') (\<lambda>_.
          if length input \<noteq> 18 then Inl (InvalidKeepaliveLength (length input))
          else
            bind_res (if input ! 17 = 0 then Inr False
                      else if input ! 17 = 1 then Inr True
                      else Inl (InvalidReplyRequested (input ! 17))) (\<lambda>reply_requested.
            bind_res (env_read_u64 input 1 ''primary keepalive'') (\<lambda>wal_end.
            bind_res (env_read_i64 input 9 ''primary keepalive'') (\<lambda>server_time.
            Inr (PrimaryKeepalive wal_end server_time reply_requested)))))
        else Inl (UnknownEnvelope tag))"

definition encode_standby_status ::
    "64 word \<Rightarrow> 64 word \<Rightarrow> 64 word \<Rightarrow> int \<Rightarrow> bool \<Rightarrow> bytes" where
  "encode_standby_status write_lsn flush_lsn apply_lsn client_time reply_requested =
     [byte_of CHR ''r''] @ be_word write_lsn @ be_word flush_lsn @ be_word apply_lsn
       @ be_i64 client_time @ [if reply_requested then 1 else 0]"

section \<open>The connection\<close>

definition validate_slot_name :: "string \<Rightarrow> replication_error + unit" where
  "validate_slot_name slot =
     (if slot = [] \<or> 63 < length slot \<or>
         \<not> list_all (\<lambda>c. let n = of_char c :: nat in
                           (97 \<le> n \<and> n \<le> 122) \<or> (48 \<le> n \<and> n \<le> 57) \<or> c = CHR ''_'') slot
      then Inl (InvalidSlotName slot) else Inr ())"

record 's libpq =
  pq_escape_literal :: "'s \<Rightarrow> string \<Rightarrow> string option \<times> 's"
  pq_exec :: "'s \<Rightarrow> string \<Rightarrow> (int \<times> string) option \<times> 's"
  pq_set_nonblocking :: "'s \<Rightarrow> int \<times> 's"
  pq_consume_input :: "'s \<Rightarrow> int \<times> 's"
  pq_get_copy_data :: "'s \<Rightarrow> (int \<times> bytes option) \<times> 's"
  pq_put_copy_data :: "'s \<Rightarrow> bytes \<Rightarrow> int \<times> 's"
  pq_flush :: "'s \<Rightarrow> int \<times> 's"
  pq_error_message :: "'s \<Rightarrow> string"

record 's transport =
  tr_conn :: 's
  tr_streaming :: bool

text \<open>\<open>CString::new\<close>.\<close>

definition cstring :: "string \<Rightarrow> string \<Rightarrow> replication_error + string" where
  "cstring s field = (if CHR 0x00 \<in> set s then Inl (InteriorNul field) else Inr s)"

definition pgres_copy_both :: int where "pgres_copy_both = 8"

fun join_comma :: "string list \<Rightarrow> string" where
  "join_comma [] = []"
| "join_comma [x] = x"
| "join_comma (x # xs) = x @ '', '' @ join_comma xs"

definition start_command :: "string \<Rightarrow> 64 word \<Rightarrow> string \<Rightarrow> string" where
  "start_command slot start_lsn publications =
     ''START_REPLICATION SLOT '' @ slot @ '' LOGICAL '' @ format_lsn start_lsn
       @ '' (proto_version '' @ [CHR 0x27] @ ''2'' @ [CHR 0x27] @ '', publication_names ''
       @ publications @ '', streaming '' @ [CHR 0x27] @ ''on'' @ [CHR 0x27] @ '')''"

definition start_replication ::
    "'s libpq \<Rightarrow> 's transport \<Rightarrow> string \<Rightarrow> 64 word \<Rightarrow> string list
     \<Rightarrow> (replication_error + unit) \<times> 's transport" where
  "start_replication pq t slot start_lsn publications =
     (if tr_streaming t then (Inl (InvalidState ''START_REPLICATION has already succeeded''), t)
      else case validate_slot_name slot of
        Inl e \<Rightarrow> (Inl e, t)
      | Inr _ \<Rightarrow>
        if publications = [] then (Inl MissingPublication, t)
        else if list_ex (\<lambda>name. name = [] \<or> CHR 0x00 \<in> set name) publications
        then (Inl InvalidPublicationName, t)
        else
          let names = join_comma (map quote_identifier publications) in
          if CHR 0x00 \<in> set names then (Inl InvalidPublicationName, t)
          else
            let (escaped, c1) = pq_escape_literal pq (tr_conn t) names in
            case escaped of
              None \<Rightarrow> (Inl (EscapePublicationNames (pq_error_message pq c1)), t\<lparr>tr_conn := c1\<rparr>)
            | Some lit \<Rightarrow>
              (case cstring (start_command slot start_lsn lit) ''START_REPLICATION command'' of
                 Inl e \<Rightarrow> (Inl e, t\<lparr>tr_conn := c1\<rparr>)
               | Inr command \<Rightarrow>
                 let (res, c2) = pq_exec pq c1 command in
                 case res of
                   None \<Rightarrow> (Inl (StartReplicationError (pq_error_message pq c2)),
                            t\<lparr>tr_conn := c2\<rparr>)
                 | Some (status, msg) \<Rightarrow>
                   if status \<noteq> pgres_copy_both
                   then (Inl (StartReplicationError msg), t\<lparr>tr_conn := c2\<rparr>)
                   else
                     let (rc, c3) = pq_set_nonblocking pq c2 in
                     if rc \<noteq> 0
                     then (Inl (ConfigureNonblocking (pq_error_message pq c3)), t\<lparr>tr_conn := c3\<rparr>)
                     else (Inr (), t\<lparr>tr_conn := c3, tr_streaming := True\<rparr>)))"

definition require_streaming :: "'s transport \<Rightarrow> replication_error + unit" where
  "require_streaming t =
     (if tr_streaming t then Inr ()
      else Inl (InvalidState ''logical replication has not been started''))"

definition read_copy_data ::
    "'s libpq \<Rightarrow> 's transport \<Rightarrow> (replication_error + copy_data_poll) \<times> 's transport" where
  "read_copy_data pq t =
     (let ((len, buffer), c) = pq_get_copy_data pq (tr_conn t); t' = t\<lparr>tr_conn := c\<rparr> in
      if len = 0 then (Inr CopyPending, t')
      else if len = -1 then (Inr CopyEnd, t')
      else if len = -2 then (Inl (ReceiveCopyData (pq_error_message pq c)), t')
      else if 0 < len then
        (case buffer of
           None \<Rightarrow>
             (Inl (ReceiveCopyData ''libpq returned a positive length with a null buffer''), t')
         | Some buf \<Rightarrow>
             (map_err Protocol (bind_res (parse_copy_data (take (nat len) buf))
                                  (\<lambda>m. Inr (CopyMessage m))), t'))
      else (Inl (ReceiveCopyData ''libpq returned an undocumented CopyData status''), t'))"

definition poll_copy_data ::
    "'s libpq \<Rightarrow> 's transport \<Rightarrow> (replication_error + copy_data_poll) \<times> 's transport" where
  "poll_copy_data pq t =
     (case require_streaming t of
        Inl e \<Rightarrow> (Inl e, t)
      | Inr _ \<Rightarrow>
        let (poll, t1) = read_copy_data pq t in
        if poll \<noteq> Inr CopyPending then (poll, t1)
        else
          let (rc, c) = pq_consume_input pq (tr_conn t1); t2 = t1\<lparr>tr_conn := c\<rparr> in
          if rc = 0 then (Inl (ConsumeInput (pq_error_message pq c)), t2)
          else read_copy_data pq t2)"

definition flush :: "'s libpq \<Rightarrow> 's transport \<Rightarrow> (replication_error + write_status) \<times> 's transport"
where
  "flush pq t =
     (case require_streaming t of
        Inl e \<Rightarrow> (Inl e, t)
      | Inr _ \<Rightarrow>
        let (rc, c) = pq_flush pq (tr_conn t); t' = t\<lparr>tr_conn := c\<rparr> in
        if rc = 0 then (Inr Flushed, t')
        else if rc = 1 then (Inr PendingFlush, t')
        else if rc = -1 then (Inl (FlushError (pq_error_message pq c)), t')
        else (Inl (FlushError ''libpq returned an undocumented PQflush status''), t'))"

text \<open>
  \<open>postgres_timestamp_now\<close>, on the seconds and microseconds since the Unix epoch.
\<close>

definition postgres_timestamp :: "nat \<Rightarrow> nat \<Rightarrow> int" where
  "postgres_timestamp secs micros =
     (let seconds = (if int secs \<le> i64_max then int secs else i64_max) in
      saturating_i64 (saturating_i64 (saturating_i64 (seconds - 946684800) * 1000000)
                      + int micros))"

definition send_standby_status ::
    "'s libpq \<Rightarrow> 's transport \<Rightarrow> 64 word \<Rightarrow> 64 word \<Rightarrow> 64 word \<Rightarrow> int \<Rightarrow> bool
     \<Rightarrow> (replication_error + write_status) \<times> 's transport" where
  "send_standby_status pq t write_lsn flush_lsn apply_lsn now reply_requested =
     (case require_streaming t of
        Inl e \<Rightarrow> (Inl e, t)
      | Inr _ \<Rightarrow>
        let frame = encode_standby_status write_lsn flush_lsn apply_lsn now reply_requested;
            (rc, c) = pq_put_copy_data pq (tr_conn t) frame; t' = t\<lparr>tr_conn := c\<rparr> in
        if rc = 1 then flush pq t'
        else if rc = 0 then (Inr WouldBlock, t')
        else if rc = -1 then (Inl (SendStatus (pq_error_message pq c)), t')
        else (Inl (SendStatus ''libpq returned an undocumented PQputCopyData status''), t'))"

section \<open>The wire format\<close>

text \<open>The envelope as PostgreSQL writes it.\<close>

fun encode_copy_data :: "replication_message \<Rightarrow> bytes" where
  "encode_copy_data (XLogData wal_start wal_end server_time payload) =
     byte_of CHR ''w'' # be_word wal_start @ be_word wal_end @ be_i64 server_time @ payload"
| "encode_copy_data (PrimaryKeepalive wal_end server_time reply) =
     byte_of CHR ''k'' # be_word wal_end @ be_i64 server_time @ [if reply then 1 else 0]"

fun message_time :: "replication_message \<Rightarrow> int" where
  "message_time (XLogData _ _ t _) = t"
| "message_time (PrimaryKeepalive _ t _) = t"

lemma env_read_u64_Inr:
  "env_read_u64 input off kind = Inr w \<longleftrightarrow>
     off + 8 \<le> length input \<and> take 8 (drop off input) = be_word w"
proof -
  have "word_from_be bs = w \<longleftrightarrow> bs = be_word w" if "length bs = 8" for bs
    using that be_word_from_be[where 'a = 64, of bs] word_from_be_word[of w] by auto
  then have "off + 8 \<le> length input \<Longrightarrow> word_from_be (take 8 (drop off input)) = w
      \<longleftrightarrow> take 8 (drop off input) = be_word w"
    by simp
  then show ?thesis
    unfolding env_read_u64_def require_length_def
    by (cases "length input < off + 8") auto
qed

lemma env_read_i64_Inr:
  "env_read_i64 input off kind = Inr t \<longleftrightarrow>
     off + 8 \<le> length input \<and> in_i64 t \<and> take 8 (drop off input) = be_i64 t"
proof -
  have "i64_from_be bs = t \<longleftrightarrow> in_i64 t \<and> bs = be_i64 t" if "length bs = 8" for bs
    using that be_i64_from_be[of bs] i64_from_be_i64[of t] by auto
  then have "off + 8 \<le> length input \<Longrightarrow> i64_from_be (take 8 (drop off input)) = t
      \<longleftrightarrow> in_i64 t \<and> take 8 (drop off input) = be_i64 t"
    by simp
  then show ?thesis
    unfolding env_read_i64_def require_length_def
    by (cases "length input < off + 8") auto
qed

lemma drop_chunk:
  "take n (drop off xs) = ys \<Longrightarrow> drop off xs = ys @ drop (off + n) xs"
  by (metis add.commute append_take_drop_id drop_drop)

lemma parse_copy_data_encode:
  assumes "in_i64 (message_time m)"
  shows "parse_copy_data (encode_copy_data m) = Inr m"
proof (cases m)
  case (XLogData ws we t payload)
  let ?bs = "encode_copy_data m"
  have "env_read_u64 ?bs 1 k = Inr ws" "env_read_u64 ?bs 9 k = Inr we"
    "env_read_i64 ?bs 17 k = Inr t" "drop 25 ?bs = payload" "25 \<le> length ?bs" for k
    using assms XLogData by (simp_all add: env_read_u64_Inr env_read_i64_Inr)
  then show ?thesis
    using XLogData by (simp add: parse_copy_data_def require_length_def)
next
  case (PrimaryKeepalive we t r)
  let ?bs = "encode_copy_data m"
  have "env_read_u64 ?bs 1 k = Inr we" "env_read_i64 ?bs 9 k = Inr t" "length ?bs = 18"
    "?bs ! 17 = (if r then 1 else 0)" for k
    using assms PrimaryKeepalive
    by (simp_all add: env_read_u64_Inr env_read_i64_Inr nth_append)
  then show ?thesis
    using PrimaryKeepalive by (simp add: parse_copy_data_def require_length_def)
qed

lemma parse_copy_data_sound:
  assumes "parse_copy_data bs = Inr m"
  shows "in_i64 (message_time m) \<and> bs = encode_copy_data m"
proof -
  obtain tag rest where bs: "bs = tag # rest"
    using assms by (cases bs) (auto simp: parse_copy_data_def)
  consider
      (w) ws we t where "tag = byte_of CHR ''w''" "m = XLogData ws we t (drop 25 bs)"
        "take 8 (drop 1 bs) = be_word ws" "take 8 (drop 9 bs) = be_word we"
        "take 8 (drop 17 bs) = be_i64 t" "in_i64 t"
    | (k) we t r where "tag = byte_of CHR ''k''" "m = PrimaryKeepalive we t r" "length bs = 18"
        "take 8 (drop 1 bs) = be_word we" "take 8 (drop 9 bs) = be_i64 t" "in_i64 t"
        "bs ! 17 = (if r then 1 else 0)"
    using assms unfolding bs parse_copy_data_def
    by (auto simp: res_simps env_read_u64_Inr env_read_i64_Inr split: if_splits
             simp del: drop_Suc_Cons One_nat_def)
  then show ?thesis
  proof cases
    case w
    have "drop 1 bs = be_word ws @ be_word we @ be_i64 t @ drop 25 bs"
      using drop_chunk[OF w(3)] drop_chunk[OF w(4)] drop_chunk[OF w(5)] by simp
    then show ?thesis using w bs by simp
  next
    case k
    have "drop 17 bs = [bs ! 17]"
      using k(3) Cons_nth_drop_Suc[of 17 bs] by simp
    then have "drop 1 bs = be_word we @ be_i64 t @ [bs ! 17]"
      using drop_chunk[OF k(4)] drop_chunk[OF k(5)] by simp
    then show ?thesis using k bs by simp
  qed
qed

section \<open>Properties\<close>

text \<open>
  C39: The envelope parser accepts exactly the frames the server writes: a frame parses to a
  message iff it is the encoding of that message, so nothing else is accepted and every
  field is read at its place.
\<close>

theorem parse_copy_data_exact:
  "parse_copy_data bs = Inr m \<longleftrightarrow> in_i64 (message_time m) \<and> bs = encode_copy_data m"
  using parse_copy_data_encode parse_copy_data_sound by blast

text \<open>
  The standby status frame is 34 bytes: the tag, then the write, flush and apply
  positions, the client time and the reply flag, each readable at its offset.
\<close>

theorem standby_status_layout:
  "in_i64 now \<Longrightarrow>
   frame = encode_standby_status write_lsn flush_lsn apply_lsn now reply \<Longrightarrow>
     length frame = 34 \<and> frame ! 0 = byte_of CHR ''r'' \<and>
     env_read_u64 frame 1 k = Inr write_lsn \<and> env_read_u64 frame 9 k = Inr flush_lsn \<and>
     env_read_u64 frame 17 k = Inr apply_lsn \<and> env_read_i64 frame 25 k = Inr now \<and>
     frame ! 33 = (if reply then 1 else 0)"
  by (simp add: encode_standby_status_def env_read_u64_Inr env_read_i64_Inr nth_append)

theorem standby_status_layout_witness:
  "let frame = encode_standby_status 1 2 3 (-7) True in
     length frame = 34 \<and> env_read_i64 frame 25 ''status'' = Inr (-7)"
  using standby_status_layout[of "-7" "encode_standby_status 1 2 3 (-7) True" 1 2 3 True "''status''"]
  by (simp add: in_i64_def int_bounds Let_def)

end
