(* ===== verification/Replication_Ingress.thy ===== *)
theory Replication_Ingress
  imports Pgoutput Transport "HOL-Library.AList"
begin

text \<open>
  The bounded ingress state machine (\<open>src/ingress.rs\<close>): complete CopyData frames become
  batches of one source transaction each.  The Rust maps are association lists kept
  distinct; the poll results of the transport and the elapsed-time test are the script the
  loop runs over, one entry per iteration.  A handler returns the new state; the caller
  drops the whole ingress on an error (it panics), so an error carries no state.
\<close>

section \<open>Data\<close>

text \<open>
  A JSON payload: the object built from one tuple, a column mapped to \<open>null\<close> or a string.
\<close>

type_synonym json_object = "(utf8 \<times> utf8 option) list"

record ingress_event =
  ev_change_lsn :: lsn
  ev_change_ordinal :: nat
  ev_image_ordinal :: nat
  ev_source_subxid :: xid
  ev_source_oid :: oid
  ev_weight :: int
  ev_payload :: json_object

datatype ingress_boundary =
    BCommit lsn lsn
  | BAbortTransaction lsn
  | BAbortSubtransaction xid

record ingress_batch =
  ib_source_xid :: xid
  ib_transaction_start_lsn :: lsn
  ib_decode_end_lsn :: lsn
  ib_events :: "ingress_event list"
  ib_boundary :: "ingress_boundary option"

record ingress_budget =
  bg_max_events :: nat
  bg_max_wire_bytes :: nat
  bg_max_poll_time :: nat

datatype ingress_poll =
    PollBatch ingress_batch
  | PollNoBatch bool bool
  | PollEnd

datatype ingress_error =
    IReplication replication_error
  | IProtocol string
  | IState string
  | ICounterOverflow string

type_synonym 'a ires = "ingress_error + 'a"

record active_transaction =
  at_xid :: xid
  at_start_lsn :: lsn
  at_expected_commit_lsn :: "lsn option"

record pending_batch =
  pb_source_xid :: xid
  pb_transaction_start_lsn :: lsn
  pb_decode_end_lsn :: lsn
  pb_wire_bytes :: nat
  pb_events :: "ingress_event list"
  pb_boundary :: "ingress_boundary option"

record ingress =
  ig_relations :: "(oid \<times> utf8 list) list"
  ig_max_cached_relations :: nat
  ig_active :: "active_transaction option"
  ig_streamed :: "(xid \<times> active_transaction) list"
  ig_last_change :: "(xid \<times> (lsn \<times> nat)) list"
  ig_pending :: "(xid \<times> pending_batch) list"
  ig_reply_requested :: bool

definition ingress_new :: "nat \<Rightarrow> ingress ires" where
  "ingress_new max_cached_relations =
     (if \<not> 0 < max_cached_relations
      then Inl (IState ''assertion failed: max_cached_relations > 0'')
      else Inr \<lparr>ig_relations = [], ig_max_cached_relations = max_cached_relations,
                ig_active = None, ig_streamed = [], ig_last_change = [], ig_pending = [],
                ig_reply_requested = False\<rparr>)"

section \<open>Pending batches\<close>

definition pending_new :: "active_transaction \<Rightarrow> pending_batch" where
  "pending_new t = \<lparr>pb_source_xid = at_xid t, pb_transaction_start_lsn = at_start_lsn t,
     pb_decode_end_lsn = 0, pb_wire_bytes = 0, pb_events = [], pb_boundary = None\<rparr>"

definition observe_frame :: "lsn \<Rightarrow> bytes \<Rightarrow> pending_batch \<Rightarrow> pending_batch ires" where
  "observe_frame wal_start payload p =
     bind_res (ok_or (ICounterOverflow ''wire-byte'')
                 (checked_add_u64 (pb_wire_bytes p) (length payload))) (\<lambda>wire_bytes.
     Inr (p\<lparr>pb_decode_end_lsn := max (pb_decode_end_lsn p) wal_start,
            pb_wire_bytes := wire_bytes\<rparr>))"

definition finish_batch :: "pending_batch \<Rightarrow> ingress_batch" where
  "finish_batch p = \<lparr>ib_source_xid = pb_source_xid p,
     ib_transaction_start_lsn = pb_transaction_start_lsn p,
     ib_decode_end_lsn = pb_decode_end_lsn p, ib_events = pb_events p,
     ib_boundary = pb_boundary p\<rparr>"

text \<open>
  \<open>ensure_pending\<close> followed by an update of the batch it returns: the entry of the
  transaction is created when absent, checked against the start position, then changed.
\<close>

definition with_pending ::
    "active_transaction \<Rightarrow> (pending_batch \<Rightarrow> pending_batch ires) \<Rightarrow> ingress \<Rightarrow> ingress ires" where
  "with_pending t f s =
     (let p = (case map_of (ig_pending s) (at_xid t) of None \<Rightarrow> pending_new t | Some p \<Rightarrow> p) in
      if pb_transaction_start_lsn p \<noteq> at_start_lsn t
      then Inl (IState ''one ingress transaction changed its start LSN'')
      else
        bind_res (f p) (\<lambda>p'.
        Inr (s\<lparr>ig_pending := AList.update (at_xid t) p' (ig_pending s)\<rparr>)))"

definition ensure_pending :: "active_transaction \<Rightarrow> ingress \<Rightarrow> ingress ires" where
  "ensure_pending t s = with_pending t Inr s"

definition require_active_transaction :: "string \<Rightarrow> ingress \<Rightarrow> active_transaction ires" where
  "require_active_transaction msg s =
     ok_or (IState (msg @ '' arrived outside a source transaction'')) (ig_active s)"

definition validate_message_xid :: "xid option \<Rightarrow> string \<Rightarrow> ingress \<Rightarrow> xid ires" where
  "validate_message_xid source_xid msg s =
     bind_res (require_active_transaction msg s) (\<lambda>t.
     case (at_expected_commit_lsn t, source_xid) of
       (Some _, None) \<Rightarrow> Inr (at_xid t)
     | (None, Some subxid) \<Rightarrow> Inr subxid
     | (Some _, Some _) \<Rightarrow>
         Inl (IState (msg @ '' carried a streamed xid outside a stream segment''))
     | (None, None) \<Rightarrow> Inl (IState (msg @ '' omitted its xid inside a stream segment'')))"

section \<open>Row changes\<close>

definition tuple_to_json :: "tuple \<Rightarrow> utf8 list \<Rightarrow> json_object ires" where
  "tuple_to_json row columns =
     (if length row \<noteq> length columns
      then Inl (IState (''tuple has '' @ u64_to_string (length row)
                  @ '' values but relation metadata has '' @ u64_to_string (length columns)
                  @ '' columns''))
      else Inr (fold (\<lambda>(c, v). AList.update c v) (zip columns row) []))"

text \<open>The ordinal of a change among the changes of its transaction at one WAL position.\<close>

definition next_change_ordinal ::
    "lsn \<Rightarrow> xid \<Rightarrow> (xid \<times> (lsn \<times> nat)) list \<Rightarrow> (nat \<times> (xid \<times> (lsn \<times> nat)) list) ires" where
  "next_change_ordinal wal_start xid changes =
     (case map_of changes xid of
        Some (last_lsn, next_ordinal) \<Rightarrow>
          if last_lsn = wal_start
          then bind_res (ok_or (ICounterOverflow ''change-ordinal'')
                           (checked_add_u64 next_ordinal 1)) (\<lambda>n.
               Inr (next_ordinal, AList.update xid (last_lsn, n) changes))
          else Inr (0, AList.update xid (wal_start, 1) changes)
      | None \<Rightarrow> Inr (0, AList.update xid (wal_start, 1) changes))"

fun convert_images ::
    "lsn \<Rightarrow> nat \<Rightarrow> xid \<Rightarrow> oid \<Rightarrow> utf8 list \<Rightarrow> (nat \<times> int \<times> tuple) list
     \<Rightarrow> ingress_event list ires" where
  "convert_images wal_start ordinal subxid relid columns [] = Inr []"
| "convert_images wal_start ordinal subxid relid columns ((image_ordinal, weight, row) # images) =
     bind_res (tuple_to_json row columns) (\<lambda>payload.
     bind_res (convert_images wal_start ordinal subxid relid columns images) (\<lambda>events.
     Inr (\<lparr>ev_change_lsn = wal_start, ev_change_ordinal = ordinal,
           ev_image_ordinal = image_ordinal, ev_source_subxid = subxid, ev_source_oid = relid,
           ev_weight = weight, ev_payload = payload\<rparr> # events)))"

definition push_change ::
    "lsn \<Rightarrow> xid \<Rightarrow> oid \<Rightarrow> (nat \<times> int \<times> tuple) list \<Rightarrow> ingress \<Rightarrow> ingress ires" where
  "push_change wal_start subxid relid images s =
     bind_res (require_active_transaction ''row change'' s) (\<lambda>t.
     bind_res (next_change_ordinal wal_start (at_xid t) (ig_last_change s)) (\<lambda>(ordinal, changes).
     bind_res (ok_or (IState (''row change references unknown relation ''
                 @ u64_to_string (unat relid))) (map_of (ig_relations s) relid)) (\<lambda>columns.
     bind_res (convert_images wal_start ordinal subxid relid columns images) (\<lambda>converted.
     with_pending t (\<lambda>p. Inr (p\<lparr>pb_events := pb_events p @ converted\<rparr>))
       (s\<lparr>ig_last_change := changes\<rparr>)))))"

section \<open>Message handlers\<close>

text \<open>
  A handler returns the boundary, the transaction observed by the frame, and the new state:
  the arms of the \<open>match\<close> of \<open>process_pgoutput\<close>.
\<close>

type_synonym handled = "xid option \<times> active_transaction option \<times> ingress"

definition handle_begin :: "lsn \<Rightarrow> lsn \<Rightarrow> xid \<Rightarrow> ingress \<Rightarrow> handled ires" where
  "handle_begin wal_start final_lsn xid s =
     (if ig_active s \<noteq> None then Inl (IState ''BEGIN arrived inside an active transaction'')
      else
        let t = \<lparr>at_xid = xid, at_start_lsn = wal_start, at_expected_commit_lsn = Some final_lsn\<rparr> in
        bind_res (ensure_pending t (s\<lparr>ig_active := Some t\<rparr>)) (\<lambda>s.
        Inr (None, Some t, s)))"

definition stream_transaction ::
    "lsn \<Rightarrow> xid \<Rightarrow> bool \<Rightarrow> ingress \<Rightarrow> active_transaction ires" where
  "stream_transaction wal_start xid first_segment s =
     (if first_segment then
        (if map_of (ig_streamed s) xid \<noteq> None
         then Inl (IState ''first StreamStart repeated for an open transaction'')
         else Inr \<lparr>at_xid = xid, at_start_lsn = wal_start, at_expected_commit_lsn = None\<rparr>)
      else ok_or (IState ''later StreamStart has no first segment'')
             (map_of (ig_streamed s) xid))"

definition handle_stream_start :: "lsn \<Rightarrow> xid \<Rightarrow> bool \<Rightarrow> ingress \<Rightarrow> handled ires" where
  "handle_stream_start wal_start xid first_segment s =
     (if ig_active s \<noteq> None
      then Inl (IState ''StreamStart arrived inside another transaction segment'')
      else
        bind_res (stream_transaction wal_start xid first_segment s) (\<lambda>t.
        bind_res (ensure_pending t
                    (s\<lparr>ig_streamed := AList.update xid t (ig_streamed s), ig_active := Some t\<rparr>)) (\<lambda>s.
        Inr (None, Some t, s))))"

definition handle_stream_stop :: "ingress \<Rightarrow> handled ires" where
  "handle_stream_stop s =
     bind_res (require_active_transaction ''StreamStop'' s) (\<lambda>t.
     if at_expected_commit_lsn t \<noteq> None \<or> map_of (ig_streamed s) (at_xid t) \<noteq> Some t
     then Inl (IState ''StreamStop has no matching streamed transaction'')
     else Inr (Some (at_xid t), Some t, s\<lparr>ig_active := None\<rparr>))"

definition handle_stream_commit :: "xid \<Rightarrow> lsn \<Rightarrow> lsn \<Rightarrow> ingress \<Rightarrow> handled ires" where
  "handle_stream_commit xid commit_lsn end_lsn s =
     (if ig_active s \<noteq> None
      then Inl (IState ''StreamCommit arrived inside a transaction segment'')
      else
        bind_res (ok_or (IState ''StreamCommit has no matching transaction'')
                    (map_of (ig_streamed s) xid)) (\<lambda>t.
        bind_res (with_pending t
                    (\<lambda>p. Inr (p\<lparr>pb_decode_end_lsn := end_lsn,
                                pb_boundary := Some (BCommit commit_lsn end_lsn)\<rparr>))
                    (s\<lparr>ig_streamed := AList.delete xid (ig_streamed s)\<rparr>)) (\<lambda>s.
        Inr (Some xid, Some t, s\<lparr>ig_last_change := AList.delete xid (ig_last_change s)\<rparr>))))"

definition handle_stream_abort :: "lsn \<Rightarrow> xid \<Rightarrow> xid \<Rightarrow> ingress \<Rightarrow> handled ires" where
  "handle_stream_abort wal_start xid subxid s =
     (if ig_active s \<noteq> None
      then Inl (IState ''StreamAbort arrived inside a transaction segment'')
      else
        bind_res (ok_or (IState ''StreamAbort has no matching transaction'')
                    (map_of (ig_streamed s) xid)) (\<lambda>t.
        let (boundary, s') =
          (if xid = subxid
           then (BAbortTransaction wal_start,
                 s\<lparr>ig_streamed := AList.delete xid (ig_streamed s),
                   ig_last_change := AList.delete xid (ig_last_change s)\<rparr>)
           else (BAbortSubtransaction subxid, s))
        in
        bind_res (with_pending t (\<lambda>p. Inr (p\<lparr>pb_boundary := Some boundary\<rparr>)) s') (\<lambda>s.
        Inr (Some xid, Some t, s))))"

definition handle_relation :: "xid option \<Rightarrow> oid \<Rightarrow> utf8 list \<Rightarrow> ingress \<Rightarrow> handled ires" where
  "handle_relation source_xid relid columns s =
     bind_res (require_active_transaction ''Relation'' s) (\<lambda>t.
     bind_res (validate_message_xid source_xid ''Relation'' s) (\<lambda>_.
     bind_res (ensure_pending t s) (\<lambda>s.
     if map_of (ig_relations s) relid = None
        \<and> ig_max_cached_relations s \<le> length (ig_relations s)
     then Inl (IState (''relation descriptor cache reached shiba.max_cached_relations (''
                 @ u64_to_string (ig_max_cached_relations s) @ '')''))
     else Inr (None, Some t, s\<lparr>ig_relations := AList.update relid columns (ig_relations s)\<rparr>))))"

definition handle_type :: "xid option \<Rightarrow> ingress \<Rightarrow> handled ires" where
  "handle_type source_xid s =
     bind_res (require_active_transaction ''Type'' s) (\<lambda>t.
     bind_res (validate_message_xid source_xid ''Type'' s) (\<lambda>_.
     bind_res (ensure_pending t s) (\<lambda>s.
     Inr (None, Some t, s))))"

definition handle_origin :: "ingress \<Rightarrow> handled ires" where
  "handle_origin s =
     bind_res (require_active_transaction ''Origin'' s) (\<lambda>t.
     bind_res (ensure_pending t s) (\<lambda>s.
     Inr (None, Some t, s)))"

definition handle_logical :: "xid option \<Rightarrow> bool \<Rightarrow> ingress \<Rightarrow> handled ires" where
  "handle_logical source_xid transactional s =
     (if transactional then
        bind_res (require_active_transaction ''transactional logical Message'' s) (\<lambda>t.
        bind_res (validate_message_xid source_xid ''logical Message'' s) (\<lambda>_.
        bind_res (ensure_pending t s) (\<lambda>s.
        Inr (None, Some t, s))))
      else if ig_active s \<noteq> None
      then Inl (IState
             ''non-transactional logical Message arrived inside a source transaction'')
      else Inr (None, ig_active s, s))"

definition handle_change ::
    "lsn \<Rightarrow> xid option \<Rightarrow> string \<Rightarrow> oid \<Rightarrow> (nat \<times> int \<times> tuple) list \<Rightarrow> ingress \<Rightarrow> handled ires" where
  "handle_change wal_start source_xid msg relid images s =
     bind_res (validate_message_xid source_xid msg s) (\<lambda>subxid.
     bind_res (push_change wal_start subxid relid images s) (\<lambda>s'.
     Inr (None, ig_active s, s')))"

definition handle_commit :: "lsn \<Rightarrow> lsn \<Rightarrow> ingress \<Rightarrow> handled ires" where
  "handle_commit commit_lsn end_lsn s =
     bind_res (require_active_transaction ''COMMIT'' s) (\<lambda>t.
     if at_expected_commit_lsn t \<noteq> Some commit_lsn
     then Inl (IState ''Commit LSN differs from Begin final LSN'')
     else
       bind_res (with_pending t
                   (\<lambda>p. Inr (p\<lparr>pb_decode_end_lsn := end_lsn,
                               pb_boundary := Some (BCommit commit_lsn end_lsn)\<rparr>)) s) (\<lambda>s.
       Inr (Some (at_xid t), Some t,
            s\<lparr>ig_active := None,
              ig_last_change := AList.delete (at_xid t) (ig_last_change s)\<rparr>)))"

fun handle_message :: "lsn \<Rightarrow> message \<Rightarrow> ingress \<Rightarrow> handled ires" where
  "handle_message wal_start (Begin final_lsn xid) s = handle_begin wal_start final_lsn xid s"
| "handle_message wal_start (StreamStart xid first) s = handle_stream_start wal_start xid first s"
| "handle_message wal_start StreamStop s = handle_stream_stop s"
| "handle_message wal_start (StreamCommit xid flags lsn end_lsn time) s =
     handle_stream_commit xid lsn end_lsn s"
| "handle_message wal_start (StreamAbort xid subxid) s = handle_stream_abort wal_start xid subxid s"
| "handle_message wal_start (Relation sx relid columns) s = handle_relation sx relid columns s"
| "handle_message wal_start (TypeMsg sx typeid namespace name) s = handle_type sx s"
| "handle_message wal_start (Origin lsn name) s = handle_origin s"
| "handle_message wal_start (Logical sx transactional lsn prefix content) s =
     handle_logical sx transactional s"
| "handle_message wal_start (Insert sx relid row) s =
     handle_change wal_start sx ''Insert'' relid [(0, 1, row)] s"
| "handle_message wal_start (Update sx relid old new) s =
     handle_change wal_start sx ''Update'' relid [(0, -1, old), (1, 1, new)] s"
| "handle_message wal_start (Delete sx relid old) s =
     handle_change wal_start sx ''Delete'' relid [(0, -1, old)] s"
| "handle_message wal_start (Truncate sx relids cascade restart) s =
     Inl (IState
       ''TRUNCATE is outside the DAG delta contract; remove it from the publication'')"
| "handle_message wal_start (Commit lsn end_lsn) s = handle_commit lsn end_lsn s"

definition parse_context_of :: "ingress \<Rightarrow> parse_context" where
  "parse_context_of s =
     (case ig_active s of
        Some t \<Rightarrow> if at_expected_commit_lsn t = None then Streaming else NonStreaming
      | None \<Rightarrow> NonStreaming)"

definition process_pgoutput :: "lsn \<Rightarrow> bytes \<Rightarrow> ingress \<Rightarrow> (xid option \<times> ingress) ires" where
  "process_pgoutput wal_start payload s =
     bind_res (map_err IProtocol (parse_with_context payload (parse_context_of s))) (\<lambda>m.
     bind_res (handle_message wal_start m s) (\<lambda>(boundary, observed, s).
     case observed of
       None \<Rightarrow> Inr (boundary, s)
     | Some t \<Rightarrow>
         bind_res (with_pending t (observe_frame wal_start payload) s) (\<lambda>s.
         Inr (boundary, s))))"

section \<open>The poll loop\<close>

datatype loop_step = Return ingress_poll | Again

text \<open>The removal of a pending batch and its return.\<close>

definition take_batch :: "xid \<Rightarrow> pending_batch \<Rightarrow> ingress \<Rightarrow> loop_step \<times> ingress" where
  "take_batch xid p s =
     (Return (PollBatch (finish_batch p)), s\<lparr>ig_pending := AList.delete xid (ig_pending s)\<rparr>)"

text \<open>\<open>pending.keys().next()\<close> of a \<open>BTreeMap\<close>: the least key.\<close>

fun first_key :: "(xid \<times> pending_batch) list \<Rightarrow> xid option" where
  "first_key [] = None"
| "first_key ((k, p) # rest) =
     (case first_key rest of None \<Rightarrow> Some k | Some k' \<Rightarrow> Some (min k k'))"

text \<open>
  One iteration of the loop on one poll result; \<open>elapsed\<close> is the outcome of
  \<open>started.elapsed() >= budget.max_poll_time\<close> in it.
\<close>

definition poll_iteration ::
    "ingress_budget \<Rightarrow> replication_error + copy_data_poll \<Rightarrow> bool \<Rightarrow> ingress
     \<Rightarrow> (loop_step \<times> ingress) ires" where
  "poll_iteration budget polled elapsed s =
     bind_res (map_err IReplication polled) (\<lambda>poll.
     case poll of
       CopyPending \<Rightarrow>
         Inr (Return (PollNoBatch (ig_reply_requested s) False), s\<lparr>ig_reply_requested := False\<rparr>)
     | CopyEnd \<Rightarrow>
         (case first_key (ig_pending s) of
            Some xid \<Rightarrow>
              (case map_of (ig_pending s) xid of
                 None \<Rightarrow> Inl (IState ''pending batch key disappeared'')
               | Some p \<Rightarrow> Inr (take_batch xid p s))
          | None \<Rightarrow> Inr (Return PollEnd, s))
     | CopyMessage (PrimaryKeepalive wal_end time reply) \<Rightarrow>
         (let s' = s\<lparr>ig_reply_requested := ig_reply_requested s \<or> reply\<rparr> in
          if ig_pending s' = [] \<and> ig_reply_requested s'
          then Inr (Return (PollNoBatch (ig_reply_requested s') False),
                    s'\<lparr>ig_reply_requested := False\<rparr>)
          else Inr (Again, s'))
     | CopyMessage (XLogData wal_start wal_end time payload) \<Rightarrow>
         bind_res (process_pgoutput wal_start payload s) (\<lambda>(boundary, s).
         case boundary of
           Some xid \<Rightarrow>
             bind_res (ok_or (IState ''pgoutput boundary has no pending source batch'')
                         (map_of (ig_pending s) xid)) (\<lambda>p.
             Inr (take_batch xid p s))
         | None \<Rightarrow>
             (case ig_active s of
                None \<Rightarrow> Inr (Again, s)
              | Some t \<Rightarrow>
                  bind_res (ok_or (IState
                              ''pgoutput frame did not acquire a source transaction'')
                              (map_of (ig_pending s) (at_xid t))) (\<lambda>p.
                  if bg_max_events budget \<le> length (pb_events p)
                     \<or> bg_max_wire_bytes budget \<le> pb_wire_bytes p
                  then Inr (take_batch (at_xid t) p s)
                  else if elapsed
                  then Inr (Return (PollNoBatch (ig_reply_requested s) True),
                            s\<lparr>ig_reply_requested := False\<rparr>)
                  else Inr (Again, s)))))"

text \<open>
  \<open>poll_batch\<close> over the polls of the transport: \<open>None\<close> when the script ends before the loop
  returns.
\<close>

fun poll_loop ::
    "ingress_budget \<Rightarrow> ((replication_error + copy_data_poll) \<times> bool) list \<Rightarrow> ingress
     \<Rightarrow> (ingress_poll \<times> ingress) ires option" where
  "poll_loop budget [] s = None"
| "poll_loop budget ((polled, elapsed) # script) s =
     (case poll_iteration budget polled elapsed s of
        Inl e \<Rightarrow> Some (Inl e)
      | Inr (Return r, s') \<Rightarrow> Some (Inr (r, s'))
      | Inr (Again, s') \<Rightarrow> poll_loop budget script s')"

definition poll_batch ::
    "ingress_budget \<Rightarrow> ((replication_error + copy_data_poll) \<times> bool) list \<Rightarrow> ingress
     \<Rightarrow> (ingress_poll \<times> ingress) ires option" where
  "poll_batch budget script s =
     (if bg_max_events budget = 0 \<or> bg_max_wire_bytes budget = 0 \<or> bg_max_poll_time budget = 0
      then Some (Inl (IState ''ingress budgets must be greater than zero''))
      else poll_loop budget script s)"

end
