(* ===== verification/Ingress_Invariants.thy ===== *)
theory Ingress_Invariants
  imports Replication_Ingress
begin

text \<open>
  Reachable states of the ingress (\<open>src/ingress.rs\<close>): the step relation of its poll loop,
  the invariant every step keeps, and what a returned batch is.
\<close>

section \<open>Well-formed states\<close>

definition event_ok :: "ingress_event \<Rightarrow> bool" where
  "event_ok e \<longleftrightarrow> (ev_image_ordinal e, ev_weight e) \<in> {(0, 1), (0, -1), (1, 1)}"

definition batch_for :: "active_transaction \<Rightarrow> pending_batch \<Rightarrow> bool" where
  "batch_for t p \<longleftrightarrow>
     pb_source_xid p = at_xid t \<and> pb_transaction_start_lsn p = at_start_lsn t \<and>
     list_all event_ok (pb_events p)"

text \<open>The retained batches all belong to the transaction \<open>t\<close>.\<close>

definition only_batches :: "active_transaction \<Rightarrow> (xid \<times> pending_batch) list \<Rightarrow> bool" where
  "only_batches t ps \<longleftrightarrow> distinct (map fst ps) \<and>
     (\<forall>xid p. map_of ps xid = Some p \<longrightarrow> xid = at_xid t \<and> batch_for t p)"

definition base_inv :: "ingress \<Rightarrow> bool" where
  "base_inv s \<longleftrightarrow>
     distinct (map fst (ig_relations s)) \<and> distinct (map fst (ig_streamed s)) \<and>
     length (ig_relations s) \<le> ig_max_cached_relations s \<and>
     (\<forall>xid t. map_of (ig_streamed s) xid = Some t \<longrightarrow>
        at_xid t = xid \<and> at_expected_commit_lsn t = None)"

definition ingress_inv :: "ingress \<Rightarrow> bool" where
  "ingress_inv s \<longleftrightarrow> base_inv s \<and>
     (case ig_active s of
        None \<Rightarrow> ig_pending s = []
      | Some t \<Rightarrow>
          only_batches t (ig_pending s) \<and>
          (at_expected_commit_lsn t = None \<longrightarrow> map_of (ig_streamed s) (at_xid t) = Some t))"

text \<open>Between a frame with a boundary and the return of its batch.\<close>

definition closing :: "active_transaction \<Rightarrow> ingress \<Rightarrow> bool" where
  "closing t s \<longleftrightarrow> base_inv s \<and> ig_active s = None \<and> only_batches t (ig_pending s)"

section \<open>Pending batches\<close>

lemma batch_for_new [simp]: "batch_for t (pending_new t)"
  by (simp add: batch_for_def pending_new_def)

lemma only_batches_Nil [simp]: "only_batches t []"
  by (simp add: only_batches_def)

lemma only_batches_update:
  "only_batches t ps \<Longrightarrow> batch_for t p \<Longrightarrow> only_batches t (AList.update (at_xid t) p ps)"
  by (auto simp: only_batches_def update_conv' distinct_update)

text \<open>The batch an update starts from, and the state it leaves.\<close>

lemma with_pendingE:
  assumes "with_pending t f s = Inr s'" "only_batches t (ig_pending s)"
  obtains p p' where "batch_for t p" "f p = Inr p'"
    "s' = s\<lparr>ig_pending := AList.update (at_xid t) p' (ig_pending s)\<rparr>"
    "map_of (ig_pending s) (at_xid t) = None \<and> p = pending_new t \<or>
     map_of (ig_pending s) (at_xid t) = Some p"
proof (cases "map_of (ig_pending s) (at_xid t)")
  case None
  then show ?thesis
    using assms(1) that[of "pending_new t"] by (auto simp: with_pending_def res_simps Let_def)
next
  case (Some p)
  then have "batch_for t p" using assms(2) by (auto simp: only_batches_def)
  then show ?thesis
    using assms(1) Some that[of p] by (auto simp: with_pending_def res_simps Let_def)
qed

lemma with_pending_step:
  assumes "with_pending t f s = Inr s'" "only_batches t (ig_pending s)"
    and "\<And>p p'. batch_for t p \<Longrightarrow> f p = Inr p' \<Longrightarrow> batch_for t p'"
  shows "\<exists>ps. s' = s\<lparr>ig_pending := ps\<rparr> \<and> only_batches t ps \<and> map_of ps (at_xid t) \<noteq> None"
  using with_pendingE[OF assms(1,2)] only_batches_update[OF assms(2)] assms(3)
  by (metis fun_upd_same option.distinct(1) update_conv')

lemma with_pending_total:
  assumes "with_pending t (\<lambda>p. Inr (g p)) s = Inr s'" "only_batches t (ig_pending s)"
    and "\<And>p. batch_for t p \<Longrightarrow> batch_for t (g p)"
  shows "\<exists>ps. s' = s\<lparr>ig_pending := ps\<rparr> \<and> only_batches t ps \<and> map_of ps (at_xid t) \<noteq> None"
proof (rule with_pending_step[OF assms(1,2)])
  fix p p' assume "batch_for t p" "Inr (g p) = (Inr p' :: pending_batch ires)"
  then show "batch_for t p'" using assms(3) by blast
qed

lemma base_inv_simps [simp]:
  "base_inv (s\<lparr>ig_pending := ps\<rparr>) = base_inv s"
  "base_inv (s\<lparr>ig_active := a\<rparr>) = base_inv s"
  "base_inv (s\<lparr>ig_last_change := l\<rparr>) = base_inv s"
  "base_inv (s\<lparr>ig_reply_requested := r\<rparr>) = base_inv s"
  by (simp_all add: base_inv_def)

lemma base_inv_delete:
  "base_inv s \<Longrightarrow> base_inv (s\<lparr>ig_streamed := AList.delete x (ig_streamed s)\<rparr>)"
  by (auto simp: base_inv_def distinct_delete AList.delete_conv' split: if_splits)

lemma base_inv_insert:
  "base_inv s \<Longrightarrow> at_xid t = x \<Longrightarrow> at_expected_commit_lsn t = None \<Longrightarrow>
     base_inv (s\<lparr>ig_streamed := AList.update x t (ig_streamed s)\<rparr>)"
  by (auto simp: base_inv_def distinct_update update_conv' split: if_splits)

lemma length_update:
  "length (AList.update k v al) = (if k \<in> fst ` set al then length al else length al + 1)"
  using arg_cong[OF AList.update_keys[of k v al], of length] by auto

lemma base_inv_relation:
  assumes "base_inv s" "map_of (ig_relations s) k \<noteq> None \<or>
     length (ig_relations s) < ig_max_cached_relations s"
  shows "base_inv (s\<lparr>ig_relations := AList.update k v (ig_relations s)\<rparr>)"
  using assms by (auto simp: base_inv_def distinct_update length_update map_of_eq_None_iff)

section \<open>Handlers\<close>

text \<open>What a handler promises: the state after it, by the boundary it reports.\<close>

definition handled_ok :: "xid option \<Rightarrow> active_transaction option \<Rightarrow> ingress \<Rightarrow> bool" where
  "handled_ok boundary observed s \<longleftrightarrow>
     (case boundary of
        None \<Rightarrow> ingress_inv s \<and> observed = ig_active s
      | Some xid \<Rightarrow> \<exists>t. observed = Some t \<and> at_xid t = xid \<and> closing t s)"

lemma ensure_step:
  assumes "ensure_pending t s = Inr s'" "only_batches t (ig_pending s)"
  shows "\<exists>ps. s' = s\<lparr>ig_pending := ps\<rparr> \<and> only_batches t ps"
  using with_pending_step[OF assms(1)[unfolded ensure_pending_def] assms(2)] by auto

lemma handle_begin_ok:
  assumes "handle_begin w final xid s = Inr (b, obs, s')" "ingress_inv s"
  shows "handled_ok b obs s'"
proof -
  let ?t = "\<lparr>at_xid = xid, at_start_lsn = w, at_expected_commit_lsn = Some final\<rparr>"
  have t: "ig_active s = None" "ensure_pending ?t (s\<lparr>ig_active := Some ?t\<rparr>) = Inr s'"
      "b = None" "obs = Some ?t"
    using assms(1) by (auto simp: handle_begin_def res_simps Let_def split: if_splits)
  then show ?thesis
    using ensure_step[OF t(2)] assms(2) by (auto simp: handled_ok_def ingress_inv_def)
qed

lemma handle_stream_start_ok:
  assumes "handle_stream_start w xid first s = Inr (b, obs, s')" "ingress_inv s"
  shows "handled_ok b obs s'"
proof -
  let ?s = "\<lambda>t. s\<lparr>ig_streamed := AList.update xid t (ig_streamed s), ig_active := Some t\<rparr>"
  obtain t where t: "stream_transaction w xid first s = Inr t" "ig_active s = None"
      "ensure_pending t (?s t) = Inr s'" "b = None" "obs = Some t"
    using assms(1) by (auto simp: handle_stream_start_def res_simps split: if_splits)
  have x: "at_xid t = xid" "at_expected_commit_lsn t = None"
    using t(1) assms(2)
    by (auto simp: stream_transaction_def res_simps ingress_inv_def base_inv_def split: if_splits)
  have "base_inv (?s t)" "ig_pending s = []"
    using assms(2) t x base_inv_insert[of s t xid] by (auto simp: ingress_inv_def)
  then show ?thesis
    using ensure_step[OF t(3)] t x by (auto simp: handled_ok_def ingress_inv_def update_conv')
qed

lemma handle_stream_stop_ok:
  "handle_stream_stop s = Inr (b, obs, s') \<Longrightarrow> ingress_inv s \<Longrightarrow> handled_ok b obs s'"
  by (auto simp: handle_stream_stop_def require_active_transaction_def res_simps handled_ok_def
           closing_def ingress_inv_def)

lemma closing_step:
  assumes "with_pending t (\<lambda>p. Inr (g p)) s = Inr s'" "base_inv s" "ig_active s = None"
    and "only_batches t (ig_pending s)" "\<And>p. batch_for t p \<Longrightarrow> batch_for t (g p)"
  shows "closing t s'"
proof -
  have "\<exists>ps. s' = s\<lparr>ig_pending := ps\<rparr> \<and> only_batches t ps \<and> map_of ps (at_xid t) \<noteq> None"
    by (rule with_pending_total[OF assms(1,4,5)])
  then show ?thesis using assms(2,3) by (auto simp: closing_def)
qed

lemma closing_last [simp]: "closing t (s\<lparr>ig_last_change := l\<rparr>) = closing t s"
  by (simp add: closing_def)

lemma streamed_entry:
  "ingress_inv s \<Longrightarrow> ig_active s = None \<Longrightarrow> map_of (ig_streamed s) xid = Some t \<Longrightarrow>
     at_xid t = xid \<and> base_inv s \<and> ig_pending s = []"
  by (auto simp: ingress_inv_def base_inv_def)

lemma handle_stream_commit_ok:
  assumes "handle_stream_commit xid c e s = Inr (b, obs, s')" "ingress_inv s"
  shows "handled_ok b obs s'"
proof -
  let ?s = "s\<lparr>ig_streamed := AList.delete xid (ig_streamed s)\<rparr>"
  obtain t s1 where t: "map_of (ig_streamed s) xid = Some t" "ig_active s = None"
      "with_pending t (\<lambda>p. Inr (p\<lparr>pb_decode_end_lsn := e, pb_boundary := Some (BCommit c e)\<rparr>)) ?s
         = Inr s1" "b = Some xid" "obs = Some t"
      "s' = s1\<lparr>ig_last_change := AList.delete xid (ig_last_change s1)\<rparr>"
    using assms(1) by (auto simp: handle_stream_commit_def res_simps split: if_splits)
  note e = streamed_entry[OF assms(2) t(2,1)]
  have "closing t s1"
    by (rule closing_step[OF t(3)]) (use e t(2) base_inv_delete in \<open>auto simp: batch_for_def\<close>)
  then show ?thesis using t e by (auto simp: handled_ok_def)
qed

lemma handle_stream_abort_ok:
  assumes "handle_stream_abort w xid subxid s = Inr (b, obs, s')" "ingress_inv s"
  shows "handled_ok b obs s'"
proof -
  obtain t bd s0 where t: "map_of (ig_streamed s) xid = Some t" "ig_active s = None"
      "with_pending t (\<lambda>p. Inr (p\<lparr>pb_boundary := Some bd\<rparr>)) s0 = Inr s'"
      "b = Some xid" "obs = Some t"
      "s0 = s \<or> s0 = s\<lparr>ig_streamed := AList.delete xid (ig_streamed s),
                      ig_last_change := AList.delete xid (ig_last_change s)\<rparr>"
    using assms(1)
    by (auto simp: handle_stream_abort_def res_simps Let_def split: if_splits)
  note e = streamed_entry[OF assms(2) t(2,1)]
  have "base_inv s0" "ig_active s0 = None" "ig_pending s0 = []"
    using t(2,6) e base_inv_delete[of s xid] by auto
  then have "closing t s'"
    by (intro closing_step[OF t(3)]) (auto simp: batch_for_def)
  then show ?thesis using t e by (auto simp: handled_ok_def)
qed

text \<open>The state after \<open>ensure_pending\<close> for the active transaction.\<close>

lemma ensure_active:
  assumes "ensure_pending t s = Inr s'" "ingress_inv s" "ig_active s = Some t"
  shows "ingress_inv s' \<and> ig_active s' = Some t"
  using ensure_step[OF assms(1)] assms(2,3) by (auto simp: ingress_inv_def)

lemma handle_type_ok:
  "handle_type sx s = Inr (b, obs, s') \<Longrightarrow> ingress_inv s \<Longrightarrow> handled_ok b obs s'"
  using ensure_active
  by (fastforce simp: handle_type_def res_simps require_active_transaction_def handled_ok_def)

lemma handle_origin_ok:
  "handle_origin s = Inr (b, obs, s') \<Longrightarrow> ingress_inv s \<Longrightarrow> handled_ok b obs s'"
  using ensure_active
  by (fastforce simp: handle_origin_def res_simps require_active_transaction_def handled_ok_def)

lemma handle_logical_ok:
  "handle_logical sx tr s = Inr (b, obs, s') \<Longrightarrow> ingress_inv s \<Longrightarrow> handled_ok b obs s'"
  using ensure_active
  by (fastforce simp: handle_logical_def res_simps require_active_transaction_def handled_ok_def
                split: if_splits)

lemma handle_relation_ok:
  assumes "handle_relation sx relid cols s = Inr (b, obs, s')" "ingress_inv s"
  shows "handled_ok b obs s'"
proof -
  obtain t s1 where t: "ig_active s = Some t" "ensure_pending t s = Inr s1" "b = None"
      "obs = Some t" "s' = s1\<lparr>ig_relations := AList.update relid cols (ig_relations s1)\<rparr>"
      "map_of (ig_relations s1) relid \<noteq> None \<or>
         length (ig_relations s1) < ig_max_cached_relations s1"
    using assms(1)
    by (auto simp: handle_relation_def res_simps require_active_transaction_def split: if_splits)
  have inv: "ingress_inv s1" "ig_active s1 = Some t" using ensure_active t assms(2) by blast+
  then have "base_inv s'"
    using base_inv_relation[OF _ t(6)] t(5) by (auto simp: ingress_inv_def)
  then show ?thesis using inv t by (auto simp: handled_ok_def ingress_inv_def)
qed

lemma convert_images_ok:
  "convert_images w ord sx relid cols images = Inr events \<Longrightarrow>
     list_all (\<lambda>(i, wt, row). (i, wt) \<in> {(0, 1), (0, -1), (1, 1)}) images \<Longrightarrow>
     list_all event_ok events"
  by (induction images arbitrary: events) (auto simp: res_simps event_ok_def)

lemma push_change_ok:
  assumes "push_change w sx relid images s = Inr s'" "ingress_inv s"
    and "list_all (\<lambda>(i, wt, row). (i, wt) \<in> {(0, 1), (0, -1), (1, 1)}) images"
  shows "ingress_inv s' \<and> ig_active s' = ig_active s"
proof -
  obtain t ord l cols converted where t: "ig_active s = Some t"
      "convert_images w ord sx relid cols images = Inr converted"
      "with_pending t (\<lambda>p. Inr (p\<lparr>pb_events := pb_events p @ converted\<rparr>))
         (s\<lparr>ig_last_change := l\<rparr>) = Inr s'"
    using assms(1) by (auto simp: push_change_def require_active_transaction_def res_simps)
  have "list_all event_ok converted" using convert_images_ok[OF t(2) assms(3)] .
  then have "\<exists>ps. s' = s\<lparr>ig_last_change := l, ig_pending := ps\<rparr> \<and> only_batches t ps"
    using with_pending_step[OF t(3)] assms(2) t(1)
    by (fastforce simp: ingress_inv_def batch_for_def)
  then show ?thesis using assms(2) t(1) by (auto simp: ingress_inv_def)
qed

lemma handle_change_ok:
  assumes "handle_change w sx msg relid images s = Inr (b, obs, s')" "ingress_inv s"
    and "list_all (\<lambda>(i, wt, row). (i, wt) \<in> {(0, 1), (0, -1), (1, 1)}) images"
  shows "handled_ok b obs s'"
  using assms push_change_ok[OF _ assms(2,3)]
  by (auto simp: handle_change_def res_simps handled_ok_def)

lemma handle_commit_ok:
  assumes "handle_commit c e s = Inr (b, obs, s')" "ingress_inv s"
  shows "handled_ok b obs s'"
proof -
  obtain t s1 where t: "ig_active s = Some t"
      "with_pending t (\<lambda>p. Inr (p\<lparr>pb_decode_end_lsn := e, pb_boundary := Some (BCommit c e)\<rparr>)) s
         = Inr s1" "b = Some (at_xid t)" "obs = Some t"
      "s' = s1\<lparr>ig_active := None, ig_last_change := AList.delete (at_xid t) (ig_last_change s1)\<rparr>"
    using assms(1)
    by (auto simp: handle_commit_def require_active_transaction_def res_simps split: if_splits)
  have "\<exists>ps. s1 = s\<lparr>ig_pending := ps\<rparr> \<and> only_batches t ps"
    using with_pending_total[OF t(2)] assms(2) t(1) by (auto simp: ingress_inv_def batch_for_def)
  then show ?thesis
    using assms(2) t by (auto simp: handled_ok_def closing_def ingress_inv_def)
qed

lemma handle_message_ok:
  "handle_message w m s = Inr (b, obs, s') \<Longrightarrow> ingress_inv s \<Longrightarrow> handled_ok b obs s'"
  by (cases m)
    (auto intro: handle_begin_ok handle_stream_start_ok handle_stream_stop_ok
       handle_stream_commit_ok handle_stream_abort_ok handle_relation_ok handle_type_ok
       handle_origin_ok handle_logical_ok handle_commit_ok elim!: handle_change_ok)

section \<open>Frames and polls\<close>

lemma observe_frame_batch_for:
  "observe_frame w payload p = Inr p' \<Longrightarrow> batch_for t p \<Longrightarrow> batch_for t p'"
  by (auto simp: observe_frame_def res_simps batch_for_def)

definition processed_ok :: "xid option \<Rightarrow> ingress \<Rightarrow> bool" where
  "processed_ok boundary s \<longleftrightarrow>
     (case boundary of
        None \<Rightarrow> ingress_inv s \<and>
          (\<forall>t. ig_active s = Some t \<longrightarrow> map_of (ig_pending s) (at_xid t) \<noteq> None)
      | Some xid \<Rightarrow> \<exists>t. at_xid t = xid \<and> closing t s \<and> map_of (ig_pending s) xid \<noteq> None)"

lemma process_pgoutput_ok:
  assumes "process_pgoutput w payload s = Inr (b, s')" "ingress_inv s"
  shows "processed_ok b s'"
proof -
  obtain m obs s1 where m: "handle_message w m s = Inr (b, obs, s1)"
      "case obs of None \<Rightarrow> s' = s1 | Some t \<Rightarrow> with_pending t (observe_frame w payload) s1 = Inr s'"
    using assms(1) by (auto simp: process_pgoutput_def res_simps split: option.splits)
  have ok: "handled_ok b obs s1" by (rule handle_message_ok[OF m(1) assms(2)])
  show ?thesis
  proof (cases obs)
    case None
    then show ?thesis using ok m(2) by (auto simp: handled_ok_def processed_ok_def split: option.splits)
  next
    case (Some t)
    have "only_batches t (ig_pending s1)"
      using ok Some
      by (auto simp: handled_ok_def closing_def ingress_inv_def split: option.splits)
    then have "\<exists>ps. s' = s1\<lparr>ig_pending := ps\<rparr> \<and> only_batches t ps \<and> map_of ps (at_xid t) \<noteq> None"
      using with_pending_step[of t "observe_frame w payload" s1 s'] m(2) Some
        observe_frame_batch_for by auto
    then show ?thesis
      using ok Some
      by (auto simp: handled_ok_def processed_ok_def closing_def ingress_inv_def split: option.splits)
  qed
qed

lemma only_batches_delete: "only_batches t ps \<Longrightarrow> AList.delete (at_xid t) ps = []"
  by (auto simp: only_batches_def AList.delete_eq filter_empty_conv)

lemma only_batches_entry:
  "only_batches t ps \<Longrightarrow> map_of ps x = Some p \<Longrightarrow> x = at_xid t \<and> batch_for t p"
  by (auto simp: only_batches_def)

lemma first_key_None [simp]: "first_key ps = None \<longleftrightarrow> ps = []"
  by (cases ps) (auto split: option.splits)

lemma first_key_in: "first_key ps = Some k \<Longrightarrow> k \<in> fst ` set ps"
proof (induction ps arbitrary: k)
  case (Cons a ps)
  then show ?case
    by (cases a) (auto simp: min_def split: option.splits if_splits)
qed simp

lemma first_key_entry: "first_key ps = Some k \<Longrightarrow> \<exists>p. map_of ps k = Some p"
  using first_key_in map_of_eq_None_iff by (metis not_None_eq)

text \<open>A returned batch holds well-formed events only.\<close>

definition batch_ok :: "ingress_batch \<Rightarrow> bool" where
  "batch_ok b \<longleftrightarrow> list_all event_ok (ib_events b)"

definition step_ok :: "loop_step \<Rightarrow> bool" where
  "step_ok r \<longleftrightarrow> (case r of Return (PollBatch b) \<Rightarrow> batch_ok b | _ \<Rightarrow> True)"

lemma finish_batch_ok: "batch_for t p \<Longrightarrow> batch_ok (finish_batch p)"
  by (auto simp: batch_ok_def batch_for_def finish_batch_def)

lemma inv_pending:
  "ingress_inv s \<Longrightarrow> map_of (ig_pending s) x = Some p \<Longrightarrow>
     \<exists>t. ig_active s = Some t \<and> x = at_xid t \<and> batch_for t p \<and>
       AList.delete (at_xid t) (ig_pending s) = []"
  unfolding ingress_inv_def
  by (cases "ig_active s") (auto dest: only_batches_delete only_batches_entry)

lemma inv_reset_reply [simp]: "ingress_inv (s\<lparr>ig_reply_requested := r\<rparr>) = ingress_inv s"
  by (cases "ig_active s") (simp_all add: ingress_inv_def)

lemma inv_clear_pending: "ingress_inv s \<Longrightarrow> ingress_inv (s\<lparr>ig_pending := []\<rparr>)"
  by (auto simp: ingress_inv_def split: option.splits)

lemma take_batch_ok:
  assumes "ingress_inv s" "map_of (ig_pending s) x = Some p" "take_batch x p s = (r, s')"
  shows "ingress_inv s' \<and> step_ok r"
proof -
  obtain t where "batch_for t p" "AList.delete x (ig_pending s) = []"
    using inv_pending[OF assms(1,2)] by blast
  then show ?thesis
    using assms(1,3) inv_clear_pending finish_batch_ok by (auto simp: take_batch_def step_ok_def)
qed

lemma take_closing_ok:
  assumes "closing t s" "at_xid t = x" "map_of (ig_pending s) x = Some p"
    and "take_batch x p s = (r, s')"
  shows "ingress_inv s' \<and> step_ok r"
proof -
  have "batch_for t p" "AList.delete x (ig_pending s) = []"
    using assms(1-3) only_batches_entry[of t _ x p] only_batches_delete[of t]
    unfolding closing_def by blast+
  then show ?thesis
    using assms(1,4) finish_batch_ok
    by (auto simp: take_batch_def step_ok_def closing_def ingress_inv_def)
qed

lemma poll_xlog_ok:
  assumes "poll_iteration budget (Inr (CopyMessage (XLogData w e tm payload))) elapsed s
             = Inr (r, s')" "ingress_inv s"
  shows "ingress_inv s' \<and> step_ok r"
proof -
  obtain b s1 where p: "process_pgoutput w payload s = Inr (b, s1)"
    using assms(1) by (auto simp: poll_iteration_def res_simps)
  have ok: "processed_ok b s1" by (rule process_pgoutput_ok[OF p assms(2)])
  show ?thesis
  proof (cases b)
    case (Some xid)
    obtain t where t: "at_xid t = xid" "closing t s1" using ok Some by (auto simp: processed_ok_def)
    obtain q where q: "map_of (ig_pending s1) xid = Some q" "take_batch xid q s1 = (r, s')"
      using assms(1) p Some by (auto simp: poll_iteration_def res_simps)
    then show ?thesis using take_closing_ok[OF t(2,1)] by auto
  next
    case None
    then have inv: "ingress_inv s1" using ok by (simp add: processed_ok_def)
    show ?thesis
    proof (cases "ig_active s1")
      case None
      then show ?thesis
        using assms(1) p \<open>b = None\<close> inv by (auto simp: poll_iteration_def step_ok_def)
    next
      case (Some t)
      obtain q where q: "map_of (ig_pending s1) (at_xid t) = Some q"
        using ok Some \<open>b = None\<close> by (auto simp: processed_ok_def)
      have "take_batch (at_xid t) q s1 = (r, s') \<or> (step_ok r \<and> ingress_inv s')"
        using assms(1) p q Some \<open>b = None\<close> inv
        by (auto simp: poll_iteration_def step_ok_def split: if_splits)
      then show ?thesis using take_batch_ok[OF inv q] by auto
    qed
  qed
qed

lemma poll_iteration_ok:
  assumes "poll_iteration budget polled elapsed s = Inr (r, s')" "ingress_inv s"
  shows "ingress_inv s' \<and> step_ok r"
proof -
  obtain poll where p: "polled = Inr poll"
    using assms(1) by (auto simp: poll_iteration_def res_simps)
  show ?thesis
  proof (cases poll)
    case (CopyMessage m)
    then show ?thesis
      using assms p poll_xlog_ok[of budget]
      by (cases m) (auto simp: poll_iteration_def step_ok_def Let_def split: if_splits)
  next
    case CopyEnd
    show ?thesis
    proof (cases "first_key (ig_pending s)")
      case None
      then show ?thesis using assms p CopyEnd by (auto simp: poll_iteration_def step_ok_def)
    next
      case (Some k)
      obtain q where q: "map_of (ig_pending s) k = Some q" using first_key_entry[OF Some] by blast
      then have "take_batch k q s = (r, s')"
        using assms(1) p CopyEnd Some by (auto simp: poll_iteration_def)
      then show ?thesis using take_batch_ok[OF assms(2) q] by auto
    qed
  qed (use assms p in \<open>auto simp: poll_iteration_def step_ok_def\<close>)
qed

section \<open>Reachable states\<close>

text \<open>
  The states between two iterations of the loop, in any sequence of polls the environment
  condition \<open>env\<close> allows.
\<close>

inductive ingress_reach ::
    "nat \<Rightarrow> ingress_budget \<Rightarrow> (replication_error + copy_data_poll \<Rightarrow> ingress \<Rightarrow> bool)
     \<Rightarrow> ingress \<Rightarrow> bool"
  for max_relations budget env where
  reach_new: "ingress_new max_relations = Inr s \<Longrightarrow> ingress_reach max_relations budget env s"
| reach_poll:
    "ingress_reach max_relations budget env s \<Longrightarrow> env polled s \<Longrightarrow>
     poll_iteration budget polled elapsed s = Inr (r, s') \<Longrightarrow>
     ingress_reach max_relations budget env s'"

lemma ingress_new_inv: "ingress_new n = Inr s \<Longrightarrow> ingress_inv s"
  by (auto simp: ingress_new_def ingress_inv_def base_inv_def split: if_splits)

lemma ingress_reach_inv: "ingress_reach n budget env s \<Longrightarrow> ingress_inv s"
  by (induction rule: ingress_reach.induct) (auto dest: ingress_new_inv poll_iteration_ok)

lemma max_relations_const:
  "with_pending t f s = Inr s' \<Longrightarrow> ig_max_cached_relations s' = ig_max_cached_relations s"
  by (auto simp: with_pending_def res_simps Let_def split: if_splits)

end
