(* ===== verification/Pgoutput_Grammar.thy ===== *)
theory Pgoutput_Grammar
  imports Pgoutput
begin

text \<open>
  The pgoutput grammar, written as the server emits it, and the proof that the parser of
  theory \<open>Pgoutput\<close> accepts exactly its messages.  The grammar keeps the fields the parser
  skips (commit times, the names and replica identity of a relation, column types) as
  arbitrary bytes of the right length.
\<close>

section \<open>The grammar\<close>

definition cstr_ok :: "utf8 \<Rightarrow> bool" where
  "cstr_ok t \<longleftrightarrow> utf8_valid t \<and> 0 \<notin> set t"

fun enc_value :: "tuple_value \<Rightarrow> bytes" where
  "enc_value NullValue = [byte_of CHR ''n'']"
| "enc_value (TextValue t) =
     byte_of CHR ''t'' # be_word (word_of_nat (length t) :: 32 word) @ t"
| "enc_value UnchangedToast = [byte_of CHR ''u'']"

fun value_ok :: "tuple_value \<Rightarrow> bool" where
  "value_ok (TextValue t) = (utf8_valid t \<and> length t \<le> u32_max)"
| "value_ok _ = True"

definition enc_values :: "tuple_value list \<Rightarrow> bytes" where
  "enc_values vs = concat (map enc_value vs)"

definition tuple_ok :: "tuple_value list \<Rightarrow> bool" where
  "tuple_ok vs \<longleftrightarrow> length vs \<le> u16_max \<and> list_all value_ok vs"

definition enc_tuple :: "byte \<Rightarrow> tuple_value list \<Rightarrow> bytes" where
  "enc_tuple tag vs = tag # be_word (word_of_nat (length vs) :: 16 word) @ enc_values vs"

text \<open>A relation column on the wire: flags, name, type OID and type modifier.\<close>

type_synonym wire_column = "byte \<times> utf8 \<times> bytes"

fun enc_column :: "wire_column \<Rightarrow> bytes" where
  "enc_column (flags, name, ty) = flags # name @ 0 # ty"

fun column_ok :: "wire_column \<Rightarrow> bool" where
  "column_ok (flags, name, ty) = (cstr_ok name \<and> length ty = 8)"

definition enc_columns :: "wire_column list \<Rightarrow> bytes" where
  "enc_columns cs = concat (map enc_column cs)"

definition enc_relids :: "oid list \<Rightarrow> bytes" where
  "enc_relids rs = concat (map be_word rs)"

text \<open>
  The body of a message that carries its transaction: tag, source transaction, body bytes,
  meaning.
\<close>

inductive tx_body :: "byte \<Rightarrow> xid option \<Rightarrow> bytes \<Rightarrow> message \<Rightarrow> bool" where
  tx_relation:
    "cstr_ok namespace \<Longrightarrow> cstr_ok name \<Longrightarrow> length cols \<le> u16_max \<Longrightarrow> list_all column_ok cols \<Longrightarrow>
     tx_body (byte_of CHR ''R'') sx
       (be_word relid @ namespace @ 0 # name @ 0 # identity
          # be_word (word_of_nat (length cols) :: 16 word) @ enc_columns cols)
       (Relation sx relid (map (\<lambda>(flags, n, ty). n) cols))"
| tx_type:
    "cstr_ok namespace \<Longrightarrow> cstr_ok name \<Longrightarrow>
     tx_body (byte_of CHR ''Y'') sx (be_word typeid @ namespace @ 0 # name @ [0])
       (TypeMsg sx typeid namespace name)"
| tx_logical:
    "cstr_ok prefix \<Longrightarrow> length content \<le> u32_max \<Longrightarrow>
     tx_body (byte_of CHR ''M'') sx
       ((if transactional then 1 else 0) # be_word message_lsn @ prefix @ 0
          # be_word (word_of_nat (length content) :: 32 word) @ content)
       (Logical sx transactional message_lsn prefix content)"
| tx_insert:
    "tuple_ok vs \<Longrightarrow> complete_tuple vs = Inr row \<Longrightarrow>
     tx_body (byte_of CHR ''I'') sx (be_word relid @ enc_tuple (byte_of CHR ''N'') vs)
       (Insert sx relid row)"
| tx_update:
    "tag = byte_of CHR ''K'' \<or> tag = byte_of CHR ''O'' \<Longrightarrow> tuple_ok os \<Longrightarrow> tuple_ok ns \<Longrightarrow>
     complete_tuple os = Inr old \<Longrightarrow> resolve_unchanged_toast old ns = Inr new \<Longrightarrow>
     tx_body (byte_of CHR ''U'') sx
       (be_word relid @ enc_tuple tag os @ enc_tuple (byte_of CHR ''N'') ns)
       (Update sx relid old new)"
| tx_delete:
    "tag = byte_of CHR ''K'' \<or> tag = byte_of CHR ''O'' \<Longrightarrow> tuple_ok os \<Longrightarrow>
     complete_tuple os = Inr old \<Longrightarrow>
     tx_body (byte_of CHR ''D'') sx (be_word relid @ enc_tuple tag os) (Delete sx relid old)"
| tx_truncate:
    "length relids \<le> u32_max \<Longrightarrow> and options (not 3) = 0 \<Longrightarrow>
     tx_body (byte_of CHR ''T'') sx
       (be_word (word_of_nat (length relids) :: 32 word) @ options # enc_relids relids)
       (Truncate sx relids (and options 1 \<noteq> 0) (and options 2 \<noteq> 0))"

inductive pg_message :: "parse_context \<Rightarrow> bytes \<Rightarrow> message \<Rightarrow> bool" where
  pg_begin:
    "length time = 8 \<Longrightarrow>
     pg_message ctx (byte_of CHR ''B'' # be_word final_lsn @ time @ be_word xid)
       (Begin final_lsn xid)"
| pg_commit:
    "length time = 8 \<Longrightarrow>
     pg_message ctx (byte_of CHR ''C'' # 0 # be_word lsn @ be_word end_lsn @ time)
       (Commit lsn end_lsn)"
| pg_stream_start:
    "xid \<noteq> 0 \<Longrightarrow>
     pg_message ctx (byte_of CHR ''S'' # be_word xid @ [if first then 1 else 0])
       (StreamStart xid first)"
| pg_stream_stop: "pg_message ctx [byte_of CHR ''E''] StreamStop"
| pg_stream_commit:
    "xid \<noteq> 0 \<Longrightarrow> in_i64 time \<Longrightarrow>
     pg_message ctx (byte_of CHR ''c'' # be_word xid @ 0 # be_word lsn @ be_word end_lsn @ be_i64 time)
       (StreamCommit xid 0 lsn end_lsn time)"
| pg_stream_abort:
    "xid \<noteq> 0 \<Longrightarrow> subxid \<noteq> 0 \<Longrightarrow>
     pg_message ctx (byte_of CHR ''A'' # be_word xid @ be_word subxid) (StreamAbort xid subxid)"
| pg_origin:
    "cstr_ok name \<Longrightarrow>
     pg_message ctx (byte_of CHR ''O'' # be_word origin_lsn @ name @ [0]) (Origin origin_lsn name)"
| pg_plain: "tx_body tag None body m \<Longrightarrow> pg_message NonStreaming (tag # body) m"
| pg_streamed:
    "xid \<noteq> 0 \<Longrightarrow> tx_body tag (Some xid) body m \<Longrightarrow>
     pg_message Streaming (tag # be_word xid @ body) m"

section \<open>Readers against the bytes at an offset\<close>

text \<open>A slice has at most \<open>isize::MAX\<close> bytes, so no offset into it overflows.\<close>

definition sized :: "bytes \<Rightarrow> bool" where
  "sized input \<longleftrightarrow> length input \<le> i64_max_u64"

lemma read_rangeD:
  assumes "read_range input off n = Inr bs" "rest_at input off ys"
  shows "\<exists>zs. ys = bs @ zs \<and> length bs = n \<and> rest_at input (off + n) zs"
proof -
  have "get_range input off (off + n) = Some bs"
    using assms(1) by (auto simp: read_range_def res_simps)
  then obtain zs where "length bs = n" "rest_at input off (bs @ zs)"
    by (auto simp: get_range_Some)
  then show ?thesis using assms(2) rest_at_fun rest_at_append by metis
qed

lemma read_rangeI:
  assumes "sized input" "rest_at input off (bs @ zs)" "length bs = n"
  shows "read_range input off n = Inr bs"
proof -
  have "off + n \<le> u64_max"
    using assms rest_at_length[OF assms(2)] by (simp add: sized_def int_bounds)
  moreover have "get_range input off (off + n) = Some bs"
    using assms by (auto simp: get_range_Some)
  ultimately show ?thesis by (simp add: read_range_def checked_add_u64_def)
qed

lemma read_u16D:
  "read_u16 input off = Inr w \<Longrightarrow> rest_at input off ys \<Longrightarrow>
     \<exists>zs. ys = be_word w @ zs \<and> rest_at input (off + 2) zs"
  by (auto simp: read_u16_def res_simps be_word_from_be dest!: read_rangeD)

lemma read_u32D:
  "read_u32 input off = Inr w \<Longrightarrow> rest_at input off ys \<Longrightarrow>
     \<exists>zs. ys = be_word w @ zs \<and> rest_at input (off + 4) zs"
  by (auto simp: read_u32_def res_simps be_word_from_be dest!: read_rangeD)

lemma read_u64D:
  "read_u64 input off = Inr w \<Longrightarrow> rest_at input off ys \<Longrightarrow>
     \<exists>zs. ys = be_word w @ zs \<and> rest_at input (off + 8) zs"
  by (auto simp: read_u64_def res_simps be_word_from_be dest!: read_rangeD)

lemma read_i64D:
  "read_i64 input off = Inr t \<Longrightarrow> rest_at input off ys \<Longrightarrow>
     in_i64 t \<and> (\<exists>zs. ys = be_i64 t @ zs \<and> rest_at input (off + 8) zs)"
  by (auto simp: read_i64_def res_simps be_i64_from_be dest!: read_rangeD)

lemma read_u16I:
  "sized input \<Longrightarrow> rest_at input off (be_word w @ zs) \<Longrightarrow> read_u16 input off = Inr w"
  by (simp add: read_u16_def read_rangeI[of _ _ _ zs] word_from_be_word)

lemma read_u32I:
  "sized input \<Longrightarrow> rest_at input off (be_word w @ zs) \<Longrightarrow> read_u32 input off = Inr w"
  by (simp add: read_u32_def read_rangeI[of _ _ _ zs] word_from_be_word)

lemma read_u64I:
  "sized input \<Longrightarrow> rest_at input off (be_word w @ zs) \<Longrightarrow> read_u64 input off = Inr w"
  by (simp add: read_u64_def read_rangeI[of _ _ _ zs] word_from_be_word)

lemma read_i64I:
  "sized input \<Longrightarrow> in_i64 t \<Longrightarrow> rest_at input off (be_i64 t @ zs) \<Longrightarrow> read_i64 input off = Inr t"
  by (simp add: read_i64_def read_rangeI[of _ _ _ zs] i64_from_be_i64)

lemma get_atD:
  "get_at input off = Some b \<Longrightarrow> rest_at input off ys \<Longrightarrow>
     \<exists>zs. ys = b # zs \<and> rest_at input (off + 1) zs"
  using get_at_Some rest_at_fun rest_at_Cons by metis

lemma get_atI: "rest_at input off (b # zs) \<Longrightarrow> get_at input off = Some b"
  using get_at_Some by blast

lemma zero_position_Some:
  "zero_position xs = Some n \<longleftrightarrow>
     n < length xs \<and> xs ! n = 0 \<and> 0 \<notin> set (take n xs)"
  by (induction xs arbitrary: n) (auto simp: less_Suc_eq_0_disj nth_Cons split: nat.splits)

lemma zero_position_append: "0 \<notin> set t \<Longrightarrow> zero_position (t @ 0 # zs) = Some (length t)"
  by (induction t) auto

lemma read_cstrD:
  assumes "read_cstr input off = Inr (t, stop)" "rest_at input off ys"
  shows "cstr_ok t \<and> (\<exists>zs. ys = t @ 0 # zs \<and> rest_at input stop zs)"
proof -
  have ys: "ys = drop off input" using assms(2) by (simp add: rest_at_drop)
  obtain n where n: "zero_position ys = Some n" "t = take n ys" "utf8_valid t" "stop = off + n + 1"
    using assms(1) by (auto simp: read_cstr_def ys[symmetric] res_simps Let_def split: if_splits)
  have split: "ys = t @ 0 # drop (Suc n) ys"
    using n(1,2) zero_position_Some[of ys n] by (metis append_take_drop_id Cons_nth_drop_Suc)
  then have "rest_at input off ((t @ [0]) @ drop (Suc n) ys)" using assms(2) by simp
  then have "rest_at input stop (drop (Suc n) ys)"
    using n zero_position_Some[of ys n]
      rest_at_append[of input off "t @ [0]" "drop (Suc n) ys" "n + 1"] by simp
  then show ?thesis
    using split n zero_position_Some[of ys n] by (auto simp: cstr_ok_def)
qed

lemma read_cstrI:
  assumes "rest_at input off (t @ 0 # zs)" "cstr_ok t"
  shows "read_cstr input off = Inr (t, off + length t + 1)"
  using assms zero_position_append[of t zs]
  by (auto simp: read_cstr_def rest_at_drop cstr_ok_def Let_def)
    (metis append_eq_conv_conj)+

lemma require_exact_lenD:
  "require_exact_len input stop err = Inr () \<Longrightarrow> rest_at input stop zs \<Longrightarrow> zs = []"
  by (auto simp: require_exact_len_def rest_at_def split: if_splits)

lemma require_exact_lenI: "rest_at input stop [] \<Longrightarrow> require_exact_len input stop err = Inr ()"
  by (auto simp: require_exact_len_def rest_at_def)

lemma rest_at_cstr:
  "rest_at input off (t @ 0 # zs) \<Longrightarrow> rest_at input (off + length t + 1) zs"
  using rest_at_append[of input off "t @ [0]" zs] by simp

section \<open>Tuples\<close>

lemma enc_values_simps [simp]:
  "enc_values [] = []" "enc_values (v # vs) = enc_value v @ enc_values vs"
  by (simp_all add: enc_values_def)

lemma word32_length: "length t \<le> u32_max \<Longrightarrow> unat (word_of_nat (length t) :: 32 word) = length t"
  by (simp add: unat_of_nat u32_max_def)

lemma word16_length: "length t \<le> u16_max \<Longrightarrow> unat (word_of_nat (length t) :: 16 word) = length t"
  by (simp add: unat_of_nat u16_max_def)

lemma unat_u32_le: "unat (w :: 32 word) \<le> u32_max"
  using unsigned_less[where 'a = nat, of w] by (simp add: u32_max_def)

lemma unat_u16_le: "unat (w :: 16 word) \<le> u16_max"
  using unsigned_less[where 'a = nat, of w] by (simp add: u16_max_def)

lemma parse_value_sound:
  assumes "get_at input cursor = Some tag" "parse_value input cursor tag = Inr (v, stop)"
    and "rest_at input cursor ys"
  shows "value_ok v \<and> (\<exists>zs. ys = enc_value v @ zs \<and> rest_at input stop zs)"
proof -
  obtain zs where zs: "ys = tag # zs" "rest_at input (cursor + 1) zs"
    using get_atD[OF assms(1,3)] by auto
  consider "tag = byte_of CHR ''n''" "v = NullValue" "stop = cursor + 1"
    | "tag = byte_of CHR ''u''" "v = UnchangedToast" "stop = cursor + 1"
    | (tv) len t where "tag = byte_of CHR ''t''" "v = TextValue t" "utf8_valid t"
        "read_u32 input (cursor + 1) = Inr len" "stop = cursor + 5 + unat len"
        "get_range input (cursor + 5) (cursor + 5 + unat len) = Some t"
    using assms(2) unfolding parse_value_def
    by (auto simp: res_simps simp del: One_nat_def add_2_eq_Suc' split: if_splits)
  then show ?thesis
  proof cases
    case tv
    obtain us where us: "zs = be_word len @ us" "rest_at input (cursor + 1 + 4) us"
      using read_u32D[OF tv(4) zs(2)] by auto
    have us5: "rest_at input (cursor + 5) us" by (rule rest_at_skip[OF us(2)]) arith
    obtain rs where rs: "us = t @ rs" "length t = unat len"
      using tv(6) us5 rest_at_fun unfolding get_range_Some by metis
    moreover have "rest_at input stop rs"
      using rest_at_append[of input "cursor + 5" t rs] us5 rs tv(5) by simp
    ultimately show ?thesis using tv zs us unat_u32_le[of len] by auto
  qed (use zs in auto)
qed

lemma parse_value_complete:
  assumes "rest_at input cursor (enc_value v @ zs)" "value_ok v" "sized input"
  shows "\<exists>tag. get_at input cursor = Some tag \<and>
     parse_value input cursor tag = Inr (v, cursor + length (enc_value v))"
proof (cases v)
  case (TextValue t)
  let ?len = "word_of_nat (length t) :: 32 word"
  have at: "rest_at input cursor (byte_of CHR ''t'' # be_word ?len @ t @ zs)"
    using assms(1) TextValue by simp
  then have at1: "rest_at input (cursor + 1) (be_word ?len @ t @ zs)" by (rule rest_at_Cons)
  have at5: "rest_at input (cursor + 5) (t @ zs)"
    by (rule rest_at_skip[OF rest_at_append[OF at1]]) simp_all
  have len: "unat ?len = length t" using assms(2) TextValue by (intro word32_length) simp
  have "get_range input (cursor + 5) (cursor + 5 + length t) = Some t"
    using at5 by (auto simp: get_range_Some)
  moreover have "checked_add_u64 (cursor + 5) (length t) = Some (cursor + 5 + length t)"
    using assms(3) rest_at_length[OF at5] by (simp add: res_simps sized_def int_bounds)
  moreover have "get_at input cursor = Some (byte_of CHR ''t'')" using get_atI[OF at] .
  ultimately show ?thesis
    using read_u32I[OF assms(3) at1] len assms(2) TextValue
    by (simp add: parse_value_def)
qed (use assms get_atI in \<open>auto simp: parse_value_def\<close>)

lemma parse_values_sound:
  "parse_values input n cursor = Inr (vs, stop) \<Longrightarrow> rest_at input cursor ys \<Longrightarrow>
     length vs = n \<and> list_all value_ok vs \<and>
     (\<exists>zs. ys = enc_values vs @ zs \<and> rest_at input stop zs)"
proof (induction n arbitrary: cursor vs ys)
  case (Suc n)
  obtain tag v nxt vs' where step: "get_at input cursor = Some tag"
      "parse_value input cursor tag = Inr (v, nxt)"
      "parse_values input n nxt = Inr (vs', stop)" "vs = v # vs'"
    using Suc.prems(1) by (auto simp: res_simps)
  obtain zs where "value_ok v" "ys = enc_value v @ zs" "rest_at input nxt zs"
    using parse_value_sound[OF step(1,2) Suc.prems(2)] by auto
  then show ?case using Suc.IH[OF step(3)] step(4) by auto
qed auto

lemma parse_values_complete:
  "rest_at input cursor (enc_values vs @ zs) \<Longrightarrow> list_all value_ok vs \<Longrightarrow> sized input \<Longrightarrow>
     parse_values input (length vs) cursor = Inr (vs, cursor + length (enc_values vs))"
proof (induction vs arbitrary: cursor)
  case (Cons v vs)
  let ?next = "cursor + length (enc_value v)"
  have "rest_at input cursor (enc_value v @ enc_values vs @ zs)" using Cons.prems(1) by simp
  moreover from this have "rest_at input ?next (enc_values vs @ zs)" by (rule rest_at_append) simp
  ultimately show ?case
    using parse_value_complete[of input cursor v "enc_values vs @ zs"] Cons.IH[of ?next] Cons.prems
    by (auto simp: add.assoc)
qed auto

lemma parse_tuple_sound:
  assumes "parse_tuple input off = Inr (vs, stop)" "rest_at input off ys"
    and "get_at input off = Some tag"
  shows "tuple_ok vs \<and> (\<exists>zs. ys = enc_tuple tag vs @ zs \<and> rest_at input stop zs)"
proof -
  obtain count where c: "read_u16 input (off + 1) = Inr count"
      "parse_values input (unat count) (off + 3) = Inr (vs, stop)"
    using assms(1,3)
    by (auto simp: parse_tuple_def res_simps simp del: One_nat_def of_char_Char split: if_splits)
  obtain us where us: "ys = tag # us" "rest_at input (off + 1) us"
    using get_atD[OF assms(3,2)] by auto
  obtain zs where zs: "us = be_word count @ zs" "rest_at input (off + 1 + 2) zs"
    using read_u16D[OF c(1) us(2)] by auto
  have "rest_at input (off + 3) zs" by (rule rest_at_skip[OF zs(2)]) arith
  note vals = parse_values_sound[OF c(2) this]
  then have "count = word_of_nat (length vs)" by simp
  then show ?thesis
    using vals us zs unat_u16_le[of count] by (auto simp: tuple_ok_def enc_tuple_def)
qed

lemma parse_tuple_complete:
  assumes "rest_at input off (enc_tuple tag vs @ zs)" "tuple_ok vs" "sized input"
    and "tag = byte_of CHR ''N'' \<or> tag = byte_of CHR ''K'' \<or> tag = byte_of CHR ''O''"
  shows "parse_tuple input off = Inr (vs, off + length (enc_tuple tag vs))"
proof -
  let ?n = "word_of_nat (length vs) :: 16 word"
  have at: "rest_at input off (tag # be_word ?n @ enc_values vs @ zs)"
    using assms(1) by (simp add: enc_tuple_def)
  then have at1: "rest_at input (off + 1) (be_word ?n @ enc_values vs @ zs)" by (rule rest_at_Cons)
  have at3: "rest_at input (off + 3) (enc_values vs @ zs)"
    by (rule rest_at_skip[OF rest_at_append[OF at1]]) simp_all
  have "unat ?n = length vs" using assms(2) by (intro word16_length) (simp add: tuple_ok_def)
  then show ?thesis
    using get_atI[OF at] read_u16I[OF assms(3) at1] parse_values_complete[OF at3 _ assms(3)] assms
    by (auto simp: parse_tuple_def tuple_ok_def enc_tuple_def simp del: of_char_Char)
qed

end
