(* ===== verification/Pgoutput_Exact.thy ===== *)
theory Pgoutput_Exact
  imports Pgoutput_Grammar
begin

text \<open>
  The parser of \<open>src/replication/pgoutput.rs\<close> against the grammar: every parser function
  is sound and complete for its message, so the whole parser accepts exactly the grammar.
\<close>

section \<open>Loops\<close>

lemma enc_columns_simps [simp]:
  "enc_columns [] = []" "enc_columns (c # cs) = enc_column c @ enc_columns cs"
  by (simp_all add: enc_columns_def)

lemma enc_relids_simps [simp]:
  "enc_relids [] = []" "enc_relids (r # rs) = be_word r @ enc_relids rs"
  by (simp_all add: enc_relids_def)

lemma rest_at_step:
  assumes "rest_at input off ys" "off < length input"
  shows "\<exists>b zs. ys = b # zs \<and> rest_at input (off + 1) zs"
  using assms rest_at_length[OF assms(1)] rest_at_Cons[of input off] by (cases ys) auto

lemma parse_columns_sound:
  "parse_columns input n off = Inr (names, stop) \<Longrightarrow> rest_at input off ys \<Longrightarrow>
     \<exists>cols zs. length cols = n \<and> list_all column_ok cols \<and> names = map (\<lambda>(f, c, ty). c) cols \<and>
       ys = enc_columns cols @ zs \<and> rest_at input stop zs"
proof (induction n arbitrary: off names ys)
  case (Suc n)
  obtain name name_end names' where step: "read_cstr input (off + 1) = Inr (name, name_end)"
      "name_end + 8 \<le> length input" "parse_columns input n (name_end + 8) = Inr (names', stop)"
      "names = name # names'"
    using Suc.prems(1) by (auto simp: res_simps simp del: One_nat_def split: if_splits)
  have "off < length input" using step(1) by (auto simp: read_cstr_def split: if_splits)
  then obtain flag us where us: "ys = flag # us" "rest_at input (off + 1) us"
    using rest_at_step[OF Suc.prems(2)] by blast
  obtain ws where ws: "cstr_ok name" "us = name @ 0 # ws" "rest_at input name_end ws"
    using read_cstrD[OF step(1) us(2)] by blast
  have len: "8 \<le> length ws" using step(2) rest_at_length[OF ws(3)] by simp
  have "rest_at input name_end (take 8 ws @ drop 8 ws)" using ws(3) by simp
  then have "rest_at input (name_end + 8) (drop 8 ws)"
    by (rule rest_at_append) (simp add: len)
  from Suc.IH[OF step(3) this] obtain cols zs where ih: "length cols = n" "list_all column_ok cols"
      "names' = map (\<lambda>(f, c, ty). c) cols" "drop 8 ws = enc_columns cols @ zs" "rest_at input stop zs"
    by blast
  have "ys = enc_columns ((flag, name, take 8 ws) # cols) @ zs"
    using us ws ih(4) append_take_drop_id[of 8 ws] by (simp del: append_take_drop_id)
  then show ?case
    using ih ws(1) len step(4) by (intro exI[of _ "(flag, name, take 8 ws) # cols"] exI[of _ zs]) simp
qed auto

lemma parse_columns_complete:
  "rest_at input off (enc_columns cols @ zs) \<Longrightarrow> list_all column_ok cols \<Longrightarrow> sized input \<Longrightarrow>
     parse_columns input (length cols) off =
       Inr (map (\<lambda>(f, c, ty). c) cols, off + length (enc_columns cols))"
proof (induction cols arbitrary: off)
  case (Cons c cols)
  obtain flag name ty where c: "c = (flag, name, ty)" by (cases c)
  have ok: "cstr_ok name" "length ty = 8" using Cons.prems(2) c by auto
  have "rest_at input off (flag # name @ 0 # ty @ enc_columns cols @ zs)"
    using Cons.prems(1) c by simp
  then have at1: "rest_at input (off + 1) (name @ 0 # ty @ enc_columns cols @ zs)"
    by (rule rest_at_Cons)
  let ?stop = "off + 1 + length name + 1"
  have at2: "rest_at input ?stop (ty @ enc_columns cols @ zs)" by (rule rest_at_cstr[OF at1])
  have at3: "rest_at input (?stop + 8) (enc_columns cols @ zs)"
    by (rule rest_at_append[OF at2]) (simp add: ok)
  have bound: "?stop + 8 \<le> length input" using rest_at_length[OF at3] by simp
  then have "checked_add_u64 ?stop 8 = Some (?stop + 8)"
    using Cons.prems(3) by (simp add: res_simps sized_def int_bounds)
  then show ?case
    using read_cstrI[OF at1 ok(1)] bound Cons.IH[OF at3 _ Cons.prems(3)] Cons.prems(2) c ok(2)
    by simp
qed auto

lemma parse_relids_sound:
  "parse_relids input n off = Inr rs \<Longrightarrow> rest_at input off ys \<Longrightarrow>
     length rs = n \<and> (\<exists>zs. ys = enc_relids rs @ zs \<and> rest_at input (off + 4 * n) zs)"
proof (induction n arbitrary: off rs ys)
  case (Suc n)
  obtain r rs' where step: "read_u32 input off = Inr r" "parse_relids input n (off + 4) = Inr rs'"
      "rs = r # rs'"
    using Suc.prems(1) by (auto simp: res_simps)
  obtain zs where "ys = be_word r @ zs" "rest_at input (off + 4) zs"
    using read_u32D[OF step(1) Suc.prems(2)] by blast
  then show ?case using Suc.IH[OF step(2)] step(3) by (auto simp: add.assoc)
qed auto

lemma parse_relids_complete:
  "rest_at input off (enc_relids rs @ zs) \<Longrightarrow> sized input \<Longrightarrow>
     parse_relids input (length rs) off = Inr rs"
proof (induction rs arbitrary: off)
  case (Cons r rs)
  have at: "rest_at input off (be_word r @ enc_relids rs @ zs)" using Cons.prems(1) by simp
  have "rest_at input (off + 4) (enc_relids rs @ zs)" by (rule rest_at_append[OF at]) simp
  then show ?case using read_u32I[OF Cons.prems(2) at] Cons.IH Cons.prems(2) by simp
qed auto

lemma length_enc_relids [simp]: "length (enc_relids rs) = 4 * length rs"
  by (induction rs) auto

section \<open>Soundness, message by message\<close>

lemma parse_relation_sound:
  assumes "parse_relation input off sx = Inr m" "rest_at input off body"
  shows "tx_body (byte_of CHR ''R'') sx body m"
proof -
  obtain relid ns e1 nm e2 count cols stop where p: "read_u32 input off = Inr relid"
      "read_cstr input (off + 4) = Inr (ns, e1)" "read_cstr input e1 = Inr (nm, e2)"
      "read_u16 input (e2 + 1) = Inr count"
      "parse_columns input (unat count) (e2 + 3) = Inr (cols, stop)"
      "require_exact_len input stop ''invalid relation message length'' = Inr ()"
      "m = Relation sx relid cols"
    using assms(1) by (auto simp: parse_relation_def res_simps simp del: One_nat_def)
  obtain r1 where r1: "body = be_word relid @ r1" "rest_at input (off + 4) r1"
    using read_u32D[OF p(1) assms(2)] by blast
  obtain r2 where r2: "cstr_ok ns" "r1 = ns @ 0 # r2" "rest_at input e1 r2"
    using read_cstrD[OF p(2) r1(2)] by blast
  obtain r3 where r3: "cstr_ok nm" "r2 = nm @ 0 # r3" "rest_at input e2 r3"
    using read_cstrD[OF p(3) r2(3)] by blast
  have "e2 < length input"
    using p(4) by (auto simp: read_u16_def read_range_def get_range_def res_simps split: if_splits)
  then obtain b r4 where r4: "r3 = b # r4" "rest_at input (e2 + 1) r4"
    using rest_at_step[OF r3(3)] by blast
  obtain r5 where r5: "r4 = be_word count @ r5" "rest_at input (e2 + 1 + 2) r5"
    using read_u16D[OF p(4) r4(2)] by blast
  have "rest_at input (e2 + 3) r5" by (rule rest_at_skip[OF r5(2)]) simp
  from parse_columns_sound[OF p(5) this] obtain cs zs where cs: "length cs = unat count"
      "list_all column_ok cs" "cols = map (\<lambda>(f, c, ty). c) cs" "r5 = enc_columns cs @ zs"
      "rest_at input stop zs" by blast
  have "zs = []" by (rule require_exact_lenD[OF p(6) cs(5)])
  moreover have "count = word_of_nat (length cs)" using cs(1) by simp
  moreover have "length cs \<le> u16_max" using cs(1) unat_u16_le[of count] by simp
  ultimately show ?thesis
    using tx_relation[OF r2(1) r3(1) _ cs(2), of sx relid b] r1 r2 r3 r4 r5 cs p(7) by simp
qed

lemma parse_type_sound:
  assumes "parse_type input off sx = Inr m" "rest_at input off body"
  shows "tx_body (byte_of CHR ''Y'') sx body m"
proof -
  obtain tid ns e1 nm e2 where p: "read_u32 input off = Inr tid"
      "read_cstr input (off + 4) = Inr (ns, e1)" "read_cstr input e1 = Inr (nm, e2)"
      "require_exact_len input e2 ''invalid type message length'' = Inr ()"
      "m = TypeMsg sx tid ns nm"
    using assms(1) by (auto simp: parse_type_def res_simps)
  obtain r1 where r1: "body = be_word tid @ r1" "rest_at input (off + 4) r1"
    using read_u32D[OF p(1) assms(2)] by blast
  obtain r2 where r2: "cstr_ok ns" "r1 = ns @ 0 # r2" "rest_at input e1 r2"
    using read_cstrD[OF p(2) r1(2)] by blast
  obtain r3 where r3: "cstr_ok nm" "r2 = nm @ 0 # r3" "rest_at input e2 r3"
    using read_cstrD[OF p(3) r2(3)] by blast
  have "r3 = []" by (rule require_exact_lenD[OF p(4) r3(3)])
  then show ?thesis using tx_type[OF r2(1) r3(1)] r1 r2 r3 p(5) by simp
qed

lemma parse_logical_sound:
  assumes "parse_logical_message input off sx = Inr m" "rest_at input off body"
  shows "tx_body (byte_of CHR ''M'') sx body m"
proof -
  obtain tr b lsn pre e1 len content where p: "get_at input off = Some b"
      "b = (if tr then 1 else 0)" "read_u64 input (off + 1) = Inr lsn"
      "read_cstr input (off + 9) = Inr (pre, e1)" "read_u32 input e1 = Inr len"
      "get_range input (e1 + 4) (e1 + 4 + unat len) = Some content"
      "require_exact_len input (e1 + 4 + unat len) ''invalid logical message length'' = Inr ()"
      "m = Logical sx tr lsn pre content"
    using assms(1)
    by (auto simp: parse_logical_message_def res_simps simp del: One_nat_def
             split: option.splits if_splits)
  obtain r1 where r1: "body = b # r1" "rest_at input (off + 1) r1"
    using get_atD[OF p(1) assms(2)] by blast
  obtain r2 where r2: "r1 = be_word lsn @ r2" "rest_at input (off + 1 + 8) r2"
    using read_u64D[OF p(3) r1(2)] by blast
  have "rest_at input (off + 9) r2" by (rule rest_at_skip[OF r2(2)]) simp
  then obtain r3 where r3: "cstr_ok pre" "r2 = pre @ 0 # r3" "rest_at input e1 r3"
    using read_cstrD[OF p(4)] by blast
  obtain r4 where r4: "r3 = be_word len @ r4" "rest_at input (e1 + 4) r4"
    using read_u32D[OF p(5) r3(3)] by blast
  obtain zs where zs: "r4 = content @ zs" "length content = unat len"
    using p(6) r4(2) rest_at_fun unfolding get_range_Some by metis
  have "rest_at input (e1 + 4 + unat len) zs"
    using rest_at_append[of input "e1 + 4" content zs] r4(2) zs by simp
  then have "zs = []" by (rule require_exact_lenD[OF p(7)])
  moreover have "len = word_of_nat (length content)" "length content \<le> u32_max"
    using zs(2) unat_u32_le[of len] by simp_all
  ultimately show ?thesis
    using tx_logical[OF r3(1), of content sx tr lsn] p(2,8) r1 r2 r3 r4 zs by simp
qed

lemma parse_insert_sound:
  assumes "parse_insert input off sx = Inr m" "rest_at input off body"
  shows "tx_body (byte_of CHR ''I'') sx body m"
proof -
  obtain relid vs stop row where p: "read_u32 input off = Inr relid"
      "get_at input (off + 4) = Some (byte_of CHR ''N'')"
      "parse_tuple input (off + 4) = Inr (vs, stop)"
      "require_exact_len input stop ''invalid insert message length'' = Inr ()"
      "complete_tuple vs = Inr row" "m = Insert sx relid row"
    using assms(1)
    by (auto simp: parse_insert_def res_simps simp del: of_char_Char split: if_splits)
  obtain r1 where r1: "body = be_word relid @ r1" "rest_at input (off + 4) r1"
    using read_u32D[OF p(1) assms(2)] by blast
  obtain zs where zs: "tuple_ok vs" "r1 = enc_tuple (byte_of CHR ''N'') vs @ zs" "rest_at input stop zs"
    using parse_tuple_sound[OF p(3) r1(2) p(2)] by blast
  have "zs = []" by (rule require_exact_lenD[OF p(4) zs(3)])
  then show ?thesis using tx_insert[OF zs(1) p(5)] r1 zs p(6) by (simp del: of_char_Char)
qed

lemma parse_update_sound:
  assumes "parse_update input off sx = Inr m" "rest_at input off body"
  shows "tx_body (byte_of CHR ''U'') sx body m"
proof -
  obtain relid tag os mid ns stop old new where p: "read_u32 input off = Inr relid"
      "get_at input (off + 4) = Some tag" "tag = byte_of CHR ''K'' \<or> tag = byte_of CHR ''O''"
      "parse_tuple input (off + 4) = Inr (os, mid)"
      "get_at input mid = Some (byte_of CHR ''N'')" "complete_tuple os = Inr old"
      "parse_tuple input mid = Inr (ns, stop)"
      "require_exact_len input stop ''invalid update message length'' = Inr ()"
      "resolve_unchanged_toast old ns = Inr new" "m = Update sx relid old new"
    using assms(1)
    by (auto simp: parse_update_def res_simps simp del: of_char_Char split: if_splits)
  obtain r1 where r1: "body = be_word relid @ r1" "rest_at input (off + 4) r1"
    using read_u32D[OF p(1) assms(2)] by blast
  obtain r2 where r2: "tuple_ok os" "r1 = enc_tuple tag os @ r2" "rest_at input mid r2"
    using parse_tuple_sound[OF p(4) r1(2) p(2)] by blast
  obtain zs where zs: "tuple_ok ns" "r2 = enc_tuple (byte_of CHR ''N'') ns @ zs" "rest_at input stop zs"
    using parse_tuple_sound[OF p(7) r2(3) p(5)] by blast
  have "zs = []" by (rule require_exact_lenD[OF p(8) zs(3)])
  then show ?thesis
    using tx_update[OF p(3) r2(1) zs(1) p(6) p(9)] r1 r2 zs p(10) by (simp del: of_char_Char)
qed

lemma parse_delete_sound:
  assumes "parse_delete input off sx = Inr m" "rest_at input off body"
  shows "tx_body (byte_of CHR ''D'') sx body m"
proof -
  obtain relid tag os stop old where p: "read_u32 input off = Inr relid"
      "get_at input (off + 4) = Some tag" "tag = byte_of CHR ''K'' \<or> tag = byte_of CHR ''O''"
      "parse_tuple input (off + 4) = Inr (os, stop)"
      "require_exact_len input stop ''invalid delete message length'' = Inr ()"
      "complete_tuple os = Inr old" "m = Delete sx relid old"
    using assms(1)
    by (auto simp: parse_delete_def res_simps simp del: of_char_Char split: if_splits)
  obtain r1 where r1: "body = be_word relid @ r1" "rest_at input (off + 4) r1"
    using read_u32D[OF p(1) assms(2)] by blast
  obtain zs where zs: "tuple_ok os" "r1 = enc_tuple tag os @ zs" "rest_at input stop zs"
    using parse_tuple_sound[OF p(4) r1(2) p(2)] by blast
  have "zs = []" by (rule require_exact_lenD[OF p(5) zs(3)])
  then show ?thesis
    using tx_delete[OF p(3) zs(1) p(6)] r1 zs p(7) by (simp del: of_char_Char)
qed

lemma parse_truncate_sound:
  assumes "parse_truncate input off sx = Inr m" "rest_at input off body"
  shows "tx_body (byte_of CHR ''T'') sx body m"
proof -
  obtain count options relids where p: "read_u32 input off = Inr count"
      "get_at input (off + 4) = Some options" "and options (not 3) = 0"
      "require_exact_len input (off + 5 + unat count * 4) ''invalid truncate message length'' = Inr ()"
      "parse_relids input (unat count) (off + 5) = Inr relids"
      "m = Truncate sx relids (and options 1 \<noteq> 0) (and options 2 \<noteq> 0)"
    using assms(1)
    by (auto simp: parse_truncate_def res_simps simp del: One_nat_def split: if_splits)
  obtain r1 where r1: "body = be_word count @ r1" "rest_at input (off + 4) r1"
    using read_u32D[OF p(1) assms(2)] by blast
  obtain r2 where r2: "r1 = options # r2" "rest_at input (off + 4 + 1) r2"
    using get_atD[OF p(2) r1(2)] by blast
  have "rest_at input (off + 5) r2" by (rule rest_at_skip[OF r2(2)]) simp
  from parse_relids_sound[OF p(5) this] obtain zs where zs: "length relids = unat count"
      "r2 = enc_relids relids @ zs" "rest_at input (off + 5 + 4 * unat count) zs" by blast
  have "rest_at input (off + 5 + unat count * 4) zs" by (rule rest_at_skip[OF zs(3)]) simp
  then have "zs = []" by (rule require_exact_lenD[OF p(4)])
  moreover have "count = word_of_nat (length relids)" "length relids \<le> u32_max"
    using zs(1) unat_u32_le[of count] by simp_all
  ultimately show ?thesis
    using tx_truncate[OF _ p(3), of relids sx] r1 r2 zs p(6) by simp
qed

section \<open>Completeness, message by message\<close>

lemma rest_at_append_Nil:
  "rest_at xs off (ys @ zs) \<Longrightarrow> n = length ys \<Longrightarrow> rest_at xs (off + n) (zs @ [])"
  using rest_at_append[of xs off ys zs n] by simp

lemma parse_relation_complete:
  assumes "sized input" "rest_at input off
      (be_word relid @ ns @ 0 # nm @ 0 # b # be_word (word_of_nat (length cols) :: 16 word)
        @ enc_columns cols)"
    and "cstr_ok ns" "cstr_ok nm" "length cols \<le> u16_max" "list_all column_ok cols"
  shows "parse_relation input off sx = Inr (Relation sx relid (map (\<lambda>(f, n, ty). n) cols))"
proof -
  let ?n = "word_of_nat (length cols) :: 16 word"
  have at4: "rest_at input (off + 4) (ns @ 0 # nm @ 0 # b # be_word ?n @ enc_columns cols)"
    by (rule rest_at_append[OF assms(2)]) simp
  let ?e1 = "off + 4 + length ns + 1"
  have at5: "rest_at input ?e1 (nm @ 0 # b # be_word ?n @ enc_columns cols)"
    by (rule rest_at_cstr[OF at4])
  let ?e2 = "?e1 + length nm + 1"
  have at6: "rest_at input ?e2 (b # be_word ?n @ enc_columns cols)" by (rule rest_at_cstr[OF at5])
  have at7: "rest_at input (?e2 + 1) (be_word ?n @ enc_columns cols)" by (rule rest_at_Cons[OF at6])
  have at8: "rest_at input (?e2 + 3) (enc_columns cols @ [])"
    by (rule rest_at_skip[OF rest_at_append_Nil[OF at7]]) simp_all
  have at9: "rest_at input (?e2 + 3 + length (enc_columns cols)) []"
    by (rule rest_at_append[OF at8]) simp
  show ?thesis
    using read_u32I[OF assms(1,2)] read_cstrI[OF at4 assms(3)] read_cstrI[OF at5 assms(4)]
      read_u16I[OF assms(1) at7] parse_columns_complete[OF at8 assms(6,1)]
      require_exact_lenI[OF at9] word16_length[OF assms(5)]
    by (simp add: parse_relation_def)
qed

lemma parse_type_complete:
  assumes "sized input" "rest_at input off (be_word tid @ ns @ 0 # nm @ [0])"
    and "cstr_ok ns" "cstr_ok nm"
  shows "parse_type input off sx = Inr (TypeMsg sx tid ns nm)"
proof -
  have at4: "rest_at input (off + 4) (ns @ 0 # nm @ [0])"
    by (rule rest_at_append[OF assms(2)]) simp
  have at5: "rest_at input (off + 4 + length ns + 1) (nm @ [0])" by (rule rest_at_cstr[OF at4])
  have at6: "rest_at input (off + 4 + length ns + 1 + length nm + 1) []"
    by (rule rest_at_cstr[OF at5])
  show ?thesis
    using read_u32I[OF assms(1,2)] read_cstrI[OF at4 assms(3)] read_cstrI[OF at5 assms(4)]
      require_exact_lenI[OF at6]
    by (simp add: parse_type_def)
qed

lemma parse_logical_complete:
  assumes "sized input" "rest_at input off
      ((if tr then 1 else 0) # be_word lsn @ pre @ 0
         # be_word (word_of_nat (length content) :: 32 word) @ content)"
    and "cstr_ok pre" "length content \<le> u32_max"
  shows "parse_logical_message input off sx = Inr (Logical sx tr lsn pre content)"
proof -
  let ?len = "word_of_nat (length content) :: 32 word"
  have at1: "rest_at input (off + 1) (be_word lsn @ pre @ 0 # be_word ?len @ content)"
    by (rule rest_at_Cons[OF assms(2)])
  have at9: "rest_at input (off + 9) (pre @ 0 # be_word ?len @ content)"
    by (rule rest_at_skip[OF rest_at_append[OF at1]]) simp_all
  let ?e1 = "off + 9 + length pre + 1"
  have at10: "rest_at input ?e1 (be_word ?len @ content)" by (rule rest_at_cstr[OF at9])
  have at14: "rest_at input (?e1 + 4) (content @ [])"
    by (rule rest_at_append_Nil[OF at10]) simp
  have at_end: "rest_at input (?e1 + 4 + length content) []" by (rule rest_at_append[OF at14]) simp
  have "get_range input (?e1 + 4) (?e1 + 4 + length content) = Some content"
    using at14 get_range_Some by blast
  moreover have "?e1 + 4 + length content \<le> u64_max"
    using rest_at_length[OF at_end] assms(1) by (simp add: sized_def int_bounds)
  ultimately show ?thesis
    using get_atI[OF assms(2)] read_u64I[OF assms(1) at1] read_cstrI[OF at9 assms(3)]
      read_u32I[OF assms(1) at10] require_exact_lenI[OF at_end] word32_length[OF assms(4)]
    by (simp add: parse_logical_message_def checked_add_u64_def)
qed

lemma parse_insert_complete:
  assumes "sized input" "rest_at input off (be_word relid @ enc_tuple (byte_of CHR ''N'') vs)"
    and "tuple_ok vs" "complete_tuple vs = Inr row"
  shows "parse_insert input off sx = Inr (Insert sx relid row)"
proof -
  let ?t = "enc_tuple (byte_of CHR ''N'') vs"
  have at4: "rest_at input (off + 4) (?t @ [])"
    by (rule rest_at_append_Nil[OF assms(2)]) simp
  have at_end: "rest_at input (off + 4 + length ?t) []" by (rule rest_at_append[OF at4]) simp
  have "get_at input (off + 4) = Some (byte_of CHR ''N'')"
    using at4 by (auto simp: enc_tuple_def simp del: of_char_Char intro: get_atI)
  then show ?thesis
    using read_u32I[OF assms(1,2)] parse_tuple_complete[OF at4 assms(3,1)]
      require_exact_lenI[OF at_end] assms(4)
    by (simp add: parse_insert_def del: of_char_Char)
qed

lemma parse_update_complete:
  assumes "sized input" "rest_at input off
      (be_word relid @ enc_tuple tag os @ enc_tuple (byte_of CHR ''N'') ns)"
    and "tag = byte_of CHR ''K'' \<or> tag = byte_of CHR ''O''" "tuple_ok os" "tuple_ok ns"
    and "complete_tuple os = Inr old" "resolve_unchanged_toast old ns = Inr new"
  shows "parse_update input off sx = Inr (Update sx relid old new)"
proof -
  let ?o = "enc_tuple tag os" and ?n = "enc_tuple (byte_of CHR ''N'') ns"
  have at4: "rest_at input (off + 4) (?o @ ?n)" by (rule rest_at_append[OF assms(2)]) simp
  let ?mid = "off + 4 + length ?o"
  have at5: "rest_at input ?mid (?n @ [])"
    by (rule rest_at_append_Nil[OF at4]) simp
  have at_end: "rest_at input (?mid + length ?n) []" by (rule rest_at_append[OF at5]) simp
  have "get_at input (off + 4) = Some tag" "get_at input ?mid = Some (byte_of CHR ''N'')"
    using at4 at5 by (auto simp: enc_tuple_def simp del: of_char_Char intro: get_atI)
  then show ?thesis
    using read_u32I[OF assms(1,2)] parse_tuple_complete[OF at4 assms(4,1)] assms(3)
      parse_tuple_complete[OF at5 assms(5,1)] require_exact_lenI[OF at_end] assms(6,7)
    by (auto simp: parse_update_def simp del: of_char_Char)
qed

lemma parse_delete_complete:
  assumes "sized input" "rest_at input off (be_word relid @ enc_tuple tag os)"
    and "tag = byte_of CHR ''K'' \<or> tag = byte_of CHR ''O''" "tuple_ok os"
    and "complete_tuple os = Inr old"
  shows "parse_delete input off sx = Inr (Delete sx relid old)"
proof -
  let ?t = "enc_tuple tag os"
  have at4: "rest_at input (off + 4) (?t @ [])"
    by (rule rest_at_append_Nil[OF assms(2)]) simp
  have at_end: "rest_at input (off + 4 + length ?t) []" by (rule rest_at_append[OF at4]) simp
  have "get_at input (off + 4) = Some tag"
    using at4 by (auto simp: enc_tuple_def simp del: of_char_Char intro: get_atI)
  then show ?thesis
    using read_u32I[OF assms(1,2)] parse_tuple_complete[OF at4 assms(4,1)] assms(3)
      require_exact_lenI[OF at_end] assms(5)
    by (auto simp: parse_delete_def simp del: of_char_Char)
qed

lemma parse_truncate_complete:
  assumes "sized input" "rest_at input off
      (be_word (word_of_nat (length relids) :: 32 word) @ options # enc_relids relids)"
    and "length relids \<le> u32_max" "and options (not 3) = 0"
  shows "parse_truncate input off sx =
     Inr (Truncate sx relids (and options 1 \<noteq> 0) (and options 2 \<noteq> 0))"
proof -
  have at4: "rest_at input (off + 4) (options # enc_relids relids)"
    by (rule rest_at_append[OF assms(2)]) simp
  have at5: "rest_at input (off + 5) (enc_relids relids @ [])"
    using rest_at_skip[OF rest_at_Cons[OF at4], of "off + 5"] by simp
  have at_end: "rest_at input (off + 5 + length relids * 4) []"
    by (rule rest_at_append[OF at5]) simp
  have "length relids * 4 \<le> u64_max" "off + 5 + length relids * 4 \<le> u64_max"
    using rest_at_length[OF at_end] assms(1,3) by (simp_all add: sized_def int_bounds)
  then show ?thesis
    using read_u32I[OF assms(1,2)] get_atI[OF at4] parse_relids_complete[OF at5 assms(1)]
      require_exact_lenI[OF at_end] word32_length[OF assms(3)] assms(4)
    by (simp add: parse_truncate_def checked_add_u64_def checked_mul_u64_def)
qed

section \<open>Control messages\<close>

lemma rest_at_length_nil: "rest_at input off zs \<Longrightarrow> length input = off \<Longrightarrow> zs = []"
  by (drule rest_at_length) simp

lemma rest_at_tail: "input = b # ys \<Longrightarrow> rest_at input 1 ys"
  unfolding rest_at_def by (rule exI[of _ "[b]"]) simp

lemma parse_begin_sound:
  assumes "parse_begin (tag # rest) = Inr m"
  shows "\<exists>lsn time xid. length time = 8 \<and> rest = be_word lsn @ time @ be_word xid \<and> m = Begin lsn xid"
proof -
  let ?in = "tag # rest"
  obtain lsn xid where p: "length rest = 20" "read_u64 ?in 1 = Inr lsn" "read_u32 ?in 17 = Inr xid"
      "m = Begin lsn xid"
    using assms by (auto simp: parse_begin_def require_exact_len_def res_simps simp del: One_nat_def)
  obtain r1 where r1: "rest = be_word lsn @ r1" "rest_at ?in (1 + 8) r1"
    using read_u64D[OF p(2) rest_at_tail] by blast
  have len: "length r1 = 12" using p(1) r1(1) by simp
  have "rest_at ?in (1 + 8) (take 8 r1 @ drop 8 r1)" using r1(2) by simp
  then have "rest_at ?in (1 + 8 + 8) (drop 8 r1)" by (rule rest_at_append) (simp add: len)
  then have "rest_at ?in 17 (drop 8 r1)" by simp
  then obtain r2 where "drop 8 r1 = be_word xid @ r2" "rest_at ?in (17 + 4) r2"
    using read_u32D[OF p(3)] by blast
  moreover have "r2 = []" by (rule rest_at_length_nil[OF calculation(2)]) (simp add: p(1))
  ultimately have "rest = be_word lsn @ take 8 r1 @ be_word xid"
    using r1(1) by (metis append_Nil2 append_take_drop_id)
  then show ?thesis using len p(4) by (intro exI[of _ lsn] exI[of _ "take 8 r1"] exI[of _ xid]) simp
qed

lemma parse_commit_sound:
  assumes "parse_commit (tag # rest) = Inr m"
  shows "\<exists>lsn end_lsn time. length time = 8 \<and> rest = 0 # be_word lsn @ be_word end_lsn @ time
           \<and> m = Commit lsn end_lsn"
proof -
  let ?in = "tag # rest"
  obtain lsn end_lsn where p: "length ?in = 26" "get_at ?in 1 = Some 0" "read_u64 ?in 2 = Inr lsn"
      "read_u64 ?in 10 = Inr end_lsn" "m = Commit lsn end_lsn"
    using assms
    by (auto simp: parse_commit_def require_exact_len_def require_zero_flag_def res_simps
             simp del: One_nat_def split: option.splits if_splits)
  obtain r0 where r0: "rest = 0 # r0" "rest_at ?in (1 + 1) r0"
    using get_atD[OF p(2) rest_at_tail] by blast
  then have "rest_at ?in 2 r0" by (simp add: numeral_2_eq_2)
  then obtain r1 where r1: "r0 = be_word lsn @ r1" "rest_at ?in (2 + 8) r1"
    using read_u64D[OF p(3)] by blast
  then obtain r2 where r2: "r1 = be_word end_lsn @ r2"
    using read_u64D[OF p(4), of r1] by auto
  have "length r2 = 8" using p(1) r0(1) r1(1) r2 by simp
  then show ?thesis using r0(1) r1(1) r2 p(5) by auto
qed

lemma parse_stream_start_sound:
  assumes "parse_stream_start (tag # rest) = Inr m"
  shows "\<exists>xid first. xid \<noteq> 0 \<and> rest = be_word xid @ [if first then 1 else 0]
           \<and> m = StreamStart xid first"
proof -
  let ?in = "tag # rest"
  obtain xid first where p: "length ?in = 6" "read_u32 ?in 1 = Inr xid" "xid \<noteq> 0"
      "?in ! 5 = (if first then 1 else 0)" "m = StreamStart xid first"
    using assms
    by (auto simp: parse_stream_start_def require_exact_len_def res_simps
             simp del: One_nat_def nth_Cons_numeral split: if_splits)
  obtain r1 where r1: "rest = be_word xid @ r1" using read_u32D[OF p(2) rest_at_tail] by blast
  then obtain b where b: "r1 = [b]" using p(1) by (cases r1) auto
  have "rest ! 4 = b" using r1 b by (simp add: nth_append)
  then have "b = (if first then 1 else 0)" using p(4) by simp
  then show ?thesis using r1 b p(3,5) by blast
qed

lemma parse_stream_commit_sound:
  assumes "parse_stream_commit (tag # rest) = Inr m"
  shows "\<exists>xid lsn end_lsn time. xid \<noteq> 0 \<and> in_i64 time \<and>
           rest = be_word xid @ 0 # be_word lsn @ be_word end_lsn @ be_i64 time \<and>
           m = StreamCommit xid 0 lsn end_lsn time"
proof -
  let ?in = "tag # rest"
  obtain xid lsn end_lsn time where p: "length ?in = 30" "get_at ?in 5 = Some 0"
      "read_u32 ?in 1 = Inr xid" "xid \<noteq> 0" "read_u64 ?in 6 = Inr lsn"
      "read_u64 ?in 14 = Inr end_lsn" "read_i64 ?in 22 = Inr time"
      "m = StreamCommit xid (?in ! 5) lsn end_lsn time"
    using assms
    by (auto simp: parse_stream_commit_def require_exact_len_def require_zero_flag_def res_simps
             simp del: One_nat_def nth_Cons_numeral split: option.splits if_splits)
  obtain r1 where r1: "rest = be_word xid @ r1" "rest_at ?in (1 + 4) r1"
    using read_u32D[OF p(3) rest_at_tail] by blast
  then obtain r2 where r2: "r1 = 0 # r2" "rest_at ?in (5 + 1) r2"
    using get_atD[OF p(2), of r1] by auto
  then obtain r3 where r3: "r2 = be_word lsn @ r3" "rest_at ?in (6 + 8) r3"
    using read_u64D[OF p(5), of r2] by auto
  then obtain r4 where r4: "r3 = be_word end_lsn @ r4" "rest_at ?in (14 + 8) r4"
    using read_u64D[OF p(6), of r3] by auto
  then obtain r5 where r5: "in_i64 time" "r4 = be_i64 time @ r5"
    using read_i64D[OF p(7), of r4] by auto
  have "?in ! 5 = 0" using p(2) by (auto simp: get_at_def split: if_splits)
  moreover have "r5 = []" using p(1) r1(1) r2(1) r3(1) r4(1) r5(2) by simp
  ultimately have "m = StreamCommit xid 0 lsn end_lsn time"
      "rest = be_word xid @ 0 # be_word lsn @ be_word end_lsn @ be_i64 time"
    using r1(1) r2(1) r3(1) r4(1) r5(2) p(8) by simp_all
  then show ?thesis using p(4) r5(1) by blast
qed

lemma parse_stream_abort_sound:
  assumes "parse_stream_abort (tag # rest) = Inr m"
  shows "\<exists>xid subxid. xid \<noteq> 0 \<and> subxid \<noteq> 0 \<and> rest = be_word xid @ be_word subxid
           \<and> m = StreamAbort xid subxid"
proof -
  let ?in = "tag # rest"
  obtain xid subxid where p: "length rest = 8" "read_u32 ?in 1 = Inr xid"
      "read_u32 ?in 5 = Inr subxid" "xid \<noteq> 0" "subxid \<noteq> 0" "m = StreamAbort xid subxid"
    using assms
    by (auto simp: parse_stream_abort_def require_exact_len_def res_simps
             simp del: One_nat_def split: if_splits)
  obtain r1 where r1: "rest = be_word xid @ r1" "rest_at ?in (1 + 4) r1"
    using read_u32D[OF p(2) rest_at_tail] by blast
  then obtain r2 where r2: "r1 = be_word subxid @ r2" "rest_at ?in (5 + 4) r2"
    using read_u32D[OF p(3), of r1] by auto
  have "r2 = []" by (rule rest_at_length_nil[OF r2(2)]) (simp add: p(1))
  then show ?thesis using r1(1) r2(1) p(4-6) by auto
qed

lemma parse_origin_sound:
  assumes "parse_origin (tag # rest) = Inr m"
  shows "\<exists>lsn name. cstr_ok name \<and> rest = be_word lsn @ name @ [0] \<and> m = Origin lsn name"
proof -
  let ?in = "tag # rest"
  obtain lsn name e where p: "read_u64 ?in 1 = Inr lsn" "read_cstr ?in 9 = Inr (name, e)"
      "require_exact_len ?in e ''invalid origin message length'' = Inr ()" "m = Origin lsn name"
    using assms by (auto simp: parse_origin_def res_simps simp del: One_nat_def)
  obtain r1 where r1: "rest = be_word lsn @ r1" "rest_at ?in (1 + 8) r1"
    using read_u64D[OF p(1) rest_at_tail] by blast
  then obtain r2 where r2: "cstr_ok name" "r1 = name @ 0 # r2" "rest_at ?in e r2"
    using read_cstrD[OF p(2), of r1] by auto
  have "r2 = []" by (rule require_exact_lenD[OF p(3) r2(3)])
  then show ?thesis using r1(1) r2(1,2) p(4) by auto
qed

section \<open>The whole parser\<close>

text \<open>A parser that is sound for the bodies of one tag.\<close>

definition sound_for :: "byte \<Rightarrow> (bytes \<Rightarrow> nat \<Rightarrow> xid option \<Rightarrow> message result) \<Rightarrow> bool" where
  "sound_for tag parser \<longleftrightarrow>
     (\<forall>input off sx m body. parser input off sx = Inr m \<longrightarrow> rest_at input off body \<longrightarrow>
        tx_body tag sx body m)"

lemma sound_for_parsers:
  "sound_for (byte_of CHR ''R'') parse_relation" "sound_for (byte_of CHR ''Y'') parse_type"
  "sound_for (byte_of CHR ''M'') parse_logical_message"
  "sound_for (byte_of CHR ''I'') parse_insert" "sound_for (byte_of CHR ''U'') parse_update"
  "sound_for (byte_of CHR ''D'') parse_delete" "sound_for (byte_of CHR ''T'') parse_truncate"
  unfolding sound_for_def
  using parse_relation_sound parse_type_sound parse_logical_sound parse_insert_sound
    parse_update_sound parse_delete_sound parse_truncate_sound by blast+

lemma parse_transactional_sound:
  assumes "sound_for tag parser" "parse_transactional (tag # rest) ctx parser = Inr m"
  shows "pg_message ctx (tag # rest) m"
proof (cases ctx)
  case NonStreaming
  then show ?thesis
    using assms rest_at_tail[of "tag # rest"] pg_plain
    by (auto simp: parse_transactional_def sound_for_def)
next
  case Streaming
  obtain xid where p: "read_u32 (tag # rest) 1 = Inr xid" "xid \<noteq> 0"
      "parser (tag # rest) 5 (Some xid) = Inr m"
    using assms(2) Streaming
    by (auto simp: parse_transactional_def res_simps simp del: One_nat_def split: if_splits)
  obtain body where b: "rest = be_word xid @ body" "rest_at (tag # rest) (1 + 4) body"
    using read_u32D[OF p(1) rest_at_tail] by blast
  have "rest_at (tag # rest) 5 body" by (rule rest_at_skip[OF b(2)]) simp
  then have "tx_body tag (Some xid) body m" using assms(1) p(3) by (auto simp: sound_for_def)
  then show ?thesis using pg_streamed[OF p(2)] b(1) Streaming by simp
qed

lemma parse_sound:
  assumes "parse_with_context bs ctx = Inr m"
  shows "pg_message ctx bs m"
proof -
  obtain tag rest where bs: "bs = tag # rest"
    using assms by (cases bs) (auto simp: parse_with_context_def)
  consider
      "tag = byte_of CHR ''B''" "parse_begin bs = Inr m"
    | "tag = byte_of CHR ''C''" "parse_commit bs = Inr m"
    | "tag = byte_of CHR ''S''" "parse_stream_start bs = Inr m"
    | "tag = byte_of CHR ''E''" "parse_stream_stop bs = Inr m"
    | "tag = byte_of CHR ''c''" "parse_stream_commit bs = Inr m"
    | "tag = byte_of CHR ''A''" "parse_stream_abort bs = Inr m"
    | "tag = byte_of CHR ''O''" "parse_origin bs = Inr m"
    | (tx) parser where "sound_for tag parser" "parse_transactional bs ctx parser = Inr m"
    using assms sound_for_parsers unfolding bs parse_with_context_def
    by (simp del: of_char_Char split: if_splits)
  then show ?thesis
  proof cases
    case 4
    then show ?thesis
      using bs pg_stream_stop by (auto simp: parse_stream_stop_def require_exact_len_def res_simps)
  next
    case tx
    then show ?thesis using parse_transactional_sound bs by blast
  next
    case 1
    then show ?thesis
      using bs parse_begin_sound[of tag rest m] pg_begin by (auto simp del: of_char_Char)
  next
    case 2
    then show ?thesis
      using bs parse_commit_sound[of tag rest m] pg_commit by (auto simp del: of_char_Char)
  next
    case 3
    then show ?thesis
      using bs parse_stream_start_sound[of tag rest m] pg_stream_start by (auto simp del: of_char_Char)
  next
    case 5
    then show ?thesis
      using bs parse_stream_commit_sound[of tag rest m] pg_stream_commit by (auto simp del: of_char_Char)
  next
    case 6
    then show ?thesis
      using bs parse_stream_abort_sound[of tag rest m] pg_stream_abort by (auto simp del: of_char_Char)
  next
    case 7
    then show ?thesis
      using bs parse_origin_sound[of tag rest m] pg_origin by (auto simp del: of_char_Char)
  qed
qed

text \<open>The parser that \<open>parse_with_context\<close> selects for the body of a tag.\<close>

lemma tx_body_dispatch:
  assumes "tx_body tag sx body m"
  shows "\<exists>parser. (\<forall>rest ctx. parse_with_context (tag # rest) ctx
             = parse_transactional (tag # rest) ctx parser) \<and>
           (\<forall>input off. sized input \<longrightarrow> rest_at input off body \<longrightarrow> parser input off sx = Inr m)"
  using assms
proof cases
  case tx_relation
  then show ?thesis
    by (intro exI[of _ parse_relation]) (simp add: parse_with_context_def parse_relation_complete)
next
  case tx_type
  then show ?thesis
    by (intro exI[of _ parse_type]) (simp add: parse_with_context_def parse_type_complete)
next
  case tx_logical
  then show ?thesis
    by (intro exI[of _ parse_logical_message])
      (simp add: parse_with_context_def parse_logical_complete)
next
  case tx_insert
  then show ?thesis
    by (intro exI[of _ parse_insert])
      (simp add: parse_with_context_def parse_insert_complete[simplified])
next
  case (tx_update t)
  then show ?thesis
    using parse_update_complete[of _ _ _ t]
    by (intro exI[of _ parse_update]) (simp add: parse_with_context_def)
next
  case (tx_delete t)
  then show ?thesis
    using parse_delete_complete[of _ _ _ t]
    by (intro exI[of _ parse_delete]) (simp add: parse_with_context_def)
next
  case tx_truncate
  then show ?thesis
    by (intro exI[of _ parse_truncate]) (simp add: parse_with_context_def parse_truncate_complete)
qed

lemma parse_transactional_complete:
  assumes "sized (tag # rest)"
    and "\<And>input off. sized input \<Longrightarrow> rest_at input off body \<Longrightarrow> parser input off sx = Inr m"
    and "case ctx of NonStreaming \<Rightarrow> sx = None \<and> rest = body
         | Streaming \<Rightarrow> \<exists>xid. xid \<noteq> 0 \<and> sx = Some xid \<and> rest = be_word xid @ body"
  shows "parse_transactional (tag # rest) ctx parser = Inr m"
proof (cases ctx)
  case NonStreaming
  then show ?thesis
    using assms rest_at_tail[of "tag # rest" tag rest]
    by (simp add: parse_transactional_def del: One_nat_def)
next
  case Streaming
  then obtain xid where x: "xid \<noteq> 0" "sx = Some xid" "rest = be_word xid @ body"
    using assms(3) by auto
  have at1: "rest_at (tag # rest) 1 (be_word xid @ body)" using rest_at_tail x(3) by blast
  have "rest_at (tag # rest) 5 body" by (rule rest_at_skip[OF rest_at_append[OF at1]]) simp_all
  then show ?thesis
    using assms(1,2) x read_u32I[OF assms(1) at1] Streaming
    by (simp add: parse_transactional_def del: One_nat_def)
qed

lemma parse_begin_complete:
  assumes "sized bs" "bs = tag # be_word lsn @ time @ be_word xid" "length time = 8"
  shows "parse_begin bs = Inr (Begin lsn xid)"
proof -
  have at1: "rest_at bs 1 (be_word lsn @ time @ be_word xid)" by (rule rest_at_tail[OF assms(2)])
  have at9: "rest_at bs 9 (time @ be_word xid)"
    by (rule rest_at_skip[OF rest_at_append[OF at1]]) simp_all
  have at17: "rest_at bs 17 (be_word xid @ [])"
    by (rule rest_at_skip[OF rest_at_append_Nil[OF at9]]) (simp_all add: assms(3))
  show ?thesis
    using read_u64I[OF assms(1) at1] read_u32I[OF assms(1) at17] assms(2,3)
    by (simp add: parse_begin_def require_exact_len_def del: One_nat_def)
qed

lemma parse_commit_complete:
  assumes "sized bs" "bs = tag # 0 # be_word lsn @ be_word end_lsn @ time" "length time = 8"
  shows "parse_commit bs = Inr (Commit lsn end_lsn)"
proof -
  have at1: "rest_at bs 1 (0 # be_word lsn @ be_word end_lsn @ time)" by (rule rest_at_tail[OF assms(2)])
  have at2: "rest_at bs 2 (be_word lsn @ be_word end_lsn @ time)"
    by (rule rest_at_skip[OF rest_at_Cons[OF at1]]) simp
  have at10: "rest_at bs 10 (be_word end_lsn @ time)"
    by (rule rest_at_skip[OF rest_at_append[OF at2]]) simp_all
  show ?thesis
    using get_atI[OF at1] read_u64I[OF assms(1) at2] read_u64I[OF assms(1) at10] assms(2,3)
    by (simp add: parse_commit_def require_exact_len_def require_zero_flag_def del: One_nat_def)
qed

lemma parse_stream_start_complete:
  assumes "sized bs" "bs = tag # be_word xid @ [if first then 1 else 0]" "xid \<noteq> 0"
  shows "parse_stream_start bs = Inr (StreamStart xid first)"
  using read_u32I[OF assms(1) rest_at_tail[OF assms(2)]] assms(2,3)
  by (simp add: parse_stream_start_def require_exact_len_def nth_append del: One_nat_def)

lemma parse_stream_commit_complete:
  assumes "sized bs" "bs = tag # be_word xid @ 0 # be_word lsn @ be_word end_lsn @ be_i64 time"
    and "xid \<noteq> 0" "in_i64 time"
  shows "parse_stream_commit bs = Inr (StreamCommit xid 0 lsn end_lsn time)"
proof -
  have at1: "rest_at bs 1 (be_word xid @ 0 # be_word lsn @ be_word end_lsn @ be_i64 time)"
    by (rule rest_at_tail[OF assms(2)])
  have at5: "rest_at bs 5 (0 # be_word lsn @ be_word end_lsn @ be_i64 time)"
    by (rule rest_at_skip[OF rest_at_append[OF at1]]) simp_all
  have at6: "rest_at bs 6 (be_word lsn @ be_word end_lsn @ be_i64 time)"
    by (rule rest_at_skip[OF rest_at_Cons[OF at5]]) simp
  have at14: "rest_at bs 14 (be_word end_lsn @ be_i64 time)"
    by (rule rest_at_skip[OF rest_at_append[OF at6]]) simp_all
  have at22: "rest_at bs 22 (be_i64 time @ [])"
    by (rule rest_at_skip[OF rest_at_append_Nil[OF at14]]) simp_all
  have "bs ! 5 = 0" using assms(2) by (simp add: nth_append)
  then show ?thesis
    using get_atI[OF at5] read_u32I[OF assms(1) at1] read_u64I[OF assms(1) at6]
      read_u64I[OF assms(1) at14] read_i64I[OF assms(1,4) at22] assms(2,3)
    by (simp add: parse_stream_commit_def require_exact_len_def require_zero_flag_def
        del: One_nat_def nth_Cons_numeral)
qed

lemma parse_stream_abort_complete:
  assumes "sized bs" "bs = tag # be_word xid @ be_word subxid" "xid \<noteq> 0" "subxid \<noteq> 0"
  shows "parse_stream_abort bs = Inr (StreamAbort xid subxid)"
proof -
  have at1: "rest_at bs 1 (be_word xid @ be_word subxid)" by (rule rest_at_tail[OF assms(2)])
  have at5: "rest_at bs 5 (be_word subxid @ [])"
    by (rule rest_at_skip[OF rest_at_append_Nil[OF at1]]) simp_all
  show ?thesis
    using read_u32I[OF assms(1) at1] read_u32I[OF assms(1) at5] assms(2-4)
    by (simp add: parse_stream_abort_def require_exact_len_def del: One_nat_def)
qed

lemma parse_origin_complete:
  assumes "sized bs" "bs = tag # be_word lsn @ name @ [0]" "cstr_ok name"
  shows "parse_origin bs = Inr (Origin lsn name)"
proof -
  have at1: "rest_at bs 1 (be_word lsn @ name @ 0 # [])" using rest_at_tail[OF assms(2)] .
  have at9: "rest_at bs 9 (name @ 0 # [])"
    by (rule rest_at_skip[OF rest_at_append[OF at1]]) simp_all
  show ?thesis
    using read_u64I[OF assms(1) at1] read_cstrI[OF at9 assms(3)] assms(2)
    by (simp add: parse_origin_def require_exact_len_def del: One_nat_def)
qed

lemma parse_complete:
  assumes "pg_message ctx bs m" "sized bs"
  shows "parse_with_context bs ctx = Inr m"
  using assms(1)
proof cases
  case (pg_begin time lsn xid)
  then show ?thesis using parse_begin_complete[OF assms(2)] by (simp add: parse_with_context_def)
next
  case (pg_commit time lsn end_lsn)
  then show ?thesis using parse_commit_complete[OF assms(2)] by (simp add: parse_with_context_def)
next
  case (pg_stream_start xid first)
  then show ?thesis
    using parse_stream_start_complete[OF assms(2)] by (simp add: parse_with_context_def)
next
  case pg_stream_stop
  then show ?thesis
    by (simp add: parse_with_context_def parse_stream_stop_def require_exact_len_def)
next
  case (pg_stream_commit xid time lsn end_lsn)
  then show ?thesis
    using parse_stream_commit_complete[OF assms(2)] by (simp add: parse_with_context_def)
next
  case (pg_stream_abort xid subxid)
  then show ?thesis
    using parse_stream_abort_complete[OF assms(2)] by (simp add: parse_with_context_def)
next
  case (pg_origin name lsn)
  then show ?thesis using parse_origin_complete[OF assms(2)] by (simp add: parse_with_context_def)
next
  case (pg_plain tag body)
  obtain parser where p: "\<forall>rest ctx. parse_with_context (tag # rest) ctx
        = parse_transactional (tag # rest) ctx parser"
      "\<forall>input off. sized input \<longrightarrow> rest_at input off body \<longrightarrow> parser input off None = Inr m"
    using tx_body_dispatch[OF pg_plain(3)] by blast
  show ?thesis
    using p parse_transactional_complete[of tag body body parser None m ctx] pg_plain assms(2)
    by simp
next
  case (pg_streamed xid tag body)
  obtain parser where p: "\<forall>rest ctx. parse_with_context (tag # rest) ctx
        = parse_transactional (tag # rest) ctx parser"
      "\<forall>input off. sized input \<longrightarrow> rest_at input off body \<longrightarrow> parser input off (Some xid) = Inr m"
    using tx_body_dispatch[OF pg_streamed(4)] by blast
  show ?thesis
    using p parse_transactional_complete[of tag "be_word xid @ body" body parser "Some xid" m ctx]
      pg_streamed assms(2)
    by simp
qed

text \<open>
  C15: The pgoutput parser accepts exactly the messages of the protocol grammar.  It returns a
  message if and only if the bytes are an encoding of that message in the given streaming
  context, with no byte left over; every other frame is an error.\<close>

theorem pgoutput_exact:
  assumes "length bs \<le> i64_max_u64"
  shows "parse_with_context bs ctx = Inr m \<longleftrightarrow> pg_message ctx bs m"
  using parse_sound[of bs ctx m] parse_complete[of ctx bs m] assms unfolding sized_def by blast

theorem pgoutput_exact_witness:
  "parse_with_context (byte_of CHR ''B'' # be_word (7 :: 64 word) @ replicate 8 0 @ be_word (2 :: 32 word))
     NonStreaming = Inr (Begin 7 2)"
proof -
  let ?bs = "byte_of CHR ''B'' # be_word (7 :: 64 word) @ replicate 8 0 @ be_word (2 :: 32 word)"
  have "length ?bs \<le> i64_max_u64" by (simp add: be_word_def int_bounds)
  moreover have "pg_message NonStreaming ?bs (Begin 7 2)" by (rule pg_begin) simp
  ultimately show ?thesis using pgoutput_exact by blast
qed

end
