(* ===== verification/Ingress_Properties.thy ===== *)
theory Ingress_Properties
  imports Ingress_Invariants Pgoutput_Exact
begin

text \<open>
  What the ingress (\<open>src/ingress.rs\<close>) promises its caller: the order of the events of a
  batch, its bounds, its transaction and commit position, and that a poll returns.
\<close>

section \<open>The events a handler adds\<close>

definition events_of :: "xid \<Rightarrow> ingress \<Rightarrow> ingress_event list" where
  "events_of x s = (case map_of (ig_pending s) x of None \<Rightarrow> [] | Some p \<Rightarrow> pb_events p)"

definition boundary_of :: "xid \<Rightarrow> ingress \<Rightarrow> ingress_boundary option" where
  "boundary_of x s = (case map_of (ig_pending s) x of None \<Rightarrow> None | Some p \<Rightarrow> pb_boundary p)"

lemma events_of_simps [simp]:
  "events_of x (s\<lparr>ig_active := a\<rparr>) = events_of x s"
  "events_of x (s\<lparr>ig_last_change := l\<rparr>) = events_of x s"
  "events_of x (s\<lparr>ig_streamed := st\<rparr>) = events_of x s"
  "events_of x (s\<lparr>ig_relations := rs\<rparr>) = events_of x s"
  by (simp_all add: events_of_def)

lemma boundary_of_simps [simp]:
  "boundary_of x (s\<lparr>ig_active := a\<rparr>) = boundary_of x s"
  "boundary_of x (s\<lparr>ig_last_change := l\<rparr>) = boundary_of x s"
  "boundary_of x (s\<lparr>ig_streamed := st\<rparr>) = boundary_of x s"
  "boundary_of x (s\<lparr>ig_relations := rs\<rparr>) = boundary_of x s"
  by (simp_all add: boundary_of_def)

text \<open>What one update of a batch does to the pending batches.\<close>

lemma with_pending_effect:
  assumes "with_pending t f s = Inr s'"
    and "\<And>p p'. f p = Inr p' \<Longrightarrow> pb_events p' = pb_events p @ new \<and> pb_boundary p' = bd (pb_boundary p)"
  shows "events_of x s' = events_of x s @ (if x = at_xid t then new else [])"
    and "boundary_of x s' = (if x = at_xid t then bd (boundary_of x s) else boundary_of x s)"
    and "ig_last_change s' = ig_last_change s" "ig_active s' = ig_active s"
proof -
  let ?p = "case map_of (ig_pending s) (at_xid t) of None \<Rightarrow> pending_new t | Some p \<Rightarrow> p"
  obtain p' where p': "f ?p = Inr p'"
      "s' = s\<lparr>ig_pending := AList.update (at_xid t) p' (ig_pending s)\<rparr>"
    using assms(1) by (auto simp: with_pending_def Let_def res_simps)
  have "pb_events ?p = events_of (at_xid t) s" "pb_boundary ?p = boundary_of (at_xid t) s"
    by (auto simp: events_of_def boundary_of_def pending_new_def split: option.splits)
  then show "events_of x s' = events_of x s @ (if x = at_xid t then new else [])"
    "boundary_of x s' = (if x = at_xid t then bd (boundary_of x s) else boundary_of x s)"
    using assms(2)[OF p'(1)] p'(2) by (auto simp: events_of_def boundary_of_def update_conv')
  show "ig_last_change s' = ig_last_change s" "ig_active s' = ig_active s" using p'(2) by simp_all
qed

lemmas ensure_effect = with_pending_effect[where f = Inr and new = "[]" and bd = id, simplified,
  folded ensure_pending_def]

text \<open>The strict order of events: WAL position, change ordinal, image ordinal.\<close>

definition ev_less :: "ingress_event \<Rightarrow> ingress_event \<Rightarrow> bool" where
  "ev_less e f \<longleftrightarrow>
     ev_change_lsn e < ev_change_lsn f \<or>
     ev_change_lsn e = ev_change_lsn f \<and>
       (ev_change_ordinal e < ev_change_ordinal f \<or>
        ev_change_ordinal e = ev_change_ordinal f \<and> ev_image_ordinal e < ev_image_ordinal f)"

lemma convert_images_keys:
  "convert_images w ord sx relid cols images = Inr events \<Longrightarrow>
     map ev_image_ordinal events = map fst images \<and>
     (\<forall>e\<in>set events. ev_change_lsn e = w \<and> ev_change_ordinal e = ord)"
  by (induction images arbitrary: events) (auto simp: res_simps)

lemma convert_images_sorted:
  assumes "convert_images w ord sx relid cols images = Inr events"
    "sorted_wrt (<) (map fst images)"
  shows "sorted_wrt ev_less events"
proof -
  note keys = convert_images_keys[OF assms(1)]
  then have "sorted_wrt (\<lambda>e f. ev_image_ordinal e < ev_image_ordinal f) events"
    using assms(2) by (metis sorted_wrt_map)
  then show ?thesis
    by (rule sorted_wrt_mono_rel[rotated]) (use keys in \<open>auto simp: ev_less_def\<close>)
qed

text \<open>
  Two kinds of handler: those that add no event, and a row change, which adds at most two
  events under the next ordinal of its transaction.
\<close>

definition adds_nothing :: "xid option \<Rightarrow> ingress \<Rightarrow> ingress \<Rightarrow> bool" where
  "adds_nothing b s s' \<longleftrightarrow> (\<forall>x. events_of x s' = events_of x s) \<and>
     (ig_last_change s' = ig_last_change s \<or>
      (\<exists>y. b = Some y \<and> ig_last_change s' = AList.delete y (ig_last_change s)))"

definition adds_change :: "lsn \<Rightarrow> ingress \<Rightarrow> ingress \<Rightarrow> bool" where
  "adds_change w s s' \<longleftrightarrow> (\<exists>t ord new.
     ig_active s = Some t \<and>
     next_change_ordinal w (at_xid t) (ig_last_change s) = Inr (ord, ig_last_change s') \<and>
     (\<forall>x. events_of x s' = events_of x s @ (if x = at_xid t then new else [])) \<and>
     (\<forall>e\<in>set new. ev_change_lsn e = w \<and> ev_change_ordinal e = ord) \<and>
     sorted_wrt ev_less new \<and> length new \<le> 2)"

lemma handle_change_effect:
  assumes "handle_change w sx msg relid images s = Inr (b, obs, s')"
    "sorted_wrt (<) (map fst images)" "length images \<le> 2"
  shows "adds_change w s s' \<and> b = None \<and> (\<forall>x. boundary_of x s' = boundary_of x s) \<and>
     ig_active s' = ig_active s \<and> obs = ig_active s"
proof -
  obtain t ord l cols sub new where t: "ig_active s = Some t"
      "next_change_ordinal w (at_xid t) (ig_last_change s) = Inr (ord, l)"
      "with_pending t (\<lambda>p. Inr (p\<lparr>pb_events := pb_events p @ new\<rparr>))
         (s\<lparr>ig_last_change := l\<rparr>) = Inr s'" "b = None" "obs = Some t"
      and sub: "convert_images w ord sub relid cols images = Inr new"
    using assms(1)
    by (auto simp: handle_change_def push_change_def require_active_transaction_def res_simps)
  have "events_of x s' = events_of x s @ (if x = at_xid t then new else [])"
    "boundary_of x s' = boundary_of x s" for x
    using with_pending_effect(1,2)[OF t(3), of new id x] by simp_all
  moreover have "ig_last_change s' = l" "ig_active s' = ig_active s"
    using with_pending_effect(3,4)[OF t(3), of new id] by simp_all
  moreover have "length new \<le> 2"
    using convert_images_keys[OF sub] assms(3) by (metis length_map)
  ultimately show ?thesis
    using t convert_images_keys[OF sub] convert_images_sorted[OF sub assms(2)]
    by (auto simp: adds_change_def)
qed

lemma handle_message_adds:
  assumes "handle_message w m s = Inr (b, obs, s')"
  shows "adds_nothing b s s' \<or> (b = None \<and> adds_change w s s')"
proof (cases m)
  case (Begin f x)
  then show ?thesis
    using assms ensure_effect
    by (fastforce simp: handle_begin_def res_simps Let_def adds_nothing_def split: if_splits)
next
  case (StreamStart x f)
  then show ?thesis
    using assms ensure_effect
    by (fastforce simp: handle_stream_start_def res_simps adds_nothing_def split: if_splits)
next
  case StreamStop
  then show ?thesis
    using assms by (auto simp: handle_stream_stop_def res_simps adds_nothing_def)
next
  case (StreamCommit x fl c e tm)
  then obtain t s1 where t: "b = Some x"
      "with_pending t (\<lambda>p. Inr (p\<lparr>pb_decode_end_lsn := e, pb_boundary := Some (BCommit c e)\<rparr>))
         (s\<lparr>ig_streamed := AList.delete x (ig_streamed s)\<rparr>) = Inr s1"
      "s' = s1\<lparr>ig_last_change := AList.delete x (ig_last_change s1)\<rparr>"
    using assms by (auto simp: handle_stream_commit_def res_simps split: if_splits)
  then show ?thesis
    using with_pending_effect(1,3)[OF t(2), of "[]" "\<lambda>_. Some (BCommit c e)"]
    by (auto simp: adds_nothing_def)
next
  case (StreamAbort x sub)
  then obtain t s0 bd where t: "b = Some x"
      "with_pending t (\<lambda>p. Inr (p\<lparr>pb_boundary := Some bd\<rparr>)) s0 = Inr s'"
      "s0 = s \<or> s0 = s\<lparr>ig_streamed := AList.delete x (ig_streamed s),
                      ig_last_change := AList.delete x (ig_last_change s)\<rparr>"
    using assms by (auto simp: handle_stream_abort_def res_simps Let_def split: if_splits)
  then show ?thesis
    using with_pending_effect(1,3)[OF t(2), of "[]" "\<lambda>_. Some bd"]
    by (auto simp: adds_nothing_def)
next
  case (Relation sx r cols)
  then show ?thesis
    using assms ensure_effect
    by (fastforce simp: handle_relation_def res_simps adds_nothing_def split: if_splits)
next
  case (TypeMsg sx ty ns nm)
  then show ?thesis
    using assms ensure_effect by (fastforce simp: handle_type_def res_simps adds_nothing_def)
next
  case (Origin l nm)
  then show ?thesis
    using assms ensure_effect by (fastforce simp: handle_origin_def res_simps adds_nothing_def)
next
  case (Logical sx tr l p c)
  then show ?thesis
    using assms ensure_effect
    by (fastforce simp: handle_logical_def res_simps adds_nothing_def split: if_splits)
next
  case (Insert sx r row)
  then show ?thesis using assms handle_change_effect by simp
next
  case (Update sx r old new)
  then show ?thesis using assms handle_change_effect by simp
next
  case (Delete sx r old)
  then show ?thesis using assms handle_change_effect by simp
next
  case (Truncate sx rs c r)
  then show ?thesis using assms by simp
next
  case (Commit c e)
  then obtain t s1 where t: "b = Some (at_xid t)"
      "with_pending t (\<lambda>p. Inr (p\<lparr>pb_decode_end_lsn := e, pb_boundary := Some (BCommit c e)\<rparr>)) s
         = Inr s1"
      "s' = s1\<lparr>ig_active := None, ig_last_change := AList.delete (at_xid t) (ig_last_change s1)\<rparr>"
    using assms by (auto simp: handle_commit_def res_simps split: if_splits)
  then show ?thesis
    using with_pending_effect(1,3)[OF t(2), of "[]" "\<lambda>_. Some (BCommit c e)"]
    by (auto simp: adds_nothing_def)
qed

section \<open>Order\<close>

text \<open>The last change of a transaction lies above all its retained events.\<close>

definition below_last :: "(lsn \<times> nat) option \<Rightarrow> ingress_event \<Rightarrow> bool" where
  "below_last last_change e \<longleftrightarrow>
     (case last_change of
        None \<Rightarrow> False
      | Some (l, n) \<Rightarrow> ev_change_lsn e < l \<or> ev_change_lsn e = l \<and> ev_change_ordinal e < n)"

definition ordered :: "xid option \<Rightarrow> ingress \<Rightarrow> bool" where
  "ordered b s \<longleftrightarrow>
     (\<forall>x. sorted_wrt ev_less (events_of x s) \<and>
        (b \<noteq> Some x \<longrightarrow> list_all (below_last (map_of (ig_last_change s) x)) (events_of x s)))"

text \<open>
  The server sends the changes of one transaction in WAL order: a frame of the active
  transaction does not lie before its last change.
\<close>

definition frame_in_order :: "lsn \<Rightarrow> ingress \<Rightarrow> bool" where
  "frame_in_order w s \<longleftrightarrow>
     (case ig_active s of
        None \<Rightarrow> True
      | Some t \<Rightarrow> (case map_of (ig_last_change s) (at_xid t) of
                    None \<Rightarrow> True | Some (l, n) \<Rightarrow> l \<le> w))"

definition in_order :: "replication_error + copy_data_poll \<Rightarrow> ingress \<Rightarrow> bool" where
  "in_order polled s \<longleftrightarrow>
     (case polled of Inr (CopyMessage (XLogData w e tm payload)) \<Rightarrow> frame_in_order w s | _ \<Rightarrow> True)"

lemma next_change_ordinal_Inr:
  assumes "next_change_ordinal w x changes = Inr (ord, l)"
  shows "map_of l = (map_of changes)(x \<mapsto> (w, ord + 1))"
    and "map_of changes x = Some (w, ord) \<or> ord = 0 \<and> (\<forall>n. map_of changes x \<noteq> Some (w, n))"
  using assms
  by (auto simp: next_change_ordinal_def res_simps update_conv' split: option.splits if_splits)

lemma ordered_add:
  assumes "adds_change w s s'" "ordered None s" "frame_in_order w s"
  shows "ordered None s'"
proof -
  obtain t ord new where t: "ig_active s = Some t"
      "next_change_ordinal w (at_xid t) (ig_last_change s) = Inr (ord, ig_last_change s')"
      "\<And>x. events_of x s' = events_of x s @ (if x = at_xid t then new else [])"
      "\<forall>e\<in>set new. ev_change_lsn e = w \<and> ev_change_ordinal e = ord" "sorted_wrt ev_less new"
    using assms(1) by (auto simp: adds_change_def)
  let ?x = "at_xid t"
  note last = next_change_ordinal_Inr[OF t(2)]
  have below: "ev_change_lsn e < w \<or> ev_change_lsn e = w \<and> ev_change_ordinal e < ord"
    if "e \<in> set (events_of ?x s)" for e
  proof -
    have "below_last (map_of (ig_last_change s) ?x) e"
      using assms(2) that by (auto simp: ordered_def list_all_iff)
    then show ?thesis
      using last(2) assms(3) t(1)
      by (auto simp: below_last_def frame_in_order_def split: option.splits)
  qed
  then have "ev_less e f" if "e \<in> set (events_of ?x s)" "f \<in> set new" for e f
    using that t(4) by (auto simp: ev_less_def)
  then have "sorted_wrt ev_less (events_of x s')" for x
    using assms(2) t(3,5) by (auto simp: ordered_def sorted_wrt_append)
  moreover have "below_last (map_of (ig_last_change s') x) e" if "e \<in> set (events_of x s')" for x e
  proof (cases "x = ?x")
    case True
    then have "e \<in> set (events_of ?x s) \<or> e \<in> set new" using that t(3) by auto
    then have "ev_change_lsn e < w \<or> ev_change_lsn e = w \<and> ev_change_ordinal e < ord + 1"
      using below[of e] t(4) by auto
    then show ?thesis using True last(1) by (simp add: below_last_def)
  next
    case False
    then show ?thesis using that assms(2) t(3) last(1) by (auto simp: ordered_def list_all_iff)
  qed
  ultimately show ?thesis by (auto simp: ordered_def list_all_iff)
qed

lemma ordered_keep:
  assumes "adds_nothing b s s'" "ordered None s"
  shows "ordered b s'"
proof -
  have "map_of (ig_last_change s') x = map_of (ig_last_change s) x" if "b \<noteq> Some x" for x
    using assms(1) that by (auto simp: adds_nothing_def AList.delete_conv' split: if_splits)
  then show ?thesis using assms by (simp add: adds_nothing_def ordered_def)
qed

lemma observe_effect:
  assumes "with_pending t (observe_frame w payload) s = Inr s'"
  shows "events_of x s' = events_of x s" "boundary_of x s' = boundary_of x s"
    "ig_last_change s' = ig_last_change s" "ig_active s' = ig_active s"
proof -
  have "pb_events p' = pb_events p @ [] \<and> pb_boundary p' = id (pb_boundary p)"
    if "observe_frame w payload p = Inr p'" for p p'
    using that by (auto simp: observe_frame_def res_simps)
  note effect = with_pending_effect[OF assms this]
  show "events_of x s' = events_of x s" "boundary_of x s' = boundary_of x s"
    "ig_last_change s' = ig_last_change s" "ig_active s' = ig_active s"
    using effect by simp_all
qed

lemma process_pgoutputE:
  assumes "process_pgoutput w payload s = Inr (b, s')"
  obtains m obs s1 where "parse_with_context payload (parse_context_of s) = Inr m"
    "handle_message w m s = Inr (b, obs, s1)"
    "\<And>x. events_of x s' = events_of x s1" "\<And>x. boundary_of x s' = boundary_of x s1"
    "ig_last_change s' = ig_last_change s1" "ig_active s' = ig_active s1"
proof -
  obtain m obs s1 where m: "parse_with_context payload (parse_context_of s) = Inr m"
      "handle_message w m s = Inr (b, obs, s1)"
      "case obs of None \<Rightarrow> s' = s1 | Some t \<Rightarrow> with_pending t (observe_frame w payload) s1 = Inr s'"
    using assms by (auto simp: process_pgoutput_def res_simps split: option.splits)
  show thesis
  proof (cases obs)
    case None
    then show ?thesis using m that by auto
  next
    case (Some t)
    then have wp: "with_pending t (observe_frame w payload) s1 = Inr s'" using m(3) by simp
    show ?thesis by (rule that[OF m(1,2) observe_effect[OF wp]])
  qed
qed

lemma process_ordered:
  assumes "process_pgoutput w payload s = Inr (b, s')" "ordered None s" "frame_in_order w s"
  shows "ordered b s'"
proof -
  obtain m obs s1 where m: "handle_message w m s = Inr (b, obs, s1)"
      "\<And>x. events_of x s' = events_of x s1" "ig_last_change s' = ig_last_change s1"
    using process_pgoutputE[OF assms(1)] by metis
  have "ordered b s1"
    using handle_message_adds[OF m(1)] ordered_add ordered_keep assms(2,3) by auto
  then show ?thesis using m(2,3) by (simp add: ordered_def)
qed

lemma ordered_take:
  assumes "ordered b s" "b = None \<or> b = Some x" "map_of (ig_pending s) x = Some p"
    and "take_batch x p s = (r, s')"
  shows "ordered None s' \<and> r = Return (PollBatch (finish_batch p)) \<and> sorted_wrt ev_less (pb_events p)"
proof -
  have ev: "events_of y s' = (if y = x then [] else events_of y s)" for y
    using assms(4) by (auto simp: take_batch_def events_of_def AList.delete_conv')
  have "pb_events p = events_of x s" using assms(3) by (simp add: events_of_def)
  then show ?thesis
    using assms ev by (auto simp: ordered_def take_batch_def)
qed

lemma events_of_reply [simp]: "events_of x (s\<lparr>ig_reply_requested := r\<rparr>) = events_of x s"
  by (simp add: events_of_def)

lemma ordered_reply [simp]: "ordered b (s\<lparr>ig_reply_requested := r\<rparr>) = ordered b s"
  by (simp add: ordered_def)

text \<open>
  The two ways an iteration ends: it returns a pending batch, or it leaves the batches
  alone.
\<close>

lemma poll_iteration_cases:
  assumes "poll_iteration budget polled elapsed s = Inr (r, s')"
  obtains
    (taken) s1 b x p where "map_of (ig_pending s1) x = Some p" "take_batch x p s1 = (r, s')"
      "b = None \<or> b = Some x"
      "s1 = s \<and> b = None \<or> (\<exists>w e tm payload. polled = Inr (CopyMessage (XLogData w e tm payload)) \<and>
          process_pgoutput w payload s = Inr (b, s1))"
  | (frame) s1 w e tm payload where "polled = Inr (CopyMessage (XLogData w e tm payload))"
      "process_pgoutput w payload s = Inr (None, s1)"
      "s' = s1 \<or> s' = s1\<lparr>ig_reply_requested := False\<rparr>" "\<And>q. r \<noteq> Return (PollBatch q)"
      "\<And>t p. ig_active s1 = Some t \<Longrightarrow> map_of (ig_pending s1) (at_xid t) = Some p \<Longrightarrow>
         length (pb_events p) < bg_max_events budget \<and> pb_wire_bytes p < bg_max_wire_bytes budget"
  | (other) rr where "s' = s\<lparr>ig_reply_requested := rr\<rparr>" "\<And>q. r \<noteq> Return (PollBatch q)"
proof -
  obtain poll where p: "polled = Inr poll"
    using assms by (auto simp: poll_iteration_def res_simps)
  show thesis
  proof (cases poll)
    case CopyPending
    then show ?thesis
      using assms p other[of False] by (auto simp: poll_iteration_def)
  next
    case CopyEnd
    then show ?thesis
      using assms p other[of "ig_reply_requested s"] taken[of s _ _ None]
      by (auto simp: poll_iteration_def split: option.splits)
  next
    case (CopyMessage m)
    show ?thesis
    proof (cases m)
      case (PrimaryKeepalive e tm rp)
      then show ?thesis
        using assms p CopyMessage other[of False] other[of "ig_reply_requested s \<or> rp"]
        by (auto simp: poll_iteration_def Let_def split: if_splits)
    next
      case (XLogData w e tm payload)
      note poll = p[unfolded CopyMessage XLogData]
      obtain b s1 where b: "process_pgoutput w payload s = Inr (b, s1)"
        using assms poll by (auto simp: poll_iteration_def res_simps)
      show ?thesis
      proof (cases b)
        case (Some x)
        then show ?thesis
          using assms poll b taken[of s1 x _ b] by (auto simp: poll_iteration_def res_simps)
      next
        case None
        show ?thesis
        proof (cases "ig_active s1")
          case None
          then show ?thesis
            using assms poll b \<open>b = None\<close> frame[of w e tm payload s1]
            by (auto simp: poll_iteration_def)
        next
          case (Some t)
          obtain q where q: "map_of (ig_pending s1) (at_xid t) = Some q"
            using assms poll b \<open>b = None\<close> Some by (auto simp: poll_iteration_def res_simps)
          show ?thesis
          proof (cases "bg_max_events budget \<le> length (pb_events q)
                        \<or> bg_max_wire_bytes budget \<le> pb_wire_bytes q")
            case True
            then have "take_batch (at_xid t) q s1 = (r, s')"
              using assms poll b q \<open>b = None\<close> Some by (simp add: poll_iteration_def)
            then show ?thesis using taken[OF q] poll b \<open>b = None\<close> by blast
          next
            case False
            then have "s' = s1 \<or> s' = s1\<lparr>ig_reply_requested := False\<rparr>"
                "\<And>q. r \<noteq> Return (PollBatch q)"
              using assms poll b q \<open>b = None\<close> Some
              by (auto simp: poll_iteration_def split: if_splits)
            moreover have "length (pb_events p) < bg_max_events budget
                \<and> pb_wire_bytes p < bg_max_wire_bytes budget"
              if "ig_active s1 = Some t'" "map_of (ig_pending s1) (at_xid t') = Some p" for t' p
              using that q False Some by simp
            ultimately show ?thesis using frame[OF poll] b \<open>b = None\<close> by blast
          qed
        qed
      qed
    qed
  qed
qed

lemma poll_ordered:
  assumes "poll_iteration budget polled elapsed s = Inr (r, s')" "ordered None s" "in_order polled s"
  shows "ordered None s' \<and> (\<forall>b. r = Return (PollBatch b) \<longrightarrow> sorted_wrt ev_less (ib_events b))"
  using assms(1)
proof (cases rule: poll_iteration_cases)
  case (taken s1 b x p)
  have "ordered b s1" using taken(4) assms(2,3) process_ordered by (auto simp: in_order_def)
  then show ?thesis using ordered_take[OF _ taken(3,1,2)] by (auto simp: finish_batch_def)
next
  case (frame s1 w e tm payload)
  then show ?thesis using process_ordered[OF frame(2) assms(2)] assms(3) by (auto simp: in_order_def)
next
  case (other rr)
  then show ?thesis using assms(2) by simp
qed

lemma reach_ordered: "ingress_reach n budget in_order s \<Longrightarrow> ordered None s"
proof (induction rule: ingress_reach.induct)
  case (reach_new s)
  then show ?case by (auto simp: ingress_new_def ordered_def events_of_def split: if_splits)
qed (use poll_ordered in blast)

section \<open>Bounds and boundaries\<close>

text \<open>A batch kept in memory has no boundary and lies below both budgets.\<close>

definition retained_ok :: "ingress_budget \<Rightarrow> ingress \<Rightarrow> bool" where
  "retained_ok budget s \<longleftrightarrow>
     (\<forall>x p. map_of (ig_pending s) x = Some p \<longrightarrow>
        pb_boundary p = None \<and> length (pb_events p) < bg_max_events budget \<and>
        pb_wire_bytes p < bg_max_wire_bytes budget)"

text \<open>The handlers that only open or touch the batch of a transaction.\<close>

definition touches :: "active_transaction option \<Rightarrow> ingress \<Rightarrow> ingress \<Rightarrow> bool" where
  "touches obs s s' \<longleftrightarrow> (\<exists>t st rs s1. obs = Some t \<and> (ig_active s = None \<or> ig_active s = Some t) \<and>
     ensure_pending t (s\<lparr>ig_streamed := st, ig_active := Some t\<rparr>) = Inr s1 \<and>
     s' = s1\<lparr>ig_relations := rs\<rparr>)"

lemma touchesI:
  assumes "ig_active s = Some t" "ensure_pending t s = Inr s1" "obs = Some t"
    "s' = s1\<lparr>ig_relations := rs\<rparr>"
  shows "touches obs s s'"
proof -
  have "s\<lparr>ig_streamed := ig_streamed s, ig_active := Some t\<rparr> = s"
    using assms(1) by (cases s) simp
  then show ?thesis unfolding touches_def using assms by metis
qed

lemma touches_effect:
  assumes "touches obs s s'"
  shows "boundary_of x s' = boundary_of x s" "ig_active s' = obs"
    "ig_active s = None \<or> ig_active s = obs"
proof -
  obtain t st rs s1 where t: "obs = Some t" "ig_active s = None \<or> ig_active s = Some t"
     "ensure_pending t (s\<lparr>ig_streamed := st, ig_active := Some t\<rparr>) = Inr s1"
     "s' = s1\<lparr>ig_relations := rs\<rparr>"
    using assms by (auto simp: touches_def)
  note e = ensure_effect[OF t(3)]
  show "boundary_of x s' = boundary_of x s" using e(2)[of x] t(4) by (simp split: if_splits)
  show "ig_active s' = obs" using e(4) t(1,4) by simp
  show "ig_active s = None \<or> ig_active s = obs" using t(1,2) by simp
qed

text \<open>The handlers that close a segment or a transaction.\<close>

definition closes :: "xid \<Rightarrow> active_transaction option \<Rightarrow> ingress \<Rightarrow> ingress \<Rightarrow> bool" where
  "closes x obs s s' \<longleftrightarrow> (ig_active s = None \<or> ig_active s = obs) \<and>
     (\<forall>t. ig_active s = Some t \<longrightarrow> x = at_xid t \<and>
        (boundary_of x s' = boundary_of x s \<or>
         (\<exists>c e. at_expected_commit_lsn t = Some c \<and> boundary_of x s' = Some (BCommit c e))))"

text \<open>The shape of every handled message.\<close>

lemma handle_message_shape:
  assumes "handle_message w m s = Inr (b, obs, s')"
  shows "b = None \<and> touches obs s s' \<or>
     b = None \<and> (\<forall>x. boundary_of x s' = boundary_of x s) \<and> ig_active s' = ig_active s \<and> obs = ig_active s
     \<or> (\<exists>x. b = Some x \<and> closes x obs s s')"
proof (cases m)
  case (Begin f x)
  let ?t = "\<lparr>at_xid = x, at_start_lsn = w, at_expected_commit_lsn = Some f\<rparr>"
  have "ig_active s = None" "b = None" "obs = Some ?t"
      "ensure_pending ?t (s\<lparr>ig_streamed := ig_streamed s, ig_active := Some ?t\<rparr>) = Inr s'"
    using assms Begin by (auto simp: handle_begin_def res_simps Let_def split: if_splits)
  moreover have "s' = s'\<lparr>ig_relations := ig_relations s'\<rparr>" by simp
  ultimately show ?thesis unfolding touches_def by blast
next
  case (StreamStart x f)
  then obtain t where t: "ig_active s = None" "b = None" "obs = Some t"
      "ensure_pending t (s\<lparr>ig_streamed := AList.update x t (ig_streamed s), ig_active := Some t\<rparr>) = Inr s'"
    using assms by (auto simp: handle_stream_start_def res_simps split: if_splits)
  moreover have "s' = s'\<lparr>ig_relations := ig_relations s'\<rparr>" by simp
  ultimately show ?thesis unfolding touches_def by blast
next
  case StreamStop
  then show ?thesis
    using assms
    by (auto simp: handle_stream_stop_def require_active_transaction_def res_simps closes_def
             split: if_splits)
next
  case (StreamCommit x fl c e tm)
  then show ?thesis
    using assms by (auto simp: handle_stream_commit_def res_simps closes_def split: if_splits)
next
  case (StreamAbort x sub)
  then show ?thesis
    using assms by (auto simp: handle_stream_abort_def res_simps Let_def closes_def split: if_splits)
next
  case (Relation sx r cols)
  then obtain t s1 where "ig_active s = Some t" "ensure_pending t s = Inr s1" "b = None"
      "obs = Some t" "s' = s1\<lparr>ig_relations := AList.update r cols (ig_relations s1)\<rparr>"
    using assms
    by (auto simp: handle_relation_def require_active_transaction_def res_simps split: if_splits)
  then show ?thesis using touchesI by blast
next
  case (TypeMsg sx ty ns nm)
  then obtain t where "ig_active s = Some t" "ensure_pending t s = Inr s'" "b = None" "obs = Some t"
    using assms by (auto simp: handle_type_def require_active_transaction_def res_simps)
  moreover have "s' = s'\<lparr>ig_relations := ig_relations s'\<rparr>" by simp
  ultimately show ?thesis using touchesI by blast
next
  case (Origin l nm)
  then obtain t where "ig_active s = Some t" "ensure_pending t s = Inr s'" "b = None" "obs = Some t"
    using assms by (auto simp: handle_origin_def require_active_transaction_def res_simps)
  moreover have "s' = s'\<lparr>ig_relations := ig_relations s'\<rparr>" by simp
  ultimately show ?thesis using touchesI by blast
next
  case (Logical sx tr l p c)
  show ?thesis
  proof (cases tr)
    case True
    then obtain t where "ig_active s = Some t" "ensure_pending t s = Inr s'" "b = None" "obs = Some t"
      using assms Logical by (auto simp: handle_logical_def require_active_transaction_def res_simps)
    moreover have "s' = s'\<lparr>ig_relations := ig_relations s'\<rparr>" by simp
    ultimately show ?thesis using touchesI by blast
  next
    case False
    then show ?thesis using assms Logical by (auto simp: handle_logical_def split: if_splits)
  qed
next
  case (Insert sx r row)
  then show ?thesis using assms handle_change_effect by simp
next
  case (Update sx r old new)
  then show ?thesis using assms handle_change_effect by simp
next
  case (Delete sx r old)
  then show ?thesis using assms handle_change_effect by simp
next
  case (Truncate sx rs c r)
  then show ?thesis using assms by simp
next
  case (Commit c e)
  then obtain t s1 where t: "ig_active s = Some t" "b = Some (at_xid t)" "obs = Some t"
      "at_expected_commit_lsn t = Some c"
      "with_pending t (\<lambda>p. Inr (p\<lparr>pb_decode_end_lsn := e, pb_boundary := Some (BCommit c e)\<rparr>)) s
         = Inr s1"
      "s' = s1\<lparr>ig_active := None, ig_last_change := AList.delete (at_xid t) (ig_last_change s1)\<rparr>"
    using assms
    by (auto simp: handle_commit_def require_active_transaction_def res_simps split: if_splits)
  then have "closes (at_xid t) obs s s'"
    using with_pending_effect(2)[OF t(5), of "[]" "\<lambda>_. Some (BCommit c e)"]
    by (auto simp: closes_def)
  then show ?thesis using t(2) by blast
qed

lemma process_shape:
  assumes "process_pgoutput w payload s = Inr (b, s')"
  shows "b = None \<Longrightarrow> boundary_of x s' = boundary_of x s"
    and "b = None \<Longrightarrow> ig_active s = Some t \<Longrightarrow> ig_active s' = Some t"
    and "b = Some x \<Longrightarrow> ig_active s = Some t \<Longrightarrow> x = at_xid t \<and>
        (boundary_of x s' = boundary_of x s \<or>
         (\<exists>c e. at_expected_commit_lsn t = Some c \<and> boundary_of x s' = Some (BCommit c e)))"
proof -
  obtain m obs s1 where m: "handle_message w m s = Inr (b, obs, s1)"
      "\<And>x. boundary_of x s' = boundary_of x s1" "ig_active s' = ig_active s1"
    using process_pgoutputE[OF assms] by metis
  note shape = handle_message_shape[OF m(1)]
  show "b = None \<Longrightarrow> boundary_of x s' = boundary_of x s"
    using shape m(2) touches_effect(1) by auto
  show "b = None \<Longrightarrow> ig_active s = Some t \<Longrightarrow> ig_active s' = Some t"
    using shape m(3) touches_effect(2,3) by fastforce
  show "b = Some x \<Longrightarrow> ig_active s = Some t \<Longrightarrow> x = at_xid t \<and>
      (boundary_of x s' = boundary_of x s \<or>
       (\<exists>c e. at_expected_commit_lsn t = Some c \<and> boundary_of x s' = Some (BCommit c e)))"
    using shape m(2) by (auto simp: closes_def)
qed

lemma process_closing:
  assumes "process_pgoutput w payload s = Inr (Some x, s')" "ingress_inv s" "ig_active s = Some t"
  shows "closing t s'"
proof -
  obtain m obs s1 where m: "handle_message w m s = Inr (Some x, obs, s1)"
      "case obs of None \<Rightarrow> s' = s1 | Some t \<Rightarrow> with_pending t (observe_frame w payload) s1 = Inr s'"
    using assms(1) by (auto simp: process_pgoutput_def res_simps split: option.splits)
  have "obs = Some t" using handle_message_shape[OF m(1)] assms(3) by (auto simp: closes_def)
  moreover from this have "closing t s1"
    using handle_message_ok[OF m(1) assms(2)] by (auto simp: handled_ok_def)
  ultimately show ?thesis
    using with_pending_step[of t "observe_frame w payload" s1 s'] m(2) observe_frame_batch_for
    by (auto simp: closing_def)
qed

lemma process_grows:
  assumes "process_pgoutput w payload s = Inr (b, s')"
  shows "length (events_of x s') \<le> length (events_of x s) + 2"
proof -
  obtain m obs s1 where m: "handle_message w m s = Inr (b, obs, s1)"
      "\<And>x. events_of x s' = events_of x s1"
    using process_pgoutputE[OF assms] by metis
  show ?thesis
    using handle_message_adds[OF m(1)] m(2) by (auto simp: adds_nothing_def adds_change_def)
qed

lemma retained_events:
  "retained_ok budget s \<Longrightarrow> 0 < bg_max_events budget \<Longrightarrow>
     length (events_of x s) < bg_max_events budget \<and> boundary_of x s = None"
  by (auto simp: retained_ok_def events_of_def boundary_of_def split: option.splits)

lemma poll_retained:
  assumes "poll_iteration budget polled elapsed s = Inr (r, s')" "ingress_inv s"
    "retained_ok budget s" "0 < bg_max_events budget"
  shows "retained_ok budget s' \<and>
     (\<forall>q. r = Return (PollBatch q) \<longrightarrow> length (ib_events q) \<le> bg_max_events budget + 1)"
  using assms(1)
proof (cases rule: poll_iteration_cases)
  case (taken s1 b x p)
  have "length (pb_events p) = length (events_of x s1)" using taken(1) by (simp add: events_of_def)
  also have "\<dots> \<le> length (events_of x s) + 2" using taken(4) process_grows by auto
  finally have len: "length (pb_events p) \<le> bg_max_events budget + 1"
    using retained_events[OF assms(3,4), of x] by simp
  have "AList.delete x (ig_pending s1) = []"
  proof (cases "s1 = s")
    case True
    then show ?thesis using inv_pending[OF assms(2)] taken(1) by auto
  next
    case False
    then obtain w payload where "process_pgoutput w payload s = Inr (b, s1)" using taken(4) by auto
    note ok = process_pgoutput_ok[OF this assms(2)]
    show ?thesis
    proof (cases b)
      case None
      then show ?thesis using ok taken(1) inv_pending by (auto simp: processed_ok_def)
    next
      case (Some y)
      then show ?thesis
        using ok taken(3) only_batches_delete by (auto simp: processed_ok_def closing_def)
    qed
  qed
  then show ?thesis
    using taken(2) len by (auto simp: take_batch_def retained_ok_def finish_batch_def)
next
  case (frame s1 w e tm payload)
  have inv: "ingress_inv s1" using process_pgoutput_ok[OF frame(2) assms(2)] by (simp add: processed_ok_def)
  have "pb_boundary p = None" if "map_of (ig_pending s1) x = Some p" for x p
    using that process_shape(1)[OF frame(2), of x] retained_events[OF assms(3,4), of x]
    by (simp add: boundary_of_def)
  then have "retained_ok budget s1"
    using frame(5) inv_pending[OF inv] unfolding retained_ok_def by metis
  then show ?thesis using frame(3,4) by (auto simp: retained_ok_def)
next
  case (other rr)
  then show ?thesis using assms(3) by (auto simp: retained_ok_def)
qed

lemma reach_retained:
  assumes "ingress_reach n budget env s" "0 < bg_max_events budget"
  shows "retained_ok budget s"
  using assms
proof (induction rule: ingress_reach.induct)
  case (reach_new s)
  then show ?case by (auto simp: ingress_new_def retained_ok_def split: if_splits)
next
  case (reach_poll s polled elapsed r s')
  then show ?case using poll_retained ingress_reach_inv by blast
qed

text \<open>The batch an iteration returns while a transaction is active.\<close>

lemma poll_batch_of_active:
  assumes "poll_iteration budget polled elapsed s = Inr (Return (PollBatch q), s')"
    "ingress_inv s" "retained_ok budget s" "0 < bg_max_events budget" "ig_active s = Some t"
  shows "ib_source_xid q = at_xid t \<and> ib_transaction_start_lsn q = at_start_lsn t \<and>
     (ib_boundary q = None \<or>
      (\<exists>c e. at_expected_commit_lsn t = Some c \<and> ib_boundary q = Some (BCommit c e)))"
  using assms(1)
proof (cases rule: poll_iteration_cases)
  case (taken s1 b x p)
  have q: "q = finish_batch p" using taken(2) by (simp add: take_batch_def)
  have only: "only_batches t (ig_pending s)" using assms(2,5) by (simp add: ingress_inv_def)
  have "x = at_xid t \<and> batch_for t p \<and>
     (pb_boundary p = None \<or>
      (\<exists>c e. at_expected_commit_lsn t = Some c \<and> pb_boundary p = Some (BCommit c e)))"
  proof (cases "s1 = s \<and> b = None")
    case True
    then show ?thesis
      using only_batches_entry[OF only] taken(1) assms(3) by (auto simp: retained_ok_def)
  next
    case False
    then obtain w payload where pr: "process_pgoutput w payload s = Inr (b, s1)"
      using taken(4) by auto
    note ok = process_pgoutput_ok[OF this assms(2)]
    have bd: "boundary_of x s1 = pb_boundary p" using taken(1) by (simp add: boundary_of_def)
    have clear: "boundary_of x s = None" using retained_events[OF assms(3,4)] by blast
    show ?thesis
    proof (cases b)
      case None
      then have "ingress_inv s1" "ig_active s1 = Some t" "boundary_of x s1 = boundary_of x s"
        using ok process_shape(1,2)[OF pr] assms(5) by (simp_all add: processed_ok_def)
      then show ?thesis
        using only_batches_entry[OF _ taken(1)] bd clear by (simp add: ingress_inv_def)
    next
      case (Some y)
      then have "closing t s1" "y = x" using process_closing[of w payload s y s1 t] pr assms(2,5) taken(3) by auto
      then show ?thesis
        using process_shape(3)[OF pr Some assms(5)] only_batches_entry[OF _ taken(1), of t] bd clear
        by (auto simp: closing_def)
    qed
  qed
  then show ?thesis by (auto simp: q finish_batch_def batch_for_def)
qed (use assms(1) in auto)

end
