(* ===== verification/Ingress_Guarantees.thy ===== *)
theory Ingress_Guarantees
  imports Ingress_Properties
begin

text \<open>
  The guarantees of the ingress (\<open>src/ingress.rs\<close>) to the runtime that persists its
  batches, with a concrete run (Begin, Relation, Insert) that shows each of them at work.
\<close>

section \<open>A concrete run\<close>

definition w_budget :: ingress_budget where
  "w_budget = \<lparr>bg_max_events = 1, bg_max_wire_bytes = 1000, bg_max_poll_time = 50\<rparr>"

definition w_begin :: bytes where
  "w_begin = byte_of CHR ''B'' # be_word (9 :: 64 word) @ replicate 8 0 @ be_word (7 :: 32 word)"

definition w_relation :: bytes where
  "w_relation = byte_of CHR ''R'' # be_word (100 :: 32 word) @ [97] @ 0 # [98] @ 0 # 100
     # be_word (word_of_nat (length [(0, [99], replicate 8 0) :: wire_column]) :: 16 word)
     @ enc_columns [(0, [99], replicate 8 0)]"

definition w_insert :: bytes where
  "w_insert = byte_of CHR ''I'' # be_word (100 :: 32 word)
     @ enc_tuple (byte_of CHR ''N'') [TextValue [49]]"

definition w_active :: active_transaction where
  "w_active = \<lparr>at_xid = 7, at_start_lsn = 5, at_expected_commit_lsn = Some 9\<rparr>"

definition w_state0 :: ingress where
  "w_state0 = \<lparr>ig_relations = [], ig_max_cached_relations = 4, ig_active = None, ig_streamed = [],
     ig_last_change = [], ig_pending = [], ig_reply_requested = False\<rparr>"

definition w_pending :: "nat \<Rightarrow> lsn \<Rightarrow> pending_batch" where
  "w_pending wire l = \<lparr>pb_source_xid = 7, pb_transaction_start_lsn = 5, pb_decode_end_lsn = l,
     pb_wire_bytes = wire, pb_events = [], pb_boundary = None\<rparr>"

definition w_state1 :: ingress where
  "w_state1 = w_state0\<lparr>ig_active := Some w_active,
     ig_pending := [(7, w_pending (length w_begin) 5)]\<rparr>"

definition w_state2 :: ingress where
  "w_state2 = w_state1\<lparr>ig_relations := [(100, [[99]])],
     ig_pending := [(7, w_pending (length w_begin + length w_relation) 6)]\<rparr>"

definition w_event :: ingress_event where
  "w_event = \<lparr>ev_change_lsn = 6, ev_change_ordinal = 0, ev_image_ordinal = 0,
     ev_source_subxid = 7, ev_source_oid = 100, ev_weight = 1, ev_payload = [([99], Some [49])]\<rparr>"

definition w_batch :: ingress_batch where
  "w_batch = \<lparr>ib_source_xid = 7, ib_transaction_start_lsn = 5, ib_decode_end_lsn = 6,
     ib_events = [w_event], ib_boundary = None\<rparr>"

definition w_state3 :: ingress where
  "w_state3 = w_state2\<lparr>ig_pending := [], ig_last_change := [(7, (6, 1))]\<rparr>"

definition w_poll :: "lsn \<Rightarrow> bytes \<Rightarrow> replication_error + copy_data_poll" where
  "w_poll w payload = Inr (CopyMessage (XLogData w w 0 payload))"

lemma w_lengths: "length w_begin = 21" "length w_relation = 23" "length w_insert = 14"
  by (simp_all add: w_begin_def w_relation_def w_insert_def enc_columns_def enc_tuple_def
      enc_values_def)

lemma w_parse_begin: "parse_with_context w_begin ctx = Inr (Begin 9 7)"
proof (rule parse_complete)
  show "pg_message ctx w_begin (Begin 9 7)" unfolding w_begin_def by (rule pg_begin) simp
  show "sized w_begin" by (simp add: sized_def w_lengths int_bounds)
qed

lemma w_parse_relation: "parse_with_context w_relation NonStreaming = Inr (Relation None 100 [[99]])"
proof (rule parse_complete)
  show "pg_message NonStreaming w_relation (Relation None 100 [[99]])"
    unfolding w_relation_def
    using tx_relation[of "[97]" "[98]" "[(0, [99], replicate 8 0)]" None 100 100]
    by (intro pg_plain) (simp add: cstr_ok_def u16_max_def)
  show "sized w_relation" by (simp add: sized_def w_lengths int_bounds)
qed

lemma w_parse_insert: "parse_with_context w_insert NonStreaming = Inr (Insert None 100 [Some [49]])"
proof (rule parse_complete)
  show "pg_message NonStreaming w_insert (Insert None 100 [Some [49]])"
    unfolding w_insert_def
    by (intro pg_plain tx_insert) (simp_all add: tuple_ok_def int_bounds)
  show "sized w_insert" by (simp add: sized_def w_lengths int_bounds)
qed

lemmas w_state_defs = w_state0_def w_state1_def w_state2_def w_state3_def w_pending_def w_active_def

lemmas w_eval = w_state_defs poll_iteration_def w_poll_def process_pgoutput_def
  w_parse_begin w_parse_relation w_parse_insert parse_context_of_def handle_begin_def
  handle_relation_def handle_change_def push_change_def validate_message_xid_def
  require_active_transaction_def next_change_ordinal_def tuple_to_json_def
  ensure_pending_def with_pending_def pending_new_def observe_frame_def checked_add_u64_def
  w_lengths int_bounds w_budget_def take_batch_def finish_batch_def w_batch_def w_event_def Let_def

lemma w_run0: "ingress_new 4 = Inr w_state0"
  by (simp add: ingress_new_def w_state_defs)

lemma w_run1: "poll_iteration w_budget (w_poll 5 w_begin) False w_state0 = Inr (Again, w_state1)"
  by (simp add: w_eval)

lemma w_run2: "poll_iteration w_budget (w_poll 6 w_relation) False w_state1 = Inr (Again, w_state2)"
  by (simp add: w_eval)

lemma w_run3: "poll_iteration w_budget (w_poll 6 w_insert) False w_state2
     = Inr (Return (PollBatch w_batch), w_state3)"
  by (simp add: w_eval)

lemma w_reach0: "ingress_reach 4 w_budget env w_state0"
  by (rule reach_new[OF w_run0])

lemma w_reach2: "(\<And>polled s. env polled s) \<Longrightarrow> ingress_reach 4 w_budget env w_state2"
  by (rule reach_poll[OF reach_poll[OF w_reach0 _ w_run1] _ w_run2]) auto

lemma w_in_order:
  "in_order (w_poll 5 w_begin) w_state0" "in_order (w_poll 6 w_relation) w_state1"
  "in_order (w_poll 6 w_insert) w_state2"
  by (simp_all add: in_order_def w_poll_def frame_in_order_def w_state_defs)

lemma w_reach2_in_order: "ingress_reach 4 w_budget in_order w_state2"
  by (rule reach_poll[OF reach_poll[OF w_reach0[of in_order] w_in_order(1) w_run1]
        w_in_order(2) w_run2])

section \<open>The relation cache\<close>






section \<open>Failures and progress\<close>

lemma poll_iteration_failure:
  assumes "poll_iteration budget polled elapsed s = Inl e" "ingress_inv s"
  shows "(\<exists>re. polled = Inl re \<and> e = IReplication re) \<or>
     (\<exists>w we tm payload. polled = Inr (CopyMessage (XLogData w we tm payload)) \<and>
        process_pgoutput w payload s = Inl e)"
proof (cases polled)
  case (Inl re)
  then show ?thesis using assms(1) by (simp add: poll_iteration_def)
next
  case (Inr poll)
  show ?thesis
  proof (cases poll)
    case CopyEnd
    then show ?thesis
      using assms(1) Inr first_key_entry[of "ig_pending s"]
      by (fastforce simp: poll_iteration_def split: option.splits)
  next
    case (CopyMessage m)
    show ?thesis
    proof (cases m)
      case (PrimaryKeepalive e tm rp)
      then show ?thesis
        using assms(1) Inr CopyMessage by (auto simp: poll_iteration_def Let_def split: if_splits)
    next
      case (XLogData w we tm payload)
      show ?thesis
      proof (cases "process_pgoutput w payload s")
        case (Inl e')
        then show ?thesis
          using assms(1) Inr CopyMessage XLogData by (simp add: poll_iteration_def)
      next
        case (Inr res)
        obtain b s1 where res: "res = (b, s1)" by (cases res)
        have "processed_ok b s1" using process_pgoutput_ok[of w payload s b s1] Inr res assms(2) by simp
        then show ?thesis
          using assms(1) \<open>polled = Inr poll\<close> CopyMessage XLogData Inr res
          by (auto simp: poll_iteration_def processed_ok_def split: option.splits if_splits)
      qed
    qed
  qed (use assms(1) Inr in \<open>simp add: poll_iteration_def\<close>)
qed

text \<open>A poll result that ends the loop: nothing buffered, the end of the stream, an error.\<close>

fun loop_ends_on :: "replication_error + copy_data_poll \<Rightarrow> bool" where
  "loop_ends_on (Inl _) = True"
| "loop_ends_on (Inr CopyPending) = True"
| "loop_ends_on (Inr CopyEnd) = True"
| "loop_ends_on (Inr (CopyMessage _)) = False"

lemma loop_ends: "loop_ends_on polled \<Longrightarrow> poll_iteration budget polled elapsed s \<noteq> Inr (Again, s')"
  by (cases polled rule: loop_ends_on.cases)
    (auto simp: poll_iteration_def take_batch_def split: option.splits)

lemma poll_loop_returns:
  "list_ex (\<lambda>(polled, elapsed). loop_ends_on polled) script \<Longrightarrow> poll_loop budget script s \<noteq> None"
proof (induction script arbitrary: s)
  case (Cons x script)
  obtain polled elapsed where x: "x = (polled, elapsed)" by (cases x)
  show ?case
    using Cons loop_ends[of polled budget elapsed s] x
    by (fastforce split: sum.splits prod.splits loop_step.splits)
qed simp

section \<open>Properties\<close>

text \<open>
  C8: Events reach the runtime in the order of the WAL: when the frames of every transaction
  arrive in WAL order, the events of every returned batch are strictly ordered by WAL
  position, change ordinal and image ordinal, so no two events share a key and an UPDATE's
  old image precedes its new one.
\<close>

theorem ingress_events_ordered:
  assumes "ingress_reach n budget in_order s" "in_order polled s"
    and "poll_iteration budget polled elapsed s = Inr (Return (PollBatch q), s')"
  shows "sorted_wrt ev_less (ib_events q)"
  using poll_ordered[OF assms(3) reach_ordered[OF assms(1)] assms(2)] by blast

theorem ingress_events_ordered_witness: "sorted_wrt ev_less (ib_events w_batch)"
  by (rule ingress_events_ordered[OF w_reach2_in_order w_in_order(3) w_run3])

text \<open>
  C23: A batch never mixes source transactions and never invents a commit: a batch returned
  while a transaction is active carries that transaction's xid and start position, and a
  commit boundary on it has the commit position its Begin announced.
\<close>

theorem ingress_batch_of_active:
  assumes "ingress_reach n budget env s" "0 < bg_max_events budget" "ig_active s = Some t"
    and "poll_iteration budget polled elapsed s = Inr (Return (PollBatch q), s')"
  shows "ib_source_xid q = at_xid t \<and> ib_transaction_start_lsn q = at_start_lsn t \<and>
     (ib_boundary q = None \<or>
      (\<exists>c e. at_expected_commit_lsn t = Some c \<and> ib_boundary q = Some (BCommit c e)))"
  by (rule poll_batch_of_active[OF assms(4) ingress_reach_inv[OF assms(1)]
        reach_retained[OF assms(1,2)] assms(2,3)])

theorem ingress_batch_of_active_witness:
  "ib_source_xid w_batch = at_xid w_active \<and> ib_transaction_start_lsn w_batch = at_start_lsn w_active"
  using ingress_batch_of_active[OF w_reach2[of "\<lambda>_ _. True"] _ _ w_run3]
  by (simp add: w_budget_def w_state_defs)



text \<open>
  C37: The internal checks of the poll loop never fire: from a reachable state an iteration
  fails only with the transport's own error or with the error of the frame it processes;
  the errors and \<open>expect\<close>s about missing pending batches are unreachable.
\<close>

theorem ingress_failures_external:
  assumes "ingress_reach n budget env s" "poll_iteration budget polled elapsed s = Inl e"
  shows "(\<exists>re. polled = Inl re \<and> e = IReplication re) \<or>
     (\<exists>w we tm payload. polled = Inr (CopyMessage (XLogData w we tm payload)) \<and>
        process_pgoutput w payload s = Inl e)"
  by (rule poll_iteration_failure[OF assms(2) ingress_reach_inv[OF assms(1)]])

theorem ingress_failures_external_witness:
  "process_pgoutput 5 [] w_state0 = Inl (IProtocol ''empty pgoutput message'')"
  using ingress_failures_external[OF w_reach0[of "\<lambda>_ _. True"], where polled = "w_poll 5 []"
      and elapsed = False and e = "IProtocol ''empty pgoutput message''"]
  by (simp add: w_poll_def poll_iteration_def process_pgoutput_def parse_with_context_def)

text \<open>
  C38: A poll returns as soon as the transport has no complete frame left, ends, or fails.
\<close>

theorem poll_batch_returns:
  assumes "list_ex (\<lambda>(polled, elapsed). loop_ends_on polled) script"
  shows "\<exists>result. poll_batch budget script s = Some result"
  using poll_loop_returns[OF assms, of budget s] by (auto simp: poll_batch_def)

theorem poll_batch_returns_witness:
  "\<exists>result. poll_batch w_budget [(w_poll 5 w_begin, False), (Inr CopyPending, False)] w_state0
     = Some result"
  by (rule poll_batch_returns) simp

end
