(* ===== verification/TopN_Machine.thy ===== *)
theory TopN_Machine
  imports Kernel_Contract
begin

text \<open>
  The TopN phase machine (\<open>src/execution/topn/machine.rs\<close>): its continuation, the action a
  continuation asks the database for, and the transition it takes on the measured result of
  that action.  What the database does inside an action is a parameter: the results.
\<close>

section \<open>Data\<close>

datatype topn_after = TAfterAdmit input_position | TAfterFinish | TAfterFrontier input_position

record topn_cursor = tc_row_id :: "int option"

record topn_diff_cursor =
  td_row_id :: "int option"
  td_repeat :: bool

record selection_progress =
  sp_cursor :: topn_cursor
  sp_offset_remaining :: nat
  sp_limit_remaining :: nat
  sp_tie_boundary :: "int option"

datatype topn_leg = TRemove | TAdd

datatype topn_phase =
    TAdmit
  | TSelect int selection_progress topn_after
  | TDiff int topn_leg topn_diff_cursor topn_after
  | TCleanup int topn_cursor topn_after
  | TFrontier

datatype topn_kind = KAdmit | KSelect | KDiff | KCleanup | KFrontier

fun topn_kind_of :: "topn_phase \<Rightarrow> topn_kind" where
  "topn_kind_of TAdmit = KAdmit"
| "topn_kind_of (TSelect g p a) = KSelect"
| "topn_kind_of (TDiff g l c a) = KDiff"
| "topn_kind_of (TCleanup g c a) = KCleanup"
| "topn_kind_of TFrontier = KFrontier"

fun topn_kind_code :: "topn_kind \<Rightarrow> int" where
  "topn_kind_code KAdmit = 1"
| "topn_kind_code KSelect = 2"
| "topn_kind_code KDiff = 3"
| "topn_kind_code KCleanup = 4"
| "topn_kind_code KFrontier = 5"

definition topn_kind_from_code :: "int \<Rightarrow> topn_kind result" where
  "topn_kind_from_code code =
     (if code = 1 then Inr KAdmit
      else if code = 2 then Inr KSelect
      else if code = 3 then Inr KDiff
      else if code = 4 then Inr KCleanup
      else if code = 5 then Inr KFrontier
      else Inl ''unknown TopN phase code'')"

record topn_continuation =
  tn_input_stream_id :: int
  tn_input :: "input_position option"
  tn_phase :: topn_phase

record topn_machine =
  tm_limit :: nat
  tm_offset :: nat
  tm_with_ties :: bool

datatype topn_action =
    ActAdmit input_position
  | ActSelect int selection_progress
  | ActDiff int topn_leg topn_diff_cursor
  | ActCleanup int topn_cursor
  | ActFrontier input_position

datatype topn_target = TContinue input_position | TDrain int topn_after | TIdle

record topn_admission =
  ta_facts :: primitive_facts
  ta_target :: topn_target

record topn_page =
  tp_facts :: primitive_facts
  tp_last_row_id :: "int option"
  tp_complete :: bool

record topn_diff_page =
  dp_facts :: primitive_facts
  dp_last_row_id :: "int option"
  dp_complete :: bool
  dp_repeat_cursor :: bool

record topn_selection =
  ts_page :: topn_page
  ts_progress :: selection_progress

datatype topn_result =
    Admitted topn_admission
  | Selected topn_selection
  | Diffed topn_diff_page
  | Cleaned topn_page
  | FrontierForwarded primitive_facts

text \<open>\<open>TopNTransition::Committed\<close>, its only constructor: the next continuation and the facts.\<close>

type_synonym topn_transition = "topn_continuation option \<times> primitive_facts"

section \<open>Validation\<close>

definition topn_cursor_default :: topn_cursor where
  "topn_cursor_default = \<lparr>tc_row_id = None\<rparr>"

definition topn_diff_cursor_default :: topn_diff_cursor where
  "topn_diff_cursor_default = \<lparr>td_row_id = None, td_repeat = False\<rparr>"

definition topn_cursor_validate :: "topn_cursor \<Rightarrow> unit result" where
  "topn_cursor_validate c =
     (if non_positive (tc_row_id c) then Inl ''TopN cursor is not positive'' else Inr ())"

definition topn_diff_cursor_validate :: "topn_diff_cursor \<Rightarrow> unit result" where
  "topn_diff_cursor_validate c =
     (if non_positive (td_row_id c) then Inl ''TopN Diff cursor is not positive''
      else if td_repeat c \<and> td_row_id c = None
      then Inl ''TopN Diff repeat cursor omitted its row''
      else Inr ())"

definition selection_initial :: "nat \<Rightarrow> nat \<Rightarrow> selection_progress" where
  "selection_initial offset limit =
     \<lparr>sp_cursor = topn_cursor_default, sp_offset_remaining = offset,
      sp_limit_remaining = limit, sp_tie_boundary = None\<rparr>"

definition selection_validate :: "topn_machine \<Rightarrow> selection_progress \<Rightarrow> unit result" where
  "selection_validate m p =
     bind_res (topn_cursor_validate (sp_cursor p)) (\<lambda>_.
     if non_positive (sp_tie_boundary p) then Inl ''TopN tie boundary is not positive''
     else if tm_offset m < sp_offset_remaining p \<or> tm_limit m < sp_limit_remaining p
     then Inl ''TopN remaining count exceeds its plan''
     else if \<not> tm_with_ties m \<and> sp_tie_boundary p \<noteq> None
     then Inl ''TopN without WITH TIES stored a tie boundary''
     else if sp_tie_boundary p \<noteq> None \<and> (sp_offset_remaining p \<noteq> 0 \<or> sp_limit_remaining p \<noteq> 0)
     then Inl ''TopN tie boundary was stored before OFFSET and LIMIT completed''
     else Inr ())"

definition topn_validate_input :: "input_position \<Rightarrow> unit result" where
  "topn_validate_input i =
     (if ip_stream_id i \<le> 0 \<or> ip_chunk_seq i \<le> 0 \<or> ip_row_ordinal i < 0
      then Inl ''TopN input position is invalid'' else Inr ())"

definition topn_validate_generation :: "int \<Rightarrow> unit result" where
  "topn_validate_generation g =
     (if g \<le> 0 then Inl ''TopN candidate generation id is not positive'' else Inr ())"

definition topn_validate_after :: "int \<Rightarrow> topn_after \<Rightarrow> unit result" where
  "topn_validate_after stream after =
     (if stream \<le> 0 then Inl ''TopN Drain target has an invalid input stream''
      else case after of
        TAfterAdmit next \<Rightarrow>
          bind_res (topn_validate_input next) (\<lambda>_.
          if ip_stream_id next \<noteq> stream then Inl ''TopN Drain target changed its input stream''
          else Inr ())
      | TAfterFrontier frontier \<Rightarrow>
          bind_res (topn_validate_input frontier) (\<lambda>_.
          if ip_stream_id frontier \<noteq> stream \<or> ip_row_ordinal frontier \<noteq> 0
          then Inl ''TopN frontier target is invalid'' else Inr ())
      | TAfterFinish \<Rightarrow> Inr ())"

definition topn_no_output :: "primitive_facts \<Rightarrow> unit result" where
  "topn_no_output f =
     (if pr_output f \<noteq> NoOutput \<or> output_rows (pr_usage f) \<noteq> 0 \<or> output_bytes (pr_usage f) \<noteq> 0
      then Inl ''TopN internal phase reported external output'' else Inr ())"

definition topn_validate :: "topn_machine \<Rightarrow> topn_continuation \<Rightarrow> unit result" where
  "topn_validate m c =
     (if tn_input_stream_id c \<le> 0 then Inl ''TopN continuation has an invalid input stream''
      else
        let input_phase = (\<lambda>frontier.
              bind_res (ok_or ''TopN input phase omitted its cursor'' (tn_input c)) (\<lambda>input.
              bind_res (topn_validate_input input) (\<lambda>_.
              if ip_stream_id input \<noteq> tn_input_stream_id c
              then Inl ''TopN input phase changed its stream''
              else if frontier \<and> ip_row_ordinal input \<noteq> 0
              then Inl ''TopN frontier continuation has a row cursor''
              else Inr ())))
        in case tn_phase c of
          TAdmit \<Rightarrow> input_phase False
        | TFrontier \<Rightarrow> input_phase True
        | TSelect g p after \<Rightarrow>
            bind_res (topn_validate_generation g) (\<lambda>_.
            bind_res (selection_validate m p) (\<lambda>_.
            if tm_limit m = 0 then Inl ''zero-limit TopN cannot persist a selection phase''
            else if tn_input c \<noteq> None then Inl ''TopN Drain continuation retained an input cursor''
            else topn_validate_after (tn_input_stream_id c) after))
        | TDiff g leg cur after \<Rightarrow>
            bind_res (topn_validate_generation g) (\<lambda>_.
            bind_res (topn_diff_cursor_validate cur) (\<lambda>_.
            if tn_input c \<noteq> None then Inl ''TopN Drain continuation retained an input cursor''
            else topn_validate_after (tn_input_stream_id c) after))
        | TCleanup g cur after \<Rightarrow>
            bind_res (topn_validate_generation g) (\<lambda>_.
            bind_res (topn_cursor_validate cur) (\<lambda>_.
            if tn_input c \<noteq> None then Inl ''TopN Drain continuation retained an input cursor''
            else topn_validate_after (tn_input_stream_id c) after)))"

definition topn_diff_page_validate ::
    "topn_diff_page \<Rightarrow> topn_diff_cursor \<Rightarrow> work_budget \<Rightarrow> unit result" where
  "topn_diff_page_validate p previous b =
     bind_res (primitive_validate (dp_facts p) b) (\<lambda>_.
     bind_res (page_facts_validate \<lparr>pf_usage = pr_usage (dp_facts p),
                 pf_last_row_id = dp_last_row_id p, pf_complete = dp_complete p\<rparr> b) (\<lambda>_.
     if non_positive (dp_last_row_id p)
     then Inl ''TopN Diff page returned a non-positive cursor''
     else if dp_repeat_cursor p \<and> (dp_complete p \<or> dp_last_row_id p = None)
     then Inl ''TopN Diff residual has no resumable row''
     else if \<not> dp_complete p \<and>
             (input_rows (pr_usage (dp_facts p)) = 0 \<or> dp_last_row_id p = None)
     then Inl ''partial TopN Diff page made no resumable progress''
     else if \<not> dp_complete p \<and>
             (opt_less (dp_last_row_id p) (td_row_id previous) \<or>
              (dp_last_row_id p = td_row_id previous \<and> \<not> td_repeat previous))
     then Inl ''TopN Diff page moved its cursor backwards''
     else if is_frontier_output (pr_output (dp_facts p)) then Inl ''TopN Diff emitted a frontier''
     else if input_rows (pr_usage (dp_facts p)) < output_rows (pr_usage (dp_facts p))
     then Inl ''TopN Diff emitted more effects than rows compared''
     else Inr ()))"

definition topn_page_validate ::
    "topn_page \<Rightarrow> topn_cursor \<Rightarrow> work_budget \<Rightarrow> bool \<Rightarrow> unit result" where
  "topn_page_validate p previous b permits_output =
     bind_res (primitive_validate (tp_facts p) b) (\<lambda>_.
     bind_res (page_facts_validate \<lparr>pf_usage = pr_usage (tp_facts p),
                 pf_last_row_id = tp_last_row_id p, pf_complete = tp_complete p\<rparr> b) (\<lambda>_.
     if non_positive (tp_last_row_id p) then Inl ''TopN page returned a non-positive cursor''
     else if \<not> tp_complete p \<and>
             (input_rows (pr_usage (tp_facts p)) = 0 \<or> tp_last_row_id p = None)
     then Inl ''partial TopN page made no resumable progress''
     else if \<not> tp_complete p \<and> opt_less (tp_last_row_id p) (tc_row_id previous)
     then Inl ''TopN page moved its cursor backwards''
     else if permits_output then
       (if is_frontier_output (pr_output (tp_facts p)) then Inl ''TopN diff emitted a frontier''
        else if input_rows (pr_usage (tp_facts p)) < output_rows (pr_usage (tp_facts p))
        then Inl ''TopN diff emitted more effects than rows compared''
        else Inr ())
     else topn_no_output (tp_facts p)))"

definition validate_selection_progress ::
    "topn_machine \<Rightarrow> selection_progress \<Rightarrow> selection_progress \<Rightarrow> bool \<Rightarrow> unit result" where
  "validate_selection_progress m previous next complete =
     (if sp_offset_remaining previous < sp_offset_remaining next
         \<or> sp_limit_remaining previous < sp_limit_remaining next
      then Inl ''TopN selection counters moved backwards''
      else if 0 < sp_offset_remaining next \<and>
              (sp_limit_remaining next \<noteq> sp_limit_remaining previous
               \<or> sp_tie_boundary next \<noteq> sp_tie_boundary previous)
      then Inl ''TopN selected rows before OFFSET completed''
      else if sp_tie_boundary previous \<noteq> None \<and> sp_tie_boundary next \<noteq> sp_tie_boundary previous
      then Inl ''TopN changed its persisted tie boundary''
      else if \<not> complete \<and> tc_row_id (sp_cursor next) = None
      then Inl ''resumable TopN selection omitted its keyset cursor''
      else if \<not> complete \<and> tm_with_ties m \<and> sp_limit_remaining next = 0
              \<and> sp_tie_boundary next = None
      then Inl ''resumable WITH TIES selection omitted its boundary row''
      else if \<not> complete \<and> \<not> tm_with_ties m \<and> sp_limit_remaining next = 0
      then Inl ''TopN without ties continued after LIMIT completed''
      else Inr ())"

fun phase_after_drain :: "topn_phase \<Rightarrow> topn_after result" where
  "phase_after_drain (TSelect g p after) = Inr after"
| "phase_after_drain (TDiff g l c after) = Inr after"
| "phase_after_drain (TCleanup g c after) = Inr after"
| "phase_after_drain TAdmit = Inl ''TopN phase has no Drain completion target''"
| "phase_after_drain TFrontier = Inl ''TopN phase has no Drain completion target''"

section \<open>Actions and transitions\<close>

definition topn_action :: "topn_machine \<Rightarrow> topn_continuation \<Rightarrow> topn_action result" where
  "topn_action m c =
     bind_res (topn_validate m c) (\<lambda>_.
     case tn_phase c of
       TAdmit \<Rightarrow>
         bind_res (ok_or ''TopN Admit continuation omitted its input'' (tn_input c)) (\<lambda>i.
         Inr (ActAdmit i))
     | TSelect g p after \<Rightarrow> Inr (ActSelect g p)
     | TDiff g leg cur after \<Rightarrow> Inr (ActDiff g leg cur)
     | TCleanup g cur after \<Rightarrow> Inr (ActCleanup g cur)
     | TFrontier \<Rightarrow>
         bind_res (ok_or ''TopN frontier continuation omitted its input'' (tn_input c)) (\<lambda>i.
         Inr (ActFrontier i)))"

definition topn_apply_admission ::
    "topn_machine \<Rightarrow> input_position \<Rightarrow> topn_admission \<Rightarrow> work_budget \<Rightarrow> topn_transition result"
where
  "topn_apply_admission m input a b =
     bind_res (primitive_validate (ta_facts a) b) (\<lambda>_.
     bind_res (topn_no_output (ta_facts a)) (\<lambda>_.
     if input_rows (pr_usage (ta_facts a)) = 0
     then Inl ''TopN admission made no bounded input progress''
     else
       bind_res
         (case ta_target a of
            TContinue next \<Rightarrow>
              bind_res (topn_validate_input next) (\<lambda>_.
              if ip_stream_id next \<noteq> ip_stream_id input \<or> ip_chunk_seq next \<noteq> ip_chunk_seq input
                 \<or> ip_row_ordinal next \<le> ip_row_ordinal input
              then Inl ''TopN admission continuation did not advance its page''
              else Inr (Some \<lparr>tn_input_stream_id = ip_stream_id input, tn_input = Some next,
                              tn_phase = TAdmit\<rparr>))
          | TDrain g after \<Rightarrow>
              bind_res (topn_validate_generation g) (\<lambda>_.
              bind_res (topn_validate_after (ip_stream_id input) after) (\<lambda>_.
              Inr (Some \<lparr>tn_input_stream_id = ip_stream_id input, tn_input = None,
                         tn_phase =
                           (if tm_limit m = 0 then TDiff g TRemove topn_diff_cursor_default after
                            else TSelect g (selection_initial (tm_offset m) (tm_limit m)) after)\<rparr>)))
          | TIdle \<Rightarrow> Inr None) (\<lambda>next.
       bind_res (case next of None \<Rightarrow> Inr () | Some n \<Rightarrow> topn_validate m n) (\<lambda>_.
       Inr (next, ta_facts a)))))"

definition topn_apply_selection ::
    "topn_machine \<Rightarrow> topn_continuation \<Rightarrow> int \<Rightarrow> selection_progress \<Rightarrow> topn_selection
     \<Rightarrow> work_budget \<Rightarrow> topn_transition result" where
  "topn_apply_selection m c g previous sel b =
     bind_res (topn_page_validate (ts_page sel) (sp_cursor previous) b False) (\<lambda>_.
     bind_res (selection_validate m (ts_progress sel)) (\<lambda>_.
     if \<not> tp_complete (ts_page sel)
        \<and> tc_row_id (sp_cursor (ts_progress sel)) \<noteq> tp_last_row_id (ts_page sel)
     then Inl ''TopN selection cursor disagrees with its bounded page''
     else
       bind_res (validate_selection_progress m previous (ts_progress sel)
                   (tp_complete (ts_page sel))) (\<lambda>_.
       bind_res (phase_after_drain (tn_phase c)) (\<lambda>after.
       Inr (Some \<lparr>tn_input_stream_id = tn_input_stream_id c, tn_input = None,
                  tn_phase =
                    (if tp_complete (ts_page sel)
                     then TDiff g TRemove topn_diff_cursor_default after
                     else TSelect g (ts_progress sel) after)\<rparr>,
            tp_facts (ts_page sel))))))"

definition topn_apply_diff ::
    "topn_continuation \<Rightarrow> int \<Rightarrow> topn_leg \<Rightarrow> topn_diff_cursor \<Rightarrow> topn_diff_page \<Rightarrow> work_budget
     \<Rightarrow> topn_transition result" where
  "topn_apply_diff c g leg cur page b =
     bind_res (topn_diff_page_validate page cur b) (\<lambda>_.
     bind_res (phase_after_drain (tn_phase c)) (\<lambda>after.
     Inr (Some \<lparr>tn_input_stream_id = tn_input_stream_id c, tn_input = None,
                tn_phase =
                  (if \<not> dp_complete page
                   then TDiff g leg \<lparr>td_row_id = dp_last_row_id page,
                                    td_repeat = dp_repeat_cursor page\<rparr> after
                   else case leg of
                     TRemove \<Rightarrow> TDiff g TAdd topn_diff_cursor_default after
                   | TAdd \<Rightarrow> TCleanup g topn_cursor_default after)\<rparr>,
          dp_facts page)))"

definition topn_apply_cleanup ::
    "topn_continuation \<Rightarrow> int \<Rightarrow> topn_cursor \<Rightarrow> topn_page \<Rightarrow> work_budget \<Rightarrow> topn_transition result"
where
  "topn_apply_cleanup c g cur page b =
     bind_res (topn_page_validate page cur b False) (\<lambda>_.
     bind_res (phase_after_drain (tn_phase c)) (\<lambda>after.
     Inr (if \<not> tp_complete page
          then Some \<lparr>tn_input_stream_id = tn_input_stream_id c, tn_input = None,
                     tn_phase = TCleanup g \<lparr>tc_row_id = tp_last_row_id page\<rparr> after\<rparr>
          else case after of
            TAfterAdmit next \<Rightarrow>
              Some \<lparr>tn_input_stream_id = tn_input_stream_id c, tn_input = Some next,
                    tn_phase = TAdmit\<rparr>
          | TAfterFinish \<Rightarrow> None
          | TAfterFrontier frontier \<Rightarrow>
              Some \<lparr>tn_input_stream_id = tn_input_stream_id c, tn_input = Some frontier,
                    tn_phase = TFrontier\<rparr>,
          tp_facts page)))"

definition topn_apply_frontier :: "primitive_facts \<Rightarrow> work_budget \<Rightarrow> topn_transition result" where
  "topn_apply_frontier f b =
     bind_res (validate_protocol f b PhFrontier Finished) (\<lambda>_.
     if \<not> is_frontier_output (pr_output f) \<or> input_rows (pr_usage f) \<noteq> 0
        \<or> input_bytes (pr_usage f) \<noteq> 0
     then Inl ''TopN frontier commit is inconsistent''
     else Inr (None, f))"

definition topn_apply ::
    "topn_machine \<Rightarrow> topn_continuation \<Rightarrow> topn_result \<Rightarrow> work_budget \<Rightarrow> topn_transition result"
where
  "topn_apply m c result b =
     bind_res (topn_action m c) (\<lambda>expected.
     case (expected, result) of
       (ActAdmit input, Admitted a) \<Rightarrow> topn_apply_admission m input a b
     | (ActSelect g p, Selected sel) \<Rightarrow> topn_apply_selection m c g p sel b
     | (ActDiff g leg cur, Diffed page) \<Rightarrow> topn_apply_diff c g leg cur page b
     | (ActCleanup g cur, Cleaned page) \<Rightarrow> topn_apply_cleanup c g cur page b
     | (ActFrontier input, FrontierForwarded f) \<Rightarrow> topn_apply_frontier f b
     | _ \<Rightarrow> Inl ''database returned facts for another TopN phase'')"

end
