(* ===== verification/Resumable_Machine.thy ===== *)
theory Resumable_Machine
  imports Kernel_Contract
begin

text \<open>
  The interface of the operator machines: a durable continuation, and one transition per
  committed database primitive.  The runner (\<open>src/execution/runner.rs\<close>) steps every operator
  through this contract, so what it relies on is stated once, as a locale, and proved on the
  model of each machine by an interpretation.
\<close>

section \<open>Runs\<close>

type_synonym ('c, 'r) machine_apply =
  "'c \<Rightarrow> 'r \<Rightarrow> work_budget \<Rightarrow> ('c option \<times> primitive_facts) result"

text \<open>
  A run commits one primitive after another, each under its own budget; it collects the facts.
  Once no continuation is left there is nothing to resume.
\<close>

fun machine_run ::
    "('c, 'r) machine_apply \<Rightarrow> 'c option \<Rightarrow> ('r \<times> work_budget) list
     \<Rightarrow> ('c option \<times> primitive_facts list) result" where
  "machine_run ap n [] = Inr (n, [])"
| "machine_run ap None (x # xs) = Inl ''no continuation to resume''"
| "machine_run ap (Some c) ((r, b) # xs) =
     bind_res (ap c r b) (\<lambda>(n, f).
     bind_res (machine_run ap n xs) (\<lambda>(n', fs).
     Inr (n', f # fs)))"

definition total_rows :: "(work_usage \<Rightarrow> nat) \<Rightarrow> primitive_facts list \<Rightarrow> nat" where
  "total_rows g fs = sum_list (map (g \<circ> pr_usage) fs)"

lemma machine_run_Cons:
  "machine_run ap n ((r, b) # xs) = Inr (n', fs) \<longleftrightarrow>
     (\<exists>c n1 f fs'. n = Some c \<and> ap c r b = Inr (n1, f) \<and> machine_run ap n1 xs = Inr (n', fs') \<and>
        fs = f # fs')"
  by (cases n) (auto simp: res_simps)

lemma machine_run_snoc:
  "machine_run ap n (xs @ [(r, b)]) = Inr (n', fs) \<longleftrightarrow>
     (\<exists>c fs' f. machine_run ap n xs = Inr (Some c, fs') \<and> ap c r b = Inr (n', f) \<and> fs = fs' @ [f])"
proof (induction xs arbitrary: n fs)
  case Nil
  then show ?case by (cases n) (auto simp: res_simps)
next
  case (Cons x xs)
  obtain r' b' where x: "x = (r', b')" by (cases x)
  show ?case unfolding x append_Cons machine_run_Cons Cons.IH by auto
qed

lemma machine_run_length: "machine_run ap n steps = Inr (n', fs) \<Longrightarrow> length fs = length steps"
  by (induction ap n steps arbitrary: n' fs rule: machine_run.induct) (auto simp: res_simps)

text \<open>The step of a run at position \<open>p\<close>: it starts where the steps before it ended.\<close>

lemma machine_run_nth:
  "machine_run ap n steps = Inr (n', fs) \<Longrightarrow> p < length steps \<Longrightarrow>
     \<exists>c1 fs1 n1. machine_run ap n (take p steps) = Inr (Some c1, fs1) \<and>
        ap c1 (fst (steps ! p)) (snd (steps ! p)) = Inr (n1, fs ! p)"
proof (induction steps arbitrary: n' fs rule: rev_induct)
  case (snoc x steps)
  obtain r b where x: "x = (r, b)" by (cases x)
  obtain c fs' f where run: "machine_run ap n steps = Inr (Some c, fs')" and step: "ap c r b = Inr (n', f)"
      and fs: "fs = fs' @ [f]"
    using snoc.prems(1) unfolding x machine_run_snoc by blast
  note len = machine_run_length[OF run]
  show ?case
  proof (cases "p = length steps")
    case True
    then show ?thesis using run step fs len x by (auto simp: nth_append)
  next
    case False
    then have "p < length steps" using snoc.prems(2) by simp
    then show ?thesis using snoc.IH[OF run] fs len by (auto simp: nth_append)
  qed
qed simp

lemma machine_run_invariant:
  assumes run: "machine_run ap (Some c) steps = Inr (Some c', fs)" and "P c"
    and step: "\<And>c r b c' f. P c \<Longrightarrow> ap c r b = Inr (Some c', f) \<Longrightarrow> P c'"
  shows "P c'"
  using run \<open>P c\<close>
proof (induction steps arbitrary: c fs)
  case (Cons x steps)
  obtain r b n1 f fs' where x: "ap c r b = Inr (n1, f)" "machine_run ap n1 steps = Inr (Some c', fs')"
    using Cons.prems(1) by (cases x) (auto simp: res_simps)
  then obtain c1 where "n1 = Some c1" by (cases n1; cases steps) auto
  then show ?case using Cons.IH x step[OF Cons.prems(2)] by blast
qed simp

section \<open>The contract\<close>

locale resumable_machine =
  fixes valid :: "'c \<Rightarrow> bool"
    and ap :: "('c, 'r) machine_apply"
  assumes rejects_invalid: "ap c r b = Inr (n, f) \<Longrightarrow> valid c"
    and keeps_valid: "ap c r b = Inr (Some c', f) \<Longrightarrow> valid c'"
    and within_budget: "ap c r b = Inr (n, f) \<Longrightarrow> primitive_validate f b = Inr ()"
    and frontier_last: "ap c r b = Inr (n, f) \<Longrightarrow> is_frontier_output (pr_output f) \<Longrightarrow> n = None"
begin

lemma run_valid:
  "machine_run ap (Some c) steps = Inr (Some c', fs) \<Longrightarrow> valid c \<Longrightarrow> valid c'"
  by (rule machine_run_invariant) (auto intro: keeps_valid)

lemmas run_length = machine_run_length[of ap]

lemma run_rows:
  "machine_run ap n steps = Inr (n', fs) \<Longrightarrow>
     total_rows input_rows fs \<le> sum_list (map (max_input_rows \<circ> snd) steps) \<and>
     total_rows output_rows fs \<le> sum_list (map (max_output_rows \<circ> snd) steps)"
proof (induction steps arbitrary: n fs)
  case (Cons x steps)
  obtain r b where x: "x = (r, b)" by (cases x)
  obtain c n1 f fs' where step: "n = Some c" "ap c r b = Inr (n1, f)"
      "machine_run ap n1 steps = Inr (n', fs')" "fs = f # fs'"
    using Cons.prems x by (cases n) (auto simp: res_simps)
  then show ?case
    using Cons.IH[OF step(3)] within_budget[OF step(2)] x
    by (auto simp: res_simps within_def total_rows_def)
qed (simp add: total_rows_def)

text \<open>A frontier ends a run: it is the last thing a run emits, and it emits at most one.\<close>

lemma run_frontier_last:
  "machine_run ap n steps = Inr (n', fs) \<Longrightarrow> i < length fs \<Longrightarrow>
     is_frontier_output (pr_output (fs ! i)) \<Longrightarrow> i + 1 = length fs \<and> n' = None"
proof (induction steps arbitrary: n fs i)
  case (Cons x steps)
  obtain r b where x: "x = (r, b)" by (cases x)
  obtain c n1 f fs' where step: "n = Some c" "ap c r b = Inr (n1, f)"
      "machine_run ap n1 steps = Inr (n', fs')" "fs = f # fs'"
    using Cons.prems(1) x by (cases n) (auto simp: res_simps)
  show ?case
  proof (cases i)
    case 0
    then have "n1 = None" using frontier_last[OF step(2)] Cons.prems(3) step(4) by simp
    then have "steps = []" "n' = None" using step(3) by (cases steps; simp)+
    then show ?thesis using step(3,4) 0 by auto
  next
    case (Suc j)
    then show ?thesis using Cons.IH[OF step(3), of j] Cons.prems(2,3) step(4) by auto
  qed
qed simp

text \<open>A step on a continuation that is not valid commits nothing.\<close>

lemma run_rejects: "machine_run ap (Some c) (x # xs) = Inr y \<Longrightarrow> valid c"
  by (cases x) (auto simp: res_simps dest: rejects_invalid)

end

section \<open>Machines with drain epochs\<close>

text \<open>
  A drain epoch carries an identity (generation and completion target).  Inside an epoch a
  step keeps it; an epoch ends by handing over to the continuation its target names.
\<close>

locale draining_machine = resumable_machine valid ap
  for valid :: "'c \<Rightarrow> bool" and ap :: "('c, 'r) machine_apply" +
  fixes epoch :: "'c \<Rightarrow> 'e option"
    and resume :: "'c \<Rightarrow> 'e \<Rightarrow> 'c option"
  assumes epoch_kept:
    "ap c r b = Inr (n, f) \<Longrightarrow> epoch c = Some e \<Longrightarrow>
       (\<exists>c'. n = Some c' \<and> epoch c' = Some e \<and> resume c' e = resume c e) \<or> n = resume c e"
begin

text \<open>
  A run that starts inside an epoch stays in that epoch or passes through its resume point.
\<close>

lemma run_epoch:
  "machine_run ap (Some c) steps = Inr (n, fs) \<Longrightarrow> epoch c = Some e \<Longrightarrow>
     (\<exists>c'. n = Some c' \<and> epoch c' = Some e \<and> resume c' e = resume c e) \<or>
     (\<exists>k fs'. k \<le> length steps \<and> machine_run ap (Some c) (take k steps) = Inr (resume c e, fs'))"
proof (induction steps arbitrary: c n fs)
  case (Cons x steps)
  obtain r b where x: "x = (r, b)" by (cases x)
  obtain n1 f fs1 where step: "ap c r b = Inr (n1, f)" "machine_run ap n1 steps = Inr (n, fs1)"
    using Cons.prems(1) x by (auto simp: res_simps)
  consider (stay) c1 where "n1 = Some c1" "epoch c1 = Some e" "resume c1 e = resume c e"
    | (ended) "n1 = resume c e"
    using epoch_kept[OF step(1) Cons.prems(2)] by blast
  then show ?case
  proof cases
    case stay
    from Cons.IH[OF step(2)[unfolded stay(1)] stay(2)] show ?thesis
    proof
      assume "\<exists>c'. n = Some c' \<and> epoch c' = Some e \<and> resume c' e = resume c1 e"
      then show ?thesis using stay(3) by auto
    next
      assume "\<exists>k fs'. k \<le> length steps \<and> machine_run ap (Some c1) (take k steps) = Inr (resume c1 e, fs')"
      then obtain k fs' where "k \<le> length steps"
          "machine_run ap (Some c1) (take k steps) = Inr (resume c1 e, fs')" by blast
      then have "machine_run ap (Some c) (take (Suc k) (x # steps)) = Inr (resume c e, f # fs')"
        using step(1) stay x by simp
      then show ?thesis using \<open>k \<le> length steps\<close> by (metis Suc_le_mono length_Cons)
    qed
  next
    case ended
    then have "machine_run ap (Some c) (take 1 (x # steps)) = Inr (resume c e, [f])"
      using step(1) x by simp
    then show ?thesis by (metis One_nat_def Suc_le_mono le0 length_Cons)
  qed
qed auto

end

section \<open>Machines that work through a queue in stages\<close>

text \<open>
  The work of a drain: a queue of items, each taken through numbered stages.  A run stays in the
  drain when every continuation has a stage, and passes the stages of its continuations.
\<close>

definition in_drain ::
    "('c, 'r) machine_apply \<Rightarrow> ('c \<Rightarrow> (int \<times> nat) option) \<Rightarrow> 'c \<Rightarrow> ('r \<times> work_budget) list \<Rightarrow> bool"
  where
  "in_drain ap stage c steps \<longleftrightarrow>
     (\<forall>p \<le> length steps. \<exists>c' fs. machine_run ap (Some c) (take p steps) = Inr (Some c', fs) \<and>
        stage c' \<noteq> None)"

definition passes ::
    "('c, 'r) machine_apply \<Rightarrow> ('c \<Rightarrow> (int \<times> nat) option) \<Rightarrow> 'c \<Rightarrow> ('r \<times> work_budget) list
     \<Rightarrow> int \<times> nat \<Rightarrow> bool" where
  "passes ap stage c steps x \<longleftrightarrow>
     (\<exists>p \<le> length steps. \<exists>c' fs. machine_run ap (Some c) (take p steps) = Inr (Some c', fs) \<and>
        stage c' = Some x)"

lemma in_drain_stage:
  assumes "in_drain ap stage c steps" "p \<le> length steps"
    "machine_run ap (Some c) (take p steps) = Inr (Some c1, fs1)"
  obtains q j where "stage c1 = Some (q, j)"
proof -
  obtain c' fs where "machine_run ap (Some c) (take p steps) = Inr (Some c', fs)" "stage c' \<noteq> None"
    using assms(1,2) unfolding in_drain_def by blast
  then show ?thesis using assms(3) that by auto
qed

lemma passes_append: "passes ap stage c steps x \<Longrightarrow> passes ap stage c (steps @ [y]) x"
  unfolding passes_def by (metis le_Suc_eq length_append_singleton take_append
      append_Nil2 diff_is_0_eq take_eq_Nil)

lemma passes_last:
  "machine_run ap (Some c) steps = Inr (Some c', fs) \<Longrightarrow> stage c' = Some x \<Longrightarrow>
     passes ap stage c steps x"
  unfolding passes_def by (intro exI[of _ "length steps"]) auto

lemma in_drain_butlast: "in_drain ap stage c (steps @ [x]) \<Longrightarrow> in_drain ap stage c steps"
proof -
  assume d: "in_drain ap stage c (steps @ [x])"
  show ?thesis
    unfolding in_drain_def
  proof (intro allI impI)
    fix p assume p: "p \<le> length steps"
    then have "take p (steps @ [x]) = take p steps" by simp
    then show "\<exists>c' fs. machine_run ap (Some c) (take p steps) = Inr (Some c', fs) \<and> stage c' \<noteq> None"
      using d p unfolding in_drain_def by (metis le_SucI length_append_singleton)
  qed
qed

locale staged_machine =
  fixes ap :: "('c, 'r) machine_apply"
    and stage :: "'c \<Rightarrow> (int \<times> nat) option"
    and first :: nat
    and final :: "nat \<Rightarrow> bool"
  assumes stage_step:
    "ap c r b = Inr (Some c', f) \<Longrightarrow> stage c = Some (q, i) \<Longrightarrow> stage c' = Some (q', k) \<Longrightarrow>
       q' = q \<and> (k = i \<or> k = Suc i) \<or> q < q' \<and> k = first \<and> final i"
begin

text \<open>
  No item goes back and no stage is skipped: a run passes every stage between its start and its
  end, an item it has left up to a final stage, and one it has entered from the first.
\<close>

lemma run_stages:
  "machine_run ap (Some c) steps = Inr (Some c', fs) \<Longrightarrow> in_drain ap stage c steps \<Longrightarrow>
   stage c = Some (q, i) \<Longrightarrow> stage c' = Some (q', k) \<Longrightarrow>
     q \<le> q' \<and>
     (q' = q \<longrightarrow> i \<le> k \<and> (\<forall>j. i \<le> j \<and> j \<le> k \<longrightarrow> passes ap stage c steps (q, j))) \<and>
     (q < q' \<longrightarrow> (\<forall>j. first \<le> j \<and> j \<le> k \<longrightarrow> passes ap stage c steps (q', j)) \<and>
        (\<exists>l. final l \<and> i \<le> l \<and> (\<forall>j. i \<le> j \<and> j \<le> l \<longrightarrow> passes ap stage c steps (q, j))))"
proof (induction steps arbitrary: c' fs q' k rule: rev_induct)
  case Nil
  then show ?case using passes_last[of ap c "[]" c "[]" stage] by auto
next
  case (snoc x steps)
  obtain r b where x: "x = (r, b)" by (cases x)
  obtain c1 fs1 f where run: "machine_run ap (Some c) steps = Inr (Some c1, fs1)"
      and step: "ap c1 r b = Inr (Some c', f)"
    using snoc.prems(1) unfolding x machine_run_snoc by blast
  have drain: "in_drain ap stage c steps" using snoc.prems(2) by (rule in_drain_butlast)
  then obtain q1 k1 where s1: "stage c1 = Some (q1, k1)"
    using run in_drain_stage[OF drain, of "length steps" c1 fs1] by auto
  note IH = snoc.IH[OF run drain snoc.prems(3) s1]
  have last: "passes ap stage c (steps @ [x]) (q', k)" using snoc.prems(1,4) by (rule passes_last)
  have keep: "passes ap stage c steps y \<Longrightarrow> passes ap stage c (steps @ [x]) y" for y
    by (rule passes_append)
  have left: "\<exists>l. final l \<and> i \<le> l \<and> (\<forall>j. i \<le> j \<and> j \<le> l \<longrightarrow> passes ap stage c (steps @ [x]) (q, j))"
    if gone: "q < q1"
  proof -
    obtain l where "final l" "i \<le> l" "\<forall>j. i \<le> j \<and> j \<le> l \<longrightarrow> passes ap stage c steps (q, j)"
      using IH gone by blast
    then show ?thesis using keep by (intro exI[of _ l]) simp
  qed
  consider (same) "q' = q1" "k = k1" | (next_stage) "q' = q1" "k = Suc k1"
    | (later) "q1 < q'" "k = first" "final k1"
    using stage_step[OF step s1 snoc.prems(4)] by blast
  then show ?case
  proof cases
    case same
    then show ?thesis using IH keep left by simp
  next
    case next_stage
    show ?thesis
    proof (cases "q1 = q")
      case True
      have "passes ap stage c (steps @ [x]) (q, j)" if "i \<le> j" "j \<le> k" for j
        using IH keep last that next_stage True by (cases "j = k") auto
      then show ?thesis using IH next_stage True by simp
    next
      case False
      have "passes ap stage c (steps @ [x]) (q', j)" if "first \<le> j" "j \<le> k" for j
        using IH keep last that next_stage False by (cases "j = k") auto
      moreover have "q < q1" using IH False by simp
      ultimately show ?thesis using left next_stage by simp
    qed
  next
    case later
    have here: "passes ap stage c (steps @ [x]) (q', j)" if "first \<le> j \<and> j \<le> k" for j
      using that last later(2) by auto
    have "\<exists>l. final l \<and> i \<le> l \<and> (\<forall>j. i \<le> j \<and> j \<le> l \<longrightarrow> passes ap stage c (steps @ [x]) (q, j))"
    proof (cases "q1 = q")
      case True
      then have "i \<le> k1" "\<forall>j. i \<le> j \<and> j \<le> k1 \<longrightarrow> passes ap stage c (steps @ [x]) (q, j)"
        using IH keep by simp_all
      then show ?thesis using later(3) by blast
    next
      case False
      then show ?thesis using IH left by simp
    qed
    moreover have "q < q'" using IH later(1) by linarith
    ultimately show ?thesis using here by simp
  qed
qed

end

end
