(* ===== verification/TopN_Properties.thy ===== *)
theory TopN_Properties
  imports TopN_Machine Resumable_Machine
begin

text \<open>
  The TopN machine (\<open>src/execution/topn/machine.rs\<close>) keeps its continuation valid, stays
  within its budget, walks its drain epochs in order and emits only where it may.
\<close>

section \<open>Validation facts\<close>

lemma topn_input_Inr [res_simps]:
  "topn_validate_input i = Inr () \<longleftrightarrow>
     0 < ip_stream_id i \<and> 0 < ip_chunk_seq i \<and> 0 \<le> ip_row_ordinal i"
  by (auto simp: topn_validate_input_def)

lemma topn_generation_Inr [res_simps]: "topn_validate_generation g = Inr () \<longleftrightarrow> 0 < g"
  by (auto simp: topn_validate_generation_def)

lemma topn_after_Inr:
  "topn_validate_after stream after = Inr () \<longleftrightarrow> 0 < stream \<and>
     (case after of
        TAfterAdmit next \<Rightarrow> topn_validate_input next = Inr () \<and> ip_stream_id next = stream
      | TAfterFinish \<Rightarrow> True
      | TAfterFrontier f \<Rightarrow>
          topn_validate_input f = Inr () \<and> ip_stream_id f = stream \<and> ip_row_ordinal f = 0)"
  by (cases after) (auto simp: topn_validate_after_def bind_res_Inr)

lemma topn_no_output_Inr [res_simps]:
  "topn_no_output f = Inr () \<longleftrightarrow>
     pr_output f = NoOutput \<and> output_rows (pr_usage f) = 0 \<and> output_bytes (pr_usage f) = 0"
  by (auto simp: topn_no_output_def)

lemma topn_cursor_Inr [res_simps]:
  "topn_cursor_validate c = Inr () \<longleftrightarrow> \<not> non_positive (tc_row_id c)"
  by (auto simp: topn_cursor_validate_def)

lemma topn_diff_cursor_Inr [res_simps]:
  "topn_diff_cursor_validate c = Inr () \<longleftrightarrow>
     \<not> non_positive (td_row_id c) \<and> (td_repeat c \<longrightarrow> td_row_id c \<noteq> None)"
  by (auto simp: topn_diff_cursor_validate_def)

lemma selection_initial_valid: "selection_validate m (selection_initial (tm_offset m) (tm_limit m)) = Inr ()"
  by (simp add: selection_validate_def selection_initial_def topn_cursor_default_def
      topn_cursor_validate_def)

definition topn_valid :: "topn_machine \<Rightarrow> topn_continuation \<Rightarrow> bool" where
  "topn_valid m c \<longleftrightarrow> topn_validate m c = Inr ()"

lemma topn_valid_iff:
  "topn_valid m c \<longleftrightarrow> 0 < tn_input_stream_id c \<and>
     (case tn_phase c of
        TAdmit \<Rightarrow> \<exists>i. tn_input c = Some i \<and> topn_validate_input i = Inr () \<and>
                   ip_stream_id i = tn_input_stream_id c
      | TFrontier \<Rightarrow> \<exists>i. tn_input c = Some i \<and> topn_validate_input i = Inr () \<and>
                   ip_stream_id i = tn_input_stream_id c \<and> ip_row_ordinal i = 0
      | TSelect g p after \<Rightarrow> 0 < g \<and> selection_validate m p = Inr () \<and> tm_limit m \<noteq> 0 \<and>
          tn_input c = None \<and> topn_validate_after (tn_input_stream_id c) after = Inr ()
      | TDiff g leg cur after \<Rightarrow> 0 < g \<and> topn_diff_cursor_validate cur = Inr () \<and>
          tn_input c = None \<and> topn_validate_after (tn_input_stream_id c) after = Inr ()
      | TCleanup g cur after \<Rightarrow> 0 < g \<and> topn_cursor_validate cur = Inr () \<and>
          tn_input c = None \<and> topn_validate_after (tn_input_stream_id c) after = Inr ())"
  unfolding topn_valid_def topn_validate_def Let_def
  by (cases "tn_phase c") (auto simp: bind_res_Inr ok_or_Inr topn_generation_Inr)

lemma topn_action_Inr:
  "topn_action m c = Inr a \<longleftrightarrow> topn_valid m c \<and>
     (case tn_phase c of
        TAdmit \<Rightarrow> (\<exists>i. tn_input c = Some i \<and> a = ActAdmit i)
      | TSelect g p after \<Rightarrow> a = ActSelect g p
      | TDiff g leg cur after \<Rightarrow> a = ActDiff g leg cur
      | TCleanup g cur after \<Rightarrow> a = ActCleanup g cur
      | TFrontier \<Rightarrow> (\<exists>i. tn_input c = Some i \<and> a = ActFrontier i))"
  unfolding topn_action_def topn_valid_def
  by (cases "tn_phase c") (auto simp: bind_res_Inr ok_or_Inr)

section \<open>One transition, by phase\<close>

text \<open>The cases of a committed transition, with what each page has established.\<close>

lemma topn_applyE:
  assumes "topn_apply m c r b = Inr (n, f)"
  obtains
    (admit) i a where "tn_phase c = TAdmit" "tn_input c = Some i" "r = Admitted a"
      "topn_apply_admission m i a b = Inr (n, f)"
  | (select) g p after sel where "tn_phase c = TSelect g p after" "r = Selected sel"
      "topn_apply_selection m c g p sel b = Inr (n, f)"
  | (diff) g leg cur after page where "tn_phase c = TDiff g leg cur after" "r = Diffed page"
      "topn_apply_diff c g leg cur page b = Inr (n, f)"
  | (cleanup) g cur after page where "tn_phase c = TCleanup g cur after" "r = Cleaned page"
      "topn_apply_cleanup c g cur page b = Inr (n, f)"
  | (frontier) i where "tn_phase c = TFrontier" "tn_input c = Some i" "r = FrontierForwarded f"
      "topn_apply_frontier f b = Inr (n, f)"
proof -
  obtain act where act: "topn_action m c = Inr act"
      "(case (act, r) of
       (ActAdmit input, Admitted a) \<Rightarrow> topn_apply_admission m input a b
     | (ActSelect g p, Selected sel) \<Rightarrow> topn_apply_selection m c g p sel b
     | (ActDiff g leg cur, Diffed page) \<Rightarrow> topn_apply_diff c g leg cur page b
     | (ActCleanup g cur, Cleaned page) \<Rightarrow> topn_apply_cleanup c g cur page b
     | (ActFrontier input, FrontierForwarded f) \<Rightarrow> topn_apply_frontier f b
     | _ \<Rightarrow> Inl ''database returned facts for another TopN phase'') = Inr (n, f)"
    using assms by (auto simp: topn_apply_def bind_res_Inr)
  have frontier_facts: "f' = f" if "topn_apply_frontier f' b = Inr (n, f)" for f'
    using that by (auto simp: topn_apply_frontier_def res_simps split: if_splits)
  show thesis
  proof (cases "tn_phase c")
    case TFrontier
    then obtain f' where "r = FrontierForwarded f'" "topn_apply_frontier f' b = Inr (n, f)"
      using act by (cases r) (auto simp: topn_action_Inr)
    moreover obtain i where "tn_input c = Some i"
      using act TFrontier by (auto simp: topn_action_Inr)
    ultimately show thesis using frontier frontier_facts TFrontier by blast
  qed (use act admit select diff cleanup in \<open>cases r; auto simp: topn_action_Inr\<close>)+
qed

lemma topn_apply_valid: "topn_apply m c r b = Inr (n, f) \<Longrightarrow> topn_valid m c"
  by (auto simp: topn_apply_def bind_res_Inr topn_action_Inr)

lemma topn_selection_Inr:
  assumes "topn_apply_selection m c g previous sel b = Inr (n, f)" "tn_phase c = TSelect g previous after"
  shows "f = tp_facts (ts_page sel) \<and> topn_page_validate (ts_page sel) (sp_cursor previous) b False = Inr ()
     \<and> selection_validate m (ts_progress sel) = Inr ()
     \<and> validate_selection_progress m previous (ts_progress sel) (tp_complete (ts_page sel)) = Inr ()
     \<and> n = Some \<lparr>tn_input_stream_id = tn_input_stream_id c, tn_input = None,
          tn_phase = (if tp_complete (ts_page sel) then TDiff g TRemove topn_diff_cursor_default after
                      else TSelect g (ts_progress sel) after)\<rparr>"
  using assms by (auto simp: topn_apply_selection_def res_simps split: if_splits)

lemma topn_diff_Inr:
  assumes "topn_apply_diff c g leg cur page b = Inr (n, f)" "tn_phase c = TDiff g leg cur after"
  shows "f = dp_facts page \<and> topn_diff_page_validate page cur b = Inr ()
     \<and> n = Some \<lparr>tn_input_stream_id = tn_input_stream_id c, tn_input = None,
          tn_phase = (if \<not> dp_complete page
             then TDiff g leg \<lparr>td_row_id = dp_last_row_id page, td_repeat = dp_repeat_cursor page\<rparr> after
             else case leg of TRemove \<Rightarrow> TDiff g TAdd topn_diff_cursor_default after
                            | TAdd \<Rightarrow> TCleanup g topn_cursor_default after)\<rparr>"
  using assms by (auto simp: topn_apply_diff_def res_simps split: if_splits)

text \<open>Where a drain epoch hands over.\<close>

fun topn_resume :: "topn_continuation \<Rightarrow> int \<times> topn_after \<Rightarrow> topn_continuation option" where
  "topn_resume c (g, TAfterAdmit next) =
     Some \<lparr>tn_input_stream_id = tn_input_stream_id c, tn_input = Some next, tn_phase = TAdmit\<rparr>"
| "topn_resume c (g, TAfterFinish) = None"
| "topn_resume c (g, TAfterFrontier f) =
     Some \<lparr>tn_input_stream_id = tn_input_stream_id c, tn_input = Some f, tn_phase = TFrontier\<rparr>"

lemma topn_cleanup_Inr:
  assumes "topn_apply_cleanup c g cur page b = Inr (n, f)" "tn_phase c = TCleanup g cur after"
  shows "f = tp_facts page \<and> topn_page_validate page cur b False = Inr ()
     \<and> n = (if \<not> tp_complete page
            then Some \<lparr>tn_input_stream_id = tn_input_stream_id c, tn_input = None,
                       tn_phase = TCleanup g \<lparr>tc_row_id = tp_last_row_id page\<rparr> after\<rparr>
            else topn_resume c (g, after))"
  using assms by (cases after) (auto simp: topn_apply_cleanup_def res_simps split: if_splits)

lemma topn_admission_Inr:
  assumes "topn_apply_admission m i a b = Inr (n, f)"
  shows "f = ta_facts a \<and> primitive_validate f b = Inr () \<and> topn_no_output f = Inr ()
     \<and> 0 < input_rows (pr_usage f)
     \<and> (case n of None \<Rightarrow> ta_target a = TIdle | Some c' \<Rightarrow> topn_valid m c')
     \<and> (\<forall>next. ta_target a = TContinue next \<longrightarrow> ip_stream_id next = ip_stream_id i \<and>
          ip_chunk_seq next = ip_chunk_seq i \<and> ip_row_ordinal i < ip_row_ordinal next \<and>
          n = Some \<lparr>tn_input_stream_id = ip_stream_id i, tn_input = Some next, tn_phase = TAdmit\<rparr>)
     \<and> (\<forall>g after. ta_target a = TDrain g after \<longrightarrow>
          n = Some \<lparr>tn_input_stream_id = ip_stream_id i, tn_input = None,
                 tn_phase = (if tm_limit m = 0 then TDiff g TRemove topn_diff_cursor_default after
                   else TSelect g (selection_initial (tm_offset m) (tm_limit m)) after)\<rparr>)"
proof -
  have n: "f = ta_facts a" "primitive_validate f b = Inr ()" "topn_no_output f = Inr ()"
      "0 < input_rows (pr_usage f)"
      "(case n of None \<Rightarrow> Inr () | Some c' \<Rightarrow> topn_validate m c') = Inr ()"
    using assms by (auto simp: topn_apply_admission_def bind_res_Inr bind_res_unit split: if_splits)
  have target: "(case ta_target a of TIdle \<Rightarrow> n = None
     | TContinue next \<Rightarrow> ip_stream_id next = ip_stream_id i \<and>
          ip_chunk_seq next = ip_chunk_seq i \<and> ip_row_ordinal i < ip_row_ordinal next \<and>
          n = Some \<lparr>tn_input_stream_id = ip_stream_id i, tn_input = Some next, tn_phase = TAdmit\<rparr>
     | TDrain g after \<Rightarrow>
          n = Some \<lparr>tn_input_stream_id = ip_stream_id i, tn_input = None,
                 tn_phase = (if tm_limit m = 0 then TDiff g TRemove topn_diff_cursor_default after
                   else TSelect g (selection_initial (tm_offset m) (tm_limit m)) after)\<rparr>)"
    using assms
    by (cases "ta_target a")
      (auto simp: topn_apply_admission_def bind_res_Inr bind_res_unit split: if_splits)
  show ?thesis
    using n target by (cases "ta_target a") (auto simp: topn_valid_def split: option.splits)
qed

lemma topn_frontier_Inr:
  "topn_apply_frontier f' b = Inr (n, f) \<longleftrightarrow>
     f' = f \<and> n = None \<and> validate_protocol f b PhFrontier Finished = Inr () \<and>
     is_frontier_output (pr_output f) \<and> input_rows (pr_usage f) = 0 \<and> input_bytes (pr_usage f) = 0"
  by (auto simp: topn_apply_frontier_def res_simps split: if_splits)

section \<open>Page facts\<close>

lemma topn_page_Inr:
  "topn_page_validate p prev b False = Inr () \<Longrightarrow>
     primitive_validate (tp_facts p) b = Inr () \<and> topn_no_output (tp_facts p) = Inr () \<and>
     \<not> non_positive (tp_last_row_id p) \<and>
     (\<not> tp_complete p \<longrightarrow> 0 < input_rows (pr_usage (tp_facts p)) \<and> tp_last_row_id p \<noteq> None \<and>
        \<not> opt_less (tp_last_row_id p) (tc_row_id prev))"
  by (auto simp: topn_page_validate_def bind_res_Inr bind_res_unit split: if_splits)

lemma topn_diff_page_Inr:
  "topn_diff_page_validate p prev b = Inr () \<Longrightarrow>
     primitive_validate (dp_facts p) b = Inr () \<and>
     \<not> non_positive (dp_last_row_id p) \<and>
     (dp_repeat_cursor p \<longrightarrow> \<not> dp_complete p \<and> dp_last_row_id p \<noteq> None) \<and>
     (\<not> dp_complete p \<longrightarrow> 0 < input_rows (pr_usage (dp_facts p)) \<and> dp_last_row_id p \<noteq> None \<and>
        \<not> opt_less (dp_last_row_id p) (td_row_id prev) \<and>
        (dp_last_row_id p = td_row_id prev \<longrightarrow> td_repeat prev)) \<and>
     \<not> is_frontier_output (pr_output (dp_facts p)) \<and>
     output_rows (pr_usage (dp_facts p)) \<le> input_rows (pr_usage (dp_facts p))"
  by (auto simp: topn_diff_page_validate_def bind_res_Inr bind_res_unit split: if_splits)

section \<open>The machine contract\<close>

lemma topn_keeps_valid:
  assumes "topn_apply m c r b = Inr (Some c', f)"
  shows "topn_valid m c'"
proof -
  have v: "topn_valid m c" using assms by (rule topn_apply_valid)
  from assms show ?thesis
  proof (cases rule: topn_applyE)
    case (admit i a)
    then show ?thesis using topn_admission_Inr by fastforce
  next
    case (select g p after sel)
    then show ?thesis
      using topn_selection_Inr[OF select(3,1)] v
      by (auto simp: topn_valid_iff topn_diff_cursor_Inr topn_diff_cursor_default_def)
  next
    case (diff g leg cur after page)
    then show ?thesis
      using topn_diff_Inr[OF diff(3,1)] topn_diff_page_Inr v
      by (cases leg) (auto simp: topn_valid_iff topn_diff_cursor_Inr topn_cursor_Inr
          topn_diff_cursor_default_def topn_cursor_default_def)
  next
    case (cleanup g cur after page)
    then show ?thesis
      using topn_cleanup_Inr[OF cleanup(3,1)] topn_page_Inr v
      by (cases after) (auto simp: topn_valid_iff topn_cursor_Inr topn_after_Inr split: if_splits)
  next
    case (frontier i)
    then show ?thesis by (simp add: topn_frontier_Inr)
  qed
qed

lemma topn_within_budget:
  assumes "topn_apply m c r b = Inr (n, f)"
  shows "primitive_validate f b = Inr ()"
  using assms
  by (cases rule: topn_applyE)
    (auto dest!: topn_admission_Inr topn_selection_Inr topn_diff_Inr topn_cleanup_Inr
      topn_page_Inr topn_diff_page_Inr simp: topn_frontier_Inr validate_protocol_Inr)

lemma topn_frontier_only:
  assumes "topn_apply m c r b = Inr (n, f)" "is_frontier_output (pr_output f)"
  shows "n = None \<and> tn_phase c = TFrontier"
  using assms
  by (cases rule: topn_applyE)
    (auto dest!: topn_admission_Inr topn_selection_Inr topn_diff_Inr topn_cleanup_Inr
      topn_page_Inr topn_diff_page_Inr simp: topn_frontier_Inr topn_no_output_Inr)

fun topn_epoch :: "topn_continuation \<Rightarrow> (int \<times> topn_after) option" where
  "topn_epoch c =
     (case tn_phase c of
        TSelect g p after \<Rightarrow> Some (g, after)
      | TDiff g leg cur after \<Rightarrow> Some (g, after)
      | TCleanup g cur after \<Rightarrow> Some (g, after)
      | _ \<Rightarrow> None)"

lemma topn_resume_stream:
  "tn_input_stream_id c = tn_input_stream_id c' \<Longrightarrow> topn_resume c e = topn_resume c' e"
  by (cases e; cases "snd e") auto

lemma topn_epoch_kept:
  assumes "topn_apply m c r b = Inr (n, f)" "topn_epoch c = Some e"
  shows "(\<exists>c'. n = Some c' \<and> topn_epoch c' = Some e \<and> topn_resume c' e = topn_resume c e) \<or>
    n = topn_resume c e"
  using assms(1)
proof (cases rule: topn_applyE)
  case (select g p after sel)
  then show ?thesis
    using topn_selection_Inr[OF select(3,1)] assms(2)
    by (auto intro!: topn_resume_stream split: if_splits)
next
  case (diff g leg cur after page)
  then show ?thesis
    using topn_diff_Inr[OF diff(3,1)] assms(2)
    by (cases leg) (auto intro!: topn_resume_stream split: if_splits)
next
  case (cleanup g cur after page)
  then show ?thesis
    using topn_cleanup_Inr[OF cleanup(3,1)] assms(2)
    by (auto intro!: topn_resume_stream split: if_splits)
qed (use assms(2) in auto)

interpretation topn: draining_machine "topn_valid m" "topn_apply m" topn_epoch topn_resume
  for m
  by unfold_locales
    (blast intro: topn_apply_valid topn_keeps_valid topn_within_budget
      dest: topn_frontier_only topn_epoch_kept)+

section \<open>The discipline of a selection\<close>

text \<open>
  What a persisted selection has established: nothing is selected before OFFSET is skipped,
  and LIMIT is used up exactly when the tie boundary is known.
\<close>

definition selection_inv :: "topn_machine \<Rightarrow> selection_progress \<Rightarrow> bool" where
  "selection_inv m p \<longleftrightarrow>
     (0 < sp_offset_remaining p \<longrightarrow> sp_limit_remaining p = tm_limit m) \<and>
     (sp_limit_remaining p = 0 \<longleftrightarrow> sp_tie_boundary p \<noteq> None) \<and>
     (sp_tie_boundary p \<noteq> None \<longrightarrow> tm_with_ties m \<and> sp_offset_remaining p = 0)"

lemma selection_inv_initial:
  "tm_limit m \<noteq> 0 \<Longrightarrow> selection_inv m (selection_initial (tm_offset m) (tm_limit m))"
  by (simp add: selection_inv_def selection_initial_def)

lemma selection_validate_Inr:
  "selection_validate m p = Inr () \<longleftrightarrow>
     \<not> non_positive (tc_row_id (sp_cursor p)) \<and> \<not> non_positive (sp_tie_boundary p) \<and>
     sp_offset_remaining p \<le> tm_offset m \<and> sp_limit_remaining p \<le> tm_limit m \<and>
     (sp_tie_boundary p \<noteq> None \<longrightarrow>
        tm_with_ties m \<and> sp_offset_remaining p = 0 \<and> sp_limit_remaining p = 0)"
  by (auto simp: selection_validate_def bind_res_unit topn_cursor_Inr)

lemma selection_progress_Inr:
  "validate_selection_progress m p q complete = Inr () \<longleftrightarrow>
     sp_offset_remaining q \<le> sp_offset_remaining p \<and> sp_limit_remaining q \<le> sp_limit_remaining p \<and>
     (0 < sp_offset_remaining q \<longrightarrow>
        sp_limit_remaining q = sp_limit_remaining p \<and> sp_tie_boundary q = sp_tie_boundary p) \<and>
     (sp_tie_boundary p \<noteq> None \<longrightarrow> sp_tie_boundary q = sp_tie_boundary p) \<and>
     (\<not> complete \<longrightarrow> tc_row_id (sp_cursor q) \<noteq> None \<and>
        (sp_limit_remaining q = 0 \<longrightarrow> tm_with_ties m \<and> sp_tie_boundary q \<noteq> None))"
  by (auto simp: validate_selection_progress_def)

lemma selection_inv_step:
  assumes "selection_inv m p" "selection_validate m q = Inr ()"
    "validate_selection_progress m p q False = Inr ()"
  shows "selection_inv m q"
proof -
  note facts = assms(1)[unfolded selection_inv_def] assms(2)[unfolded selection_validate_Inr]
    assms(3)[unfolded selection_progress_Inr]
  have "sp_limit_remaining q = tm_limit m" if "0 < sp_offset_remaining q"
    using that facts by linarith
  moreover have "sp_limit_remaining q = 0 \<longleftrightarrow> sp_tie_boundary q \<noteq> None"
    using facts by blast
  ultimately show ?thesis using facts unfolding selection_inv_def by blast
qed

definition selecting :: "topn_machine \<Rightarrow> topn_continuation \<Rightarrow> bool" where
  "selecting m c \<longleftrightarrow>
     (case tn_phase c of TSelect g p after \<Rightarrow> selection_inv m p | _ \<Rightarrow> True)"

lemma topn_keeps_selecting:
  assumes "topn_apply m c r b = Inr (Some c', f)" "selecting m c"
  shows "selecting m c'"
  using assms(1)
proof (cases rule: topn_applyE)
  case (admit i a)
  note a = topn_admission_Inr[OF admit(4)]
  show ?thesis
  proof (cases "ta_target a")
    case (TContinue i')
    then have "tn_phase c' = TAdmit" using a by auto
    then show ?thesis by (simp add: selecting_def)
  next
    case (TDrain g after)
    then have "c' = \<lparr>tn_input_stream_id = ip_stream_id i, tn_input = None,
        tn_phase = (if tm_limit m = 0 then TDiff g TRemove topn_diff_cursor_default after
                    else TSelect g (selection_initial (tm_offset m) (tm_limit m)) after)\<rparr>"
      using a by blast
    then show ?thesis using selection_inv_initial[of m] by (simp add: selecting_def)
  next
    case TIdle
    then have False using admit(4) by (auto simp: topn_apply_admission_def res_simps)
    then show ?thesis ..
  qed
next
  case (select g p after sel)
  then show ?thesis
    using topn_selection_Inr[OF select(3,1)] assms(2) selection_inv_step[of m p "ts_progress sel"]
    by (auto simp: selecting_def)
next
  case (diff g leg cur after page)
  then show ?thesis
    using topn_diff_Inr[OF diff(3,1)] by (cases leg) (auto simp: selecting_def)
next
  case (cleanup g cur after page)
  then show ?thesis
    using topn_cleanup_Inr[OF cleanup(3,1)]
    by (cases after) (auto simp: selecting_def split: if_splits)
qed (simp add: topn_frontier_Inr)

section \<open>Output\<close>

lemma topn_output_phase:
  assumes "topn_apply m c r b = Inr (n, f)" "pr_output f \<noteq> NoOutput"
  shows "if is_frontier_output (pr_output f) then tn_phase c = TFrontier \<and> n = None
    else topn_kind_of (tn_phase c) = KDiff \<and> output_rows (pr_usage f) \<le> input_rows (pr_usage f)"
  using assms
  by (cases rule: topn_applyE)
    (auto dest!: topn_admission_Inr topn_selection_Inr topn_diff_Inr topn_cleanup_Inr
      topn_page_Inr topn_diff_page_Inr simp: topn_frontier_Inr topn_no_output_Inr)

end
