(* ===== verification/TopN_Guarantees.thy ===== *)
theory TopN_Guarantees
  imports TopN_Properties
begin

text \<open>
  The guarantees of the TopN machine (\<open>src/execution/topn/machine.rs\<close>) over whole runs, with a
  concrete run through one drain epoch as their witness.
\<close>

section \<open>A concrete run\<close>

definition tw_budget :: work_budget where
  "tw_budget = \<lparr>max_input_rows = 10, max_input_bytes = 1000,
                max_output_rows = 10, max_output_bytes = 1000\<rparr>"

definition tw_facts :: "nat \<Rightarrow> nat \<Rightarrow> output_facts \<Rightarrow> primitive_facts" where
  "tw_facts rows out fx =
     \<lparr>pr_usage = \<lparr>input_rows = rows, input_bytes = 10 * rows, output_rows = out,
                  output_bytes = 10 * out\<rparr>, pr_state_rows = rows, pr_output = fx\<rparr>"

definition tw_machine :: topn_machine where
  "tw_machine = \<lparr>tm_limit = 2, tm_offset = 1, tm_with_ties = True\<rparr>"

definition tw_start :: topn_continuation where
  "tw_start = \<lparr>tn_input_stream_id = 1,
     tn_input = Some \<lparr>ip_stream_id = 1, ip_chunk_seq = 4, ip_row_ordinal = 0\<rparr>, tn_phase = TAdmit\<rparr>"

definition tw_after :: topn_after where
  "tw_after = TAfterFrontier \<lparr>ip_stream_id = 1, ip_chunk_seq = 5, ip_row_ordinal = 0\<rparr>"

definition tw_steps :: "(topn_result \<times> work_budget) list" where
  "tw_steps = map (\<lambda>r. (r, tw_budget))
     [Admitted \<lparr>ta_facts = tw_facts 3 0 NoOutput, ta_target = TDrain 7 tw_after\<rparr>,
      Selected \<lparr>ts_page = \<lparr>tp_facts = tw_facts 3 0 NoOutput, tp_last_row_id = Some 4,
                           tp_complete = False\<rparr>,
                ts_progress = \<lparr>sp_cursor = \<lparr>tc_row_id = Some 4\<rparr>, sp_offset_remaining = 0,
                               sp_limit_remaining = 0, sp_tie_boundary = Some 4\<rparr>\<rparr>,
      Selected \<lparr>ts_page = \<lparr>tp_facts = tw_facts 1 0 NoOutput, tp_last_row_id = Some 5,
                           tp_complete = True\<rparr>,
                ts_progress = \<lparr>sp_cursor = \<lparr>tc_row_id = Some 5\<rparr>, sp_offset_remaining = 0,
                               sp_limit_remaining = 0, sp_tie_boundary = Some 4\<rparr>\<rparr>,
      Diffed \<lparr>dp_facts = tw_facts 1 1 (DataOutput 9), dp_last_row_id = Some 3,
              dp_complete = False, dp_repeat_cursor = True\<rparr>,
      Diffed \<lparr>dp_facts = tw_facts 1 1 (DataOutput 10), dp_last_row_id = Some 3,
              dp_complete = True, dp_repeat_cursor = False\<rparr>,
      Diffed \<lparr>dp_facts = tw_facts 2 2 (DataOutput 11), dp_last_row_id = Some 5,
              dp_complete = True, dp_repeat_cursor = False\<rparr>,
      Cleaned \<lparr>tp_facts = tw_facts 2 0 NoOutput, tp_last_row_id = Some 5, tp_complete = True\<rparr>,
      FrontierForwarded (tw_facts 0 0 (FrontierOutput 12))]"

lemmas tw_defs = tw_budget_def tw_facts_def tw_machine_def tw_start_def tw_after_def tw_steps_def

lemmas topn_defs =
  topn_apply_def topn_action_def topn_validate_def topn_apply_admission_def
  topn_apply_selection_def topn_apply_diff_def topn_apply_cleanup_def topn_apply_frontier_def
  topn_page_validate_def topn_diff_page_validate_def validate_selection_progress_def
  selection_validate_def selection_initial_def topn_cursor_default_def
  topn_diff_cursor_default_def topn_cursor_validate_def topn_diff_cursor_validate_def
  topn_validate_input_def topn_validate_generation_def topn_validate_after_def
  topn_no_output_def primitive_validate_def page_facts_validate_def usage_validate_def
  validate_dimension_def validate_protocol_def

lemma tw_run:
  "machine_run (topn_apply tw_machine) (Some tw_start) tw_steps =
     Inr (None, [tw_facts 3 0 NoOutput, tw_facts 3 0 NoOutput, tw_facts 1 0 NoOutput,
       tw_facts 1 1 (DataOutput 9), tw_facts 1 1 (DataOutput 10), tw_facts 2 2 (DataOutput 11),
       tw_facts 2 0 NoOutput, tw_facts 0 0 (FrontierOutput 12)])"
  by (simp add: tw_defs topn_defs Let_def)

definition tw_selecting :: topn_continuation where
  "tw_selecting = \<lparr>tn_input_stream_id = 1, tn_input = None,
     tn_phase = TSelect 7 \<lparr>sp_cursor = \<lparr>tc_row_id = Some 4\<rparr>, sp_offset_remaining = 0,
       sp_limit_remaining = 0, sp_tie_boundary = Some 4\<rparr> tw_after\<rparr>"

lemma tw_run_selecting:
  "machine_run (topn_apply tw_machine) (Some tw_start) (take 2 tw_steps) =
     Inr (Some tw_selecting, [tw_facts 3 0 NoOutput, tw_facts 3 0 NoOutput])"
  by (simp add: tw_defs topn_defs tw_selecting_def Let_def)

lemma tw_run_drain:
  "machine_run (topn_apply tw_machine) (Some tw_selecting) (drop 2 (take 7 tw_steps)) =
     Inr (topn_resume tw_selecting (7, tw_after),
       [tw_facts 1 0 NoOutput, tw_facts 1 1 (DataOutput 9), tw_facts 1 1 (DataOutput 10),
        tw_facts 2 2 (DataOutput 11), tw_facts 2 0 NoOutput])"
  by (simp add: tw_defs topn_defs tw_selecting_def Let_def)

section \<open>Guarantees\<close>

text \<open>
  C17: Every run of the TopN machine from a valid continuation leaves a valid continuation or
  none.  It reports one set of facts per committed primitive, whose rows stay within the sum of
  the budgets, and a frontier is emitted only by the last primitive of a run, which leaves no
  continuation behind.\<close>

theorem topn_run_contract:
  assumes "topn_valid m c" "machine_run (topn_apply m) (Some c) steps = Inr (n, fs)"
  shows "(case n of None \<Rightarrow> True | Some c' \<Rightarrow> topn_valid m c') \<and>
    length fs = length steps \<and>
    total_rows input_rows fs \<le> sum_list (map (max_input_rows \<circ> snd) steps) \<and>
    total_rows output_rows fs \<le> sum_list (map (max_output_rows \<circ> snd) steps) \<and>
    (\<forall>i < length fs. is_frontier_output (pr_output (fs ! i)) \<longrightarrow> i + 1 = length fs \<and> n = None)"
  using topn.run_valid[of m c steps _ fs] topn.run_length[OF assms(2)] topn.run_rows[OF assms(2)]
    topn.run_frontier_last[OF assms(2)] assms
  by (auto split: option.splits)

theorem topn_run_contract_witness:
  "length tw_steps = 8 \<and> total_rows output_rows
     [tw_facts 3 0 NoOutput, tw_facts 3 0 NoOutput, tw_facts 1 0 NoOutput,
       tw_facts 1 1 (DataOutput 9), tw_facts 1 1 (DataOutput 10), tw_facts 2 2 (DataOutput 11),
       tw_facts 2 0 NoOutput, tw_facts 0 0 (FrontierOutput 12)] \<le> 80"
proof -
  have "topn_valid tw_machine tw_start"
    by (simp add: topn_valid_def tw_defs topn_defs)
  from topn_run_contract[OF this tw_run] show ?thesis
    by (simp add: tw_steps_def tw_budget_def)
qed

text \<open>
  C18: A run that starts inside a drain epoch (candidate generation and completion target) is
  either still in the same epoch, or one of its prefixes ends exactly at the continuation that
  the epoch's target names: the next admission position, the frontier, or none.\<close>

theorem topn_drain_epoch:
  assumes "machine_run (topn_apply m) (Some c) steps = Inr (n, fs)" "topn_epoch c = Some e"
  shows "(\<exists>c'. n = Some c' \<and> topn_epoch c' = Some e \<and> topn_resume c' e = topn_resume c e) \<or>
    (\<exists>k fs'. k \<le> length steps \<and>
       machine_run (topn_apply m) (Some c) (take k steps) = Inr (topn_resume c e, fs'))"
  using topn.run_epoch[OF assms] .

theorem topn_drain_epoch_witness:
  "\<exists>k fs'. k \<le> 5 \<and>
     machine_run (topn_apply tw_machine) (Some tw_selecting) (take k (drop 2 (take 7 tw_steps)))
       = Inr (Some \<lparr>tn_input_stream_id = 1,
           tn_input = Some \<lparr>ip_stream_id = 1, ip_chunk_seq = 5, ip_row_ordinal = 0\<rparr>,
           tn_phase = TFrontier\<rparr>, fs')"
proof -
  have epoch: "topn_epoch tw_selecting = Some (7, tw_after)" by (simp add: tw_selecting_def)
  have resume: "topn_resume tw_selecting (7, tw_after) = Some \<lparr>tn_input_stream_id = 1,
      tn_input = Some \<lparr>ip_stream_id = 1, ip_chunk_seq = 5, ip_row_ordinal = 0\<rparr>,
      tn_phase = TFrontier\<rparr>"
    by (simp add: tw_selecting_def tw_after_def)
  have len: "length (drop 2 (take 7 tw_steps)) = 5" by (simp add: tw_steps_def)
  show ?thesis
    using topn_drain_epoch[OF tw_run_drain epoch] unfolding resume len by simp
qed

text \<open>
  C35: In every selection that a run persists, starting outside a selection, no row was selected
  before OFFSET was used up, LIMIT is used up exactly when the tie boundary is stored, and a
  boundary is stored only WITH TIES and only after OFFSET.\<close>

theorem topn_selection_discipline:
  assumes "machine_run (topn_apply m) (Some c) steps = Inr (Some c', fs)"
    "topn_kind_of (tn_phase c) \<noteq> KSelect" "tn_phase c' = TSelect g p after"
  shows "(0 < sp_offset_remaining p \<longrightarrow> sp_limit_remaining p = tm_limit m) \<and>
    (sp_limit_remaining p = 0 \<longleftrightarrow> sp_tie_boundary p \<noteq> None) \<and>
    (sp_tie_boundary p \<noteq> None \<longrightarrow> tm_with_ties m \<and> sp_offset_remaining p = 0)"
proof -
  have "selecting m c" using assms(2) by (cases "tn_phase c") (auto simp: selecting_def)
  then have "selecting m c'"
    using machine_run_invariant[OF assms(1), of "selecting m"] topn_keeps_selecting by blast
  then show ?thesis using assms(3) by (simp add: selecting_def selection_inv_def)
qed

theorem topn_selection_discipline_witness:
  "sp_tie_boundary \<lparr>sp_cursor = \<lparr>tc_row_id = Some 4\<rparr>, sp_offset_remaining = 0,
       sp_limit_remaining = 0, sp_tie_boundary = Some (4::int)\<rparr> \<noteq> None \<and> tm_with_ties tw_machine"
proof -
  have "topn_kind_of (tn_phase tw_start) \<noteq> KSelect" by (simp add: tw_start_def)
  moreover have "tn_phase tw_selecting = TSelect 7 \<lparr>sp_cursor = \<lparr>tc_row_id = Some 4\<rparr>,
      sp_offset_remaining = 0, sp_limit_remaining = 0, sp_tie_boundary = Some 4\<rparr> tw_after"
    by (simp add: tw_selecting_def)
  ultimately show ?thesis using topn_selection_discipline[OF tw_run_selecting] by simp
qed

text \<open>
  A Diff step moves forward: a page that is not complete advances the row cursor strictly,
  unless the cursor was marked to repeat its row; a complete page ends its leg, the removals
  before the additions and the additions before the cleanup.  It emits data only, and no more
  rows than it compared.\<close>

theorem topn_diff_progress:
  assumes "topn_apply m c r b = Inr (n, f)" "tn_phase c = TDiff g leg cur after"
  shows "\<not> is_frontier_output (pr_output f) \<and>
    output_rows (pr_usage f) \<le> input_rows (pr_usage f) \<and>
    (\<exists>c'. n = Some c' \<and> tn_input_stream_id c' = tn_input_stream_id c \<and>
       ((\<exists>cur'. tn_phase c' = TDiff g leg cur' after \<and> 0 < input_rows (pr_usage f) \<and>
          (opt_less (td_row_id cur) (td_row_id cur') \<or>
           td_repeat cur \<and> td_row_id cur' = td_row_id cur)) \<or>
        leg = TRemove \<and> tn_phase c' = TDiff g TAdd topn_diff_cursor_default after \<or>
        leg = TAdd \<and> tn_phase c' = TCleanup g topn_cursor_default after))"
  using assms(1)
proof (cases rule: topn_applyE)
  case (diff g' leg' cur' after' page)
  have "\<not> opt_less x y \<Longrightarrow> (x = y \<longrightarrow> P) \<Longrightarrow> opt_less y x \<or> P \<and> x = y" for x y P
    by (cases x; cases y) auto
  then show ?thesis
    using diff assms(2) topn_diff_Inr[OF diff(3,1)] topn_diff_page_Inr[of page cur b]
    by (cases leg) auto
qed (use assms(2) in auto)

theorem topn_diff_progress_witness:
  "output_rows (pr_usage (tw_facts 1 1 (DataOutput 9))) \<le> 1"
proof -
  have "topn_apply tw_machine \<lparr>tn_input_stream_id = 1, tn_input = None,
      tn_phase = TDiff 7 TRemove \<lparr>td_row_id = Some 3, td_repeat = True\<rparr> TAfterFinish\<rparr>
      (Diffed \<lparr>dp_facts = tw_facts 1 1 (DataOutput 9), dp_last_row_id = Some 3,
              dp_complete = False, dp_repeat_cursor = False\<rparr>) tw_budget =
    Inr (Some \<lparr>tn_input_stream_id = 1, tn_input = None,
      tn_phase = TDiff 7 TRemove \<lparr>td_row_id = Some 3, td_repeat = False\<rparr> TAfterFinish\<rparr>,
      tw_facts 1 1 (DataOutput 9))"
    by (simp add: tw_defs topn_defs Let_def)
  from topn_diff_progress[OF this] show ?thesis by (simp add: tw_facts_def)
qed

end
