(* ===== verification/Continuation_Codec.thy ===== *)
theory Continuation_Codec
  imports Kernel_Contract
begin

text \<open>
  The interface between an operator's continuation and its durable row.  Every kernel encodes
  its typed continuation into a row of columns and decodes the row it has locked
  (\<open>src/execution/*/runtime.rs\<close>); the replacement in \<open>src/execution/continuation.rs\<close> compares
  the encoded old row column by column.  What it relies on: decoding inverts encoding on the
  valid continuations, and a decoded row is encoded back to itself, so the comparison finds it.
\<close>

locale continuation_codec =
  fixes valid :: "'c \<Rightarrow> bool"
    and canonical :: "'f \<Rightarrow> bool"
    and encode :: "'c \<Rightarrow> 'f result"
    and decode :: "'f \<Rightarrow> 'c result"
  assumes decode_encode: "valid c \<Longrightarrow> \<exists>f. encode c = Inr f \<and> canonical f \<and> decode f = Inr c"
    and encode_decode: "canonical f \<Longrightarrow> decode f = Inr c \<Longrightarrow> encode c = Inr f"
begin

lemma encode_inj: "valid c \<Longrightarrow> valid c' \<Longrightarrow> encode c = encode c' \<Longrightarrow> c = c'"
  by (metis Inr_inject decode_encode)

lemma decode_inj: "canonical f \<Longrightarrow> canonical f' \<Longrightarrow> decode f = Inr c \<Longrightarrow> decode f' = Inr c \<Longrightarrow> f = f'"
  by (metis Inr_inject encode_decode)

text \<open>A valid continuation has exactly one canonical row that decodes to it.\<close>

lemma row_unique: "valid c \<Longrightarrow> canonical f \<Longrightarrow> (decode f = Inr c) = (encode c = Inr f)"
  by (metis Inr_inject decode_encode encode_decode)

end

end
