(* ===== verification/TopN_Codec.thy ===== *)
theory TopN_Codec
  imports TopN_Properties Continuation_Codec Number_Text
begin

text \<open>
  The durable form of a TopN continuation (\<open>src/execution/topn/runtime.rs\<close>): the columns of its
  row, the decoder that rejects every mixture of phases, and the encoder.
\<close>

section \<open>Rows\<close>

record topn_fields =
  tf_phase :: int
  tf_input_stream_id :: int
  tf_input_chunk_seq :: "int option"
  tf_input_row_ordinal :: "int option"
  tf_generation_id :: "int option"
  tf_cursor_row_id :: "int option"
  tf_cursor_repeat :: bool
  tf_offset_remaining :: "string option"
  tf_limit_remaining :: "string option"
  tf_tie_boundary_row_id :: "int option"
  tf_diff_leg :: "int option"
  tf_after_kind :: "int option"
  tf_after_chunk_seq :: "int option"
  tf_after_row_ordinal :: "int option"

definition topn_present :: "topn_fields \<Rightarrow> nat \<Rightarrow> bool" where
  "topn_present f i =
     (if i = 4 then tf_generation_id f \<noteq> None
      else if i = 5 then tf_cursor_row_id f \<noteq> None
      else if i = 6 then tf_cursor_repeat f
      else if i = 7 then tf_offset_remaining f \<noteq> None
      else if i = 8 then tf_limit_remaining f \<noteq> None
      else if i = 9 then tf_tie_boundary_row_id f \<noteq> None
      else if i = 10 then tf_diff_leg f \<noteq> None
      else if i = 11 then tf_after_kind f \<noteq> None
      else if i = 12 then tf_after_chunk_seq f \<noteq> None
      else if i = 13 then tf_after_row_ordinal f \<noteq> None
      else True)"

definition require_topn_nulls :: "topn_fields \<Rightarrow> nat list \<Rightarrow> unit result" where
  "require_topn_nulls f ordinals =
     (if list_ex (topn_present f) ordinals
      then Inl ''TopN continuation contains fields from another phase'' else Inr ())"

definition topn_decode_after ::
    "int \<Rightarrow> int option \<Rightarrow> int option \<Rightarrow> int option \<Rightarrow> topn_after result" where
  "topn_decode_after stream kind chunk_seq row_ordinal =
     (case (kind, chunk_seq, row_ordinal) of
        (Some k, Some chunk, Some row) \<Rightarrow>
          if k = 1 then bind_res (input_position_new stream chunk row) (\<lambda>i. Inr (TAfterAdmit i))
          else if k = 3
          then bind_res (input_position_new stream chunk row) (\<lambda>i. Inr (TAfterFrontier i))
          else Inl ''TopN continuation has an invalid Drain target''
      | (Some k, None, None) \<Rightarrow>
          if k = 2 then Inr TAfterFinish
          else Inl ''TopN continuation has an invalid Drain target''
      | _ \<Rightarrow> Inl ''TopN continuation has an invalid Drain target'')"

definition parse_u64_numeric :: "string option \<Rightarrow> string \<Rightarrow> nat result" where
  "parse_u64_numeric v label =
     bind_res (ok_or (label @ '' continuation value is NULL'') v) (\<lambda>s.
     ok_or (label @ '' continuation value is not an unsigned integer'') (u64_parse s))"

definition topn_decode_input :: "topn_kind \<Rightarrow> topn_fields \<Rightarrow> input_position option result" where
  "topn_decode_input k f =
     (case (tf_input_chunk_seq f, tf_input_row_ordinal f) of
        (Some chunk, Some row) \<Rightarrow>
          if k = KAdmit \<or> k = KFrontier
          then bind_res (input_position_new (tf_input_stream_id f) chunk row) (\<lambda>i. Inr (Some i))
          else Inl ''TopN continuation has an invalid input cursor shape''
      | (None, None) \<Rightarrow>
          if k = KSelect \<or> k = KDiff \<or> k = KCleanup then Inr None
          else Inl ''TopN continuation has an invalid input cursor shape''
      | _ \<Rightarrow> Inl ''TopN continuation has an invalid input cursor shape'')"

definition topn_decode_phase :: "topn_kind \<Rightarrow> topn_fields \<Rightarrow> topn_phase result" where
  "topn_decode_phase k f =
     (let after = topn_decode_after (tf_input_stream_id f) (tf_after_kind f)
                    (tf_after_chunk_seq f) (tf_after_row_ordinal f)
      in case k of
        KAdmit \<Rightarrow>
          bind_res (require_topn_nulls f [4, 5, 6, 7, 8, 9, 10, 11, 12, 13]) (\<lambda>_. Inr TAdmit)
      | KSelect \<Rightarrow>
          if tf_diff_leg f \<noteq> None \<or> tf_cursor_repeat f
          then Inl ''TopN Select continuation contains Diff state''
          else
            bind_res (ok_or ''TopN Select omitted its generation'' (tf_generation_id f)) (\<lambda>g.
            bind_res (parse_u64_numeric (tf_offset_remaining f) ''TopN OFFSET'') (\<lambda>off.
            bind_res (parse_u64_numeric (tf_limit_remaining f) ''TopN LIMIT'') (\<lambda>lim.
            bind_res after (\<lambda>a.
            Inr (TSelect g \<lparr>sp_cursor = \<lparr>tc_row_id = tf_cursor_row_id f\<rparr>,
                            sp_offset_remaining = off, sp_limit_remaining = lim,
                            sp_tie_boundary = tf_tie_boundary_row_id f\<rparr> a)))))
      | KDiff \<Rightarrow>
          if tf_offset_remaining f \<noteq> None \<or> tf_limit_remaining f \<noteq> None
             \<or> tf_tie_boundary_row_id f \<noteq> None
          then Inl ''TopN Diff continuation contains selection state''
          else
            bind_res (ok_or ''TopN Diff omitted its generation'' (tf_generation_id f)) (\<lambda>g.
            bind_res
              (if tf_diff_leg f = Some 1 then Inr TRemove
               else if tf_diff_leg f = Some 2 then Inr TAdd
               else Inl ''TopN Diff continuation has an invalid leg'') (\<lambda>leg.
            bind_res after (\<lambda>a.
            Inr (TDiff g leg \<lparr>td_row_id = tf_cursor_row_id f, td_repeat = tf_cursor_repeat f\<rparr> a))))
      | KCleanup \<Rightarrow>
          if tf_offset_remaining f \<noteq> None \<or> tf_limit_remaining f \<noteq> None
             \<or> tf_tie_boundary_row_id f \<noteq> None \<or> tf_diff_leg f \<noteq> None \<or> tf_cursor_repeat f
          then Inl ''TopN Cleanup continuation contains another phase's state''
          else
            bind_res (ok_or ''TopN Cleanup omitted its generation'' (tf_generation_id f)) (\<lambda>g.
            bind_res after (\<lambda>a.
            Inr (TCleanup g \<lparr>tc_row_id = tf_cursor_row_id f\<rparr> a)))
      | KFrontier \<Rightarrow>
          bind_res (require_topn_nulls f [4, 5, 6, 7, 8, 9, 10, 11, 12, 13]) (\<lambda>_. Inr TFrontier))"

definition decode_topn_fields :: "topn_fields \<Rightarrow> topn_continuation result" where
  "decode_topn_fields f =
     bind_res (bind_res (phase_code_active (tf_phase f)) topn_kind_from_code) (\<lambda>kind.
     bind_res (topn_decode_input kind f) (\<lambda>input.
     bind_res (topn_decode_phase kind f) (\<lambda>phase.
     Inr \<lparr>tn_input_stream_id = tf_input_stream_id f, tn_input = input, tn_phase = phase\<rparr>)))"

section \<open>Encoding\<close>

fun topn_encode_after :: "topn_fields \<Rightarrow> topn_after \<Rightarrow> topn_fields" where
  "topn_encode_after f (TAfterAdmit i) =
     f\<lparr>tf_after_kind := Some 1, tf_after_chunk_seq := Some (ip_chunk_seq i),
       tf_after_row_ordinal := Some (ip_row_ordinal i)\<rparr>"
| "topn_encode_after f TAfterFinish = f\<lparr>tf_after_kind := Some 2\<rparr>"
| "topn_encode_after f (TAfterFrontier i) =
     f\<lparr>tf_after_kind := Some 3, tf_after_chunk_seq := Some (ip_chunk_seq i),
       tf_after_row_ordinal := Some (ip_row_ordinal i)\<rparr>"

definition encode_topn_fields :: "topn_continuation \<Rightarrow> topn_fields" where
  "encode_topn_fields c =
     (let f = \<lparr>tf_phase = topn_kind_code (topn_kind_of (tn_phase c)),
               tf_input_stream_id = tn_input_stream_id c,
               tf_input_chunk_seq = map_option ip_chunk_seq (tn_input c),
               tf_input_row_ordinal = map_option ip_row_ordinal (tn_input c),
               tf_generation_id = None, tf_cursor_row_id = None, tf_cursor_repeat = False,
               tf_offset_remaining = None, tf_limit_remaining = None,
               tf_tie_boundary_row_id = None, tf_diff_leg = None, tf_after_kind = None,
               tf_after_chunk_seq = None, tf_after_row_ordinal = None\<rparr>
      in case tn_phase c of
        TAdmit \<Rightarrow> f
      | TFrontier \<Rightarrow> f
      | TSelect g p after \<Rightarrow>
          topn_encode_after
            (f\<lparr>tf_generation_id := Some g, tf_cursor_row_id := tc_row_id (sp_cursor p),
               tf_offset_remaining := Some (u64_to_string (sp_offset_remaining p)),
               tf_limit_remaining := Some (u64_to_string (sp_limit_remaining p)),
               tf_tie_boundary_row_id := sp_tie_boundary p\<rparr>) after
      | TDiff g leg cur after \<Rightarrow>
          topn_encode_after
            (f\<lparr>tf_generation_id := Some g, tf_cursor_row_id := td_row_id cur,
               tf_cursor_repeat := td_repeat cur,
               tf_diff_leg := Some (case leg of TRemove \<Rightarrow> 1 | TAdd \<Rightarrow> 2)\<rparr>) after
      | TCleanup g cur after \<Rightarrow>
          topn_encode_after
            (f\<lparr>tf_generation_id := Some g, tf_cursor_row_id := tc_row_id cur\<rparr>) after)"

section \<open>Round trips\<close>

text \<open>
  PostgreSQL prints a numeric column canonically; \<open>canonical_u64\<close> holds of the texts that
  printing an unsigned integer gives.
\<close>

definition canonical_u64 :: "string option \<Rightarrow> bool" where
  "canonical_u64 v \<longleftrightarrow> (\<forall>s n. v = Some s \<longrightarrow> u64_parse s = Some n \<longrightarrow> u64_to_string n = s)"

definition topn_canonical :: "topn_fields \<Rightarrow> bool" where
  "topn_canonical f \<longleftrightarrow> canonical_u64 (tf_offset_remaining f) \<and> canonical_u64 (tf_limit_remaining f)"

lemma input_position_new_Inr [res_simps]:
  "input_position_new s c r = Inr i \<longleftrightarrow>
     0 < s \<and> 0 < c \<and> 0 \<le> r \<and> i = \<lparr>ip_stream_id = s, ip_chunk_seq = c, ip_row_ordinal = r\<rparr>"
  by (auto simp: input_position_new_def)

lemma topn_kind_from_code_Inr [res_simps]:
  "bind_res (phase_code_active p) topn_kind_from_code = Inr k \<longleftrightarrow> p = topn_kind_code k"
  by (cases k) (auto simp: phase_code_active_def topn_kind_from_code_def bind_res_Inr split: if_splits)

definition topn_codable :: "topn_machine \<Rightarrow> topn_continuation \<Rightarrow> bool" where
  "topn_codable m c \<longleftrightarrow> topn_valid m c \<and> tm_limit m \<le> u64_max \<and> tm_offset m \<le> u64_max"

lemma topn_decode_after_Inr:
  "topn_decode_after s k c r = Inr after \<longleftrightarrow>
     (case after of
        TAfterFinish \<Rightarrow> k = Some 2 \<and> c = None \<and> r = None
      | TAfterAdmit i \<Rightarrow> k = Some 1 \<and> c = Some (ip_chunk_seq i) \<and> r = Some (ip_row_ordinal i) \<and>
          topn_validate_input i = Inr () \<and> ip_stream_id i = s
      | TAfterFrontier i \<Rightarrow> k = Some 3 \<and> c = Some (ip_chunk_seq i) \<and>
          r = Some (ip_row_ordinal i) \<and> topn_validate_input i = Inr () \<and> ip_stream_id i = s)"
  by (cases after; cases k; cases c; cases r)
    (auto simp: topn_decode_after_def input_position_new_def topn_input_Inr)

lemma topn_after_fields:
  "topn_validate_after s after = Inr () \<Longrightarrow>
   tf_after_chunk_seq f = None \<Longrightarrow> tf_after_row_ordinal f = None \<Longrightarrow>
   topn_decode_after s (tf_after_kind (topn_encode_after f after))
     (tf_after_chunk_seq (topn_encode_after f after))
     (tf_after_row_ordinal (topn_encode_after f after)) = Inr after"
  by (cases after) (auto simp: topn_decode_after_Inr topn_after_Inr)

lemma topn_encode_after_keeps [simp]:
  "tf_phase (topn_encode_after f a) = tf_phase f"
  "tf_input_stream_id (topn_encode_after f a) = tf_input_stream_id f"
  "tf_input_chunk_seq (topn_encode_after f a) = tf_input_chunk_seq f"
  "tf_input_row_ordinal (topn_encode_after f a) = tf_input_row_ordinal f"
  "tf_generation_id (topn_encode_after f a) = tf_generation_id f"
  "tf_cursor_row_id (topn_encode_after f a) = tf_cursor_row_id f"
  "tf_cursor_repeat (topn_encode_after f a) = tf_cursor_repeat f"
  "tf_offset_remaining (topn_encode_after f a) = tf_offset_remaining f"
  "tf_limit_remaining (topn_encode_after f a) = tf_limit_remaining f"
  "tf_tie_boundary_row_id (topn_encode_after f a) = tf_tie_boundary_row_id f"
  "tf_diff_leg (topn_encode_after f a) = tf_diff_leg f"
  by (cases a; simp)+

lemma topn_decode_encode:
  assumes "topn_codable m c"
  shows "decode_topn_fields (encode_topn_fields c) = Inr c"
proof -
  have v: "topn_valid m c" and bounds: "tm_limit m \<le> u64_max" "tm_offset m \<le> u64_max"
    using assms by (auto simp: topn_codable_def)
  show ?thesis
  proof (cases "tn_phase c")
    case (TSelect g p after)
    have "sp_offset_remaining p \<le> u64_max" "sp_limit_remaining p \<le> u64_max"
      using v bounds TSelect by (auto simp: topn_valid_iff selection_validate_Inr)
    then show ?thesis
      using v TSelect topn_after_fields[of "tn_input_stream_id c" after]
      by (cases p; cases "sp_cursor p"; cases c)
        (simp add: encode_topn_fields_def decode_topn_fields_def topn_kind_from_code_Inr
          topn_decode_input_def topn_decode_phase_def parse_u64_numeric_def u64_parse_to_string
          topn_valid_iff phase_code_active_def topn_kind_from_code_def Let_def)
  next
    case (TDiff g leg cur after)
    then show ?thesis
      using v topn_after_fields[of "tn_input_stream_id c" after]
      by (cases leg; cases cur; cases c)
        (simp_all add: encode_topn_fields_def decode_topn_fields_def
          topn_decode_input_def topn_decode_phase_def
          topn_valid_iff phase_code_active_def topn_kind_from_code_def Let_def)
  next
    case (TCleanup g cur after)
    then show ?thesis
      using v topn_after_fields[of "tn_input_stream_id c" after]
      by (cases cur; cases c)
        (simp add: encode_topn_fields_def decode_topn_fields_def
          topn_decode_input_def topn_decode_phase_def
          topn_valid_iff phase_code_active_def topn_kind_from_code_def Let_def)
  qed (use v in \<open>cases c; auto simp: encode_topn_fields_def decode_topn_fields_def
          topn_decode_input_def topn_decode_phase_def require_topn_nulls_def topn_present_def
          topn_valid_iff topn_input_Inr phase_code_active_def topn_kind_from_code_def
          input_position_new_def\<close>)+
qed

lemma topn_encode_decode:
  assumes "topn_canonical f" "decode_topn_fields f = Inr c"
  shows "encode_topn_fields c = f"
proof -
  obtain k i ph where k: "tf_phase f = topn_kind_code k" and i: "topn_decode_input k f = Inr i"
      and ph: "topn_decode_phase k f = Inr ph"
      and c: "c = \<lparr>tn_input_stream_id = tf_input_stream_id f, tn_input = i, tn_phase = ph\<rparr>"
    using assms(2) unfolding decode_topn_fields_def bind_res_Inr[of "bind_res _ _"]
      topn_kind_from_code_Inr by (auto simp: bind_res_Inr)
  have input: "map_option ip_chunk_seq i = tf_input_chunk_seq f"
      "map_option ip_row_ordinal i = tf_input_row_ordinal f"
    using i by (auto simp: topn_decode_input_def res_simps split: option.splits if_splits)
  have num: "v = Some (u64_to_string n)" if "parse_u64_numeric v l = Inr n" "canonical_u64 v" for v n l
    using that by (auto simp: parse_u64_numeric_def res_simps canonical_u64_def)
  have canon: "canonical_u64 (tf_offset_remaining f)" "canonical_u64 (tf_limit_remaining f)"
    using assms(1) by (auto simp: topn_canonical_def)
  show ?thesis
  proof (cases k)
    case KSelect
    obtain g off lim a where "tf_generation_id f = Some g" "tf_diff_leg f = None"
        "\<not> tf_cursor_repeat f"
        "parse_u64_numeric (tf_offset_remaining f) ''TopN OFFSET'' = Inr off"
        "parse_u64_numeric (tf_limit_remaining f) ''TopN LIMIT'' = Inr lim"
      and a: "topn_decode_after (tf_input_stream_id f) (tf_after_kind f)
          (tf_after_chunk_seq f) (tf_after_row_ordinal f) = Inr a"
        "ph = TSelect g \<lparr>sp_cursor = \<lparr>tc_row_id = tf_cursor_row_id f\<rparr>, sp_offset_remaining = off,
            sp_limit_remaining = lim, sp_tie_boundary = tf_tie_boundary_row_id f\<rparr> a"
      using ph KSelect unfolding topn_decode_phase_def Let_def by (auto simp: res_simps)
    moreover from this have "tf_offset_remaining f = Some (u64_to_string off)"
        "tf_limit_remaining f = Some (u64_to_string lim)"
      using num canon by blast+
    ultimately show ?thesis
      using input c k KSelect
      by (cases f) (auto simp: topn_decode_phase_def res_simps topn_decode_after_Inr
          encode_topn_fields_def Let_def split: topn_after.splits)
  next
    case KDiff
    obtain g leg a where "tf_generation_id f = Some g" "tf_offset_remaining f = None"
        "tf_limit_remaining f = None" "tf_tie_boundary_row_id f = None"
        "tf_diff_leg f = Some (case leg of TRemove \<Rightarrow> 1 | TAdd \<Rightarrow> 2)"
        "topn_decode_after (tf_input_stream_id f) (tf_after_kind f)
          (tf_after_chunk_seq f) (tf_after_row_ordinal f) = Inr a"
        "ph = TDiff g leg \<lparr>td_row_id = tf_cursor_row_id f, td_repeat = tf_cursor_repeat f\<rparr> a"
      using ph KDiff unfolding topn_decode_phase_def Let_def
      by (auto simp: res_simps split: if_splits)
    then show ?thesis
      using input c k KDiff
      by (cases f) (auto simp: topn_decode_after_Inr encode_topn_fields_def split: topn_after.splits)
  next
    case KCleanup
    obtain g a where "tf_generation_id f = Some g" "tf_offset_remaining f = None"
        "tf_limit_remaining f = None" "tf_tie_boundary_row_id f = None" "tf_diff_leg f = None"
        "\<not> tf_cursor_repeat f"
        "topn_decode_after (tf_input_stream_id f) (tf_after_kind f)
          (tf_after_chunk_seq f) (tf_after_row_ordinal f) = Inr a"
        "ph = TCleanup g \<lparr>tc_row_id = tf_cursor_row_id f\<rparr> a"
      using ph KCleanup unfolding topn_decode_phase_def Let_def by (auto simp: res_simps)
    then show ?thesis
      using input c k KCleanup
      by (cases f) (auto simp: topn_decode_after_Inr encode_topn_fields_def split: topn_after.splits)
  qed (use ph input c k in \<open>cases f; simp add: topn_decode_phase_def res_simps
          encode_topn_fields_def require_topn_nulls_def topn_present_def split: if_splits;
          auto simp: encode_topn_fields_def\<close>)+
qed

lemma topn_encode_canonical:
  assumes "topn_codable m c"
  shows "topn_canonical (encode_topn_fields c)"
proof (cases "tn_phase c")
  case (TSelect g p after)
  then have "sp_offset_remaining p \<le> u64_max" "sp_limit_remaining p \<le> u64_max"
    using assms by (auto simp: topn_codable_def topn_valid_iff selection_validate_Inr)
  then show ?thesis
    using TSelect by (simp add: topn_canonical_def canonical_u64_def encode_topn_fields_def
        u64_parse_to_string)
qed (auto simp: topn_canonical_def canonical_u64_def encode_topn_fields_def)

interpretation topn_codec: continuation_codec
  "topn_codable m" topn_canonical "\<lambda>c. Inr (encode_topn_fields c)" decode_topn_fields for m
  by unfold_locales (auto intro: topn_decode_encode topn_encode_decode topn_encode_canonical)

text \<open>
  C32: The durable row of a TopN continuation is exact.  A valid continuation is recovered from
  its row, and a row whose numbers are printed canonically decodes to a valid continuation only
  if it is that continuation's encoding, so the comparison with the stored row finds it.\<close>

theorem topn_row_exact:
  assumes "topn_valid m c" "tm_limit m \<le> u64_max" "tm_offset m \<le> u64_max"
  shows "decode_topn_fields (encode_topn_fields c) = Inr c \<and>
    (\<forall>f. topn_canonical f \<longrightarrow> (decode_topn_fields f = Inr c) = (f = encode_topn_fields c))"
  using topn_codec.row_unique[of m c] topn_codec.decode_encode[of m c] assms
  by (auto simp: topn_codable_def)

theorem topn_row_exact_witness:
  "decode_topn_fields \<lparr>tf_phase = 3, tf_input_stream_id = 1, tf_input_chunk_seq = None,
     tf_input_row_ordinal = None, tf_generation_id = Some 7, tf_cursor_row_id = Some 3,
     tf_cursor_repeat = True, tf_offset_remaining = None, tf_limit_remaining = None,
     tf_tie_boundary_row_id = None, tf_diff_leg = Some 2, tf_after_kind = Some 1,
     tf_after_chunk_seq = Some 4, tf_after_row_ordinal = Some 6\<rparr> =
   Inr \<lparr>tn_input_stream_id = 1, tn_input = None,
     tn_phase = TDiff 7 TAdd \<lparr>td_row_id = Some 3, td_repeat = True\<rparr>
       (TAfterAdmit \<lparr>ip_stream_id = 1, ip_chunk_seq = 4, ip_row_ordinal = 6\<rparr>)\<rparr>"
proof -
  let ?m = "\<lparr>tm_limit = 2, tm_offset = 1, tm_with_ties = True\<rparr>"
  let ?c = "\<lparr>tn_input_stream_id = 1, tn_input = None,
     tn_phase = TDiff 7 TAdd \<lparr>td_row_id = Some 3, td_repeat = True\<rparr>
       (TAfterAdmit \<lparr>ip_stream_id = 1, ip_chunk_seq = 4, ip_row_ordinal = 6\<rparr>)\<rparr>"
  have "topn_valid ?m ?c" by (simp add: topn_valid_iff topn_diff_cursor_Inr topn_after_Inr topn_input_Inr)
  then have "decode_topn_fields (encode_topn_fields ?c) = Inr ?c"
    using topn_row_exact[of ?m ?c] by (simp add: u64_max_def)
  then show ?thesis by (simp add: encode_topn_fields_def)
qed

end
