(* ===== verification/Effect_Stream.thy ===== *)
theory Effect_Stream
  imports Shiba_Prelude "HOL-Library.AList"
begin

text \<open>
  The durable effect streams (\<open>sql/12_effect_stream.sql\<close>, tables in \<open>sql/00_catalog.sql\<close>): one
  stream with its retained chunks and its consumers, and the four functions that change it.
  A function that raises an exception returns \<open>Inl\<close> with its message and its transaction rolls
  back.  Locks make the calls on one stream sequential, so a history of a stream is a sequence
  of calls.  A WAL position is a natural number; \<open>bigint\<close> and \<open>numeric\<close> are integers.
\<close>

section \<open>State\<close>

datatype producer_kind = Source | Operator

datatype chunk_kind = Data | Frontier

record chunk =
  ck_seq :: int
  ck_kind :: chunk_kind
  ck_rows :: int
  ck_bytes :: int
  ck_lsn :: nat

record consumer =
  cs_next :: int
  cs_activation :: nat
  cs_frontier :: nat

text \<open>A consumer is named by its result, its stage and its input port.\<close>

type_synonym consumer_key = "int \<times> int \<times> int"

record effect_stream =
  es_producer :: producer_kind
  es_producer_result :: int
  es_next :: int
  es_first_retained :: int
  es_latest_data :: "nat option"
  es_published_frontier :: "nat option"
  es_buffered_chunks :: int
  es_buffered_rows :: int
  es_buffered_bytes :: int
  es_target_rows :: int
  es_target_bytes :: int
  es_high_chunks :: int
  es_high_rows :: int
  es_high_bytes :: int
  es_low_chunks :: int
  es_low_rows :: int
  es_low_bytes :: int
  es_backpressured :: bool
  es_chunks :: "chunk list"
  es_consumers :: "(consumer_key \<times> consumer) list"

datatype append_outcome = Appended int | BlockedAppend | Discarded

section \<open>Attaching a consumer\<close>

definition attach_consumer ::
    "effect_stream \<Rightarrow> bool \<Rightarrow> consumer_key \<Rightarrow> nat \<Rightarrow> effect_stream result" where
  "attach_consumer s registered key activation =
     (case key of (result_oid, stage_id, port) \<Rightarrow>
      if stage_id < 0 \<or> port < 0 then Inl ''invalid effect stream consumer identity''
      else if es_producer s = Operator \<and> es_producer_result s \<noteq> result_oid
      then Inl ''operator edge crosses result graphs''
      else if es_producer s = Operator \<and> es_next s \<noteq> 1
      then Inl ''cannot attach an operator consumer after production starts''
      else if \<not> registered then Inl ''effect consumer stage is not registered''
      else if map_of (es_consumers s) key \<noteq> None
      then Inl ''duplicate key value violates unique constraint''
      else
        let lsn = (if es_producer s = Operator then 0 else activation)
        in Inr (s\<lparr>es_consumers := es_consumers s @
             [(key, \<lparr>cs_next = (if es_producer s = Operator then 1 else es_next s),
                     cs_activation = lsn, cs_frontier = lsn\<rparr>)]\<rparr>))"

section \<open>Appending a chunk\<close>

definition above :: "nat option \<Rightarrow> nat \<Rightarrow> bool" where
  "above bound lsn \<longleftrightarrow> (case bound of None \<Rightarrow> True | Some b \<Rightarrow> b < lsn)"

definition at_least :: "nat option \<Rightarrow> nat \<Rightarrow> bool" where
  "at_least bound lsn \<longleftrightarrow> (case bound of None \<Rightarrow> True | Some b \<Rightarrow> b \<le> lsn)"

definition greatest_lsn :: "nat option \<Rightarrow> nat \<Rightarrow> nat" where
  "greatest_lsn bound lsn = (case bound of None \<Rightarrow> lsn | Some b \<Rightarrow> max b lsn)"

definition chunk_resources_ok :: "effect_stream \<Rightarrow> chunk_kind \<Rightarrow> int \<Rightarrow> int \<Rightarrow> bool" where
  "chunk_resources_ok s kind rows bytes \<longleftrightarrow>
     (case kind of
        Data \<Rightarrow> 1 \<le> rows \<and> 1 \<le> bytes \<and> rows \<le> es_target_rows s
                \<and> (bytes \<le> es_target_bytes s \<or> rows = 1)
      | Frontier \<Rightarrow> rows = 0 \<and> bytes = 0)"

definition append_causality ::
    "effect_stream \<Rightarrow> nat option \<Rightarrow> chunk_kind \<Rightarrow> nat \<Rightarrow> unit result" where
  "append_causality s published kind lsn =
     (case es_producer s of
        Source \<Rightarrow>
          if kind \<noteq> Data then Inl ''source streams contain data chunks only''
          else if \<not> above published lsn
          then Inl ''source chunk causal LSN must follow published ingress frontier''
          else if \<not> at_least (es_latest_data s) lsn
          then Inl ''source chunk causal LSN is not monotonic''
          else Inr ()
      | Operator \<Rightarrow>
          (case kind of
             Data \<Rightarrow>
               if \<not> above (es_published_frontier s) lsn
               then Inl ''operator data cannot follow its causal frontier'' else Inr ()
           | Frontier \<Rightarrow>
               if \<not> above (es_published_frontier s) lsn \<or> \<not> at_least (es_latest_data s) lsn
               then Inl ''operator frontier is not advancing past its data'' else Inr ()))"

definition append_chunk ::
    "effect_stream \<Rightarrow> nat option \<Rightarrow> int \<Rightarrow> chunk_kind \<Rightarrow> int \<Rightarrow> int \<Rightarrow> nat
     \<Rightarrow> (append_outcome \<times> effect_stream) result" where
  "append_chunk s published expected kind rows bytes lsn =
     (if expected < 1 then Inl ''expected chunk sequence must be positive''
      else if expected \<noteq> es_next s then Inl ''effect stream expected another chunk''
      else if es_producer s = Source \<and> es_consumers s = [] then Inr (Discarded, s)
      else if es_producer s = Operator \<and> es_consumers s = []
      then Inl ''operator effect stream has no registered consumer''
      else if expected = i64_max then Inl ''chunk sequence space exhausted''
      else if rows < 0 \<or> bytes < 0 then Inl ''invalid effect stream chunk''
      else if \<not> chunk_resources_ok s kind rows bytes
      then Inl ''invalid chunk resources; only one oversized row may stand alone''
      else
        bind_res (append_causality s published kind lsn) (\<lambda>_.
        if es_backpressured s then Inr (BlockedAppend, s)
        else
          let chunks = es_buffered_chunks s + 1;
              total_rows = es_buffered_rows s + rows;
              total_bytes = es_buffered_bytes s + bytes
          in Inr (Appended expected,
               s\<lparr>es_chunks := es_chunks s @ [\<lparr>ck_seq = expected, ck_kind = kind, ck_rows = rows,
                                            ck_bytes = bytes, ck_lsn = lsn\<rparr>],
                 es_next := es_next s + 1,
                 es_latest_data := (if kind = Data then Some (greatest_lsn (es_latest_data s) lsn)
                                    else es_latest_data s),
                 es_published_frontier := (if kind = Frontier then Some lsn
                                           else es_published_frontier s),
                 es_buffered_chunks := chunks, es_buffered_rows := total_rows,
                 es_buffered_bytes := total_bytes,
                 es_backpressured := (es_high_chunks s \<le> chunks \<or> es_high_rows s \<le> total_rows
                                      \<or> es_high_bytes s \<le> total_bytes)\<rparr>)))"

section \<open>Advancing a consumer\<close>

definition chunk_range :: "effect_stream \<Rightarrow> int \<Rightarrow> int \<Rightarrow> chunk list" where
  "chunk_range s lo hi = filter (\<lambda>c. lo \<le> ck_seq c \<and> ck_seq c < hi) (es_chunks s)"

definition frontier_max :: "chunk list \<Rightarrow> nat option" where
  "frontier_max cs =
     (let ls = map ck_lsn (filter (\<lambda>c. ck_kind c = Frontier) cs)
      in if ls = [] then None else Some (Max (set ls)))"

definition next_unconsumed :: "effect_stream \<Rightarrow> int \<Rightarrow> nat option" where
  "next_unconsumed s new = map_option ck_lsn (find (\<lambda>c. new \<le> ck_seq c) (es_chunks s))"

definition advance_frontier ::
    "effect_stream \<Rightarrow> nat option \<Rightarrow> nat \<Rightarrow> int \<Rightarrow> int \<Rightarrow> nat \<Rightarrow> unit result" where
  "advance_frontier s published current expected new new_frontier =
     (case es_producer s of
        Source \<Rightarrow>
          if current < new_frontier \<and> (case published of None \<Rightarrow> True | Some p \<Rightarrow> p < new_frontier)
          then Inl ''source consumer cannot pass published ingress frontier''
          else if (case next_unconsumed s new of None \<Rightarrow> False | Some l \<Rightarrow> l \<le> new_frontier)
          then Inl ''source consumer frontier would skip published data''
          else Inr ()
      | Operator \<Rightarrow>
          if new_frontier \<noteq> (case frontier_max (chunk_range s expected new) of
                               None \<Rightarrow> current | Some l \<Rightarrow> max current l)
          then Inl ''operator consumer frontier must match consumed frontier chunks''
          else Inr ())"

definition advance_consumer ::
    "effect_stream \<Rightarrow> nat option \<Rightarrow> consumer_key \<Rightarrow> int \<Rightarrow> int \<Rightarrow> nat \<Rightarrow> nat \<Rightarrow> int \<Rightarrow> int \<Rightarrow> int
     \<Rightarrow> effect_stream result" where
  "advance_consumer s published key expected new expected_frontier new_frontier
      chunk_limit row_limit byte_limit =
     (if fst (snd key) < 0 \<or> expected < 1 \<or> new < expected \<or> new_frontier < expected_frontier
         \<or> (new = expected \<and> new_frontier = expected_frontier)
         \<or> chunk_limit < 1 \<or> row_limit < 0 \<or> byte_limit < 0 \<or> chunk_limit < new - expected
      then Inl ''invalid consumer advance or limits''
      else
        bind_res (ok_or ''query returned no rows'' (map_of (es_consumers s) key)) (\<lambda>c.
        if cs_next c \<noteq> expected \<or> cs_frontier c \<noteq> expected_frontier
        then Inl ''consumer cursor or frontier did not match expected state''
        else if es_next s < new then Inl ''consumer cannot advance beyond produced chunks''
        else
          let range = chunk_range s expected new
          in if int (length range) \<noteq> new - expected
             then Inl ''consumer range is not fully retained''
             else if 1 < length range
                     \<and> (row_limit < sum_list (map ck_rows range)
                        \<or> byte_limit < sum_list (map ck_bytes range))
             then Inl ''consumer advance exceeds its row or byte limit''
             else
               bind_res (advance_frontier s published (cs_frontier c) expected new new_frontier) (\<lambda>_.
               Inr (s\<lparr>es_consumers :=
                      AList.update key (c\<lparr>cs_next := new, cs_frontier := new_frontier\<rparr>)
                        (es_consumers s)\<rparr>))))"

section \<open>Garbage collection\<close>

definition slowest_next :: "effect_stream \<Rightarrow> int option" where
  "slowest_next s =
     (if es_consumers s = [] then (if es_producer s = Source then Some (es_next s) else None)
      else Some (Min (set (map (cs_next \<circ> snd) (es_consumers s)))))"

text \<open>
  \<open>garbage\<close>: the measured prefix.  The first candidate is always taken; a later one is taken
  when the running sums up to it are within the limits.
\<close>

definition garbage :: "chunk list \<Rightarrow> int \<Rightarrow> int \<Rightarrow> chunk list" where
  "garbage limited row_limit byte_limit =
     map (\<lambda>i. limited ! i)
       (filter (\<lambda>i. i = 0 \<or> (sum_list (map ck_rows (take (i + 1) limited)) \<le> row_limit
                            \<and> sum_list (map ck_bytes (take (i + 1) limited)) \<le> byte_limit))
          [0..<length limited])"

definition gc_stream ::
    "effect_stream \<Rightarrow> int \<Rightarrow> int \<Rightarrow> int \<Rightarrow> (nat \<times> effect_stream) result" where
  "gc_stream s chunk_limit row_limit byte_limit =
     (if chunk_limit < 1 \<or> row_limit < 0 \<or> byte_limit < 0 then Inl ''invalid GC limits''
      else case slowest_next s of
        None \<Rightarrow> Inr (0, s)
      | Some slowest \<Rightarrow>
          let limited = take (nat chunk_limit) (filter (\<lambda>c. ck_seq c < slowest) (es_chunks s));
              deleted = garbage limited row_limit byte_limit;
              chunks = es_buffered_chunks s - int (length deleted);
              rows = es_buffered_rows s - sum_list (map ck_rows deleted);
              bytes = es_buffered_bytes s - sum_list (map ck_bytes deleted)
          in Inr (length deleted,
               s\<lparr>es_chunks := filter (\<lambda>c. ck_seq c \<notin> set (map ck_seq deleted)) (es_chunks s),
                 es_first_retained := (if deleted = [] then es_first_retained s
                                       else Max (set (map ck_seq deleted)) + 1),
                 es_buffered_chunks := chunks, es_buffered_rows := rows,
                 es_buffered_bytes := bytes,
                 es_backpressured := es_backpressured s \<and>
                   \<not> (chunks \<le> es_low_chunks s \<and> rows \<le> es_low_rows s
                      \<and> bytes \<le> es_low_bytes s)\<rparr>))"

end
