(* ===== verification/Step_Context.thy ===== *)
theory Step_Context
  imports Kernel_Contract Effect_Stream Postgres_Text
begin

text \<open>
  The context of one operator step (\<open>src/execution/step.rs\<close>), the stream primitives that go
  through it (\<open>src/execution/stream.rs\<close>) and the runner that opens and commits it
  (\<open>src/execution/runner.rs\<close>).  The rows that the queries of \<open>begin\<close> return are arguments; the
  tables a step writes are the record \<open>step_db\<close>: its effect streams, its checkpoint row and its
  typed continuation rows.  The metadata cache only repeats immutable catalog lookups and has
  no model.
\<close>

section \<open>Receipts\<close>

record step_receipt =
  sr_phase :: lifecycle_phase
  sr_output_stream :: bool
  sr_completion :: kernel_completion
  sr_usage :: work_usage
  sr_progress :: progress_witness
  sr_effects :: step_effects
  sr_continuation :: continuation_delta

definition receipt_output_check :: "step_receipt \<Rightarrow> unit result" where
  "receipt_output_check r =
     (case ef_output (sr_effects r) of
        NoOutput \<Rightarrow>
          if sr_output_stream r \<and> 0 < output_rows (sr_usage r)
          then Inl ''step receipt emitted rows without an output effect'' else Inr ()
      | DataOutput _ \<Rightarrow>
          if \<not> sr_output_stream r then Inl ''sink step reported an effect-stream output''
          else if output_rows (sr_usage r) = 0
          then Inl ''step receipt reported a data output without rows''
          else Inr ()
      | FrontierOutput _ \<Rightarrow>
          if \<not> sr_output_stream r then Inl ''sink step reported a frontier output''
          else if output_rows (sr_usage r) \<noteq> 0 \<or> output_bytes (sr_usage r) \<noteq> 0
          then Inl ''step receipt frontier contains output rows''
          else Inr ())"

definition receipt_validate :: "step_receipt \<Rightarrow> unit result" where
  "receipt_validate r =
     bind_res (receipt_output_check r) (\<lambda>_.
     if sr_completion r = Continue
        \<and> (\<not> has_durable_progress (sr_progress r) \<or> action_completed (sr_progress r))
     then Inl ''continuing operator step did not make durable progress''
     else if sr_continuation r = Remove \<and> sr_completion r \<noteq> Finished
     then Inl ''continuing operator step removed its continuation''
     else if sr_completion r = Finished \<and> sr_continuation r \<noteq> Remove
     then Inl ''finished operator step did not remove its continuation''
     else if output_appended (sr_progress r) \<and> ef_output (sr_effects r) = NoOutput
     then Inl ''output progress witness omitted its output effect''
     else if frontier_advanced (sr_progress r) \<and> \<not> is_frontier_output (ef_output (sr_effects r))
     then Inl ''frontier progress witness omitted its frontier effect''
     else if 0 < ef_state_rows (sr_effects r) \<and> \<not> state_changed (sr_progress r)
     then Inl ''state effects were omitted from the progress witness''
     else if state_changed (sr_progress r) \<and> ef_state_rows (sr_effects r) = 0
     then Inl ''state progress witness omitted its state effect''
     else if continuation_changed (sr_progress r) \<and> sr_continuation r = Keep
     then Inl ''continuation progress omitted its replacement effect''
     else if sr_continuation r = Replace \<and> \<not> continuation_changed (sr_progress r)
     then Inl ''continuation replacement omitted its progress witness''
     else if sr_phase r = PhFrontier \<and> is_data_output (ef_output (sr_effects r))
     then Inl ''frontier phase emitted a data output''
     else if sr_phase r \<noteq> PhFrontier \<and> is_frontier_output (ef_output (sr_effects r))
     then Inl ''non-frontier phase emitted a frontier output''
     else Inr ())"

definition effects_output :: "step_receipt \<Rightarrow> output_facts option" where
  "effects_output r =
     (case ef_output (sr_effects r) of NoOutput \<Rightarrow> None | out \<Rightarrow> Some out)"

section \<open>Inputs and outputs\<close>

record input_state =
  is_port :: nat
  is_stream_id :: int
  is_producer :: producer_kind
  is_source_oid :: "int option"
  is_slot_generation :: "int option"
  is_next :: int
  is_available :: int
  is_activation :: nat
  is_consumed :: nat
  is_source_frontier :: "nat option"

definition has_pending :: "input_state \<Rightarrow> bool" where
  "has_pending i \<longleftrightarrow>
     is_next i < is_available i
     \<or> (case is_source_frontier i of None \<Rightarrow> False | Some f \<Rightarrow> is_consumed i < f)"

record pending_chunk =
  pc_sequence :: int
  pc_rows :: nat
  pc_bytes :: nat
  pc_lsn :: nat

record output_state =
  os_stream_id :: int
  os_next :: int
  os_target_rows :: int
  os_target_bytes :: int
  os_latest_data :: "nat option"
  os_published :: "nat option"
  os_pending :: "pending_chunk option"

definition record_published_frontier ::
    "output_state \<Rightarrow> int \<Rightarrow> nat \<Rightarrow> output_state result" where
  "record_published_frontier out sequence lsn =
     (if os_pending out \<noteq> None \<or> sequence \<noteq> os_next out
      then Inl ''published frontier changed the shared output cursor''
      else if \<not> above (os_published out) lsn \<or> \<not> at_least (os_latest_data out) lsn
      then Inl ''published frontier is not causally advancing''
      else
        bind_res (ok_or ''output chunk sequence overflow'' (checked_add_i64 (os_next out) 1)) (\<lambda>n.
        Inr (out\<lparr>os_next := n, os_published := Some lsn\<rparr>)))"

datatype append_target = NewChunk int | ExtendChunk int nat nat

section \<open>The context\<close>

record step_context =
  sc_result_oid :: int
  sc_stage_id :: int
  sc_quantum_budget :: work_budget
  sc_transition_budget :: work_budget
  sc_expected_revision :: int
  sc_had_continuation :: bool
  sc_presence :: "bool option"
  sc_admission :: admission_progress
  sc_continuation_changed :: bool
  sc_input_advanced :: bool
  sc_frontier_output :: "int option"
  sc_state_rows :: nat
  sc_inputs :: "input_state list"
  sc_output :: "output_state option"

definition set_transition_budget :: "step_context \<Rightarrow> work_budget \<Rightarrow> step_context" where
  "set_transition_budget c b = c\<lparr>sc_transition_budget := b\<rparr>"

definition bind_continuation_authority :: "step_context \<Rightarrow> bool \<Rightarrow> step_context result" where
  "bind_continuation_authority c persisted =
     (if sc_had_continuation c \<noteq> persisted
      then Inl ''checkpoint and typed continuation authority disagree''
      else case sc_presence c of
        None \<Rightarrow> Inr (c\<lparr>sc_presence := Some persisted\<rparr>)
      | Some current \<Rightarrow>
          if current = persisted then Inr c
          else Inl ''typed continuation authority was bound twice'')"

definition prepare_continuation_replace :: "step_context \<Rightarrow> bool \<Rightarrow> unit result" where
  "prepare_continuation_replace c expected =
     (case sc_presence c of
        Some current \<Rightarrow>
          if current = expected then Inr ()
          else Inl ''typed continuation replacement used stale authority''
      | None \<Rightarrow> Inl ''typed continuation was mutated before it was bound'')"

definition record_continuation_replace :: "step_context \<Rightarrow> bool \<Rightarrow> bool \<Rightarrow> step_context" where
  "record_continuation_replace c present changed =
     c\<lparr>sc_presence := Some present,
       sc_continuation_changed := sc_continuation_changed c \<or> changed\<rparr>"

definition record_input_advance :: "step_context \<Rightarrow> step_context" where
  "record_input_advance c = c\<lparr>sc_input_advanced := True\<rparr>"

definition no_output_stream :: "step_context \<Rightarrow> string" where
  "no_output_stream c =
     ''Sink stage '' @ u64_to_string (nat (sc_stage_id c)) @ '' has no output stream''"

definition record_frontier_output :: "step_context \<Rightarrow> int \<Rightarrow> nat \<Rightarrow> step_context result" where
  "record_frontier_output c chunk_seq lsn =
     (if sc_frontier_output c \<noteq> None then Inl ''step cannot publish more than one frontier output''
      else
        bind_res (ok_or (no_output_stream c) (sc_output c)) (\<lambda>out.
        bind_res (record_published_frontier out chunk_seq lsn) (\<lambda>out'.
        Inr (c\<lparr>sc_output := Some out', sc_frontier_output := Some chunk_seq\<rparr>))))"

definition record_state_rows :: "step_context \<Rightarrow> nat \<Rightarrow> step_context result" where
  "record_state_rows c rows =
     bind_res (ok_or ''step state row count overflowed'' (checked_add_u64 (sc_state_rows c) rows))
       (\<lambda>n. Inr (c\<lparr>sc_state_rows := n\<rparr>))"

definition record_admission ::
    "step_context \<Rightarrow> work_usage \<Rightarrow> nat \<Rightarrow> nat \<Rightarrow> nat \<Rightarrow> nat \<Rightarrow> (step_context \<times> bool) result option"
where
  "record_admission c u rows row_cap bytes byte_cap =
     (case admission_record (sc_admission c) u rows row_cap bytes byte_cap of
        None \<Rightarrow> None
      | Some (Inl e) \<Rightarrow> Some (Inl e)
      | Some (Inr (progress, drain)) \<Rightarrow> Some (Inr (c\<lparr>sc_admission := progress\<rparr>, drain)))"

definition reset_admission :: "step_context \<Rightarrow> step_context" where
  "reset_admission c = c\<lparr>sc_admission := \<lparr>ap_rows = 0, ap_bytes = 0\<rparr>\<rparr>"

definition context_input :: "step_context \<Rightarrow> nat \<Rightarrow> input_state result" where
  "context_input c port =
     (if port < length (sc_inputs c) \<and> is_port (sc_inputs c ! port) = port
      then Inr (sc_inputs c ! port)
      else Inl (''operator stage '' @ u64_to_string (nat (sc_stage_id c))
                @ '' has no input port '' @ u64_to_string port))"

definition context_output :: "step_context \<Rightarrow> output_state result" where
  "context_output c = ok_or (no_output_stream c) (sc_output c)"

definition output_append_target :: "step_context \<Rightarrow> nat \<Rightarrow> nat \<Rightarrow> append_target result" where
  "output_append_target c rows bytes =
     (if rows = 0 \<or> bytes = 0 then Inl ''output append has no rows or bytes''
      else
        bind_res (context_output c) (\<lambda>out.
        if sc_frontier_output c \<noteq> None then Inl ''step cannot append data after a frontier output''
        else if os_target_rows out < 0 then Inl ''output stream has a negative row target''
        else if os_target_bytes out < 0 then Inl ''output stream has a negative byte target''
        else case os_pending out of
          Some open_chunk \<Rightarrow>
            bind_res (ok_or ''open output chunk row count overflow''
                        (checked_add_u64 (pc_rows open_chunk) rows)) (\<lambda>r.
            bind_res (ok_or ''open output chunk byte count overflow''
                        (checked_add_u64 (pc_bytes open_chunk) bytes)) (\<lambda>b.
            if r \<le> nat (os_target_rows out) \<and> b \<le> nat (os_target_bytes out)
            then Inr (ExtendChunk (pc_sequence open_chunk) (pc_rows open_chunk) (pc_bytes open_chunk))
            else Inl ''pending output exceeded its immutable chunk target''))
        | None \<Rightarrow> Inr (NewChunk (os_next out))))"

definition record_output_append ::
    "step_context \<Rightarrow> append_target \<Rightarrow> nat \<Rightarrow> nat \<Rightarrow> nat \<Rightarrow> step_context result" where
  "record_output_append c target rows bytes lsn =
     (if rows = 0 \<or> bytes = 0 then Inl ''data output append must contain rows and bytes''
      else if sc_frontier_output c \<noteq> None
      then Inl ''step cannot append data after a frontier output''
      else
        bind_res (ok_or (no_output_stream c) (sc_output c)) (\<lambda>out.
        if \<not> above (os_published out) lsn
        then Inl ''data output causal LSN did not advance its frontier''
        else if \<not> at_least (os_latest_data out) lsn
        then Inl ''data output causal LSN moved backwards''
        else case target of
          NewChunk sequence \<Rightarrow>
            if sequence \<noteq> os_next out then Inl ''new output append changed its expected sequence''
            else
              bind_res (ok_or ''output chunk sequence overflow'' (checked_add_i64 (os_next out) 1))
                (\<lambda>n.
              Inr (c\<lparr>sc_output := Some (out\<lparr>os_next := n,
                     os_pending := Some \<lparr>pc_sequence = sequence, pc_rows = rows,
                                          pc_bytes = bytes, pc_lsn = lsn\<rparr>\<rparr>)\<rparr>))
        | ExtendChunk sequence row_offset previous_bytes \<Rightarrow>
            bind_res
              (case os_pending out of
                 Some p \<Rightarrow>
                   if pc_sequence p = sequence \<and> pc_rows p = row_offset
                      \<and> pc_bytes p = previous_bytes
                   then Inr p else Inl ''extended output append changed its open chunk''
               | None \<Rightarrow> Inl ''extended output append changed its open chunk'') (\<lambda>p.
            bind_res (ok_or ''open output chunk row count overflow''
                        (checked_add_u64 (pc_rows p) rows)) (\<lambda>r.
            bind_res (ok_or ''open output chunk byte count overflow''
                        (checked_add_u64 (pc_bytes p) bytes)) (\<lambda>b.
            Inr (c\<lparr>sc_output := Some (out\<lparr>os_pending :=
                   Some \<lparr>pc_sequence = pc_sequence p, pc_rows = r, pc_bytes = b,
                         pc_lsn = max (pc_lsn p) lsn\<rparr>\<rparr>)\<rparr>))))))"

end
