(* ===== verification/Step_Commit.thy ===== *)
theory Step_Commit
  imports Step_Context
begin

text \<open>
  Opening, writing and committing a step: \<open>StepContext::begin\<close>, \<open>transition\<close>, \<open>transition_facts\<close>
  and \<open>commit\<close> (\<open>src/execution/step.rs\<close>), the stream primitives (\<open>src/execution/stream.rs\<close>), the
  continuation replacement (\<open>src/execution/continuation.rs\<close>) and \<open>KernelRunner::run\<close>
  (\<open>src/execution/runner.rs\<close>).
\<close>

section \<open>The tables a step writes\<close>

record checkpoint =
  cp_revision :: int
  cp_has_continuation :: bool
  cp_admitted_rows :: int
  cp_admitted_bytes :: int

text \<open>
  The locked part of the catalog: the streams by identifier, the publication-safe position of
  the source generation, the checkpoint row, and the rows of the typed continuation relation.
\<close>

record 'f step_db =
  db_streams :: "int \<Rightarrow> effect_stream option"
  db_published :: "nat option"
  db_checkpoint :: checkpoint
  db_continuation :: "'f list"

section \<open>Opening a step\<close>

definition required :: "string \<Rightarrow> 'a option \<Rightarrow> 'a result" where
  "required name v = ok_or (''database returned NULL '' @ name) v"

definition nonnegative :: "string \<Rightarrow> int \<Rightarrow> nat result" where
  "nonnegative name v = (if v < 0 then Inl (name @ '' is negative'') else Inr (nat v))"

record checkpoint_row =
  cr_revision :: "int option"
  cr_has_continuation :: "bool option"
  cr_admitted_rows :: "int option"
  cr_admitted_bytes :: "int option"

record input_row =
  ir_port :: "int option"
  ir_stream_id :: "int option"
  ir_kind :: "string option"
  ir_source_oid :: "int option"
  ir_slot_generation :: "int option"
  ir_next :: "int option"
  ir_available :: "int option"
  ir_activation :: "string option"
  ir_consumed :: "string option"
  ir_source_frontier :: "string option"

record output_row =
  or_stream_id :: "int option"
  or_next :: "int option"
  or_target_rows :: "int option"
  or_target_bytes :: "int option"
  or_latest_data :: "string option"
  or_published :: "string option"
  or_backpressured :: "bool option"

text \<open>What the five queries of \<open>begin\<close> return.\<close>

record begin_rows =
  br_active :: bool
  br_locked_streams :: nat
  br_checkpoints :: "checkpoint_row list"
  br_inputs :: "input_row list"
  br_outputs :: "output_row list"

definition lsn_of_text :: "string \<Rightarrow> string \<Rightarrow> nat result" where
  "lsn_of_text name s =
     bind_res (map_err (\<lambda>e. ''invalid '' @ name @ '': '' @ e) (parse_lsn s)) (\<lambda>w. Inr (unat w))"

definition parse_lsn_column :: "string \<Rightarrow> string option \<Rightarrow> nat result" where
  "parse_lsn_column name v = bind_res (required name v) (lsn_of_text name)"

definition optional_lsn :: "string \<Rightarrow> string option \<Rightarrow> nat option result" where
  "optional_lsn name v =
     (case v of None \<Rightarrow> Inr None | Some s \<Rightarrow> bind_res (lsn_of_text name s) (\<lambda>l. Inr (Some l)))"

definition input_of_row :: "input_row \<Rightarrow> input_state result" where
  "input_of_row r =
     bind_res (required ''input port'' (ir_port r)) (\<lambda>port.
     if port < 0 \<or> int u16_max < port then Inl ''invalid input port''
     else
       bind_res (required ''input producer kind'' (ir_kind r)) (\<lambda>kind.
       bind_res
         (if kind = ''source'' then Inr Source
          else if kind = ''operator'' then Inr Operator
          else Inl (''invalid input producer kind '' @ kind)) (\<lambda>producer.
       if producer = Source \<and> (ir_source_oid r = None \<or> ir_slot_generation r = None)
       then Inl ''source stream omitted its source identity''
       else if producer = Operator \<and> (ir_source_oid r \<noteq> None \<or> ir_slot_generation r \<noteq> None)
       then Inl ''operator stream contains a source identity''
       else
         bind_res (required ''input stream ID'' (ir_stream_id r)) (\<lambda>stream_id.
         bind_res (required ''consumer chunk cursor'' (ir_next r)) (\<lambda>next_seq.
         bind_res (required ''produced chunk cursor'' (ir_available r)) (\<lambda>available.
         bind_res (parse_lsn_column ''input activation LSN'' (ir_activation r)) (\<lambda>activation.
         bind_res (parse_lsn_column ''input consumed frontier'' (ir_consumed r)) (\<lambda>consumed.
         bind_res (optional_lsn ''source frontier'' (ir_source_frontier r)) (\<lambda>frontier.
         Inr \<lparr>is_port = nat port, is_stream_id = stream_id, is_producer = producer,
              is_source_oid = ir_source_oid r, is_slot_generation = ir_slot_generation r,
              is_next = next_seq, is_available = available, is_activation = activation,
              is_consumed = consumed, is_source_frontier = frontier\<rparr>)))))))))"

fun inputs_of_rows :: "input_row list \<Rightarrow> input_state list result" where
  "inputs_of_rows [] = Inr []"
| "inputs_of_rows (r # rs) =
     bind_res (input_of_row r) (\<lambda>i. bind_res (inputs_of_rows rs) (\<lambda>is. Inr (i # is)))"

definition output_of_row :: "output_row \<Rightarrow> output_state result" where
  "output_of_row r =
     bind_res (required ''output stream ID'' (or_stream_id r)) (\<lambda>stream_id.
     bind_res (required ''output chunk cursor'' (or_next r)) (\<lambda>next_seq.
     bind_res (required ''output row target'' (or_target_rows r)) (\<lambda>target_rows.
     bind_res (required ''output byte target'' (or_target_bytes r)) (\<lambda>target_bytes.
     bind_res (optional_lsn ''output latest data LSN'' (or_latest_data r)) (\<lambda>latest.
     bind_res (optional_lsn ''output frontier'' (or_published r)) (\<lambda>published.
     Inr \<lparr>os_stream_id = stream_id, os_next = next_seq, os_target_rows = target_rows,
          os_target_bytes = target_bytes, os_latest_data = latest, os_published = published,
          os_pending = None\<rparr>))))))"

datatype context_start = StartBlocked | StartIdle | StartReady step_context

definition admission_of_row :: "checkpoint_row \<Rightarrow> admission_progress result" where
  "admission_of_row r =
     bind_res (bind_res (required ''admitted row progress'' (cr_admitted_rows r))
                 (nonnegative ''admitted row progress'')) (\<lambda>rows.
     bind_res (bind_res (required ''admitted byte progress'' (cr_admitted_bytes r))
                 (nonnegative ''admitted byte progress'')) (\<lambda>bytes.
     Inr \<lparr>ap_rows = rows, ap_bytes = bytes\<rparr>))"

text \<open>The output part of \<open>begin\<close>: \<open>None\<close> for a stage that is blocked.\<close>

definition begin_output :: "begin_rows \<Rightarrow> bool \<Rightarrow> output_state option option result" where
  "begin_output q expects_output =
     (if \<not> expects_output then Inr (Some None)
      else case br_outputs q of
        [r] \<Rightarrow>
          bind_res (required ''output backpressure'' (or_backpressured r)) (\<lambda>blocked.
          if blocked then Inr None
          else bind_res (output_of_row r) (\<lambda>out. Inr (Some (Some out))))
      | _ \<Rightarrow> Inl ''operator stage has no unique output stream'')"

definition step_begin ::
    "begin_rows \<Rightarrow> int \<Rightarrow> nat \<Rightarrow> nat \<Rightarrow> bool \<Rightarrow> work_budget \<Rightarrow> context_start result" where
  "step_begin q result_oid stage_id expected_inputs expects_output budget =
     (if result_oid = 0 then Inl ''operator step has an invalid result OID''
      else if i32_max < int stage_id then Inl ''operator stage ID exceeds integer''
      else if \<not> br_active q then Inr StartIdle
      else if br_locked_streams q \<noteq> expected_inputs + (if expects_output then 1 else 0)
      then Inl ''operator stage locked an unexpected number of streams''
      else case br_checkpoints q of
        [cp] \<Rightarrow>
          bind_res (required ''operator checkpoint revision'' (cr_revision cp)) (\<lambda>revision.
          bind_res (required ''operator continuation flag'' (cr_has_continuation cp)) (\<lambda>had.
          bind_res (admission_of_row cp) (\<lambda>admission.
          if length (br_inputs q) \<noteq> expected_inputs
          then Inl ''operator stage has an unexpected number of inputs''
          else
            bind_res (inputs_of_rows (br_inputs q)) (\<lambda>rows.
            let inputs = sort_key is_port rows
            in if list_ex (\<lambda>i. is_port (inputs ! i) \<noteq> i) [0..<length inputs]
               then Inl ''operator stage input ports are not contiguous''
               else
                 bind_res (begin_output q expects_output) (\<lambda>out.
                 case out of
                   None \<Rightarrow> Inr StartBlocked
                 | Some output \<Rightarrow>
                     if \<not> had \<and> \<not> list_ex has_pending inputs then Inr StartIdle
                     else Inr (StartReady
                       \<lparr>sc_result_oid = result_oid, sc_stage_id = int stage_id,
                        sc_quantum_budget = budget, sc_transition_budget = budget,
                        sc_expected_revision = revision, sc_had_continuation = had,
                        sc_presence = None, sc_admission = admission,
                        sc_continuation_changed = False, sc_input_advanced = False,
                        sc_frontier_output = None, sc_state_rows = 0, sc_inputs = inputs,
                        sc_output = output\<rparr>))))))
      | _ \<Rightarrow> Inl ''operator stage has no unique checkpoint'')"

section \<open>Stream primitives\<close>

definition i64_from_u64 :: "nat \<Rightarrow> int result" where
  "i64_from_u64 v = (if i64_max < int v then Inl ''resource count exceeds bigint'' else Inr (int v))"

definition find_stream :: "'f step_db \<Rightarrow> int \<Rightarrow> effect_stream result" where
  "find_stream db stream_id = ok_or ''query returned no rows'' (db_streams db stream_id)"

definition put_stream :: "'f step_db \<Rightarrow> int \<Rightarrow> effect_stream \<Rightarrow> 'f step_db" where
  "put_stream db stream_id s = db\<lparr>db_streams := (db_streams db)(stream_id \<mapsto> s)\<rparr>"

definition append_frontier ::
    "step_context \<Rightarrow> 'f step_db \<Rightarrow> nat \<Rightarrow> (output_facts \<times> step_context \<times> 'f step_db) result" where
  "append_frontier c db lsn =
     bind_res (context_output c) (\<lambda>out.
     bind_res (find_stream db (os_stream_id out)) (\<lambda>s.
     bind_res (append_chunk s (db_published db) (os_next out) Frontier 0 0 lsn) (\<lambda>(outcome, s').
     case outcome of
       Appended sequence \<Rightarrow>
         if sequence \<noteq> os_next out
         then Inl ''frontier append returned an unexpected chunk sequence''
         else
           bind_res (record_frontier_output c sequence lsn) (\<lambda>c'.
           Inr (FrontierOutput sequence, c', put_stream db (os_stream_id out) s'))
     | _ \<Rightarrow> Inl ''locked output stream returned another frontier append outcome'')))"

definition advance_input ::
    "step_context \<Rightarrow> 'f step_db \<Rightarrow> nat \<Rightarrow> int \<Rightarrow> nat \<Rightarrow> work_usage
     \<Rightarrow> (step_context \<times> 'f step_db) result" where
  "advance_input c db port new_next new_frontier consumed =
     bind_res (context_input c port) (\<lambda>input.
     if new_next < is_next input \<or> new_frontier < is_consumed input
        \<or> (new_next = is_next input \<and> new_frontier = is_consumed input)
     then Inl ''input cursor did not advance''
     else
       bind_res (ok_or ''input chunk cursor moved backwards''
                   (checked_sub_i64 new_next (is_next input))) (\<lambda>d.
       if i32_max < max d 1 then Inl ''input chunk advance exceeds integer''
       else
         bind_res (i64_from_u64 (input_rows consumed)) (\<lambda>row_limit.
         bind_res (i64_from_u64 (input_bytes consumed)) (\<lambda>byte_limit.
         bind_res (find_stream db (is_stream_id input)) (\<lambda>s.
         bind_res (advance_consumer s (db_published db)
                     (sc_result_oid c, sc_stage_id c, int port) (is_next input) new_next
                     (is_consumed input) new_frontier (max d 1) row_limit byte_limit) (\<lambda>s'.
         Inr (record_input_advance c, put_stream db (is_stream_id input) s')))))))"

record chunk_meta =
  cm_stream_id :: int
  cm_sequence :: int
  cm_kind :: chunk_kind
  cm_rows :: nat
  cm_bytes :: nat
  cm_lsn :: nat

definition read_chunk ::
    "'f step_db \<Rightarrow> input_state \<Rightarrow> int \<Rightarrow> chunk_meta option result" where
  "read_chunk db input sequence =
     (if sequence \<le> 0 then Inl ''effect chunk sequence must be positive''
      else case filter (\<lambda>ch. ck_seq ch = sequence)
                  (case db_streams db (is_stream_id input) of None \<Rightarrow> [] | Some s \<Rightarrow> es_chunks s) of
        [] \<Rightarrow> Inr None
      | [ch] \<Rightarrow>
          bind_res (nonnegative ''chunk row count'' (ck_rows ch)) (\<lambda>rows.
          bind_res (nonnegative ''chunk byte count'' (ck_bytes ch)) (\<lambda>bytes.
          if ck_kind ch = Data \<and> (rows = 0 \<or> bytes = 0) then Inl ''data chunk has no payload''
          else if ck_kind ch = Frontier \<and> (rows \<noteq> 0 \<or> bytes \<noteq> 0)
          then Inl ''frontier chunk has payload''
          else Inr (Some \<lparr>cm_stream_id = is_stream_id input, cm_sequence = sequence,
                          cm_kind = ck_kind ch, cm_rows = rows, cm_bytes = bytes,
                          cm_lsn = ck_lsn ch\<rparr>)))
      | _ \<Rightarrow> Inl ''effect stream chunk identity returned several rows'')"

definition next_chunk :: "step_context \<Rightarrow> 'f step_db \<Rightarrow> nat \<Rightarrow> chunk_meta option result" where
  "next_chunk c db port =
     bind_res (context_input c port) (\<lambda>input. read_chunk db input (is_next input))"

record payload_facts =
  py_rows :: nat
  py_first :: "int option"
  py_last :: "int option"
  py_bytes :: nat

text \<open>\<open>payload_facts\<close>: the measured payload against the immutable metadata of its chunk.\<close>

definition payload_facts_check ::
    "chunk_meta \<Rightarrow> int option \<Rightarrow> int option \<Rightarrow> int option \<Rightarrow> int option \<Rightarrow> payload_facts result"
where
  "payload_facts_check ch rows first last_ordinal bytes =
     bind_res (bind_res (required ''payload row count'' rows) (nonnegative ''payload row count''))
       (\<lambda>r.
     bind_res (bind_res (required ''payload byte count'' bytes)
                 (nonnegative ''payload byte count'')) (\<lambda>b.
     bind_res
       (if r \<noteq> cm_rows ch \<or> b \<noteq> cm_bytes ch
           \<or> (r = 0 \<and> (first \<noteq> None \<or> last_ordinal \<noteq> None))
        then Inr True
        else if r > 0
        then if first \<noteq> Some 0 then Inr True
             else bind_res (i64_from_u64 r) (\<lambda>n. Inr (last_ordinal \<noteq> Some (n - 1)))
        else Inr False) (\<lambda>bad.
     if bad then Inl ''chunk payload does not match immutable metadata''
     else Inr \<lparr>py_rows = r, py_first = first, py_last = last_ordinal, py_bytes = b\<rparr>)))"

section \<open>The continuation row\<close>

text \<open>
  The relation holds at most one row: its key is the column \<open>singleton\<close>, always true.  A row
  is compared with \<open>IS NOT DISTINCT FROM\<close> in every column, which is equality of rows.
\<close>

definition lock_one ::
    "'f step_db \<Rightarrow> string \<Rightarrow> ('f \<Rightarrow> 'c result) \<Rightarrow> 'c option result" where
  "lock_one db owner decode =
     (case db_continuation db of
        [] \<Rightarrow> Inr None
      | [f] \<Rightarrow> bind_res (decode f) (\<lambda>c. Inr (Some c))
      | fs \<Rightarrow> Inl (owner @ '' continuation relation contains '' @ u64_to_string (length fs)
                    @ '' rows''))"

definition clear_locked ::
    "step_context \<Rightarrow> 'f step_db \<Rightarrow> string \<Rightarrow> (step_context \<times> 'f step_db) result" where
  "clear_locked c db owner =
     bind_res (prepare_continuation_replace c True) (\<lambda>_.
     if length (db_continuation db) \<noteq> 1 then Inl (owner @ '' continuation clear failed'')
     else Inr (record_continuation_replace c False True, db\<lparr>db_continuation := []\<rparr>))"

definition replace_cas ::
    "step_context \<Rightarrow> 'f step_db \<Rightarrow> 'f option \<Rightarrow> 'f option \<Rightarrow> string
     \<Rightarrow> (step_context \<times> 'f step_db) result" where
  "replace_cas c db old new owner =
     bind_res (prepare_continuation_replace c (old \<noteq> None)) (\<lambda>_.
     bind_res
       (case old of
          None \<Rightarrow> Inr (db_continuation db)
        | Some f \<Rightarrow>
            if length (filter (\<lambda>g. g = f) (db_continuation db)) \<noteq> 1
            then Inl (owner @ '' continuation compare-and-set failed'')
            else Inr (filter (\<lambda>g. g \<noteq> f) (db_continuation db))) (\<lambda>rows.
     bind_res
       (case new of
          None \<Rightarrow> Inr rows
        | Some f \<Rightarrow>
            if rows \<noteq> [] then Inl ''duplicate key value violates unique constraint''
            else Inr [f]) (\<lambda>rows'.
     Inr (record_continuation_replace c (new \<noteq> None) (old \<noteq> None \<or> new \<noteq> None),
          db\<lparr>db_continuation := rows'\<rparr>))))"

section \<open>Transitions\<close>

definition pending_output_chunk :: "step_context \<Rightarrow> int option" where
  "pending_output_chunk c =
     (case sc_output c of None \<Rightarrow> None | Some out \<Rightarrow> map_option pc_sequence (os_pending out))"

definition context_output_facts :: "step_context \<Rightarrow> output_facts" where
  "context_output_facts c =
     (case sc_frontier_output c of
        Some sequence \<Rightarrow> FrontierOutput sequence
      | None \<Rightarrow>
          (case pending_output_chunk c of
             None \<Rightarrow> NoOutput | Some sequence \<Rightarrow> DataOutput sequence))"

definition step_transition ::
    "step_context \<Rightarrow> lifecycle_phase \<Rightarrow> work_usage \<Rightarrow> step_receipt result" where
  "step_transition c phase usage =
     bind_res (usage_validate usage (sc_quantum_budget c)) (\<lambda>_.
     bind_res (ok_or ''kernel transition was created before continuation authority was bound''
                 (sc_presence c)) (\<lambda>present.
     let out = context_output_facts c;
         receipt =
           \<lparr>sr_phase = phase, sr_output_stream = (sc_output c \<noteq> None),
            sr_completion = (if present then Continue else Finished), sr_usage = usage,
            sr_progress =
              \<lparr>input_advanced = sc_input_advanced c, state_changed = (0 < sc_state_rows c),
               output_appended = is_data_output out, frontier_advanced = is_frontier_output out,
               continuation_changed = sc_continuation_changed c,
               action_completed = (\<not> sc_input_advanced c \<and> sc_state_rows c = 0
                 \<and> out = NoOutput \<and> \<not> sc_continuation_changed c)\<rparr>,
            sr_effects = \<lparr>ef_state_rows = sc_state_rows c, ef_output = out\<rparr>,
            sr_continuation =
              (if present then if sc_continuation_changed c then Replace else Keep else Remove)\<rparr>
     in bind_res (receipt_validate receipt) (\<lambda>_. Inr receipt)))"

definition transition_facts ::
    "step_context \<Rightarrow> lifecycle_phase \<Rightarrow> primitive_facts \<Rightarrow> (step_receipt \<times> step_context) result"
where
  "transition_facts c phase facts =
     bind_res (validate_protocol facts (sc_quantum_budget c) phase
                 (if sc_presence c = Some True then Continue else Finished)) (\<lambda>_.
     bind_res (record_state_rows c (pr_state_rows facts)) (\<lambda>c'.
     bind_res (step_transition c' phase (pr_usage facts)) (\<lambda>r.
     if (case effects_output r of None \<Rightarrow> NoOutput | Some out \<Rightarrow> out) \<noteq> pr_output facts
     then Inl ''primitive output facts disagree with the step context''
     else Inr (r, c'))))"

definition publish_pending_output :: "step_context \<Rightarrow> 'f step_db \<Rightarrow> 'f step_db result" where
  "publish_pending_output c db =
     (case sc_output c of
        None \<Rightarrow> Inr db
      | Some out \<Rightarrow>
          (case os_pending out of
             None \<Rightarrow> Inr db
           | Some p \<Rightarrow>
               if i64_max < int (pc_rows p) then Inl ''pending output rows exceed bigint''
               else if i64_max < int (pc_bytes p) then Inl ''pending output bytes exceed bigint''
               else
                 bind_res (find_stream db (os_stream_id out)) (\<lambda>s.
                 bind_res (append_chunk s (db_published db) (pc_sequence p) Data (int (pc_rows p))
                             (int (pc_bytes p)) (pc_lsn p)) (\<lambda>(outcome, s').
                 if outcome \<noteq> Appended (pc_sequence p)
                 then Inl ''pending output publication was blocked or inconsistent''
                 else Inr (put_stream db (os_stream_id out) s')))))"

definition step_commit ::
    "step_context \<Rightarrow> 'f step_db \<Rightarrow> step_receipt \<Rightarrow> (step_execution \<times> 'f step_db) result" where
  "step_commit c db r =
     bind_res (receipt_validate r) (\<lambda>_.
     let has = has_continuation (sr_completion r)
     in bind_res (usage_validate (sr_usage r) (sc_quantum_budget c)) (\<lambda>_.
        if sc_presence c \<noteq> Some has
        then Inl ''kernel transition disagrees with typed continuation authority''
        else
          bind_res (publish_pending_output c db) (\<lambda>db1.
          if i64_max < int (ap_rows (sc_admission c)) then Inl ''admitted rows exceed bigint''
          else if i64_max < int (ap_bytes (sc_admission c)) then Inl ''admitted bytes exceed bigint''
          else if cp_revision (db_checkpoint db1) \<noteq> sc_expected_revision c
          then Inl ''operator checkpoint compare-and-set failed''
          else if i64_max < cp_revision (db_checkpoint db1) + 1 then Inl ''bigint out of range''
          else Inr (step_execution_new (if has then Yield else Progress) (sr_usage r),
                 db1\<lparr>db_checkpoint :=
                   \<lparr>cp_revision = cp_revision (db_checkpoint db1) + 1,
                    cp_has_continuation = has,
                    cp_admitted_rows = int (ap_rows (sc_admission c)),
                    cp_admitted_bytes = int (ap_bytes (sc_admission c))\<rparr>\<rparr>))))"

section \<open>The runner\<close>

datatype input_contract = SourceInput | OperatorInput

datatype output_contract = EffectStreamOutput | SinkOutput

record operator_descriptor =
  od_phases :: "lifecycle_phase list"
  od_inputs :: "input_contract list"
  od_output :: output_contract

definition supports_phase :: "operator_descriptor \<Rightarrow> lifecycle_phase \<Rightarrow> bool" where
  "supports_phase d p \<longleftrightarrow> p \<in> set (od_phases d)"

fun producer_matches :: "input_contract \<Rightarrow> producer_kind \<Rightarrow> bool" where
  "producer_matches SourceInput Source = True"
| "producer_matches OperatorInput Operator = True"
| "producer_matches _ _ = False"

fun validate_inputs :: "step_context \<Rightarrow> nat \<Rightarrow> input_contract list \<Rightarrow> unit result" where
  "validate_inputs c port [] = Inr ()"
| "validate_inputs c port (e # es) =
     (if u16_max < port then Inl ''kernel input port exceeds smallint''
      else
        bind_res (context_input c port) (\<lambda>input.
        if is_port input \<noteq> port \<or> \<not> producer_matches e (is_producer input)
        then Inl (''kernel input '' @ u64_to_string port @ '' does not match its stream contract'')
        else validate_inputs c (port + 1) es))"

definition contract_validate :: "operator_descriptor \<Rightarrow> step_context \<Rightarrow> unit result" where
  "contract_validate d c =
     (if length (sc_inputs c) \<noteq> length (od_inputs d)
      then Inl ''kernel context does not match its input contract''
      else validate_inputs c 0 (od_inputs d))"

fun debug_phase :: "lifecycle_phase \<Rightarrow> string" where
  "debug_phase PhAdmit = ''Admit''"
| "debug_phase PhProcess = ''Process''"
| "debug_phase PhDrain = ''Drain''"
| "debug_phase PhFrontier = ''Frontier''"

definition validate_phase :: "operator_descriptor \<Rightarrow> lifecycle_phase \<Rightarrow> unit result" where
  "validate_phase d p =
     (if supports_phase d p then Inr ()
      else Inl (''kernel does not support the '' @ debug_phase p @ '' lifecycle phase''))"

type_synonym 'f kernel_step =
  "step_context \<Rightarrow> 'f step_db \<Rightarrow> (step_receipt \<times> step_context \<times> 'f step_db) result"

definition kernel_run ::
    "operator_descriptor \<Rightarrow> 'f kernel_step \<Rightarrow> begin_rows \<Rightarrow> int \<Rightarrow> nat \<Rightarrow> work_budget \<Rightarrow> 'f step_db
     \<Rightarrow> (step_execution \<times> 'f step_db) result" where
  "kernel_run d step q result_oid stage_id budget db =
     (if u16_max < length (od_inputs d) then Inl ''kernel input contract exceeds smallint''
      else
        bind_res (step_begin q result_oid stage_id (length (od_inputs d))
                    (od_output d = EffectStreamOutput) budget) (\<lambda>start.
        case start of
          StartBlocked \<Rightarrow> Inr (step_execution_empty Blocked, db)
        | StartIdle \<Rightarrow> Inr (step_execution_empty Idle, db)
        | StartReady c \<Rightarrow>
            bind_res (contract_validate d c) (\<lambda>_.
            bind_res (step c db) (\<lambda>(r, c', db').
            bind_res (validate_phase d (sr_phase r)) (\<lambda>_.
            step_commit c' db' r)))))"

end
