(* ===== verification/Step_Properties.thy ===== *)
theory Step_Properties
  imports Step_Commit
begin

text \<open>
  What the step context guarantees (\<open>src/execution/step.rs\<close>, \<open>stream.rs\<close>, \<open>continuation.rs\<close>): the
  receipt a kernel can obtain, the single compare-and-set authority, and the agreement of the
  context's mirror of its output stream with the stream itself.
\<close>

section \<open>Receipts\<close>

lemma receipt_output_Inr:
  "receipt_output_check r = Inr () \<longleftrightarrow>
     (case ef_output (sr_effects r) of
        NoOutput \<Rightarrow> sr_output_stream r \<longrightarrow> output_rows (sr_usage r) = 0
      | DataOutput q \<Rightarrow> sr_output_stream r \<and> 0 < output_rows (sr_usage r)
      | FrontierOutput q \<Rightarrow> sr_output_stream r \<and> output_rows (sr_usage r) = 0
                            \<and> output_bytes (sr_usage r) = 0)"
  by (cases "ef_output (sr_effects r)") (auto simp: receipt_output_check_def)

definition made_progress :: "step_context \<Rightarrow> bool" where
  "made_progress c \<longleftrightarrow>
     sc_input_advanced c \<or> 0 < sc_state_rows c \<or> context_output_facts c \<noteq> NoOutput
     \<or> sc_continuation_changed c"

definition output_consistent :: "step_context \<Rightarrow> lifecycle_phase \<Rightarrow> work_usage \<Rightarrow> bool" where
  "output_consistent c phase u \<longleftrightarrow>
     (case context_output_facts c of
        NoOutput \<Rightarrow> sc_output c \<noteq> None \<longrightarrow> output_rows u = 0
      | DataOutput q \<Rightarrow> sc_output c \<noteq> None \<and> 0 < output_rows u \<and> phase \<noteq> PhFrontier
      | FrontierOutput q \<Rightarrow> sc_output c \<noteq> None \<and> output_rows u = 0 \<and> output_bytes u = 0
                            \<and> phase = PhFrontier)"

lemma step_transition_Inr:
  "step_transition c phase u = Inr r \<Longrightarrow>
     usage_validate u (sc_quantum_budget c) = Inr () \<and>
     sc_presence c = Some (has_continuation (sr_completion r)) \<and>
     receipt_validate r = Inr () \<and> sr_usage r = u \<and> sr_phase r = phase \<and>
     ef_output (sr_effects r) = context_output_facts c"
  by (auto simp: step_transition_def Let_def res_simps)

lemma step_transition_ok:
  "is_ok (step_transition c phase u) \<longleftrightarrow>
     usage_validate u (sc_quantum_budget c) = Inr () \<and> sc_presence c \<noteq> None \<and>
     (sc_presence c = Some True \<longrightarrow> made_progress c) \<and> output_consistent c phase u"
proof (cases "usage_validate u (sc_quantum_budget c)")
  case (Inr x)
  then show ?thesis
    by (cases "sc_presence c"; cases "context_output_facts c"; cases "the (sc_presence c)")
      (auto simp: is_ok_iff step_transition_def Let_def res_simps receipt_validate_def
        receipt_output_Inr has_durable_progress_def made_progress_def output_consistent_def)
qed (simp add: step_transition_def is_ok_iff)

section \<open>Commit\<close>

lemma step_commit_Inr:
  assumes "step_commit c db r = Inr (e, db')"
  shows "\<exists>db1. publish_pending_output c db = Inr db1 \<and>
    cp_revision (db_checkpoint db1) = sc_expected_revision c \<and>
    sc_presence c = Some (has_continuation (sr_completion r)) \<and>
    usage_validate (sr_usage r) (sc_quantum_budget c) = Inr () \<and> receipt_validate r = Inr () \<and>
    e = step_execution_new (if has_continuation (sr_completion r) then Yield else Progress) (sr_usage r) \<and>
    db' = db1\<lparr>db_checkpoint := \<lparr>cp_revision = sc_expected_revision c + 1,
      cp_has_continuation = has_continuation (sr_completion r),
      cp_admitted_rows = int (ap_rows (sc_admission c)),
      cp_admitted_bytes = int (ap_bytes (sc_admission c))\<rparr>\<rparr>"
  using assms by (auto simp: step_commit_def Let_def res_simps)

lemma publish_keeps:
  "publish_pending_output c db = Inr db' \<Longrightarrow>
     db_checkpoint db' = db_checkpoint db \<and> db_continuation db' = db_continuation db"
  by (auto simp: publish_pending_output_def put_stream_def res_simps split: option.splits if_splits)

section \<open>The mirror of the output stream\<close>

text \<open>
  The context keeps a copy of its output stream's cursor.  Until a data chunk is published the
  copy is one chunk ahead.
\<close>

definition mirror :: "step_context \<Rightarrow> 'f step_db \<Rightarrow> bool" where
  "mirror c db \<longleftrightarrow>
     (case sc_output c of
        None \<Rightarrow> sc_frontier_output c = None
      | Some out \<Rightarrow>
          (\<exists>s. db_streams db (os_stream_id out) = Some s \<and> es_producer s = Operator
             \<and> es_consumers s \<noteq> [] \<and> 1 \<le> es_next s \<and> es_next s \<le> i64_max
             \<and> es_latest_data s = os_latest_data out \<and> es_published_frontier s = os_published out
             \<and> es_target_rows s = os_target_rows out \<and> es_target_bytes s = os_target_bytes out
             \<and> (sc_frontier_output c = None \<longrightarrow> \<not> es_backpressured s)
             \<and> (case os_pending out of
                  None \<Rightarrow> os_next out = es_next s
                | Some p \<Rightarrow> sc_frontier_output c = None \<and> pc_sequence p = es_next s
                    \<and> os_next out = es_next s + 1 \<and> os_next out \<le> i64_max
                    \<and> 0 < pc_rows p \<and> 0 < pc_bytes p
                    \<and> above (os_published out) (pc_lsn p)
                    \<and> at_least (os_latest_data out) (pc_lsn p))))"

lemma above_max: "above b l \<Longrightarrow> above b (max k l)"
  by (cases b) (auto simp: above_def)

lemma at_least_max: "at_least b l \<Longrightarrow> at_least b (max k l)"
  by (cases b) (auto simp: at_least_def)

lemma mirror_append:
  assumes "mirror c db" "record_output_append c target rows bytes lsn = Inr c'"
    "\<forall>q. target = NewChunk q \<longrightarrow> (\<forall>out. sc_output c = Some out \<longrightarrow> os_pending out = None)"
  shows "mirror c' db"
proof -
  obtain out where out: "sc_output c = Some out" "rows \<noteq> 0" "bytes \<noteq> 0" "sc_frontier_output c = None"
      "above (os_published out) lsn" "at_least (os_latest_data out) lsn"
    using assms(2) by (auto simp: record_output_append_def res_simps)
  show ?thesis
  proof (cases target)
    case (NewChunk q)
    then have "os_pending out = None" using assms(3) out(1) by blast
    then show ?thesis
      using assms(1,2) out NewChunk
      by (auto simp: record_output_append_def mirror_def res_simps in_i64_def)
  next
    case (ExtendChunk q ro pb)
    then obtain p where "os_pending out = Some p"
      using assms(2) out by (auto simp: record_output_append_def res_simps split: option.splits)
    then show ?thesis
      using assms(1,2) out ExtendChunk
      by (auto simp: record_output_append_def mirror_def res_simps above_max at_least_max
          split: if_splits)
  qed
qed

lemma output_append_target_new:
  "output_append_target c rows bytes = Inr (NewChunk q) \<Longrightarrow> sc_output c = Some out \<Longrightarrow>
     os_pending out = None"
  by (auto simp: output_append_target_def context_output_def res_simps split: option.splits if_splits)

text \<open>The mirror accepts exactly what the stream has accepted.\<close>

lemma append_frontier_mirror:
  assumes "mirror c db" "append_frontier c db lsn = Inr (fx, c', db')"
  shows "mirror c' db' \<and> (\<exists>q. fx = FrontierOutput q \<and> context_output_facts c' = fx)"
proof -
  obtain out s outcome s' where o: "sc_output c = Some out" "db_streams db (os_stream_id out) = Some s"
      "append_chunk s (db_published db) (os_next out) Frontier 0 0 lsn = Inr (outcome, s')"
      "(case outcome of Appended sequence \<Rightarrow>
         if sequence \<noteq> os_next out then Inl ''frontier append returned an unexpected chunk sequence''
         else bind_res (record_frontier_output c sequence lsn) (\<lambda>c'.
           Inr (FrontierOutput sequence, c', put_stream db (os_stream_id out) s'))
       | _ \<Rightarrow> Inl ''locked output stream returned another frontier append outcome'') = Inr (fx, c', db')"
    using assms(2) unfolding append_frontier_def context_output_def find_stream_def
      bind_res_Inr[of "ok_or _ _"] ok_or_Inr bind_res_Inr[of "append_chunk _ _ _ _ _ _ _"] by auto
  then have "outcome = Appended (os_next out)" by (cases outcome) (auto split: if_splits)
  then have out: "sc_output c = Some out" "db_streams db (os_stream_id out) = Some s"
      "append_chunk s (db_published db) (os_next out) Frontier 0 0 lsn = Inr (Appended (os_next out), s')"
      "record_frontier_output c (os_next out) lsn = Inr c'" "db' = put_stream db (os_stream_id out) s'"
      "fx = FrontierOutput (os_next out)"
    using o by (auto simp: res_simps)
  obtain n where rec: "sc_frontier_output c = None" "os_pending out = None" "n = os_next out + 1"
      "c' = c\<lparr>sc_output := Some (out\<lparr>os_next := n, os_published := Some lsn\<rparr>),
              sc_frontier_output := Some (os_next out)\<rparr>"
    using out(1,4)
    by (auto simp: record_frontier_output_def record_published_frontier_def res_simps split: if_splits)
  have s': "es_next s' = es_next s + 1" "es_producer s' = es_producer s" "es_consumers s' = es_consumers s"
      "es_latest_data s' = es_latest_data s" "es_published_frontier s' = Some lsn"
      "es_target_rows s' = es_target_rows s" "es_target_bytes s' = es_target_bytes s"
      "es_next s \<noteq> i64_max"
    using out(3) by (auto simp: append_chunk_def res_simps Let_def split: if_splits)
  show ?thesis
    using assms(1) out rec s'
    by (auto simp: mirror_def put_stream_def context_output_facts_def)
qed

lemma frontier_record_complete:
  assumes "mirror c db" "sc_output c = Some out" "sc_frontier_output c = None"
    "db_streams db (os_stream_id out) = Some s"
    "append_chunk s (db_published db) (os_next out) Frontier 0 0 lsn = Inr (Appended q, s')"
  shows "\<exists>c'. record_frontier_output c q lsn = Inr c'"
proof -
  have app: "os_next out = es_next s" "q = os_next out" "es_next s \<noteq> i64_max"
      "append_causality s (db_published db) Frontier lsn = Inr ()"
    using assms(5) by (auto simp: append_chunk_def res_simps Let_def split: if_splits)
  have m: "es_producer s = Operator" "es_latest_data s = os_latest_data out" "1 \<le> es_next s"
      "es_next s \<le> i64_max" "es_published_frontier s = os_published out" "os_pending out = None"
    using assms(1-4) app(1) by (auto simp: mirror_def split: option.splits)
  have "above (os_published out) lsn" "at_least (os_latest_data out) lsn"
    using app(4) m by (auto simp: append_causality_def split: if_splits)
  then show ?thesis
    using assms(2,3) app m
    by (auto simp: record_frontier_output_def record_published_frontier_def checked_add_i64_def
        in_i64_def i64_min_def)
qed

text \<open>A pending chunk within its target is always published, and the cursors agree afterwards.\<close>

lemma publish_complete:
  assumes "mirror c db" "sc_output c = Some out" "os_pending out = Some p"
    "int (pc_rows p) \<le> os_target_rows out" "int (pc_bytes p) \<le> os_target_bytes out \<or> pc_rows p = 1"
    "os_target_rows out \<le> i64_max" "int (pc_bytes p) \<le> i64_max"
  shows "\<exists>db' s'. publish_pending_output c db = Inr db' \<and> db_streams db' (os_stream_id out) = Some s'
    \<and> es_next s' = os_next out \<and> es_published_frontier s' = os_published out
    \<and> last (es_chunks s') = \<lparr>ck_seq = pc_sequence p, ck_kind = Data, ck_rows = int (pc_rows p),
          ck_bytes = int (pc_bytes p), ck_lsn = pc_lsn p\<rparr>"
proof -
  obtain s where s: "db_streams db (os_stream_id out) = Some s" "es_producer s = Operator"
      "es_consumers s \<noteq> []" "1 \<le> es_next s" "\<not> es_backpressured s" "pc_sequence p = es_next s"
      "os_next out = es_next s + 1" "os_next out \<le> i64_max" "0 < pc_rows p" "0 < pc_bytes p"
      "es_published_frontier s = os_published out" "above (os_published out) (pc_lsn p)"
      "es_target_rows s = os_target_rows out" "es_target_bytes s = os_target_bytes out"
    using assms(1-3) by (auto simp: mirror_def)
  have "append_causality s (db_published db) Data (pc_lsn p) = Inr ()"
    using s by (simp add: append_causality_def)
  moreover have "chunk_resources_ok s Data (int (pc_rows p)) (int (pc_bytes p))"
    using s assms(4,5) by (auto simp: chunk_resources_ok_def)
  ultimately obtain s' where s': "append_chunk s (db_published db) (pc_sequence p) Data
        (int (pc_rows p)) (int (pc_bytes p)) (pc_lsn p) = Inr (Appended (pc_sequence p), s')"
      "es_next s' = es_next s + 1" "es_published_frontier s' = es_published_frontier s"
      "last (es_chunks s') = \<lparr>ck_seq = pc_sequence p, ck_kind = Data, ck_rows = int (pc_rows p),
          ck_bytes = int (pc_bytes p), ck_lsn = pc_lsn p\<rparr>"
    using s by (simp add: append_chunk_def Let_def)
  have "publish_pending_output c db = Inr (put_stream db (os_stream_id out) s')"
    using assms s s'(1) by (simp add: publish_pending_output_def find_stream_def)
  then show ?thesis using s s' by (auto simp: put_stream_def)
qed

section \<open>The continuation row\<close>

lemma replace_cas_Inr:
  assumes "replace_cas c db old new owner = Inr (c', db')"
  shows "c' = record_continuation_replace c (new \<noteq> None) (old \<noteq> None \<or> new \<noteq> None)
    \<and> sc_presence c = Some (old \<noteq> None)
    \<and> db' = db\<lparr>db_continuation := db_continuation db'\<rparr>
    \<and> (case old of None \<Rightarrow> True | Some f \<Rightarrow> f \<in> set (db_continuation db))
    \<and> (\<forall>f. new = Some f \<longrightarrow> db_continuation db' = [f])
    \<and> (new = None \<longrightarrow> (\<forall>g. db_continuation db = [g] \<longrightarrow> old = Some g \<longrightarrow> db_continuation db' = []))"
proof -
  have presence: "sc_presence c = Some (old \<noteq> None)"
    using assms by (auto simp: replace_cas_def prepare_continuation_replace_def res_simps
        split: option.splits if_splits)
  have "f \<in> set (db_continuation db)" if "old = Some f" for f
  proof -
    have "length (filter (\<lambda>g. g = f) (db_continuation db)) = 1"
      using assms that by (auto simp: replace_cas_def res_simps split: if_splits)
    then show ?thesis by (metis (mono_tags, lifting) filter_False length_0_conv zero_neq_one)
  qed
  then show ?thesis
    using assms presence
    by (cases old; cases new) (auto simp: replace_cas_def res_simps split: if_splits)
qed

text \<open>The flag in the checkpoint says whether the typed relation holds its one row.\<close>

definition authority_agrees :: "'f step_db \<Rightarrow> bool" where
  "authority_agrees db \<longleftrightarrow>
     length (db_continuation db) = (if cp_has_continuation (db_checkpoint db) then 1 else 0)"

lemma lock_one_Inr:
  assumes "lock_one db owner decode = Inr cur"
  shows "case cur of None \<Rightarrow> db_continuation db = []
    | Some c \<Rightarrow> (\<exists>f. db_continuation db = [f] \<and> decode f = Inr c)"
  using assms by (auto simp: lock_one_def res_simps split: list.splits)

end
