(* ===== verification/TopN_Step.thy ===== *)
theory TopN_Step
  imports TopN_Codec Step_Properties
begin

text \<open>
  One durable TopN step (\<open>src/execution/topn/runtime.rs\<close>, function \<open>step\<close>): it locks and decodes
  the continuation, or starts one from the next input chunk, asks the machine for an action,
  lets the database perform it, applies the result, replaces the row and asks the context for
  its receipt.  The SQL primitives that perform an action are the parameters in \<open>topn_prims\<close>.
\<close>

section \<open>The step\<close>

text \<open>
  \<open>tq_control\<close> is the control row (dirty, whether a causal position is stored), \<open>tq_generation\<close>
  the next candidate generation, \<open>tq_perform\<close> the primitives \<open>run_topn_admission\<close>,
  \<open>run_topn_selection\<close>, \<open>run_topn_diff\<close>, \<open>run_topn_cleanup\<close> and \<open>run_topn_frontier\<close>.
\<close>

record topn_prims =
  tq_control :: "topn_fields step_db \<Rightarrow> (bool \<times> bool) result"
  tq_generation :: "topn_fields step_db \<Rightarrow> int result"
  tq_perform :: "topn_action \<Rightarrow> topn_phase \<Rightarrow> step_context \<Rightarrow> topn_fields step_db
     \<Rightarrow> (topn_result \<times> step_context \<times> topn_fields step_db) result"

definition validate_topn_control_state ::
    "topn_prims \<Rightarrow> step_context \<Rightarrow> topn_fields step_db \<Rightarrow> unit result" where
  "validate_topn_control_state q c db =
     bind_res (tq_control q db) (\<lambda>(dirty, has_lsn).
     if dirty \<noteq> has_lsn \<or> (dirty \<and> admission_is_empty (sc_admission c))
     then Inl ''TopN dirty state disagrees with its admission checkpoint'' else Inr ())"

definition initial_topn_drain_phase ::
    "topn_prims \<Rightarrow> topn_machine \<Rightarrow> topn_fields step_db \<Rightarrow> topn_after \<Rightarrow> topn_phase result" where
  "initial_topn_drain_phase q m db after =
     bind_res (tq_generation q db) (\<lambda>g.
     Inr (if tm_limit m = 0 then TDiff g TRemove topn_diff_cursor_default after
          else TSelect g (selection_initial (tm_offset m) (tm_limit m)) after))"

definition start_topn_continuation ::
    "topn_prims \<Rightarrow> topn_machine \<Rightarrow> step_context \<Rightarrow> topn_fields step_db \<Rightarrow> topn_continuation result"
where
  "start_topn_continuation q m c db =
     bind_res (next_chunk c db 0) (\<lambda>found.
     bind_res (ok_or ''runnable TopN has no input chunk'' found) (\<lambda>ch.
     bind_res (input_position_new (cm_stream_id ch) (cm_sequence ch) 0) (\<lambda>input.
     bind_res
       (case cm_kind ch of
          Data \<Rightarrow> Inr (Some input, TAdmit)
        | Frontier \<Rightarrow>
            bind_res (tq_control q db) (\<lambda>(dirty, _).
            if dirty
            then bind_res (initial_topn_drain_phase q m db (TAfterFrontier input)) (\<lambda>p.
                 Inr (None, p))
            else Inr (Some input, TFrontier))) (\<lambda>(i, p).
     Inr \<lparr>tn_input_stream_id = cm_stream_id ch, tn_input = i, tn_phase = p\<rparr>))))"

definition topn_check_input :: "step_context \<Rightarrow> topn_continuation \<Rightarrow> unit result" where
  "topn_check_input c cur =
     bind_res (context_input c 0) (\<lambda>input.
     if tn_input_stream_id cur \<noteq> is_stream_id input
     then Inl ''TopN continuation changed its input stream''
     else case tn_input cur of
       None \<Rightarrow> Inr ()
     | Some i \<Rightarrow>
         if ip_stream_id i \<noteq> is_stream_id input \<or> ip_chunk_seq i \<noteq> is_next input
         then Inl ''TopN continuation is not at its input cursor'' else Inr ())"

definition topn_current ::
    "topn_prims \<Rightarrow> topn_machine \<Rightarrow> step_context \<Rightarrow> topn_fields step_db \<Rightarrow> topn_continuation option
     \<Rightarrow> topn_continuation result" where
  "topn_current q m c db durable =
     (case durable of Some d \<Rightarrow> Inr d | None \<Rightarrow> start_topn_continuation q m c db)"

fun topn_lifecycle :: "topn_phase \<Rightarrow> lifecycle_phase" where
  "topn_lifecycle TAdmit = PhAdmit"
| "topn_lifecycle TFrontier = PhFrontier"
| "topn_lifecycle (TSelect g p a) = PhDrain"
| "topn_lifecycle (TDiff g l c a) = PhDrain"
| "topn_lifecycle (TCleanup g c a) = PhDrain"

definition topn_step :: "topn_prims \<Rightarrow> topn_machine \<Rightarrow> topn_fields kernel_step" where
  "topn_step q m c db =
     bind_res (context_input c 0) (\<lambda>input.
     if length (sc_inputs c) \<noteq> 1 \<or> is_port input \<noteq> 0 \<or> is_producer input \<noteq> Operator
     then Inl ''TopN must have one operator input''
     else
       bind_res (validate_topn_control_state q c db) (\<lambda>_.
       bind_res (lock_one db ''TopN'' decode_topn_fields) (\<lambda>durable.
       bind_res (bind_continuation_authority c (durable \<noteq> None)) (\<lambda>c1.
       bind_res (topn_current q m c1 db durable) (\<lambda>cur.
       bind_res (topn_check_input c1 cur) (\<lambda>_.
       bind_res (topn_action m cur) (\<lambda>action.
       bind_res (tq_perform q action (tn_phase cur) c1 db) (\<lambda>(result, c2, db2).
       bind_res (topn_apply m cur result (sc_transition_budget c2)) (\<lambda>(next_c, facts).
       bind_res (replace_cas c2 db2 (map_option (\<lambda>_. encode_topn_fields cur) durable)
                   (map_option encode_topn_fields next_c) ''TopN'') (\<lambda>(c3, db3).
       bind_res (transition_facts c3 (topn_lifecycle (tn_phase cur)) facts) (\<lambda>(r, c4).
       Inr (r, c4, db3))))))))))))"

definition topn_descriptor :: operator_descriptor where
  "topn_descriptor = \<lparr>od_phases = [PhAdmit, PhDrain, PhFrontier], od_inputs = [OperatorInput],
                      od_output = EffectStreamOutput\<rparr>"

section \<open>Durability\<close>

text \<open>
  What the primitives leave alone: the binding of the continuation in the context, the
  checkpoint and the continuation row.  They only write state relations, payload and streams.
\<close>

definition prims_local :: "topn_prims \<Rightarrow> bool" where
  "prims_local q \<longleftrightarrow>
     (\<forall>a ph c db r c' db'. tq_perform q a ph c db = Inr (r, c', db') \<longrightarrow>
        sc_presence c' = sc_presence c \<and> sc_expected_revision c' = sc_expected_revision c \<and>
        db_checkpoint db' = db_checkpoint db \<and> db_continuation db' = db_continuation db)"

text \<open>A durable state: the flag agrees with the row, and the row is a valid continuation.\<close>

definition topn_durable :: "topn_machine \<Rightarrow> topn_fields step_db \<Rightarrow> bool" where
  "topn_durable m db \<longleftrightarrow>
     authority_agrees db \<and>
     (\<forall>f \<in> set (db_continuation db). \<exists>c. topn_valid m c \<and> f = encode_topn_fields c \<and>
        decode_topn_fields f = Inr c)"

lemma transition_facts_Inr:
  "transition_facts c phase facts = Inr (r, c') \<Longrightarrow>
     (\<exists>n. c' = c\<lparr>sc_state_rows := n\<rparr>) \<and> sc_presence c = Some (has_continuation (sr_completion r))"
  by (auto simp: transition_facts_def record_state_rows_def res_simps dest!: step_transition_Inr
      split: if_splits)

lemma topn_step_rows:
  assumes "topn_step q m c db = Inr (r, c', db')" "prims_local q"
  shows "\<exists>next_c. db_continuation db' = (case next_c of None \<Rightarrow> [] | Some n \<Rightarrow> [encode_topn_fields n])
    \<and> (\<forall>n. next_c = Some n \<longrightarrow> topn_valid m n)
    \<and> sc_presence c' = Some (next_c \<noteq> None) \<and> sc_expected_revision c' = sc_expected_revision c
    \<and> db_checkpoint db' = db_checkpoint db
    \<and> sc_presence c' = Some (has_continuation (sr_completion r))"
proof -
  obtain durable c1 cur act result c2 db2 next_c facts c3 where
    lock: "lock_one db ''TopN'' decode_topn_fields = Inr durable" and
    auth: "bind_continuation_authority c (durable \<noteq> None) = Inr c1" and
    cur: "topn_current q m c1 db durable = Inr cur" and
    perf: "tq_perform q act (tn_phase cur) c1 db = Inr (result, c2, db2)" and
    app: "topn_apply m cur result (sc_transition_budget c2) = Inr (next_c, facts)" and
    rep: "replace_cas c2 db2 (map_option (\<lambda>_. encode_topn_fields cur) durable)
       (map_option encode_topn_fields next_c) ''TopN'' = Inr (c3, db')" and
    tr: "transition_facts c3 (topn_lifecycle (tn_phase cur)) facts = Inr (r, c')"
    using assms(1) unfolding topn_step_def by (auto simp: res_simps split: if_splits)
  have kept: "sc_presence c2 = sc_presence c1" "sc_expected_revision c2 = sc_expected_revision c1"
      "db_checkpoint db2 = db_checkpoint db" "db_continuation db2 = db_continuation db"
    using perf assms(2) unfolding prims_local_def by blast+
  have c1: "sc_expected_revision c1 = sc_expected_revision c"
    using auth by (auto simp: bind_continuation_authority_def split: if_splits option.splits)
  note rep' = replace_cas_Inr[OF rep]
  have rows: "db_continuation db' = (case next_c of None \<Rightarrow> [] | Some n \<Rightarrow> [encode_topn_fields n])"
  proof (cases next_c)
    case None
    then show ?thesis
      using rep rep' lock_one_Inr[OF lock] kept(4) cur
      by (cases durable) (auto simp: replace_cas_def res_simps topn_current_def)
  qed (use rep' in simp)
  have valid: "\<forall>n. next_c = Some n \<longrightarrow> topn_valid m n" using app topn_keeps_valid by blast
  have "sc_presence c' = Some (next_c \<noteq> None)" "sc_expected_revision c' = sc_expected_revision c"
      "sc_presence c' = Some (has_continuation (sr_completion r))"
    using transition_facts_Inr[OF tr] rep' kept c1
    by (cases next_c; auto simp: record_continuation_replace_def)+
  moreover have "db_checkpoint db' = db_checkpoint db"
    using rep' kept(3) by (metis step_db.select_convs(3) step_db.surjective step_db.update_convs(4))
  ultimately show ?thesis using rows valid by blast
qed

lemma kernel_run_committed:
  assumes "kernel_run d step q oid stage b db = Inr (e, db')" "se_transaction e = Committed"
  shows "\<exists>c r c' db1. step c db = Inr (r, c', db1) \<and> step_commit c' db1 r = Inr (e, db')"
proof -
  obtain start where "step_begin q oid stage (length (od_inputs d)) (od_output d = EffectStreamOutput) b
        = Inr start"
      "(case start of
          StartBlocked \<Rightarrow> Inr (step_execution_empty Blocked, db)
        | StartIdle \<Rightarrow> Inr (step_execution_empty Idle, db)
        | StartReady c \<Rightarrow>
            bind_res (contract_validate d c) (\<lambda>_.
            bind_res (step c db) (\<lambda>(r, c', db').
            bind_res (validate_phase d (sr_phase r)) (\<lambda>_.
            step_commit c' db' r)))) = Inr (e, db')"
    using assms(1) by (auto simp: kernel_run_def bind_res_Inr split: if_splits)
  then show ?thesis
    using assms(2)
    by (cases start) (auto simp: step_execution_empty_def not_committed_def res_simps)
qed

lemma topn_commit_durable:
  assumes "topn_step q m c db = Inr (r, c', db1)" "prims_local q"
    "step_commit c' db1 r = Inr (e, db')" "tm_limit m \<le> u64_max" "tm_offset m \<le> u64_max"
  shows "topn_durable m db' \<and> cp_revision (db_checkpoint db') = cp_revision (db_checkpoint db) + 1
    \<and> (se_outcome e = Yield) = (db_continuation db' \<noteq> [])"
proof -
  obtain next_c where step: "db_continuation db1 = (case next_c of None \<Rightarrow> [] | Some n \<Rightarrow> [encode_topn_fields n])"
      "\<forall>n. next_c = Some n \<longrightarrow> topn_valid m n" "sc_presence c' = Some (next_c \<noteq> None)"
      "db_checkpoint db1 = db_checkpoint db"
    using topn_step_rows[OF assms(1,2)] by blast
  obtain db2 where pub: "publish_pending_output c' db1 = Inr db2"
      and rev: "cp_revision (db_checkpoint db2) = sc_expected_revision c'"
      and pres: "sc_presence c' = Some (has_continuation (sr_completion r))"
      and e: "e = step_execution_new (if has_continuation (sr_completion r) then Yield else Progress) (sr_usage r)"
      and db': "db' = db2\<lparr>db_checkpoint := \<lparr>cp_revision = sc_expected_revision c' + 1,
        cp_has_continuation = has_continuation (sr_completion r),
        cp_admitted_rows = int (ap_rows (sc_admission c')),
        cp_admitted_bytes = int (ap_bytes (sc_admission c'))\<rparr>\<rparr>"
    using step_commit_Inr[OF assms(3)] by blast
  have keep: "db_checkpoint db2 = db_checkpoint db1" "db_continuation db2 = db_continuation db1"
    using publish_keeps[OF pub] by simp_all
  have has: "has_continuation (sr_completion r) = (next_c \<noteq> None)" using pres step(3) by simp
  have "decode_topn_fields (encode_topn_fields n) = Inr n" if "topn_valid m n" for n
    using that assms(4,5) by (intro topn_decode_encode[of m]) (simp add: topn_codable_def)
  then show ?thesis
    using step keep rev db' e has
    by (cases next_c) (auto simp: topn_durable_def authority_agrees_def step_execution_new_def)
qed

text \<open>
  C13: A TopN step that commits leaves a durable state that the next step can resume: the
  continuation flag of the checkpoint agrees with the typed row, the row decodes to a valid
  continuation, the outcome tells whether a row is left, and the revision has advanced by one.
  The assumption is that the SQL primitives leave the checkpoint and the continuation alone.\<close>

theorem topn_step_durable:
  assumes "prims_local q" "tm_limit m \<le> u64_max" "tm_offset m \<le> u64_max"
    "kernel_run topn_descriptor (topn_step q m) rows oid stage b db = Inr (e, db')"
    "se_transaction e = Committed"
  shows "topn_durable m db' \<and> cp_revision (db_checkpoint db') = cp_revision (db_checkpoint db) + 1
    \<and> (se_outcome e = Yield) = (db_continuation db' \<noteq> [])"
proof -
  obtain c r c' db1 where "topn_step q m c db = Inr (r, c', db1)" "step_commit c' db1 r = Inr (e, db')"
    using kernel_run_committed[OF assms(4,5)] by blast
  then show ?thesis using topn_commit_durable assms(1-3) by blast
qed

section \<open>A concrete step\<close>

definition kw_budget :: work_budget where
  "kw_budget = \<lparr>max_input_rows = 10, max_input_bytes = 1000,
                max_output_rows = 10, max_output_bytes = 1000\<rparr>"

definition kw_stream :: effect_stream where
  "kw_stream = \<lparr>es_producer = Operator, es_producer_result = 9, es_next = 2, es_first_retained = 1,
     es_latest_data = Some 5, es_published_frontier = None, es_buffered_chunks = 1,
     es_buffered_rows = 4, es_buffered_bytes = 40, es_target_rows = 10, es_target_bytes = 100,
     es_high_chunks = 3, es_high_rows = 1000, es_high_bytes = 1000, es_low_chunks = 1,
     es_low_rows = 10, es_low_bytes = 100, es_backpressured = False,
     es_chunks = [\<lparr>ck_seq = 1, ck_kind = Data, ck_rows = 4, ck_bytes = 40, ck_lsn = 5\<rparr>],
     es_consumers = [((9, 2, 0), \<lparr>cs_next = 1, cs_activation = 0, cs_frontier = 0\<rparr>)]\<rparr>"

definition kw_db :: "topn_fields step_db" where
  "kw_db = \<lparr>db_streams = (\<lambda>i. if i = 1 then Some kw_stream else None), db_published = None,
     db_checkpoint = \<lparr>cp_revision = 3, cp_has_continuation = False, cp_admitted_rows = 0,
       cp_admitted_bytes = 0\<rparr>, db_continuation = []\<rparr>"

definition kw_rows :: begin_rows where
  "kw_rows = \<lparr>br_active = True, br_locked_streams = 2,
     br_checkpoints = [\<lparr>cr_revision = Some 3, cr_has_continuation = Some False,
       cr_admitted_rows = Some 0, cr_admitted_bytes = Some 0\<rparr>],
     br_inputs = [\<lparr>ir_port = Some 0, ir_stream_id = Some 1, ir_kind = Some ''operator'',
       ir_source_oid = None, ir_slot_generation = None, ir_next = Some 1, ir_available = Some 2,
       ir_activation = Some ''0/0'', ir_consumed = Some ''0/0'', ir_source_frontier = None\<rparr>],
     br_outputs = [\<lparr>or_stream_id = Some 2, or_next = Some 1, or_target_rows = Some 10,
       or_target_bytes = Some 100, or_latest_data = None, or_published = None,
       or_backpressured = Some False\<rparr>]\<rparr>"

definition kw_result :: topn_result where
  "kw_result = Admitted \<lparr>ta_facts = \<lparr>pr_usage = \<lparr>input_rows = 3, input_bytes = 30, output_rows = 0,
       output_bytes = 0\<rparr>, pr_state_rows = 3, pr_output = NoOutput\<rparr>,
     ta_target = TContinue \<lparr>ip_stream_id = 1, ip_chunk_seq = 1, ip_row_ordinal = 3\<rparr>\<rparr>"

definition kw_prims :: topn_prims where
  "kw_prims = \<lparr>tq_control = (\<lambda>_. Inr (False, False)), tq_generation = (\<lambda>_. Inr 1),
     tq_perform = (\<lambda>a ph c db. Inr (kw_result, c, db))\<rparr>"

definition kw_machine :: topn_machine where
  "kw_machine = \<lparr>tm_limit = 2, tm_offset = 0, tm_with_ties = False\<rparr>"

lemmas kw_defs = kw_budget_def kw_stream_def kw_db_def kw_rows_def kw_result_def kw_prims_def
  kw_machine_def

lemma kw_lsn: "parse_lsn ''0/0'' = Inr 0"
  by (simp add: parse_lsn_def from_str_radix_def char_digit_def u32_max_def)

definition kw_context :: step_context where
  "kw_context = \<lparr>sc_result_oid = 9, sc_stage_id = 2, sc_quantum_budget = kw_budget,
     sc_transition_budget = kw_budget, sc_expected_revision = 3, sc_had_continuation = False,
     sc_presence = None, sc_admission = \<lparr>ap_rows = 0, ap_bytes = 0\<rparr>,
     sc_continuation_changed = False, sc_input_advanced = False, sc_frontier_output = None,
     sc_state_rows = 0,
     sc_inputs = [\<lparr>is_port = 0, is_stream_id = 1, is_producer = Operator, is_source_oid = None,
       is_slot_generation = None, is_next = 1, is_available = 2, is_activation = 0,
       is_consumed = 0, is_source_frontier = None\<rparr>],
     sc_output = Some \<lparr>os_stream_id = 2, os_next = 1, os_target_rows = 10, os_target_bytes = 100,
       os_latest_data = None, os_published = None, os_pending = None\<rparr>\<rparr>"

lemma kw_begin: "step_begin kw_rows 9 2 (Suc 0) True kw_budget = Inr (StartReady kw_context)"
  by (simp add: step_begin_def kw_rows_def i32_max_def required_def admission_of_row_def
      nonnegative_def input_of_row_def u16_max_def parse_lsn_column_def lsn_of_text_def kw_lsn
      optional_lsn_def begin_output_def output_of_row_def has_pending_def kw_context_def Let_def)

definition kw_next :: topn_continuation where
  "kw_next = \<lparr>tn_input_stream_id = 1,
     tn_input = Some \<lparr>ip_stream_id = 1, ip_chunk_seq = 1, ip_row_ordinal = 3\<rparr>, tn_phase = TAdmit\<rparr>"

lemma kw_step:
  "\<exists>r c. topn_step kw_prims kw_machine kw_context kw_db =
     Inr (r, c, kw_db\<lparr>db_continuation := [encode_topn_fields kw_next]\<rparr>) \<and>
     step_commit c (kw_db\<lparr>db_continuation := [encode_topn_fields kw_next]\<rparr>) r =
     Inr (step_execution_new Yield \<lparr>input_rows = 3, input_bytes = 30, output_rows = 0, output_bytes = 0\<rparr>,
       kw_db\<lparr>db_continuation := [encode_topn_fields kw_next],
         db_checkpoint := \<lparr>cp_revision = 4, cp_has_continuation = True, cp_admitted_rows = 0,
           cp_admitted_bytes = 0\<rparr>\<rparr>) \<and> sr_phase r = PhAdmit"
  by (simp add: topn_step_def kw_context_def kw_db_def kw_prims_def kw_machine_def kw_result_def
      kw_next_def kw_budget_def kw_stream_def context_input_def validate_topn_control_state_def
      lock_one_def bind_continuation_authority_def topn_current_def start_topn_continuation_def
      next_chunk_def read_chunk_def nonnegative_def input_position_new_def topn_check_input_def
      topn_action_def topn_validate_def topn_validate_input_def topn_apply_def
      topn_apply_admission_def primitive_validate_def usage_validate_def validate_dimension_def
      topn_no_output_def replace_cas_def prepare_continuation_replace_def
      record_continuation_replace_def transition_facts_def validate_protocol_def
      record_state_rows_def checked_add_u64_def u64_max_def step_transition_def
      context_output_facts_def pending_output_chunk_def receipt_validate_def
      receipt_output_check_def has_durable_progress_def effects_output_def step_commit_def
      publish_pending_output_def i64_max_def Let_def)

lemma kw_run:
  "kernel_run topn_descriptor (topn_step kw_prims kw_machine) kw_rows 9 2 kw_budget kw_db =
     Inr (step_execution_new Yield \<lparr>input_rows = 3, input_bytes = 30, output_rows = 0, output_bytes = 0\<rparr>,
       kw_db\<lparr>db_continuation := [encode_topn_fields kw_next],
         db_checkpoint := \<lparr>cp_revision = 4, cp_has_continuation = True, cp_admitted_rows = 0,
           cp_admitted_bytes = 0\<rparr>\<rparr>)"
proof -
  have "contract_validate topn_descriptor kw_context = Inr ()"
    by (simp add: contract_validate_def topn_descriptor_def kw_context_def context_input_def)
  then show ?thesis
    using kw_begin kw_step
    by (auto simp: kernel_run_def topn_descriptor_def u16_max_def validate_phase_def supports_phase_def)
qed

theorem topn_step_durable_witness:
  "topn_durable kw_machine (kw_db\<lparr>db_continuation := [encode_topn_fields kw_next],
     db_checkpoint := \<lparr>cp_revision = 4, cp_has_continuation = True, cp_admitted_rows = 0,
       cp_admitted_bytes = 0\<rparr>\<rparr>)"
proof -
  have "prims_local kw_prims" by (auto simp: prims_local_def kw_prims_def)
  then show ?thesis
    using topn_step_durable[OF _ _ _ kw_run]
    by (simp add: kw_machine_def u64_max_def step_execution_new_def)
qed

end
