(* ===== verification/Aggregate_Machine.thy ===== *)
theory Aggregate_Machine
  imports Kernel_Contract
begin

text \<open>
  The Aggregate phase machine (\<open>src/execution/aggregate/machine.rs\<close>): apply an input chunk, then
  drain the queue of dirty groups, rebuilding every aggregate of a group before its output is
  compared and emitted, and forward a frontier only after the drain.
\<close>

section \<open>Data\<close>

datatype agg_after = AfterApply input_position | AfterIdle | AfterFrontier input_position

datatype emit_leg = Decide | InsertPending

datatype agg_phase =
    AgApply
  | AgRebuild int nat agg_after
  | AgEmit int emit_leg agg_after
  | AgFrontier

record agg_continuation =
  ag_input_stream_id :: int
  ag_input :: "input_position option"
  ag_phase :: agg_phase

record agg_machine = am_aggregate_count :: nat

definition agg_machine_new :: "nat \<Rightarrow> agg_machine result" where
  "agg_machine_new n =
     (if n = 0 then Inl ''Aggregate must contain at least one aggregate expression''
      else Inr \<lparr>am_aggregate_count = n\<rparr>)"

datatype agg_action =
    DoApply input_position
  | DoRebuild int nat
  | PrepareOutput int
  | EmitPending int
  | ForwardFrontier input_position

datatype apply_target = ApplyContinue input_position | ApplyDrain int agg_after | ApplyIdle

record applied_page =
  ad_facts :: primitive_facts
  ad_target :: apply_target

record rebuilt_page =
  rb_page :: page_facts
  rb_facts :: primitive_facts

datatype prepared_output =
    Unchanged primitive_facts "int option"
  | Inserted primitive_facts "int option"
  | Deleted primitive_facts "int option"
  | ReplacementRetracted primitive_facts

record pending_output =
  po_facts :: primitive_facts
  po_next :: "int option"

datatype frontier_result =
    Forwarded primitive_facts
  | GlobalGroupQueued primitive_facts int

datatype agg_result =
    Applied applied_page
  | Rebuilt rebuilt_page
  | OutputPrepared prepared_output
  | PendingEmitted pending_output
  | FrontierDone frontier_result

text \<open>\<open>AggregateTransition::Committed\<close>, its only constructor.\<close>

type_synonym agg_transition = "agg_continuation option \<times> primitive_facts"

section \<open>Validation\<close>

definition agg_validate_queue_id :: "int \<Rightarrow> unit result" where
  "agg_validate_queue_id q =
     (if q \<le> 0 then Inl ''Aggregate dirty-group queue id is not positive'' else Inr ())"

definition agg_validate_input :: "input_position \<Rightarrow> unit result" where
  "agg_validate_input i =
     (if ip_stream_id i \<le> 0 \<or> ip_chunk_seq i \<le> 0 \<or> ip_row_ordinal i < 0
      then Inl ''Aggregate input position is invalid'' else Inr ())"

definition agg_validate_after :: "int \<Rightarrow> agg_after \<Rightarrow> unit result" where
  "agg_validate_after stream after =
     (if stream \<le> 0 then Inl ''Aggregate Drain target has an invalid input stream''
      else case after of
        AfterApply i \<Rightarrow>
          bind_res (agg_validate_input i) (\<lambda>_.
          if ip_stream_id i \<noteq> stream then Inl ''Aggregate Drain target changed its input stream''
          else Inr ())
      | AfterIdle \<Rightarrow> Inr ()
      | AfterFrontier f \<Rightarrow>
          bind_res (agg_validate_input f) (\<lambda>_.
          if ip_stream_id f \<noteq> stream \<or> ip_row_ordinal f \<noteq> 0
          then Inl ''Aggregate Drain has an invalid frontier target'' else Inr ()))"

definition agg_validate_internal_page :: "primitive_facts \<Rightarrow> bool \<Rightarrow> unit result" where
  "agg_validate_internal_page f permits_input =
     (if pr_output f \<noteq> NoOutput \<or> output_rows (pr_usage f) \<noteq> 0 \<or> output_bytes (pr_usage f) \<noteq> 0
         \<or> (\<not> permits_input \<and> (input_rows (pr_usage f) \<noteq> 0 \<or> input_bytes (pr_usage f) \<noteq> 0))
      then Inl ''Aggregate internal phase reported external effects'' else Inr ())"

definition agg_validate_no_output :: "primitive_facts \<Rightarrow> unit result" where
  "agg_validate_no_output f =
     (if pr_output f \<noteq> NoOutput \<or> input_rows (pr_usage f) \<noteq> 0 \<or> input_bytes (pr_usage f) \<noteq> 0
         \<or> output_rows (pr_usage f) \<noteq> 0 \<or> output_bytes (pr_usage f) \<noteq> 0
      then Inl ''unchanged Aggregate group emitted an effect'' else Inr ())"

definition agg_validate_one_effect :: "primitive_facts \<Rightarrow> unit result" where
  "agg_validate_one_effect f =
     (if \<not> is_data_output (pr_output f) \<or> input_rows (pr_usage f) \<noteq> 0
         \<or> input_bytes (pr_usage f) \<noteq> 0 \<or> output_rows (pr_usage f) \<noteq> 1
         \<or> output_bytes (pr_usage f) = 0
      then Inl ''Aggregate emission must contain exactly one typed effect row'' else Inr ())"

definition agg_validate :: "agg_machine \<Rightarrow> agg_continuation \<Rightarrow> unit result" where
  "agg_validate m c =
     (if ag_input_stream_id c \<le> 0
         \<or> (case ag_input c of None \<Rightarrow> False | Some i \<Rightarrow> ip_stream_id i \<noteq> ag_input_stream_id c)
      then Inl ''Aggregate continuation has an invalid input stream''
      else case ag_phase c of
        AgApply \<Rightarrow>
          bind_res (ok_or ''Aggregate Apply omitted its input cursor'' (ag_input c)) agg_validate_input
      | AgFrontier \<Rightarrow>
          bind_res (ok_or ''Aggregate frontier omitted its input cursor'' (ag_input c)) (\<lambda>i.
          bind_res (agg_validate_input i) (\<lambda>_.
          if ip_row_ordinal i \<noteq> 0 then Inl ''Aggregate frontier has a data-row position''
          else Inr ()))
      | AgRebuild q ordinal after \<Rightarrow>
          bind_res (agg_validate_queue_id q) (\<lambda>_.
          if ordinal = 0 \<or> am_aggregate_count m < ordinal
          then Inl ''Aggregate ordinal is outside its plan''
          else if ag_input c \<noteq> None then Inl ''Aggregate Drain retained an input cursor''
          else agg_validate_after (ag_input_stream_id c) after)
      | AgEmit q leg after \<Rightarrow>
          bind_res (agg_validate_queue_id q) (\<lambda>_.
          if ag_input c \<noteq> None then Inl ''Aggregate Drain retained an input cursor''
          else agg_validate_after (ag_input_stream_id c) after))"

section \<open>Actions\<close>

definition agg_action_of :: "agg_machine \<Rightarrow> agg_continuation \<Rightarrow> agg_action result" where
  "agg_action_of m c =
     bind_res (agg_validate m c) (\<lambda>_.
     case ag_phase c of
       AgApply \<Rightarrow>
         bind_res (ok_or ''validated Aggregate Apply input'' (ag_input c)) (\<lambda>i. Inr (DoApply i))
     | AgRebuild q ordinal after \<Rightarrow> Inr (DoRebuild q ordinal)
     | AgEmit q leg after \<Rightarrow>
         (case leg of Decide \<Rightarrow> Inr (PrepareOutput q) | InsertPending \<Rightarrow> Inr (EmitPending q))
     | AgFrontier \<Rightarrow>
         bind_res (ok_or ''validated Aggregate frontier input'' (ag_input c)) (\<lambda>i.
         Inr (ForwardFrontier i)))"

section \<open>Transitions\<close>

definition agg_continue ::
    "agg_continuation \<Rightarrow> input_position option \<Rightarrow> agg_phase \<Rightarrow> agg_continuation" where
  "agg_continue c input phase =
     \<lparr>ag_input_stream_id = ag_input_stream_id c, ag_input = input, ag_phase = phase\<rparr>"

definition agg_apply_page ::
    "agg_machine \<Rightarrow> input_position \<Rightarrow> applied_page \<Rightarrow> work_budget \<Rightarrow> agg_transition result" where
  "agg_apply_page m input a b =
     bind_res (primitive_validate (ad_facts a) b) (\<lambda>_.
     bind_res (agg_validate_internal_page (ad_facts a) True) (\<lambda>_.
     if input_rows (pr_usage (ad_facts a)) = 0
     then Inl ''Aggregate Apply made no bounded input progress''
     else
       bind_res
         (case ad_target a of
            ApplyContinue i \<Rightarrow>
              bind_res (agg_validate_input i) (\<lambda>_.
              if ip_stream_id i \<noteq> ip_stream_id input \<or> ip_chunk_seq i \<noteq> ip_chunk_seq input
                 \<or> ip_row_ordinal i \<le> ip_row_ordinal input
              then Inl ''Aggregate Apply continuation did not advance its page''
              else Inr (Some \<lparr>ag_input_stream_id = ip_stream_id input, ag_input = Some i,
                              ag_phase = AgApply\<rparr>))
          | ApplyDrain q after \<Rightarrow>
              bind_res (agg_validate_queue_id q) (\<lambda>_.
              bind_res (agg_validate_after (ip_stream_id input) after) (\<lambda>_.
              Inr (Some \<lparr>ag_input_stream_id = ip_stream_id input, ag_input = None,
                         ag_phase = AgRebuild q 1 after\<rparr>)))
          | ApplyIdle \<Rightarrow> Inr None) (\<lambda>next.
       bind_res (case next of None \<Rightarrow> Inr () | Some n \<Rightarrow> agg_validate m n) (\<lambda>_.
       Inr (next, ad_facts a)))))"

definition agg_after_of :: "agg_continuation \<Rightarrow> agg_after result" where
  "agg_after_of c =
     (case ag_phase c of
        AgRebuild q ordinal after \<Rightarrow> Inr after
      | AgEmit q leg after \<Rightarrow> Inr after
      | _ \<Rightarrow> Inl ''the expected action already established the phase'')"

definition agg_apply_rebuild ::
    "agg_machine \<Rightarrow> agg_continuation \<Rightarrow> int \<Rightarrow> nat \<Rightarrow> rebuilt_page \<Rightarrow> work_budget
     \<Rightarrow> agg_transition result" where
  "agg_apply_rebuild m c q ordinal r b =
     (let page = rb_page r; f = rb_facts r in
      bind_res (page_facts_validate page b) (\<lambda>_.
      bind_res (primitive_validate f b) (\<lambda>_.
      if pr_usage f \<noteq> pf_usage page \<or> pr_output f \<noteq> NoOutput \<or> pr_state_rows f = 0
      then Inl ''Aggregate rebuild primitive facts are inconsistent''
      else if output_rows (pf_usage page) \<noteq> 0 \<or> output_bytes (pf_usage page) \<noteq> 0
      then Inl ''Aggregate rebuild emitted output''
      else if \<not> pf_complete page \<and> input_rows (pf_usage page) = 0
      then Inl ''partial Aggregate rebuild made no bounded progress''
      else if (case pf_last_row_id page of None \<Rightarrow> False | Some row \<Rightarrow> row \<le> 0)
      then Inl ''Aggregate rebuild returned a non-positive row cursor''
      else
        bind_res (agg_after_of c) (\<lambda>after.
        Inr (Some (agg_continue c None
               (if \<not> pf_complete page then AgRebuild q ordinal after
                else if ordinal < am_aggregate_count m then AgRebuild q (ordinal + 1) after
                else AgEmit q Decide after)), f)))))"

definition agg_after_completed_group ::
    "agg_continuation \<Rightarrow> int \<Rightarrow> int option \<Rightarrow> agg_after \<Rightarrow> agg_continuation option result" where
  "agg_after_completed_group c completed next_group after =
     (case next_group of
        Some q \<Rightarrow>
          bind_res (agg_validate_queue_id q) (\<lambda>_.
          if q \<le> completed then Inl ''Aggregate dirty-group queue did not advance''
          else Inr (Some (agg_continue c None (AgRebuild q 1 after))))
      | None \<Rightarrow>
          Inr (case after of
                 AfterApply i \<Rightarrow> Some (agg_continue c (Some i) AgApply)
               | AfterIdle \<Rightarrow> None
               | AfterFrontier f \<Rightarrow> Some (agg_continue c (Some f) AgFrontier)))"

definition agg_prepared_facts ::
    "prepared_output \<Rightarrow> (primitive_facts \<times> int option option) result" where
  "agg_prepared_facts p =
     (case p of
        Unchanged f n \<Rightarrow> bind_res (agg_validate_no_output f) (\<lambda>_. Inr (f, Some n))
      | Inserted f n \<Rightarrow> bind_res (agg_validate_one_effect f) (\<lambda>_. Inr (f, Some n))
      | Deleted f n \<Rightarrow> bind_res (agg_validate_one_effect f) (\<lambda>_. Inr (f, Some n))
      | ReplacementRetracted f \<Rightarrow> bind_res (agg_validate_one_effect f) (\<lambda>_. Inr (f, None)))"

definition agg_apply_prepared ::
    "agg_continuation \<Rightarrow> int \<Rightarrow> prepared_output \<Rightarrow> work_budget \<Rightarrow> agg_transition result" where
  "agg_apply_prepared c q p b =
     bind_res (agg_prepared_facts p) (\<lambda>(f, completed).
     bind_res (primitive_validate f b) (\<lambda>_.
     bind_res (agg_after_of c) (\<lambda>after.
     bind_res
       (case completed of
          None \<Rightarrow> Inr (Some (agg_continue c None (AgEmit q InsertPending after)))
        | Some next_group \<Rightarrow> agg_after_completed_group c q next_group after) (\<lambda>n.
     Inr (n, f)))))"

definition agg_apply_pending ::
    "agg_continuation \<Rightarrow> int \<Rightarrow> pending_output \<Rightarrow> work_budget \<Rightarrow> agg_transition result" where
  "agg_apply_pending c q p b =
     bind_res (primitive_validate (po_facts p) b) (\<lambda>_.
     bind_res (agg_validate_one_effect (po_facts p)) (\<lambda>_.
     bind_res (agg_after_of c) (\<lambda>after.
     bind_res (agg_after_completed_group c q (po_next p) after) (\<lambda>n.
     Inr (n, po_facts p)))))"

definition agg_apply_frontier ::
    "agg_continuation \<Rightarrow> frontier_result \<Rightarrow> work_budget \<Rightarrow> agg_transition result" where
  "agg_apply_frontier c r b =
     (case r of
        Forwarded f \<Rightarrow>
          bind_res (validate_protocol f b PhFrontier Finished) (\<lambda>_.
          if \<not> is_frontier_output (pr_output f) \<or> pr_state_rows f \<noteq> 0
             \<or> input_rows (pr_usage f) \<noteq> 0 \<or> input_bytes (pr_usage f) \<noteq> 0
          then Inl ''Aggregate frontier commit is inconsistent''
          else Inr (None, f))
      | GlobalGroupQueued f q \<Rightarrow>
          bind_res (validate_protocol f b PhFrontier Continue) (\<lambda>_.
          bind_res (agg_validate_internal_page f False) (\<lambda>_.
          bind_res (agg_validate_queue_id q) (\<lambda>_.
          if pr_state_rows f = 0 then Inl ''global Aggregate bootstrap omitted its continuation''
          else
            bind_res (ok_or ''global Aggregate bootstrap lost its frontier'' (ag_input c)) (\<lambda>i.
            Inr (Some (agg_continue c None (AgRebuild q 1 (AfterFrontier i))), f))))))"

definition agg_apply ::
    "agg_machine \<Rightarrow> agg_continuation \<Rightarrow> agg_result \<Rightarrow> work_budget \<Rightarrow> agg_transition result" where
  "agg_apply m c result b =
     bind_res (agg_action_of m c) (\<lambda>expected.
     case (expected, result) of
       (DoApply input, Applied a) \<Rightarrow> agg_apply_page m input a b
     | (DoRebuild q ordinal, Rebuilt r) \<Rightarrow> agg_apply_rebuild m c q ordinal r b
     | (PrepareOutput q, OutputPrepared p) \<Rightarrow> agg_apply_prepared c q p b
     | (EmitPending q, PendingEmitted p) \<Rightarrow> agg_apply_pending c q p b
     | (ForwardFrontier i, FrontierDone r) \<Rightarrow> agg_apply_frontier c r b
     | _ \<Rightarrow> Inl ''database returned facts for another Aggregate phase'')"

end
