(* ===== verification/Aggregate_Properties.thy ===== *)
theory Aggregate_Properties
  imports Aggregate_Machine Resumable_Machine
begin

text \<open>
  The Aggregate machine (\<open>src/execution/aggregate/machine.rs\<close>) keeps its continuation valid and
  its budget, walks the queue of dirty groups in order, and rebuilds every aggregate of a group
  before it emits the group.
\<close>

section \<open>Validation facts\<close>

lemma agg_queue_id_Inr [res_simps]: "agg_validate_queue_id q = Inr () \<longleftrightarrow> 0 < q"
  by (auto simp: agg_validate_queue_id_def)

lemma agg_input_Inr [res_simps]:
  "agg_validate_input i = Inr () \<longleftrightarrow>
     0 < ip_stream_id i \<and> 0 < ip_chunk_seq i \<and> 0 \<le> ip_row_ordinal i"
  by (auto simp: agg_validate_input_def)

lemma agg_after_Inr:
  "agg_validate_after stream after = Inr () \<longleftrightarrow> 0 < stream \<and>
     (case after of
        AfterApply i \<Rightarrow> agg_validate_input i = Inr () \<and> ip_stream_id i = stream
      | AfterIdle \<Rightarrow> True
      | AfterFrontier f \<Rightarrow>
          agg_validate_input f = Inr () \<and> ip_stream_id f = stream \<and> ip_row_ordinal f = 0)"
  by (cases after) (auto simp: agg_validate_after_def bind_res_Inr)

lemma agg_internal_page_Inr [res_simps]:
  "agg_validate_internal_page f p = Inr () \<longleftrightarrow>
     pr_output f = NoOutput \<and> output_rows (pr_usage f) = 0 \<and> output_bytes (pr_usage f) = 0 \<and>
     (p \<or> input_rows (pr_usage f) = 0 \<and> input_bytes (pr_usage f) = 0)"
  by (auto simp: agg_validate_internal_page_def)

lemma agg_no_output_Inr [res_simps]:
  "agg_validate_no_output f = Inr () \<longleftrightarrow>
     pr_output f = NoOutput \<and> input_rows (pr_usage f) = 0 \<and> input_bytes (pr_usage f) = 0 \<and>
     output_rows (pr_usage f) = 0 \<and> output_bytes (pr_usage f) = 0"
  by (auto simp: agg_validate_no_output_def)

lemma agg_one_effect_Inr [res_simps]:
  "agg_validate_one_effect f = Inr () \<longleftrightarrow>
     is_data_output (pr_output f) \<and> input_rows (pr_usage f) = 0 \<and> input_bytes (pr_usage f) = 0 \<and>
     output_rows (pr_usage f) = 1 \<and> output_bytes (pr_usage f) \<noteq> 0"
  by (auto simp: agg_validate_one_effect_def)

definition agg_valid :: "agg_machine \<Rightarrow> agg_continuation \<Rightarrow> bool" where
  "agg_valid m c \<longleftrightarrow> agg_validate m c = Inr ()"

lemma agg_valid_iff:
  "agg_valid m c \<longleftrightarrow> 0 < ag_input_stream_id c \<and>
     (\<forall>i. ag_input c = Some i \<longrightarrow> ip_stream_id i = ag_input_stream_id c) \<and>
     (case ag_phase c of
        AgApply \<Rightarrow> \<exists>i. ag_input c = Some i \<and> agg_validate_input i = Inr ()
      | AgFrontier \<Rightarrow> \<exists>i. ag_input c = Some i \<and> agg_validate_input i = Inr () \<and> ip_row_ordinal i = 0
      | AgRebuild q ordinal after \<Rightarrow> 0 < q \<and> 0 < ordinal \<and> ordinal \<le> am_aggregate_count m \<and>
          ag_input c = None \<and> agg_validate_after (ag_input_stream_id c) after = Inr ()
      | AgEmit q leg after \<Rightarrow> 0 < q \<and> ag_input c = None \<and>
          agg_validate_after (ag_input_stream_id c) after = Inr ())"
  unfolding agg_valid_def agg_validate_def
  by (cases "ag_phase c"; cases "ag_input c") (auto simp: bind_res_Inr agg_queue_id_Inr)

lemma agg_action_Inr:
  "agg_action_of m c = Inr a \<longleftrightarrow> agg_valid m c \<and>
     (case ag_phase c of
        AgApply \<Rightarrow> (\<exists>i. ag_input c = Some i \<and> a = DoApply i)
      | AgRebuild q ordinal after \<Rightarrow> a = DoRebuild q ordinal
      | AgEmit q leg after \<Rightarrow> a = (case leg of Decide \<Rightarrow> PrepareOutput q | InsertPending \<Rightarrow> EmitPending q)
      | AgFrontier \<Rightarrow> (\<exists>i. ag_input c = Some i \<and> a = ForwardFrontier i))"
  unfolding agg_action_of_def agg_valid_def
  by (cases "ag_phase c") (auto simp: bind_res_Inr ok_or_Inr split: emit_leg.splits)

section \<open>Where a drain hands over\<close>

fun agg_resume :: "agg_continuation \<Rightarrow> agg_after \<Rightarrow> agg_continuation option" where
  "agg_resume c (AfterApply i) =
     Some \<lparr>ag_input_stream_id = ag_input_stream_id c, ag_input = Some i, ag_phase = AgApply\<rparr>"
| "agg_resume c AfterIdle = None"
| "agg_resume c (AfterFrontier f) =
     Some \<lparr>ag_input_stream_id = ag_input_stream_id c, ag_input = Some f, ag_phase = AgFrontier\<rparr>"

text \<open>What follows a group that is complete.\<close>

definition agg_next_group :: "agg_continuation \<Rightarrow> int option \<Rightarrow> agg_after \<Rightarrow> agg_continuation option" where
  "agg_next_group c next_group after =
     (case next_group of
        Some q \<Rightarrow> Some \<lparr>ag_input_stream_id = ag_input_stream_id c, ag_input = None,
                       ag_phase = AgRebuild q 1 after\<rparr>
      | None \<Rightarrow> agg_resume c after)"

lemma agg_completed_Inr [res_simps]:
  "agg_after_completed_group c q next_group after = Inr n \<longleftrightarrow>
     n = agg_next_group c next_group after \<and> (\<forall>q'. next_group = Some q' \<longrightarrow> 0 < q' \<and> q < q')"
  by (cases next_group; cases after)
    (auto simp: agg_after_completed_group_def agg_next_group_def agg_continue_def res_simps)

section \<open>One transition, by phase\<close>

definition agg_rebuilt :: "agg_machine \<Rightarrow> int \<Rightarrow> nat \<Rightarrow> agg_after \<Rightarrow> bool \<Rightarrow> agg_phase" where
  "agg_rebuilt m q ordinal after complete =
     (if \<not> complete then AgRebuild q ordinal after
      else if ordinal < am_aggregate_count m then AgRebuild q (ordinal + 1) after
      else AgEmit q Decide after)"

lemma agg_applyE:
  assumes "agg_apply m c r b = Inr (n, f)"
  obtains
    (apply_page) i a where "ag_phase c = AgApply" "ag_input c = Some i" "r = Applied a"
      "agg_apply_page m i a b = Inr (n, f)"
  | (rebuild) q ordinal after complete where "ag_phase c = AgRebuild q ordinal after"
      "n = Some \<lparr>ag_input_stream_id = ag_input_stream_id c, ag_input = None,
                ag_phase = agg_rebuilt m q ordinal after complete\<rparr>"
      "primitive_validate f b = Inr ()" "pr_output f = NoOutput" "0 < pr_state_rows f"
      "\<not> complete \<Longrightarrow> 0 < input_rows (pr_usage f)"
  | (unchanged) q after next_group where "ag_phase c = AgEmit q Decide after"
      "n = agg_next_group c next_group after" "\<And>q'. next_group = Some q' \<Longrightarrow> 0 < q' \<and> q < q'"
      "primitive_validate f b = Inr ()" "agg_validate_no_output f = Inr ()"
      "r = OutputPrepared (Unchanged f next_group)"
  | (changed) q after next_group where "ag_phase c = AgEmit q Decide after"
      "n = agg_next_group c next_group after" "\<And>q'. next_group = Some q' \<Longrightarrow> 0 < q' \<and> q < q'"
      "primitive_validate f b = Inr ()" "agg_validate_one_effect f = Inr ()"
      "r = OutputPrepared (Inserted f next_group) \<or> r = OutputPrepared (Deleted f next_group)"
  | (retracted) q after where "ag_phase c = AgEmit q Decide after"
      "n = Some \<lparr>ag_input_stream_id = ag_input_stream_id c, ag_input = None,
                ag_phase = AgEmit q InsertPending after\<rparr>"
      "primitive_validate f b = Inr ()" "agg_validate_one_effect f = Inr ()"
      "r = OutputPrepared (ReplacementRetracted f)"
  | (pending) q after next_group where "ag_phase c = AgEmit q InsertPending after"
      "n = agg_next_group c next_group after" "\<And>q'. next_group = Some q' \<Longrightarrow> 0 < q' \<and> q < q'"
      "primitive_validate f b = Inr ()" "agg_validate_one_effect f = Inr ()"
  | (forwarded) i where "ag_phase c = AgFrontier" "ag_input c = Some i" "n = None"
      "primitive_validate f b = Inr ()" "is_frontier_output (pr_output f)"
      "input_rows (pr_usage f) = 0" "pr_state_rows f = 0"
  | (bootstrap) i q where "ag_phase c = AgFrontier" "ag_input c = Some i" "0 < q"
      "n = Some \<lparr>ag_input_stream_id = ag_input_stream_id c, ag_input = None,
                ag_phase = AgRebuild q 1 (AfterFrontier i)\<rparr>"
      "primitive_validate f b = Inr ()" "agg_validate_internal_page f False = Inr ()"
      "0 < pr_state_rows f"
proof -
  obtain act where act: "agg_action_of m c = Inr act"
      "(case (act, r) of
         (DoApply input, Applied a) \<Rightarrow> agg_apply_page m input a b
       | (DoRebuild q ordinal, Rebuilt r) \<Rightarrow> agg_apply_rebuild m c q ordinal r b
       | (PrepareOutput q, OutputPrepared p) \<Rightarrow> agg_apply_prepared c q p b
       | (EmitPending q, PendingEmitted p) \<Rightarrow> agg_apply_pending c q p b
       | (ForwardFrontier i, FrontierDone r) \<Rightarrow> agg_apply_frontier c r b
       | _ \<Rightarrow> Inl ''database returned facts for another Aggregate phase'') = Inr (n, f)"
    using assms by (auto simp: agg_apply_def bind_res_Inr)
  show thesis
  proof (cases "ag_phase c")
    case AgApply
    then show thesis using act apply_page by (cases r) (auto simp: agg_action_Inr)
  next
    case (AgRebuild q ordinal after)
    then obtain rb where rb: "agg_apply_rebuild m c q ordinal rb b = Inr (n, f)"
      using act by (cases r) (auto simp: agg_action_Inr)
    show thesis
      by (rule rebuild[OF AgRebuild, of "pf_complete (rb_page rb)"])
        (use rb AgRebuild in \<open>auto simp: agg_apply_rebuild_def agg_after_of_def agg_continue_def
          agg_rebuilt_def Let_def bind_res_Inr bind_res_unit split: if_splits\<close>)
  next
    case (AgEmit q leg after)
    show thesis
    proof (cases leg)
      case Decide
      then obtain p where r: "r = OutputPrepared p" and p: "agg_apply_prepared c q p b = Inr (n, f)"
        using act AgEmit by (cases r) (auto simp: agg_action_Inr)
      have after: "agg_after_of c = Inr after" using AgEmit by (simp add: agg_after_of_def)
      show thesis
      proof (cases p)
        case (Unchanged g next_group)
        then show thesis using unchanged[of q after next_group] p after r AgEmit Decide
          by (simp add: agg_apply_prepared_def agg_prepared_facts_def bind_res_Inr bind_res_unit
              agg_completed_Inr) blast
      next
        case (Inserted g next_group)
        then show thesis using changed[of q after next_group] p after r AgEmit Decide
          by (simp add: agg_apply_prepared_def agg_prepared_facts_def bind_res_Inr bind_res_unit
              agg_completed_Inr) blast
      next
        case (Deleted g next_group)
        then show thesis using changed[of q after next_group] p after r AgEmit Decide
          by (simp add: agg_apply_prepared_def agg_prepared_facts_def bind_res_Inr bind_res_unit
              agg_completed_Inr) blast
      next
        case (ReplacementRetracted g)
        then show thesis using retracted[of q after] p after r AgEmit Decide
          by (simp add: agg_apply_prepared_def agg_prepared_facts_def bind_res_Inr bind_res_unit
              agg_continue_def) blast
      qed
    next
      case InsertPending
      then obtain p where p: "agg_apply_pending c q p b = Inr (n, f)"
        using act AgEmit by (cases r) (auto simp: agg_action_Inr)
      have "agg_after_of c = Inr after" using AgEmit by (simp add: agg_after_of_def)
      then show thesis using pending[of q after "po_next p"] p AgEmit InsertPending
        by (simp add: agg_apply_pending_def bind_res_Inr bind_res_unit agg_completed_Inr) blast
    qed
  next
    case AgFrontier
    then obtain i fr where i: "ag_input c = Some i" and fr: "agg_apply_frontier c fr b = Inr (n, f)"
      using act by (cases r) (auto simp: agg_action_Inr)
    show thesis
    proof (cases fr)
      case (Forwarded g)
      then show thesis using forwarded[OF AgFrontier i] fr
        by (auto simp: agg_apply_frontier_def bind_res_Inr bind_res_unit validate_protocol_Inr
            split: if_splits)
    next
      case (GlobalGroupQueued g q)
      then show thesis using bootstrap[OF AgFrontier i, of q] fr i
        by (auto simp: agg_apply_frontier_def agg_continue_def bind_res_Inr bind_res_unit
            agg_queue_id_Inr validate_protocol_Inr split: if_splits)
    qed
  qed
qed

lemma agg_apply_page_Inr:
  assumes "agg_apply_page m i a b = Inr (n, f)"
  shows "primitive_validate f b = Inr () \<and> agg_validate_internal_page f True = Inr () \<and>
    0 < input_rows (pr_usage f) \<and> (\<forall>c'. n = Some c' \<longrightarrow> agg_valid m c' \<and>
      ag_input_stream_id c' = ip_stream_id i \<and>
      (case ag_phase c' of
         AgApply \<Rightarrow> (\<exists>i'. ag_input c' = Some i' \<and> ip_chunk_seq i' = ip_chunk_seq i \<and>
                       ip_row_ordinal i < ip_row_ordinal i')
       | AgRebuild q ordinal after \<Rightarrow> ordinal = 1
       | _ \<Rightarrow> False))"
  using assms
  by (cases "ad_target a")
    (auto simp: agg_apply_page_def bind_res_Inr bind_res_unit agg_valid_def split: if_splits)

section \<open>The machine contract\<close>

lemma agg_apply_valid: "agg_apply m c r b = Inr (n, f) \<Longrightarrow> agg_valid m c"
  by (auto simp: agg_apply_def bind_res_Inr agg_action_Inr)

lemma agg_next_group_valid:
  assumes "agg_next_group c next_group after = Some c'" "0 < ag_input_stream_id c"
    "agg_validate_after (ag_input_stream_id c) after = Inr ()" "0 < am_aggregate_count m"
    "\<And>q'. next_group = Some q' \<Longrightarrow> 0 < q'"
  shows "agg_valid m c'"
  using assms
  by (cases next_group; cases after) (auto simp: agg_next_group_def agg_valid_iff agg_after_Inr)

lemma agg_keeps_valid:
  assumes "agg_apply m c r b = Inr (Some c', f)" "0 < am_aggregate_count m"
  shows "agg_valid m c'"
proof -
  have v: "agg_valid m c" using assms(1) by (rule agg_apply_valid)
  from assms(1) show ?thesis
  proof (cases rule: agg_applyE)
    case (apply_page i a)
    then show ?thesis using agg_apply_page_Inr by blast
  next
    case (rebuild q ordinal after complete)
    then show ?thesis using v by (auto simp: agg_valid_iff agg_rebuilt_def)
  next
    case (unchanged q after next_group)
    then show ?thesis using v assms(2) agg_next_group_valid[of c next_group after c' m]
      by (auto simp: agg_valid_iff)
  next
    case (changed q after next_group)
    then show ?thesis using v assms(2) agg_next_group_valid[of c next_group after c' m]
      by (auto simp: agg_valid_iff)
  next
    case (pending q after next_group)
    then show ?thesis using v assms(2) agg_next_group_valid[of c next_group after c' m]
      by (auto simp: agg_valid_iff)
  next
    case (bootstrap i q)
    then show ?thesis using v assms(2) by (auto simp: agg_valid_iff agg_after_Inr)
  qed (use v in \<open>auto simp: agg_valid_iff\<close>)
qed

lemma agg_within_budget:
  assumes "agg_apply m c r b = Inr (n, f)"
  shows "primitive_validate f b = Inr ()"
  using assms by (cases rule: agg_applyE) (auto dest: agg_apply_page_Inr)

lemma agg_frontier_only:
  assumes "agg_apply m c r b = Inr (n, f)" "is_frontier_output (pr_output f)"
  shows "n = None \<and> ag_phase c = AgFrontier"
proof -
  have data: "\<not> is_data_output (pr_output f)" using assms(2) by (cases "pr_output f") auto
  from assms(1) show ?thesis
    by (cases rule: agg_applyE)
      (use assms(2) data in \<open>auto dest!: agg_apply_page_Inr
        simp: agg_internal_page_Inr agg_no_output_Inr agg_one_effect_Inr\<close>)
qed

fun agg_epoch :: "agg_continuation \<Rightarrow> agg_after option" where
  "agg_epoch c =
     (case ag_phase c of AgRebuild q ordinal after \<Rightarrow> Some after | AgEmit q leg after \<Rightarrow> Some after
      | _ \<Rightarrow> None)"

lemma agg_resume_stream:
  "ag_input_stream_id c = ag_input_stream_id c' \<Longrightarrow> agg_resume c e = agg_resume c' e"
  by (cases e) auto

lemma agg_next_group_epoch:
  "n = agg_next_group c next_group after \<Longrightarrow>
     (\<exists>c'. n = Some c' \<and> agg_epoch c' = Some after \<and> agg_resume c' after = agg_resume c after) \<or>
     n = agg_resume c after"
  by (cases next_group) (auto simp: agg_next_group_def intro: agg_resume_stream)

lemma agg_epoch_kept:
  assumes "agg_apply m c r b = Inr (n, f)" "agg_epoch c = Some e"
  shows "(\<exists>c'. n = Some c' \<and> agg_epoch c' = Some e \<and> agg_resume c' e = agg_resume c e) \<or>
    n = agg_resume c e"
  using assms(1)
proof (cases rule: agg_applyE)
  case (rebuild q ordinal after complete)
  then show ?thesis using assms(2)
    by (auto simp: agg_rebuilt_def intro!: agg_resume_stream)
next
  case (retracted q after)
  then show ?thesis using assms(2) by (auto intro!: agg_resume_stream)
qed (use assms(2) agg_next_group_epoch in auto)

text \<open>The runtime builds the machine of a plan for every step and applies the facts to it.\<close>

definition agg_step_machine ::
    "nat \<Rightarrow> agg_continuation \<Rightarrow> agg_result \<Rightarrow> work_budget \<Rightarrow> agg_transition result" where
  "agg_step_machine n c r b = bind_res (agg_machine_new n) (\<lambda>m. agg_apply m c r b)"

abbreviation agg_of :: "nat \<Rightarrow> agg_machine" where
  "agg_of n \<equiv> \<lparr>am_aggregate_count = n\<rparr>"

lemma agg_step_machine_Inr:
  "agg_step_machine n c r b = Inr t \<longleftrightarrow> 0 < n \<and> agg_apply (agg_of n) c r b = Inr t"
  by (auto simp: agg_step_machine_def agg_machine_new_def)

interpretation aggregate: draining_machine
    "agg_valid (agg_of n)" "agg_step_machine n" agg_epoch agg_resume
  for n
proof
  fix c r b n' f
  assume "agg_step_machine n c r b = Inr (n', f)"
  then show "agg_valid (agg_of n) c" "primitive_validate f b = Inr ()"
    by (auto simp: agg_step_machine_Inr intro: agg_apply_valid agg_within_budget)
next
  fix c r b c' f
  assume "agg_step_machine n c r b = Inr (Some c', f)"
  then show "agg_valid (agg_of n) c'"
    by (auto simp: agg_step_machine_Inr intro: agg_keeps_valid)
next
  fix c r b n' f
  assume "agg_step_machine n c r b = Inr (n', f)" "is_frontier_output (pr_output f)"
  then show "n' = None" by (auto simp: agg_step_machine_Inr dest: agg_frontier_only)
next
  fix c r b n' f e
  assume "agg_step_machine n c r b = Inr (n', f)" "agg_epoch c = Some e"
  then show "(\<exists>c'. n' = Some c' \<and> agg_epoch c' = Some e \<and> agg_resume c' e = agg_resume c e) \<or>
      n' = agg_resume c e"
    unfolding agg_step_machine_Inr by (elim conjE) (rule agg_epoch_kept)
qed

section \<open>The order of a drain\<close>

text \<open>Where a drain stands: the group, then its aggregates, its decision, its pending row.\<close>

definition agg_stage :: "agg_machine \<Rightarrow> agg_phase \<Rightarrow> (int \<times> nat) option" where
  "agg_stage m p =
     (case p of
        AgRebuild q ordinal after \<Rightarrow> Some (q, ordinal)
      | AgEmit q Decide after \<Rightarrow> Some (q, am_aggregate_count m + 1)
      | AgEmit q InsertPending after \<Rightarrow> Some (q, am_aggregate_count m + 2)
      | _ \<Rightarrow> None)"

definition stage_before :: "int \<times> nat \<Rightarrow> int \<times> nat \<Rightarrow> bool" where
  "stage_before x y \<longleftrightarrow> fst x < fst y \<or> (fst x = fst y \<and> snd x < snd y)"

text \<open>
  One step of a drain: the next aggregate of the group, its decision after the last one, its
  pending row after a retraction, the first aggregate of a later group, or the same rebuild again
  after a partial page that read rows.
\<close>

lemma agg_stage_step:
  assumes "agg_apply m c r b = Inr (Some c', f)" "agg_stage m (ag_phase c) = Some x"
    "agg_stage m (ag_phase c') = Some y"
  shows "stage_before x y \<or> (c' = c \<and> 0 < input_rows (pr_usage f))"
    "snd y \<le> am_aggregate_count m + 2" "fst x < fst y \<Longrightarrow> snd y = 1"
    "fst x = fst y \<Longrightarrow> snd y \<le> snd x + 1"
    "fst x < fst y \<Longrightarrow> snd x = am_aggregate_count m + 1 \<or> snd x = am_aggregate_count m + 2"
proof -
  have v: "agg_valid m c" using assms(1) by (rule agg_apply_valid)
  have next_group: "fst x < fst y \<and> snd y = 1"
    if "Some c' = agg_next_group c next_group after" "\<And>q'. next_group = Some q' \<Longrightarrow> 0 < q' \<and> fst x < q'"
    for next_group after
    using that assms(3) by (cases next_group; cases after) (auto simp: agg_next_group_def agg_stage_def)
  have "(stage_before x y \<or> (c' = c \<and> 0 < input_rows (pr_usage f))) \<and>
     snd y \<le> am_aggregate_count m + 2 \<and> (fst x < fst y \<longrightarrow> snd y = 1) \<and>
     (fst x = fst y \<longrightarrow> snd y \<le> snd x + 1) \<and>
     (fst x < fst y \<longrightarrow> snd x = am_aggregate_count m + 1 \<or> snd x = am_aggregate_count m + 2)"
    using assms(1)
  proof (cases rule: agg_applyE)
    case (rebuild q ordinal after complete)
    have c: "c = \<lparr>ag_input_stream_id = ag_input_stream_id c, ag_input = None,
        ag_phase = AgRebuild q ordinal after\<rparr>"
      using v rebuild(1) by (cases c) (auto simp: agg_valid_iff)
    show ?thesis
      using rebuild assms(2,3) v c
      by (auto simp: agg_rebuilt_def agg_stage_def stage_before_def agg_valid_iff split: if_splits)
  next
    case (unchanged q after next_group)
    then have "fst x = q" "snd x = am_aggregate_count m + 1 \<or> snd x = am_aggregate_count m + 2"
      using assms(2) by (auto simp: agg_stage_def)
    then show ?thesis using next_group[of next_group after] unchanged by (auto simp: stage_before_def)
  next
    case (changed q after next_group)
    then have "fst x = q" "snd x = am_aggregate_count m + 1 \<or> snd x = am_aggregate_count m + 2"
      using assms(2) by (auto simp: agg_stage_def)
    then show ?thesis using next_group[of next_group after] changed by (auto simp: stage_before_def)
  next
    case (pending q after next_group)
    then have "fst x = q" "snd x = am_aggregate_count m + 1 \<or> snd x = am_aggregate_count m + 2"
      using assms(2) by (auto simp: agg_stage_def)
    then show ?thesis using next_group[of next_group after] pending by (auto simp: stage_before_def)
  next
    case (retracted q after)
    then show ?thesis using assms(2,3) by (auto simp: agg_stage_def stage_before_def)
  qed (use assms(2) in \<open>auto simp: agg_stage_def\<close>)
  then show "stage_before x y \<or> (c' = c \<and> 0 < input_rows (pr_usage f))"
    "snd y \<le> am_aggregate_count m + 2" "fst x < fst y \<Longrightarrow> snd y = 1"
    "fst x = fst y \<Longrightarrow> snd y \<le> snd x + 1"
    "fst x < fst y \<Longrightarrow> snd x = am_aggregate_count m + 1 \<or> snd x = am_aggregate_count m + 2" by blast+
qed

text \<open>Every committed primitive emits at most one row, and only while its group is emitted.\<close>

lemma agg_emits_one:
  assumes "agg_apply m c r b = Inr (n, f)"
  shows "output_rows (pr_usage f) \<le> 1"
    "0 < output_rows (pr_usage f) \<Longrightarrow> \<exists>q leg after. ag_phase c = AgEmit q leg after"
proof -
  have "output_rows (pr_usage f) \<le> 1 \<and>
    (0 < output_rows (pr_usage f) \<longrightarrow> (\<exists>q leg after. ag_phase c = AgEmit q leg after))"
    using assms
  proof (cases rule: agg_applyE)
    case (forwarded i)
    then show ?thesis by (cases "pr_output f") (auto simp: primitive_validate_Inr res_simps)
  next
    case (rebuild q ordinal after complete)
    then show ?thesis by (auto simp: primitive_validate_Inr res_simps)
  qed (auto dest!: agg_apply_page_Inr
      simp: agg_internal_page_Inr agg_no_output_Inr agg_one_effect_Inr)
  then show "output_rows (pr_usage f) \<le> 1"
    "0 < output_rows (pr_usage f) \<Longrightarrow> \<exists>q leg after. ag_phase c = AgEmit q leg after" by blast+
qed

end
