(* ===== verification/Aggregate_Codec.thy ===== *)
theory Aggregate_Codec
  imports Aggregate_Properties Continuation_Codec
begin

text \<open>
  The durable form of an Aggregate continuation (\<open>src/execution/aggregate/runtime.rs\<close>).  The
  ordinal of an aggregate is stored as an \<open>integer\<close>, so that encoding can fail.
\<close>

section \<open>Rows\<close>

record agg_fields =
  af_phase :: int
  af_input_stream_id :: int
  af_input_chunk_seq :: "int option"
  af_input_row_ordinal :: "int option"
  af_group_queue_id :: "int option"
  af_aggregate_ordinal :: "int option"
  af_emit_leg :: "int option"
  af_after_kind :: "int option"
  af_after_chunk_seq :: "int option"
  af_after_row_ordinal :: "int option"

definition agg_decode_after :: "agg_fields \<Rightarrow> agg_after result" where
  "agg_decode_after f =
     (case (af_after_kind f, af_after_chunk_seq f, af_after_row_ordinal f) of
        (Some kind, Some chunk, Some row) \<Rightarrow>
          if kind = 1
          then bind_res (input_position_new (af_input_stream_id f) chunk row) (\<lambda>i.
               Inr (AfterApply i))
          else if kind = 3 \<and> row = 0
          then bind_res (input_position_new (af_input_stream_id f) chunk 0) (\<lambda>i.
               Inr (AfterFrontier i))
          else Inl ''Aggregate continuation has an invalid Drain target''
      | (Some kind, None, None) \<Rightarrow>
          if kind = 2 then Inr AfterIdle
          else Inl ''Aggregate continuation has an invalid Drain target''
      | _ \<Rightarrow> Inl ''Aggregate continuation has an invalid Drain target'')"

definition agg_decode_input :: "agg_fields \<Rightarrow> input_position option result" where
  "agg_decode_input f =
     (case (af_input_chunk_seq f, af_input_row_ordinal f) of
        (Some chunk, Some row) \<Rightarrow>
          bind_res (input_position_new (af_input_stream_id f) chunk row) (\<lambda>i. Inr (Some i))
      | (None, None) \<Rightarrow> Inr None
      | _ \<Rightarrow> Inl ''Aggregate continuation has a partial input cursor'')"

definition agg_fields_idle :: "agg_fields \<Rightarrow> bool" where
  "agg_fields_idle f \<longleftrightarrow>
     af_group_queue_id f = None \<and> af_aggregate_ordinal f = None \<and> af_emit_leg f = None
     \<and> af_after_kind f = None \<and> af_after_chunk_seq f = None \<and> af_after_row_ordinal f = None"

definition agg_decode_phase :: "agg_fields \<Rightarrow> input_position option \<Rightarrow> agg_phase result" where
  "agg_decode_phase f input =
     (if af_phase f = 1 \<and> input \<noteq> None \<and> agg_fields_idle f then Inr AgApply
      else if af_phase f = 4 \<and> input \<noteq> None \<and> agg_fields_idle f then Inr AgFrontier
      else if af_phase f = 2 \<and> input = None \<and> af_group_queue_id f \<noteq> None
              \<and> af_aggregate_ordinal f \<noteq> None \<and> af_emit_leg f = None
      then
        if the (af_aggregate_ordinal f) < 0 then Inl ''Aggregate ordinal is negative''
        else bind_res (agg_decode_after f) (\<lambda>after.
             Inr (AgRebuild (the (af_group_queue_id f)) (nat (the (af_aggregate_ordinal f))) after))
      else if af_phase f = 3 \<and> input = None \<and> af_group_queue_id f \<noteq> None
              \<and> af_aggregate_ordinal f = None \<and> af_emit_leg f \<noteq> None
      then
        bind_res
          (if af_emit_leg f = Some 1 then Inr Decide
           else if af_emit_leg f = Some 2 then Inr InsertPending
           else Inl ''Aggregate continuation has an invalid emit leg'') (\<lambda>leg.
        bind_res (agg_decode_after f) (\<lambda>after.
        Inr (AgEmit (the (af_group_queue_id f)) leg after)))
      else Inl ''Aggregate continuation fields do not encode one phase'')"

definition agg_decode :: "agg_fields \<Rightarrow> agg_continuation result" where
  "agg_decode f =
     bind_res (agg_decode_input f) (\<lambda>input.
     bind_res (agg_decode_phase f input) (\<lambda>phase.
     Inr \<lparr>ag_input_stream_id = af_input_stream_id f, ag_input = input, ag_phase = phase\<rparr>))"

fun agg_phase_code :: "agg_phase \<Rightarrow> int" where
  "agg_phase_code AgApply = 1"
| "agg_phase_code (AgRebuild q ordinal after) = 2"
| "agg_phase_code (AgEmit q leg after) = 3"
| "agg_phase_code AgFrontier = 4"

fun agg_encode_after :: "agg_fields \<Rightarrow> agg_after \<Rightarrow> agg_fields" where
  "agg_encode_after f (AfterApply i) =
     f\<lparr>af_after_kind := Some 1, af_after_chunk_seq := Some (ip_chunk_seq i),
       af_after_row_ordinal := Some (ip_row_ordinal i)\<rparr>"
| "agg_encode_after f AfterIdle = f\<lparr>af_after_kind := Some 2\<rparr>"
| "agg_encode_after f (AfterFrontier i) =
     f\<lparr>af_after_kind := Some 3, af_after_chunk_seq := Some (ip_chunk_seq i),
       af_after_row_ordinal := Some (ip_row_ordinal i)\<rparr>"

definition agg_encode :: "agg_continuation \<Rightarrow> agg_fields result" where
  "agg_encode c =
     (let f = \<lparr>af_phase = agg_phase_code (ag_phase c), af_input_stream_id = ag_input_stream_id c,
               af_input_chunk_seq = map_option ip_chunk_seq (ag_input c),
               af_input_row_ordinal = map_option ip_row_ordinal (ag_input c),
               af_group_queue_id = None, af_aggregate_ordinal = None, af_emit_leg = None,
               af_after_kind = None, af_after_chunk_seq = None, af_after_row_ordinal = None\<rparr>
      in case ag_phase c of
        AgApply \<Rightarrow> Inr f
      | AgFrontier \<Rightarrow> Inr f
      | AgRebuild q ordinal after \<Rightarrow>
          if i32_max < int ordinal then Inl ''Aggregate ordinal exceeds integer''
          else Inr (agg_encode_after
                 (f\<lparr>af_group_queue_id := Some q, af_aggregate_ordinal := Some (int ordinal)\<rparr>) after)
      | AgEmit q leg after \<Rightarrow>
          Inr (agg_encode_after
                 (f\<lparr>af_group_queue_id := Some q,
                    af_emit_leg := Some (case leg of Decide \<Rightarrow> 1 | InsertPending \<Rightarrow> 2)\<rparr>) after))"

section \<open>Round trips\<close>

text \<open>The columns are integers of PostgreSQL; of the ordinal's column only its range matters.\<close>

definition agg_canonical :: "agg_fields \<Rightarrow> bool" where
  "agg_canonical f \<longleftrightarrow> (\<forall>n. af_aggregate_ordinal f = Some n \<longrightarrow> n \<le> i32_max)"

definition agg_codable :: "agg_machine \<Rightarrow> agg_continuation \<Rightarrow> bool" where
  "agg_codable m c \<longleftrightarrow> agg_valid m c \<and> int (am_aggregate_count m) \<le> i32_max"

lemma agg_decode_after_Inr:
  "agg_decode_after f = Inr after \<longleftrightarrow>
     (case after of
        AfterIdle \<Rightarrow> af_after_kind f = Some 2 \<and> af_after_chunk_seq f = None \<and> af_after_row_ordinal f = None
      | AfterApply i \<Rightarrow> af_after_kind f = Some 1 \<and> af_after_chunk_seq f = Some (ip_chunk_seq i) \<and>
          af_after_row_ordinal f = Some (ip_row_ordinal i) \<and>
          agg_validate_input i = Inr () \<and> ip_stream_id i = af_input_stream_id f
      | AfterFrontier i \<Rightarrow> af_after_kind f = Some 3 \<and> af_after_chunk_seq f = Some (ip_chunk_seq i) \<and>
          af_after_row_ordinal f = Some (ip_row_ordinal i) \<and> ip_row_ordinal i = 0 \<and>
          agg_validate_input i = Inr () \<and> ip_stream_id i = af_input_stream_id f)"
  by (cases after; cases "af_after_kind f"; cases "af_after_chunk_seq f"; cases "af_after_row_ordinal f")
    (auto simp: agg_decode_after_def input_position_new_def agg_input_Inr)

lemma agg_encode_after_keeps [simp]:
  "af_phase (agg_encode_after f a) = af_phase f"
  "af_input_stream_id (agg_encode_after f a) = af_input_stream_id f"
  "af_input_chunk_seq (agg_encode_after f a) = af_input_chunk_seq f"
  "af_input_row_ordinal (agg_encode_after f a) = af_input_row_ordinal f"
  "af_group_queue_id (agg_encode_after f a) = af_group_queue_id f"
  "af_aggregate_ordinal (agg_encode_after f a) = af_aggregate_ordinal f"
  "af_emit_leg (agg_encode_after f a) = af_emit_leg f"
  by (cases a; simp)+

lemma agg_decode_encode_after:
  "agg_validate_after (af_input_stream_id f) a = Inr () \<Longrightarrow> af_after_chunk_seq f = None \<Longrightarrow>
     af_after_row_ordinal f = None \<Longrightarrow> agg_decode_after (agg_encode_after f a) = Inr a"
  by (cases a) (auto simp: agg_decode_after_Inr agg_after_Inr)

lemma agg_decode_encode:
  assumes "agg_codable m c"
  shows "\<exists>f. agg_encode c = Inr f \<and> agg_canonical f \<and> agg_decode f = Inr c"
proof -
  have v: "agg_valid m c" and max: "int (am_aggregate_count m) \<le> i32_max"
    using assms by (auto simp: agg_codable_def)
  show ?thesis
  proof (cases "ag_phase c")
    case (AgRebuild q ordinal after)
    then show ?thesis
      using v max by (cases c) (auto simp: agg_encode_def agg_decode_def agg_decode_input_def
        agg_decode_phase_def agg_decode_encode_after agg_valid_iff agg_canonical_def Let_def)
  next
    case (AgEmit q leg after)
    then show ?thesis
      using v by (cases c; cases leg) (auto simp: agg_encode_def agg_decode_def agg_decode_input_def
        agg_decode_phase_def agg_decode_encode_after agg_valid_iff agg_canonical_def Let_def)
  qed (use v in \<open>cases c; auto simp: agg_encode_def agg_decode_def agg_decode_input_def
        agg_decode_phase_def agg_valid_iff agg_canonical_def agg_fields_idle_def agg_input_Inr
        input_position_new_def\<close>)+
qed

lemma agg_encode_decode:
  assumes "agg_canonical f" "agg_decode f = Inr c"
  shows "agg_encode c = Inr f"
proof -
  obtain i ph where i: "agg_decode_input f = Inr i" and ph: "agg_decode_phase f i = Inr ph"
      and c: "c = \<lparr>ag_input_stream_id = af_input_stream_id f, ag_input = i, ag_phase = ph\<rparr>"
    using assms(2) by (auto simp: agg_decode_def bind_res_Inr)
  have input: "map_option ip_chunk_seq i = af_input_chunk_seq f"
      "map_option ip_row_ordinal i = af_input_row_ordinal f"
    using i by (auto simp: agg_decode_input_def bind_res_Inr input_position_new_def
        split: option.splits if_splits)
  have after: "agg_encode_after f' a = f"
    if "agg_decode_after f = Inr a" "f = f'\<lparr>af_after_kind := af_after_kind f,
      af_after_chunk_seq := af_after_chunk_seq f, af_after_row_ordinal := af_after_row_ordinal f\<rparr>"
      "af_after_chunk_seq f' = None" "af_after_row_ordinal f' = None" for f' a
    using that by (cases a; cases f; cases f') (auto simp: agg_decode_after_Inr)
  show ?thesis
  proof (cases ph)
    case (AgRebuild q ordinal a)
    then have "af_phase f = 2" "i = None" "af_group_queue_id f = Some q"
        "af_aggregate_ordinal f = Some (int ordinal)" "af_emit_leg f = None" "agg_decode_after f = Inr a"
      using ph by (auto simp: agg_decode_phase_def bind_res_Inr split: if_splits)
    then show ?thesis
      using assms(1) input c AgRebuild
      by (auto simp: agg_encode_def Let_def agg_canonical_def intro!: after)
  next
    case (AgEmit q leg a)
    then have "af_phase f = 3" "i = None" "af_group_queue_id f = Some q"
        "af_aggregate_ordinal f = None" "agg_decode_after f = Inr a"
        "af_emit_leg f = Some (case leg of Decide \<Rightarrow> 1 | InsertPending \<Rightarrow> 2)"
      using ph by (auto simp: agg_decode_phase_def bind_res_Inr split: if_splits)
    then show ?thesis using input c AgEmit by (auto simp: agg_encode_def Let_def intro!: after)
  qed (use ph input c in \<open>cases f; auto simp: agg_decode_phase_def agg_fields_idle_def
        agg_encode_def bind_res_Inr split: if_splits\<close>)+
qed

interpretation agg_codec: continuation_codec
  "agg_codable m" agg_canonical agg_encode agg_decode for m
  by unfold_locales (auto intro: agg_decode_encode agg_encode_decode)

end
