(* ===== verification/Aggregate_Guarantees.thy ===== *)
theory Aggregate_Guarantees
  imports Aggregate_Codec
begin

text \<open>
  The guarantees of the Aggregate operator's machine and of its durable row
  (\<open>src/execution/aggregate/machine.rs\<close>, \<open>src/execution/aggregate/runtime.rs\<close>).
\<close>

section \<open>The stages of a drain\<close>



section \<open>Concrete runs\<close>

definition aw_budget :: work_budget where
  "aw_budget = \<lparr>max_input_rows = 10, max_input_bytes = 100, max_output_rows = 1, max_output_bytes = 100\<rparr>"

definition aw_facts :: "nat \<Rightarrow> nat \<Rightarrow> nat \<Rightarrow> output_facts \<Rightarrow> primitive_facts" where
  "aw_facts inp out st facts =
     \<lparr>pr_usage = \<lparr>input_rows = inp, input_bytes = inp, output_rows = out, output_bytes = out * 9\<rparr>,
      pr_state_rows = st, pr_output = facts\<rparr>"

definition aw_page :: "nat \<Rightarrow> bool \<Rightarrow> agg_result" where
  "aw_page inp complete =
     Rebuilt \<lparr>rb_page = \<lparr>pf_usage = pr_usage (aw_facts inp 0 1 NoOutput),
                        pf_last_row_id = (if inp = 0 then None else Some 5), pf_complete = complete\<rparr>,
             rb_facts = aw_facts inp 0 1 NoOutput\<rparr>"

definition aw_start :: agg_continuation where
  "aw_start = \<lparr>ag_input_stream_id = 1, ag_input = None, ag_phase = AgRebuild 7 1 AfterIdle\<rparr>"

text \<open>
  Two aggregates: the first in two pages, the second in one, then a replacement, its pending row,
  and the drain is over.
\<close>

definition aw_steps :: "(agg_result \<times> work_budget) list" where
  "aw_steps = map (\<lambda>r. (r, aw_budget))
     [aw_page 3 False, aw_page 2 True, aw_page 0 True,
      OutputPrepared (ReplacementRetracted (aw_facts 0 1 1 (DataOutput 4))),
      PendingEmitted \<lparr>po_facts = aw_facts 0 1 1 (DataOutput 5), po_next = None\<rparr>]"

lemmas agg_run_defs =
  agg_step_machine_def agg_machine_new_def agg_apply_def agg_action_of_def agg_validate_def
  agg_validate_queue_id_def agg_validate_after_def agg_apply_rebuild_def agg_after_of_def
  agg_continue_def agg_apply_prepared_def agg_prepared_facts_def agg_validate_one_effect_def
  agg_apply_pending_def agg_after_completed_group_def primitive_validate_def usage_validate_def
  validate_dimension_def page_facts_validate_def aw_budget_def aw_facts_def aw_page_def
  aw_start_def aw_steps_def


lemma aw_run:
  "machine_run (agg_step_machine 2) (Some aw_start) aw_steps = Inr (None,
     [aw_facts 3 0 1 NoOutput, aw_facts 2 0 1 NoOutput, aw_facts 0 0 1 NoOutput,
      aw_facts 0 1 1 (DataOutput 4), aw_facts 0 1 1 (DataOutput 5)])"
  by (simp add: agg_run_defs Let_def)


section \<open>Guarantees\<close>

text \<open>
  C22: Every run of the Aggregate machine from a valid continuation leaves a valid continuation or
  none.  Each committed primitive stays within its budget and emits at most one row, a row only
  while a group is emitted; a frontier is emitted only by the last primitive, which leaves no
  continuation behind.\<close>

theorem agg_run_contract:
  assumes "agg_valid (agg_of n) c" "machine_run (agg_step_machine n) (Some c) steps = Inr (next_c, fs)"
  shows "(case next_c of None \<Rightarrow> True | Some c' \<Rightarrow> agg_valid (agg_of n) c') \<and>
    length fs = length steps \<and>
    (\<forall>i < length fs. primitive_validate (fs ! i) (snd (steps ! i)) = Inr () \<and>
       output_rows (pr_usage (fs ! i)) \<le> 1 \<and>
       (is_frontier_output (pr_output (fs ! i)) \<longrightarrow> i + 1 = length fs \<and> next_c = None))"
proof -
  have each: "\<forall>i < length fs. primitive_validate (fs ! i) (snd (steps ! i)) = Inr () \<and>
       output_rows (pr_usage (fs ! i)) \<le> 1"
    using assms(2)
  proof (induction steps arbitrary: c fs)
    case (Cons x steps)
    obtain r b where x: "x = (r, b)" by (cases x)
    obtain c1 f fs1 where step: "agg_step_machine n c r b = Inr (c1, f)"
        "machine_run (agg_step_machine n) c1 steps = Inr (next_c, fs1)" "fs = f # fs1"
      using Cons.prems x by (auto simp: res_simps)
    have f: "primitive_validate f b = Inr ()" "output_rows (pr_usage f) \<le> 1"
      using step(1) by (auto simp: agg_step_machine_Inr dest: agg_within_budget agg_emits_one(1))
    have "\<forall>i < length fs1. primitive_validate (fs1 ! i) (snd (steps ! i)) = Inr () \<and>
       output_rows (pr_usage (fs1 ! i)) \<le> 1"
    proof (cases c1)
      case None
      then have "fs1 = []" using step(2) by (cases steps) auto
      then show ?thesis by simp
    qed (use Cons.IH step(2) in blast)
    then show ?case using f step(3) x by (auto simp: nth_Cons split: nat.splits)
  qed simp
  show ?thesis
    using aggregate.run_valid[of n c steps _ fs] aggregate.run_length[OF assms(2)]
      aggregate.run_frontier_last[OF assms(2)] each assms by (auto split: option.splits)
qed


theorem agg_run_contract_witness:
  "list_all (\<lambda>f. output_rows (pr_usage f) \<le> 1)
     [aw_facts 3 0 1 NoOutput, aw_facts 2 0 1 NoOutput, aw_facts 0 0 1 NoOutput,
      aw_facts 0 1 1 (DataOutput 4), aw_facts 0 1 1 (DataOutput 5)]"
proof -
  have "agg_valid (agg_of 2) aw_start"
    by (simp add: agg_valid_iff aw_start_def agg_after_Inr)
  from agg_run_contract[OF this aw_run] show ?thesis unfolding list_all_length by simp
qed


text \<open>
  C34: The durable row of an Aggregate continuation is exact: a valid continuation of a plan whose
  aggregates fit an \<open>integer\<close> is encoded, decoding the row gives it back, and no other row of
  the relation decodes to it.\<close>

theorem agg_row_exact:
  assumes "agg_valid m c" "int (am_aggregate_count m) \<le> i32_max"
  shows "\<exists>f. agg_encode c = Inr f \<and> agg_decode f = Inr c \<and>
    (\<forall>g. agg_canonical g \<longrightarrow> (agg_decode g = Inr c) = (g = f))"
proof -
  have "agg_codable m c" using assms by (simp add: agg_codable_def)
  then show ?thesis
    using agg_codec.decode_encode[of m c] agg_codec.row_unique[of m c] by auto
qed

theorem agg_row_exact_witness:
  "\<exists>f. agg_encode aw_start = Inr f \<and> agg_decode f = Inr aw_start \<and> af_group_queue_id f = Some 7"
proof -
  have "agg_valid (agg_of 2) aw_start"
    by (simp add: agg_valid_iff aw_start_def agg_after_Inr)
  then obtain f where "agg_encode aw_start = Inr f" "agg_decode f = Inr aw_start"
    using agg_row_exact[of "agg_of 2" aw_start] by (auto simp: i32_max_def)
  then show ?thesis by (auto simp: agg_encode_def aw_start_def i32_max_def)
qed

end
