(* ===== verification/Sink.thy ===== *)
theory Sink
  imports Step_Properties
begin

text \<open>
  The Sink operator (\<open>src/execution/sink/machine.rs\<close>, \<open>src/execution/sink/runtime.rs\<close>): it applies
  the weighted rows of an input chunk to the result relation, in pages.  A row whose weight
  exceeds the budget is applied in parts, and the rest of its weight is the continuation.  The
  SQL that mutates the result relation is a parameter.
\<close>

section \<open>Data\<close>

record sink_continuation =
  sk_position :: input_position
  sk_remaining :: "int option"
  sk_persisted :: bool

record effect_head =
  eh_row_ordinal :: int
  eh_weight :: int
  eh_row_bytes :: nat

record sink_action =
  sa_row_ordinal :: int
  sa_applied :: int

record weight_page =
  wp_applied :: int
  wp_remaining :: "int option"
  wp_usage :: work_usage

section \<open>A page of one weighted row\<close>

definition plan_weight_page :: "int \<Rightarrow> int option \<Rightarrow> nat \<Rightarrow> work_budget \<Rightarrow> weight_page result" where
  "plan_weight_page weight saved row_bytes b =
     (if weight = 0 \<or> row_bytes = 0 then Inl ''Sink cannot page a zero effect''
      else
        let remaining = (case saved of None \<Rightarrow> weight | Some r \<Rightarrow> r) in
        if remaining = 0 \<or> sgn remaining \<noteq> sgn weight \<or> \<bar>weight\<bar> < \<bar>remaining\<bar>
        then Inl ''Sink remaining weight is not a suffix of its effect''
        else
          let byte_copies = (if max_output_bytes b < row_bytes then 1
                             else max_output_bytes b div row_bytes);
              copies = min (min (min (nat \<bar>remaining\<bar>) (max_output_rows b)) byte_copies) (nat i64_max)
          in if copies = 0 then Inl ''positive Sink budgets selected no result mutation''
             else
               let applied = (if 0 < remaining then int copies else - int copies);
                   rest = remaining - applied
               in bind_res
                    (if rest = 0 then Inr None
                     else if rest < i64_min \<or> i64_max < rest
                     then Inl ''Sink remaining weight exceeds bigint''
                     else Inr (Some rest)) (\<lambda>rest_weight.
                  bind_res (ok_or ''Sink page byte count overflowed u64''
                              (checked_mul_u64 row_bytes copies)) (\<lambda>bytes.
                  Inr \<lparr>wp_applied = applied, wp_remaining = rest_weight,
                       wp_usage = \<lparr>input_rows = 1, input_bytes = row_bytes,
                                   output_rows = copies, output_bytes = bytes\<rparr>\<rparr>)))"

section \<open>A page of a chunk\<close>

text \<open>The loop of \<open>consume_data\<close> over the effect rows that the page has read.\<close>

fun sink_page ::
    "input_position \<Rightarrow> nat \<Rightarrow> effect_head list \<Rightarrow> sink_continuation option \<Rightarrow> work_quantum
     \<Rightarrow> sink_action list
     \<Rightarrow> (sink_action list \<times> sink_continuation option \<times> work_quantum) result" where
  "sink_page start rows [] nxt q acts = Inr (acts, nxt, q)"
| "sink_page start rows (h # hs) nxt q acts =
     bind_res (ok_or ''Sink page continued after its chunk ended'' nxt) (\<lambda>current.
     if ip_row_ordinal (sk_position current) \<noteq> eh_row_ordinal h
     then Inl ''Sink page continuation skipped an effect row''
     else
       bind_res (quantum_remaining q) (\<lambda>left.
       bind_res (ok_or ''Sink quantum exhausted before its first effect'' left) (\<lambda>b.
       if \<not> usage_is_empty (wq_used q) \<and>
          (max_input_bytes b < eh_row_bytes h \<or> max_output_bytes b < eh_row_bytes h)
       then Inr (acts, nxt, q)
       else
         bind_res (plan_weight_page (eh_weight h) (sk_remaining current) (eh_row_bytes h) b) (\<lambda>page.
         bind_res (quantum_record q (wp_usage page)) (\<lambda>q'.
         let acts' = acts @ [\<lparr>sa_row_ordinal = eh_row_ordinal h, sa_applied = wp_applied page\<rparr>] in
         case wp_remaining page of
           Some r \<Rightarrow>
             bind_res (input_position_new (ip_stream_id start) (ip_chunk_seq start) (eh_row_ordinal h))
               (\<lambda>p. Inr (acts', Some \<lparr>sk_position = p, sk_remaining = Some r, sk_persisted = True\<rparr>, q'))
         | None \<Rightarrow>
             bind_res (ok_or ''Sink row ordinal exhausted bigint''
                         (checked_add_i64 (eh_row_ordinal h) 1)) (\<lambda>n.
             if n < 0 then Inl ''Sink row ordinal became negative''
             else if nat n = rows then Inr (acts', None, q')
             else
               bind_res (input_position_new (ip_stream_id start) (ip_chunk_seq start) n) (\<lambda>p.
               let nxt' = Some \<lparr>sk_position = p, sk_remaining = None, sk_persisted = True\<rparr> in
               bind_res (quantum_remaining q') (\<lambda>left'.
               if left' = None then Inr (acts', nxt', q')
               else sink_page start rows hs nxt' q' acts'))))))))"

definition sink_plan ::
    "sink_continuation \<Rightarrow> nat \<Rightarrow> effect_head list \<Rightarrow> work_budget
     \<Rightarrow> (sink_action list \<times> sink_continuation option \<times> work_quantum) result" where
  "sink_plan c rows heads b =
     bind_res (quantum_new b (max_input_rows b)) (\<lambda>q.
     bind_res (sink_page (sk_position c) rows heads (Some c) q []) (\<lambda>(acts, nxt, q').
     if acts = [] then Inl ''Sink page selected no effect rows'' else Inr (acts, nxt, q')))"

section \<open>The payload\<close>

text \<open>
  The payload of a chunk: the rows of the relation, by ordinal, with their weight and the size
  the database computes.
\<close>

type_synonym payload_rows = "(int \<times> int \<times> int) list"

definition validate_payload_metadata :: "chunk_meta \<Rightarrow> payload_rows \<Rightarrow> unit result" where
  "validate_payload_metadata ch rows =
     (let ordinals = map fst rows;
          bytes = sum_list (map (\<lambda>(ordinal, weight, row_size). row_size) rows)
      in bind_res (nonnegative ''payload rows'' (int (length rows))) (\<lambda>n.
         bind_res (nonnegative ''payload bytes'' bytes) (\<lambda>row_size.
         if i64_max < int (cm_rows ch) then Inl ''payload row count exceeds bigint''
         else if n \<noteq> cm_rows ch \<or> row_size \<noteq> cm_bytes ch \<or> rows = [] \<or> Min (set ordinals) \<noteq> 0
            \<or> Max (set ordinals) \<noteq> int (cm_rows ch) - 1
         then Inl ''Sink payload does not match immutable chunk metadata'' else Inr ())))"

fun read_heads :: "int \<Rightarrow> payload_rows \<Rightarrow> effect_head list result" where
  "read_heads expected [] = Inr []"
| "read_heads expected ((ordinal, weight, row_size) # rows) =
     bind_res (nonnegative ''effect row bytes'' row_size) (\<lambda>bytes.
     if ordinal \<noteq> expected \<or> weight = 0 \<or> bytes = 0
     then Inl ''Sink effect page is non-contiguous or invalid''
     else
       bind_res (ok_or ''Sink effect ordinal exhausted bigint'' (checked_add_i64 expected 1)) (\<lambda>n.
       bind_res (read_heads n rows) (\<lambda>heads.
       Inr (\<lparr>eh_row_ordinal = ordinal, eh_weight = weight, eh_row_bytes = bytes\<rparr> # heads))))"

definition effect_heads :: "payload_rows \<Rightarrow> int \<Rightarrow> nat \<Rightarrow> effect_head list result" where
  "effect_heads rows first max_rows =
     (if i64_max < int max_rows then Inl ''Sink page row limit exceeds bigint''
      else
        let page = take max_rows (filter (\<lambda>r. first \<le> fst r) (sort_key fst rows))
        in if page = [] then Inl ''Sink effect position has no payload suffix''
           else read_heads first page)"

section \<open>The continuation row\<close>

record sink_fields =
  sf_stream_id :: int
  sf_chunk_seq :: int
  sf_row_ordinal :: int
  sf_remaining :: "int option"

definition sink_decode :: "int \<Rightarrow> sink_fields \<Rightarrow> sink_continuation result" where
  "sink_decode stream f =
     (if sf_stream_id f \<noteq> stream \<or> sf_remaining f = Some 0
      then Inl ''Sink continuation contains invalid durable state''
      else
        bind_res (input_position_new (sf_stream_id f) (sf_chunk_seq f) (sf_row_ordinal f)) (\<lambda>p.
        Inr \<lparr>sk_position = p, sk_remaining = sf_remaining f, sk_persisted = True\<rparr>))"

definition sink_encode :: "sink_continuation \<Rightarrow> sink_fields" where
  "sink_encode c =
     \<lparr>sf_stream_id = ip_stream_id (sk_position c), sf_chunk_seq = ip_chunk_seq (sk_position c),
      sf_row_ordinal = ip_row_ordinal (sk_position c), sf_remaining = sk_remaining c\<rparr>"

definition sink_load ::
    "step_context \<Rightarrow> sink_fields step_db \<Rightarrow> int \<Rightarrow> sink_continuation result" where
  "sink_load c db stream =
     bind_res (lock_one db ''Sink'' (sink_decode stream)) (\<lambda>value.
     case value of
       Some v \<Rightarrow> Inr v
     | None \<Rightarrow>
         bind_res (context_input c 0) (\<lambda>input.
         bind_res (input_position_new stream (is_next input) 0) (\<lambda>p.
         Inr \<lparr>sk_position = p, sk_remaining = None, sk_persisted = False\<rparr>)))"

definition sink_replace ::
    "step_context \<Rightarrow> sink_fields step_db \<Rightarrow> sink_continuation \<Rightarrow> sink_continuation option
     \<Rightarrow> (step_context \<times> sink_fields step_db) result" where
  "sink_replace c db old nxt =
     replace_cas c db (if sk_persisted old then Some (sink_encode old) else None)
       (map_option sink_encode nxt) ''Sink''"

section \<open>The step\<close>

definition advance_completed_chunk ::
    "step_context \<Rightarrow> sink_fields step_db \<Rightarrow> chunk_meta \<Rightarrow> nat
     \<Rightarrow> (step_context \<times> sink_fields step_db) result" where
  "advance_completed_chunk c db ch frontier =
     bind_res (context_input c 0) (\<lambda>input.
     if cm_stream_id ch \<noteq> is_stream_id input \<or> cm_sequence ch \<noteq> is_next input
        \<or> frontier < is_consumed input
     then Inl ''Sink completed chunk does not match its input cursor''
     else
       bind_res (ok_or ''Sink input chunk sequence exhausted'' (checked_add_i64 (is_next input) 1))
         (\<lambda>n.
       advance_input c db 0 n frontier
         \<lparr>input_rows = cm_rows ch, input_bytes = cm_bytes ch, output_rows = 0, output_bytes = 0\<rparr>))"

definition consume_frontier ::
    "step_context \<Rightarrow> sink_fields step_db \<Rightarrow> sink_continuation \<Rightarrow> chunk_meta
     \<Rightarrow> (step_receipt \<times> step_context \<times> sink_fields step_db) result" where
  "consume_frontier c db k ch =
     (if ip_row_ordinal (sk_position k) \<noteq> 0 \<or> sk_remaining k \<noteq> None
      then Inl ''Sink frontier has an invalid continuation''
      else if cm_rows ch \<noteq> 0 \<or> cm_bytes ch \<noteq> 0 then Inl ''Sink frontier contains payload''
      else
        bind_res (advance_completed_chunk c db ch (cm_lsn ch)) (\<lambda>(c1, db1).
        bind_res (sink_replace c1 db1 k None) (\<lambda>(c2, db2).
        bind_res (step_transition c2 PhFrontier usage_default) (\<lambda>r.
        Inr (r, c2, db2)))))"

text \<open>
  \<open>sq_payload\<close> reads the payload rows of a chunk; \<open>sq_mutate\<close> is \<open>mutate_result_page\<close> with the
  mapping of columns it compiles: the number of mutations and the database after them.
\<close>

record sink_prims =
  sq_payload :: "sink_fields step_db \<Rightarrow> chunk_meta \<Rightarrow> payload_rows"
  sq_mutate :: "chunk_meta \<Rightarrow> sink_action list \<Rightarrow> sink_fields step_db
     \<Rightarrow> (nat \<times> sink_fields step_db) result"

definition consume_data ::
    "sink_prims \<Rightarrow> step_context \<Rightarrow> sink_fields step_db \<Rightarrow> sink_continuation \<Rightarrow> chunk_meta
     \<Rightarrow> (step_receipt \<times> step_context \<times> sink_fields step_db) result" where
  "consume_data sq c db k ch =
     (let first = ip_row_ordinal (sk_position k); b = sc_transition_budget c in
      if first < 0 then Inl ''Sink continuation has a negative row''
      else if cm_rows ch \<le> nat first then Inl ''Sink continuation is outside its data chunk''
      else
        bind_res (if first = 0 then validate_payload_metadata ch (sq_payload sq db ch) else Inr ())
          (\<lambda>_.
        bind_res (effect_heads (sq_payload sq db ch) first (max_input_rows b)) (\<lambda>heads.
        bind_res (sink_plan k (cm_rows ch) heads b) (\<lambda>(acts, nxt, q).
        bind_res (sq_mutate sq ch acts db) (\<lambda>(mutated, db1).
        if mutated \<noteq> output_rows (wq_used q)
        then Inl ''Sink expected another number of result mutations''
        else
          bind_res
            (if nxt = None
             then bind_res (context_input c 0) (\<lambda>input.
                  advance_completed_chunk c db1 ch (is_consumed input))
             else Inr (c, db1)) (\<lambda>(c1, db2).
          bind_res (sink_replace c1 db2 k nxt) (\<lambda>(c2, db3).
          bind_res (record_state_rows c2 (output_rows (wq_used q))) (\<lambda>c3.
          bind_res (step_transition c3 PhProcess (wq_used q)) (\<lambda>r.
          Inr (r, c3, db3))))))))))"

definition sink_step :: "sink_prims \<Rightarrow> sink_fields kernel_step" where
  "sink_step sq c db =
     (if length (sc_inputs c) \<noteq> 1 then Inl ''Sink must have exactly one input''
      else
        bind_res (context_input c 0) (\<lambda>input.
        if is_producer input \<noteq> Operator then Inl ''Sink input is not an operator effect stream''
        else
          bind_res (sink_load c db (is_stream_id input)) (\<lambda>k.
          bind_res (bind_continuation_authority c (sk_persisted k)) (\<lambda>c1.
          if ip_chunk_seq (sk_position k) \<noteq> is_next input
          then Inl ''Sink continuation is not at its input cursor''
          else
            bind_res (next_chunk c1 db 0) (\<lambda>found.
            bind_res (ok_or ''Sink continuation or pending input references no chunk'' found) (\<lambda>ch.
            case cm_kind ch of
              Frontier \<Rightarrow> consume_frontier c1 db k ch
            | Data \<Rightarrow> consume_data sq c1 db k ch))))))"

definition sink_descriptor :: operator_descriptor where
  "sink_descriptor = \<lparr>od_phases = [PhProcess, PhFrontier], od_inputs = [OperatorInput],
                      od_output = SinkOutput\<rparr>"

end
