(* ===== verification/Sink_Guarantees.thy ===== *)
theory Sink_Guarantees
  imports Sink Continuation_Codec
begin

text \<open>
  What the Sink guarantees: a page of a well-formed chunk always succeeds, applies to each row
  part of the weight it is still owed and strictly less remains, so the pages of a chunk end and
  every row has been applied exactly its weight.  The persisted continuation keeps the codec laws.
\<close>

section \<open>The rows of a chunk\<close>

text \<open>A chunk as its list of weights and row sizes, and the relation that holds it.\<close>

type_synonym sink_effects = "(int \<times> nat) list"

definition payload_of :: "sink_effects \<Rightarrow> payload_rows" where
  "payload_of es = map (\<lambda>i. (int i, fst (es ! i), int (snd (es ! i)))) [0..<length es]"

definition head_at :: "sink_effects \<Rightarrow> nat \<Rightarrow> effect_head" where
  "head_at es i = \<lparr>eh_row_ordinal = int i, eh_weight = fst (es ! i), eh_row_bytes = snd (es ! i)\<rparr>"

definition effect_ok :: "int \<times> nat \<Rightarrow> bool" where
  "effect_ok e \<longleftrightarrow> fst e \<noteq> 0 \<and> in_i64 (fst e) \<and> 0 < snd e \<and> int (snd e) \<le> i64_max"

definition effects_ok :: "sink_effects \<Rightarrow> bool" where
  "effects_ok es \<longleftrightarrow> (\<forall>e \<in> set es. effect_ok e) \<and> int (length es) \<le> i64_max"

lemma effects_ok_nth: "effects_ok es \<Longrightarrow> i < length es \<Longrightarrow> effect_ok (es ! i)"
  by (simp add: effects_ok_def)

definition suffix_weight :: "int \<Rightarrow> int option \<Rightarrow> bool" where
  "suffix_weight w saved \<longleftrightarrow>
     (case saved of None \<Rightarrow> True | Some r \<Rightarrow> r \<noteq> 0 \<and> sgn r = sgn w \<and> \<bar>r\<bar> \<le> \<bar>w\<bar>)"

definition owed_weight :: "int \<Rightarrow> int option \<Rightarrow> int" where
  "owed_weight w saved = (case saved of None \<Rightarrow> w | Some r \<Rightarrow> r)"

definition rest_weight :: "int option \<Rightarrow> int" where
  "rest_weight saved = (case saved of None \<Rightarrow> 0 | Some r \<Rightarrow> r)"

definition sink_at :: "sink_effects \<Rightarrow> sink_continuation \<Rightarrow> bool" where
  "sink_at es c \<longleftrightarrow>
     0 < ip_stream_id (sk_position c) \<and> 0 < ip_chunk_seq (sk_position c) \<and>
     0 \<le> ip_row_ordinal (sk_position c) \<and> nat (ip_row_ordinal (sk_position c)) < length es \<and>
     suffix_weight (fst (es ! nat (ip_row_ordinal (sk_position c)))) (sk_remaining c)"

text \<open>What each row is still owed when the chunk stands at a continuation.\<close>

definition owed :: "sink_effects \<Rightarrow> sink_continuation option \<Rightarrow> nat \<Rightarrow> int" where
  "owed es nxt r =
     (case nxt of
        None \<Rightarrow> 0
      | Some c \<Rightarrow>
          let p = nat (ip_row_ordinal (sk_position c)) in
          if r < p then 0 else if r = p then owed_weight (fst (es ! r)) (sk_remaining c)
          else fst (es ! r))"

definition applied_to :: "sink_action list \<Rightarrow> nat \<Rightarrow> int" where
  "applied_to acts r =
     sum_list (map sa_applied (filter (\<lambda>a. sa_row_ordinal a = int r) acts))"

definition owed_total :: "sink_effects \<Rightarrow> sink_continuation option \<Rightarrow> nat" where
  "owed_total es nxt = (\<Sum>r<length es. nat \<bar>owed es nxt r\<bar>)"

lemma applied_to_snoc [simp]:
  "applied_to (acts @ [a]) r = applied_to acts r + (if sa_row_ordinal a = int r then sa_applied a else 0)"
  by (simp add: applied_to_def)

lemma applied_to_append: "applied_to (xs @ ys) r = applied_to xs r + applied_to ys r"
  by (simp add: applied_to_def)

lemma applied_to_Nil [simp]: "applied_to [] r = 0"
  by (simp add: applied_to_def)

section \<open>A page of one row\<close>

definition budget_ok :: "work_budget \<Rightarrow> bool" where
  "budget_ok b \<longleftrightarrow>
     0 < max_input_rows b \<and> 0 < max_input_bytes b \<and> 0 < max_output_rows b
     \<and> 0 < max_output_bytes b \<and> max_input_rows b \<le> u64_max \<and> max_input_bytes b \<le> u64_max
     \<and> max_output_rows b \<le> u64_max \<and> max_output_bytes b \<le> u64_max"

definition page_copies :: "int \<Rightarrow> nat \<Rightarrow> work_budget \<Rightarrow> nat" where
  "page_copies left row_bytes b =
     min (min (min (nat \<bar>left\<bar>) (max_output_rows b))
       (if max_output_bytes b < row_bytes then 1 else max_output_bytes b div row_bytes)) (nat i64_max)"

lemma page_copies_bounds:
  assumes "left \<noteq> 0" "0 < row_bytes" "0 < max_output_rows b"
  shows "0 < page_copies left row_bytes b" and "int (page_copies left row_bytes b) \<le> \<bar>left\<bar>"
    and "page_copies left row_bytes b \<le> max_output_rows b"
  using assms by (auto simp: page_copies_def div_greater_zero_iff i64_max_def not_less)

lemma page_copies_bytes:
  assumes "0 < row_bytes"
  shows "row_bytes * page_copies left row_bytes b
           \<le> (if max_output_bytes b < row_bytes then row_bytes else max_output_bytes b)"
proof (cases "max_output_bytes b < row_bytes")
  case True
  have "page_copies left row_bytes b \<le> 1" by (simp add: page_copies_def True)
  then show ?thesis using True by (cases "page_copies left row_bytes b") auto
next
  case False
  have "page_copies left row_bytes b \<le> max_output_bytes b div row_bytes"
    by (simp add: page_copies_def False)
  then have "row_bytes * page_copies left row_bytes b \<le> row_bytes * (max_output_bytes b div row_bytes)"
    by simp
  also have "\<dots> \<le> max_output_bytes b" by simp
  finally show ?thesis using False by simp
qed

lemma plan_weight_page_ok:
  assumes e: "effect_ok (w, s)" and sw: "suffix_weight w saved" and b: "budget_ok b"
  obtains page where "plan_weight_page w saved s b = Inr page"
    and "wp_applied page + rest_weight (wp_remaining page) = owed_weight w saved"
    and "wp_applied page \<noteq> 0" and "sgn (wp_applied page) = sgn w"
    and "suffix_weight w (wp_remaining page)"
    and "wp_usage page = \<lparr>input_rows = 1, input_bytes = s, output_rows = nat \<bar>wp_applied page\<bar>,
                          output_bytes = s * nat \<bar>wp_applied page\<bar>\<rparr>"
    and "nat \<bar>wp_applied page\<bar> \<le> max_output_rows b"
    and "s * nat \<bar>wp_applied page\<bar> \<le> (if max_output_bytes b < s then s else max_output_bytes b)"
    and "nat \<bar>owed_weight w saved\<bar>
           = nat \<bar>wp_applied page\<bar> + nat \<bar>rest_weight (wp_remaining page)\<bar>"
proof -
  define left where "left = owed_weight w saved"
  define n where "n = page_copies left s b"
  define app where "app = (if 0 < left then int n else - int n)"
  have w: "w \<noteq> 0" "in_i64 w" and s: "0 < s" "int s \<le> i64_max" using e by (auto simp: effect_ok_def)
  have left: "left \<noteq> 0" "sgn left = sgn w" "\<bar>left\<bar> \<le> \<bar>w\<bar>"
    using sw w by (auto simp: left_def owed_weight_def suffix_weight_def split: option.splits)
  have n: "0 < n" "int n \<le> \<bar>left\<bar>" "n \<le> max_output_rows b"
    unfolding n_def using page_copies_bounds [of left s b] left s b by (auto simp: budget_ok_def)
  have bytes: "s * n \<le> (if max_output_bytes b < s then s else max_output_bytes b)"
    unfolding n_def by (rule page_copies_bytes [OF s(1)])
  have absapp: "nat \<bar>app\<bar> = n" by (simp add: app_def)
  have appsgn: "sgn app = sgn w" using n left by (auto simp: app_def sgn_if split: if_splits)
  have rest: "\<bar>left - app\<bar> = \<bar>left\<bar> - int n" using n by (auto simp: app_def)
  have rsgn: "left - app \<noteq> 0 \<Longrightarrow> sgn (left - app) = sgn w"
    using n left by (auto simp: app_def sgn_if split: if_splits)
  have fits: "\<not> (left - app < i64_min \<or> i64_max < left - app)"
    using n left w by (auto simp: app_def in_i64_def i64_min_def i64_max_def split: if_splits)
  have "(if max_output_bytes b < s then s else max_output_bytes b) \<le> u64_max"
    using s b by (auto simp: budget_ok_def i64_max_def u64_max_def)
  then have "s * n \<le> u64_max" by (rule order_trans [OF bytes])
  then have mul: "checked_mul_u64 s n = Some (s * n)" by (simp add: checked_mul_u64_def)
  define page where "page = \<lparr>wp_applied = app, wp_remaining = (if left - app = 0 then None else Some (left - app)),
     wp_usage = \<lparr>input_rows = 1, input_bytes = s, output_rows = n, output_bytes = s * n\<rparr>\<rparr>"
  have left_case: "(case saved of None \<Rightarrow> w | Some r \<Rightarrow> r) = left"
    by (simp add: left_def owed_weight_def)
  have "plan_weight_page w saved s b = Inr page"
    unfolding plan_weight_page_def left_case Let_def
    unfolding page_copies_def [symmetric] n_def [symmetric] app_def [symmetric]
    using w s left n fits mul by (simp add: page_def)
  moreover have "wp_applied page + rest_weight (wp_remaining page) = owed_weight w saved"
    by (simp add: page_def rest_weight_def left_def)
  moreover have "suffix_weight w (wp_remaining page)"
    using rsgn rest left n by (auto simp: page_def suffix_weight_def)
  moreover have "nat \<bar>left\<bar> = nat \<bar>app\<bar> + nat \<bar>rest_weight (wp_remaining page)\<bar>"
  proof -
    have "nat \<bar>left\<bar> = n + nat \<bar>left - app\<bar>" using rest n by linarith
    moreover have "rest_weight (wp_remaining page) = left - app" by (simp add: page_def rest_weight_def)
    ultimately show ?thesis using absapp by simp
  qed
  moreover have "app \<noteq> 0" using n by (simp add: app_def)
  ultimately show thesis
    using that [of page] n bytes absapp appsgn by (simp add: page_def left_def)
qed

section \<open>A page of a chunk\<close>

definition quantum_ok :: "work_quantum \<Rightarrow> bool" where
  "quantum_ok q \<longleftrightarrow>
     budget_ok (wq_budget q) \<and> quantum_remaining q \<noteq> Inr None
     \<and> (usage_is_empty (wq_used q) \<or> 0 < output_rows (wq_used q))"

lemma quantum_ok_left:
  assumes "quantum_ok q"
  obtains b where "quantum_remaining q = Inr (Some b)" and "budget_ok b"
    and "wq_transitions q < wq_max_transitions q"
    and "max_input_rows (wq_budget q) = input_rows (wq_used q) + max_input_rows b"
    and "max_input_bytes (wq_budget q) = input_bytes (wq_used q) + max_input_bytes b"
    and "max_output_rows (wq_budget q) = output_rows (wq_used q) + max_output_rows b"
    and "max_output_bytes (wq_budget q) = output_bytes (wq_used q) + max_output_bytes b"
proof -
  obtain r where r: "quantum_remaining q = Inr r" using quantum_remaining_no_panic by blast
  then obtain b where b: "quantum_remaining q = Inr (Some b)"
    using assms by (cases r) (auto simp: quantum_ok_def)
  have bud: "budget_ok (wq_budget q)" using assms by (simp add: quantum_ok_def)
  show thesis
    using b [unfolded quantum_remaining_Some] bud
    by (intro that [OF b]) (auto simp: budget_ok_def)
qed

text \<open>Recording the page of a row that fits, or of the first row of the quantum, never overflows.\<close>

lemma quantum_record_page:
  assumes q: "quantum_ok q" and left: "quantum_remaining q = Inr (Some b)"
    and fits: "\<not> (\<not> usage_is_empty (wq_used q) \<and> (max_input_bytes b < s \<or> max_output_bytes b < s))"
    and s: "int s \<le> i64_max" and n: "n \<le> max_output_rows b" "0 < n"
    and bytes: "s * n \<le> (if max_output_bytes b < s then s else max_output_bytes b)"
  obtains q' where
    "quantum_record q \<lparr>input_rows = 1, input_bytes = s, output_rows = n, output_bytes = s * n\<rparr> = Inr q'"
    and "wq_budget q' = wq_budget q" and "output_rows (wq_used q') = output_rows (wq_used q) + n"
    and "quantum_remaining q' \<noteq> Inr None \<Longrightarrow> quantum_ok q'"
    and "\<not> usage_is_empty (wq_used q')"
proof -
  obtain b' where b': "quantum_remaining q = Inr (Some b')" "budget_ok b'"
    and tr: "wq_transitions q < wq_max_transitions q"
    and lims: "max_input_rows (wq_budget q) = input_rows (wq_used q) + max_input_rows b'"
      "max_input_bytes (wq_budget q) = input_bytes (wq_used q) + max_input_bytes b'"
      "max_output_rows (wq_budget q) = output_rows (wq_used q) + max_output_rows b'"
      "max_output_bytes (wq_budget q) = output_bytes (wq_used q) + max_output_bytes b'"
    using quantum_ok_left [OF q] by blast
  have same: "b' = b" using left b' by simp
  have top: "max_input_rows (wq_budget q) \<le> u64_max" "max_input_bytes (wq_budget q) \<le> u64_max"
    "max_output_rows (wq_budget q) \<le> u64_max" "max_output_bytes (wq_budget q) \<le> u64_max"
    and bud: "budget_ok (wq_budget q)"
    using q by (auto simp: quantum_ok_def budget_ok_def)
  have s64: "s \<le> u64_max" using s by (simp add: i64_max_def u64_max_def)
  have pos: "0 < max_input_rows b" using b' same by (simp add: budget_ok_def)
  have out: "output_bytes (wq_used q) + s * n \<le> u64_max"
  proof (cases "usage_is_empty (wq_used q)")
    case True
    have "(if max_output_bytes b < s then s else max_output_bytes b) \<le> u64_max"
      using b' same s64 by (simp add: budget_ok_def)
    then have "s * n \<le> u64_max" by (rule order_trans [OF bytes])
    then show ?thesis using True by (simp add: usage_is_empty_def)
  next
    case False
    then show ?thesis using bytes fits lims top same by (auto split: if_splits)
  qed
  have inb: "input_bytes (wq_used q) + s \<le> u64_max"
    using fits lims top s64 same by (auto simp: usage_is_empty_def not_less)
  let ?u = "\<lparr>input_rows = 1, input_bytes = s, output_rows = n, output_bytes = s * n\<rparr>"
  let ?used = "\<lparr>input_rows = input_rows (wq_used q) + 1, input_bytes = input_bytes (wq_used q) + s,
      output_rows = output_rows (wq_used q) + n, output_bytes = output_bytes (wq_used q) + s * n\<rparr>"
  have add: "usage_checked_add (wq_used q) ?u = Inr ?used"
    using lims top same pos n inb out by (simp add: usage_checked_add_Inr)
  let ?q = "q\<lparr>wq_used := ?used, wq_transitions := wq_transitions q + 1\<rparr>"
  have "quantum_record q ?u = Inr ?q" using tr add by (simp add: quantum_record_Inr)
  then show thesis
    by (rule that) (use bud n in \<open>auto simp: quantum_ok_def usage_is_empty_def\<close>)
qed

text \<open>
  What a page of the loop establishes: rows of the chunk are applied part of what they are owed,
  in the direction of their weight, and the rest is what the next continuation owes.
\<close>

definition page_result ::
    "sink_effects \<Rightarrow> sink_continuation option \<Rightarrow> work_quantum \<Rightarrow> sink_action list
     \<Rightarrow> sink_action list \<times> sink_continuation option \<times> work_quantum \<Rightarrow> bool" where
  "page_result es nxt q acts out \<longleftrightarrow>
     (case out of (acts', nxt', q') \<Rightarrow>
        (\<forall>c. nxt' = Some c \<longrightarrow> sink_at es c)
        \<and> (\<forall>r < length es. applied_to acts' r + owed es nxt' r = applied_to acts r + owed es nxt r)
        \<and> (\<forall>a \<in> set acts'. a \<in> set acts \<or> (\<exists>r < length es. sa_row_ordinal a = int r
              \<and> sgn (sa_applied a) = sgn (fst (es ! r)) \<and> sa_applied a \<noteq> 0))
        \<and> output_rows (wq_used q') + owed_total es nxt'
            = output_rows (wq_used q) + owed_total es nxt
        \<and> length acts \<le> length acts' \<and> output_rows (wq_used q) \<le> output_rows (wq_used q'))"

lemma page_result_refl: "(\<forall>c. nxt = Some c \<longrightarrow> sink_at es c) \<Longrightarrow> page_result es nxt q acts (acts, nxt, q)"
  by (simp add: page_result_def)

lemma page_result_trans:
  assumes "page_result es nxt q acts (acts1, nxt1, q1)" "page_result es nxt1 q1 acts1 out"
  shows "page_result es nxt q acts out"
proof (cases out)
  case (fields acts2 nxt2 q2)
  have from1: "a \<in> set acts \<or> (\<exists>r < length es. sa_row_ordinal a = int r
      \<and> sgn (sa_applied a) = sgn (fst (es ! r)) \<and> sa_applied a \<noteq> 0)" if "a \<in> set acts1" for a
    using assms(1) that unfolding page_result_def prod.case by blast
  have from2: "a \<in> set acts1 \<or> (\<exists>r < length es. sa_row_ordinal a = int r
      \<and> sgn (sa_applied a) = sgn (fst (es ! r)) \<and> sa_applied a \<noteq> 0)" if "a \<in> set acts2" for a
    using assms(2) that unfolding page_result_def fields prod.case by blast
  have origin: "a \<in> set acts \<or> (\<exists>r < length es. sa_row_ordinal a = int r
      \<and> sgn (sa_applied a) = sgn (fst (es ! r)) \<and> sa_applied a \<noteq> 0)" if "a \<in> set acts2" for a
    using from1 from2 that by blast
  show ?thesis
    using assms origin by (simp add: page_result_def fields)
qed

text \<open>The change of one row changes the total by as much.\<close>

lemma owed_total_row:
  assumes "p < length es"
    and other: "\<And>r. r < length es \<Longrightarrow> r \<noteq> p \<Longrightarrow> owed es nxt' r = owed es nxt r"
    and now: "nat \<bar>owed es nxt p\<bar> = n + nat \<bar>owed es nxt' p\<bar>"
  shows "n + owed_total es nxt' = owed_total es nxt"
proof -
  have split: "owed_total es x = nat \<bar>owed es x p\<bar> + (\<Sum>r\<in>{..<length es} - {p}. nat \<bar>owed es x r\<bar>)" for x
    unfolding owed_total_def using assms(1) by (subst sum.remove [of _ p]) auto
  have "(\<Sum>r\<in>{..<length es} - {p}. nat \<bar>owed es nxt' r\<bar>) = (\<Sum>r\<in>{..<length es} - {p}. nat \<bar>owed es nxt r\<bar>)"
    by (rule sum.cong) (auto simp: other)
  then show ?thesis using now by (simp add: split)
qed

lemma page_result_row:
  assumes at: "sink_at es c" and p: "p = nat (ip_row_ordinal (sk_position c))"
    and acts': "acts' = acts @ [\<lparr>sa_row_ordinal = int p, sa_applied = app\<rparr>]"
    and app: "app \<noteq> 0" "sgn app = sgn (fst (es ! p))"
    and part: "app + rest_weight rest = owed_weight (fst (es ! p)) (sk_remaining c)"
    and mass: "nat \<bar>owed_weight (fst (es ! p)) (sk_remaining c)\<bar> = nat \<bar>app\<bar> + nat \<bar>rest_weight rest\<bar>"
    and out: "output_rows (wq_used q') = output_rows (wq_used q) + nat \<bar>app\<bar>"
    and ok: "\<forall>c'. nxt' = Some c' \<longrightarrow> sink_at es c'"
    and at': "owed es nxt' p = rest_weight rest"
    and other: "\<And>r. r < length es \<Longrightarrow> r \<noteq> p \<Longrightarrow> owed es nxt' r = owed es (Some c) r"
  shows "page_result es (Some c) q acts (acts', nxt', q')"
proof -
  have pl: "p < length es" using at p by (simp add: sink_at_def)
  have now: "owed es (Some c) p = owed_weight (fst (es ! p)) (sk_remaining c)"
    by (simp add: owed_def p Let_def)
  have "nat \<bar>app\<bar> + owed_total es nxt' = owed_total es (Some c)"
    by (rule owed_total_row [OF pl other]) (use mass now at' in auto)
  moreover have "applied_to acts' r + owed es nxt' r = applied_to acts r + owed es (Some c) r"
    if "r < length es" for r
    using that now at' part other by (cases "r = p") (auto simp: acts')
  ultimately show ?thesis
    using ok out app pl by (auto simp: page_result_def acts')
qed

definition heads_from :: "sink_effects \<Rightarrow> nat \<Rightarrow> effect_head list \<Rightarrow> bool" where
  "heads_from es k hs \<longleftrightarrow> k + length hs \<le> length es \<and> hs = map (head_at es) [k..<k + length hs]"

lemma heads_from_Cons:
  assumes "heads_from es k (h # hs)"
  shows "h = head_at es k" and "k < length es" and "heads_from es (Suc k) hs"
  using assms by (auto simp: heads_from_def upt_conv_Cons simp del: upt_Suc)

theorem sink_page_result:
  assumes es: "effects_ok es"
    and at: "sink_at es c" and pos: "ip_stream_id st = ip_stream_id (sk_position c)"
      "ip_chunk_seq st = ip_chunk_seq (sk_position c)"
    and hs: "heads_from es (nat (ip_row_ordinal (sk_position c))) hs"
    and q: "hs \<noteq> [] \<Longrightarrow> quantum_ok q"
  shows "\<exists>out. sink_page st (length es) hs (Some c) q acts = Inr out \<and> page_result es (Some c) q acts out
           \<and> (hs \<noteq> [] \<longrightarrow> usage_is_empty (wq_used q) \<longrightarrow> length acts < length (fst out)
                \<and> output_rows (wq_used q) < output_rows (wq_used (snd (snd out))))"
  using at pos hs q
proof (induction hs arbitrary: c q acts)
  case Nil
  then show ?case by (simp add: page_result_refl)
next
  case (Cons h hs)
  define p where "p = nat (ip_row_ordinal (sk_position c))"
  obtain w s where ws: "es ! p = (w, s)" by (cases "es ! p")
  have row: "ip_row_ordinal (sk_position c) = int p" and pl: "p < length es"
    and sw: "suffix_weight w (sk_remaining c)"
    and ids: "0 < ip_stream_id (sk_position c)" "0 < ip_chunk_seq (sk_position c)"
    using Cons.prems(1) ws by (auto simp: sink_at_def p_def)
  have h: "h = head_at es p" and hs: "heads_from es (Suc p) hs"
    using heads_from_Cons [OF Cons.prems(4)] by (auto simp: p_def)
  have hw: "eh_row_ordinal h = int p" "eh_weight h = w" "eh_row_bytes h = s"
    using h ws by (auto simp: head_at_def)
  have e: "effect_ok (w, s)" using effects_ok_nth [OF es pl] ws by simp
  have qok: "quantum_ok q" using Cons.prems by simp
  obtain b where left: "quantum_remaining q = Inr (Some b)" "budget_ok b"
    using quantum_ok_left [OF qok] by blast
  show ?case
  proof (cases "\<not> usage_is_empty (wq_used q) \<and> (max_input_bytes b < s \<or> max_output_bytes b < s)")
    case True
    then have "sink_page st (length es) (h # hs) (Some c) q acts = Inr (acts, Some c, q)"
      using row hw left by simp
    then show ?thesis using True Cons.prems(1) page_result_refl [of "Some c" es q acts] by simp
  next
    case False
    note fits = False
    obtain page where page: "plan_weight_page w (sk_remaining c) s b = Inr page"
      and part: "wp_applied page + rest_weight (wp_remaining page) = owed_weight w (sk_remaining c)"
      and nz: "wp_applied page \<noteq> 0" and sg: "sgn (wp_applied page) = sgn w"
      and rem: "suffix_weight w (wp_remaining page)"
      and usage: "wp_usage page = \<lparr>input_rows = 1, input_bytes = s,
           output_rows = nat \<bar>wp_applied page\<bar>, output_bytes = s * nat \<bar>wp_applied page\<bar>\<rparr>"
      and rows: "nat \<bar>wp_applied page\<bar> \<le> max_output_rows b"
      and bytes: "s * nat \<bar>wp_applied page\<bar>
           \<le> (if max_output_bytes b < s then s else max_output_bytes b)"
      and mass: "nat \<bar>owed_weight w (sk_remaining c)\<bar>
           = nat \<bar>wp_applied page\<bar> + nat \<bar>rest_weight (wp_remaining page)\<bar>"
      using plan_weight_page_ok [OF e sw left(2)] by blast
    have s: "int s \<le> i64_max" and napp: "0 < nat \<bar>wp_applied page\<bar>"
      using e nz by (auto simp: effect_ok_def)
    obtain q' where rec: "quantum_record q (wp_usage page) = Inr q'"
      and outq: "output_rows (wq_used q') = output_rows (wq_used q) + nat \<bar>wp_applied page\<bar>"
      and qok': "quantum_remaining q' \<noteq> Inr None \<Longrightarrow> quantum_ok q'"
      and used': "\<not> usage_is_empty (wq_used q')"
      using quantum_record_page [OF qok left(1) fits s rows napp bytes] usage by metis
    define acts' where "acts' = acts @ [\<lparr>sa_row_ordinal = int p, sa_applied = wp_applied page\<rparr>]"
    note row_result = page_result_row [OF Cons.prems(1) p_def acts'_def nz, unfolded ws fst_conv,
        OF sg part mass outq]
    have unfold: "sink_page st (length es) (h # hs) (Some c) q acts =
       (case wp_remaining page of
           Some r \<Rightarrow>
             bind_res (input_position_new (ip_stream_id st) (ip_chunk_seq st) (int p))
               (\<lambda>x. Inr (acts', Some \<lparr>sk_position = x, sk_remaining = Some r, sk_persisted = True\<rparr>, q'))
         | None \<Rightarrow>
             bind_res (ok_or ''Sink row ordinal exhausted bigint'' (checked_add_i64 (int p) 1)) (\<lambda>n.
             if n < 0 then Inl ''Sink row ordinal became negative''
             else if nat n = length es then Inr (acts', None, q')
             else
               bind_res (input_position_new (ip_stream_id st) (ip_chunk_seq st) n) (\<lambda>x.
               let nxt' = Some \<lparr>sk_position = x, sk_remaining = None, sk_persisted = True\<rparr> in
               bind_res (quantum_remaining q') (\<lambda>left'.
               if left' = None then Inr (acts', nxt', q')
               else sink_page st (length es) hs nxt' q' acts'))))"
      unfolding sink_page.simps acts'_def Let_def hw using page rec row left(1) fits
      by simp blast
    have longer: "length acts < length acts'" by (simp add: acts'_def)
    have more_rows: "output_rows (wq_used q) < output_rows (wq_used q')" using outq napp by simp
    show ?thesis
    proof (cases "wp_remaining page")
      case (Some r)
      define c' where "c' = \<lparr>sk_position = \<lparr>ip_stream_id = ip_stream_id st, ip_chunk_seq = ip_chunk_seq st,
           ip_row_ordinal = int p\<rparr>, sk_remaining = Some r, sk_persisted = True\<rparr>"
      have "sink_page st (length es) (h # hs) (Some c) q acts = Inr (acts', Some c', q')"
        unfolding unfold using Some ids Cons.prems(2,3) by (simp add: input_position_new_def c'_def)
      moreover have "page_result es (Some c) q acts (acts', Some c', q')"
        by (rule row_result)
           (use Some rem ids pl ws Cons.prems(2,3) p_def in
             \<open>auto simp: c'_def sink_at_def owed_def owed_weight_def rest_weight_def Let_def\<close>)
      ultimately show ?thesis using longer more_rows by auto
    next
      case None
      have plus: "checked_add_i64 (int p) 1 = Some (int (Suc p))"
        using pl es by (auto simp: checked_add_i64_def in_i64_def effects_ok_def i64_min_def)
      show ?thesis
      proof (cases "Suc p = length es")
        case True
        have "sink_page st (length es) (h # hs) (Some c) q acts = Inr (acts', None, q')"
          unfolding unfold using None plus True by (simp add: nat_add_distrib)
        moreover have "page_result es (Some c) q acts (acts', None, q')"
          by (rule row_result)
             (use None True p_def in \<open>auto simp: owed_def rest_weight_def Let_def\<close>)
        ultimately show ?thesis using longer more_rows by auto
      next
        case False
        define c' where "c' = \<lparr>sk_position = \<lparr>ip_stream_id = ip_stream_id st,
             ip_chunk_seq = ip_chunk_seq st, ip_row_ordinal = int (Suc p)\<rparr>, sk_remaining = None,
             sk_persisted = True\<rparr>"
        have at': "sink_at es c'"
          using ids False pl Cons.prems(2,3) by (auto simp: c'_def sink_at_def suffix_weight_def nat_add_distrib)
        have mid: "page_result es (Some c) q acts (acts', Some c', q')"
          by (rule row_result)
             (use None at' pl ws p_def in
               \<open>auto simp: c'_def owed_def owed_weight_def rest_weight_def Let_def nat_add_distrib\<close>)
        have go: "sink_page st (length es) (h # hs) (Some c) q acts =
            bind_res (quantum_remaining q') (\<lambda>left'.
               if left' = None then Inr (acts', Some c', q')
               else sink_page st (length es) hs (Some c') q' acts')"
          unfolding unfold c'_def using None plus False ids Cons.prems(2,3)
          by (simp add: input_position_new_def Let_def nat_add_distrib cong: if_cong)
        obtain l where l: "quantum_remaining q' = Inr l" using quantum_remaining_no_panic by blast
        show ?thesis
        proof (cases l)
          case None
          then show ?thesis using go l mid longer more_rows by auto
        next
          case (Some b')
          then have "quantum_ok q'" using qok' l by simp
          note quantum_ok = this
          have ids': "ip_stream_id st = ip_stream_id (sk_position c')"
              "ip_chunk_seq st = ip_chunk_seq (sk_position c')"
            and hs': "heads_from es (nat (ip_row_ordinal (sk_position c'))) hs"
            using hs by (simp_all add: c'_def nat_add_distrib)
          obtain out where out: "sink_page st (length es) hs (Some c') q' acts' = Inr out"
              "page_result es (Some c') q' acts' out"
            using Cons.IH [OF at' ids' hs' quantum_ok, of acts'] by blast
          have "length acts' \<le> length (fst out)
              \<and> output_rows (wq_used q') \<le> output_rows (wq_used (snd (snd out)))"
            using out(2) by (cases out) (simp add: page_result_def)
          then show ?thesis
            using go l Some out page_result_trans [OF mid out(2)] longer more_rows by auto
        qed
      qed
    qed
  qed
qed

section \<open>The pages of a chunk\<close>

lemma read_heads_payload:
  assumes "effects_ok es" "p \<le> m" "m \<le> length es"
  shows "read_heads (int p) (map (\<lambda>i. (int i, fst (es ! i), int (snd (es ! i)))) [p..<m])
           = Inr (map (head_at es) [p..<m])"
  using assms(2)
proof (induction "m - p" arbitrary: p)
  case 0
  then show ?case by simp
next
  case (Suc n)
  have pm: "p < m" and upt: "[p..<m] = p # [Suc p..<m]" using Suc.hyps(2) by (auto simp: upt_conv_Cons)
  have e: "effect_ok (es ! p)" using effects_ok_nth [OF assms(1), of p] pm assms(3) by simp
  have plus: "checked_add_i64 (int p) 1 = Some (int (Suc p))"
    using pm assms by (auto simp: checked_add_i64_def in_i64_def effects_ok_def i64_min_def)
  have "read_heads (int (Suc p)) (map (\<lambda>i. (int i, fst (es ! i), int (snd (es ! i)))) [Suc p..<m])
      = Inr (map (head_at es) [Suc p..<m])"
    by (rule Suc.hyps(1)) (use Suc.hyps(2) pm in auto)
  then show ?case
    using e plus by (simp add: upt nonnegative_def effect_ok_def head_at_def del: upt_Suc)
qed

lemma payload_suffix:
  "filter (\<lambda>r. int p \<le> fst r) (sort_key fst (payload_of es))
     = map (\<lambda>i. (int i, fst (es ! i), int (snd (es ! i)))) [p..<length es]"
proof -
  have "sort_key fst (payload_of es) = payload_of es"
    by (rule sort_key_id_if_sorted) (simp add: payload_of_def o_def sorted_map sorted_wrt_upt strict_sorted_imp_sorted sorted_wrt_mono_rel)
  moreover have "filter (\<lambda>i. p \<le> i) [0..<length es] = [p..<length es]"
  proof -
    have "filter (\<lambda>i. p \<le> i) [0..<n] = [p..<n]" for n by (induction n) auto
    then show ?thesis .
  qed
  ultimately show ?thesis
    by (simp add: payload_of_def filter_map o_def)
qed

lemma effect_heads_payload:
  assumes es: "effects_ok es" and n: "0 < n" "int n \<le> i64_max" and p: "p < length es"
  obtains hs where "effect_heads (payload_of es) (int p) n = Inr hs" and "heads_from es p hs"
    and "hs \<noteq> []"
proof -
  define m where "m = min (length es) (p + n)"
  have m: "p < m" "m \<le> length es" using n p by (auto simp: m_def)
  have take: "take n [p..<length es] = [p..<m]" using p by (auto simp: m_def min_def)
  let ?row = "\<lambda>i. (int i, fst (es ! i), int (snd (es ! i)))"
  have page: "take n (filter (\<lambda>r. int p \<le> fst r) (sort_key fst (payload_of es))) = map ?row [p..<m]"
    by (simp add: payload_suffix take_map take)
  have "effect_heads (payload_of es) (int p) n = Inr (map (head_at es) [p..<m])"
    unfolding effect_heads_def page Let_def
    using read_heads_payload [OF es, of p m] n m by simp
  moreover have "heads_from es p (map (head_at es) [p..<m])" using m by (simp add: heads_from_def)
  ultimately show thesis using m by (intro that) auto
qed

text \<open>The checkpoints of a chunk, each page planned from the continuation the last one left.\<close>

fun sink_run ::
    "nat \<Rightarrow> payload_rows \<Rightarrow> nat \<Rightarrow> work_budget \<Rightarrow> sink_continuation \<Rightarrow> sink_action list result" where
  "sink_run 0 rows n b c = Inl ''out of fuel''"
| "sink_run (Suc fuel) rows n b c =
     bind_res (effect_heads rows (ip_row_ordinal (sk_position c)) (max_input_rows b)) (\<lambda>heads.
     bind_res (sink_plan c n heads b) (\<lambda>(acts, nxt, q).
     case nxt of
       None \<Rightarrow> Inr acts
     | Some c' \<Rightarrow> bind_res (sink_run fuel rows n b c') (\<lambda>acts'. Inr (acts @ acts'))))"

lemma sink_plan_result:
  assumes es: "effects_ok es" and at: "sink_at es c" and b: "budget_ok b"
    and hs: "heads_from es (nat (ip_row_ordinal (sk_position c))) hs" "hs \<noteq> []"
  obtains acts nxt q where "sink_plan c (length es) hs b = Inr (acts, nxt, q)"
    and "page_result es (Some c) (q\<lparr>wq_used := usage_default\<rparr>) [] (acts, nxt, q)"
    and "0 < output_rows (wq_used q)"
proof -
  define q0 where "q0 = \<lparr>wq_budget = b, wq_used = usage_default, wq_transitions = 0,
      wq_max_transitions = max_input_rows b\<rparr>"
  have new: "quantum_new b (max_input_rows b) = Inr q0"
    using b by (simp add: quantum_new_def q0_def budget_ok_def)
  have "\<exists>x. quantum_remaining q0 = Inr (Some x)"
    using b by (simp add: quantum_remaining_Some q0_def budget_ok_def usage_default_def)
  then have ok: "quantum_ok q0" using b by (auto simp: quantum_ok_def q0_def usage_is_empty_def usage_default_def)
  have empty: "usage_is_empty (wq_used q0)" by (simp add: q0_def usage_is_empty_def usage_default_def)
  obtain acts nxt q where out: "sink_page (sk_position c) (length es) hs (Some c) q0 [] = Inr (acts, nxt, q)"
      and res: "page_result es (Some c) q0 [] (acts, nxt, q)"
      and nonempty: "acts \<noteq> []" "output_rows (wq_used q0) < output_rows (wq_used q)"
    using sink_page_result [OF es at refl refl hs(1) ok, of "[]"] hs(2) empty by auto
  have "sink_plan c (length es) hs b = Inr (acts, nxt, q)"
    using new out nonempty by (simp add: sink_plan_def)
  moreover have "page_result es (Some c) (q\<lparr>wq_used := usage_default\<rparr>) [] (acts, nxt, q)"
    using res by (simp add: page_result_def q0_def)
  ultimately show thesis using nonempty that by (simp add: q0_def usage_default_def)
qed

lemma sink_run_result:
  assumes es: "effects_ok es" and b: "budget_ok b" "int (max_input_rows b) \<le> i64_max"
    and at: "sink_at es c" and fuel: "owed_total es (Some c) \<le> fuel"
  shows "\<exists>acts. sink_run fuel (payload_of es) (length es) b c = Inr acts
           \<and> (\<forall>r < length es. applied_to acts r = owed es (Some c) r)
           \<and> (\<forall>a \<in> set acts. \<exists>r < length es. sa_row_ordinal a = int r
                \<and> sgn (sa_applied a) = sgn (fst (es ! r)) \<and> sa_applied a \<noteq> 0)"
  using at fuel
proof (induction fuel arbitrary: c)
  case (0 c)
  have p: "nat (ip_row_ordinal (sk_position c)) < length es"
    and sw: "suffix_weight (fst (es ! nat (ip_row_ordinal (sk_position c)))) (sk_remaining c)"
    using 0 by (auto simp: sink_at_def)
  have "owed es (Some c) (nat (ip_row_ordinal (sk_position c))) \<noteq> 0"
    using sw effects_ok_nth [OF es p]
    by (auto simp: owed_def owed_weight_def suffix_weight_def effect_ok_def Let_def split: option.splits)
  then show ?case using 0 p by (auto simp: owed_total_def)
next
  case (Suc fuel c)
  let ?p = "nat (ip_row_ordinal (sk_position c))"
  have p: "?p < length es" and row: "ip_row_ordinal (sk_position c) = int ?p"
    using Suc.prems by (auto simp: sink_at_def)
  obtain hs where heads: "effect_heads (payload_of es) (int ?p) (max_input_rows b) = Inr hs"
      and hs: "heads_from es ?p hs" "hs \<noteq> []"
    using effect_heads_payload [OF es _ b(2) p] b(1) unfolding budget_ok_def by blast
  obtain acts nxt q where plan: "sink_plan c (length es) hs b = Inr (acts, nxt, q)"
    and res: "page_result es (Some c) (q\<lparr>wq_used := usage_default\<rparr>) [] (acts, nxt, q)"
    and out: "0 < output_rows (wq_used q)"
    using sink_plan_result [OF es Suc.prems(1) b(1) hs] by blast
  have facts: "\<forall>c. nxt = Some c \<longrightarrow> sink_at es c"
      "\<forall>r < length es. applied_to acts r + owed es nxt r = owed es (Some c) r"
      "\<forall>a \<in> set acts. \<exists>r < length es. sa_row_ordinal a = int r
          \<and> sgn (sa_applied a) = sgn (fst (es ! r)) \<and> sa_applied a \<noteq> 0"
      "output_rows (wq_used q) + owed_total es nxt = owed_total es (Some c)"
    using res by (simp_all add: page_result_def usage_default_def)
  show ?case
  proof (cases nxt)
    case None
    then have "sink_run (Suc fuel) (payload_of es) (length es) b c = Inr acts"
      using heads plan row by simp
    then show ?thesis using facts None by (simp add: owed_def)
  next
    case (Some c')
    have "owed_total es (Some c') \<le> fuel" using facts(4) out Some Suc.prems by simp
    then obtain acts' where rest: "sink_run fuel (payload_of es) (length es) b c' = Inr acts'"
        "\<forall>r < length es. applied_to acts' r = owed es (Some c') r"
        "\<forall>a \<in> set acts'. \<exists>r < length es. sa_row_ordinal a = int r
          \<and> sgn (sa_applied a) = sgn (fst (es ! r)) \<and> sa_applied a \<noteq> 0"
      using Suc.IH [of c'] facts Some by blast
    have "sink_run (Suc fuel) (payload_of es) (length es) b c = Inr (acts @ acts')"
      using heads plan row Some rest by simp
    then show ?thesis using facts Some rest by (auto simp: applied_to_append)
  qed
qed

section \<open>The continuation row\<close>

definition sink_codable :: "int \<Rightarrow> sink_continuation \<Rightarrow> bool" where
  "sink_codable stream c \<longleftrightarrow>
     ip_stream_id (sk_position c) = stream \<and> 0 < stream \<and> 0 < ip_chunk_seq (sk_position c)
     \<and> 0 \<le> ip_row_ordinal (sk_position c) \<and> sk_remaining c \<noteq> Some 0 \<and> sk_persisted c"

lemma sink_decode_encode: "sink_codable stream c \<Longrightarrow> sink_decode stream (sink_encode c) = Inr c"
  by (cases c; cases "sk_position c")
     (auto simp: sink_codable_def sink_encode_def sink_decode_def input_position_new_def)

lemma sink_encode_decode: "sink_decode stream f = Inr c \<Longrightarrow> sink_encode c = f"
  by (cases f) (auto simp: sink_encode_def sink_decode_def input_position_new_def res_simps split: if_splits)

lemma sink_decode_codable: "sink_decode stream f = Inr c \<Longrightarrow> sink_codable stream c"
  by (auto simp: sink_codable_def sink_decode_def input_position_new_def res_simps split: if_splits)

interpretation sink_codec: continuation_codec
  "sink_codable stream" "\<lambda>f. True" "\<lambda>c. Inr (sink_encode c)" "sink_decode stream" for stream
  by unfold_locales (auto simp: sink_decode_encode dest: sink_encode_decode)

text \<open>A continuation that a page of a chunk leaves behind is one the row can carry.\<close>

lemma sink_at_codable:
  "sink_at es c \<Longrightarrow> sk_persisted c \<Longrightarrow> ip_stream_id (sk_position c) = stream \<Longrightarrow> sink_codable stream c"
  by (auto simp: sink_at_def sink_codable_def suffix_weight_def split: option.splits)

section \<open>Properties\<close>

definition sink_fresh :: "int \<Rightarrow> int \<Rightarrow> sink_continuation" where
  "sink_fresh stream seq =
     \<lparr>sk_position = \<lparr>ip_stream_id = stream, ip_chunk_seq = seq, ip_row_ordinal = 0\<rparr>,
      sk_remaining = None, sk_persisted = False\<rparr>"

lemma owed_fresh: "owed es (Some (sink_fresh stream seq)) r = fst (es ! r)"
  by (simp add: owed_def sink_fresh_def owed_weight_def)

text \<open>
  C14: Every row of a data chunk is applied to the result exactly its weight: from the first row,
  the checkpoints of the Sink end after at most as many pages as the sum of the absolute weights,
  none of them fails, every single mutation has the sign of the weight of its row, and the
  mutations of a row add up to its weight, however small the budgets are.
\<close>

theorem sink_applies_exactly:
  assumes "effects_ok es" and "es \<noteq> []"
    and "budget_ok b" and "int (max_input_rows b) \<le> i64_max"
    and "0 < stream" and "0 < seq" and "(\<Sum>r<length es. nat \<bar>fst (es ! r)\<bar>) \<le> fuel"
  shows "\<exists>acts. sink_run fuel (payload_of es) (length es) b (sink_fresh stream seq) = Inr acts
           \<and> (\<forall>r < length es. applied_to acts r = fst (es ! r))
           \<and> (\<forall>a \<in> set acts. \<exists>r < length es. sa_row_ordinal a = int r
                \<and> sgn (sa_applied a) = sgn (fst (es ! r)) \<and> sa_applied a \<noteq> 0)"
proof -
  have at: "sink_at es (sink_fresh stream seq)"
    using assms by (simp add: sink_at_def sink_fresh_def suffix_weight_def)
  have "owed_total es (Some (sink_fresh stream seq)) \<le> fuel"
    using assms(7) by (simp add: owed_total_def owed_fresh)
  then show ?thesis
    using sink_run_result [OF assms(1,3,4) at] by (simp add: owed_fresh)
qed

theorem sink_applies_exactly_witness:
  "\<exists>acts. sink_run 7 (payload_of [(5, 3), (- 2, 100)]) 2
             \<lparr>max_input_rows = 10, max_input_bytes = 10, max_output_rows = 2, max_output_bytes = 20\<rparr>
             (sink_fresh 1 1) = Inr acts
     \<and> applied_to acts 0 = 5 \<and> applied_to acts 1 = - 2"
  using sink_applies_exactly
    [of "[(5, 3), (- 2, 100)]"
        "\<lparr>max_input_rows = 10, max_input_bytes = 10, max_output_rows = 2, max_output_bytes = 20\<rparr>"
        1 1 7]
  by (auto simp: effects_ok_def effect_ok_def in_i64_def i64_max_def i64_min_def budget_ok_def
      u64_max_def lessThan_Suc All_less_Suc numeral_2_eq_2)

end
