(* ===== verification/Distinct_Machine.thy ===== *)
theory Distinct_Machine
  imports Resumable_Machine
begin

text \<open>
  The Distinct phase machine (\<open>src/execution/distinct/machine.rs\<close>): apply a prefix of an input
  chunk to the keyed bag, drain the queued effects before the next prefix, and forward a frontier
  without state changes.
\<close>

section \<open>Data\<close>

datatype distinct_phase = DApply | DDrain | DFrontier

record distinct_continuation =
  dc_input :: input_position
  dc_phase :: distinct_phase

record occupancy_diff =
  oc_touched_keys :: nat
  oc_external_effects :: nat

datatype distinct_action =
    ApplyPrefix input_position
  | DrainEffects input_position
  | DForwardFrontier input_position

record applied_prefix =
  apx_facts :: primitive_facts
  apx_occupancy :: occupancy_diff
  apx_next :: "distinct_continuation option"

datatype distinct_action_result =
    PrefixApplied applied_prefix
  | PrefixDrained applied_prefix
  | DFrontierForwarded primitive_facts

text \<open>\<open>DistinctTransition::Committed\<close>, its only constructor.\<close>

type_synonym distinct_transition = "distinct_continuation option \<times> primitive_facts"

section \<open>Transitions\<close>

definition distinct_validate_input :: "input_position \<Rightarrow> unit result" where
  "distinct_validate_input i =
     (if ip_stream_id i \<le> 0 \<or> ip_chunk_seq i \<le> 0 \<or> ip_row_ordinal i < 0
      then Inl ''Distinct input position is invalid'' else Inr ())"

definition distinct_action_of :: "distinct_continuation \<Rightarrow> distinct_action result" where
  "distinct_action_of c =
     bind_res (distinct_validate_input (dc_input c)) (\<lambda>_.
     if dc_phase c = DFrontier \<and> ip_row_ordinal (dc_input c) \<noteq> 0
     then Inl ''Distinct frontier has a data-row position''
     else Inr (case dc_phase c of
         DApply \<Rightarrow> ApplyPrefix (dc_input c)
       | DDrain \<Rightarrow> DrainEffects (dc_input c)
       | DFrontier \<Rightarrow> DForwardFrontier (dc_input c)))"

definition drains_next :: "distinct_continuation option \<Rightarrow> bool" where
  "drains_next n \<longleftrightarrow> (case n of Some c \<Rightarrow> dc_phase c = DDrain | None \<Rightarrow> False)"

definition distinct_apply_prefix ::
    "input_position \<Rightarrow> applied_prefix \<Rightarrow> work_budget \<Rightarrow> bool \<Rightarrow> distinct_transition result" where
  "distinct_apply_prefix input page b consumes =
     (let f = apx_facts page; u = pr_usage f; oc = apx_occupancy page in
      if consumes \<and> input_rows u = 0 then Inl ''Distinct prefix made no bounded input progress''
      else if \<not> consumes \<and> (input_rows u \<noteq> 0 \<or> input_bytes u \<noteq> 0)
      then Inl ''Distinct drain consumed input''
      else if consumes \<and> input_rows u < oc_touched_keys oc
      then Inl ''Distinct typed occupancy summary is inconsistent''
      else if consumes \<and> (output_rows u \<noteq> 0 \<or> pr_output f \<noteq> NoOutput
          \<or> (0 < oc_external_effects oc \<and> \<not> drains_next (apx_next page))
          \<or> (oc_external_effects oc = 0 \<and> drains_next (apx_next page)))
      then Inl ''Distinct Apply/Drain handoff is inconsistent''
      else if \<not> consumes \<and> oc_external_effects oc \<noteq> output_rows u
      then Inl ''Distinct drain effect summary is inconsistent''
      else if \<not> ((pr_output f = NoOutput \<and> output_rows u = 0)
                 \<or> (is_data_output (pr_output f) \<and> 0 < output_rows u))
      then Inl ''Distinct output chunk disagrees with its occupancy diff''
      else if is_frontier_output (pr_output f) then Inl ''Distinct input prefix emitted a frontier''
      else
        bind_res
          (case apx_next page of
             None \<Rightarrow> Inr None
           | Some n \<Rightarrow>
               bind_res (distinct_validate_input (dc_input n)) (\<lambda>_.
               if ip_stream_id (dc_input n) \<noteq> ip_stream_id input
                  \<or> ip_chunk_seq (dc_input n) \<noteq> ip_chunk_seq input
                  \<or> (consumes \<and> ip_row_ordinal (dc_input n) \<le> ip_row_ordinal input)
                  \<or> (\<not> consumes \<and> ip_row_ordinal (dc_input n) \<noteq> ip_row_ordinal input)
                  \<or> dc_phase n = DFrontier
               then Inl ''Distinct continuation did not advance its input'' else Inr (Some n)))
          (\<lambda>continuation.
        bind_res
          (validate_protocol f b (if consumes then PhAdmit else PhDrain)
             (if continuation \<noteq> None then Continue else Finished)) (\<lambda>_.
        Inr (continuation, f))))"

definition distinct_apply_frontier ::
    "primitive_facts \<Rightarrow> work_budget \<Rightarrow> distinct_transition result" where
  "distinct_apply_frontier f b =
     bind_res (validate_protocol f b PhFrontier Finished) (\<lambda>_.
     if \<not> is_frontier_output (pr_output f) \<or> input_rows (pr_usage f) \<noteq> 0
        \<or> input_bytes (pr_usage f) \<noteq> 0 \<or> pr_state_rows f \<noteq> 0
     then Inl ''Distinct frontier commit is inconsistent'' else Inr (None, f))"

definition distinct_apply ::
    "(distinct_continuation, distinct_action_result) machine_apply" where
  "distinct_apply c r b =
     bind_res (distinct_action_of c) (\<lambda>expected.
     case (expected, r) of
       (ApplyPrefix i, PrefixApplied page) \<Rightarrow> distinct_apply_prefix i page b True
     | (DrainEffects i, PrefixDrained page) \<Rightarrow> distinct_apply_prefix i page b False
     | (DForwardFrontier _, DFrontierForwarded f) \<Rightarrow> distinct_apply_frontier f b
     | _ \<Rightarrow> Inl ''database returned facts for another Distinct phase'')"

section \<open>The contract\<close>

lemma distinct_validate_input_Inr [res_simps]:
  "distinct_validate_input i = Inr () \<longleftrightarrow>
     0 < ip_stream_id i \<and> 0 < ip_chunk_seq i \<and> 0 \<le> ip_row_ordinal i"
  by (auto simp: distinct_validate_input_def)

definition distinct_valid :: "distinct_continuation \<Rightarrow> bool" where
  "distinct_valid c \<longleftrightarrow> distinct_validate_input (dc_input c) = Inr ()
     \<and> (dc_phase c = DFrontier \<longrightarrow> ip_row_ordinal (dc_input c) = 0)"

lemma distinct_action_of_Inr [res_simps]:
  "distinct_action_of c = Inr a \<longleftrightarrow> distinct_valid c \<and>
     a = (case dc_phase c of
         DApply \<Rightarrow> ApplyPrefix (dc_input c)
       | DDrain \<Rightarrow> DrainEffects (dc_input c)
       | DFrontier \<Rightarrow> DForwardFrontier (dc_input c))"
  by (auto simp: distinct_action_of_def distinct_valid_def bind_res_Inr)

lemma distinct_apply_prefix_Inr:
  assumes "distinct_apply_prefix i page b consumes = Inr (n, f)"
  shows "f = apx_facts page" "n = apx_next page"
    "\<And>c. n = Some c \<Longrightarrow> distinct_valid c \<and> dc_phase c \<noteq> DFrontier
       \<and> ip_stream_id (dc_input c) = ip_stream_id i \<and> ip_chunk_seq (dc_input c) = ip_chunk_seq i
       \<and> (if consumes then ip_row_ordinal i < ip_row_ordinal (dc_input c)
          else ip_row_ordinal (dc_input c) = ip_row_ordinal i)"
    "primitive_validate f b = Inr ()" "\<not> is_frontier_output (pr_output f)"
    "if consumes then 0 < input_rows (pr_usage f) \<and> output_rows (pr_usage f) = 0
        \<and> drains_next n = (0 < oc_external_effects (apx_occupancy page))
     else input_rows (pr_usage f) = 0"
  using assms
  by (auto simp: distinct_apply_prefix_def distinct_valid_def Let_def res_simps not_le
      split: if_splits option.splits)

lemma distinct_apply_cases [consumes 1]:
  assumes "distinct_apply c r b = Inr (n, f)"
  obtains (applied) page where "dc_phase c = DApply" "r = PrefixApplied page"
      "distinct_apply_prefix (dc_input c) page b True = Inr (n, f)" "distinct_valid c"
    | (drained) page where "dc_phase c = DDrain" "r = PrefixDrained page"
      "distinct_apply_prefix (dc_input c) page b False = Inr (n, f)" "distinct_valid c"
    | (frontier) "dc_phase c = DFrontier" "r = DFrontierForwarded f" "n = None"
      "distinct_apply_frontier f b = Inr (n, f)" "distinct_valid c"
  using assms
  by (cases r; cases "dc_phase c")
     (auto simp: distinct_apply_def distinct_apply_frontier_def res_simps)

interpretation distinct: resumable_machine distinct_valid distinct_apply
proof
  fix c r b n f assume "distinct_apply c r b = Inr (n, f)"
  then show "distinct_valid c" by (cases rule: distinct_apply_cases)
next
  fix c r b c' f assume "distinct_apply c r b = Inr (Some c', f)"
  then show "distinct_valid c'"
    by (cases rule: distinct_apply_cases) (auto dest: distinct_apply_prefix_Inr(3))
next
  fix c r b n f assume "distinct_apply c r b = Inr (n, f)"
  then show "primitive_validate f b = Inr ()"
    by (cases rule: distinct_apply_cases)
       (auto dest: distinct_apply_prefix_Inr(4) simp: distinct_apply_frontier_def res_simps)
next
  fix c r b n f assume "distinct_apply c r b = Inr (n, f)" "is_frontier_output (pr_output f)"
  then show "n = None"
    by (cases rule: distinct_apply_cases) (auto dest: distinct_apply_prefix_Inr(5))
qed

lemma distinct_progress:
  assumes "distinct_apply c r b = Inr (Some c', f)"
  shows "ip_row_ordinal (dc_input c) < ip_row_ordinal (dc_input c')
           \<or> dc_phase c = DDrain \<and> ip_row_ordinal (dc_input c) = ip_row_ordinal (dc_input c')"
  using assms
  by (cases rule: distinct_apply_cases) (auto dest: distinct_apply_prefix_Inr(3))

end
