(* ===== verification/Payload_Rows.thy ===== *)
theory Payload_Rows
  imports Step_Commit
begin

text \<open>
  The payload of an effect chunk: the weighted rows that the metadata of the chunk counts, the
  size the database gives them, the bounded pages in which the statements of the operators take
  them, and the measurement that \<open>payload_facts\<close> (\<open>src/execution/stream.rs\<close>) makes.
\<close>

section \<open>Rows\<close>

record 'i payload_row =
  pw_ordinal :: int
  pw_weight :: int
  pw_value :: 'i

text \<open>\<open>shiba_internal.effect_row_bytes\<close>: the octets of the sent record and eight for the weight.\<close>

definition effect_row_bytes :: "nat \<Rightarrow> int" where
  "effect_row_bytes octets = int octets + 8"

text \<open>A cast to \<open>bigint\<close>.\<close>

definition to_bigint :: "int \<Rightarrow> int result" where
  "to_bigint v = (if in_i64 v then Inr v else Inl ''bigint out of range'')"

section \<open>Bounded pages\<close>

text \<open>
  The first \<open>n\<close> rows, of which the first is taken and each other one whose running total of bytes
  is within the limit; with the rows that stay behind.
\<close>

fun page_split :: "bool \<Rightarrow> nat \<Rightarrow> int \<Rightarrow> ('x \<Rightarrow> int) \<Rightarrow> int \<Rightarrow> 'x list \<Rightarrow> 'x list \<times> 'x list" where
  "page_split first n limit bytes running [] = ([], [])"
| "page_split first n limit bytes running (x # xs) =
     (if n = 0 then ([], x # xs)
      else
        let total = running + bytes x;
            (selected, left) = page_split False (n - 1) limit bytes total xs
        in if first \<or> total \<le> limit then (x # selected, left) else (selected, x # left))"

lemma page_split_nonempty: "0 < n \<Longrightarrow> xs \<noteq> [] \<Longrightarrow> fst (page_split True n limit bytes r xs) \<noteq> []"
  by (cases xs) (auto simp: Let_def split: prod.splits)

lemma page_split_beyond:
  "(\<And>x. x \<in> set xs \<Longrightarrow> 0 \<le> bytes x) \<Longrightarrow> limit < running \<Longrightarrow>
     page_split False n limit bytes running xs = ([], xs)"
proof (induction xs arbitrary: n running)
  case (Cons x xs)
  then have "limit < running + bytes x" by (smt (verit) list.set_intros(1))
  then show ?case using Cons by (simp add: Let_def)
qed simp

text \<open>A page is a prefix, because no row has negative bytes.\<close>

lemma page_split_prefix:
  "(\<And>x. x \<in> set xs \<Longrightarrow> 0 \<le> bytes x) \<Longrightarrow>
     \<exists>m \<le> n. page_split first n limit bytes running xs = (take m xs, drop m xs)"
proof (induction xs arbitrary: first n running)
  case Nil
  then show ?case by (intro exI[of _ 0]) simp
next
  case (Cons x xs)
  show ?case
  proof (cases n)
    case 0
    then show ?thesis by simp
  next
    case (Suc n')
    obtain m where m: "m \<le> n'" "page_split False n' limit bytes (running + bytes x) xs = (take m xs, drop m xs)"
      using Cons.IH[of n' False "running + bytes x"] Cons.prems by auto
    show ?thesis
    proof (cases "first \<or> running + bytes x \<le> limit")
      case True
      then show ?thesis using m Suc by (intro exI[of _ "Suc m"]) (simp add: Let_def)
    next
      case False
      then have "page_split False n' limit bytes (running + bytes x) xs = ([], xs)"
        using Cons.prems by (intro page_split_beyond) auto
      then show ?thesis using False Suc by (intro exI[of _ 0]) (simp add: Let_def)
    qed
  qed
qed

section \<open>The measurement of a chunk\<close>

definition measure_rows ::
    "('i \<Rightarrow> nat) \<Rightarrow> 'i payload_row list \<Rightarrow> chunk_meta \<Rightarrow> payload_facts result" where
  "measure_rows octets rows ch =
     (let ordinals = map pw_ordinal rows
      in bind_res (to_bigint (sum_list (map (\<lambda>r. effect_row_bytes (octets (pw_value r))) rows)))
           (\<lambda>bytes.
         payload_facts_check ch (Some (int (length rows)))
           (if rows = [] then None else Some (Min (set ordinals)))
           (if rows = [] then None else Some (Max (set ordinals))) (Some bytes)))"

end
