(* ===== verification/Distinct_Store.thy ===== *)
theory Distinct_Store
  imports Distinct_Machine Payload_Rows "HOL-Library.AList"
begin

text \<open>
  The typed state of a Distinct stage and the SQL statements that change it
  (\<open>src/execution/distinct/runtime.rs\<close>): the keyed groups with their multiplicity and
  representative, the bag of physical rows, the queue of pending effects and the payload rows
  that a drain writes.  A relation with a unique key is an association list in the order of its
  identity column.  The key expressions, the projection and the canonical binary key of a row
  are parameters; the order of the key type stands for its B-tree order, in which SQL-equal
  keys are one value.
\<close>

section \<open>Data\<close>

record ('i, 'k, 'o, 'c) distinct_env =
  de_input :: "int \<Rightarrow> int \<Rightarrow> 'i payload_row list"
  de_key :: "'i \<Rightarrow> 'k"
  de_output :: "'i \<Rightarrow> 'o"
  de_canonical :: "'o \<Rightarrow> 'c"
  de_input_octets :: "'i \<Rightarrow> nat"
  de_output_octets :: "'o \<Rightarrow> nat"

record ('o, 'c) distinct_group =
  dg_multiplicity :: int
  dg_output :: "('c \<times> 'o) option"

record ('o, 'c) queued_effect =
  qe_key :: 'c
  qe_weight :: int
  qe_row :: 'o
  qe_bytes :: int
  qe_lsn :: nat

record ('k, 'o, 'c) distinct_store =
  ds_groups :: "('k \<times> ('o, 'c) distinct_group) list"
  ds_bag :: "(('k \<times> 'c) \<times> ('o \<times> int)) list"
  ds_queue :: "('o, 'c) queued_effect list"
  ds_touched :: "('k \<times> int) list"
  ds_payload :: "(int \<times> int \<times> 'o payload_row) list"

section \<open>The Apply statement\<close>

definition input_key :: "('i, 'k, 'o, 'c) distinct_env \<Rightarrow> 'i payload_row \<Rightarrow> 'k" where
  "input_key env r = de_key env (pw_value r)"

definition physical_key :: "('i, 'k, 'o, 'c) distinct_env \<Rightarrow> 'i payload_row \<Rightarrow> 'k \<times> 'c" where
  "physical_key env r = (input_key env r, de_canonical env (de_output env (pw_value r)))"

definition incoming_page ::
    "('i, 'k, 'o, 'c) distinct_env \<Rightarrow> 'i payload_row list \<Rightarrow> int \<Rightarrow> nat \<Rightarrow> int \<Rightarrow> 'i payload_row list"
where
  "incoming_page env payload first max_rows max_bytes =
     fst (page_split True max_rows max_bytes (\<lambda>r. effect_row_bytes (de_input_octets env (pw_value r)))
       0 (filter (\<lambda>r. first \<le> pw_ordinal r) (sort_key pw_ordinal payload)))"

definition collapsed_keys ::
    "('i, 'k :: linorder, 'o, 'c) distinct_env \<Rightarrow> 'i payload_row list \<Rightarrow> 'k list" where
  "collapsed_keys env incoming = sort (remdups (map (input_key env) incoming))"

text \<open>\<open>INSERT .. ON CONFLICT DO UPDATE\<close>: a group for every key of the page.\<close>

fun resolve_groups ::
    "('k \<times> ('o, 'c) distinct_group) list \<Rightarrow> 'k list \<Rightarrow> ('k \<times> ('o, 'c) distinct_group) list" where
  "resolve_groups groups [] = groups"
| "resolve_groups groups (k # ks) =
     resolve_groups
       (case map_of groups k of
          None \<Rightarrow> groups @ [(k, \<lparr>dg_multiplicity = 0, dg_output = None\<rparr>)]
        | Some g \<Rightarrow> groups) ks"

definition group_multiplicity :: "('k \<times> ('o, 'c) distinct_group) list \<Rightarrow> 'k \<Rightarrow> int" where
  "group_multiplicity groups k =
     (case map_of groups k of None \<Rightarrow> 0 | Some g \<Rightarrow> dg_multiplicity g)"

definition bag_multiplicity :: "(('k \<times> 'c) \<times> ('o \<times> int)) list \<Rightarrow> 'k \<times> 'c \<Rightarrow> int" where
  "bag_multiplicity bag p = (case map_of bag p of None \<Rightarrow> 0 | Some (row, m) \<Rightarrow> m)"

definition weights_at :: "('r \<Rightarrow> 'p) \<Rightarrow> ('r \<Rightarrow> int) \<Rightarrow> 'r list \<Rightarrow> 'p \<Rightarrow> int list" where
  "weights_at key weight rows p = map weight (filter (\<lambda>r. key r = p) rows)"

definition prefix_sums :: "int list \<Rightarrow> int list" where
  "prefix_sums ws = map (\<lambda>i. sum_list (take (Suc i) ws)) [0..<length ws]"

text \<open>Whether some prefix of the page takes a multiplicity below zero, or beyond a bigint.\<close>

definition goes_negative :: "int \<Rightarrow> int list \<Rightarrow> bool" where
  "goes_negative old ws \<longleftrightarrow> old + Min (set (prefix_sums ws)) < 0"

definition goes_beyond :: "int \<Rightarrow> int list \<Rightarrow> bool" where
  "goes_beyond old ws \<longleftrightarrow> i64_max < old + Max (set (prefix_sums ws))"

fun apply_physical ::
    "('i, 'k, 'o, 'c) distinct_env \<Rightarrow> 'i payload_row list \<Rightarrow> ('k \<times> 'c) list
     \<Rightarrow> (('k \<times> 'c) \<times> ('o \<times> int)) list \<Rightarrow> nat \<times> (('k \<times> 'c) \<times> ('o \<times> int)) list" where
  "apply_physical env incoming [] bag = (0, bag)"
| "apply_physical env incoming (p # ps) bag =
     (let net = sum_list (weights_at (physical_key env) pw_weight incoming p);
          (changed, bag') =
            (case map_of bag p of
               Some (row, m) \<Rightarrow>
                 if m + net = 0 then (1, AList.delete p bag)
                 else if 0 < m + net then (1, AList.update p (row, m + net) bag)
                 else (0, bag)
             | None \<Rightarrow>
                 if 0 < net
                 then case map_of (map (\<lambda>r. (physical_key env r, de_output env (pw_value r))) incoming) p of
                        Some row \<Rightarrow> (1, AList.update p (row, net) bag)
                      | None \<Rightarrow> (0, bag)
                 else (0, bag));
          (n, bag'') = apply_physical env incoming ps bag'
      in (changed + n, bag''))"

record apply_summary =
  as_touched_keys :: nat
  as_touched_physical :: nat
  as_next_row :: int
  as_input_rows :: nat
  as_input_bytes :: nat
  as_mutations :: nat

definition apply_statement ::
    "('i, 'k :: linorder, 'o, 'c) distinct_env \<Rightarrow> 'i payload_row list \<Rightarrow> int \<Rightarrow> nat \<Rightarrow> int
     \<Rightarrow> ('k, 'o, 'c) distinct_store \<Rightarrow> (apply_summary \<times> ('k, 'o, 'c) distinct_store) result" where
  "apply_statement env payload first max_rows max_bytes st =
     (let incoming = incoming_page env payload first max_rows max_bytes;
          keys = collapsed_keys env incoming;
          groups = resolve_groups (ds_groups st) keys;
          pairs = remdups (map (physical_key env) incoming);
          key_weights = weights_at (input_key env) pw_weight incoming;
          physical_weights = weights_at (physical_key env) pw_weight incoming;
          bytes = sum_list (map (\<lambda>r. effect_row_bytes (de_input_octets env (pw_value r))) incoming)
      in if (\<exists>k \<in> set keys. goes_negative (group_multiplicity groups k) (key_weights k))
            \<or> (\<exists>p \<in> set pairs. goes_negative (bag_multiplicity (ds_bag st) p) (physical_weights p))
         then Inl ''Distinct multiplicity transition returned negative''
         else if (\<exists>k \<in> set keys. goes_beyond (group_multiplicity groups k) (key_weights k))
            \<or> (\<exists>p \<in> set pairs. goes_beyond (bag_multiplicity (ds_bag st) p) (physical_weights p))
         then Inl ''Distinct multiplicity transition returned overflow''
         else
           let (changed, bag) = apply_physical env incoming pairs (ds_bag st) in
           bind_res (to_bigint bytes) (\<lambda>_.
           if incoming = [] then Inl ''database returned NULL Distinct next row''
           else
             Inr (\<lparr>as_touched_keys = length keys, as_touched_physical = length pairs,
                   as_next_row = Max (set (map pw_ordinal incoming)) + 1,
                   as_input_rows = length incoming, as_input_bytes = nat bytes,
                   as_mutations = changed + length keys + length keys\<rparr>,
                  st\<lparr>ds_groups := groups, ds_bag := bag,
                     ds_touched := map (\<lambda>k. (k, sum_list (key_weights k))) keys\<rparr>)))"

section \<open>The reconciliation statement\<close>

record ('k, 'o, 'c) desired_row =
  dr_key :: 'k
  dr_old_output :: "('c \<times> 'o) option"
  dr_old_multiplicity :: int
  dr_new_multiplicity :: int
  dr_output :: "('c \<times> 'o) option"

text \<open>The row of a group with the least canonical key.\<close>

definition representative :: "(('k \<times> 'c :: linorder) \<times> ('o \<times> int)) list \<Rightarrow> 'k \<Rightarrow> ('c \<times> 'o) option" where
  "representative bag k =
     (case sort_key fst (map (\<lambda>((k', c), (row, m)). (c, row)) (filter (\<lambda>e. fst (fst e) = k) bag)) of
        [] \<Rightarrow> None
      | x # xs \<Rightarrow> Some x)"

definition desired_row_of ::
    "('k \<times> int) list \<Rightarrow> (('k \<times> 'c :: linorder) \<times> ('o \<times> int)) list
     \<Rightarrow> 'k \<times> ('o, 'c) distinct_group \<Rightarrow> ('k, 'o, 'c) desired_row list" where
  "desired_row_of touched bag e =
     (case map_of touched (fst e) of
        None \<Rightarrow> []
      | Some net \<Rightarrow>
          [\<lparr>dr_key = fst e, dr_old_output = dg_output (snd e),
            dr_old_multiplicity = dg_multiplicity (snd e),
            dr_new_multiplicity = dg_multiplicity (snd e) + net,
            dr_output = representative bag (fst e)\<rparr>])"

definition desired_rows :: "('k, 'o, 'c :: linorder) distinct_store \<Rightarrow> ('k, 'o, 'c) desired_row list" where
  "desired_rows st = concat (map (desired_row_of (ds_touched st) (ds_bag st)) (ds_groups st))"

definition desired_corrupt :: "('o \<Rightarrow> 'c) \<Rightarrow> ('k, 'o, 'c) desired_row \<Rightarrow> bool" where
  "desired_corrupt canonical d \<longleftrightarrow>
     dr_new_multiplicity d < 0 \<or> i64_max < dr_new_multiplicity d
     \<or> (0 < dr_old_multiplicity d) \<noteq> (dr_old_output d \<noteq> None)
     \<or> (0 < dr_new_multiplicity d) \<noteq> (dr_output d \<noteq> None)
     \<or> (case dr_output d of None \<Rightarrow> False | Some (c, row) \<Rightarrow> c \<noteq> canonical row)"

definition leg_differs :: "('c \<times> 'o) option \<Rightarrow> 'c \<Rightarrow> bool" where
  "leg_differs other c \<longleftrightarrow> (case other of None \<Rightarrow> True | Some (c', row) \<Rightarrow> c' \<noteq> c)"

definition desired_effects :: "('k, 'o, 'c) desired_row \<Rightarrow> ('c \<times> int \<times> 'o) list" where
  "desired_effects d =
     (case dr_old_output d of
        None \<Rightarrow> []
      | Some (c, row) \<Rightarrow> if leg_differs (dr_output d) c then [(c, - 1, row)] else [])
     @ (case dr_output d of
        None \<Rightarrow> []
      | Some (c, row) \<Rightarrow> if leg_differs (dr_old_output d) c then [(c, 1, row)] else [])"

fun write_desired ::
    "('k, 'o, 'c) desired_row list \<Rightarrow> ('k \<times> ('o, 'c) distinct_group) list
     \<Rightarrow> ('k \<times> ('o, 'c) distinct_group) list" where
  "write_desired [] groups = groups"
| "write_desired (d # ds) groups =
     write_desired ds
       (if 0 < dr_new_multiplicity d
        then AList.update (dr_key d)
               \<lparr>dg_multiplicity = dr_new_multiplicity d, dg_output = dr_output d\<rparr> groups
        else if dr_new_multiplicity d = 0 then AList.delete (dr_key d) groups
        else groups)"

record reconcile_facts =
  rf_queued_effects :: nat
  rf_state_rows :: nat

definition reconcile_representatives ::
    "('i, 'k, 'o, 'c :: linorder) distinct_env \<Rightarrow> work_budget \<Rightarrow> nat
     \<Rightarrow> ('k, 'o, 'c) distinct_store \<Rightarrow> (reconcile_facts \<times> ('k, 'o, 'c) distinct_store) result" where
  "reconcile_representatives env b lsn st =
     (let desired = desired_rows st;
          effects = concat (map desired_effects desired);
          queued = map (\<lambda>(c, w, row). \<lparr>qe_key = c, qe_weight = w, qe_row = row,
                     qe_bytes = effect_row_bytes (de_output_octets env row), qe_lsn = lsn\<rparr>) effects
      in if length desired \<noteq> length (ds_touched st) \<or> list_ex (desired_corrupt (de_canonical env)) desired
         then Inl ''Distinct representative reconciliation returned corrupt''
         else if max_input_rows b < length desired
         then Inl ''Distinct reconciliation exceeded its touched-group bound''
         else
           Inr (\<lparr>rf_queued_effects = length queued,
                 rf_state_rows = length desired + length queued + length (ds_touched st)\<rparr>,
                st\<lparr>ds_groups := write_desired desired (ds_groups st),
                   ds_queue := ds_queue st @ queued, ds_touched := []\<rparr>))"

section \<open>The Apply primitive\<close>

record prefix_facts =
  xf_usage :: work_usage
  xf_next_row :: int
  xf_touched_keys :: nat
  xf_queued_effects :: nat
  xf_state_rows :: nat

definition run_prefix ::
    "('i, 'k :: linorder, 'o, 'c :: linorder) distinct_env \<Rightarrow> work_budget \<Rightarrow> chunk_meta \<Rightarrow> int
     \<Rightarrow> ('k, 'o, 'c) distinct_store \<Rightarrow> (prefix_facts \<times> ('k, 'o, 'c) distinct_store) result" where
  "run_prefix env b ch first st =
     (if i64_max < int (max_input_rows b) \<or> i64_max < int (max_input_bytes b)
      then Inl ''Distinct budget exceeds bigint''
      else
        bind_res (apply_statement env (de_input env (cm_stream_id ch) (cm_sequence ch)) first
                    (max_input_rows b) (int (max_input_bytes b)) st) (\<lambda>(s, st1).
        if as_input_rows s < as_touched_keys s \<or> as_input_rows s < as_touched_physical s
        then Inl ''Distinct Apply exceeded its per-input state bound''
        else
          bind_res (reconcile_representatives env b (cm_lsn ch) st1) (\<lambda>(r, st2).
          if saturating_mul_u64 (as_input_rows s) 2 < rf_queued_effects r
          then Inl ''Distinct queued more than two effects per admitted row''
          else
            bind_res (ok_or ''Distinct state count overflowed''
                        (checked_add_u64 (as_mutations s) (rf_state_rows r))) (\<lambda>n.
            Inr (\<lparr>xf_usage = \<lparr>input_rows = as_input_rows s, input_bytes = as_input_bytes s,
                              output_rows = 0, output_bytes = 0\<rparr>,
                  xf_next_row = as_next_row s, xf_touched_keys = as_touched_keys s,
                  xf_queued_effects = rf_queued_effects r, xf_state_rows = n\<rparr>, st2)))))"

section \<open>The drain primitive\<close>

record drain_facts =
  df_facts :: primitive_facts
  df_remaining_effects :: nat

definition drain_payload ::
    "int \<Rightarrow> int \<Rightarrow> ('o, 'c) queued_effect list \<Rightarrow> (int \<times> int \<times> 'o payload_row) list" where
  "drain_payload stream seq selected =
     map (\<lambda>i. (stream, seq, \<lparr>pw_ordinal = int i, pw_weight = qe_weight (selected ! i),
                            pw_value = qe_row (selected ! i)\<rparr>)) [0..<length selected]"

definition drain_queue ::
    "('i, 'k, 'o, 'c) distinct_env \<Rightarrow> step_context \<Rightarrow> ('k, 'o, 'c) distinct_store
     \<Rightarrow> (drain_facts \<times> step_context \<times> ('k, 'o, 'c) distinct_store) result" where
  "drain_queue env c st =
     bind_res (context_output c) (\<lambda>out.
     let b = sc_transition_budget c in
     if i64_max < int (max_output_rows b) \<or> i64_max < int (max_output_bytes b)
     then Inl ''Distinct budget exceeds bigint''
     else
       let max_rows = min (int (max_output_rows b)) (os_target_rows out);
           max_bytes = min (int (max_output_bytes b)) (os_target_bytes out)
       in if max_rows < 0 then Inl ''LIMIT must not be negative''
       else
         let (selected, left) = page_split True (nat max_rows) max_bytes qe_bytes 0 (ds_queue st);
             bytes = sum_list (map qe_bytes selected)
         in bind_res (to_bigint bytes) (\<lambda>_.
            if selected = [] then Inl ''database returned NULL Distinct causal LSN summary''
            else if (\<exists>e \<in> set selected. qe_lsn e \<noteq> qe_lsn (hd selected))
               \<or> (\<exists>e \<in> set selected. qe_key e \<noteq> de_canonical env (qe_row e)) \<or> bytes = 0
            then Inl ''Distinct bounded effect Drain is inconsistent''
            else
              bind_res (record_output_append c (NewChunk (os_next out)) (length selected) (nat bytes)
                          (qe_lsn (hd selected))) (\<lambda>c'.
              Inr (\<lparr>df_facts = \<lparr>pr_usage = \<lparr>input_rows = 0, input_bytes = 0,
                          output_rows = length selected, output_bytes = nat bytes\<rparr>,
                        pr_state_rows = length selected, pr_output = DataOutput (os_next out)\<rparr>,
                    df_remaining_effects = length left\<rparr>, c',
                   st\<lparr>ds_queue := left,
                      ds_payload := ds_payload st
                        @ drain_payload (os_stream_id out) (os_next out) selected\<rparr>))))"

end
