(* ===== verification/Distinct_Refinement.thy ===== *)
theory Distinct_Refinement
  imports Distinct_Store
begin

text \<open>
  The SQL statements of Distinct against their specification: the view of the rows consumed so
  far has, for each key of positive total weight, the row with the least canonical key among the
  rows of positive weight.  The statements keep the groups, the bag and the queue in step with it.
\<close>

section \<open>The view of a history\<close>

definition weight_total :: "('r \<Rightarrow> 'p) \<Rightarrow> ('r \<Rightarrow> int) \<Rightarrow> 'r list \<Rightarrow> 'p \<Rightarrow> int" where
  "weight_total key weight rows p = sum_list (weights_at key weight rows p)"

lemma weight_total_Nil [simp]: "weight_total key weight [] p = 0"
  by (simp add: weight_total_def weights_at_def)

lemma weight_total_append:
  "weight_total key weight (xs @ ys) p = weight_total key weight xs p + weight_total key weight ys p"
  by (simp add: weight_total_def weights_at_def)

lemma weight_total_Cons:
  "weight_total key weight (x # xs) p = (if key x = p then weight x else 0) + weight_total key weight xs p"
  by (simp add: weight_total_def weights_at_def)

lemma weight_total_absent: "p \<notin> key ` set rows \<Longrightarrow> weight_total key weight rows p = 0"
  by (induction rows) (auto simp: weight_total_Cons)

text \<open>The total of a coarse key is the sum of the totals of the fine keys below it.\<close>

lemma weight_total_fine:
  assumes "finite A" "\<And>r. r \<in> set rows \<Longrightarrow> coarse (fine r) = k \<Longrightarrow> fine r \<in> A"
    "\<And>p. p \<in> A \<Longrightarrow> coarse p = k"
  shows "weight_total (coarse \<circ> fine) weight rows k = (\<Sum>p\<in>A. weight_total fine weight rows p)"
  using assms(2)
proof (induction rows)
  case (Cons r rows)
  have "(\<Sum>p\<in>A. weight_total fine weight (r # rows) p)
      = (\<Sum>p\<in>A. if fine r = p then weight r else 0) + (\<Sum>p\<in>A. weight_total fine weight rows p)"
    by (simp add: weight_total_Cons sum.distrib)
  moreover have "(\<Sum>p\<in>A. if fine r = p then weight r else 0) = (if fine r \<in> A then weight r else 0)"
    using assms(1) by simp
  moreover have "fine r \<in> A \<longleftrightarrow> coarse (fine r) = k" using Cons.prems assms(3) by auto
  ultimately show ?case using Cons by (simp add: weight_total_Cons)
qed simp

definition key_total :: "('i, 'k, 'o, 'c) distinct_env \<Rightarrow> 'i payload_row list \<Rightarrow> 'k \<Rightarrow> int" where
  "key_total env = weight_total (input_key env) pw_weight"

definition physical_total :: "('i, 'k, 'o, 'c) distinct_env \<Rightarrow> 'i payload_row list \<Rightarrow> 'k \<times> 'c \<Rightarrow> int" where
  "physical_total env = weight_total (physical_key env) pw_weight"

definition distinct_view ::
    "('i, 'k, 'o, 'c :: linorder) distinct_env \<Rightarrow> 'i payload_row list \<Rightarrow> 'k \<Rightarrow> 'c option" where
  "distinct_view env rows k =
     (if 0 < key_total env rows k then Some (Min {c. 0 < physical_total env rows (k, c)}) else None)"

lemma input_key_physical: "input_key env = fst \<circ> physical_key env"
  by (auto simp: physical_key_def)

lemma key_total_sum:
  assumes "finite A" "\<And>c. physical_total env rows (k, c) \<noteq> 0 \<Longrightarrow> c \<in> A"
  shows "key_total env rows k = (\<Sum>c\<in>A. physical_total env rows (k, c))"
proof -
  let ?B = "{c. (k, c) \<in> physical_key env ` set rows}"
  have fin: "finite ?B"
  proof (rule finite_subset)
    show "?B \<subseteq> snd ` (physical_key env ` set rows)"
    proof
      fix c assume "c \<in> ?B"
      then have "snd (k, c) \<in> snd ` (physical_key env ` set rows)" by (intro imageI) simp
      then show "c \<in> snd ` (physical_key env ` set rows)" by simp
    qed
  qed simp
  have "key_total env rows k = (\<Sum>p\<in>Pair k ` (A \<union> ?B). weight_total (physical_key env) pw_weight rows p)"
    unfolding key_total_def input_key_physical
  proof (rule weight_total_fine)
    fix r assume r: "r \<in> set rows" "fst (physical_key env r) = k"
    obtain c where c: "physical_key env r = (k, c)" using r(2) by (cases "physical_key env r") auto
    then have "c \<in> ?B" using r(1) by (auto simp: image_iff intro: bexI[of _ r])
    then show "physical_key env r \<in> Pair k ` (A \<union> ?B)" using c by blast
  qed (use assms(1) fin in \<open>auto dest: sym[of "(_, _)"]\<close>)
  also have "\<dots> = (\<Sum>c\<in>A \<union> ?B. physical_total env rows (k, c))"
    by (subst sum.reindex) (auto simp: inj_on_def physical_total_def)
  also have "\<dots> = (\<Sum>c\<in>A. physical_total env rows (k, c))"
    by (rule sum.mono_neutral_right) (use assms fin in auto)
  finally show ?thesis .
qed

section \<open>Prefix sums\<close>

lemma prefix_sums_net: "ws \<noteq> [] \<Longrightarrow> sum_list ws \<in> set (prefix_sums ws)"
  by (force simp: prefix_sums_def image_iff intro!: bexI[of _ "length ws - 1"])

lemma not_negative_net:
  assumes "\<not> goes_negative old ws" "ws \<noteq> []"
  shows "0 \<le> old + sum_list ws"
  using assms Min_le[OF _ prefix_sums_net[OF assms(2)]] by (auto simp: goes_negative_def)

lemma weights_at_nonempty: "p \<in> key ` set rows \<Longrightarrow> weights_at key weight rows p \<noteq> []"
  by (auto simp: weights_at_def filter_empty_conv)

section \<open>Groups\<close>

lemma resolve_groups_map_of:
  "map_of (resolve_groups groups ks) k =
     (if map_of groups k = None \<and> k \<in> set ks then Some \<lparr>dg_multiplicity = 0, dg_output = None\<rparr>
      else map_of groups k)"
  by (induction groups ks rule: resolve_groups.induct)
     (auto simp: map_add_def split: option.splits)

lemma resolve_groups_distinct:
  "distinct (map fst groups) \<Longrightarrow> distinct (map fst (resolve_groups groups ks))"
  by (induction groups ks rule: resolve_groups.induct)
     (auto simp: map_of_eq_None_iff split: option.splits)

lemma resolve_groups_multiplicity [simp]:
  "group_multiplicity (resolve_groups groups ks) k = group_multiplicity groups k"
  by (auto simp: group_multiplicity_def resolve_groups_map_of split: option.splits)

text \<open>How many groups show a row: the count of the view.\<close>

definition visible :: "('o, 'c) distinct_group option \<Rightarrow> 'c \<Rightarrow> int" where
  "visible g c =
     (case g of None \<Rightarrow> 0 | Some g \<Rightarrow>
        (case dg_output g of None \<Rightarrow> 0 | Some (c', row) \<Rightarrow> if c' = c then 1 else 0))"

definition visible_count :: "('k \<times> ('o, 'c) distinct_group) list \<Rightarrow> 'c \<Rightarrow> int" where
  "visible_count groups c = sum_list (map (\<lambda>(k, g). visible (Some g) c) groups)"

lemma visible_append: "visible_count (xs @ ys) c = visible_count xs c + visible_count ys c"
  by (simp add: visible_count_def)

lemma visible_resolve [simp]: "visible_count (resolve_groups groups ks) c = visible_count groups c"
  by (induction groups ks rule: resolve_groups.induct)
     (auto simp: visible_count_def visible_def split: option.splits)

lemma visible_sum:
  "distinct (map fst groups) \<Longrightarrow> visible_count groups c = (\<Sum>k \<in> fst ` set groups. visible (map_of groups k) c)"
proof (induction groups)
  case (Cons e groups)
  obtain k g where e: "e = (k, g)" by (cases e)
  have "(\<Sum>k' \<in> fst ` set groups. visible (map_of (e # groups) k') c) = (\<Sum>k' \<in> fst ` set groups. visible (map_of groups k') c)"
    by (rule sum.cong) (use Cons.prems e in auto)
  then show ?case using Cons e by (simp add: visible_count_def)
qed (simp add: visible_count_def)

lemma visible_update:
  "distinct (map fst groups) \<Longrightarrow>
     visible_count (AList.update k g groups) c = visible_count groups c - visible (map_of groups k) c + visible (Some g) c"
  by (induction groups) (auto simp: visible_count_def visible_def[of None])

lemma visible_delete:
  "distinct (map fst groups) \<Longrightarrow> visible_count (AList.delete k groups) c = visible_count groups c - visible (map_of groups k) c"
  by (induction groups) (auto simp: visible_count_def visible_def[of None])

lemma write_desired_distinct:
  "distinct (map fst groups) \<Longrightarrow> distinct (map fst (write_desired ds groups))"
  by (induction ds groups rule: write_desired.induct) (auto simp: distinct_update distinct_delete)

lemma write_desired_other:
  "k \<notin> dr_key ` set ds \<Longrightarrow> map_of (write_desired ds groups) k = map_of groups k"
  by (induction ds groups rule: write_desired.induct) (auto simp: update_conv' delete_conv')

lemma write_desired_at:
  assumes "distinct (map dr_key ds)" "d \<in> set ds" "0 \<le> dr_new_multiplicity d"
  shows "map_of (write_desired ds groups) (dr_key d) =
     (if dr_new_multiplicity d = 0 then None
      else Some \<lparr>dg_multiplicity = dr_new_multiplicity d, dg_output = dr_output d\<rparr>)"
  using assms
proof (induction ds arbitrary: groups)
  case (Cons d' ds)
  show ?case
  proof (cases "d' = d")
    case True
    then have "dr_key d \<notin> dr_key ` set ds" using Cons.prems(1) by auto
    then show ?thesis using True Cons.prems(3) by (auto simp: write_desired_other update_conv' delete_conv')
  next
    case False
    then show ?thesis using Cons by auto
  qed
qed simp

lemma visible_write_desired:
  assumes "distinct (map dr_key ds)" "distinct (map fst groups)"
    "\<And>d. d \<in> set ds \<Longrightarrow> 0 \<le> dr_new_multiplicity d \<and> (dr_new_multiplicity d = 0 \<longrightarrow> dr_output d = None)"
  shows "visible_count (write_desired ds groups) c = visible_count groups c
     + (\<Sum>d\<leftarrow>ds. visible (Some \<lparr>dg_multiplicity = 0, dg_output = dr_output d\<rparr>) c
         - visible (map_of groups (dr_key d)) c)"
  using assms
proof (induction ds arbitrary: groups)
  case (Cons d ds)
  define groups' where "groups' = (if 0 < dr_new_multiplicity d
        then AList.update (dr_key d) \<lparr>dg_multiplicity = dr_new_multiplicity d, dg_output = dr_output d\<rparr> groups
        else AList.delete (dr_key d) groups)"
  have zero: "\<not> 0 < dr_new_multiplicity d \<Longrightarrow> dr_new_multiplicity d = 0 \<and> dr_output d = None"
    using Cons.prems(3)[of d] by auto
  have step: "write_desired (d # ds) groups = write_desired ds groups'"
    using zero by (auto simp: groups'_def)
  have "distinct (map fst groups')" using Cons.prems(2) by (simp add: groups'_def distinct_update distinct_delete)
  then have "visible_count (write_desired ds groups') c = visible_count groups' c
     + (\<Sum>d\<leftarrow>ds. visible (Some \<lparr>dg_multiplicity = 0, dg_output = dr_output d\<rparr>) c - visible (map_of groups' (dr_key d)) c)"
    using Cons by (intro Cons.IH) auto
  also have "(\<Sum>d\<leftarrow>ds. visible (Some \<lparr>dg_multiplicity = 0, dg_output = dr_output d\<rparr>) c - visible (map_of groups' (dr_key d)) c)
     = (\<Sum>d\<leftarrow>ds. visible (Some \<lparr>dg_multiplicity = 0, dg_output = dr_output d\<rparr>) c - visible (map_of groups (dr_key d)) c)"
  proof (rule arg_cong[of _ _ sum_list], rule map_cong)
    fix d' assume "d' \<in> set ds"
    then have "dr_key d' \<in> dr_key ` set ds" by simp
    then have "dr_key d' \<noteq> dr_key d" using Cons.prems(1) by (metis distinct.simps(2) list.set_map list.simps(9))
    then show "visible (Some \<lparr>dg_multiplicity = 0, dg_output = dr_output d'\<rparr>) c - visible (map_of groups' (dr_key d')) c
        = visible (Some \<lparr>dg_multiplicity = 0, dg_output = dr_output d'\<rparr>) c - visible (map_of groups (dr_key d')) c"
      by (simp add: groups'_def update_conv' delete_conv')
  qed simp
  also have "visible_count groups' c = visible_count groups c
      + (visible (Some \<lparr>dg_multiplicity = 0, dg_output = dr_output d\<rparr>) c - visible (map_of groups (dr_key d)) c)"
    using Cons.prems(2) zero by (auto simp: groups'_def visible_update visible_delete) (auto simp: visible_def)
  finally show ?case unfolding step by simp
qed simp

section \<open>The bag\<close>

definition bag_ok :: "('o \<Rightarrow> 'c) \<Rightarrow> (('k \<times> 'c) \<times> ('o \<times> int)) list \<Rightarrow> bool" where
  "bag_ok canonical bag \<longleftrightarrow> distinct (map fst bag)
     \<and> (\<forall>((k, c), (row, m)) \<in> set bag. 0 < m \<and> c = canonical row)"

lemma bag_ok_delete: "bag_ok canonical bag \<Longrightarrow> bag_ok canonical (AList.delete p bag)"
  by (auto simp: bag_ok_def AList.delete_eq distinct_map_filter)

lemma bag_ok_update:
  "bag_ok canonical bag \<Longrightarrow> 0 < m \<Longrightarrow> snd p = canonical row \<Longrightarrow>
     bag_ok canonical (AList.update p (row, m) bag)"
proof (induction bag)
  case Nil
  then show ?case by (cases p) (auto simp: bag_ok_def)
next
  case (Cons e bag)
  obtain p' row' m' where e: "e = (p', (row', m'))" by (metis prod.collapse)
  have bag: "bag_ok canonical bag" using Cons.prems(1) by (auto simp: bag_ok_def)
  show ?case
  proof (cases "p' = p")
    case True
    then show ?thesis using Cons.prems e by (cases p) (auto simp: bag_ok_def)
  next
    case False
    have "fst ` set (AList.update p (row, m) bag) = insert p (fst ` set bag)" by (simp add: dom_update)
    then show ?thesis
      using Cons.IH[OF bag] Cons.prems False e by (auto simp: bag_ok_def)
  qed
qed

lemma bag_multiplicity_delete:
  "bag_multiplicity (AList.delete p bag) q = (if q = p then 0 else bag_multiplicity bag q)"
  by (simp add: bag_multiplicity_def delete_conv')

lemma bag_multiplicity_update:
  "bag_multiplicity (AList.update p (row, m) bag) q = (if q = p then m else bag_multiplicity bag q)"
  by (simp add: bag_multiplicity_def update_conv')

lemma bag_ok_map_of: "bag_ok canonical bag \<Longrightarrow> map_of bag p = Some (row, m) \<Longrightarrow> 0 < m \<and> snd p = canonical row"
  by (cases p) (auto simp: bag_ok_def dest!: map_of_SomeD)

lemma first_row:
  assumes "p \<in> physical_key env ` set incoming"
  obtains row where
    "map_of (map (\<lambda>r. (physical_key env r, de_output env (pw_value r))) incoming) p = Some row"
    "snd p = de_canonical env row"
proof -
  let ?f = "\<lambda>r. (physical_key env r, de_output env (pw_value r))"
  have "p \<in> fst ` set (map ?f incoming)" using assms by force
  then obtain row where row: "map_of (map ?f incoming) p = Some row"
    by (metis map_of_eq_None_iff option.exhaust)
  have "(p, row) \<in> set (map ?f incoming)" using map_of_SomeD[OF row] .
  then show thesis using row that by (auto simp: physical_key_def)
qed

lemma apply_physical_ok:
  assumes "apply_physical env incoming ps bag = (n, bag')" "distinct ps"
    "bag_ok (de_canonical env) bag" "set ps \<subseteq> physical_key env ` set incoming"
    "\<And>p. p \<in> set ps \<Longrightarrow> 0 \<le> bag_multiplicity bag p + physical_total env incoming p"
  shows "bag_ok (de_canonical env) bag' \<and>
     (\<forall>p. bag_multiplicity bag' p
        = bag_multiplicity bag p + (if p \<in> set ps then physical_total env incoming p else 0))"
  using assms
proof (induction ps arbitrary: bag n)
  case (Cons p ps)
  define net where "net = physical_total env incoming p"
  obtain first_row where first:
    "map_of (map (\<lambda>r. (physical_key env r, de_output env (pw_value r))) incoming) p = Some first_row"
    "snd p = de_canonical env first_row"
  proof (rule first_row)
    show "p \<in> physical_key env ` set incoming" using Cons.prems(4) by simp
  qed
  define bag1 where "bag1 = (case map_of bag p of
               Some (row, m) \<Rightarrow>
                 if m + net = 0 then AList.delete p bag
                 else AList.update p (row, m + net) bag
             | None \<Rightarrow> if 0 < net then AList.update p (first_row, net) bag else bag)"
  have nonneg: "0 \<le> bag_multiplicity bag p + net" using Cons.prems(5) by (simp add: net_def)
  have net: "sum_list (weights_at (physical_key env) pw_weight incoming p) = net"
    by (simp add: net_def physical_total_def weight_total_def)
  have rest: "snd (apply_physical env incoming ps bag1) = bag'"
  proof (cases "map_of bag p")
    case None
    then show ?thesis
      using Cons.prems(1) first(1) unfolding apply_physical.simps net bag1_def
      by (simp add: Let_def split: prod.splits if_splits)
  next
    case (Some e)
    obtain row m where e: "e = (row, m)" by (cases e)
    have "0 \<le> m + net" using nonneg Some e by (simp add: bag_multiplicity_def)
    then show ?thesis
      using Cons.prems(1) Some e unfolding apply_physical.simps net bag1_def
      by (auto simp add: Let_def split: prod.splits if_splits)
  qed
  have ok: "bag_ok (de_canonical env) bag1 \<and>
      (\<forall>q. bag_multiplicity bag1 q = bag_multiplicity bag q + (if q = p then net else 0))"
  proof (cases "map_of bag p")
    case None
    then show ?thesis
      using Cons.prems(3) first nonneg
      by (auto simp: bag1_def bag_ok_update bag_multiplicity_update) (auto simp: bag_multiplicity_def)
  next
    case (Some e)
    obtain row m where e: "e = (row, m)" by (cases e)
    have m: "0 < m" "snd p = de_canonical env row" "bag_multiplicity bag p = m"
      using bag_ok_map_of[OF Cons.prems(3)] Some e by (auto simp: bag_multiplicity_def)
    then show ?thesis
      using Cons.prems(3) nonneg Some e
      by (auto simp: bag1_def bag_ok_update bag_ok_delete bag_multiplicity_update bag_multiplicity_delete)
  qed
  obtain n' where n': "apply_physical env incoming ps bag1 = (n', bag')" using rest by (metis prod.collapse)
  have "0 \<le> bag_multiplicity bag1 q + physical_total env incoming q" if "q \<in> set ps" for q
    using that Cons.prems(2) Cons.prems(5)[of q] spec[OF conjunct2[OF ok], of q] by auto
  then have "bag_ok (de_canonical env) bag' \<and> (\<forall>q. bag_multiplicity bag' q
        = bag_multiplicity bag1 q + (if q \<in> set ps then physical_total env incoming q else 0))"
    using Cons.prems(2,4) ok by (intro Cons.IH[OF n']) auto
  then show ?case using ok Cons.prems(2) by (auto simp: net_def)
qed simp

lemma representative_key:
  assumes ok: "bag_ok canonical bag"
  shows "map_option fst (representative bag k) =
     (if {c. 0 < bag_multiplicity bag (k, c)} = {} then None
      else Some (Min {c. 0 < bag_multiplicity bag (k, c)}))"
    and "representative bag k = Some (c, row) \<Longrightarrow> c = canonical row"
proof -
  let ?xs = "map (\<lambda>((k', c), (row, m)). (c, row)) (filter (\<lambda>e. fst (fst e) = k) bag)"
  have keys: "fst ` set ?xs = {c. 0 < bag_multiplicity bag (k, c)}"
  proof (intro set_eqI iffI)
    fix c assume "c \<in> fst ` set ?xs"
    then obtain row m where e: "((k, c), (row, m)) \<in> set bag" by (auto split: prod.splits)
    then have "map_of bag (k, c) = Some (row, m)" using ok by (simp add: bag_ok_def)
    moreover have "0 < m" using e ok by (auto simp: bag_ok_def)
    ultimately show "c \<in> {c. 0 < bag_multiplicity bag (k, c)}" by (simp add: bag_multiplicity_def)
  next
    fix c assume "c \<in> {c. 0 < bag_multiplicity bag (k, c)}"
    then obtain row m where "map_of bag (k, c) = Some (row, m)"
      by (auto simp: bag_multiplicity_def split: option.splits)
    then have "((k, c), (row, m)) \<in> set bag" by (rule map_of_SomeD)
    then show "c \<in> fst ` set ?xs" by (force simp: image_iff)
  qed
  have canon: "c = canonical row" if "(c, row) \<in> set ?xs" for c row
    using that ok by (auto simp: bag_ok_def)
  show "map_option fst (representative bag k) =
     (if {c. 0 < bag_multiplicity bag (k, c)} = {} then None
      else Some (Min {c. 0 < bag_multiplicity bag (k, c)}))"
  proof (cases "sort_key fst ?xs")
    case Nil
    have "set ?xs = {}" using arg_cong[OF Nil, of set] by (simp only: set_sort list.set)
    then have "{c. 0 < bag_multiplicity bag (k, c)} = {}" unfolding keys[symmetric] by (simp only: image_empty)
    then show ?thesis using Nil by (simp add: representative_def)
  next
    case (Cons x ys)
    have set: "set ?xs = set (x # ys)" using arg_cong[OF Cons, of set] by (simp only: set_sort)
    have "sorted (map fst (x # ys))" unfolding Cons[symmetric] by (rule sorted_sort_key)
    then have "fst x = Min (fst ` set ?xs)" unfolding set by (intro Min_eqI[symmetric]) auto
    moreover have "fst ` set ?xs \<noteq> {}" unfolding set by simp
    ultimately have "fst x = Min {c. 0 < bag_multiplicity bag (k, c)}"
        "{c. 0 < bag_multiplicity bag (k, c)} \<noteq> {}"
      unfolding keys by simp_all
    then show ?thesis using Cons by (simp add: representative_def)
  qed
  assume "representative bag k = Some (c, row)"
  then obtain ys where ys: "sort_key fst ?xs = (c, row) # ys"
    by (auto simp: representative_def split: list.splits)
  have "(c, row) \<in> set (sort_key fst ?xs)" unfolding ys by simp
  then have "(c, row) \<in> set ?xs" by (simp only: set_sort)
  then show "c = canonical row" by (rule canon)
qed

section \<open>The invariant\<close>

definition shown_key :: "('k \<times> ('o, 'c) distinct_group) list \<Rightarrow> 'k \<Rightarrow> 'c option" where
  "shown_key groups k =
     (case map_of groups k of None \<Rightarrow> None | Some g \<Rightarrow> map_option fst (dg_output g))"

text \<open>The weight of a row over the payload written and the effects still queued.\<close>

definition emitted_weight :: "('i, 'k, 'o, 'c) distinct_env \<Rightarrow> ('k, 'o, 'c) distinct_store \<Rightarrow> 'c \<Rightarrow> int" where
  "emitted_weight env st c =
     weight_total (\<lambda>(s, n, r). de_canonical env (pw_value r)) (\<lambda>(s, n, r). pw_weight r) (ds_payload st) c
     + weight_total qe_key qe_weight (ds_queue st) c"

definition group_ok :: "('o \<Rightarrow> 'c) \<Rightarrow> ('o, 'c) distinct_group \<Rightarrow> bool" where
  "group_ok canonical g \<longleftrightarrow> 0 < dg_multiplicity g \<and>
     (case dg_output g of None \<Rightarrow> False | Some (c, row) \<Rightarrow> c = canonical row)"

definition distinct_reflects ::
    "('i, 'k, 'o, 'c :: linorder) distinct_env \<Rightarrow> 'i payload_row list \<Rightarrow> ('k, 'o, 'c) distinct_store \<Rightarrow> bool"
where
  "distinct_reflects env rows st \<longleftrightarrow>
     distinct (map fst (ds_groups st)) \<and> bag_ok (de_canonical env) (ds_bag st) \<and> ds_touched st = []
     \<and> (\<forall>k g. map_of (ds_groups st) k = Some g \<longrightarrow> group_ok (de_canonical env) g)
     \<and> (\<forall>k. group_multiplicity (ds_groups st) k = key_total env rows k)
     \<and> (\<forall>p. bag_multiplicity (ds_bag st) p = physical_total env rows p)
     \<and> (\<forall>k. shown_key (ds_groups st) k = distinct_view env rows k)
     \<and> (\<forall>e \<in> set (ds_queue st). qe_key e = de_canonical env (qe_row e))
     \<and> (\<forall>c. emitted_weight env st c = visible_count (ds_groups st) c)"

lemma reflects_bag: "distinct_reflects env rows st \<Longrightarrow> bag_multiplicity (ds_bag st) p = physical_total env rows p"
  unfolding distinct_reflects_def by blast

definition empty_store :: "('k, 'o, 'c) distinct_store" where
  "empty_store = \<lparr>ds_groups = [], ds_bag = [], ds_queue = [], ds_touched = [], ds_payload = []\<rparr>"

lemma distinct_reflects_empty: "distinct_reflects env [] empty_store"
  by (simp add: distinct_reflects_def empty_store_def bag_ok_def group_multiplicity_def key_total_def
      bag_multiplicity_def physical_total_def shown_key_def distinct_view_def emitted_weight_def
      visible_count_def)

text \<open>Splitting a page off a queue keeps every weight.\<close>

lemma page_split_weight:
  "page_split first n limit bytes running xs = (sel, left) \<Longrightarrow>
     weight_total key weight xs p = weight_total key weight sel p + weight_total key weight left p
     \<and> set xs = set sel \<union> set left"
proof (induction xs arbitrary: first n running sel left)
  case (Cons x xs)
  show ?case
  proof (cases "n = 0")
    case False
    obtain s l where page: "page_split False (n - 1) limit bytes (running + bytes x) xs = (s, l)"
      by (cases "page_split False (n - 1) limit bytes (running + bytes x) xs")
    note ih = Cons.IH[OF page]
    show ?thesis
    proof (cases "first \<or> running + bytes x \<le> limit")
      case True
      then have "sel = x # s" "left = l" using Cons.prems False page by (simp_all add: Let_def)
      then show ?thesis using ih by (simp add: weight_total_Cons)
    next
      case later: False
      then have "sel = s" "left = x # l" using Cons.prems False page by (simp_all add: Let_def)
      then show ?thesis using ih by (simp add: weight_total_Cons)
    qed
  qed (use Cons.prems in simp)
qed simp

section \<open>The reconciliation\<close>

lemma desired_rows_keys:
  "set (map dr_key (concat (map (desired_row_of touched bag) groups))) \<subseteq> fst ` set groups"
  by (auto simp: desired_row_of_def image_iff split: option.splits) (metis fst_conv)

lemma desired_rows_distinct:
  "distinct (map fst groups) \<Longrightarrow>
     distinct (map dr_key (concat (map (desired_row_of touched bag) groups)))"
proof (induction groups)
  case (Cons e groups)
  have "fst e \<notin> set (map dr_key (concat (map (desired_row_of touched bag) groups)))"
    using desired_rows_keys[of touched bag groups] Cons.prems by auto
  then show ?case using Cons by (auto simp: desired_row_of_def split: option.splits)
qed simp

lemma desired_rows_iff:
  assumes "distinct (map fst (ds_groups st))"
  shows "d \<in> set (desired_rows st) \<longleftrightarrow>
     (\<exists>g net. map_of (ds_groups st) (dr_key d) = Some g \<and> map_of (ds_touched st) (dr_key d) = Some net \<and>
        d = \<lparr>dr_key = dr_key d, dr_old_output = dg_output g, dr_old_multiplicity = dg_multiplicity g,
             dr_new_multiplicity = dg_multiplicity g + net,
             dr_output = representative (ds_bag st) (dr_key d)\<rparr>)" (is "_ = ?R")
proof
  assume "d \<in> set (desired_rows st)"
  then obtain e where e: "e \<in> set (ds_groups st)" "d \<in> set (desired_row_of (ds_touched st) (ds_bag st) e)"
    by (auto simp: desired_rows_def)
  have "map_of (ds_groups st) (fst e) = Some (snd e)" using e(1) assms by (simp add: map_of_is_SomeI)
  then show ?R using e(2) by (auto simp: desired_row_of_def split: option.splits)
next
  assume ?R
  then obtain g net where g: "map_of (ds_groups st) (dr_key d) = Some g" "map_of (ds_touched st) (dr_key d) = Some net"
    and d: "d = \<lparr>dr_key = dr_key d, dr_old_output = dg_output g, dr_old_multiplicity = dg_multiplicity g,
             dr_new_multiplicity = dg_multiplicity g + net,
             dr_output = representative (ds_bag st) (dr_key d)\<rparr>" by blast
  have "d \<in> set (desired_row_of (ds_touched st) (ds_bag st) (dr_key d, g))"
    using g(2) d by (simp add: desired_row_of_def)
  then show "d \<in> set (desired_rows st)" using map_of_SomeD[OF g(1)] by (auto simp: desired_rows_def)
qed

lemma desired_effects_total:
  "weight_total fst (fst \<circ> snd) (desired_effects d) c =
     visible (Some \<lparr>dg_multiplicity = 0, dg_output = dr_output d\<rparr>) c
     - visible (Some \<lparr>dg_multiplicity = 0, dg_output = dr_old_output d\<rparr>) c"
  by (auto simp: desired_effects_def weight_total_def weights_at_def visible_def leg_differs_def
      split: option.splits)

lemma weight_total_map:
  "weight_total key weight (map f xs) p = weight_total (key \<circ> f) (weight \<circ> f) xs p"
  by (simp add: weight_total_def weights_at_def filter_map o_def)

lemma weight_total_concat:
  "weight_total key weight (concat (map f xs)) p = (\<Sum>x\<leftarrow>xs. weight_total key weight (f x) p)"
  by (induction xs) (simp_all add: weight_total_append)

lemma visible_output: "visible (Some g) c = visible (Some \<lparr>dg_multiplicity = 0, dg_output = dg_output g\<rparr>) c"
  by (simp add: visible_def)

text \<open>What the reconciliation of a touched page leaves.\<close>

lemma reconcile_ok:
  assumes run: "reconcile_representatives env b lsn st = Inr (r, st')"
    and dist: "distinct (map fst (ds_groups st))" and bag: "bag_ok (de_canonical env) (ds_bag st)"
    and dom: "fst ` set (ds_touched st) \<subseteq> fst ` set (ds_groups st)" "distinct (map fst (ds_touched st))"
    and old: "\<forall>k g c row. map_of (ds_groups st) k = Some g \<longrightarrow> dg_output g = Some (c, row)
        \<longrightarrow> c = de_canonical env row"
  defines "new \<equiv> \<lambda>k. group_multiplicity (ds_groups st) k + (case map_of (ds_touched st) k of None \<Rightarrow> 0 | Some n \<Rightarrow> n)"
  shows "st' = st\<lparr>ds_groups := ds_groups st', ds_queue := ds_queue st', ds_touched := []\<rparr>"
    and "distinct (map fst (ds_groups st'))"
    and "\<And>k. k \<notin> fst ` set (ds_touched st) \<Longrightarrow> map_of (ds_groups st') k = map_of (ds_groups st) k"
    and "\<And>k. k \<in> fst ` set (ds_touched st) \<Longrightarrow> map_of (ds_groups st') k =
       (if new k = 0 then None
        else Some \<lparr>dg_multiplicity = new k, dg_output = representative (ds_bag st) k\<rparr>)"
    and "\<And>k. k \<in> fst ` set (ds_touched st) \<Longrightarrow> 0 \<le> new k \<and> (0 < new k) = (representative (ds_bag st) k \<noteq> None)"
    and "\<And>c. weight_total qe_key qe_weight (ds_queue st') c - visible_count (ds_groups st') c
       = weight_total qe_key qe_weight (ds_queue st) c - visible_count (ds_groups st) c"
    and "\<And>e. e \<in> set (ds_queue st') \<Longrightarrow> e \<in> set (ds_queue st) \<or> qe_key e = de_canonical env (qe_row e)"
proof -
  define D where "D = desired_rows st"
  define Q where "Q = map (\<lambda>(c, w, row). \<lparr>qe_key = c, qe_weight = w, qe_row = row,
     qe_bytes = effect_row_bytes (de_output_octets env row), qe_lsn = lsn\<rparr>) (concat (map desired_effects D))"
  have st': "st' = st\<lparr>ds_groups := write_desired D (ds_groups st), ds_queue := ds_queue st @ Q, ds_touched := []\<rparr>"
    and sound: "\<And>d. d \<in> set D \<Longrightarrow> \<not> desired_corrupt (de_canonical env) d"
    using run by (auto simp: reconcile_representatives_def Let_def D_def Q_def list_ex_iff split: if_splits)
  show "st' = st\<lparr>ds_groups := ds_groups st', ds_queue := ds_queue st', ds_touched := []\<rparr>"
    by (simp add: st')
  show "distinct (map fst (ds_groups st'))" using write_desired_distinct[OF dist] by (simp add: st')
  have keys: "set (map dr_key D) = fst ` set (ds_touched st)"
  proof
    show "set (map dr_key D) \<subseteq> fst ` set (ds_touched st)"
    proof
      fix k assume "k \<in> set (map dr_key D)"
      then have "map_of (ds_touched st) k \<noteq> None" unfolding D_def by (auto simp: desired_rows_iff[OF dist])
      then show "k \<in> fst ` set (ds_touched st)" by (simp add: map_of_eq_None_iff)
    qed
    show "fst ` set (ds_touched st) \<subseteq> set (map dr_key D)"
    proof
      fix k assume k: "k \<in> fst ` set (ds_touched st)"
      then obtain net g where g: "map_of (ds_touched st) k = Some net" "map_of (ds_groups st) k = Some g"
        using dom(1) by (metis (no_types, opaque_lifting) map_of_eq_None_iff option.exhaust subsetD)
      let ?d = "\<lparr>dr_key = k, dr_old_output = dg_output g, dr_old_multiplicity = dg_multiplicity g,
             dr_new_multiplicity = dg_multiplicity g + net, dr_output = representative (ds_bag st) k\<rparr>"
      have "?d \<in> set D" using g by (simp add: D_def desired_rows_iff[OF dist])
      then have "dr_key ?d \<in> dr_key ` set D" by (rule imageI)
      then show "k \<in> set (map dr_key D)" by simp
    qed
  qed
  have Dd: "distinct (map dr_key D)" unfolding D_def desired_rows_def by (rule desired_rows_distinct[OF dist])
  have row: "dr_new_multiplicity d = new (dr_key d) \<and> dr_output d = representative (ds_bag st) (dr_key d)
      \<and> (\<exists>g. map_of (ds_groups st) (dr_key d) = Some g \<and> dr_old_output d = dg_output g)" if dD: "d \<in> set D" for d
  proof -
    obtain g net where g: "map_of (ds_groups st) (dr_key d) = Some g" "map_of (ds_touched st) (dr_key d) = Some net"
      and d: "d = \<lparr>dr_key = dr_key d, dr_old_output = dg_output g, dr_old_multiplicity = dg_multiplicity g,
             dr_new_multiplicity = dg_multiplicity g + net, dr_output = representative (ds_bag st) (dr_key d)\<rparr>"
      using iffD1[OF desired_rows_iff[OF dist] dD[unfolded D_def]] by blast
    have "dr_new_multiplicity d = dg_multiplicity g + net" "dr_output d = representative (ds_bag st) (dr_key d)"
        "dr_old_output d = dg_output g"
      by (subst d, simp)+
    then show ?thesis using g by (simp add: new_def group_multiplicity_def)
  qed
  have sound': "0 \<le> dr_new_multiplicity d \<and> (0 < dr_new_multiplicity d) = (dr_output d \<noteq> None)"
    if "d \<in> set D" for d
    using sound[OF that] by (simp add: desired_corrupt_def)
  show "map_of (ds_groups st') k = map_of (ds_groups st) k" if "k \<notin> fst ` set (ds_touched st)" for k
    using that keys by (simp add: st' write_desired_other)
  have at: "\<exists>d \<in> set D. dr_key d = k" if "k \<in> fst ` set (ds_touched st)" for k
  proof -
    have "k \<in> dr_key ` set D" using that keys by simp
    then show ?thesis by blast
  qed
  show "map_of (ds_groups st') k =
       (if new k = 0 then None
        else Some \<lparr>dg_multiplicity = new k, dg_output = representative (ds_bag st) k\<rparr>)"
    if k: "k \<in> fst ` set (ds_touched st)" for k
  proof -
    obtain d where d: "d \<in> set D" "dr_key d = k" using at[OF k] by blast
    show ?thesis using write_desired_at[OF Dd d(1)] sound'[OF d(1)] row[OF d(1)] d(2) by (simp add: st')
  qed
  show "0 \<le> new k \<and> (0 < new k) = (representative (ds_bag st) k \<noteq> None)"
    if k: "k \<in> fst ` set (ds_touched st)" for k
  proof -
    obtain d where d: "d \<in> set D" "dr_key d = k" using at[OF k] by blast
    show ?thesis using sound'[OF d(1)] row[OF d(1)] d(2) by simp
  qed
  show "weight_total qe_key qe_weight (ds_queue st') c - visible_count (ds_groups st') c
       = weight_total qe_key qe_weight (ds_queue st) c - visible_count (ds_groups st) c" for c
  proof -
    have "weight_total qe_key qe_weight Q c = weight_total fst (fst \<circ> snd) (concat (map desired_effects D)) c"
      unfolding Q_def weight_total_map by (simp add: o_def case_prod_beta)
    also have "\<dots> = (\<Sum>d\<leftarrow>D. visible (Some \<lparr>dg_multiplicity = 0, dg_output = dr_output d\<rparr>) c
         - visible (map_of (ds_groups st) (dr_key d)) c)"
    proof -
      have "weight_total fst (fst \<circ> snd) (desired_effects d) c =
         visible (Some \<lparr>dg_multiplicity = 0, dg_output = dr_output d\<rparr>) c
         - visible (map_of (ds_groups st) (dr_key d)) c" if "d \<in> set D" for d
        using row[OF that] desired_effects_total[of d c] visible_output by metis
      then show ?thesis by (simp add: weight_total_concat cong: map_cong)
    qed
    finally have Q: "weight_total qe_key qe_weight Q c = \<dots>" .
    have "0 \<le> dr_new_multiplicity d \<and> (dr_new_multiplicity d = 0 \<longrightarrow> dr_output d = None)"
      if "d \<in> set D" for d using sound'[OF that] by (cases "dr_output d") auto
    from visible_write_desired[OF Dd dist this, of c]
    have "weight_total qe_key qe_weight Q c = visible_count (ds_groups st') c - visible_count (ds_groups st) c"
      using Q by (simp add: st')
    then show ?thesis by (simp add: st' weight_total_append)
  qed
  show "e \<in> set (ds_queue st) \<or> qe_key e = de_canonical env (qe_row e)" if "e \<in> set (ds_queue st')" for e
  proof -
    have "qe_key e = de_canonical env (qe_row e)" if "e \<in> set Q"
    proof -
      obtain d c w rw where d: "d \<in> set D" "(c, w, rw) \<in> set (desired_effects d)" "qe_key e = c" "qe_row e = rw"
        using \<open>e \<in> set Q\<close> by (auto simp: Q_def)
      then have "dr_old_output d = Some (c, rw) \<or> dr_output d = Some (c, rw)"
        by (auto simp: desired_effects_def split: option.splits if_splits)
      then show ?thesis
        using row[OF d(1)] old sound[OF d(1)] d(3,4) by (auto simp: desired_corrupt_def)
    qed
    then show ?thesis using that by (auto simp: st')
  qed
qed

section \<open>The Apply primitive\<close>

lemma collapsed_keys_set: "set (collapsed_keys env rows) = input_key env ` set rows"
    and collapsed_keys_distinct: "distinct (collapsed_keys env rows)"
  by (simp_all add: collapsed_keys_def)

lemma physical_total_absent: "p \<notin> physical_key env ` set rows \<Longrightarrow> physical_total env rows p = 0"
  unfolding physical_total_def by (rule weight_total_absent)

lemma key_total_absent: "k \<notin> input_key env ` set rows \<Longrightarrow> key_total env rows k = 0"
  unfolding key_total_def by (rule weight_total_absent)

lemma apply_statement_ok:
  assumes run: "apply_statement env payload first max_rows max_bytes st = Inr (s, st1)"
    and inv: "distinct_reflects env rows st"
  defines "incoming \<equiv> incoming_page env payload first max_rows max_bytes"
  shows "st1 = st\<lparr>ds_groups := resolve_groups (ds_groups st) (collapsed_keys env incoming),
             ds_bag := ds_bag st1,
             ds_touched := map (\<lambda>k. (k, key_total env incoming k)) (collapsed_keys env incoming)\<rparr>"
    and "bag_ok (de_canonical env) (ds_bag st1)"
    and "bag_multiplicity (ds_bag st1) p = physical_total env (rows @ incoming) p"
    and "as_input_rows s = length incoming" and "incoming \<noteq> []"
    and "as_next_row s = Max (set (map pw_ordinal incoming)) + 1"
proof -
  define pairs where "pairs = remdups (map (physical_key env) incoming)"
  obtain n bag where phys: "apply_physical env incoming pairs (ds_bag st) = (n, bag)" by (cases "apply_physical env incoming pairs (ds_bag st)")
  have nonneg: "\<And>p. p \<in> set pairs \<Longrightarrow>
        \<not> goes_negative (bag_multiplicity (ds_bag st) p) (weights_at (physical_key env) pw_weight incoming p)"
    and st1: "st1 = st\<lparr>ds_groups := resolve_groups (ds_groups st) (collapsed_keys env incoming),
             ds_bag := bag, ds_touched := map (\<lambda>k. (k, key_total env incoming k)) (collapsed_keys env incoming)\<rparr>"
    and s: "as_input_rows s = length incoming" "incoming \<noteq> []"
      "as_next_row s = Max (set (map pw_ordinal incoming)) + 1"
    using run phys
    unfolding apply_statement_def Let_def incoming_def[symmetric] pairs_def[symmetric] key_total_def
      weight_total_def
    by (auto simp: res_simps split: if_splits)
  have "0 \<le> bag_multiplicity (ds_bag st) p + physical_total env incoming p" if p: "p \<in> set pairs" for p
  proof -
    have "weights_at (physical_key env) pw_weight incoming p \<noteq> []"
      using p by (intro weights_at_nonempty) (simp add: pairs_def)
    then show ?thesis using not_negative_net nonneg[OF p] by (simp add: physical_total_def weight_total_def)
  qed
  then have bag: "bag_ok (de_canonical env) bag \<and> (\<forall>p. bag_multiplicity bag p
      = bag_multiplicity (ds_bag st) p + (if p \<in> set pairs then physical_total env incoming p else 0))"
    using inv by (intro apply_physical_ok[OF phys]) (auto simp: pairs_def distinct_reflects_def)
  have "(if p \<in> set pairs then physical_total env incoming p else 0) = physical_total env incoming p" for p
    using physical_total_absent[of p env incoming] by (simp add: pairs_def)
  then have bag_p: "bag_multiplicity bag p = bag_multiplicity (ds_bag st) p + physical_total env incoming p"
    using spec[OF conjunct2[OF bag], of p] by (simp only:)
  have bag_of: "ds_bag st1 = bag" by (simp add: st1)
  show "bag_ok (de_canonical env) (ds_bag st1)" unfolding bag_of by (rule conjunct1[OF bag])
  show "bag_multiplicity (ds_bag st1) p = physical_total env (rows @ incoming) p"
    unfolding bag_of bag_p reflects_bag[OF inv] by (simp add: physical_total_def weight_total_append)
  show "st1 = st\<lparr>ds_groups := resolve_groups (ds_groups st) (collapsed_keys env incoming),
             ds_bag := ds_bag st1,
             ds_touched := map (\<lambda>k. (k, key_total env incoming k)) (collapsed_keys env incoming)\<rparr>"
    by (simp add: st1)
  show "as_input_rows s = length incoming" "incoming \<noteq> []"
      "as_next_row s = Max (set (map pw_ordinal incoming)) + 1"
    by (rule s)+
qed

text \<open>The view of a key from the totals of its rows.\<close>

lemma distinct_view_totals:
  assumes "\<And>c. bag_multiplicity bag (k, c) = physical_total env rows (k, c)"
    "bag_ok canonical bag" "(0 < key_total env rows k) = (representative bag k \<noteq> None)"
  shows "distinct_view env rows k = map_option fst (representative bag k)"
  using assms(3) representative_key(1)[OF assms(2), of k]
  by (auto simp: distinct_view_def assms(1) split: if_splits)

theorem run_prefix_reflects:
  assumes run: "run_prefix env b ch first st = Inr (x, st')"
    and inv: "distinct_reflects env rows st"
  defines "incoming \<equiv> incoming_page env (de_input env (cm_stream_id ch) (cm_sequence ch)) first
      (max_input_rows b) (int (max_input_bytes b))"
  shows "distinct_reflects env (rows @ incoming) st'"
    and "input_rows (xf_usage x) = length incoming" and "incoming \<noteq> []"
    and "xf_next_row x = Max (set (map pw_ordinal incoming)) + 1"
    and "ds_payload st' = ds_payload st"
proof -
  obtain s st1 r where ap: "apply_statement env (de_input env (cm_stream_id ch) (cm_sequence ch)) first
        (max_input_rows b) (int (max_input_bytes b)) st = Inr (s, st1)"
      and rec: "reconcile_representatives env b (cm_lsn ch) st1 = Inr (r, st')"
      and x: "input_rows (xf_usage x) = as_input_rows s" "xf_next_row x = as_next_row s"
    using run by (auto simp: run_prefix_def res_simps split: if_splits)
  note applied = apply_statement_ok[OF ap inv, folded incoming_def]
  define keys where "keys = collapsed_keys env incoming"
  have keys: "set keys = input_key env ` set incoming" "distinct keys"
    by (simp_all add: keys_def collapsed_keys_set collapsed_keys_distinct)
  have old: "distinct (map fst (ds_groups st))" "\<And>k g. map_of (ds_groups st) k = Some g \<Longrightarrow> group_ok (de_canonical env) g"
      "\<And>k. group_multiplicity (ds_groups st) k = key_total env rows k"
      "\<And>k. shown_key (ds_groups st) k = distinct_view env rows k"
      "\<And>e. e \<in> set (ds_queue st) \<Longrightarrow> qe_key e = de_canonical env (qe_row e)"
      "\<And>c. emitted_weight env st c = visible_count (ds_groups st) c"
    using inv by (simp_all add: distinct_reflects_def)
  have st1: "ds_groups st1 = resolve_groups (ds_groups st) keys" "ds_queue st1 = ds_queue st"
      "ds_touched st1 = map (\<lambda>k. (k, key_total env incoming k)) keys" "ds_payload st1 = ds_payload st"
    by (subst applied(1), simp add: keys_def)+
  have touched: "map_of (ds_touched st1) k = (if k \<in> set keys then Some (key_total env incoming k) else None)"
      "fst ` set (ds_touched st1) = set keys" for k
    by (simp_all add: st1 map_of_map_restrict image_image)
  have dom: "fst ` set (ds_touched st1) \<subseteq> fst ` set (ds_groups st1)"
  proof
    fix k assume "k \<in> fst ` set (ds_touched st1)"
    then have "map_of (ds_groups st1) k \<noteq> None" by (simp add: st1 resolve_groups_map_of image_image)
    then show "k \<in> fst ` set (ds_groups st1)" by (simp add: map_of_eq_None_iff)
  qed
  have canonical: "\<forall>k g c row. map_of (ds_groups st1) k = Some g \<longrightarrow> dg_output g = Some (c, row)
        \<longrightarrow> c = de_canonical env row"
  proof (intro allI impI)
    fix k g c row assume g: "map_of (ds_groups st1) k = Some g" "dg_output g = Some (c, row)"
    then have "map_of (ds_groups st) k = Some g" by (auto simp: st1 resolve_groups_map_of split: if_splits)
    from old(2)[OF this] show "c = de_canonical env row" using g(2) by (simp add: group_ok_def)
  qed
  have d1: "distinct (map fst (ds_groups st1))" using resolve_groups_distinct[OF old(1)] by (simp add: st1)
  have dt: "distinct (map fst (ds_touched st1))" using keys(2) by (simp add: st1 o_def)
  note rec_ok = reconcile_ok[OF rec d1 applied(2) dom dt canonical, unfolded touched]
  have total: "key_total env (rows @ incoming) k = key_total env rows k + key_total env incoming k" for k
    by (simp add: key_total_def weight_total_append)
  have new: "group_multiplicity (ds_groups st1) k
      + (case if k \<in> set keys then Some (key_total env incoming k) else None of None \<Rightarrow> 0 | Some n \<Rightarrow> n)
      = key_total env (rows @ incoming) k" for k
    using key_total_absent[of k env incoming] old(3)[of k] keys by (auto simp: total st1)
  have at: "map_of (ds_groups st') k = (if key_total env (rows @ incoming) k = 0 then None
        else Some \<lparr>dg_multiplicity = key_total env (rows @ incoming) k, dg_output = representative (ds_bag st1) k\<rparr>)"
      "0 \<le> key_total env (rows @ incoming) k"
      "(0 < key_total env (rows @ incoming) k) = (representative (ds_bag st1) k \<noteq> None)"
    if "k \<in> set keys" for k
    using rec_ok(4,5)[OF that] unfolding new by auto
  have other: "map_of (ds_groups st') k = map_of (ds_groups st) k" if "k \<notin> set keys" for k
    using rec_ok(3)[OF that] that by (auto simp: st1 resolve_groups_map_of split: if_splits)
  have bag: "ds_bag st' = ds_bag st1" "ds_touched st' = []" "ds_payload st' = ds_payload st1"
    by (subst rec_ok(1), simp)+
  have same: "distinct_view env (rows @ incoming) k = distinct_view env rows k" if "k \<notin> set keys" for k
  proof -
    have "physical_total env incoming (k, c) = 0" for c
      using that by (intro physical_total_absent) (auto simp: keys physical_key_def)
    then show ?thesis
      using key_total_absent[of k env incoming] that keys
      by (simp add: distinct_view_def total) (simp add: physical_total_def weight_total_append)
  qed
  show "distinct_reflects env (rows @ incoming) st'"
    unfolding distinct_reflects_def
  proof (intro conjI allI impI ballI)
    show "distinct (map fst (ds_groups st'))" by (rule rec_ok(2))
    show "bag_ok (de_canonical env) (ds_bag st')" unfolding bag by (rule applied(2))
    show "ds_touched st' = []" by (rule bag)
    fix k
    show "group_ok (de_canonical env) g" if g: "map_of (ds_groups st') k = Some g" for g
    proof (cases "k \<in> set keys")
      case True
      then have "0 < key_total env (rows @ incoming) k" "g = \<lparr>dg_multiplicity = key_total env (rows @ incoming) k,
          dg_output = representative (ds_bag st1) k\<rparr>"
        using at[OF True] g by (auto split: if_splits)
      then show ?thesis
        using at(3)[OF True] representative_key(2)[OF applied(2), of k] by (auto simp: group_ok_def)
    next
      case False
      then show ?thesis using other old(2) g by simp
    qed
    show "group_multiplicity (ds_groups st') k = key_total env (rows @ incoming) k"
    proof (cases "k \<in> set keys")
      case True
      then show ?thesis using at(1)[OF True] by (simp add: group_multiplicity_def)
    next
      case False
      then show ?thesis using other old(3)[of k] key_total_absent[of k env incoming] keys
        by (simp add: group_multiplicity_def total)
    qed
    show "shown_key (ds_groups st') k = distinct_view env (rows @ incoming) k"
    proof (cases "k \<in> set keys")
      case True
      have "distinct_view env (rows @ incoming) k = map_option fst (representative (ds_bag st1) k)"
        by (rule distinct_view_totals[OF applied(3,2) at(3)[OF True]])
      then show ?thesis
        using at[OF True] by (cases "representative (ds_bag st1) k") (auto simp: shown_key_def)
    next
      case False
      then show ?thesis using other same old(4) by (simp add: shown_key_def)
    qed
  next
    fix p show "bag_multiplicity (ds_bag st') p = physical_total env (rows @ incoming) p"
      unfolding bag by (rule applied(3))
  next
    fix e assume "e \<in> set (ds_queue st')"
    then show "qe_key e = de_canonical env (qe_row e)" using rec_ok(7)[of e] old(5) st1(2) by auto
  next
    fix c
    show "emitted_weight env st' c = visible_count (ds_groups st') c"
      using rec_ok(6)[of c] old(6)[of c] by (simp add: emitted_weight_def bag st1)
  qed
  show "input_rows (xf_usage x) = length incoming" "incoming \<noteq> []"
    "xf_next_row x = Max (set (map pw_ordinal incoming)) + 1" "ds_payload st' = ds_payload st"
    using x applied(4-6) bag st1 by simp_all
qed

end
