(* ===== verification/Distinct_Step.thy ===== *)
theory Distinct_Step
  imports Distinct_Store
begin

text \<open>
  One durable Distinct step (\<open>src/execution/distinct/runtime.rs\<close>, function \<open>step\<close>) over the
  context, the shared database and the typed state of the stage, and its continuation row.
\<close>

section \<open>The continuation row\<close>

record stored_continuation =
  dsc_value :: distinct_continuation
  dsc_persisted :: bool

record distinct_fields =
  dfl_phase :: int
  dfl_stream_id :: int
  dfl_chunk_seq :: int
  dfl_row_ordinal :: int

definition distinct_decode :: "int \<Rightarrow> int \<Rightarrow> distinct_fields \<Rightarrow> distinct_continuation result" where
  "distinct_decode stream seq f =
     bind_res
       (if dfl_phase f = 1 then Inr DApply else if dfl_phase f = 2 then Inr DDrain
        else Inl ''Distinct continuation has an invalid phase'') (\<lambda>phase.
     bind_res (input_position_new (dfl_stream_id f) (dfl_chunk_seq f) (dfl_row_ordinal f)) (\<lambda>p.
     if ip_stream_id p \<noteq> stream \<or> ip_chunk_seq p \<noteq> seq
     then Inl ''Distinct continuation is not at its input cursor''
     else Inr \<lparr>dc_input = p, dc_phase = phase\<rparr>))"

fun distinct_phase_code :: "distinct_phase \<Rightarrow> int result" where
  "distinct_phase_code DApply = Inr 1"
| "distinct_phase_code DDrain = Inr 2"
| "distinct_phase_code DFrontier = Inl ''Distinct frontier cannot be persisted''"

definition distinct_encode :: "distinct_continuation \<Rightarrow> distinct_fields result" where
  "distinct_encode c =
     bind_res (distinct_phase_code (dc_phase c)) (\<lambda>phase.
     Inr \<lparr>dfl_phase = phase, dfl_stream_id = ip_stream_id (dc_input c),
          dfl_chunk_seq = ip_chunk_seq (dc_input c), dfl_row_ordinal = ip_row_ordinal (dc_input c)\<rparr>)"

definition distinct_load ::
    "distinct_fields step_db \<Rightarrow> int \<Rightarrow> int \<Rightarrow> stored_continuation result" where
  "distinct_load db stream seq =
     bind_res (lock_one db ''Distinct'' (distinct_decode stream seq)) (\<lambda>value.
     case value of
       Some v \<Rightarrow> Inr \<lparr>dsc_value = v, dsc_persisted = True\<rparr>
     | None \<Rightarrow>
         bind_res (input_position_new stream seq 0) (\<lambda>p.
         Inr \<lparr>dsc_value = \<lparr>dc_input = p, dc_phase = DApply\<rparr>, dsc_persisted = False\<rparr>))"

text \<open>\<open>map(..).transpose()\<close>.\<close>

definition encode_optional ::
    "('c \<Rightarrow> 'f result) \<Rightarrow> 'c option \<Rightarrow> 'f option result" where
  "encode_optional encode x =
     (case x of None \<Rightarrow> Inr None | Some c \<Rightarrow> bind_res (encode c) (\<lambda>f. Inr (Some f)))"

definition distinct_replace ::
    "step_context \<Rightarrow> distinct_fields step_db \<Rightarrow> stored_continuation \<Rightarrow> distinct_continuation option
     \<Rightarrow> (step_context \<times> distinct_fields step_db) result" where
  "distinct_replace c db old nxt =
     bind_res (encode_optional distinct_encode
       (if dsc_persisted old then Some (dsc_value old) else None)) (\<lambda>old_fields.
     bind_res (encode_optional distinct_encode nxt) (\<lambda>next_fields.
     replace_cas c db old_fields next_fields ''Distinct''))"

section \<open>The step\<close>

definition measure_payload ::
    "('i, 'k, 'o, 'c) distinct_env \<Rightarrow> chunk_meta \<Rightarrow> payload_facts result" where
  "measure_payload env ch =
     measure_rows (de_input_octets env) (de_input env (cm_stream_id ch) (cm_sequence ch)) ch"

definition finish_input_position ::
    "step_context \<Rightarrow> distinct_fields step_db \<Rightarrow> input_state \<Rightarrow> chunk_meta \<Rightarrow> int
     \<Rightarrow> (distinct_continuation option \<times> step_context \<times> distinct_fields step_db) result" where
  "finish_input_position c db input ch next_row =
     (if i64_max < int (cm_rows ch) then Inl ''Distinct chunk rows exceed bigint''
      else if next_row < int (cm_rows ch)
      then bind_res (input_position_new (is_stream_id input) (cm_sequence ch) next_row) (\<lambda>p.
           Inr (Some \<lparr>dc_input = p, dc_phase = DApply\<rparr>, c, db))
      else if next_row \<noteq> int (cm_rows ch)
      then Inl ''Distinct prefix advanced beyond its input chunk''
      else
        bind_res (advance_input c db 0 (cm_sequence ch + 1) (is_consumed input)
          \<lparr>input_rows = cm_rows ch, input_bytes = cm_bytes ch, output_rows = 0, output_bytes = 0\<rparr>)
          (\<lambda>(c', db'). Inr (None, c', db')))"

type_synonym ('k, 'o, 'c) distinct_outcome =
  "(step_receipt \<times> step_context \<times> distinct_fields step_db \<times> ('k, 'o, 'c) distinct_store) result"

definition distinct_frontier ::
    "step_context \<Rightarrow> distinct_fields step_db \<Rightarrow> ('k, 'o, 'c) distinct_store
     \<Rightarrow> stored_continuation \<Rightarrow> chunk_meta \<Rightarrow> ('k, 'o, 'c) distinct_outcome" where
  "distinct_frontier c db st stored ch =
     (if ip_row_ordinal (dc_input (dsc_value stored)) \<noteq> 0
      then Inl ''Distinct frontier has a row continuation''
      else if ds_queue st \<noteq> [] then Inl ''Distinct Apply/frontier found undrained effects''
      else
        bind_res (append_frontier c db (cm_lsn ch)) (\<lambda>(out, c1, db1).
        bind_res (advance_input c1 db1 0 (cm_sequence ch + 1) (cm_lsn ch) usage_default)
          (\<lambda>(c2, db2).
        bind_res (distinct_replace c2 db2 stored None) (\<lambda>(c3, db3).
        let facts = \<lparr>pr_usage = usage_default, pr_state_rows = 0, pr_output = out\<rparr> in
        bind_res (distinct_apply (dsc_value stored) (DFrontierForwarded facts)
                    (sc_transition_budget c3)) (\<lambda>_.
        bind_res (transition_facts c3 PhFrontier facts) (\<lambda>(r, c4).
        Inr (r, c4, db3, st)))))))"

definition distinct_drain ::
    "('i, 'k, 'o, 'c) distinct_env \<Rightarrow> step_context \<Rightarrow> distinct_fields step_db
     \<Rightarrow> ('k, 'o, 'c) distinct_store \<Rightarrow> input_state \<Rightarrow> stored_continuation \<Rightarrow> chunk_meta
     \<Rightarrow> ('k, 'o, 'c) distinct_outcome" where
  "distinct_drain env c db st input stored ch =
     bind_res (drain_queue env c st) (\<lambda>(drained, c1, st1).
     bind_res
       (if 0 < df_remaining_effects drained then Inr (Some (dsc_value stored), c1, db)
        else finish_input_position c1 db input ch (ip_row_ordinal (dc_input (dsc_value stored))))
       (\<lambda>(nxt, c2, db2).
     let facts = df_facts drained in
     bind_res (distinct_apply (dsc_value stored)
       (PrefixDrained \<lparr>apx_facts = facts, apx_occupancy = \<lparr>oc_touched_keys = 0,
          oc_external_effects = output_rows (pr_usage facts)\<rparr>, apx_next = nxt\<rparr>)
       (sc_transition_budget c2)) (\<lambda>(continuation, _).
     bind_res (distinct_replace c2 db2 stored continuation) (\<lambda>(c3, db3).
     bind_res (transition_facts c3 PhDrain facts) (\<lambda>(r, c4).
     Inr (r, c4, db3, st1))))))"

definition distinct_admit ::
    "('i, 'k :: linorder, 'o, 'c :: linorder) distinct_env \<Rightarrow> step_context \<Rightarrow> distinct_fields step_db
     \<Rightarrow> ('k, 'o, 'c) distinct_store \<Rightarrow> input_state \<Rightarrow> stored_continuation \<Rightarrow> chunk_meta
     \<Rightarrow> ('k, 'o, 'c) distinct_outcome" where
  "distinct_admit env c db st input stored ch =
     (if ds_queue st \<noteq> [] then Inl ''Distinct Apply/frontier found undrained effects''
      else
        bind_res (run_prefix env (sc_transition_budget c) ch
                    (ip_row_ordinal (dc_input (dsc_value stored))) st) (\<lambda>(x, st1).
        bind_res
          (if 0 < xf_queued_effects x
           then bind_res (input_position_new (is_stream_id input) (cm_sequence ch) (xf_next_row x))
                  (\<lambda>p. Inr (Some \<lparr>dc_input = p, dc_phase = DDrain\<rparr>, c, db))
           else finish_input_position c db input ch (xf_next_row x)) (\<lambda>(nxt, c1, db1).
        let facts = \<lparr>pr_usage = xf_usage x, pr_state_rows = xf_state_rows x, pr_output = NoOutput\<rparr> in
        bind_res (distinct_apply (dsc_value stored)
          (PrefixApplied \<lparr>apx_facts = facts, apx_occupancy = \<lparr>oc_touched_keys = xf_touched_keys x,
             oc_external_effects = xf_queued_effects x\<rparr>, apx_next = nxt\<rparr>)
          (sc_transition_budget c1)) (\<lambda>(continuation, _).
        bind_res (distinct_replace c1 db1 stored continuation) (\<lambda>(c2, db2).
        bind_res (transition_facts c2 PhAdmit facts) (\<lambda>(r, c3).
        Inr (r, c3, db2, st1)))))))"

definition distinct_step ::
    "('i, 'k :: linorder, 'o, 'c :: linorder) distinct_env \<Rightarrow> step_context \<Rightarrow> distinct_fields step_db
     \<Rightarrow> ('k, 'o, 'c) distinct_store \<Rightarrow> ('k, 'o, 'c) distinct_outcome" where
  "distinct_step env c db st =
     (if length (sc_inputs c) \<noteq> 1 then Inl ''Distinct must have one operator input''
      else
        bind_res (context_input c 0) (\<lambda>input.
        if is_producer input \<noteq> Operator then Inl ''Distinct must have one operator input''
        else
          bind_res (distinct_load db (is_stream_id input) (is_next input)) (\<lambda>loaded.
          bind_res (bind_continuation_authority c (dsc_persisted loaded)) (\<lambda>c1.
          bind_res (next_chunk c1 db 0) (\<lambda>found.
          bind_res (ok_or ''runnable Distinct has no input chunk'' found) (\<lambda>ch.
          if dsc_persisted loaded \<and> (cm_kind ch \<noteq> Data \<or> dc_phase (dsc_value loaded) = DFrontier)
          then Inl ''Distinct continuation is not pinned to a data chunk''
          else
            let stored = (if dsc_persisted loaded then loaded
                  else loaded\<lparr>dsc_value := (dsc_value loaded)\<lparr>dc_phase :=
                        (case cm_kind ch of Data \<Rightarrow> DApply | Frontier \<Rightarrow> DFrontier)\<rparr>\<rparr>) in
            if ds_touched st \<noteq> [] then Inl ''Distinct found committed touched-key scratch state''
            else if dc_phase (dsc_value stored) = DFrontier
            then distinct_frontier c1 db st stored ch
            else
              bind_res
                (if dc_phase (dsc_value stored) = DApply
                    \<and> ip_row_ordinal (dc_input (dsc_value stored)) = 0
                 then bind_res (measure_payload env ch) (\<lambda>_. Inr ()) else Inr ()) (\<lambda>_.
              if dc_phase (dsc_value stored) = DDrain
              then distinct_drain env c1 db st input stored ch
              else distinct_admit env c1 db st input stored ch)))))))"

definition distinct_kernel ::
    "('i, 'k :: linorder, 'o, 'c :: linorder) distinct_env \<Rightarrow> ('k, 'o, 'c) distinct_store
     \<Rightarrow> distinct_fields kernel_step" where
  "distinct_kernel env st c db =
     bind_res (distinct_step env c db st) (\<lambda>(r, c', db', st'). Inr (r, c', db'))"

definition distinct_descriptor :: operator_descriptor where
  "distinct_descriptor = \<lparr>od_phases = [PhAdmit, PhDrain, PhFrontier], od_inputs = [OperatorInput],
                          od_output = EffectStreamOutput\<rparr>"

end
