(* ===== verification/Distinct_Guarantees.thy ===== *)
theory Distinct_Guarantees
  imports Distinct_Refinement Distinct_Step Continuation_Codec
begin

text \<open>
  What a Distinct stage guarantees: whatever steps commit, its state and the effects it has
  emitted or queued are those of the view of the input rows it has consumed.
\<close>

section \<open>The drain primitive\<close>

lemma drain_payload_weight:
  assumes "\<forall>e \<in> set selected. qe_key e = canonical (qe_row e)"
  shows "weight_total (\<lambda>(s, n, r). canonical (pw_value r)) (\<lambda>(s, n, r). pw_weight r)
       (drain_payload stream seq selected) c = weight_total qe_key qe_weight selected c"
proof -
  have "weight_total (\<lambda>(s, n, r). canonical (pw_value r)) (\<lambda>(s, n, r). pw_weight r)
       (drain_payload stream seq selected) c
      = weight_total (\<lambda>i. canonical (qe_row (selected ! i))) (\<lambda>i. qe_weight (selected ! i)) [0..<length selected] c"
    by (simp add: drain_payload_def weight_total_map o_def)
  also have "\<dots> = weight_total (\<lambda>e. canonical (qe_row e)) qe_weight (map ((!) selected) [0..<length selected]) c"
    by (simp add: weight_total_map o_def del: map_nth)
  also have "\<dots> = weight_total (\<lambda>e. canonical (qe_row e)) qe_weight selected c" by (simp add: map_nth)
  also have "\<dots> = weight_total qe_key qe_weight selected c"
    using assms by (simp add: weight_total_def weights_at_def cong: filter_cong)
  finally show ?thesis .
qed

lemma drain_queue_reflects:
  assumes run: "drain_queue env c st = Inr (d, c', st')" and inv: "distinct_reflects env rows st"
  shows "distinct_reflects env rows st'"
proof -
  obtain out where out: "context_output c = Inr out" using run by (auto simp: drain_queue_def res_simps)
  define n where "n = nat (min (int (max_output_rows (sc_transition_budget c))) (os_target_rows out))"
  define limit where "limit = min (int (max_output_bytes (sc_transition_budget c))) (os_target_bytes out)"
  obtain selected left where page: "page_split True n limit qe_bytes 0 (ds_queue st) = (selected, left)"
    by (cases "page_split True n limit qe_bytes 0 (ds_queue st)")
  have st': "st' = st\<lparr>ds_queue := left, ds_payload := ds_payload st
          @ drain_payload (os_stream_id out) (os_next out) selected\<rparr>"
    using run unfolding drain_queue_def out bind_res.simps Let_def n_def[symmetric] limit_def[symmetric]
      page prod.case
    by (simp add: res_simps split: if_splits)
  have canonical: "\<forall>e \<in> set (ds_queue st). qe_key e = de_canonical env (qe_row e)"
    using inv by (simp add: distinct_reflects_def)
  have parts: "set (ds_queue st) = set selected \<union> set left"
    by (rule conjunct2[OF page_split_weight[OF page, of qe_key qe_weight]])
  have "emitted_weight env st' x = emitted_weight env st x" for x
    using drain_payload_weight[of selected "de_canonical env"] canonical parts
      page_split_weight[OF page, of qe_key qe_weight x]
    by (simp add: emitted_weight_def st' weight_total_append)
  then show ?thesis
    using inv canonical parts by (simp add: distinct_reflects_def st')
qed

section \<open>A step\<close>

text \<open>The input rows that a step consumes: the page of an Apply, nothing in another phase.\<close>

definition distinct_consumes ::
    "('i, 'k, 'o, 'c) distinct_env \<Rightarrow> step_context \<Rightarrow> distinct_fields step_db \<Rightarrow> 'i payload_row list"
where
  "distinct_consumes env c db =
     (case bind_res (context_input c 0) (\<lambda>input.
           bind_res (distinct_load db (is_stream_id input) (is_next input)) (\<lambda>loaded.
           bind_res (next_chunk c db 0) (\<lambda>found. Inr (loaded, found)))) of
        Inr (loaded, Some ch) \<Rightarrow>
          if cm_kind ch = Data \<and> (\<not> dsc_persisted loaded \<or> dc_phase (dsc_value loaded) = DApply)
          then incoming_page env (de_input env (cm_stream_id ch) (cm_sequence ch))
                 (ip_row_ordinal (dc_input (dsc_value loaded)))
                 (max_input_rows (sc_transition_budget c))
                 (int (max_input_bytes (sc_transition_budget c)))
          else []
      | _ \<Rightarrow> [])"

lemma next_chunk_authority:
  "bind_continuation_authority c p = Inr c1 \<Longrightarrow>
     next_chunk c1 db n = next_chunk c db n \<and> sc_transition_budget c1 = sc_transition_budget c"
  by (auto simp: bind_continuation_authority_def next_chunk_def context_input_def
      split: if_splits option.splits)

lemma distinct_step_reflects:
  assumes run: "distinct_step env c db st = Inr (r, c', db', st')" and inv: "distinct_reflects env rows st"
  shows "distinct_reflects env (rows @ distinct_consumes env c db) st'"
proof -
  obtain input loaded c1 ch stored where input: "context_input c 0 = Inr input"
    and loaded: "distinct_load db (is_stream_id input) (is_next input) = Inr loaded"
    and auth: "bind_continuation_authority c (dsc_persisted loaded) = Inr c1"
    and chunk: "next_chunk c1 db 0 = Inr (Some ch)"
    and pinned: "\<not> (dsc_persisted loaded \<and> (cm_kind ch \<noteq> Data \<or> dc_phase (dsc_value loaded) = DFrontier))"
    and stored: "stored = (if dsc_persisted loaded then loaded
          else loaded\<lparr>dsc_value := (dsc_value loaded)\<lparr>dc_phase :=
                (case cm_kind ch of Data \<Rightarrow> DApply | Frontier \<Rightarrow> DFrontier)\<rparr>\<rparr>)"
    and rest: "(if dc_phase (dsc_value stored) = DFrontier then distinct_frontier c1 db st stored ch
            else
              bind_res
                (if dc_phase (dsc_value stored) = DApply
                    \<and> ip_row_ordinal (dc_input (dsc_value stored)) = 0
                 then bind_res (measure_payload env ch) (\<lambda>_. Inr ()) else Inr ()) (\<lambda>_.
              if dc_phase (dsc_value stored) = DDrain
              then distinct_drain env c1 db st input stored ch
              else distinct_admit env c1 db st input stored ch)) = Inr (r, c', db', st')"
    using run unfolding distinct_step_def Let_def
    by (auto simp: bind_res_Inr ok_or_Inr if_Inl_Inr)
  have same: "next_chunk c db 0 = Inr (Some ch)" "sc_transition_budget c1 = sc_transition_budget c"
    using next_chunk_authority[OF auth, of db 0] chunk by auto
  have row: "dc_input (dsc_value stored) = dc_input (dsc_value loaded)" by (simp add: stored)
  have consumes: "distinct_consumes env c db =
      (if cm_kind ch = Data \<and> (\<not> dsc_persisted loaded \<or> dc_phase (dsc_value loaded) = DApply)
          then incoming_page env (de_input env (cm_stream_id ch) (cm_sequence ch))
                 (ip_row_ordinal (dc_input (dsc_value loaded)))
                 (max_input_rows (sc_transition_budget c))
                 (int (max_input_bytes (sc_transition_budget c))) else [])"
    by (simp add: distinct_consumes_def input loaded same)
  show ?thesis
  proof (cases "dc_phase (dsc_value stored)")
    case DFrontier
    then have "distinct_consumes env c db = []"
      using pinned by (auto simp: consumes stored split: if_splits chunk_kind.splits)
    moreover have "st' = st"
      using rest DFrontier by (auto simp: distinct_frontier_def res_simps Let_def split: if_splits)
    ultimately show ?thesis using inv by simp
  next
    case DDrain
    then have "distinct_consumes env c db = []"
      by (auto simp: consumes stored split: if_splits chunk_kind.splits)
    moreover obtain d c2 where "drain_queue env c1 st = Inr (d, c2, st')"
      using rest DDrain by (auto simp: distinct_drain_def res_simps Let_def split: if_splits)
    ultimately show ?thesis using drain_queue_reflects inv by simp
  next
    case DApply
    then have consumed: "distinct_consumes env c db = incoming_page env
        (de_input env (cm_stream_id ch) (cm_sequence ch)) (ip_row_ordinal (dc_input (dsc_value stored)))
        (max_input_rows (sc_transition_budget c1)) (int (max_input_bytes (sc_transition_budget c1)))"
      using pinned by (auto simp: consumes row same stored split: if_splits chunk_kind.splits)
    obtain x where "run_prefix env (sc_transition_budget c1) ch
        (ip_row_ordinal (dc_input (dsc_value stored))) st = Inr (x, st')"
      using rest DApply by (auto simp: distinct_admit_def res_simps Let_def split: if_splits)
    from run_prefix_reflects(1)[OF this inv] show ?thesis unfolding consumed .
  qed
qed

section \<open>A run of steps\<close>

text \<open>
  Committed steps over the state of one stage, each with the context and the database that its
  transaction has; with the input rows they have consumed, in order.
\<close>

fun distinct_run ::
    "('i, 'k :: linorder, 'o, 'c :: linorder) distinct_env
     \<Rightarrow> (step_context \<times> distinct_fields step_db) list \<Rightarrow> ('k, 'o, 'c) distinct_store
     \<Rightarrow> ('i payload_row list \<times> ('k, 'o, 'c) distinct_store) result" where
  "distinct_run env [] st = Inr ([], st)"
| "distinct_run env ((c, db) # steps) st =
     bind_res (distinct_step env c db st) (\<lambda>(r, c', db', st').
     bind_res (distinct_run env steps st') (\<lambda>(rows, st'').
     Inr (distinct_consumes env c db @ rows, st'')))"

lemma distinct_run_reflects:
  "distinct_run env steps st = Inr (rows, st') \<Longrightarrow> distinct_reflects env before st \<Longrightarrow>
     distinct_reflects env (before @ rows) st'"
proof (induction steps arbitrary: st before rows)
  case (Cons s steps)
  obtain c db where s: "s = (c, db)" by (cases s)
  obtain r c' db' st1 rows1 where step: "distinct_step env c db st = Inr (r, c', db', st1)"
      "distinct_run env steps st1 = Inr (rows1, st')" "rows = distinct_consumes env c db @ rows1"
    using Cons.prems(1) by (auto simp: s res_simps)
  show ?case
    using Cons.IH[OF step(2) distinct_step_reflects[OF step(1) Cons.prems(2)]] step(3) by simp
qed simp

lemma visible_count_view:
  assumes "distinct_reflects env rows st"
  shows "visible_count (ds_groups st) c = int (card {k. distinct_view env rows k = Some c})"
proof -
  let ?groups = "ds_groups st"
  have keys: "distinct (map fst ?groups)" and view: "\<And>k. distinct_view env rows k = shown_key ?groups k"
    using assms by (simp_all add: distinct_reflects_def)
  have vis: "visible (map_of ?groups k) c = (if shown_key ?groups k = Some c then 1 else 0)" for k
    by (auto simp: visible_def shown_key_def split: option.splits)
  have sub: "{k. shown_key ?groups k = Some c} \<subseteq> fst ` set ?groups"
  proof
    fix k assume "k \<in> {k. shown_key ?groups k = Some c}"
    then have "map_of ?groups k \<noteq> None" by (auto simp: shown_key_def split: option.splits)
    then show "k \<in> fst ` set ?groups" by (simp add: map_of_eq_None_iff)
  qed
  have "visible_count ?groups c = (\<Sum>k \<in> fst ` set ?groups. if shown_key ?groups k = Some c then 1 else 0)"
    by (simp only: visible_sum[OF keys] vis)
  also have "\<dots> = (\<Sum>k \<in> {k. shown_key ?groups k = Some c}. 1)"
    using sub by (intro sum.mono_neutral_cong_right) auto
  finally show ?thesis by (simp add: view)
qed

section \<open>The continuation row\<close>

definition distinct_codable :: "int \<Rightarrow> int \<Rightarrow> distinct_continuation \<Rightarrow> bool" where
  "distinct_codable stream seq c \<longleftrightarrow> distinct_valid c \<and> dc_phase c \<noteq> DFrontier
     \<and> ip_stream_id (dc_input c) = stream \<and> ip_chunk_seq (dc_input c) = seq"

lemma distinct_decode_encode:
  assumes "distinct_codable stream seq c"
  shows "\<exists>f. distinct_encode c = Inr f \<and> distinct_decode stream seq f = Inr c"
  using assms
  by (cases c; cases "dc_input c"; cases "dc_phase c")
     (auto simp: distinct_codable_def distinct_valid_def distinct_encode_def distinct_decode_def
       input_position_new_def res_simps)

lemma distinct_encode_decode: "distinct_decode stream seq f = Inr c \<Longrightarrow> distinct_encode c = Inr f"
  by (cases f)
     (auto simp: distinct_encode_def distinct_decode_def input_position_new_def res_simps split: if_splits)

interpretation distinct_codec: continuation_codec
  "distinct_codable stream seq" "\<lambda>f. True" distinct_encode "distinct_decode stream seq" for stream seq
  by unfold_locales (auto simp: distinct_decode_encode intro: distinct_encode_decode)

section \<open>Properties\<close>

text \<open>
  C4: Distinct maintains its view: after any committed steps from the empty state, the effects it
  has written to its output payload and those still queued add up, for every row, to the number of
  keys whose row it is in the view of the input rows consumed: a key of positive total weight
  shows the least canonical row of positive weight.  Once the queue is drained the output payload
  alone is the view, and the multiplicity kept for a key is its total weight.
\<close>

theorem distinct_refines_view:
  assumes "distinct_run env steps empty_store = Inr (rows, st)"
  shows "emitted_weight env st c = int (card {k. distinct_view env rows k = Some c})
    \<and> (ds_queue st = [] \<longrightarrow>
         weight_total (\<lambda>(s, n, r). de_canonical env (pw_value r)) (\<lambda>(s, n, r). pw_weight r) (ds_payload st) c
           = int (card {k. distinct_view env rows k = Some c}))
    \<and> group_multiplicity (ds_groups st) k = key_total env rows k"
proof -
  have inv: "distinct_reflects env rows st"
    using distinct_run_reflects[OF assms distinct_reflects_empty] by simp
  have total: "emitted_weight env st c = int (card {k. distinct_view env rows k = Some c})"
    using inv visible_count_view[OF inv] by (simp add: distinct_reflects_def)
  moreover have "group_multiplicity (ds_groups st) k = key_total env rows k"
    using inv by (simp add: distinct_reflects_def)
  moreover have "ds_queue st = [] \<longrightarrow>
         weight_total (\<lambda>(s, n, r). de_canonical env (pw_value r)) (\<lambda>(s, n, r). pw_weight r) (ds_payload st) c
           = int (card {k. distinct_view env rows k = Some c})"
    unfolding total[symmetric] emitted_weight_def by auto
  ultimately show ?thesis by blast
qed

text \<open>A concrete run: one page of four rows over two keys, then the drain of its two effects.\<close>

definition dw_env :: "(int, int, int, int) distinct_env" where
  "dw_env = \<lparr>de_input = (\<lambda>s n.
       [\<lparr>pw_ordinal = 0, pw_weight = 1, pw_value = 11\<rparr>, \<lparr>pw_ordinal = 1, pw_weight = 1, pw_value = 12\<rparr>,
        \<lparr>pw_ordinal = 2, pw_weight = 1, pw_value = 25\<rparr>, \<lparr>pw_ordinal = 3, pw_weight = - 1, pw_value = 11\<rparr>]),
     de_key = (\<lambda>v. v div 10), de_output = (\<lambda>v. v), de_canonical = (\<lambda>v. v),
     de_input_octets = (\<lambda>v. 2), de_output_octets = (\<lambda>v. 2)\<rparr>"

definition dw_budget :: work_budget where
  "dw_budget = \<lparr>max_input_rows = 10, max_input_bytes = 1000,
                max_output_rows = 10, max_output_bytes = 1000\<rparr>"

definition dw_context :: "bool \<Rightarrow> step_context" where
  "dw_context resumed = \<lparr>sc_result_oid = 9, sc_stage_id = 2, sc_quantum_budget = dw_budget,
     sc_transition_budget = dw_budget, sc_expected_revision = 3, sc_had_continuation = resumed,
     sc_presence = None, sc_admission = \<lparr>ap_rows = 0, ap_bytes = 0\<rparr>,
     sc_continuation_changed = False, sc_input_advanced = False, sc_frontier_output = None,
     sc_state_rows = 0,
     sc_inputs = [\<lparr>is_port = 0, is_stream_id = 1, is_producer = Operator, is_source_oid = None,
       is_slot_generation = None, is_next = 1, is_available = 2, is_activation = 0,
       is_consumed = 0, is_source_frontier = None\<rparr>],
     sc_output = Some \<lparr>os_stream_id = 2, os_next = 1, os_target_rows = 10, os_target_bytes = 100,
       os_latest_data = None, os_published = None, os_pending = None\<rparr>\<rparr>"

definition dw_stream :: effect_stream where
  "dw_stream = \<lparr>es_producer = Operator, es_producer_result = 9, es_next = 2, es_first_retained = 1,
     es_latest_data = Some 5, es_published_frontier = None, es_buffered_chunks = 1,
     es_buffered_rows = 4, es_buffered_bytes = 40, es_target_rows = 10, es_target_bytes = 100,
     es_high_chunks = 3, es_high_rows = 1000, es_high_bytes = 1000, es_low_chunks = 1,
     es_low_rows = 10, es_low_bytes = 100, es_backpressured = False,
     es_chunks = [\<lparr>ck_seq = 1, ck_kind = Data, ck_rows = 4, ck_bytes = 40, ck_lsn = 5\<rparr>],
     es_consumers = [((9, 2, 0), \<lparr>cs_next = 1, cs_activation = 0, cs_frontier = 0\<rparr>)]\<rparr>"

definition dw_db :: "distinct_fields list \<Rightarrow> distinct_fields step_db" where
  "dw_db saved = \<lparr>db_streams = (\<lambda>i. if i = 1 then Some dw_stream else None), db_published = None,
     db_checkpoint = \<lparr>cp_revision = 3, cp_has_continuation = saved \<noteq> [], cp_admitted_rows = 0,
       cp_admitted_bytes = 0\<rparr>, db_continuation = saved\<rparr>"

definition dw_row :: distinct_fields where
  "dw_row = \<lparr>dfl_phase = 2, dfl_stream_id = 1, dfl_chunk_seq = 1, dfl_row_ordinal = 4\<rparr>"

lemmas dw_defs = dw_env_def dw_budget_def dw_context_def dw_stream_def dw_db_def dw_row_def

definition dw_rows :: "int payload_row list" where
  "dw_rows = de_input dw_env 1 1"

definition dw_queued :: "(int, int, int) distinct_store" where
  "dw_queued = \<lparr>ds_groups = [(1, \<lparr>dg_multiplicity = 1, dg_output = Some (12, 12)\<rparr>),
       (2, \<lparr>dg_multiplicity = 1, dg_output = Some (25, 25)\<rparr>)],
     ds_bag = [((1, 12), (12, 1)), ((2, 25), (25, 1))],
     ds_queue = [\<lparr>qe_key = 12, qe_weight = 1, qe_row = 12, qe_bytes = 10, qe_lsn = 5\<rparr>,
       \<lparr>qe_key = 25, qe_weight = 1, qe_row = 25, qe_bytes = 10, qe_lsn = 5\<rparr>],
     ds_touched = [], ds_payload = []\<rparr>"

lemma dw_incoming: "incoming_page dw_env (de_input dw_env 1 1) 0 10 1000 = dw_rows"
  by (simp add: incoming_page_def dw_rows_def dw_env_def effect_row_bytes_def)

lemma dw_keys: "collapsed_keys dw_env dw_rows = [1, 2]"
  by (simp add: collapsed_keys_def dw_rows_def dw_env_def input_key_def)

lemma dw_pairs: "remdups (map (physical_key dw_env) dw_rows) = [(1, 12), (2, 25), (1, 11)]"
  by (simp add: dw_rows_def dw_env_def input_key_def physical_key_def)

lemma dw_key_weights:
  "weights_at (input_key dw_env) pw_weight dw_rows 1 = [1, 1, - 1]"
  "weights_at (input_key dw_env) pw_weight dw_rows 2 = [1]"
  by (simp_all add: weights_at_def dw_rows_def dw_env_def input_key_def)

lemma dw_physical_weights:
  "weights_at (physical_key dw_env) pw_weight dw_rows (1, 11) = [1, - 1]"
  "weights_at (physical_key dw_env) pw_weight dw_rows (1, 12) = [1]"
  "weights_at (physical_key dw_env) pw_weight dw_rows (2, 25) = [1]"
  by (simp_all add: weights_at_def dw_rows_def dw_env_def input_key_def physical_key_def)

lemma dw_first_rows:
  "map_of (map (\<lambda>r. (physical_key dw_env r, de_output dw_env (pw_value r))) dw_rows) (1, 12) = Some 12"
  "map_of (map (\<lambda>r. (physical_key dw_env r, de_output dw_env (pw_value r))) dw_rows) (2, 25) = Some 25"
  by (simp_all add: dw_rows_def dw_env_def input_key_def physical_key_def)

lemma dw_bytes:
  "map (\<lambda>r. effect_row_bytes (de_input_octets dw_env (pw_value r))) dw_rows = [10, 10, 10, 10]"
  "map pw_ordinal dw_rows = [0, 1, 2, 3]" "dw_rows \<noteq> []" "length dw_rows = 4"
  by (simp_all add: dw_rows_def dw_env_def effect_row_bytes_def)

definition dw_applied :: "(int, int, int) distinct_store" where
  "dw_applied = \<lparr>ds_groups = [(1, \<lparr>dg_multiplicity = 0, dg_output = None\<rparr>),
       (2, \<lparr>dg_multiplicity = 0, dg_output = None\<rparr>)],
     ds_bag = [((1, 12), (12, 1)), ((2, 25), (25, 1))], ds_queue = [],
     ds_touched = [(1, 1), (2, 1)], ds_payload = []\<rparr>"

lemma dw_apply:
  "apply_statement dw_env (de_input dw_env 1 1) 0 10 1000 empty_store
   = Inr (\<lparr>as_touched_keys = 2, as_touched_physical = 3, as_next_row = 4, as_input_rows = 4,
           as_input_bytes = 40, as_mutations = 6\<rparr>, dw_applied)"
proof -
  have bag: "apply_physical dw_env dw_rows [(1, 12), (2, 25), (1, 11)] [] =
      (2, [((1, 12), (12, 1)), ((2, 25), (25, 1))])"
    by (simp add: dw_physical_weights dw_first_rows Let_def)
  have sums: "prefix_sums [1, 1, - 1] = [1, 2, 1]" "prefix_sums [1, - 1] = [1, 0]" "prefix_sums [1] = [1]"
    by (simp_all add: prefix_sums_def upt_rec)
  have fine: "\<not> goes_negative 0 [1, 1, - 1]" "\<not> goes_negative 0 [1, - 1]" "\<not> goes_negative 0 [1]"
      "\<not> goes_beyond 0 [1, 1, - 1]" "\<not> goes_beyond 0 [1, - 1]" "\<not> goes_beyond 0 [1]"
    by (simp_all add: goes_negative_def goes_beyond_def sums i64_max_def)
  have none: "group_multiplicity [(1, \<lparr>dg_multiplicity = 0, dg_output = None\<rparr>),
           (2, \<lparr>dg_multiplicity = 0, dg_output = None\<rparr>)] k = 0" "bag_multiplicity [] p = 0"
    for k :: int and p :: "int \<times> int"
    by (simp_all add: group_multiplicity_def bag_multiplicity_def)
  show ?thesis
    unfolding apply_statement_def dw_incoming Let_def dw_keys dw_pairs
    by (simp add: none fine dw_key_weights dw_physical_weights dw_bytes bag to_bigint_def in_i64_def
        i64_min_def i64_max_def empty_store_def dw_applied_def
        del: apply_physical.simps)
qed

lemma dw_prefix:
  "run_prefix dw_env dw_budget \<lparr>cm_stream_id = 1, cm_sequence = 1, cm_kind = Data, cm_rows = 4,
       cm_bytes = 40, cm_lsn = 5\<rparr> 0 empty_store
   = Inr (\<lparr>xf_usage = \<lparr>input_rows = 4, input_bytes = 40, output_rows = 0, output_bytes = 0\<rparr>,
        xf_next_row = 4, xf_touched_keys = 2, xf_queued_effects = 2, xf_state_rows = 12\<rparr>, dw_queued)"
proof -
  have "desired_rows dw_applied =
      [\<lparr>dr_key = 1, dr_old_output = None, dr_old_multiplicity = 0, dr_new_multiplicity = 1,
         dr_output = Some (12, 12)\<rparr>,
       \<lparr>dr_key = 2, dr_old_output = None, dr_old_multiplicity = 0, dr_new_multiplicity = 1,
         dr_output = Some (25, 25)\<rparr>]"
    by (simp add: desired_rows_def desired_row_of_def dw_applied_def representative_def)
  then have "reconcile_representatives dw_env dw_budget 5 dw_applied
      = Inr (\<lparr>rf_queued_effects = 2, rf_state_rows = 6\<rparr>, dw_queued)"
    by (simp add: reconcile_representatives_def desired_corrupt_def desired_effects_def leg_differs_def
        dw_applied_def dw_queued_def dw_env_def dw_budget_def i64_max_def effect_row_bytes_def)
  then show ?thesis
    using dw_apply
    by (simp add: run_prefix_def dw_budget_def i64_max_def saturating_mul_u64_def u64_max_def
        checked_add_u64_def)
qed

definition dw_chunk :: chunk_meta where
  "dw_chunk = \<lparr>cm_stream_id = 1, cm_sequence = 1, cm_kind = Data, cm_rows = 4, cm_bytes = 40, cm_lsn = 5\<rparr>"

definition dw_input :: input_state where
  "dw_input = \<lparr>is_port = 0, is_stream_id = 1, is_producer = Operator, is_source_oid = None,
       is_slot_generation = None, is_next = 1, is_available = 2, is_activation = 0,
       is_consumed = 0, is_source_frontier = None\<rparr>"

definition dw_stored :: "distinct_phase \<Rightarrow> int \<Rightarrow> bool \<Rightarrow> stored_continuation" where
  "dw_stored phase row saved = \<lparr>dsc_value = \<lparr>dc_input = \<lparr>ip_stream_id = 1, ip_chunk_seq = 1,
     ip_row_ordinal = row\<rparr>, dc_phase = phase\<rparr>, dsc_persisted = saved\<rparr>"

definition dw_bound :: "bool \<Rightarrow> step_context" where
  "dw_bound resumed = (dw_context resumed)\<lparr>sc_presence := Some resumed\<rparr>"

lemma dw_step_facts:
  "context_input (dw_context b) 0 = Inr dw_input" "context_input (dw_bound b) 0 = Inr dw_input"
  "length (sc_inputs (dw_context b)) = 1"
  "is_producer dw_input = Operator" "is_stream_id dw_input = 1" "is_next dw_input = 1"
  "bind_continuation_authority (dw_context b) b = Inr (dw_bound b)"
  "next_chunk (dw_bound b) (dw_db saved) 0 = Inr (Some dw_chunk)"
  "distinct_load (dw_db []) 1 1 = Inr (dw_stored DApply 0 False)"
  "distinct_load (dw_db [dw_row]) 1 1 = Inr (dw_stored DDrain 4 True)"
  "cm_kind dw_chunk = Data" "\<exists>x. measure_payload dw_env dw_chunk = Inr x"
  "sc_transition_budget (dw_bound b) = dw_budget"
  by (simp_all add: dw_context_def dw_bound_def dw_input_def dw_db_def dw_chunk_def dw_stream_def
      dw_row_def dw_stored_def dw_env_def context_input_def bind_continuation_authority_def
      next_chunk_def read_chunk_def nonnegative_def find_stream_def input_position_new_def
      distinct_load_def lock_one_def distinct_decode_def measure_payload_def measure_rows_def to_bigint_def in_i64_def
      i64_min_def i64_max_def effect_row_bytes_def payload_facts_check_def required_def
      i64_from_u64_def Let_def)

lemma dw_stored_fields:
  "dc_phase (dsc_value (dw_stored phase row saved)) = phase" "dsc_persisted (dw_stored phase row saved) = saved"
  "ip_row_ordinal (dc_input (dsc_value (dw_stored phase row saved))) = row"
  by (simp_all add: dw_stored_def)

lemmas dw_commit_defs = input_position_new_def dw_input_def distinct_apply_def distinct_action_of_def
  distinct_validate_input_def dw_stored_def distinct_apply_prefix_def drains_next_def
  validate_protocol_def primitive_validate_def usage_validate_def validate_dimension_def
  dw_budget_def distinct_replace_def encode_optional_def distinct_encode_def replace_cas_def
  prepare_continuation_replace_def record_continuation_replace_def dw_bound_def dw_context_def
  dw_db_def transition_facts_def record_state_rows_def checked_add_u64_def u64_max_def
  step_transition_def context_output_facts_def pending_output_chunk_def receipt_validate_def
  receipt_output_check_def has_durable_progress_def effects_output_def Let_def

lemma dw_admit:
  "\<exists>r c db. distinct_step dw_env (dw_context False) (dw_db []) empty_store = Inr (r, c, db, dw_queued)"
proof -
  obtain x where x: "measure_payload dw_env dw_chunk = Inr x" using dw_step_facts(12) by blast
  have empty: "ds_queue empty_store = []" "ds_touched empty_store = []" by (simp_all add: empty_store_def)
  have stored: "(dw_stored DApply 0 False)\<lparr>dsc_value := (dsc_value (dw_stored DApply 0 False))\<lparr>dc_phase := DApply\<rparr>\<rparr>
      = dw_stored DApply 0 False" by (simp add: dw_stored_def)
  have "distinct_step dw_env (dw_context False) (dw_db []) empty_store
      = distinct_admit dw_env (dw_bound False) (dw_db []) empty_store dw_input (dw_stored DApply 0 False) dw_chunk"
    by (simp add: distinct_step_def dw_step_facts(1-11) x empty dw_stored_fields stored Let_def)
  also have "\<exists>r c db. distinct_admit dw_env (dw_bound False) (dw_db []) empty_store dw_input
      (dw_stored DApply 0 False) dw_chunk = Inr (r, c, db, dw_queued)"
    unfolding distinct_admit_def dw_step_facts(13) dw_stored_fields dw_chunk_def dw_prefix bind_res.simps prod.case
      Let_def empty
    by (simp add: dw_commit_defs)
  finally show ?thesis .
qed

definition dw_drained :: "(int, int, int) distinct_store" where
  "dw_drained = dw_queued\<lparr>ds_queue := [], ds_payload :=
     [(2, 1, \<lparr>pw_ordinal = 0, pw_weight = 1, pw_value = 12\<rparr>),
      (2, 1, \<lparr>pw_ordinal = 1, pw_weight = 1, pw_value = 25\<rparr>)]\<rparr>"

definition dw_appended :: step_context where
  "dw_appended = (dw_bound True)\<lparr>sc_output := Some \<lparr>os_stream_id = 2, os_next = 2, os_target_rows = 10,
     os_target_bytes = 100, os_latest_data = None, os_published = None,
     os_pending = Some \<lparr>pc_sequence = 1, pc_rows = 2, pc_bytes = 20, pc_lsn = 5\<rparr>\<rparr>\<rparr>"

lemma dw_drain_queue:
  "drain_queue dw_env (dw_bound True) dw_queued
   = Inr (\<lparr>df_facts = \<lparr>pr_usage = \<lparr>input_rows = 0, input_bytes = 0, output_rows = 2, output_bytes = 20\<rparr>,
        pr_state_rows = 2, pr_output = DataOutput 1\<rparr>, df_remaining_effects = 0\<rparr>, dw_appended, dw_drained)"
  by (simp add: drain_queue_def dw_queued_def dw_appended_def dw_drained_def dw_env_def dw_bound_def
      dw_context_def context_output_def dw_budget_def i64_max_def to_bigint_def in_i64_def i64_min_def
      record_output_append_def above_def at_least_def checked_add_i64_def drain_payload_def Let_def)

definition dw_advanced :: effect_stream where
  "dw_advanced = dw_stream\<lparr>es_consumers := [((9, 2, 0), \<lparr>cs_next = 2, cs_activation = 0, cs_frontier = 0\<rparr>)]\<rparr>"

lemma dw_finish:
  "finish_input_position dw_appended (dw_db [dw_row]) dw_input dw_chunk 4
   = Inr (None, record_input_advance dw_appended, put_stream (dw_db [dw_row]) 1 dw_advanced)"
proof -
  have "advance_consumer dw_stream None (9, 2, 0) 1 2 0 0 1 4 40 = Inr dw_advanced"
    by (simp add: advance_consumer_def dw_stream_def dw_advanced_def chunk_range_def advance_frontier_def
        frontier_max_def Let_def)
  then show ?thesis
    by (simp add: Let_def finish_input_position_def dw_chunk_def dw_input_def i64_max_def advance_input_def
        dw_appended_def dw_bound_def dw_context_def dw_db_def context_input_def checked_sub_i64_def
        in_i64_def i64_min_def i32_max_def i64_from_u64_def find_stream_def)
qed

lemma dw_drain:
  "\<exists>r c db. distinct_step dw_env (dw_context True) (dw_db [dw_row]) dw_queued = Inr (r, c, db, dw_drained)"
proof -
  have touched: "ds_touched dw_queued = []" by (simp add: dw_queued_def)
  have "distinct_step dw_env (dw_context True) (dw_db [dw_row]) dw_queued
      = distinct_drain dw_env (dw_bound True) (dw_db [dw_row]) dw_queued dw_input (dw_stored DDrain 4 True) dw_chunk"
    by (simp add: distinct_step_def dw_step_facts(1-11) touched dw_stored_fields Let_def)
  also have "\<exists>r c db. distinct_drain dw_env (dw_bound True) (dw_db [dw_row]) dw_queued dw_input
      (dw_stored DDrain 4 True) dw_chunk = Inr (r, c, db, dw_drained)"
    unfolding distinct_drain_def dw_drain_queue bind_res.simps prod.case Let_def drain_facts.simps
      dw_stored_fields less_irrefl if_False dw_finish
    by (simp add: dw_commit_defs dw_appended_def dw_row_def put_stream_def record_input_advance_def)
  finally show ?thesis .
qed

lemma dw_run:
  "\<exists>rows. distinct_run dw_env [(dw_context False, dw_db []), (dw_context True, dw_db [dw_row])] empty_store
     = Inr (rows, dw_drained)"
  using dw_admit dw_drain by (auto simp: res_simps)

theorem distinct_refines_view_witness:
  "\<exists>rows. weight_total (\<lambda>(s, n, r). de_canonical dw_env (pw_value r)) (\<lambda>(s, n, r). pw_weight r)
       [(2 :: int, 1 :: int, \<lparr>pw_ordinal = 0, pw_weight = 1, pw_value = 12\<rparr>),
        (2, 1, \<lparr>pw_ordinal = 1, pw_weight = 1, pw_value = 25\<rparr>)] 25
     = int (card {k. distinct_view dw_env rows k = Some 25}) \<and> key_total dw_env rows 1 = 1"
proof -
  obtain rows where run: "distinct_run dw_env [(dw_context False, dw_db []),
      (dw_context True, dw_db [dw_row])] empty_store = Inr (rows, dw_drained)"
    using dw_run by blast
  have "ds_queue dw_drained = []" "ds_payload dw_drained =
      [(2, 1, \<lparr>pw_ordinal = 0, pw_weight = 1, pw_value = 12\<rparr>),
       (2, 1, \<lparr>pw_ordinal = 1, pw_weight = 1, pw_value = 25\<rparr>)]"
      "group_multiplicity (ds_groups dw_drained) 1 = 1"
    by (simp_all add: dw_drained_def dw_queued_def group_multiplicity_def)
  then show ?thesis
    using distinct_refines_view[OF run, of 25 1] by (intro exI[of _ rows]) simp
qed

end
