(* ===== verification/Step_Guarantees.thy ===== *)
theory Step_Guarantees
  imports Step_Properties
begin

text \<open>
  The guarantees of the step context and of the bounded loop that drives it
  (\<open>src/execution/step.rs\<close>, \<open>src/execution/stream.rs\<close>, \<open>src/planner/runtime.rs\<close>).
\<close>

section \<open>Commit and receipts\<close>

text \<open>
  C2: A commit is exactly-once.  It publishes the pending output, advances the checkpoint from
  the revision the step was opened at to the next one, stores whether a continuation is left,
  and then no other commit of a context opened at the same revision can succeed.\<close>

theorem commit_exactly_once:
  assumes "step_commit c db r = Inr (e, db')"
  shows "cp_revision (db_checkpoint db) = sc_expected_revision c \<and>
    cp_revision (db_checkpoint db') = sc_expected_revision c + 1 \<and>
    sc_presence c = Some (cp_has_continuation (db_checkpoint db')) \<and>
    (se_outcome e = Yield) = cp_has_continuation (db_checkpoint db') \<and>
    se_transaction e = Committed \<and> db_continuation db' = db_continuation db \<and>
    (\<forall>c2 r2. sc_expected_revision c2 = sc_expected_revision c \<longrightarrow> \<not> is_ok (step_commit c2 db' r2))"
proof -
  obtain db1 where c: "publish_pending_output c db = Inr db1"
    "cp_revision (db_checkpoint db1) = sc_expected_revision c"
    "sc_presence c = Some (has_continuation (sr_completion r))"
    "e = step_execution_new (if has_continuation (sr_completion r) then Yield else Progress) (sr_usage r)"
    "db' = db1\<lparr>db_checkpoint := \<lparr>cp_revision = sc_expected_revision c + 1,
      cp_has_continuation = has_continuation (sr_completion r),
      cp_admitted_rows = int (ap_rows (sc_admission c)),
      cp_admitted_bytes = int (ap_bytes (sc_admission c))\<rparr>\<rparr>"
    using step_commit_Inr[OF assms] by blast
  have "\<not> is_ok (step_commit c2 db' r2)" if "sc_expected_revision c2 = sc_expected_revision c" for c2 r2
  proof
    assume "is_ok (step_commit c2 db' r2)"
    then obtain e2 db2 where "step_commit c2 db' r2 = Inr (e2, db2)" by (auto simp: is_ok_iff)
    then show False using step_commit_Inr publish_keeps that c(5) by fastforce
  qed
  then show ?thesis using c publish_keeps[OF c(1)] by (auto simp: step_execution_new_def)
qed

definition sw_context :: step_context where
  "sw_context = \<lparr>sc_result_oid = 9, sc_stage_id = 2,
     sc_quantum_budget = \<lparr>max_input_rows = 10, max_input_bytes = 1000, max_output_rows = 10,
       max_output_bytes = 1000\<rparr>,
     sc_transition_budget = \<lparr>max_input_rows = 10, max_input_bytes = 1000, max_output_rows = 10,
       max_output_bytes = 1000\<rparr>, sc_expected_revision = 3, sc_had_continuation = False,
     sc_presence = Some False, sc_admission = \<lparr>ap_rows = 0, ap_bytes = 0\<rparr>,
     sc_continuation_changed = False, sc_input_advanced = True, sc_frontier_output = None,
     sc_state_rows = 0, sc_inputs = [],
     sc_output = Some \<lparr>os_stream_id = 2, os_next = 5, os_target_rows = 10, os_target_bytes = 100,
       os_latest_data = Some 7, os_published = Some 6,
       os_pending = Some \<lparr>pc_sequence = 4, pc_rows = 2, pc_bytes = 20, pc_lsn = 8\<rparr>\<rparr>\<rparr>"

definition sw_stream :: effect_stream where
  "sw_stream = \<lparr>es_producer = Operator, es_producer_result = 9, es_next = 4, es_first_retained = 4,
     es_latest_data = Some 7, es_published_frontier = Some 6, es_buffered_chunks = 0,
     es_buffered_rows = 0, es_buffered_bytes = 0, es_target_rows = 10, es_target_bytes = 100,
     es_high_chunks = 3, es_high_rows = 1000, es_high_bytes = 1000, es_low_chunks = 1,
     es_low_rows = 10, es_low_bytes = 100, es_backpressured = False, es_chunks = [],
     es_consumers = [((9, 3, 0), \<lparr>cs_next = 4, cs_activation = 0, cs_frontier = 6\<rparr>)]\<rparr>"

definition sw_db :: "unit step_db" where
  "sw_db = \<lparr>db_streams = (\<lambda>i. if i = 2 then Some sw_stream else None), db_published = None,
     db_checkpoint = \<lparr>cp_revision = 3, cp_has_continuation = False, cp_admitted_rows = 0,
       cp_admitted_bytes = 0\<rparr>, db_continuation = []\<rparr>"

definition sw_usage :: work_usage where
  "sw_usage = \<lparr>input_rows = 2, input_bytes = 20, output_rows = 2, output_bytes = 20\<rparr>"

lemmas sw_defs = sw_context_def sw_stream_def sw_db_def sw_usage_def

lemmas commit_defs = step_transition_def context_output_facts_def pending_output_chunk_def
  receipt_validate_def receipt_output_check_def has_durable_progress_def step_commit_def
  publish_pending_output_def find_stream_def put_stream_def append_chunk_def
  append_causality_def chunk_resources_ok_def above_def at_least_def greatest_lsn_def
  usage_validate_def validate_dimension_def i64_max_def

definition sw_committed :: "unit step_db" where
  "sw_committed = \<lparr>db_streams = (db_streams sw_db)(2 \<mapsto> sw_stream\<lparr>es_next := 5,
     es_latest_data := Some 8, es_buffered_chunks := 1, es_buffered_rows := 2,
     es_buffered_bytes := 20,
     es_chunks := [\<lparr>ck_seq = 4, ck_kind = Data, ck_rows = 2, ck_bytes = 20, ck_lsn = 8\<rparr>]\<rparr>),
     db_published = None,
     db_checkpoint = \<lparr>cp_revision = 4, cp_has_continuation = False, cp_admitted_rows = 0,
       cp_admitted_bytes = 0\<rparr>, db_continuation = []\<rparr>"

lemma sw_commit:
  "\<exists>r. step_transition sw_context PhProcess sw_usage = Inr r \<and>
     step_commit sw_context sw_db r = Inr (step_execution_new Progress sw_usage, sw_committed)"
  by (simp add: sw_defs sw_committed_def commit_defs Let_def)

theorem commit_exactly_once_witness:
  "\<exists>r. step_transition sw_context PhProcess sw_usage = Inr r \<and>
     \<not> is_ok (step_commit sw_context sw_committed r)"
  using sw_commit commit_exactly_once[of sw_context sw_db] by blast

text \<open>
  C24: A kernel obtains a receipt exactly when its usage is within the quantum, its continuation
  authority is bound, a step that leaves a continuation has made durable progress, and its
  output agrees with its phase and its rows.  Every other check of a receipt is implied.\<close>

theorem receipt_exact:
  "is_ok (step_transition c phase u) \<longleftrightarrow>
     usage_validate u (sc_quantum_budget c) = Inr () \<and>
     (sc_presence c = Some False \<or> sc_presence c = Some True \<and> made_progress c) \<and>
     output_consistent c phase u"
  unfolding step_transition_ok by (cases "sc_presence c") auto

section \<open>The output mirror\<close>



end
