(* ===== verification/Loaded_Dataflow.thy ===== *)
theory Loaded_Dataflow
  imports Step_Properties
begin

text \<open>
  The bounded loop that runs the transitions of one stage inside one transaction
  (\<open>src/planner/runtime.rs\<close>, \<open>LoadedDataflow::step_quantum\<close>).  The executor of one step is an
  argument; \<open>kernel_run\<close> is the program's.
\<close>

section \<open>The loop\<close>

record loaded_dataflow =
  ld_stages :: nat
  ld_stage_cursor :: "nat option"

record operator_step =
  op_stage_id :: nat
  op_outcome :: step_outcome
  op_transitions :: nat

type_synonym 'db executor = "work_budget \<Rightarrow> 'db \<Rightarrow> (step_execution \<times> 'db) result"

function quantum_loop ::
    "'db executor \<Rightarrow> work_quantum \<Rightarrow> step_outcome \<Rightarrow> 'db
     \<Rightarrow> (step_outcome \<times> work_quantum \<times> 'db) result" where
  "quantum_loop exec q out db =
     bind_res (quantum_remaining q) (\<lambda>rem.
     case rem of
       None \<Rightarrow> Inr (out, q, db)
     | Some b \<Rightarrow>
         bind_res (exec b db) (\<lambda>x.
         bind_res (step_execution_validate (fst x)) (\<lambda>_.
         if se_outcome (fst x) \<noteq> Progress \<and> se_outcome (fst x) \<noteq> Yield
         then Inr (se_outcome (fst x), q, snd x)
         else
           bind_res (quantum_record q (se_usage (fst x))) (\<lambda>q'.
           if \<not> usage_is_empty (se_usage (fst x)) then Inr (se_outcome (fst x), q', snd x)
           else quantum_loop exec q' (se_outcome (fst x)) (snd x)))))"
  by pat_completeness auto
termination
  by (relation "measure (\<lambda>(exec, q, out, db). wq_max_transitions q - wq_transitions q)")
    (auto simp: res_simps)

declare quantum_loop.simps [simp del]

definition step_quantum ::
    "loaded_dataflow \<Rightarrow> nat \<Rightarrow> work_budget \<Rightarrow> nat \<Rightarrow> (nat \<Rightarrow> 'db executor) \<Rightarrow> 'db
     \<Rightarrow> (operator_step \<times> loaded_dataflow \<times> 'db) result" where
  "step_quantum ld stage_id budget max_transitions exec db =
     (if ld_stages ld \<le> stage_id
      then Inl ''durable readiness selected a stage outside its dataflow plan''
      else
        bind_res (quantum_new budget max_transitions) (\<lambda>q.
        bind_res (quantum_loop (exec stage_id) q Idle db) (\<lambda>(out, q', db').
        Inr (\<lparr>op_stage_id = stage_id, op_outcome = out, op_transitions = wq_transitions q'\<rparr>,
             ld\<lparr>ld_stage_cursor := Some stage_id\<rparr>, db'))))"

section \<open>The bounds of a quantum\<close>

definition respects_budget :: "'db executor \<Rightarrow> bool" where
  "respects_budget exec \<longleftrightarrow>
     (\<forall>b db e db'. exec b db = Inr (e, db') \<longrightarrow> usage_validate (se_usage e) b = Inr ())"

definition quantum_inv :: "work_quantum \<Rightarrow> bool" where
  "quantum_inv q \<longleftrightarrow>
     wq_transitions q \<le> wq_max_transitions q \<and>
     input_rows (wq_used q) \<le> max_input_rows (wq_budget q) \<and>
     output_rows (wq_used q) \<le> max_output_rows (wq_budget q)"

lemma quantum_record_inv:
  assumes "quantum_inv q" "quantum_remaining q = Inr (Some b)" "usage_validate u b = Inr ()"
    "quantum_record q u = Inr q'"
  shows "quantum_inv q' \<and> wq_budget q' = wq_budget q \<and> wq_max_transitions q' = wq_max_transitions q"
  using assms
  by (auto simp: quantum_inv_def quantum_remaining_Some quantum_record_Inr res_simps within_def)

lemma quantum_loop_inv:
  "respects_budget exec \<Longrightarrow> quantum_inv q \<Longrightarrow> quantum_loop exec q out db = Inr (out', q', db') \<Longrightarrow>
     quantum_inv q' \<and> wq_budget q' = wq_budget q \<and> wq_max_transitions q' = wq_max_transitions q"
proof (induction exec q out db rule: quantum_loop.induct)
  case (1 exec q out db)
  obtain rem where rem: "quantum_remaining q = Inr rem" using quantum_remaining_no_panic by blast
  show ?case
  proof (cases rem)
    case None
    then show ?thesis using 1 rem by (simp add: quantum_loop.simps[of exec q out db])
  next
    case (Some b)
    obtain e db1 where e: "exec b db = Inr (e, db1)" and v: "step_execution_validate e = Inr ()"
      using 1(4) rem Some by (auto simp: quantum_loop.simps[of exec q out db] res_simps)
    have u: "usage_validate (se_usage e) b = Inr ()" using 1(2) e by (auto simp: respects_budget_def)
    show ?thesis
    proof (cases "se_outcome e \<noteq> Progress \<and> se_outcome e \<noteq> Yield")
      case True
      then show ?thesis
        using 1(3,4) rem Some e v by (simp add: quantum_loop.simps[of exec q out db])
    next
      case False
      obtain q1 where q1: "quantum_record q (se_usage e) = Inr q1"
        using 1(4) rem Some e v False by (auto simp: quantum_loop.simps[of exec q out db] res_simps)
      note keep = quantum_record_inv[OF 1(3) rem[unfolded Some] u q1]
      show ?thesis
      proof (cases "usage_is_empty (se_usage e)")
        case True
        have "quantum_loop exec q1 (se_outcome e) db1 = Inr (out', q', db')"
          using 1(4) rem Some e v False q1 True by (simp add: quantum_loop.simps[of exec q out db])
        then show ?thesis
          using 1(1)[OF rem Some e, unfolded fst_conv snd_conv, OF v False q1] True 1(2) keep by auto
      next
        case False2: False
        have "q' = q1"
          using 1(4) rem Some e v False q1 False2 by (simp add: quantum_loop.simps[of exec q out db])
        then show ?thesis using keep by simp
      qed
    qed
  qed
qed

lemma step_begin_budget:
  assumes "step_begin q oid stage n ex b = Inr (StartReady c)"
  shows "sc_quantum_budget c = b"
proof -
  have "\<forall>x. r = Inr (StartReady x) \<longrightarrow> sc_quantum_budget x = b"
    if "r = (case out of None \<Rightarrow> Inr StartBlocked
                 | Some output \<Rightarrow>
                     if p then Inr StartIdle
                     else Inr (StartReady
                       \<lparr>sc_result_oid = oid, sc_stage_id = int stage,
                        sc_quantum_budget = b, sc_transition_budget = b,
                        sc_expected_revision = revision, sc_had_continuation = had,
                        sc_presence = None, sc_admission = admission,
                        sc_continuation_changed = False, sc_input_advanced = False,
                        sc_frontier_output = None, sc_state_rows = 0, sc_inputs = inputs,
                        sc_output = output\<rparr>))" for r :: "context_start result" and out p revision had admission inputs
    using that by (cases out) auto
  then show ?thesis
    using assms unfolding step_begin_def Let_def
    by (auto simp: bind_res_Inr split: if_splits list.splits)
qed

text \<open>The program's executor respects its budget: a commit validates the usage of its receipt.\<close>

lemma kernel_run_respects_budget:
  assumes "\<And>c db r c' db'. step c db = Inr (r, c', db') \<Longrightarrow> sc_quantum_budget c' = sc_quantum_budget c"
  shows "respects_budget (\<lambda>b db. kernel_run d step rows oid stage b db)"
  unfolding respects_budget_def
proof (intro allI impI)
  fix b db e db'
  assume run: "kernel_run d step rows oid stage b db = Inr (e, db')"
  obtain start where start: "step_begin rows oid stage (length (od_inputs d))
        (od_output d = EffectStreamOutput) b = Inr start"
      "(case start of
          StartBlocked \<Rightarrow> Inr (step_execution_empty Blocked, db)
        | StartIdle \<Rightarrow> Inr (step_execution_empty Idle, db)
        | StartReady c \<Rightarrow>
            bind_res (contract_validate d c) (\<lambda>_.
            bind_res (step c db) (\<lambda>(r, c', db').
            bind_res (validate_phase d (sr_phase r)) (\<lambda>_.
            step_commit c' db' r)))) = Inr (e, db')"
    using run by (auto simp: kernel_run_def bind_res_Inr split: if_splits)
  show "usage_validate (se_usage e) b = Inr ()"
  proof (cases start)
    case (StartReady c)
    then obtain r c' db1 where s: "step c db = Inr (r, c', db1)" "step_commit c' db1 r = Inr (e, db')"
      using start(2) by (auto simp: res_simps)
    have "sc_quantum_budget c = b" using step_begin_budget start(1) StartReady by blast
    then have "sc_quantum_budget c' = b" using assms[OF s(1)] by simp
    then show ?thesis using step_commit_Inr[OF s(2)] by (auto simp: step_execution_new_def)
  qed (use start(2) in \<open>auto simp: step_execution_empty_def not_committed_def res_simps within_def\<close>)
qed

text \<open>
  C29: A transaction quantum is bounded.  When every step stays within the budget it is given,
  the loop over the transitions of a stage ends after at most the allowed number of
  transitions, and the rows they have consumed and produced together stay within the budget of
  the quantum.\<close>

theorem quantum_bounded:
  assumes "respects_budget (exec stage)" "step_quantum ld stage b n exec db = Inr (done_step, ld', db')"
  shows "\<exists>q. quantum_loop (exec stage) \<lparr>wq_budget = b, wq_used = usage_default, wq_transitions = 0,
        wq_max_transitions = n\<rparr> Idle db = Inr (op_outcome done_step, q, db') \<and>
    op_transitions done_step = wq_transitions q \<and> op_transitions done_step \<le> n \<and>
    input_rows (wq_used q) \<le> max_input_rows b \<and> output_rows (wq_used q) \<le> max_output_rows b \<and>
    stage < ld_stages ld \<and> ld_stage_cursor ld' = Some stage"
proof -
  let ?q0 = "\<lparr>wq_budget = b, wq_used = usage_default, wq_transitions = 0, wq_max_transitions = n\<rparr>"
  obtain q where q: "quantum_loop (exec stage) ?q0 Idle db = Inr (op_outcome done_step, q, db')"
      "op_transitions done_step = wq_transitions q" "stage < ld_stages ld"
      "ld_stage_cursor ld' = Some stage"
    using assms(2) by (auto simp: step_quantum_def quantum_new_def res_simps not_le split: if_splits)
  have "quantum_inv ?q0" by (simp add: quantum_inv_def usage_default_def)
  from quantum_loop_inv[OF assms(1) this q(1)] show ?thesis
    using q by (auto simp: quantum_inv_def)
qed

text \<open>An executor with a few metadata transitions left, then none.\<close>

definition counting_executor :: "nat \<Rightarrow> nat executor" where
  "counting_executor stage b n =
     Inr (if n = 0 then step_execution_empty Idle else step_execution_new Yield usage_default, n - 1)"

theorem quantum_bounded_witness:
  "\<exists>q. quantum_loop (counting_executor 1) \<lparr>wq_budget = \<lparr>max_input_rows = 10, max_input_bytes = 100,
        max_output_rows = 10, max_output_bytes = 100\<rparr>, wq_used = usage_default, wq_transitions = 0,
        wq_max_transitions = 5\<rparr> Idle 2 = Inr (Idle, q, 0) \<and> wq_transitions q = 2 \<and>
     input_rows (wq_used q) \<le> 10"
proof -
  let ?b = "\<lparr>max_input_rows = 10, max_input_bytes = 100, max_output_rows = 10, max_output_bytes = 100\<rparr>"
  have "step_quantum \<lparr>ld_stages = 2, ld_stage_cursor = None\<rparr> 1 ?b 5 counting_executor 2 =
      Inr (\<lparr>op_stage_id = 1, op_outcome = Idle, op_transitions = 2\<rparr>,
           \<lparr>ld_stages = 2, ld_stage_cursor = Some 1\<rparr>, 0)"
    by (simp add: step_quantum_def quantum_new_def quantum_loop.simps quantum_remaining_def
        remaining_of_def checked_sub_u64_def usage_default_def work_budget_new_def
        counting_executor_def step_execution_empty_def not_committed_def step_execution_new_def
        step_execution_validate_def quantum_record_def usage_checked_add_def checked_add_u64_def
        u64_max_def usage_is_empty_def)
  moreover have "respects_budget (counting_executor 1)"
    by (auto simp: respects_budget_def counting_executor_def step_execution_empty_def
        not_committed_def step_execution_new_def usage_default_def usage_validate_def
        validate_dimension_def)
  ultimately show ?thesis using quantum_bounded[of counting_executor 1] by fastforce
qed

end
