(* ===== verification/Dataflow_Cache.thy ===== *)
theory Dataflow_Cache
  imports Shiba_Prelude "HOL-Library.AList" "HOL-Library.Multiset"
begin

text \<open>
  The backend-local cache of loaded dataflows (\<open>src/runtime/scheduler.rs\<close>, \<open>DeterministicLru\<close>):
  an access clock of 64 bits orders the entries, the clock is renumbered before it would wrap,
  and the entries beyond the capacity leave in order of recency.  The hash map is an association
  list with distinct keys; its order is not observable, since every choice the code makes is by
  the distinct times of the last use.
\<close>

section \<open>The cache\<close>

record 'v cached_value =
  cv_value :: 'v
  cv_last_used :: "64 word"

record ('k, 'v) lru =
  lru_entries :: "('k \<times> 'v cached_value) list"
  lru_capacity :: nat
  lru_clock :: "64 word"

definition last_used :: "'k \<times> 'v cached_value \<Rightarrow> 64 word" where
  "last_used e = cv_last_used (snd e)"

definition lru_new :: "nat \<Rightarrow> ('k, 'v) lru result" where
  "lru_new capacity =
     (if capacity = 0 then Inl ''LRU capacity must be positive''
      else Inr \<lparr>lru_entries = [], lru_capacity = capacity, lru_clock = 0\<rparr>)"

definition lru_contains_key :: "('k, 'v) lru \<Rightarrow> 'k \<Rightarrow> bool" where
  "lru_contains_key c k \<longleftrightarrow> map_of (lru_entries c) k \<noteq> None"

text \<open>Renumbering: the entries get the numbers 1, 2, ... in order of recency.\<close>

fun renumber :: "'k list \<Rightarrow> nat \<Rightarrow> ('k \<times> 'v cached_value) list \<Rightarrow> ('k \<times> 'v cached_value) list" where
  "renumber [] i es = es"
| "renumber (k # ks) i es =
     renumber ks (i + 1)
       (map (\<lambda>(k', v). (k', if k' = k then v\<lparr>cv_last_used := of_nat (i + 1)\<rparr> else v)) es)"

definition next_sequence :: "('k, 'v) lru \<Rightarrow> 64 word \<times> ('k, 'v) lru" where
  "next_sequence c =
     (let c' =
        (if lru_clock c = - 1
         then
           c\<lparr>lru_entries :=
               renumber (map fst (sort_key last_used (lru_entries c))) 0 (lru_entries c),
             lru_clock := of_nat (length (lru_entries c))\<rparr>
         else c)
      in (lru_clock c' + 1, c'\<lparr>lru_clock := lru_clock c' + 1\<rparr>))"

definition lru_get :: "('k, 'v) lru \<Rightarrow> 'k \<Rightarrow> 'v option \<times> ('k, 'v) lru" where
  "lru_get c k =
     (let (s, c') = next_sequence c in
      case map_of (lru_entries c') k of
        None \<Rightarrow> (None, c')
      | Some v \<Rightarrow>
          (Some (cv_value v),
           c'\<lparr>lru_entries := AList.update k (v\<lparr>cv_last_used := s\<rparr>) (lru_entries c')\<rparr>))"

definition lru_remove :: "('k, 'v) lru \<Rightarrow> 'k \<Rightarrow> 'v option \<times> ('k, 'v) lru" where
  "lru_remove c k =
     (map_option cv_value (map_of (lru_entries c) k),
      c\<lparr>lru_entries := AList.delete k (lru_entries c)\<rparr>)"

text \<open>\<open>evict_to_capacity\<close>, entry by entry.\<close>

fun least_recent :: "('k \<times> 'v cached_value) list \<Rightarrow> ('k \<times> 'v cached_value) option" where
  "least_recent [] = None"
| "least_recent (e # es) =
     (case least_recent es of
        None \<Rightarrow> Some e
      | Some e' \<Rightarrow> Some (if last_used e \<le> last_used e' then e else e'))"

function evict_to_capacity :: "('k, 'v) lru \<Rightarrow> ('k \<times> 'v) list \<times> ('k, 'v) lru" where
  "evict_to_capacity c =
     (if lru_capacity c < length (lru_entries c)
      then
        case least_recent (lru_entries c) of
          None \<Rightarrow> ([], c)
        | Some e \<Rightarrow>
            let (evicted, c') = evict_to_capacity (c\<lparr>lru_entries := AList.delete (fst e) (lru_entries c)\<rparr>)
            in ((fst e, cv_value (snd e)) # evicted, c')
      else ([], c))"
  by pat_completeness auto

lemma least_recent_in: "least_recent es = Some e \<Longrightarrow> e \<in> set es"
  by (induction es arbitrary: e) (auto split: option.splits if_splits)

termination evict_to_capacity
proof (relation "measure (\<lambda>c. length (lru_entries c))")
  fix c :: "('k, 'v) lru" and e
  assume "least_recent (lru_entries c) = Some e"
  then have "length (AList.delete (fst e) (lru_entries c)) < length (lru_entries c)"
    unfolding AList.delete_eq by (intro length_filter_less[of e]) (auto simp: least_recent_in)
  then show "(c\<lparr>lru_entries := AList.delete (fst e) (lru_entries c)\<rparr>, c)
      \<in> measure (\<lambda>c. length (lru_entries c))" by simp
qed simp

declare evict_to_capacity.simps [simp del]

definition lru_insert :: "('k, 'v) lru \<Rightarrow> 'k \<Rightarrow> 'v \<Rightarrow> ('k \<times> 'v) list \<times> ('k, 'v) lru" where
  "lru_insert c k v =
     (let (s, c') = next_sequence c in
      evict_to_capacity
        (c'\<lparr>lru_entries :=
           AList.update k \<lparr>cv_value = v, cv_last_used = s\<rparr> (lru_entries c')\<rparr>))"

definition lru_set_capacity ::
    "('k, 'v) lru \<Rightarrow> nat \<Rightarrow> (('k \<times> 'v) list \<times> ('k, 'v) lru) result" where
  "lru_set_capacity c capacity =
     (if capacity = 0 then Inl ''LRU capacity must be positive''
      else Inr (evict_to_capacity (c\<lparr>lru_capacity := capacity\<rparr>)))"

section \<open>The specification\<close>

text \<open>
  A cache is the list of its entries, the least recently used first; the clock does not exist.
\<close>

definition recency :: "('k, 'v) lru \<Rightarrow> ('k \<times> 'v) list" where
  "recency c = map (\<lambda>e. (fst e, cv_value (snd e))) (sort_key last_used (lru_entries c))"

definition lru_inv :: "('k, 'v) lru \<Rightarrow> bool" where
  "lru_inv c \<longleftrightarrow>
     distinct (map fst (lru_entries c)) \<and> distinct (map last_used (lru_entries c)) \<and>
     (\<forall>e \<in> set (lru_entries c). last_used e \<le> lru_clock c) \<and>
     length (lru_entries c) \<le> lru_capacity c \<and> 0 < lru_capacity c \<and> lru_capacity c < 2 ^ 64 - 1"

definition recency_get :: "('k \<times> 'v) list \<Rightarrow> 'k \<Rightarrow> 'v option \<times> ('k \<times> 'v) list" where
  "recency_get xs k =
     (case map_of xs k of
        None \<Rightarrow> (None, xs)
      | Some v \<Rightarrow> (Some v, filter (\<lambda>e. fst e \<noteq> k) xs @ [(k, v)]))"

definition recency_limit :: "nat \<Rightarrow> ('k \<times> 'v) list \<Rightarrow> ('k \<times> 'v) list \<times> ('k \<times> 'v) list" where
  "recency_limit n xs = (take (length xs - n) xs, drop (length xs - n) xs)"

definition recency_insert ::
    "nat \<Rightarrow> ('k \<times> 'v) list \<Rightarrow> 'k \<Rightarrow> 'v \<Rightarrow> ('k \<times> 'v) list \<times> ('k \<times> 'v) list" where
  "recency_insert n xs k v = recency_limit n (filter (\<lambda>e. fst e \<noteq> k) xs @ [(k, v)])"

section \<open>The order of recency\<close>

abbreviation by_use :: "('k \<times> 'v cached_value) list \<Rightarrow> ('k \<times> 'v cached_value) list" where
  "by_use es \<equiv> sort_key last_used es"

lemma by_use_eq:
  "distinct (map last_used es) \<Longrightarrow> mset es = mset ys \<Longrightarrow> sorted (map last_used ys) \<Longrightarrow> by_use es = ys"
  by (rule sort_key_inj_key_eq) (simp_all add: distinct_map)

lemma least_recent_by_use:
  assumes "distinct (map last_used es)" "es \<noteq> []"
  shows "least_recent es = Some (hd (by_use es))"
proof -
  have least: "\<exists>e. least_recent es = Some e \<and> (\<forall>x \<in> set es. last_used e \<le> last_used x)" if "es \<noteq> []" for es
    using that
  proof (induction es)
    case (Cons e es)
    show ?case
    proof (cases "es = []")
      case False
      then obtain e' where "least_recent es = Some e'" "\<forall>x \<in> set es. last_used e' \<le> last_used x"
        using Cons.IH by blast
      then show ?thesis by (auto intro: order_trans)
    qed simp
  qed simp
  obtain e where e: "least_recent es = Some e" "\<forall>x \<in> set es. last_used e \<le> last_used x"
    using least[OF assms(2)] by blast
  obtain h t where ht: "by_use es = h # t"
    using assms(2) by (metis length_0_conv length_sort neq_Nil_conv)
  have h: "h \<in> set es" using ht by (metis list.set_intros(1) set_sort)
  have "e \<in> set (h # t)" using least_recent_in[OF e(1)] unfolding ht[symmetric] by simp
  moreover have "sorted (map last_used (h # t))" unfolding ht[symmetric] by simp
  ultimately have "last_used h = last_used e" using e(2) h by (auto intro: antisym)
  then have "h = e"
    using h assms(1) least_recent_in[OF e(1)] by (auto simp: distinct_map dest: inj_onD)
  then show ?thesis using e(1) ht by simp
qed

lemma mset_update:
  "distinct (map fst es) \<Longrightarrow>
     mset (AList.update k v es) = add_mset (k, v) (mset (filter (\<lambda>e. fst e \<noteq> k) es))"
proof (induction es)
  case (Cons e es)
  moreover have "filter (\<lambda>x. fst x \<noteq> k) es = es" if "k \<notin> fst ` set es"
    using that by (simp add: filter_id_conv image_iff) metis
  ultimately show ?case by (cases e) (auto simp flip: mset_filter)
qed simp

text \<open>The list that renumbering leaves, the least recently used entry first.\<close>

fun numbered :: "nat \<Rightarrow> ('k \<times> 'v cached_value) list \<Rightarrow> ('k \<times> 'v cached_value) list" where
  "numbered i [] = []"
| "numbered i ((k, v) # es) = (k, v\<lparr>cv_last_used := of_nat (i + 1)\<rparr>) # numbered (i + 1) es"

lemma numbered_uses: "map last_used (numbered i es) = map of_nat [i + 1..<i + 1 + length es]"
  by (induction i es rule: numbered.induct) (simp_all add: last_used_def upt_rec)

lemma numbered_contents:
  "map (\<lambda>e. (fst e, cv_value (snd e))) (numbered i es) = map (\<lambda>e. (fst e, cv_value (snd e))) es"
  "map fst (numbered i es) = map fst es" "length (numbered i es) = length es"
  by (induction i es rule: numbered.induct) simp_all

lemma renumber_numbered:
  "distinct (map fst (ps @ es)) \<Longrightarrow> renumber (map fst es) i (ps @ es) = ps @ numbered i es"
proof (induction es arbitrary: ps i)
  case (Cons e es)
  obtain k v where e: "e = (k, v)" by (cases e)
  let ?f = "\<lambda>(k', v). (k', if k' = k then v\<lparr>cv_last_used := of_nat (i + 1)\<rparr> else v)"
  have other: "map ?f xs = xs" if "k \<notin> fst ` set xs" for xs :: "('a \<times> 'b cached_value) list"
    using that by (induction xs) auto
  have "map ?f (ps @ e # es) = (ps @ [(k, v\<lparr>cv_last_used := of_nat (i + 1)\<rparr>)]) @ es"
    using Cons.prems e other by auto
  then show ?case using Cons.IH[of "ps @ [(k, v\<lparr>cv_last_used := of_nat (i + 1)\<rparr>)]" "i + 1"] Cons.prems e
    by simp
qed simp

lemma renumber_mset: "mset es = mset es' \<Longrightarrow> mset (renumber ks i es) = mset (renumber ks i es')"
  by (induction ks arbitrary: i es es') simp_all

lemma renumber_by_use:
  assumes "distinct (map fst es)" "length es < 2 ^ 64 - 1"
  shows "by_use (renumber (map fst (by_use es)) 0 es) = numbered 0 (by_use es)"
    "mset (renumber (map fst (by_use es)) 0 es) = mset (numbered 0 (by_use es))"
proof -
  let ?u = "by_use es"
  have d: "distinct (map fst ?u)"
    using assms(1) by (metis distinct_map distinct_sort inj_on_cong set_sort)
  show m: "mset (renumber (map fst ?u) 0 es) = mset (numbered 0 ?u)"
    using renumber_mset[of es ?u "map fst ?u" 0] renumber_numbered[of "[]" ?u 0] d by simp
  have uses: "map last_used (numbered 0 ?u) = map of_nat [1..<1 + length es]"
    using numbered_uses[of 0 ?u] by simp
  have lt: "sorted_wrt (<) (map (of_nat :: nat \<Rightarrow> 64 word) [1..<1 + length es])"
    unfolding sorted_wrt_map using assms(2)
    by (intro sorted_wrt_mono_rel[OF _ sorted_wrt_upt]) (auto simp: word_less_nat_alt unat_of_nat)
  then have "distinct (map last_used (numbered 0 ?u))"
    unfolding uses by (simp add: strict_sorted_iff)
  then have "distinct (map last_used (renumber (map fst ?u) 0 es))"
    using m by (metis mset_eq_imp_distinct_iff mset_map)
  then show "by_use (renumber (map fst ?u) 0 es) = numbered 0 ?u"
    using by_use_eq m lt uses strict_sorted_imp_sorted by metis
qed

section \<open>Refinement\<close>

lemma next_sequence_spec:
  assumes "lru_inv c" "next_sequence c = (s, c')"
  shows "recency c' = recency c \<and> lru_inv c' \<and> (\<forall>e \<in> set (lru_entries c'). last_used e < s) \<and>
    lru_clock c' = s \<and> lru_capacity c' = lru_capacity c"
proof (cases "lru_clock c = - 1")
  case False
  then have "1 + lru_clock c \<noteq> 0" by (metis add_eq_0_iff2 add.inverse_inverse add.commute)
  then have lt: "lru_clock c < lru_clock c + 1"
    using unatSuc[of "lru_clock c"] by (simp add: word_less_nat_alt add.commute)
  then have "last_used e < lru_clock c + 1" if "e \<in> set (lru_entries c)" for e
    using assms(1) that by (auto simp: lru_inv_def intro: le_less_trans)
  then show ?thesis
    using assms False by (auto simp: next_sequence_def lru_inv_def recency_def Let_def intro: less_imp_le)
next
  case True
  let ?es = "lru_entries c" and ?n = "numbered 0 (by_use (lru_entries c))"
  let ?r = "renumber (map fst (by_use ?es)) 0 ?es"
  have len: "length ?es < 2 ^ 64 - 1" using assms(1) by (auto simp: lru_inv_def)
  have r: "by_use ?r = ?n" "mset ?r = mset ?n"
    using renumber_by_use[OF _ len] assms(1) by (simp_all add: lru_inv_def)
  have c': "c' = c\<lparr>lru_entries := ?r, lru_clock := of_nat (length ?es) + 1\<rparr>"
      "s = of_nat (length ?es) + 1"
    using assms(2) True by (auto simp: next_sequence_def)
  have uses: "map last_used ?n = map of_nat [1..<1 + length ?es]"
    using numbered_uses[of 0 "by_use ?es"] by simp
  have below: "last_used e \<le> of_nat (length ?es)" "last_used e < s" if "e \<in> set ?r" for e
  proof -
    have "last_used e \<in> set (map last_used ?n)"
      using that r(2) by (metis image_eqI list.set_map mset_eq_setD)
    then obtain i where i: "i \<in> set [1..<1 + length ?es]" "last_used e = of_nat i"
      unfolding uses set_map by blast
    then have "i \<le> length ?es" by auto
    then show "last_used e \<le> of_nat (length ?es)" "last_used e < s"
      using len c'(2) i(2) by (simp_all add: word_le_nat_alt word_less_nat_alt unat_of_nat unat_word_ariths)
  qed
  have le: "of_nat (length ?es) \<le> (of_nat (length ?es) + 1 :: 64 word)"
    using len by (simp add: word_le_nat_alt unat_of_nat unat_word_ariths)
  have keys: "distinct (map fst ?r)"
  proof -
    have "mset (map fst ?r) = mset (map fst ?es)"
      using r(2) by (metis mset_map mset_sort numbered_contents(2))
    from mset_eq_imp_distinct_iff[OF this] show ?thesis using assms(1) by (simp add: lru_inv_def)
  qed
  have dist: "distinct (map last_used ?r)"
  proof -
    have "distinct (map (of_nat :: nat \<Rightarrow> 64 word) [1..<1 + length ?es])"
      using len by (auto simp: distinct_map inj_on_def of_nat_eq_iff unat_of_nat
          dest!: arg_cong[where f = unat])
    then have "distinct (map last_used ?n)" unfolding uses .
    then show ?thesis using r(2) by (metis mset_eq_imp_distinct_iff mset_map)
  qed
  have length: "length ?r = length ?es"
    using r(2) by (metis length_sort numbered_contents(3) size_mset)
  have "recency c' = recency c" using c' r(1) by (simp add: recency_def numbered_contents)
  then show ?thesis
    using assms(1) c' below le keys dist length by (auto simp: lru_inv_def intro: order_trans)
qed

lemma by_use_update:
  assumes "distinct (map fst es)" "distinct (map last_used es)" "\<forall>e \<in> set es. last_used e < last_used (k, v)"
  shows "by_use (AList.update k v es) = filter (\<lambda>e. fst e \<noteq> k) (by_use es) @ [(k, v)]"
    "distinct (map last_used (AList.update k v es))"
proof -
  let ?ys = "filter (\<lambda>e. fst e \<noteq> k) (by_use es) @ [(k, v)]"
  have m: "mset (AList.update k v es) = mset ?ys"
    using mset_update[OF assms(1)] by simp
  have s: "sorted (map last_used ?ys)"
    using assms(3) by (auto simp: sorted_append filter_sort intro: less_imp_le)
  have "distinct (map last_used ?ys)"
    using assms(2,3) by (auto simp: distinct_map inj_on_def)
  then show d: "distinct (map last_used (AList.update k v es))"
    using m by (metis mset_eq_imp_distinct_iff mset_map)
  show "by_use (AList.update k v es) = ?ys" by (rule by_use_eq[OF d m s])
qed

lemma recency_map_of:
  assumes "distinct (map fst (lru_entries c))"
  shows "map_of (recency c) k = map_option cv_value (map_of (lru_entries c) k)"
proof -
  have "map_of (by_use (lru_entries c)) = map_of (lru_entries c)"
    using assms by (metis distinct_map distinct_sort map_of_inject_set set_sort)
  moreover have "map_of (map (\<lambda>e. (fst e, f (snd e))) es) k = map_option f (map_of es k)"
    for es :: "('a \<times> 'b cached_value) list" and f :: "'b cached_value \<Rightarrow> 'b"
    by (induction es) auto
  ultimately show ?thesis by (simp add: recency_def)
qed

lemma recency_keys: "fst ` set (recency c) = fst ` set (lru_entries c)" "length (recency c) = length (lru_entries c)"
  by (force simp: recency_def)+

lemma recency_without:
  "map (\<lambda>e. (fst e, cv_value (snd e))) (filter (\<lambda>e. fst e \<noteq> k) (by_use (lru_entries c)))
     = filter (\<lambda>e. fst e \<noteq> k) (recency c)"
  by (simp add: recency_def filter_map o_def)

lemma lru_get_refines:
  assumes "lru_inv c"
  shows "fst (lru_get c k) = fst (recency_get (recency c) k)"
    "recency (snd (lru_get c k)) = snd (recency_get (recency c) k)"
    "lru_inv (snd (lru_get c k))" "lru_capacity (snd (lru_get c k)) = lru_capacity c"
proof -
  obtain s c' where n: "next_sequence c = (s, c')" by (cases "next_sequence c")
  note spec = next_sequence_spec[OF assms n]
  have inv: "distinct (map fst (lru_entries c'))" "distinct (map last_used (lru_entries c'))"
    using spec by (auto simp: lru_inv_def)
  have of: "map_of (recency c) k = map_option cv_value (map_of (lru_entries c') k)"
    using recency_map_of[OF inv(1), of k] spec by simp
  have "fst (lru_get c k) = fst (recency_get (recency c) k) \<and>
    recency (snd (lru_get c k)) = snd (recency_get (recency c) k) \<and>
    lru_inv (snd (lru_get c k)) \<and> lru_capacity (snd (lru_get c k)) = lru_capacity c"
  proof (cases "map_of (lru_entries c') k")
    case None
    then show ?thesis using spec of n by (simp add: lru_get_def recency_get_def)
  next
    case (Some v)
    let ?v = "v\<lparr>cv_last_used := s\<rparr>"
    have u: "\<forall>e \<in> set (lru_entries c'). last_used e < last_used (k, ?v)"
      using spec by (simp add: last_used_def)
    note b = by_use_update[OF inv u]
    have "length (AList.update k ?v (lru_entries c')) = length (lru_entries c')"
      using arg_cong[OF update_keys[of k ?v "lru_entries c'"], of length] Some
      by (force dest: map_of_SomeD)
    moreover have "set (AList.update k ?v (lru_entries c')) \<subseteq> insert (k, ?v) (set (lru_entries c'))"
      using mset_update[OF inv(1), of k ?v] by (metis filter_is_subset insert_mono set_mset_add_mset_insert set_mset_mset)
    ultimately show ?thesis
      using spec of n Some b inv recency_without[of k c']
      by (auto simp: lru_get_def recency_get_def recency_def lru_inv_def last_used_def distinct_update less_imp_le)
  qed
  then show "fst (lru_get c k) = fst (recency_get (recency c) k)"
    "recency (snd (lru_get c k)) = snd (recency_get (recency c) k)"
    "lru_inv (snd (lru_get c k))" "lru_capacity (snd (lru_get c k)) = lru_capacity c" by simp_all
qed

lemma delete_filter: "AList.delete k es = filter (\<lambda>e. fst e \<noteq> k) es"
  unfolding AList.delete_eq by (intro filter_cong) auto

lemma lru_remove_refines:
  assumes "lru_inv c"
  shows "fst (lru_remove c k) = map_of (recency c) k"
    "recency (snd (lru_remove c k)) = filter (\<lambda>e. fst e \<noteq> k) (recency c)"
    "lru_inv (snd (lru_remove c k))"
proof -
  let ?es = "filter (\<lambda>e. fst e \<noteq> k) (lru_entries c)"
  have d: "AList.delete k (lru_entries c) = ?es"
    by (rule delete_filter)
  show "fst (lru_remove c k) = map_of (recency c) k"
    using assms recency_map_of[of c k] by (simp add: lru_remove_def lru_inv_def)
  show "recency (snd (lru_remove c k)) = filter (\<lambda>e. fst e \<noteq> k) (recency c)"
    using recency_without[of k c] by (simp add: lru_remove_def recency_def d filter_sort)
  show "lru_inv (snd (lru_remove c k))"
    using assms by (auto simp: lru_remove_def lru_inv_def d distinct_map_filter
        intro: order_trans[OF length_filter_le])
qed

lemma evict_refines:
  assumes "distinct (map fst (lru_entries c))" "distinct (map last_used (lru_entries c))"
  shows "(fst (evict_to_capacity c), recency (snd (evict_to_capacity c)))
      = recency_limit (lru_capacity c) (recency c) \<and>
    length (lru_entries (snd (evict_to_capacity c))) = min (lru_capacity c) (length (lru_entries c)) \<and>
    set (lru_entries (snd (evict_to_capacity c))) \<subseteq> set (lru_entries c) \<and>
    distinct (map fst (lru_entries (snd (evict_to_capacity c)))) \<and>
    distinct (map last_used (lru_entries (snd (evict_to_capacity c)))) \<and>
    lru_capacity (snd (evict_to_capacity c)) = lru_capacity c \<and>
    lru_clock (snd (evict_to_capacity c)) = lru_clock c"
  using assms
proof (induction c rule: evict_to_capacity.induct)
  case (1 c)
  let ?es = "lru_entries c"
  show ?case
  proof (cases "lru_capacity c < length ?es")
    case False
    then show ?thesis
      using 1(2,3) recency_keys(2)[of c]
      by (simp add: evict_to_capacity.simps[of c] recency_limit_def)
  next
    case True
    then have "?es \<noteq> []" by auto
    then obtain e t where e: "least_recent ?es = Some e" "by_use ?es = e # t"
      using least_recent_by_use[OF 1(3)] by (metis length_0_conv length_sort list.sel(1) neq_Nil_conv)
    let ?c = "c\<lparr>lru_entries := AList.delete (fst e) ?es\<rparr>"
    have d: "AList.delete (fst e) ?es = filter (\<lambda>x. fst x \<noteq> fst e) ?es"
      by (rule delete_filter)
    have keys: "distinct (map fst (e # t))"
      using 1(2) unfolding e(2)[symmetric] by (metis distinct_map distinct_sort inj_on_cong set_sort)
    have t: "by_use (lru_entries ?c) = t"
    proof -
      have "by_use (lru_entries ?c) = filter (\<lambda>x. fst x \<noteq> fst e) (e # t)"
        unfolding e(2)[symmetric] by (simp add: d filter_sort)
      then show ?thesis using keys by (auto simp: filter_id_conv image_iff)
    qed
    have len: "length (lru_entries ?c) = length t" "length ?es = Suc (length t)"
      using arg_cong[OF t, of length] arg_cong[OF e(2), of length] by simp_all
    have rec: "recency c = (fst e, cv_value (snd e)) # recency ?c" "length (recency ?c) = length t"
      using e(2) t by (simp_all add: recency_def)
    obtain ev c' where ev: "evict_to_capacity ?c = (ev, c')" by (cases "evict_to_capacity ?c")
    have step: "evict_to_capacity c = ((fst e, cv_value (snd e)) # ev, c')"
      using True e(1) ev by (simp add: evict_to_capacity.simps[of c])
    have IH: "(ev, recency c') = recency_limit (lru_capacity c) (recency ?c) \<and>
        length (lru_entries c') = min (lru_capacity c) (length t) \<and>
        set (lru_entries c') \<subseteq> set (lru_entries ?c) \<and>
        distinct (map fst (lru_entries c')) \<and> distinct (map last_used (lru_entries c')) \<and>
        lru_capacity c' = lru_capacity c \<and> lru_clock c' = lru_clock c"
      using 1(1)[OF True e(1)] 1(2,3) ev len(1) by (simp add: d distinct_map_filter)
    have sub: "set (lru_entries ?c) \<subseteq> set ?es" by (auto simp: d)
    have "Suc (length t) - lru_capacity c = Suc (length t - lru_capacity c)" "lru_capacity c \<le> length t"
      using True len(2) by auto
    then show ?thesis
      using IH sub True len rec by (auto simp: step recency_limit_def)
  qed
qed

lemma lru_insert_refines:
  assumes "lru_inv c"
  shows "fst (lru_insert c k v) = fst (recency_insert (lru_capacity c) (recency c) k v)"
    "recency (snd (lru_insert c k v)) = snd (recency_insert (lru_capacity c) (recency c) k v)"
    "lru_inv (snd (lru_insert c k v))"  "lru_capacity (snd (lru_insert c k v)) = lru_capacity c"
proof -
  obtain s c' where n: "next_sequence c = (s, c')" by (cases "next_sequence c")
  note spec = next_sequence_spec[OF assms n]
  have inv: "distinct (map fst (lru_entries c'))" "distinct (map last_used (lru_entries c'))"
    using spec by (auto simp: lru_inv_def)
  let ?v = "\<lparr>cv_value = v, cv_last_used = s\<rparr>"
  let ?c = "c'\<lparr>lru_entries := AList.update k ?v (lru_entries c')\<rparr>"
  have u: "\<forall>e \<in> set (lru_entries c'). last_used e < last_used (k, ?v)"
    using spec by (simp add: last_used_def)
  note b = by_use_update[OF inv u]
  have sub: "set (lru_entries ?c) \<subseteq> insert (k, ?v) (set (lru_entries c'))"
    using mset_update[OF inv(1), of k ?v]
    by (simp, metis filter_is_subset insert_mono set_mset_add_mset_insert set_mset_mset)
  have rec: "recency ?c = filter (\<lambda>e. fst e \<noteq> k) (recency c) @ [(k, v)]"
    using b(1) recency_without[of k c'] spec by (simp add: recency_def)
  have ins: "lru_insert c k v = evict_to_capacity ?c" using n by (simp add: lru_insert_def)
  have d: "distinct (map fst (lru_entries ?c))" "distinct (map last_used (lru_entries ?c))"
    using inv(1) b(2) by (simp_all add: distinct_update)
  note ev = evict_refines[OF d, folded ins]
  have used: "last_used e \<le> s" if "e \<in> set (lru_entries (snd (lru_insert c k v)))" for e
  proof -
    have "e = (k, ?v) \<or> e \<in> set (lru_entries c')" using ev sub that by auto
    then show ?thesis using spec by (auto simp: last_used_def intro: less_imp_le)
  qed
  show "fst (lru_insert c k v) = fst (recency_insert (lru_capacity c) (recency c) k v)"
    "recency (snd (lru_insert c k v)) = snd (recency_insert (lru_capacity c) (recency c) k v)"
    using ev rec spec by (simp_all add: recency_insert_def recency_limit_def)
  show "lru_capacity (snd (lru_insert c k v)) = lru_capacity c" using ev spec by simp
  show "lru_inv (snd (lru_insert c k v))" using ev used spec by (simp add: lru_inv_def)
qed

lemma lru_set_capacity_refines:
  assumes "lru_inv c" "0 < n" "n < 2 ^ 64 - 1"
  shows "\<exists>evicted c'. lru_set_capacity c n = Inr (evicted, c') \<and> lru_inv c' \<and>
    (evicted, recency c') = recency_limit n (recency c)"
proof -
  let ?c = "c\<lparr>lru_capacity := n\<rparr>"
  have d: "distinct (map fst (lru_entries ?c))" "distinct (map last_used (lru_entries ?c))"
    using assms(1) by (auto simp: lru_inv_def)
  obtain ev c' where e: "evict_to_capacity ?c = (ev, c')" by (cases "evict_to_capacity ?c")
  have "recency ?c = recency c" by (simp add: recency_def)
  then show ?thesis
    using evict_refines[OF d] e assms by (auto simp: lru_set_capacity_def lru_inv_def)
qed

end
