(* ===== verification/Cache_Guarantees.thy ===== *)
theory Cache_Guarantees
  imports Dataflow_Cache
begin

text \<open>
  What the cache of loaded dataflows guarantees (\<open>src/runtime/scheduler.rs\<close>): it behaves as the
  list of its entries in order of recency, whatever the clock does, and after any accesses it
  holds the dataflows used last.
\<close>

section \<open>The interface of a recency cache\<close>

locale recency_cache =
  fixes inv :: "'c \<Rightarrow> bool"
    and recent :: "'c \<Rightarrow> ('k \<times> 'v) list"
    and capacity :: "'c \<Rightarrow> nat"
    and get :: "'c \<Rightarrow> 'k \<Rightarrow> 'v option \<times> 'c"
    and put :: "'c \<Rightarrow> 'k \<Rightarrow> 'v \<Rightarrow> ('k \<times> 'v) list \<times> 'c"
  assumes get_law: "inv c \<Longrightarrow> fst (get c k) = fst (recency_get (recent c) k) \<and>
      recent (snd (get c k)) = snd (recency_get (recent c) k) \<and>
      inv (snd (get c k)) \<and> capacity (snd (get c k)) = capacity c"
    and put_law: "inv c \<Longrightarrow> fst (put c k v) = fst (recency_insert (capacity c) (recent c) k v) \<and>
      recent (snd (put c k v)) = snd (recency_insert (capacity c) (recent c) k v) \<and>
      inv (snd (put c k v)) \<and> capacity (snd (put c k v)) = capacity c"
    and inv_law: "inv c \<Longrightarrow> distinct (map fst (recent c)) \<and> length (recent c) \<le> capacity c \<and> 0 < capacity c"
begin

text \<open>One access: the value when it is there, a loaded value otherwise; then a use.\<close>

definition access :: "('k \<Rightarrow> 'v) \<Rightarrow> 'c \<Rightarrow> 'k \<Rightarrow> 'v option \<times> 'c" where
  "access load c k =
     get (if k \<in> fst ` set (recent c) then c else snd (put c k (load k))) k"

lemma put_without:
  "recency_insert n xs k v =
     recency_limit n (filter (\<lambda>e. fst e \<noteq> k) xs @ [(k, v)])"
  by (simp add: recency_insert_def)

lemma access_recent:
  assumes "inv c"
  shows "inv (snd (access load c k))" "capacity (snd (access load c k)) = capacity c"
    "map fst (recent (snd (access load c k))) =
       (let ks = filter (\<lambda>x. x \<noteq> k) (map fst (recent c)) @ [k]
        in drop (length ks - capacity c) ks)"
    "fst (access load c k) \<noteq> None"
proof -
  define m where "m = (if k \<in> fst ` set (recent c) then c else snd (put c k (load k)))"
  have acc: "access load c k = get m k" by (simp add: access_def m_def)
  note c = inv_law[OF assms]
  have m: "inv m" "capacity m = capacity c" using assms put_law[OF assms] by (auto simp: m_def)
  show "inv (snd (access load c k))" "capacity (snd (access load c k)) = capacity c"
    using get_law[OF m(1)] m acc by simp_all
  have "k \<in> fst ` set (recent m) \<and>
    filter (\<lambda>x. x \<noteq> k) (map fst (recent m)) @ [k] =
      (let ks = filter (\<lambda>x. x \<noteq> k) (map fst (recent c)) @ [k]
       in drop (length ks - capacity c) ks)"
  proof (cases "k \<in> fst ` set (recent c)")
    case True
    then have "length (filter (\<lambda>x. x \<noteq> k) (map fst (recent c))) < length (recent c)"
      using length_filter_less[of k "map fst (recent c)" "\<lambda>x. x \<noteq> k"] by simp
    then show ?thesis using True c by (simp add: m_def Let_def)
  next
    case False
    then have f: "filter (\<lambda>e. fst e \<noteq> k) (recent c) = recent c"
      "filter (\<lambda>x. x \<noteq> k) (map fst (recent c)) = map fst (recent c)"
      by (auto simp: filter_id_conv image_iff)
    have r: "recent m = drop (Suc (length (recent c)) - capacity c) (recent c @ [(k, load k)])"
      using put_law[OF assms, of k "load k"] False f(1)
      by (simp add: m_def recency_insert_def recency_limit_def)
    have le: "Suc (length (recent c)) - capacity c \<le> length (recent c)" using c by linarith
    have "k \<notin> set (map fst (drop (Suc (length (recent c)) - capacity c) (recent c)))"
      using False by (auto dest: in_set_dropD)
    then have "filter (\<lambda>x. x \<noteq> k) (map fst (drop (Suc (length (recent c)) - capacity c) (recent c)))
        = map fst (drop (Suc (length (recent c)) - capacity c) (recent c))"
      by (simp only: filter_id_conv) blast
    then show ?thesis using r le f(2) by (simp add: Let_def drop_map)
  qed
  then obtain v where v: "map_of (recent m) k = Some v"
      "filter (\<lambda>x. x \<noteq> k) (map fst (recent m)) @ [k] =
      (let ks = filter (\<lambda>x. x \<noteq> k) (map fst (recent c)) @ [k]
       in drop (length ks - capacity c) ks)"
    by (metis domIff dom_map_of_conv_image_fst option.exhaust_sel)
  show "map fst (recent (snd (access load c k))) =
       (let ks = filter (\<lambda>x. x \<noteq> k) (map fst (recent c)) @ [k]
        in drop (length ks - capacity c) ks)"
    "fst (access load c k) \<noteq> None"
    using get_law[OF m(1), of k] v acc by (simp_all add: recency_get_def filter_map o_def)
qed

text \<open>The keys of the cache are the last distinct keys that were accessed.\<close>

lemma remdups_snoc: "remdups (ks @ [k]) = filter (\<lambda>x. x \<noteq> k) (remdups ks) @ [k]"
  by (induction ks) auto

lemma recent_suffix:
  assumes "distinct xs" "0 < n"
  shows "(let ys = filter (\<lambda>x. x \<noteq> k) (drop (length xs - n) xs) @ [k] in drop (length ys - n) ys) =
    (let ys = filter (\<lambda>x. x \<noteq> k) xs @ [k] in drop (length ys - n) ys)"
proof -
  let ?P = "take (length xs - n) xs" and ?S = "drop (length xs - n) xs"
  have xs: "xs = ?P @ ?S" by simp
  have S: "length ?S \<le> n" by simp
  have fx: "filter (\<lambda>x. x \<noteq> k) xs = filter (\<lambda>x. x \<noteq> k) ?P @ filter (\<lambda>x. x \<noteq> k) ?S"
    by (metis filter_append xs)
  have disj: "set ?P \<inter> set ?S = {}" using assms(1) by (metis distinct_append xs)
  show ?thesis
  proof (cases "k \<in> set ?S")
    case True
    then have "filter (\<lambda>x. x \<noteq> k) ?P = ?P" using disj by (auto simp: filter_id_conv)
    moreover have "length (filter (\<lambda>x. x \<noteq> k) ?S) < length ?S"
      using True length_filter_less[of k ?S "\<lambda>x. x \<noteq> k"] by simp
    moreover have "Suc (length (filter (\<lambda>x. x \<noteq> k) ?S)) = length ?S"
    proof -
      have "{x. x = k} \<inter> set ?S = {k}" using True by auto
      then have "length (filter (\<lambda>x. x = k) ?S) = 1"
        using assms(1) by (simp add: distinct_length_filter)
      then show ?thesis using sum_length_filter_compl[of "\<lambda>x. x = k" ?S] by simp
    qed
    ultimately show ?thesis using fx S by (simp add: Let_def)
  next
    case False
    then have f: "filter (\<lambda>x. x \<noteq> k) ?S = ?S" by (auto simp: filter_id_conv)
    show ?thesis
    proof (cases "?P = []")
      case True
      then have "?S = xs" using xs by (metis append_Nil)
      then show ?thesis by (simp only:)
    next
      case P: False
      then have "length ?S = n" by auto
      then show ?thesis using fx f assms(2) by (simp add: Let_def)
    qed
  qed
qed

lemma accesses_recent:
  assumes "inv c" "recent c = []"
  shows "inv (fold (\<lambda>k c. snd (access load c k)) ks c) \<and>
    capacity (fold (\<lambda>k c. snd (access load c k)) ks c) = capacity c \<and>
    map fst (recent (fold (\<lambda>k c. snd (access load c k)) ks c)) =
      drop (length (remdups ks) - capacity c) (remdups ks)"
proof (induction ks rule: rev_induct)
  case (snoc k ks)
  let ?c = "fold (\<lambda>k c. snd (access load c k)) ks c"
  have inv: "inv ?c" using snoc by simp
  have "0 < capacity c" using inv_law[OF assms(1)] by simp
  then show ?case
    using snoc access_recent[OF inv, of load k] recent_suffix[of "remdups ks" "capacity c" k]
    by (simp add: remdups_snoc)
qed (use assms in simp)

end

section \<open>The cache of the runtime\<close>

lemma lru_inv_recency:
  "lru_inv c \<Longrightarrow> distinct (map fst (recency c)) \<and> length (recency c) \<le> lru_capacity c \<and> 0 < lru_capacity c"
  using recency_keys(2)[of c]
  by (auto simp: lru_inv_def recency_def distinct_map o_def inj_on_def)

interpretation lru_cache: recency_cache lru_inv recency lru_capacity lru_get lru_insert
  by unfold_locales (simp_all add: lru_get_refines lru_insert_refines lru_inv_recency)

text \<open>\<open>get_or_load\<close>, for a loader of dataflows.\<close>

definition get_or_load :: "('k \<Rightarrow> 'v result) \<Rightarrow> ('k, 'v) lru \<Rightarrow> 'k \<Rightarrow> ('v option \<times> ('k, 'v) lru) result" where
  "get_or_load load c k =
     bind_res
       (if lru_contains_key c k then Inr c
        else bind_res (load k) (\<lambda>v. Inr (snd (lru_insert c k v)))) (\<lambda>c'.
     Inr (lru_get c' k))"

fun accesses :: "('k \<Rightarrow> 'v result) \<Rightarrow> ('k, 'v) lru \<Rightarrow> 'k list \<Rightarrow> ('k, 'v) lru result" where
  "accesses load c [] = Inr c"
| "accesses load c (k # ks) = bind_res (get_or_load load c k) (\<lambda>(v, c'). accesses load c' ks)"

lemma contains_recency: "lru_contains_key c k \<longleftrightarrow> k \<in> fst ` set (recency c)"
  by (simp add: lru_contains_key_def recency_keys map_of_eq_None_iff)

lemma get_or_load_access:
  "get_or_load (\<lambda>k. Inr (value_of k)) c k = Inr (lru_cache.access value_of c k)"
  by (simp add: get_or_load_def lru_cache.access_def contains_recency)

lemma accesses_fold:
  "accesses (\<lambda>k. Inr (value_of k)) c ks
     = Inr (fold (\<lambda>k c. snd (lru_cache.access value_of c k)) ks c)"
  by (induction ks arbitrary: c) (simp_all add: get_or_load_access split_beta)

text \<open>
  C25: The cache implements a list in order of recency.  A lookup moves its entry to the end, an
  insertion puts its entry there and evicts from the front what exceeds the capacity, a removal
  and a change of the capacity do the same on the list; the 64 bit clock, its renumbering at the
  largest value included, is not observable.\<close>

theorem lru_refines_recency:
  assumes "lru_inv c"
  shows "(fst (lru_get c k), recency (snd (lru_get c k))) = recency_get (recency c) k \<and>
    (fst (lru_insert c k v), recency (snd (lru_insert c k v)))
      = recency_insert (lru_capacity c) (recency c) k v \<and>
    (fst (lru_remove c k), recency (snd (lru_remove c k)))
      = (map_of (recency c) k, filter (\<lambda>e. fst e \<noteq> k) (recency c)) \<and>
    (0 < n \<and> n < 2 ^ 64 - 1 \<longrightarrow> (\<exists>evicted c'. lru_set_capacity c n = Inr (evicted, c') \<and>
       lru_inv c' \<and> (evicted, recency c') = recency_limit n (recency c))) \<and>
    lru_inv (snd (lru_get c k)) \<and> lru_inv (snd (lru_insert c k v)) \<and> lru_inv (snd (lru_remove c k))"
  using lru_get_refines[OF assms] lru_insert_refines[OF assms] lru_remove_refines[OF assms]
    lru_set_capacity_refines[OF assms] by (simp add: prod_eq_iff)

text \<open>
  After any sequence of accesses to a new cache of capacity \<open>n\<close>, the dataflows in it are
  exactly the last \<open>n\<close> distinct ones accessed, the least recently used first.\<close>

theorem lru_keeps_recent:
  assumes "lru_new n = Inr c" "n < 2 ^ 64 - 1"
  shows "\<exists>c'. accesses (\<lambda>k. Inr (value_of k)) c ks = Inr c' \<and>
    map fst (recency c') = drop (length (remdups ks) - n) (remdups ks)"
proof -
  have "lru_inv c" "recency c = []" "lru_capacity c = n"
    using assms by (auto simp: lru_new_def lru_inv_def recency_def split: if_splits)
  then show ?thesis
    using lru_cache.accesses_recent[of c value_of ks] by (simp add: accesses_fold)
qed

text \<open>A cache whose clock is about to wrap.\<close>

definition cw_cache :: "(nat, string) lru" where
  "cw_cache =
     \<lparr>lru_entries = [(7, \<lparr>cv_value = ''b'', cv_last_used = 90\<rparr>), (5, \<lparr>cv_value = ''a'', cv_last_used = 40\<rparr>)],
      lru_capacity = 2, lru_clock = - 1\<rparr>"

theorem lru_refines_recency_witness:
  "recency (snd (lru_insert cw_cache 9 ''c'')) = [(7, ''b''), (9, ''c'')] \<and>
   fst (lru_insert cw_cache 9 ''c'') = [(5, ''a'')]"
proof -
  have "recency cw_cache = [(5, ''a''), (7, ''b'')]"
    by (simp add: recency_def cw_cache_def last_used_def)
  moreover have "lru_inv cw_cache" by (simp add: lru_inv_def cw_cache_def last_used_def)
  ultimately show ?thesis
    using lru_refines_recency[of cw_cache 9 "''c''" 1]
    by (simp add: recency_insert_def recency_limit_def cw_cache_def)
qed

theorem lru_keeps_recent_witness:
  "\<exists>c'. accesses (\<lambda>k. Inr (k * 10)) \<lparr>lru_entries = [], lru_capacity = 2, lru_clock = 0\<rparr> [1, 2, 1, 3 :: nat] = Inr c' \<and>
    map fst (recency c') = [1, 3]"
  using lru_keeps_recent[of 2 "\<lparr>lru_entries = [], lru_capacity = 2, lru_clock = 0\<rparr>" "\<lambda>k. k * 10" "[1, 2, 1, 3 :: nat]"]
  by (simp add: lru_new_def)

end
