(* ===== verification/Scheduler.thy ===== *)
theory Scheduler
  imports Loaded_Dataflow Cache_Guarantees
begin

text \<open>
  The operator scheduler (\<open>src/runtime/scheduler.rs\<close>): which results and which stages are ready,
  in which order a round attempts them, and one attempt.  What PostgreSQL answers is a field of
  the record \<open>scheduler_env\<close>, a function of the database; a query with \<open>ORDER BY\<close> and \<open>LIMIT\<close>
  is written out over the rows that satisfy its predicate.
\<close>

section \<open>Readiness\<close>

type_synonym result_oid = "32 word"

text \<open>
  \<open>DURABLE_STAGE_READY\<close> for one checkpoint: its continuation flag, the rows of its consumers
  with their streams, and the flag of its output stream, if it has one.
\<close>

definition consumer_ready :: "input_state \<Rightarrow> bool" where
  "consumer_ready i \<longleftrightarrow>
     is_next i < is_available i
     \<or> (is_producer i = Source
        \<and> (case is_source_frontier i of None \<Rightarrow> False | Some l \<Rightarrow> is_consumed i < l))"

definition durable_stage_ready :: "bool \<Rightarrow> input_state list \<Rightarrow> bool option \<Rightarrow> bool" where
  "durable_stage_ready continued inputs backpressured \<longleftrightarrow>
     (continued \<or> list_ex consumer_ready inputs) \<and> backpressured \<noteq> Some True"

definition first_row :: "'a::linorder list \<Rightarrow> 'a option" where
  "first_row rows = (case sort rows of [] \<Rightarrow> None | x # _ \<Rightarrow> Some x)"

definition next_ready_stage_in_range :: "nat list \<Rightarrow> nat option \<Rightarrow> bool \<Rightarrow> nat option" where
  "next_ready_stage_in_range ready cursor after_cursor =
     first_row
       (case cursor of
          None \<Rightarrow> ready
        | Some c \<Rightarrow> filter (\<lambda>stage. if after_cursor then c < stage else stage \<le> c) ready)"

definition next_ready_stage :: "nat list \<Rightarrow> nat option \<Rightarrow> nat option" where
  "next_ready_stage ready cursor =
     (case next_ready_stage_in_range ready cursor True of
        Some stage \<Rightarrow> Some stage
      | None \<Rightarrow>
          (case cursor of
             None \<Rightarrow> None
           | Some c \<Rightarrow> next_ready_stage_in_range ready (Some c) False))"

definition operator_max_steps_per_round :: nat where "operator_max_steps_per_round = 64"

definition operator_time_budget :: nat where "operator_time_budget = 50"

definition operator_max_transitions_per_transaction :: nat where
  "operator_max_transitions_per_transaction = 64"

definition ready_result_oids_in_range ::
    "result_oid list \<Rightarrow> result_oid option \<Rightarrow> bool \<Rightarrow> nat \<Rightarrow> result_oid list" where
  "ready_result_oids_in_range ready cursor after_cursor limit =
     take limit (sort
       (case cursor of
          None \<Rightarrow> ready
        | Some c \<Rightarrow> filter (\<lambda>oid. if after_cursor then c < oid else oid \<le> c) ready))"

definition ready_result_oids :: "result_oid list \<Rightarrow> result_oid option \<Rightarrow> result_oid list" where
  "ready_result_oids ready cursor =
     (let after = ready_result_oids_in_range ready cursor True operator_max_steps_per_round in
      if cursor \<noteq> None \<and> length after < operator_max_steps_per_round
      then after @ ready_result_oids_in_range ready cursor False
                     (operator_max_steps_per_round - length after)
      else after)"

section \<open>The order of a round\<close>

text \<open>
  \<open>partition_point\<close> is a binary search whose probes the library does not specify: \<open>probe lo hi\<close>
  chooses an offset into the range that is left.
\<close>

function partition_search ::
    "(nat \<Rightarrow> nat \<Rightarrow> nat) \<Rightarrow> (nat \<Rightarrow> bool) \<Rightarrow> nat \<Rightarrow> nat \<Rightarrow> nat" where
  "partition_search probe holds lo hi =
     (if lo < hi
      then
        let mid = lo + probe lo hi mod (hi - lo)
        in if holds mid then partition_search probe holds (mid + 1) hi
           else partition_search probe holds lo mid
      else lo)"
  by pat_completeness auto
termination
proof (relation "measure (\<lambda>(probe, holds, lo, hi). hi - lo)")
  fix probe :: "nat \<Rightarrow> nat \<Rightarrow> nat" and holds :: "nat \<Rightarrow> bool" and lo hi mid :: nat
  assume "lo < hi" "mid = lo + probe lo hi mod (hi - lo)"
  moreover from \<open>lo < hi\<close> have "probe lo hi mod (hi - lo) < hi - lo" by simp
  ultimately have mid: "lo \<le> mid" "mid < hi" by linarith+
  then show "((probe, holds, mid + 1, hi), probe, holds, lo, hi)
      \<in> measure (\<lambda>(probe, holds, lo, hi). hi - lo)"
    "((probe, holds, lo, mid), probe, holds, lo, hi)
      \<in> measure (\<lambda>(probe, holds, lo, hi). hi - lo)"
    using \<open>lo < hi\<close> by auto
qed simp

declare partition_search.simps [simp del]

definition rotate_after_cursor ::
    "(nat \<Rightarrow> nat \<Rightarrow> nat) \<Rightarrow> result_oid list \<Rightarrow> result_oid option \<Rightarrow> result_oid list" where
  "rotate_after_cursor probe oids cursor =
     (case cursor of
        None \<Rightarrow> oids
      | Some c \<Rightarrow>
          let split = partition_search probe (\<lambda>i. oids ! i \<le> c) 0 (length oids)
          in drop split oids @ take split oids)"

definition drain_has_capacity :: "nat \<Rightarrow> nat \<Rightarrow> nat \<Rightarrow> nat \<Rightarrow> bool" where
  "drain_has_capacity processed elapsed max_items time_budget \<longleftrightarrow>
     processed < max_items \<and> elapsed < time_budget"

text \<open>
  The loop of \<open>step_ready_operators_bounded\<close>.  The clock gives the milliseconds that have
  elapsed at the check before each attempt, and whether the latch or a signal stops the runtime
  there.  The state carries the results attempted so far; their number is the counter of the
  code.  \<open>None\<close> makes the caller leave its loop.
\<close>

record round_clock =
  rc_elapsed :: "nat \<Rightarrow> nat"
  rc_stop :: "nat \<Rightarrow> bool"

record 's drain =
  dr_attempted :: "result_oid list"
  dr_cursor :: "result_oid option"
  dr_worked :: nat
  dr_state :: 's

type_synonym 's stepper = "result_oid \<Rightarrow> 's \<Rightarrow> (((step_outcome \<times> bool) \<times> 's) option) result"

function drain_loop ::
    "'s stepper \<Rightarrow> round_clock \<Rightarrow> result_oid list \<Rightarrow> 's drain \<Rightarrow> ('s drain option) result" where
  "drain_loop step clock queue d =
     (if drain_has_capacity (length (dr_attempted d)) (rc_elapsed clock (length (dr_attempted d)))
           operator_max_steps_per_round operator_time_budget
      then
        case queue of
          [] \<Rightarrow> Inr (Some d)
        | oid # rest \<Rightarrow>
            if rc_stop clock (length (dr_attempted d)) then Inr None
            else
              bind_res (step oid (dr_state d)) (\<lambda>stepped.
              case stepped of
                None \<Rightarrow> Inr None
              | Some ((outcome, has_more), s) \<Rightarrow>
                  drain_loop step clock (if has_more then rest @ [oid] else rest)
                    \<lparr>dr_attempted = dr_attempted d @ [oid], dr_cursor = Some oid,
                     dr_worked =
                       (if outcome = Progress \<or> outcome = Yield then dr_worked d + 1
                        else dr_worked d),
                     dr_state = s\<rparr>)
      else Inr (Some d))"
  by pat_completeness auto
termination
  by (relation "measure (\<lambda>(step, clock, queue, d).
        operator_max_steps_per_round - length (dr_attempted d))")
    (auto simp: drain_has_capacity_def)

declare drain_loop.simps [simp del]

definition step_ready_operators_bounded ::
    "(nat \<Rightarrow> nat \<Rightarrow> nat) \<Rightarrow> 's stepper \<Rightarrow> round_clock \<Rightarrow> result_oid option \<Rightarrow> result_oid list \<Rightarrow> 's
     \<Rightarrow> ('s drain option) result" where
  "step_ready_operators_bounded probe step clock cursor ready s =
     drain_loop step clock (rotate_after_cursor probe ready cursor)
       \<lparr>dr_attempted = [], dr_cursor = cursor, dr_worked = 0, dr_state = s\<rparr>"

section \<open>One attempt\<close>

record 'db scheduler_env =
  en_runtime_active :: "'db \<Rightarrow> bool"
  en_try_lock :: "'db \<Rightarrow> result_oid \<Rightarrow> bool"
  en_dataflow_active :: "'db \<Rightarrow> result_oid \<Rightarrow> bool"
  en_load :: "'db \<Rightarrow> result_oid \<Rightarrow> loaded_dataflow result"
  en_ready_stages :: "'db \<Rightarrow> result_oid \<Rightarrow> nat list"
  en_executor :: "result_oid \<Rightarrow> nat \<Rightarrow> 'db executor"
  en_budget :: work_budget

type_synonym 'db runner_state = "(result_oid, loaded_dataflow) lru \<times> 'db"

definition step_stage ::
    "'db scheduler_env \<Rightarrow> result_oid \<Rightarrow> 'db runner_state \<Rightarrow> (operator_step option \<times> 'db runner_state) result"
where
  "step_stage env oid s =
     bind_res (map_err (\<lambda>e. ''Shiba could not load a dataflow from durable operator state: '' @ e)
                 (get_or_load (en_load env (snd s)) (fst s) oid)) (\<lambda>(cached, cache).
     case cached of
       None \<Rightarrow> Inr (None, cache, snd s)
     | Some dataflow \<Rightarrow>
         (case next_ready_stage (en_ready_stages env (snd s) oid) (ld_stage_cursor dataflow) of
            None \<Rightarrow> Inr (None, cache, snd s)
          | Some stage \<Rightarrow>
              (case lru_get cache oid of
                 (None, cache') \<Rightarrow> Inl ''Shiba loaded-dataflow cache lost an active dataflow''
               | (Some dataflow', cache') \<Rightarrow>
                   bind_res (map_err (\<lambda>e. ''Shiba operator transaction quantum did not complete: '' @ e)
                       (step_quantum dataflow' stage (en_budget env)
                          operator_max_transitions_per_transaction (en_executor env oid) (snd s)))
                     (\<lambda>(step, dataflow'', db).
                   Inr (Some step,
                        cache'\<lparr>lru_entries :=
                          map (\<lambda>(k, v). (k, if k = oid then v\<lparr>cv_value := dataflow''\<rparr> else v))
                            (lru_entries cache')\<rparr>, db)))))"

definition step_one_operator :: "'db scheduler_env \<Rightarrow> 'db runner_state stepper" where
  "step_one_operator env oid s =
     (if \<not> en_runtime_active env (snd s) then Inr None
      else if \<not> en_try_lock env (snd s) oid then Inr (Some ((Idle, False), s))
      else if \<not> en_dataflow_active env (snd s) oid
      then Inr (Some ((Idle, False), snd (lru_remove (fst s) oid), snd s))
      else
        bind_res (step_stage env oid s) (\<lambda>(step, cache, db).
        let (cached, cache') = lru_get cache oid;
            has_more = next_ready_stage (en_ready_stages env db oid)
                         (case cached of None \<Rightarrow> None | Some d \<Rightarrow> ld_stage_cursor d) \<noteq> None
        in Inr (Some ((case step of None \<Rightarrow> Idle | Some x \<Rightarrow> op_outcome x, has_more), cache', db))))"

end
