(* ===== verification/Scheduler_Guarantees.thy ===== *)
theory Scheduler_Guarantees
  imports Scheduler
begin

text \<open>
  What the operator scheduler guarantees (\<open>src/runtime/scheduler.rs\<close>): its readiness predicate is
  the one of the step it runs, a round attempts the ready results in cyclic order after the
  last one attempted, and no ready result starves.
\<close>

section \<open>Readiness\<close>

lemma consumer_ready_pending:
  "(is_producer i = Operator \<longrightarrow> is_source_frontier i = None) \<Longrightarrow> consumer_ready i = has_pending i"
  by (cases "is_producer i") (auto simp: consumer_ready_def has_pending_def)

lemma durable_stage_ready_pending:
  assumes "list_all (\<lambda>i. is_producer i = Operator \<longrightarrow> is_source_frontier i = None) inputs"
  shows "durable_stage_ready had inputs blocked \<longleftrightarrow> (had \<or> list_ex has_pending inputs) \<and> blocked \<noteq> Some True"
proof -
  have "list_ex consumer_ready inputs = list_ex has_pending inputs"
    using assms by (induction inputs) (auto simp: consumer_ready_pending)
  then show ?thesis by (simp add: durable_stage_ready_def)
qed

definition output_blocked :: "begin_rows \<Rightarrow> bool \<Rightarrow> bool option" where
  "output_blocked q expects_output =
     (if expects_output then (case br_outputs q of [r] \<Rightarrow> or_backpressured r | _ \<Rightarrow> None) else None)"

lemma begin_output_blocked:
  assumes "begin_output q ex = Inr out"
  shows "out = None \<longleftrightarrow> output_blocked q ex = Some True"
proof (cases ex)
  case False
  then show ?thesis using assms by (auto simp: begin_output_def output_blocked_def)
next
  case True
  then obtain r where r: "br_outputs q = [r]"
    using assms by (auto simp: begin_output_def split: list.splits)
  then obtain b where b: "or_backpressured r = Some b"
    using assms True by (auto simp: begin_output_def res_simps required_def split: option.splits)
  then show ?thesis
    using assms True r by (cases b) (auto simp: begin_output_def output_blocked_def res_simps required_def)
qed

lemma list_ex_sort: "list_ex P (sort_key f xs) = list_ex P xs"
  by (simp add: list_ex_iff)

text \<open>
  C11: The scheduler and the step agree on readiness.  Over the rows that \<open>begin\<close> reads, where only
  a source stream has a published frontier, the step context is ready exactly when the durable
  predicate holds of the stage: a stage that the scheduler selects is neither idle nor blocked.\<close>

theorem readiness_exact:
  assumes "step_begin q oid stage n ex b = Inr start" "br_active q" "br_checkpoints q = [cp]"
    "cr_has_continuation cp = Some had" "inputs_of_rows (br_inputs q) = Inr inputs"
    "list_all (\<lambda>i. is_producer i = Operator \<longrightarrow> is_source_frontier i = None) inputs"
  shows "(\<exists>c. start = StartReady c) \<longleftrightarrow> durable_stage_ready had inputs (output_blocked q ex)"
proof -
  obtain out where out: "begin_output q ex = Inr out"
    using assms(1-5) unfolding step_begin_def Let_def
    by (auto simp: res_simps required_def split: if_splits)
  note start = assms(1-5) out
  show ?thesis
    unfolding durable_stage_ready_pending[OF assms(6)] begin_output_blocked[OF out, symmetric]
  proof (cases out)
    case None
    then have "start = StartBlocked"
      using start by (auto simp: step_begin_def res_simps required_def Let_def split: if_splits)
    then show "(\<exists>c. start = StartReady c) \<longleftrightarrow> (had \<or> list_ex has_pending inputs) \<and> out \<noteq> None"
      using None by simp
  next
    case (Some os)
    then have "(\<exists>c. start = StartReady c) \<longleftrightarrow> had \<or> list_ex has_pending inputs"
      using start
      by (auto simp: step_begin_def res_simps required_def Let_def list_ex_sort split: if_splits)
    then show "(\<exists>c. start = StartReady c) \<longleftrightarrow> (had \<or> list_ex has_pending inputs) \<and> out \<noteq> None"
      using Some by simp
  qed
qed

section \<open>The order of a round\<close>

definition cyclic_after :: "result_oid list \<Rightarrow> result_oid option \<Rightarrow> result_oid list" where
  "cyclic_after ready cursor =
     (case cursor of
        None \<Rightarrow> sort ready
      | Some c \<Rightarrow> sort (filter (\<lambda>oid. c < oid) ready) @ sort (filter (\<lambda>oid. oid \<le> c) ready))"

lemma partition_search_all:
  "(\<And>i. lo \<le> i \<Longrightarrow> i < hi \<Longrightarrow> holds i = b) \<Longrightarrow> lo \<le> hi \<Longrightarrow>
     partition_search probe holds lo hi = (if b then hi else lo)"
proof (induction probe holds lo hi rule: partition_search.induct)
  case (1 probe holds lo hi)
  show ?case
  proof (cases "lo < hi")
    case False
    then show ?thesis using 1(4) by (subst partition_search.simps) simp
  next
    case True
    let ?mid = "lo + probe lo hi mod (hi - lo)"
    have mid: "lo \<le> ?mid" "?mid < hi"
      using True mod_less_divisor[of "hi - lo" "probe lo hi"] by linarith+
    show ?thesis
      using True 1 mid by (cases b) (auto simp: partition_search.simps[of probe holds lo hi] Let_def)
  qed
qed

text \<open>On a list whose \<open>true\<close> positions are a suffix, the search returns one of its ends.\<close>

lemma partition_search_suffix:
  assumes "\<And>i j. lo \<le> i \<Longrightarrow> i \<le> j \<Longrightarrow> j < hi \<Longrightarrow> holds i \<Longrightarrow> holds j" "lo \<le> hi"
  shows "partition_search probe holds lo hi \<in> {lo, hi}"
proof (cases "lo < hi")
  case False
  then show ?thesis using assms(2) by (subst partition_search.simps) simp
next
  case True
  let ?mid = "lo + probe lo hi mod (hi - lo)"
  have mid: "lo \<le> ?mid" "?mid < hi"
    using True mod_less_divisor[of "hi - lo" "probe lo hi"] by linarith+
  show ?thesis
  proof (cases "holds ?mid")
    case holds: True
    have "partition_search probe holds (?mid + 1) hi = (if True then hi else ?mid + 1)"
      using assms(1)[of ?mid] mid holds by (intro partition_search_all) auto
    then show ?thesis
      using True holds by (simp add: partition_search.simps[of probe holds lo hi] Let_def)
  next
    case False
    have "partition_search probe holds lo ?mid = (if False then ?mid else lo)"
      using assms(1) mid False by (intro partition_search_all) (meson less_imp_le order_trans)+
    then show ?thesis
      using True False by (simp add: partition_search.simps[of probe holds lo hi] Let_def)
  qed
qed

lemma rotate_ends:
  "partition_search probe (\<lambda>i. xs ! i \<le> c) 0 (length xs) \<in> {0, length xs} \<Longrightarrow>
     rotate_after_cursor probe xs (Some c) = xs"
  by (auto simp: rotate_after_cursor_def)

lemma rotate_cyclic:
  "rotate_after_cursor probe (take n (cyclic_after ready cursor)) cursor = take n (cyclic_after ready cursor)"
proof (cases cursor)
  case None
  then show ?thesis by (simp add: rotate_after_cursor_def)
next
  case (Some c)
  let ?A = "sort (filter (\<lambda>oid. c < oid) ready)" and ?B = "sort (filter (\<lambda>oid. oid \<le> c) ready)"
  let ?xs = "take n (?A @ ?B)"
  have nth: "?xs ! i = (?A @ ?B) ! i" if "i < length ?xs" for i
    using that by (intro nth_take) simp
  have "?xs ! i \<le> c \<longleftrightarrow> length ?A \<le> i" if "i < length ?xs" for i
  proof (cases "i < length ?A")
    case True
    then have "?xs ! i \<in> set ?A"
      using that nth_mem[of i ?A] nth[OF that] by (simp add: nth_append)
    then show ?thesis using True by (simp add: not_le)
  next
    case False
    then have "?xs ! i \<in> set ?B"
      using that nth_mem[of "i - length ?A" ?B] nth[OF that] by (simp add: nth_append)
    then show ?thesis using False by (simp add: not_less)
  qed
  then have "partition_search probe (\<lambda>i. ?xs ! i \<le> c) 0 (length ?xs) \<in> {0, length ?xs}"
    by (intro partition_search_suffix) auto
  from rotate_ends[OF this] show ?thesis unfolding cyclic_after_def Some by simp
qed

lemma ready_result_oids_cyclic:
  "ready_result_oids ready cursor = take operator_max_steps_per_round (cyclic_after ready cursor)"
  by (cases cursor)
    (auto simp: ready_result_oids_def ready_result_oids_in_range_def cyclic_after_def Let_def
      min_def split: if_splits)

section \<open>The loop\<close>

lemma drain_loop_spec:
  "drain_loop step clock queue d = Inr (Some d') \<Longrightarrow>
   length (dr_attempted d) \<le> operator_max_steps_per_round \<Longrightarrow>
   \<exists>new. dr_attempted d' = dr_attempted d @ new \<and>
     take (length queue) new = take (length new) queue \<and>
     length (dr_attempted d') \<le> operator_max_steps_per_round \<and>
     dr_worked d' \<le> dr_worked d + length new \<and>
     dr_cursor d' = (if new = [] then dr_cursor d else Some (last new)) \<and>
     (queue \<noteq> [] \<longrightarrow> drain_has_capacity (length (dr_attempted d)) (rc_elapsed clock (length (dr_attempted d)))
        operator_max_steps_per_round operator_time_budget \<longrightarrow> new \<noteq> [])"
proof (induction step clock queue d arbitrary: d' rule: drain_loop.induct)
  case (1 step clock queue d)
  let ?cap = "drain_has_capacity (length (dr_attempted d)) (rc_elapsed clock (length (dr_attempted d)))
        operator_max_steps_per_round operator_time_budget"
  show ?case
  proof (cases "?cap \<and> queue \<noteq> []")
    case False
    then have "d' = d"
      using 1(2) by (auto simp: drain_loop.simps[of step clock queue d] split: list.splits if_splits)
    then show ?thesis using 1(3) False by auto
  next
    case True
    then obtain oid rest where q: "queue = oid # rest" by (cases queue) auto
    obtain outcome more s where st: "step oid (dr_state d) = Inr (Some ((outcome, more), s))"
        "\<not> rc_stop clock (length (dr_attempted d))"
      using 1(2) True q
      by (auto simp: drain_loop.simps[of step clock "oid # rest" d] res_simps split: if_splits option.splits)
    define D where "D = \<lparr>dr_attempted = dr_attempted d @ [oid], dr_cursor = Some oid,
        dr_worked = (if outcome = Progress \<or> outcome = Yield then dr_worked d + 1 else dr_worked d),
        dr_state = s\<rparr>"
    have D: "dr_attempted D = dr_attempted d @ [oid]" "dr_cursor D = Some oid"
        "dr_worked D \<le> dr_worked d + 1"
      by (simp_all add: D_def)
    let ?q = "if more then rest @ [oid] else rest"
    have loop: "drain_loop step clock ?q D = Inr (Some d')"
      using 1(2) True q st by (simp add: drain_loop.simps[of step clock "oid # rest" d] D_def)
    have len: "length (dr_attempted D) \<le> operator_max_steps_per_round"
      using True by (simp add: drain_has_capacity_def D)
    obtain new where new: "dr_attempted d' = dr_attempted D @ new"
        "take (length ?q) new = take (length new) ?q"
        "length (dr_attempted d') \<le> operator_max_steps_per_round"
        "dr_worked d' \<le> dr_worked D + length new"
        "dr_cursor d' = (if new = [] then dr_cursor D else Some (last new))"
      using 1(1)[OF conjunct1[OF True] q st(2) st(1) refl refl refl loop[unfolded D_def]
          len[unfolded D_def], folded D_def] by blast
    have "take (length rest) new = take (length new) rest"
    proof -
      have "take (length rest) (take (length ?q) new) = take (length rest) (take (length new) ?q)"
        using new(2) by simp
      then show ?thesis
        by (cases more) (simp_all add: min_absorb1 take_append min_def split: if_splits)
    qed
    then show ?thesis
      using new q D by (intro exI[of _ "oid # new"]) auto
  qed
qed

lemma round_spec:
  assumes "step_ready_operators_bounded probe step clock cursor (ready_result_oids ready cursor) s
      = Inr (Some d)"
  shows "take (length (ready_result_oids ready cursor)) (dr_attempted d)
      = take (length (dr_attempted d)) (ready_result_oids ready cursor)"
    "length (dr_attempted d) \<le> operator_max_steps_per_round"
    "dr_worked d \<le> length (dr_attempted d)"
    "dr_cursor d = (if dr_attempted d = [] then cursor else Some (last (dr_attempted d)))"
    "rc_elapsed clock 0 < operator_time_budget \<Longrightarrow> ready \<noteq> [] \<Longrightarrow> dr_attempted d \<noteq> []"
proof -
  have ne: "ready_result_oids ready cursor \<noteq> []" if "ready \<noteq> []"
  proof -
    have "length (cyclic_after ready cursor) = length ready"
      using sum_length_filter_compl[of "\<lambda>oid. the cursor < oid" ready]
      by (cases cursor) (simp_all add: cyclic_after_def not_less)
    then show ?thesis
      using that by (auto simp: ready_result_oids_cyclic operator_max_steps_per_round_def)
  qed
  have loop: "drain_loop step clock (ready_result_oids ready cursor)
      \<lparr>dr_attempted = [], dr_cursor = cursor, dr_worked = 0, dr_state = s\<rparr> = Inr (Some d)"
    using assms by (simp add: step_ready_operators_bounded_def ready_result_oids_cyclic rotate_cyclic)
  note r = drain_loop_spec[OF loop]
  show "take (length (ready_result_oids ready cursor)) (dr_attempted d)
      = take (length (dr_attempted d)) (ready_result_oids ready cursor)"
    "length (dr_attempted d) \<le> operator_max_steps_per_round"
    "dr_worked d \<le> length (dr_attempted d)"
    "dr_cursor d = (if dr_attempted d = [] then cursor else Some (last (dr_attempted d)))"
    using r by auto
  show "rc_elapsed clock 0 < operator_time_budget \<Longrightarrow> ready \<noteq> [] \<Longrightarrow> dr_attempted d \<noteq> []"
    using r ne by (auto simp: drain_has_capacity_def operator_max_steps_per_round_def)
qed

text \<open>
  C26: A round attempts the ready results in cyclic order after the last result attempted, each
  of them once before any of them again, at most 64 attempts in all; it counts at most the
  attempts as work and leaves the cursor on the last attempt.  The order does not depend on how
  the binary search of the library probes.\<close>

theorem round_follows_cursor:
  assumes "step_ready_operators_bounded probe step clock cursor (ready_result_oids ready cursor) s
      = Inr (Some d)"
  shows "take (min 64 (length ready)) (dr_attempted d) = take (length (dr_attempted d)) (take 64 (cyclic_after ready cursor)) \<and>
    length (dr_attempted d) \<le> 64 \<and> dr_worked d \<le> length (dr_attempted d) \<and>
    dr_cursor d = (if dr_attempted d = [] then cursor else Some (last (dr_attempted d)))"
proof -
  have "length (cyclic_after ready cursor) = length ready"
    using sum_length_filter_compl[of "\<lambda>oid. the cursor < oid" ready]
    by (cases cursor) (simp_all add: cyclic_after_def not_less)
  then show ?thesis
    using round_spec(1-4)[OF assms]
    by (simp add: ready_result_oids_cyclic operator_max_steps_per_round_def min.commute)
qed

section \<open>No starvation\<close>

text \<open>\<open>x\<close> comes before \<open>y\<close> in the order of a round after \<open>cursor\<close>.\<close>

definition cyclic_less :: "result_oid option \<Rightarrow> result_oid \<Rightarrow> result_oid \<Rightarrow> bool" where
  "cyclic_less cursor x y \<longleftrightarrow>
     (case cursor of
        None \<Rightarrow> x < y
      | Some c \<Rightarrow> (c < x \<and> y \<le> c) \<or> ((c < x \<longleftrightarrow> c < y) \<and> x < y))"

lemma sorted_cyclic: "distinct ready \<Longrightarrow> sorted_wrt (cyclic_less cursor) (cyclic_after ready cursor)"
proof (cases cursor)
  case None
  assume "distinct ready"
  then have "sorted_wrt (<) (sort ready)" by (simp add: strict_sorted_iff)
  then show ?thesis
    using None by (auto simp: cyclic_after_def cyclic_less_def elim: sorted_wrt_mono_rel[rotated])
next
  case (Some c)
  assume d: "distinct ready"
  have lt: "sorted_wrt (<) (sort (filter P ready))" for P using d by (simp add: strict_sorted_iff)
  have "sorted_wrt (cyclic_less cursor) (sort (filter (\<lambda>oid. c < oid) ready))"
    "sorted_wrt (cyclic_less cursor) (sort (filter (\<lambda>oid. oid \<le> c) ready))"
    by (rule sorted_wrt_mono_rel[OF _ lt]; use Some in \<open>auto simp: cyclic_less_def\<close>)+
  then show ?thesis using Some by (auto simp: cyclic_after_def sorted_wrt_append cyclic_less_def)
qed

definition gap :: "result_oid set \<Rightarrow> result_oid \<Rightarrow> result_oid option \<Rightarrow> result_oid set" where
  "gap U oid cursor = {u \<in> U. cyclic_less cursor u oid}"

lemma gap_shrinks: "x \<in> gap U oid cursor \<Longrightarrow> gap U oid (Some x) \<subseteq> gap U oid cursor - {x}"
  by (cases cursor) (auto simp: gap_def cyclic_less_def)

lemma gap_not_self: "oid \<notin> gap U oid cursor"
  by (cases cursor) (auto simp: gap_def cyclic_less_def)

lemma round_gap:
  assumes "step_ready_operators_bounded probe step clock cursor (ready_result_oids ready cursor) s
      = Inr (Some d)"
    "distinct ready" "oid \<in> set ready" "set ready \<subseteq> U" "rc_elapsed clock 0 < operator_time_budget"
    "oid \<notin> set (dr_attempted d)"
  shows "\<exists>x \<in> gap U oid cursor. dr_cursor d = Some x"
proof -
  let ?cyc = "cyclic_after ready cursor" and ?log = "dr_attempted d"
  let ?m = "operator_max_steps_per_round"
  note r = round_spec[OF assms(1)]
  have members: "set ?cyc = set ready" by (cases cursor) (auto simp: cyclic_after_def)
  have ne: "?log \<noteq> []" by (rule r(5)) (use assms(3,5) in auto)
  have log: "?log = take (length ?log) ?cyc"
  proof (cases "length ?log \<le> length (take ?m ?cyc)")
    case True
    then have "?log = take (length ?log) (take ?m ?cyc)"
      using r(1) by (simp add: ready_result_oids_cyclic)
    then show ?thesis using r(2) by (simp add: min_absorb1)
  next
    case False
    then have "take (length (take ?m ?cyc)) ?log = ?cyc" "length ?cyc < ?m"
      using r(1,2) by (auto simp: ready_result_oids_cyclic min_def split: if_splits)
    then have "set ?cyc \<subseteq> set ?log" by (metis set_take_subset)
    then show ?thesis using assms(3,6) members by auto
  qed
  obtain j where j: "j < length ?cyc" "?cyc ! j = oid"
    using assms(3) members by (metis in_set_conv_nth)
  have "length ?log \<le> j"
  proof (rule ccontr)
    assume "\<not> length ?log \<le> j"
    then have "oid \<in> set (take (length ?log) ?cyc)"
      using j by (auto simp: in_set_conv_nth intro!: exI[of _ j])
    then show False using log assms(6) by simp
  qed
  moreover have "0 < length ?log" using ne by simp
  ultimately have i: "length ?log - 1 < j" by linarith
  have "take (length ?log) ?cyc ! (length ?log - 1) = ?cyc ! (length ?log - 1)"
    using ne by (intro nth_take) simp
  then have last: "last ?log = ?cyc ! (length ?log - 1)"
    using arg_cong[OF log, of "\<lambda>l. l ! (length ?log - 1)"] last_conv_nth[OF ne] by simp
  have "cyclic_less cursor (last ?log) oid"
    using sorted_wrt_nth_less[OF sorted_cyclic[OF assms(2)] i j(1)] last j(2) by simp
  moreover have "last ?log \<in> U"
    using i j last assms(4) members by (metis less_trans nth_mem subsetD)
  ultimately show ?thesis using r(4) ne by (auto simp: gap_def)
qed

text \<open>
  Successive rounds.  Each has its own ready results, clock and steps, so that the rest of the
  system may change the database in between; the log of a round is what it attempted.
\<close>

fun scheduler_rounds ::
    "(nat \<Rightarrow> nat \<Rightarrow> nat) \<Rightarrow> ('s stepper \<times> round_clock \<times> result_oid list) list
     \<Rightarrow> result_oid option \<Rightarrow> 's \<Rightarrow> (result_oid list list) option result" where
  "scheduler_rounds probe [] cursor s = Inr (Some [])"
| "scheduler_rounds probe ((step, clock, ready) # rounds) cursor s =
     bind_res (step_ready_operators_bounded probe step clock cursor (ready_result_oids ready cursor) s)
       (\<lambda>r. case r of
          None \<Rightarrow> Inr None
        | Some d \<Rightarrow>
            bind_res (scheduler_rounds probe rounds (dr_cursor d) (dr_state d)) (\<lambda>logs.
            Inr (map_option (\<lambda>ls. dr_attempted d # ls) logs)))"

lemma rounds_gap:
  assumes "finite U"
  shows "scheduler_rounds probe rounds cursor s = Inr (Some logs) \<Longrightarrow>
    (\<And>step clock ready. (step, clock, ready) \<in> set rounds \<Longrightarrow> distinct ready \<and> oid \<in> set ready \<and>
       set ready \<subseteq> U \<and> rc_elapsed clock 0 < operator_time_budget) \<Longrightarrow>
    (\<forall>log \<in> set logs. oid \<notin> set log) \<Longrightarrow> length rounds \<le> card (gap U oid cursor)"
proof (induction probe rounds cursor s arbitrary: logs rule: scheduler_rounds.induct)
  case (2 probe step clock ready rounds cursor s)
  obtain d where d: "step_ready_operators_bounded probe step clock cursor
      (ready_result_oids ready cursor) s = Inr (Some d)"
    using 2(2) by (auto simp: res_simps split: option.splits)
  obtain ls where ls: "scheduler_rounds probe rounds (dr_cursor d) (dr_state d) = Inr (Some ls)"
      "logs = dr_attempted d # ls"
    using 2(2) d by (auto simp: res_simps)
  obtain x where x: "x \<in> gap U oid cursor" "dr_cursor d = Some x"
    using round_gap[OF d, of oid U] 2(3)[of step clock ready] 2(4) ls(2) by auto
  have "length rounds \<le> card (gap U oid (dr_cursor d))"
    by (rule 2(1)[OF d refl ls(1)]) (use 2(3,4) ls(2) in auto)
  also have "\<dots> < card (gap U oid cursor)"
    using gap_shrinks[OF x(1)] x assms
    by (intro psubset_card_mono) (auto simp: gap_def)
  finally show ?case by simp
qed simp

text \<open>
  C10: No ready result starves.  When a result stays ready, every round makes at least one
  attempt before its time is up, and the ready results come from a set of \<open>n\<close>, the result is
  attempted within \<open>n\<close> rounds, whatever the attempts do, whether results become ready or stop
  being so, and wherever the cursor starts.\<close>

theorem no_starvation:
  assumes "scheduler_rounds probe rounds cursor s = Inr (Some logs)"
    "\<And>step clock ready. (step, clock, ready) \<in> set rounds \<Longrightarrow> distinct ready \<and> oid \<in> set ready \<and>
       set ready \<subseteq> U \<and> rc_elapsed clock 0 < operator_time_budget"
    "finite U" "oid \<in> U" "card U \<le> length rounds"
  shows "\<exists>log \<in> set logs. oid \<in> set log"
proof (rule ccontr)
  assume "\<not> ?thesis"
  then have "length rounds \<le> card (gap U oid cursor)"
    by (intro rounds_gap[OF assms(3,1,2)]) auto
  also have "\<dots> < card U"
    using assms(3,4) gap_not_self[of oid U cursor]
    by (intro psubset_card_mono) (auto simp: gap_def)
  finally show False using assms(5) by simp
qed

section \<open>One attempt\<close>

lemma lru_inv_map_values:
  fixes c :: "('k, 'v) lru"
  assumes "lru_inv c" "\<And>e. fst (f e) = fst e \<and> last_used (f e) = last_used e"
  shows "lru_inv (c\<lparr>lru_entries := map f (lru_entries c)\<rparr>)"
  using assms by (auto simp: lru_inv_def o_def)

lemma next_ready_stage_ready: "next_ready_stage ready cursor = Some stage \<Longrightarrow> stage \<in> set ready"
proof -
  have first: "first_row rows = Some x \<Longrightarrow> x \<in> set rows" for rows :: "nat list" and x
    by (metis first_row_def list.case(1) list.case(2) list.exhaust list.set_intros(1) option.distinct(1)
        option.inject set_sort)
  assume "next_ready_stage ready cursor = Some stage"
  then show ?thesis
    by (cases cursor) (auto simp: next_ready_stage_def next_ready_stage_in_range_def
        dest!: first split: option.splits)
qed

lemma get_or_load_inv:
  assumes "get_or_load load c k = Inr (v, c')" "lru_inv c"
  shows "lru_inv c' \<and> lru_capacity c' = lru_capacity c"
proof -
  obtain m where m: "lru_get m k = (v, c')" "lru_inv m" "lru_capacity m = lru_capacity c"
    using assms lru_insert_refines(3,4)[OF assms(2)]
    by (auto simp: get_or_load_def res_simps split: if_splits)
  then show ?thesis using lru_get_refines(3,4)[OF m(2), of k] by simp
qed

lemma lru_get_inv:
  "lru_get c k = (v, c') \<Longrightarrow> lru_inv c \<Longrightarrow> lru_inv c' \<and> lru_capacity c' = lru_capacity c"
  using lru_get_refines(3,4)[of c k] by simp

lemma step_stage_spec:
  assumes "step_stage env oid (cache, db) = Inr (step, cache', db')" "lru_inv cache"
  shows "lru_inv cache' \<and> lru_capacity cache' = lru_capacity cache \<and>
    (db' \<noteq> db \<longrightarrow> (\<exists>stage \<in> set (en_ready_stages env db oid). \<exists>done_step q q'. step = Some done_step \<and>
       quantum_loop (en_executor env oid stage) q Idle db = Inr (op_outcome done_step, q', db')))"
proof -
  obtain cached c1 where c1: "get_or_load (en_load env db) cache oid = Inr (cached, c1)"
    and rest: "(case cached of None \<Rightarrow> Inr (None, c1, db)
       | Some dataflow \<Rightarrow>
         (case next_ready_stage (en_ready_stages env db oid) (ld_stage_cursor dataflow) of
            None \<Rightarrow> Inr (None, c1, db)
          | Some stage \<Rightarrow>
              (case lru_get c1 oid of
                 (None, c2) \<Rightarrow> Inl ''Shiba loaded-dataflow cache lost an active dataflow''
               | (Some dataflow', c2) \<Rightarrow>
                   bind_res (map_err (\<lambda>e. ''Shiba operator transaction quantum did not complete: '' @ e)
                       (step_quantum dataflow' stage (en_budget env)
                          operator_max_transitions_per_transaction (en_executor env oid) db))
                     (\<lambda>(step, dataflow'', db).
                   Inr (Some step,
                        c2\<lparr>lru_entries :=
                          map (\<lambda>(k, v). (k, if k = oid then v\<lparr>cv_value := dataflow''\<rparr> else v))
                            (lru_entries c2)\<rparr>, db))))) = Inr (step, cache', db')"
    using assms(1) unfolding step_stage_def fst_conv snd_conv by (auto simp: res_simps)
  note inv1 = get_or_load_inv[OF c1 assms(2)]
  show ?thesis
  proof (cases "cached = None \<or> next_ready_stage (en_ready_stages env db oid) (ld_stage_cursor (the cached)) = None")
    case True
    then show ?thesis using rest inv1 by (auto split: option.splits)
  next
    case False
    then obtain dataflow stage where d: "cached = Some dataflow"
        "next_ready_stage (en_ready_stages env db oid) (ld_stage_cursor dataflow) = Some stage"
      by auto
    obtain got c2 where c2: "lru_get c1 oid = (got, c2)" by (cases "lru_get c1 oid")
    then obtain dataflow' where got: "got = Some dataflow'"
      using rest d by (cases got) auto
    then obtain done_step dataflow'' where q:
        "step_quantum dataflow' stage (en_budget env) operator_max_transitions_per_transaction
           (en_executor env oid) db = Inr (done_step, dataflow'', db')"
        "step = Some done_step"
        "cache' = c2\<lparr>lru_entries := map (\<lambda>(k, v). (k, if k = oid then v\<lparr>cv_value := dataflow''\<rparr> else v))
                            (lru_entries c2)\<rparr>"
      using rest d c2 by (auto simp: res_simps)
    have "\<exists>q0 q'. quantum_loop (en_executor env oid stage) q0 Idle db = Inr (op_outcome done_step, q', db')"
      using q(1) by (fastforce simp: step_quantum_def res_simps split: if_splits)
    moreover have "lru_inv cache'"
      unfolding q(3) using lru_get_inv[OF c2] inv1
      by (intro lru_inv_map_values) (auto simp: last_used_def)
    moreover have "lru_capacity cache' = lru_capacity cache"
      using q(3) lru_get_inv[OF c2] inv1 by simp
    ultimately show ?thesis using q(2) next_ready_stage_ready[OF d(2)] by blast
  qed
qed

text \<open>
  C27: An attempt keeps the cache within its capacity and well formed, and changes the database
  only by running a quantum of a stage that is durably ready, while the runtime and the dataflow
  are active and the lock of the dataflow is held.\<close>

theorem attempt_guarded:
  assumes "step_one_operator env oid (cache, db) = Inr (Some ((out, again), cache', db'))" "lru_inv cache"
  shows "lru_inv cache' \<and> lru_capacity cache' = lru_capacity cache \<and>
    (db' \<noteq> db \<longrightarrow> en_runtime_active env db \<and> en_try_lock env db oid \<and> en_dataflow_active env db oid \<and>
       (\<exists>stage \<in> set (en_ready_stages env db oid). \<exists>q q'.
          quantum_loop (en_executor env oid stage) q Idle db = Inr (out, q', db')))"
proof (cases "en_try_lock env db oid \<and> en_dataflow_active env db oid")
  case False
  then show ?thesis
    using assms lru_remove_refines(3)[OF assms(2), of oid]
    by (auto simp: step_one_operator_def lru_remove_def split: if_splits)
next
  case True
  have active: "en_runtime_active env db"
    using assms(1) by (auto simp: step_one_operator_def split: if_splits)
  obtain step c1 where s: "step_stage env oid (cache, db) = Inr (step, c1, db')"
      "out = (case step of None \<Rightarrow> Idle | Some x \<Rightarrow> op_outcome x)" "cache' = snd (lru_get c1 oid)"
    using assms(1) True active
    by (auto simp: step_one_operator_def res_simps Let_def split_beta)
  note spec = step_stage_spec[OF s(1) assms(2)]
  have "lru_inv cache' \<and> lru_capacity cache' = lru_capacity cache"
    using spec s(3) lru_get_inv[of c1 oid "fst (lru_get c1 oid)" cache'] by simp
  moreover have "\<exists>stage \<in> set (en_ready_stages env db oid). \<exists>q q'.
      quantum_loop (en_executor env oid stage) q Idle db = Inr (out, q', db')" if changed: "db' \<noteq> db"
  proof -
    obtain stage done_step q q' where "stage \<in> set (en_ready_stages env db oid)" "step = Some done_step"
        "quantum_loop (en_executor env oid stage) q Idle db = Inr (op_outcome done_step, q', db')"
      using spec changed by blast
    then show ?thesis using s(2) by (intro bexI[of _ stage] exI[of _ q] exI[of _ q']) simp_all
  qed
  ultimately show ?thesis using True active by blast
qed

section \<open>Concrete runs\<close>

definition rw_clock :: round_clock where
  "rw_clock = \<lparr>rc_elapsed = \<lambda>n. n, rc_stop = \<lambda>_. False\<rparr>"

definition rw_step :: "nat stepper" where
  "rw_step oid s = Inr (Some ((if s = 0 then Idle else Progress, 1 < s), s - 1))"

lemma rw_ready:
  "ready_result_oids [1, 3, 2] (Some 2) = [3, 1, 2]" "ready_result_oids [2, 1] (Some 1) = [2, 1]"
  "ready_result_oids [1] (Some 1) = [1]"
  by (simp_all add: ready_result_oids_cyclic cyclic_after_def operator_max_steps_per_round_def
      word_le_nat_alt word_less_nat_alt)

lemma rotate_ready: "rotate_after_cursor probe (ready_result_oids ready cursor) cursor = ready_result_oids ready cursor"
  by (simp add: ready_result_oids_cyclic rotate_cyclic)

lemmas rw_rotate = rotate_ready[of _ "[1, 3, 2]" "Some 2", unfolded rw_ready]
  rotate_ready[of _ "[2, 1]" "Some 1", unfolded rw_ready] rotate_ready[of _ "[1]" "Some 1", unfolded rw_ready]

lemmas round_run_defs =
  step_ready_operators_bounded_def rw_rotate rw_ready operator_max_steps_per_round_def
  drain_loop.simps drain_has_capacity_def rw_clock_def rw_step_def operator_time_budget_def

lemma rw_round:
  "step_ready_operators_bounded (\<lambda>_ _. 0) rw_step rw_clock (Some 2) (ready_result_oids [1, 3, 2] (Some 2)) 2
     = Inr (Some \<lparr>dr_attempted = [3, 1, 2, 3], dr_cursor = Some 3, dr_worked = 2, dr_state = 0\<rparr>)"
  by (simp add: round_run_defs)

theorem round_follows_cursor_witness:
  "[3, 1, 2] = take (length [3, 1, 2, 3 :: nat]) (take 64 (cyclic_after [1, 3, 2] (Some 2)))"
  using round_follows_cursor[OF rw_round] by simp

lemma rw_rounds:
  "scheduler_rounds (\<lambda>_ _. 0) [(rw_step, rw_clock, [2, 1]), (rw_step, rw_clock, [1])] (Some 1) 0
     = Inr (Some [[2, 1], [1]])"
  by (simp add: round_run_defs)

theorem no_starvation_witness: "\<exists>log \<in> set [[2, 1], [1 :: result_oid]]. (1 :: result_oid) \<in> set log"
  by (rule no_starvation[OF rw_rounds, where U = "{1, 2}"])
    (auto simp: rw_clock_def operator_time_budget_def)

theorem attempt_guarded_witness:
  "\<exists>cache'. step_one_operator
     \<lparr>en_runtime_active = \<lambda>_. True, en_try_lock = \<lambda>_ _. True, en_dataflow_active = \<lambda>_ _. False,
      en_load = \<lambda>_ _. Inl [], en_ready_stages = \<lambda>_ _. [0], en_executor = \<lambda>_. counting_executor,
      en_budget = \<lparr>max_input_rows = 1, max_input_bytes = 1, max_output_rows = 1, max_output_bytes = 1\<rparr>\<rparr>
     7 (\<lparr>lru_entries = [(7, \<lparr>cv_value = \<lparr>ld_stages = 1, ld_stage_cursor = None\<rparr>, cv_last_used = 3\<rparr>)],
         lru_capacity = 1, lru_clock = 3\<rparr>, 5) = Inr (Some ((Idle, False), cache', 5)) \<and>
     lru_inv cache'"
proof -
  let ?c = "\<lparr>lru_entries = [(7 :: result_oid, \<lparr>cv_value = \<lparr>ld_stages = 1, ld_stage_cursor = None\<rparr>, cv_last_used = 3\<rparr>)],
         lru_capacity = 1, lru_clock = 3\<rparr>"
  have "lru_inv ?c" by (simp add: lru_inv_def last_used_def)
  then show ?thesis
    using attempt_guarded[of "\<lparr>en_runtime_active = \<lambda>_. True, en_try_lock = \<lambda>_ _. True, en_dataflow_active = \<lambda>_ _. False,
      en_load = \<lambda>_ _. Inl [], en_ready_stages = \<lambda>_ _. [0], en_executor = \<lambda>_. counting_executor,
      en_budget = \<lparr>max_input_rows = 1, max_input_bytes = 1, max_output_rows = 1, max_output_bytes = 1\<rparr>\<rparr>"
      7 ?c 5 Idle False "snd (lru_remove ?c 7)" 5]
    by (simp add: step_one_operator_def)
qed

definition rw_rows :: begin_rows where
  "rw_rows =
     \<lparr>br_active = True, br_locked_streams = 2,
      br_checkpoints = [\<lparr>cr_revision = Some 4, cr_has_continuation = Some False,
                         cr_admitted_rows = Some 0, cr_admitted_bytes = Some 0\<rparr>],
      br_inputs = [\<lparr>ir_port = Some 0, ir_stream_id = Some 9, ir_kind = Some ''operator'',
                    ir_source_oid = None, ir_slot_generation = None, ir_next = Some 3,
                    ir_available = Some 4, ir_activation = Some ''0/0'', ir_consumed = Some ''0/0'',
                    ir_source_frontier = None\<rparr>],
      br_outputs = [\<lparr>or_stream_id = Some 10, or_next = Some 1, or_target_rows = Some 5,
                     or_target_bytes = Some 50, or_latest_data = None, or_published = None,
                     or_backpressured = Some True\<rparr>]\<rparr>"

theorem readiness_exact_witness:
  "\<exists>inputs. inputs_of_rows (br_inputs rw_rows) = Inr inputs \<and>
     \<not> durable_stage_ready False inputs (output_blocked rw_rows True)"
proof -
  let ?b = "\<lparr>max_input_rows = 1, max_input_bytes = 1, max_output_rows = 1, max_output_bytes = 1\<rparr>"
  have zero: "lsn_of_text name ''0/0'' = Inr 0" for name
    by (simp add: lsn_of_text_def parse_lsn_def from_str_radix_def char_digit_def u32_max_def)
  obtain i where i: "inputs_of_rows (br_inputs rw_rows) = Inr [i]" "is_producer i = Operator"
      "is_source_frontier i = None" "is_port i = 0"
    using zero by (simp add: rw_rows_def required_def parse_lsn_column_def optional_lsn_def
        input_of_row_def u16_max_def)
  have run: "step_begin rw_rows 7 0 1 True ?b = Inr StartBlocked"
    using i by (simp add: step_begin_def rw_rows_def required_def admission_of_row_def nonnegative_def
        begin_output_def i32_max_def)
  show ?thesis
    using readiness_exact[OF run, of "hd (br_checkpoints rw_rows)" False "[i]"] i
    by (simp add: rw_rows_def)
qed

end
