(* ===== verification/Feedback.thy ===== *)
theory Feedback
  imports Replication_Ingress
begin

text \<open>
  Replication feedback (\<open>src/runtime/ingress.rs\<close>): which WAL position the runtime acknowledges to
  the server, and when it records an acknowledgement in the catalog.  A panic is an error
  value.  \<open>Instant\<close> is a number of milliseconds.  The transport is the model of
  \<open>src/replication/transport.rs\<close> over an arbitrary libpq; a round also returns the statuses it
  has handed to the transport and the positions it has recorded.
\<close>

section \<open>State\<close>

record feedback_state =
  fb_recorded :: lsn
  fb_pending :: "lsn option"
  fb_queued :: "lsn option"
  fb_last_update :: nat

record 's ingress_runtime =
  rt_transport :: "'s transport"
  rt_persisted :: lsn
  rt_feedback :: feedback_state

definition feedback_queue :: "feedback_state \<Rightarrow> lsn \<Rightarrow> feedback_state" where
  "feedback_queue s l =
     s\<lparr>fb_pending := Some (case fb_pending s of None \<Rightarrow> l | Some p \<Rightarrow> max p l)\<rparr>"

definition advance_recorded_feedback :: "feedback_state \<Rightarrow> lsn \<Rightarrow> lsn option \<times> feedback_state" where
  "advance_recorded_feedback s l =
     (if l = 0 \<or> l \<le> fb_recorded s then (None, s) else (Some l, s\<lparr>fb_recorded := l\<rparr>))"

datatype feedback_operation = FlushQueued | SendPending

definition replication_status_interval :: nat where "replication_status_interval = 250"

definition replication_status_due :: "nat \<Rightarrow> nat \<Rightarrow> bool \<Rightarrow> bool" where
  "replication_status_due last_update now reply_requested \<longleftrightarrow>
     reply_requested \<or> replication_status_interval \<le> now - last_update"

section \<open>The reducer\<close>

text \<open>The transition is the new state with the position to record in the catalog.\<close>

definition reduce_feedback ::
    "feedback_state \<Rightarrow> feedback_operation \<Rightarrow> write_status \<Rightarrow> nat
     \<Rightarrow> (feedback_state \<times> lsn option) result" where
  "reduce_feedback s operation status now =
     (case operation of
        FlushQueued \<Rightarrow>
          bind_res (ok_or ''feedback reducer cannot flush an empty queue'' (fb_queued s)) (\<lambda>l.
          case status of
            Flushed \<Rightarrow>
              let (rec, s') = advance_recorded_feedback (s\<lparr>fb_queued := None\<rparr>) l in Inr (s', rec)
          | PendingFlush \<Rightarrow> Inr (s, None)
          | WouldBlock \<Rightarrow> Inl ''libpq flush returned an impossible WouldBlock status'')
      | SendPending \<Rightarrow>
          if fb_queued s \<noteq> None then Inl ''feedback reducer cannot send behind an unflushed status''
          else
            bind_res (ok_or ''feedback reducer cannot send empty pending feedback'' (fb_pending s))
              (\<lambda>l.
            case status of
              Flushed \<Rightarrow>
                let (rec, s') = advance_recorded_feedback
                      (s\<lparr>fb_pending := None, fb_last_update := now\<rparr>) l in Inr (s', rec)
            | PendingFlush \<Rightarrow>
                Inr (s\<lparr>fb_pending := None, fb_queued := Some l, fb_last_update := now\<rparr>, None)
            | WouldBlock \<Rightarrow> Inr (s, None)))"

section \<open>Maintaining feedback\<close>

text \<open>
  What a round leaves behind: the statuses given to \<open>send_standby_status\<close> with the write, flush
  and apply positions, and the positions recorded in the catalog (never 0/0).
\<close>

type_synonym feedback_trace = "(lsn \<times> lsn \<times> lsn) list \<times> lsn list"

definition apply_feedback_transition ::
    "'s ingress_runtime \<Rightarrow> feedback_state \<times> lsn option \<Rightarrow> 's ingress_runtime \<times> lsn list" where
  "apply_feedback_transition rt t =
     (rt\<lparr>rt_feedback := fst t\<rparr>,
      case snd t of None \<Rightarrow> [] | Some l \<Rightarrow> if l = 0 then [] else [l])"

definition flush_queued ::
    "'s libpq \<Rightarrow> 's ingress_runtime \<Rightarrow> nat \<Rightarrow> (bool \<times> 's ingress_runtime \<times> lsn list) result" where
  "flush_queued pq rt now =
     (if fb_queued (rt_feedback rt) = None then Inr (True, rt, [])
      else case flush pq (rt_transport rt) of
        (Inl e, t) \<Rightarrow> Inl ''Shiba could not flush replication feedback''
      | (Inr status, t) \<Rightarrow>
          bind_res (reduce_feedback (rt_feedback rt) FlushQueued status now) (\<lambda>tr.
          let (rt', recs) = apply_feedback_transition (rt\<lparr>rt_transport := t\<rparr>) tr
          in Inr (status = Flushed, rt', recs)))"

definition send_pending ::
    "'s libpq \<Rightarrow> 's ingress_runtime \<Rightarrow> nat \<Rightarrow> int \<Rightarrow> ('s ingress_runtime \<times> feedback_trace) result"
where
  "send_pending pq rt now clock =
     (case fb_pending (rt_feedback rt) of
        None \<Rightarrow> Inr (rt, [], [])
      | Some l \<Rightarrow>
          (case send_standby_status pq (rt_transport rt) l l 0 clock False of
             (Inl e, t) \<Rightarrow> Inl ''Shiba could not send replication feedback''
           | (Inr status, t) \<Rightarrow>
               bind_res (reduce_feedback (rt_feedback rt) SendPending status now) (\<lambda>tr.
               let (rt', recs) = apply_feedback_transition (rt\<lparr>rt_transport := t\<rparr>) tr
               in Inr (rt', [(l, l, 0)], recs))))"

definition maintain_feedback ::
    "'s libpq \<Rightarrow> 's ingress_runtime \<Rightarrow> bool \<Rightarrow> nat \<Rightarrow> int
     \<Rightarrow> ('s ingress_runtime \<times> feedback_trace) result" where
  "maintain_feedback pq rt reply_requested now clock =
     bind_res (flush_queued pq rt now) (\<lambda>(go_on, rt1, recs1).
     if \<not> go_on then Inr (rt1, [], recs1)
     else
       let rt2 = (if replication_status_due (fb_last_update (rt_feedback rt1)) now reply_requested
                  then rt1\<lparr>rt_feedback := feedback_queue (rt_feedback rt1) (rt_persisted rt1)\<rparr>
                  else rt1)
       in bind_res (send_pending pq rt2 now clock) (\<lambda>(rt3, sent, recs2).
          Inr (rt3, sent, recs1 @ recs2)))"

section \<open>A round of ingress\<close>

text \<open>\<open>persist_ingress_batch\<close>: the position a persisted batch makes durable.\<close>

definition persisted_by :: "ingress_batch \<Rightarrow> lsn option" where
  "persisted_by b =
     (case ib_boundary b of
        Some (BCommit commit_lsn end_lsn) \<Rightarrow> Some end_lsn
      | _ \<Rightarrow> None)"

datatype publication_outcome = PubAppended | PubCompleted | PubDiscarded | PubBlocked | PubIdle

text \<open>
  What the environment of a round decides: whether the runtime is active, the clocks of its two
  calls of \<open>maintain_feedback\<close>, the outcome of the source publication, and what \<open>poll_batch\<close>
  returns with the transport it leaves.
\<close>

record 's round_env =
  re_active :: bool
  re_now1 :: nat
  re_clock1 :: int
  re_publication :: publication_outcome
  re_has_pending :: bool
  re_poll :: "(ingress_error, ingress_poll) sum"
  re_polled :: "'s transport"
  re_now2 :: nat
  re_clock2 :: int

definition publication_work :: "publication_outcome \<Rightarrow> nat" where
  "publication_work p =
     (if p = PubAppended \<or> p = PubCompleted \<or> p = PubDiscarded then 1 else 0)"

definition ingest_poll ::
    "'s libpq \<Rightarrow> 's ingress_runtime \<Rightarrow> 's round_env \<Rightarrow> (nat \<times> 's ingress_runtime \<times> feedback_trace) result"
where
  "ingest_poll pq rt env =
     (case re_poll env of
        Inl e \<Rightarrow> Inl ''Shiba ingress failed''
      | Inr (PollBatch b) \<Rightarrow>
          (case persisted_by b of
             None \<Rightarrow> Inr (1, rt, [], [])
           | Some l \<Rightarrow>
               let p = max (rt_persisted rt) l;
                   rt' = rt\<lparr>rt_persisted := p, rt_feedback := feedback_queue (rt_feedback rt) p\<rparr>
               in bind_res (maintain_feedback pq rt' False (re_now2 env) (re_clock2 env)) (\<lambda>(rt'', tr).
                  Inr (1, rt'', tr)))
      | Inr (PollNoBatch reply_requested progressed) \<Rightarrow>
          bind_res
            (if reply_requested then maintain_feedback pq rt True (re_now2 env) (re_clock2 env)
             else Inr (rt, [], [])) (\<lambda>(rt', tr).
          Inr (if progressed then 1 else 0, rt', tr))
      | Inr PollEnd \<Rightarrow> Inl ''Shiba replication connection ended unexpectedly'')"

definition ingest_and_publish_once ::
    "'s libpq \<Rightarrow> 's ingress_runtime \<Rightarrow> 's round_env
     \<Rightarrow> (nat option \<times> 's ingress_runtime \<times> feedback_trace) result" where
  "ingest_and_publish_once pq rt env =
     (if \<not> re_active env then Inr (None, rt, [], [])
      else
        bind_res (maintain_feedback pq rt False (re_now1 env) (re_clock1 env)) (\<lambda>(rt1, sent1, recs1).
        let work = publication_work (re_publication env)
        in if re_has_pending env then Inr (Some work, rt1, sent1, recs1)
           else
             bind_res (ingest_poll pq (rt1\<lparr>rt_transport := re_polled env\<rparr>) env) (\<lambda>(n, rt2, sent2, recs2).
             Inr (Some (n + work), rt2, sent1 @ sent2, recs1 @ recs2))))"

section \<open>The invariant\<close>

text \<open>
  Nothing beyond the durable position waits to be acknowledged, and an acknowledgement that is
  due is recorded, pending or queued.
\<close>

definition feedback_inv :: "lsn \<Rightarrow> 's ingress_runtime \<Rightarrow> bool" where
  "feedback_inv start rt \<longleftrightarrow>
     start \<le> rt_persisted rt
     \<and> (\<forall>l. fb_pending (rt_feedback rt) = Some l \<longrightarrow> l \<le> rt_persisted rt)
     \<and> (\<forall>l. fb_queued (rt_feedback rt) = Some l \<longrightarrow> l \<le> rt_persisted rt)
     \<and> (rt_persisted rt = start \<or> rt_persisted rt \<le> fb_recorded (rt_feedback rt)
        \<or> fb_pending (rt_feedback rt) = Some (rt_persisted rt)
        \<or> fb_queued (rt_feedback rt) = Some (rt_persisted rt))"

text \<open>
  A trace is sound for a durable position: it acknowledges at most that position, as written
  and flushed but never as applied, and what it records in the catalog grows from the recorded
  position.
\<close>

definition trace_sound :: "lsn \<Rightarrow> lsn \<Rightarrow> lsn \<Rightarrow> feedback_trace \<Rightarrow> bool" where
  "trace_sound persisted before after tr \<longleftrightarrow>
     (\<forall>(w, f, a) \<in> set (fst tr). w \<le> persisted \<and> f = w \<and> a = 0)
     \<and> sorted_wrt (<) (before # snd tr) \<and> last (before # snd tr) = after"

end
