(* ===== verification/Feedback_Properties.thy ===== *)
theory Feedback_Properties
  imports Feedback
begin

text \<open>
  Replication feedback (\<open>src/runtime/ingress.rs\<close>) never acknowledges WAL that is not durable, loses
  no acknowledgement, and the panics of its reducer cannot happen.
\<close>

section \<open>The reducer\<close>

lemma flush_not_would_block: "flush pq t = (Inr status, t') \<Longrightarrow> status \<noteq> WouldBlock"
  by (auto simp: flush_def Let_def split: sum.splits prod.splits if_splits)

lemma reduce_flush:
  "fb_queued s = Some l \<Longrightarrow> status \<noteq> WouldBlock \<Longrightarrow>
     reduce_feedback s FlushQueued status now = Inr (
       if status = Flushed
       then (s\<lparr>fb_queued := None, fb_recorded := max (fb_recorded s) l\<rparr>,
             if fb_recorded s < l then Some l else None)
       else (s, None))"
  by (cases status)
    (auto simp: reduce_feedback_def advance_recorded_feedback_def max_def not_less)

lemma reduce_send:
  "fb_queued s = None \<Longrightarrow> fb_pending s = Some l \<Longrightarrow>
     reduce_feedback s SendPending status now = Inr (
       case status of
         Flushed \<Rightarrow> (s\<lparr>fb_pending := None, fb_last_update := now, fb_recorded := max (fb_recorded s) l\<rparr>,
                     if fb_recorded s < l then Some l else None)
       | PendingFlush \<Rightarrow> (s\<lparr>fb_pending := None, fb_queued := Some l, fb_last_update := now\<rparr>, None)
       | WouldBlock \<Rightarrow> (s, None))"
  by (cases status)
    (auto simp: reduce_feedback_def advance_recorded_feedback_def max_def not_less)

lemma word_less_not_zero: "(a :: lsn) < l \<Longrightarrow> l \<noteq> 0"
  by auto

section \<open>Steps\<close>

lemma trace_sound_Nil: "trace_sound p a a ([], [])"
  by (simp add: trace_sound_def)

lemma sorted_less_last: "sorted_wrt (<) (ws :: lsn list) \<Longrightarrow> w \<in> set ws \<Longrightarrow> w \<le> last ws"
proof (induction ws)
  case (Cons v ws)
  then show ?case by (cases "ws = []") (auto intro: less_imp_le less_le_trans)
qed simp

lemma trace_sound_append:
  assumes "trace_sound p a b (x, r)" "trace_sound p' b c (y, q)" "p \<le> p'"
  shows "trace_sound p' a c (x @ y, r @ q)"
proof -
  have "sorted_wrt (<) ((a # r) @ q)"
  proof -
    have le: "w \<le> b" if "w \<in> set (a # r)" for w
      using sorted_less_last[of "a # r" w] assms(1) that by (simp add: trace_sound_def)
    have "\<forall>w \<in> set (a # r). \<forall>v \<in> set q. w < v"
      using le assms(2) by (auto simp: trace_sound_def intro: le_less_trans)
    then show ?thesis
      using assms(1,2) by (auto simp: trace_sound_def sorted_wrt_append)
  qed
  moreover have "last (a # r @ q) = c"
    using assms(1,2) by (auto simp: trace_sound_def split: if_splits)
  moreover have "\<forall>(w, f, v) \<in> set (x @ y). w \<le> p' \<and> f = w \<and> v = 0"
    using assms by (fastforce simp: trace_sound_def)
  ultimately show ?thesis by (simp add: trace_sound_def)
qed

lemma flush_queued_step:
  assumes "feedback_inv start rt" "flush_queued pq rt now = Inr (go_on, rt', recs)"
  shows "feedback_inv start rt' \<and> rt_persisted rt' = rt_persisted rt \<and>
    trace_sound (rt_persisted rt) (fb_recorded (rt_feedback rt)) (fb_recorded (rt_feedback rt')) ([], recs) \<and>
    (go_on \<longrightarrow> fb_queued (rt_feedback rt') = None)"
proof (cases "fb_queued (rt_feedback rt)")
  case None
  then show ?thesis using assms by (auto simp: flush_queued_def trace_sound_Nil)
next
  case (Some l)
  obtain status t where f: "flush pq (rt_transport rt) = (Inr status, t)" "status \<noteq> WouldBlock"
    using assms(2) Some flush_not_would_block
    by (fastforce simp: flush_queued_def split: prod.splits sum.splits)
  note red = reduce_flush[OF Some f(2)]
  show ?thesis
  proof (cases "status = Flushed")
    case True
    have "go_on" "rt' = rt\<lparr>rt_transport := t, rt_feedback := (rt_feedback rt)\<lparr>fb_queued := None,
            fb_recorded := max (fb_recorded (rt_feedback rt)) l\<rparr>\<rparr>"
        "recs = (if fb_recorded (rt_feedback rt) < l then [l] else [])"
      using assms(2) Some f red True word_less_not_zero
      by (auto simp: flush_queued_def apply_feedback_transition_def split: if_splits)
    then show ?thesis
      using assms(1) Some by (auto simp: feedback_inv_def trace_sound_def max_def)
  next
    case False
    then show ?thesis
      using assms Some f red
      by (auto simp: flush_queued_def apply_feedback_transition_def feedback_inv_def trace_sound_def)
  qed
qed

lemma send_pending_step:
  assumes "feedback_inv start rt" "fb_queued (rt_feedback rt) = None"
    "send_pending pq rt now clock = Inr (rt', sent, recs)"
  shows "feedback_inv start rt' \<and> rt_persisted rt' = rt_persisted rt \<and>
    trace_sound (rt_persisted rt) (fb_recorded (rt_feedback rt)) (fb_recorded (rt_feedback rt')) (sent, recs)"
proof (cases "fb_pending (rt_feedback rt)")
  case None
  then show ?thesis using assms by (auto simp: send_pending_def trace_sound_Nil)
next
  case (Some l)
  obtain status t where f: "send_standby_status pq (rt_transport rt) l l 0 clock False = (Inr status, t)"
    using assms(3) Some by (auto simp: send_pending_def split: prod.splits sum.splits)
  note red = reduce_send[OF assms(2) Some, of status now]
  have l: "l \<le> rt_persisted rt" using assms(1) Some by (simp add: feedback_inv_def)
  have run: "sent = [(l, l, 0)]" "rt_persisted rt' = rt_persisted rt"
      "(rt_feedback rt', recs) = (case status of
         Flushed \<Rightarrow> ((rt_feedback rt)\<lparr>fb_pending := None, fb_last_update := now,
             fb_recorded := max (fb_recorded (rt_feedback rt)) l\<rparr>,
             if fb_recorded (rt_feedback rt) < l then [l] else [])
       | PendingFlush \<Rightarrow> ((rt_feedback rt)\<lparr>fb_pending := None, fb_queued := Some l, fb_last_update := now\<rparr>, [])
       | WouldBlock \<Rightarrow> (rt_feedback rt, []))"
    using assms(3) Some f red word_less_not_zero
    by (cases status; auto simp: send_pending_def apply_feedback_transition_def split: if_splits)+
  then show ?thesis
    using assms(1,2) Some l
    by (cases status) (auto simp: feedback_inv_def trace_sound_def max_def split: if_splits)
qed

lemma feedback_inv_queue:
  "feedback_inv start rt \<Longrightarrow>
     feedback_inv start (rt\<lparr>rt_feedback := feedback_queue (rt_feedback rt) (rt_persisted rt)\<rparr>)"
  by (auto simp: feedback_inv_def feedback_queue_def max_def split: option.splits)

lemma maintain_feedback_step:
  assumes "feedback_inv start rt" "maintain_feedback pq rt reply now clock = Inr (rt', tr)"
  shows "feedback_inv start rt' \<and> rt_persisted rt' = rt_persisted rt \<and>
    trace_sound (rt_persisted rt) (fb_recorded (rt_feedback rt)) (fb_recorded (rt_feedback rt')) tr"
proof -
  obtain go_on rt1 recs1 where f: "flush_queued pq rt now = Inr (go_on, rt1, recs1)"
    using assms(2) by (auto simp: maintain_feedback_def res_simps)
  note s1 = flush_queued_step[OF assms(1) f]
  show ?thesis
  proof (cases go_on)
    case False
    then show ?thesis using assms(2) f s1 by (auto simp: maintain_feedback_def)
  next
    case True
    let ?rt2 = "if replication_status_due (fb_last_update (rt_feedback rt1)) now reply
       then rt1\<lparr>rt_feedback := feedback_queue (rt_feedback rt1) (rt_persisted rt1)\<rparr> else rt1"
    obtain sent recs2 where p: "send_pending pq ?rt2 now clock = Inr (rt', sent, recs2)"
        "tr = (sent, recs1 @ recs2)"
      using assms(2) f True by (auto simp: maintain_feedback_def res_simps Let_def)
    have inv2: "feedback_inv start ?rt2" using s1 feedback_inv_queue[of start rt1] by simp
    have same: "rt_persisted ?rt2 = rt_persisted rt" "fb_queued (rt_feedback ?rt2) = None"
        "fb_recorded (rt_feedback ?rt2) = fb_recorded (rt_feedback rt1)"
      using s1 True by (auto simp: feedback_queue_def)
    note s2 = send_pending_step[OF inv2 same(2) p(1)]
    show ?thesis
      using s1 s2 same p(2) trace_sound_append[of "rt_persisted rt" _ _ "[]" recs1 "rt_persisted rt"]
      by auto
  qed
qed

section \<open>Failures\<close>

lemma flush_queued_cases:
  assumes "fb_queued (rt_feedback rt) = Some l" "flush pq (rt_transport rt) = (r, t)"
  shows "flush_queued pq rt now =
    (case r of
       Inl e \<Rightarrow> Inl ''Shiba could not flush replication feedback''
     | Inr status \<Rightarrow> Inr (status = Flushed,
         rt\<lparr>rt_transport := t, rt_feedback := (if status = Flushed
            then (rt_feedback rt)\<lparr>fb_queued := None, fb_recorded := max (fb_recorded (rt_feedback rt)) l\<rparr>
            else rt_feedback rt)\<rparr>,
         if status = Flushed \<and> fb_recorded (rt_feedback rt) < l then [l] else []))"
proof (cases r)
  case (Inr status)
  then have "status \<noteq> WouldBlock" using assms(2) flush_not_would_block by blast
  note red = reduce_flush[OF assms(1) this, of now]
  show ?thesis
    using assms Inr red word_less_not_zero[of "fb_recorded (rt_feedback rt)" l]
    by (cases "status = Flushed") (simp_all add: flush_queued_def apply_feedback_transition_def)
qed (use assms in \<open>simp add: flush_queued_def\<close>)

lemma flush_queued_Inl:
  assumes "flush_queued pq rt now = Inl x"
  shows "x = ''Shiba could not flush replication feedback''"
proof (cases "fb_queued (rt_feedback rt)")
  case (Some l)
  obtain r t where "flush pq (rt_transport rt) = (r, t)" by fastforce
  from flush_queued_cases[OF Some this, of now] show ?thesis using assms by (cases r) simp_all
qed (use assms in \<open>simp add: flush_queued_def\<close>)

lemma flush_queued_drained:
  assumes "flush_queued pq rt now = Inr (True, rt', recs)"
  shows "fb_queued (rt_feedback rt') = None"
proof (cases "fb_queued (rt_feedback rt)")
  case (Some l)
  obtain r t where "flush pq (rt_transport rt) = (r, t)" by fastforce
  from flush_queued_cases[OF Some this, of now] show ?thesis using assms by (cases r) auto
qed (use assms in \<open>auto simp: flush_queued_def\<close>)

lemma send_pending_Inl:
  assumes "send_pending pq rt now clock = Inl x" "fb_queued (rt_feedback rt) = None"
  shows "x = ''Shiba could not send replication feedback''"
proof (cases "fb_pending (rt_feedback rt)")
  case (Some l)
  obtain r t where r: "send_standby_status pq (rt_transport rt) l l 0 clock False = (r, t)" by fastforce
  show ?thesis
    using assms(1) r Some reduce_send[OF assms(2) Some]
    by (cases r) (simp_all add: send_pending_def apply_feedback_transition_def)
qed (use assms in \<open>simp add: send_pending_def\<close>)

lemma maintain_feedback_Inl:
  assumes "maintain_feedback pq rt reply now clock = Inl x"
  shows "x = ''Shiba could not flush replication feedback'' \<or>
    x = ''Shiba could not send replication feedback''"
proof (cases "flush_queued pq rt now")
  case (Inl y)
  then show ?thesis using assms flush_queued_Inl by (auto simp: maintain_feedback_def)
next
  case (Inr y)
  obtain go_on rt1 recs where y: "y = (go_on, rt1, recs)" by (cases y)
  let ?rt2 = "if replication_status_due (fb_last_update (rt_feedback rt1)) now reply
     then rt1\<lparr>rt_feedback := feedback_queue (rt_feedback rt1) (rt_persisted rt1)\<rparr> else rt1"
  have "send_pending pq ?rt2 now clock = Inl x" and go: "go_on"
    using assms Inr y by (auto simp: maintain_feedback_def bind_res_Inl Let_def split: if_splits)
  moreover have "fb_queued (rt_feedback ?rt2) = None"
    using flush_queued_drained Inr y go by (auto simp: feedback_queue_def)
  ultimately show ?thesis using send_pending_Inl by blast
qed

end
