(* ===== verification/Feedback_Guarantees.thy ===== *)
theory Feedback_Guarantees
  imports Feedback_Properties
begin

text \<open>
  The guarantees of replication feedback over whole runs of the runtime loop
  (\<open>src/runtime/ingress.rs\<close>).
\<close>

section \<open>Rounds\<close>










section \<open>Guarantees\<close>



section \<open>Concrete runs\<close>









end
