(* ===== verification/Effect_Stream_Invariant.thy ===== *)
theory Effect_Stream_Invariant
  imports Effect_Stream
begin

text \<open>
  Histories of an effect stream (\<open>sql/12_effect_stream.sql\<close>) and what every history keeps:
  the retained chunks are contiguous and accounted for, no consumer has lost a chunk it still
  has to read, and no unread chunk is at or below the frontier a consumer has recorded.
\<close>

section \<open>Histories\<close>

text \<open>
  A state is the stream with the publication-safe position of its source generation, which
  only grows (\<open>ingress_replay_state.published_lsn\<close>).
\<close>

type_synonym stream_state = "effect_stream \<times> nat option"

definition fresh_stream :: "effect_stream \<Rightarrow> bool" where
  "fresh_stream s \<longleftrightarrow>
     es_next s = 1 \<and> es_first_retained s = 1 \<and> es_latest_data s = None
     \<and> es_published_frontier s = None \<and> es_buffered_chunks s = 0 \<and> es_buffered_rows s = 0
     \<and> es_buffered_bytes s = 0 \<and> \<not> es_backpressured s \<and> es_chunks s = [] \<and> es_consumers s = []
     \<and> 0 \<le> es_low_chunks s \<and> 0 \<le> es_low_rows s \<and> 0 \<le> es_low_bytes s"

inductive stream_step :: "stream_state \<Rightarrow> stream_state \<Rightarrow> bool" where
  attach: "attach_consumer s registered key activation = Inr s' \<Longrightarrow> stream_step (s, p) (s', p)"
| append: "append_chunk s p expected kind rows bytes lsn = Inr (out, s') \<Longrightarrow>
     stream_step (s, p) (s', p)"
| advance: "advance_consumer s p key expected new ef nf cl rl bl = Inr s' \<Longrightarrow>
     stream_step (s, p) (s', p)"
| gc: "gc_stream s cl rl bl = Inr (k, s') \<Longrightarrow> stream_step (s, p) (s', p)"
| publish: "at_least p lsn \<Longrightarrow> stream_step (s, p) (s, Some lsn)"

inductive stream_reach :: "stream_state \<Rightarrow> bool" where
  fresh: "fresh_stream s \<Longrightarrow> stream_reach (s, p)"
| step: "stream_reach x \<Longrightarrow> stream_step x y \<Longrightarrow> stream_reach y"

section \<open>The invariant\<close>

definition chunks_inv :: "effect_stream \<Rightarrow> bool" where
  "chunks_inv s \<longleftrightarrow>
     1 \<le> es_first_retained s \<and> es_first_retained s \<le> es_next s
     \<and> map ck_seq (es_chunks s) = [es_first_retained s..es_next s - 1]
     \<and> es_buffered_chunks s = int (length (es_chunks s))
     \<and> es_buffered_rows s = sum_list (map ck_rows (es_chunks s))
     \<and> es_buffered_bytes s = sum_list (map ck_bytes (es_chunks s))
     \<and> (\<forall>c \<in> set (es_chunks s). 0 \<le> ck_rows c \<and> 0 \<le> ck_bytes c)
     \<and> 0 \<le> es_low_chunks s \<and> 0 \<le> es_low_rows s \<and> 0 \<le> es_low_bytes s"

text \<open>In a stream, a frontier is above what precedes it and below what follows it.\<close>

definition causal :: "chunk \<Rightarrow> chunk \<Rightarrow> bool" where
  "causal a b \<longleftrightarrow>
     (ck_kind a = Frontier \<longrightarrow> ck_lsn a < ck_lsn b) \<and>
     (ck_kind b = Frontier \<longrightarrow> ck_lsn a \<le> ck_lsn b)"

definition causal_inv :: "effect_stream \<Rightarrow> bool" where
  "causal_inv s \<longleftrightarrow>
     (case es_producer s of
        Operator \<Rightarrow>
          sorted_wrt causal (es_chunks s)
          \<and> (\<forall>c \<in> set (es_chunks s). ck_kind c = Frontier \<longrightarrow>
               (\<exists>f. es_published_frontier s = Some f \<and> ck_lsn c \<le> f))
          \<and> (\<forall>c \<in> set (es_chunks s). ck_kind c = Data \<longrightarrow>
               (\<exists>l. es_latest_data s = Some l \<and> ck_lsn c \<le> l))
      | Source \<Rightarrow>
          sorted_wrt (\<lambda>a b. ck_lsn a \<le> ck_lsn b) (es_chunks s)
          \<and> (\<forall>c \<in> set (es_chunks s). ck_kind c = Data \<and>
               (\<exists>l. es_latest_data s = Some l \<and> ck_lsn c \<le> l)))"

text \<open>The position that bounds a recorded frontier from above.\<close>

definition frontier_bound :: "effect_stream \<Rightarrow> nat option \<Rightarrow> nat option" where
  "frontier_bound s p = (case es_producer s of Operator \<Rightarrow> es_published_frontier s | Source \<Rightarrow> p)"

definition consumer_inv :: "effect_stream \<Rightarrow> nat option \<Rightarrow> consumer \<Rightarrow> bool" where
  "consumer_inv s p c \<longleftrightarrow>
     es_first_retained s \<le> cs_next c \<and> cs_next c \<le> es_next s \<and> cs_activation c \<le> cs_frontier c
     \<and> (cs_frontier c = cs_activation c
        \<or> ((\<exists>b. frontier_bound s p = Some b \<and> cs_frontier c \<le> b)
           \<and> (\<forall>ch \<in> set (es_chunks s). cs_next c \<le> ck_seq ch \<longrightarrow> cs_frontier c < ck_lsn ch)))"

definition stream_inv :: "stream_state \<Rightarrow> bool" where
  "stream_inv x \<longleftrightarrow>
     (case x of (s, p) \<Rightarrow>
        chunks_inv s \<and> causal_inv s \<and> distinct (map fst (es_consumers s))
        \<and> (\<forall>c \<in> snd ` set (es_consumers s). consumer_inv s p c))"

lemma stream_inv_fresh: "fresh_stream s \<Longrightarrow> stream_inv (s, p)"
  by (simp add: fresh_stream_def stream_inv_def chunks_inv_def causal_inv_def
      split: producer_kind.splits)

section \<open>Contiguous chunks\<close>

lemma seq_nth:
  assumes "map ck_seq cs = [a..b]" "i < length cs"
  shows "ck_seq (cs ! i) = a + int i"
proof -
  have "length cs = nat (b - a + 1)" by (metis assms(1) length_map length_upto)
  then have "a + int i \<le> b" using assms(2) by linarith
  then show ?thesis using assms by (metis nth_map nth_upto)
qed

lemma filter_below_take:
  "map ck_seq cs = [a..b] \<Longrightarrow> filter (\<lambda>c. ck_seq c < x) cs = take (nat (x - a)) cs"
proof (induction cs arbitrary: a)
  case (Cons c cs)
  then have c: "a \<le> b" "ck_seq c = a" "map ck_seq cs = [a + 1..b]"
    by (metis (no_types, lifting) list.distinct(1) list.map(2) upto_Nil2 upto_rec1 list.inject not_le_imp_less)+
  show ?case
  proof (cases "a < x")
    case True
    then have "nat (x - a) = Suc (nat (x - (a + 1)))" by linarith
    then show ?thesis using True c Cons.IH[of "a + 1"] by simp
  next
    case False
    have "ck_seq ` set cs = {a + 1..b}" by (metis c(3) list.set_map set_upto)
    then have "\<forall>d \<in> set cs. \<not> ck_seq d < x" using False by force
    then show ?thesis using False c by (simp add: filter_empty_conv)
  qed
qed simp

lemma chunks_seq_set: "map ck_seq cs = [a..b] \<Longrightarrow> ck_seq ` set cs = {a..b}"
  by (metis list.set_map set_upto)

lemma filter_downward:
  assumes "\<And>i j. i \<le> j \<Longrightarrow> P j \<Longrightarrow> P i"
  shows "\<exists>k \<le> n. filter P [0..<n] = [0..<k] \<and> (0 < n \<longrightarrow> P 0 \<longrightarrow> 0 < k)"
proof (induction n)
  case (Suc n)
  then obtain k where k: "k \<le> n" "filter P [0..<n] = [0..<k]" "0 < n \<longrightarrow> P 0 \<longrightarrow> 0 < k" by blast
  show ?case
  proof (cases "P n")
    case True
    then have "\<forall>i < n. P i" using assms by (meson less_imp_le)
    then have "filter P [0..<Suc n] = [0..<Suc n]" using True by simp
    then show ?thesis by blast
  next
    case False
    then show ?thesis using k by (auto intro!: exI[of _ k])
  qed
qed simp

lemma sum_take_mono:
  assumes "\<forall>c \<in> set cs. 0 \<le> (f c :: int)" "i \<le> j"
  shows "sum_list (map f (take i cs)) \<le> sum_list (map f (take j cs))"
proof -
  have "take j cs = take i cs @ take (j - i) (drop i cs)"
    using take_add[of i "j - i" cs] assms(2) by simp
  moreover have "0 \<le> sum_list (map f (take (j - i) (drop i cs)))"
    using assms(1) by (intro sum_list_nonneg) (auto dest!: in_set_takeD in_set_dropD)
  ultimately show ?thesis by simp
qed

lemma garbage_take:
  assumes "\<forall>c \<in> set l. 0 \<le> ck_rows c \<and> 0 \<le> ck_bytes c"
  shows "\<exists>k \<le> length l. garbage l rl bl = take k l \<and> (l \<noteq> [] \<longrightarrow> 0 < k)"
proof -
  let ?P = "\<lambda>i. i = 0 \<or> (sum_list (map ck_rows (take (i + 1) l)) \<le> rl
      \<and> sum_list (map ck_bytes (take (i + 1) l)) \<le> bl)"
  have "?P i" if "i \<le> j" "?P j" for i j
    using that assms sum_take_mono[of l ck_rows "i + 1" "j + 1"]
      sum_take_mono[of l ck_bytes "i + 1" "j + 1"] by (cases "i = 0") auto
  then obtain k where "k \<le> length l" "filter ?P [0..<length l] = [0..<k]" "l \<noteq> [] \<longrightarrow> 0 < k"
    using filter_downward[of ?P "length l"] by blast
  then show ?thesis
    unfolding garbage_def by (auto intro!: exI[of _ k] nth_equalityI)
qed

section \<open>What garbage collection deletes\<close>

lemma take_seq_Max:
  assumes "map ck_seq cs = [a..b]" "0 < k" "k \<le> length cs"
  shows "Max (set (map ck_seq (take k cs))) = a + int k - 1"
proof -
  have "ck_seq ` set (take k cs) = (\<lambda>i. a + int i) ` {..<k}"
    using assms seq_nth[OF assms(1)]
    by (auto simp: set_conv_nth image_iff) (metis nth_take less_le_trans)+
  moreover have "Max ((\<lambda>i. a + int i) ` {..<k}) = a + int k - 1"
    using assms(2) by (intro Max_eqI) (auto intro!: image_eqI[of _ _ "k - 1"])
  ultimately show ?thesis by simp
qed

lemma filter_not_take:
  assumes "map ck_seq cs = [a..b]"
  shows "filter (\<lambda>c. ck_seq c \<notin> set (map ck_seq (take k cs))) cs = drop k cs"
proof -
  have "distinct (map ck_seq cs)" by (simp add: assms)
  then have d: "distinct (map ck_seq (take k cs @ drop k cs))" by simp
  then have "\<forall>c \<in> set (drop k cs). ck_seq c \<notin> set (map ck_seq (take k cs))"
    unfolding map_append distinct_append by auto
  then have "filter (\<lambda>c. ck_seq c \<notin> set (map ck_seq (take k cs))) (take k cs @ drop k cs) = drop k cs"
    unfolding filter_append by (simp add: filter_empty_conv)
  then show ?thesis by simp
qed

lemma gc_stream_Inr:
  assumes "chunks_inv s" "gc_stream s cl rl bl = Inr (k, s')"
  shows "\<exists>slowest. k \<le> length (es_chunks s) \<and> es_chunks s' = drop k (es_chunks s)
    \<and> es_first_retained s' = es_first_retained s + int k
    \<and> (0 < k \<longrightarrow> slowest_next s = Some slowest \<and> es_first_retained s + int k \<le> slowest)
    \<and> (\<forall>slow. slowest_next s = Some slow \<longrightarrow> es_first_retained s < slow \<longrightarrow> es_chunks s \<noteq> [] \<longrightarrow> 0 < k)
    \<and> es_buffered_chunks s' = int (length (es_chunks s'))
    \<and> es_buffered_rows s' = sum_list (map ck_rows (es_chunks s'))
    \<and> es_buffered_bytes s' = sum_list (map ck_bytes (es_chunks s'))
    \<and> es_producer s' = es_producer s \<and> es_next s' = es_next s
    \<and> es_latest_data s' = es_latest_data s \<and> es_published_frontier s' = es_published_frontier s
    \<and> es_consumers s' = es_consumers s \<and> es_low_chunks s' = es_low_chunks s
    \<and> es_low_rows s' = es_low_rows s \<and> es_low_bytes s' = es_low_bytes s
    \<and> (slowest_next s \<noteq> None \<longrightarrow> es_backpressured s' = (es_backpressured s \<and>
        \<not> (es_buffered_chunks s' \<le> es_low_chunks s \<and> es_buffered_rows s' \<le> es_low_rows s
           \<and> es_buffered_bytes s' \<le> es_low_bytes s)))"
proof (cases "slowest_next s")
  case None
  then show ?thesis using assms by (auto simp: gc_stream_def chunks_inv_def split: if_splits)
next
  case (Some slow)
  let ?cs = "es_chunks s" and ?n = "nat (slow - es_first_retained s)"
  let ?lim = "take (nat cl) (take ?n ?cs)"
  have seqs: "map ck_seq ?cs = [es_first_retained s..es_next s - 1]"
    using assms(1) by (simp add: chunks_inv_def)
  have limits: "1 \<le> cl" "0 \<le> rl" "0 \<le> bl"
    using assms(2) by (auto simp: gc_stream_def split: if_splits)
  have pos: "\<forall>c \<in> set ?lim. 0 \<le> ck_rows c \<and> 0 \<le> ck_bytes c"
    using assms(1) by (auto simp: chunks_inv_def dest!: in_set_takeD)
  obtain k' where k': "k' \<le> length ?lim" "garbage ?lim rl bl = take k' ?lim" "?lim \<noteq> [] \<longrightarrow> 0 < k'"
    using garbage_take[OF pos] by blast
  have del: "garbage ?lim rl bl = take k' ?cs" 
    unfolding k'(2) using k'(1) by (auto simp: min_def split: if_splits)
  let ?chunks = "es_buffered_chunks s - int (length (take k' ?cs))"
  let ?rows = "es_buffered_rows s - sum_list (map ck_rows (take k' ?cs))"
  let ?bytes = "es_buffered_bytes s - sum_list (map ck_bytes (take k' ?cs))"
  have "gc_stream s cl rl bl = Inr (length (take k' ?cs), s\<lparr>es_chunks := drop k' ?cs,
      es_first_retained := (if take k' ?cs = [] then es_first_retained s
         else Max (set (map ck_seq (take k' ?cs))) + 1),
      es_buffered_chunks := ?chunks, es_buffered_rows := ?rows, es_buffered_bytes := ?bytes,
      es_backpressured := es_backpressured s \<and>
        \<not> (?chunks \<le> es_low_chunks s \<and> ?rows \<le> es_low_rows s \<and> ?bytes \<le> es_low_bytes s)\<rparr>)"
    using limits Some
    unfolding gc_stream_def filter_below_take[OF seqs] Let_def Some option.case del
      filter_not_take[OF seqs] by simp
  then have k: "k = k'" and s': "s' = s\<lparr>es_chunks := drop k' ?cs,
      es_first_retained := (if take k' ?cs = [] then es_first_retained s
         else Max (set (map ck_seq (take k' ?cs))) + 1),
      es_buffered_chunks := ?chunks, es_buffered_rows := ?rows, es_buffered_bytes := ?bytes,
      es_backpressured := es_backpressured s \<and>
        \<not> (?chunks \<le> es_low_chunks s \<and> ?rows \<le> es_low_rows s \<and> ?bytes \<le> es_low_bytes s)\<rparr>"
    using assms(2) k'(1) by auto
  have first: "es_first_retained s' = es_first_retained s + int k"
    using s' k k'(1) take_seq_Max[OF seqs, of k'] by (cases "k' = 0") auto
  have sums: "sum_list (map f ?cs) = sum_list (map f (take k' ?cs)) + sum_list (map f (drop k' ?cs))"
    for f :: "chunk \<Rightarrow> int"
    by (metis append_take_drop_id map_append sum_list_append)
  have "es_buffered_chunks s' = int (length (es_chunks s'))"
      "es_buffered_rows s' = sum_list (map ck_rows (es_chunks s'))"
      "es_buffered_bytes s' = sum_list (map ck_bytes (es_chunks s'))"
    using s' assms(1) sums[of ck_rows] sums[of ck_bytes] k'(1)
    by (auto simp: chunks_inv_def of_nat_diff)
  moreover have "0 < k \<Longrightarrow> es_first_retained s + int k \<le> slow"
    using k k'(1) by auto
  moreover have "es_first_retained s < slow \<Longrightarrow> ?cs \<noteq> [] \<Longrightarrow> 0 < k"
    using k k'(3) limits by auto
  ultimately show ?thesis using s' k k'(1) first Some by simp
qed

section \<open>Preservation\<close>

lemma stream_inv_gc:
  assumes "stream_inv (s, p)" "gc_stream s cl rl bl = Inr (k, s')"
  shows "stream_inv (s', p)"
proof -
  have ci: "chunks_inv s" and ca: "causal_inv s" and dc: "distinct (map fst (es_consumers s))"
      and co: "\<forall>c \<in> snd ` set (es_consumers s). consumer_inv s p c"
    using assms(1) by (auto simp: stream_inv_def)
  obtain slowest where g: "k \<le> length (es_chunks s)" "es_chunks s' = drop k (es_chunks s)"
      "es_first_retained s' = es_first_retained s + int k"
      "0 < k \<longrightarrow> slowest_next s = Some slowest \<and> es_first_retained s + int k \<le> slowest"
      "es_buffered_chunks s' = int (length (es_chunks s'))"
      "es_buffered_rows s' = sum_list (map ck_rows (es_chunks s'))"
      "es_buffered_bytes s' = sum_list (map ck_bytes (es_chunks s'))"
      "es_producer s' = es_producer s" "es_next s' = es_next s"
      "es_latest_data s' = es_latest_data s" "es_published_frontier s' = es_published_frontier s"
      "es_consumers s' = es_consumers s" "es_low_chunks s' = es_low_chunks s"
      "es_low_rows s' = es_low_rows s" "es_low_bytes s' = es_low_bytes s"
    using gc_stream_Inr[OF ci assms(2)] by blast
  have sub: "set (es_chunks s') \<subseteq> set (es_chunks s)" by (simp add: g(2) set_drop_subset)
  have seqs: "map ck_seq (es_chunks s) = [es_first_retained s..es_next s - 1]"
    using ci by (simp add: chunks_inv_def)
  have len: "length (es_chunks s) = nat (es_next s - es_first_retained s)"
    using arg_cong[OF seqs, of length] by simp
  have drop: "drop k [es_first_retained s..es_next s - 1] = [es_first_retained s + int k..es_next s - 1]"
  proof (intro nth_equalityI)
    show "length (drop k [es_first_retained s..es_next s - 1])
        = length [es_first_retained s + int k..es_next s - 1]" by simp
    fix i assume "i < length (drop k [es_first_retained s..es_next s - 1])"
    then show "drop k [es_first_retained s..es_next s - 1] ! i
        = [es_first_retained s + int k..es_next s - 1] ! i" by simp
  qed
  have "map ck_seq (es_chunks s') = [es_first_retained s'..es_next s' - 1]"
    using drop_map[of k ck_seq "es_chunks s"] g seqs drop by simp
  then have chunks: "chunks_inv s'"
    using ci g sub len by (auto simp: chunks_inv_def)
  have causal: "causal_inv s'"
    using ca g sub by (cases "es_producer s") (auto simp: causal_inv_def sorted_wrt_drop)
  have retained: "es_first_retained s' \<le> cs_next c" if "c \<in> snd ` set (es_consumers s)" for c
  proof (cases "k = 0")
    case True
    then show ?thesis using that co g by (auto simp: consumer_inv_def)
  next
    case False
    then have "slowest = Min (set (map (cs_next \<circ> snd) (es_consumers s)))"
      using g(4) that by (auto simp: slowest_next_def split: if_splits)
    then have "slowest \<le> cs_next c" using that by (auto intro!: Min_le)
    then show ?thesis using g(3,4) False by simp
  qed
  have fb: "frontier_bound s' p = frontier_bound s p"
    using g by (cases "es_producer s") (simp_all add: frontier_bound_def)
  have "consumer_inv s' p c" if "c \<in> snd ` set (es_consumers s)" for c
    using bspec[OF co that] retained[OF that] sub unfolding consumer_inv_def fb g(9) by blast
  then show ?thesis using chunks causal dc g by (simp add: stream_inv_def)
qed

lemma append_chunk_Inr:
  assumes "append_chunk s p expected kind rows bytes lsn = Inr (out, s')"
  shows "s' = s \<or> (expected = es_next s \<and> 1 \<le> es_next s \<and> chunk_resources_ok s kind rows bytes
     \<and> append_causality s p kind lsn = Inr ()
     \<and> es_chunks s' = es_chunks s @ [\<lparr>ck_seq = expected, ck_kind = kind, ck_rows = rows,
           ck_bytes = bytes, ck_lsn = lsn\<rparr>]
     \<and> es_next s' = es_next s + 1 \<and> es_first_retained s' = es_first_retained s
     \<and> es_latest_data s' = (if kind = Data then Some (greatest_lsn (es_latest_data s) lsn)
           else es_latest_data s)
     \<and> es_published_frontier s' = (if kind = Frontier then Some lsn else es_published_frontier s)
     \<and> es_buffered_chunks s' = es_buffered_chunks s + 1
     \<and> es_buffered_rows s' = es_buffered_rows s + rows
     \<and> es_buffered_bytes s' = es_buffered_bytes s + bytes
     \<and> es_producer s' = es_producer s \<and> es_consumers s' = es_consumers s
     \<and> es_low_chunks s' = es_low_chunks s \<and> es_low_rows s' = es_low_rows s
     \<and> es_low_bytes s' = es_low_bytes s)"
  using assms by (auto simp: append_chunk_def res_simps Let_def split: if_splits)

lemma lsn_bounds [simp]:
  "above None l" "above (Some b) l = (b < l)" "at_least None l" "at_least (Some b) l = (b \<le> l)"
  "greatest_lsn None l = l" "greatest_lsn (Some b) l = max b l"
  by (simp_all add: above_def at_least_def greatest_lsn_def)

lemma causal_inv_append:
  assumes "causal_inv s" "append_chunk s p expected kind rows bytes lsn = Inr (out, s')"
  shows "causal_inv s'"
proof -
  consider "s' = s" | (app) "append_causality s p kind lsn = Inr ()"
      "es_chunks s' = es_chunks s @ [\<lparr>ck_seq = expected, ck_kind = kind, ck_rows = rows,
           ck_bytes = bytes, ck_lsn = lsn\<rparr>]"
      "es_latest_data s' = (if kind = Data then Some (greatest_lsn (es_latest_data s) lsn)
           else es_latest_data s)"
      "es_published_frontier s' = (if kind = Frontier then Some lsn else es_published_frontier s)"
      "es_producer s' = es_producer s"
    using append_chunk_Inr[OF assms(2)] by blast
  then show ?thesis
  proof cases
    case app
    have data: "\<exists>l'. es_latest_data s' = Some l' \<and> l \<le> l'" if "es_latest_data s = Some l" for l
      using that app(3) by auto
    show ?thesis
    proof (cases "es_producer s")
      case Source
      then have "kind = Data" "at_least (es_latest_data s) lsn"
        using app(1) by (auto simp: append_causality_def split: if_splits)
      moreover have "\<exists>l. es_latest_data s = Some l \<and> ck_lsn c \<le> l" "ck_kind c = Data"
        if "c \<in> set (es_chunks s)" for c
        using that assms(1) Source by (auto simp: causal_inv_def)
      ultimately show ?thesis
        using assms(1) Source app
        by (cases "es_latest_data s") (fastforce simp: causal_inv_def sorted_wrt_append)+
    next
      case Operator
      have old: "ck_kind c = Frontier \<Longrightarrow> \<exists>f. es_published_frontier s = Some f \<and> ck_lsn c \<le> f"
        "ck_kind c = Data \<Longrightarrow> \<exists>l. es_latest_data s = Some l \<and> ck_lsn c \<le> l"
        if "c \<in> set (es_chunks s)" for c
        using that assms(1) Operator by (auto simp: causal_inv_def)
      have new: "above (es_published_frontier s) lsn" "kind = Frontier \<Longrightarrow> at_least (es_latest_data s) lsn"
        using app(1) Operator by (cases kind; auto simp: append_causality_def split: if_splits)+
      have "causal c \<lparr>ck_seq = expected, ck_kind = kind, ck_rows = rows, ck_bytes = bytes, ck_lsn = lsn\<rparr>"
        if "c \<in> set (es_chunks s)" for c
        using old[OF that] new by (cases "ck_kind c") (auto simp: causal_def)
      moreover have "\<exists>f. es_published_frontier s' = Some f \<and> ck_lsn c \<le> f"
        if "c \<in> set (es_chunks s)" "ck_kind c = Frontier" for c
        using old(1)[OF that] new(1) app(4) by auto
      moreover have "\<exists>l. es_latest_data s' = Some l \<and> ck_lsn c \<le> l"
        if "c \<in> set (es_chunks s)" "ck_kind c = Data" for c
        using old(2)[OF that] data by fastforce
      moreover have "kind = Data \<Longrightarrow> \<exists>l. es_latest_data s' = Some l \<and> lsn \<le> l"
        using app(3) by (cases "es_latest_data s") auto
      ultimately show ?thesis
        using assms(1) Operator app(2,4,5) by (auto simp: causal_inv_def sorted_wrt_append)
    qed
  qed (use assms(1) in simp)
qed

lemma stream_inv_append:
  assumes "stream_inv (s, p)" "append_chunk s p expected kind rows bytes lsn = Inr (out, s')"
  shows "stream_inv (s', p)"
proof -
  have inv: "chunks_inv s" "causal_inv s'" "distinct (map fst (es_consumers s))"
      "\<forall>c \<in> snd ` set (es_consumers s). consumer_inv s p c"
    using assms(1) causal_inv_append[OF _ assms(2)] by (auto simp: stream_inv_def)
  consider "s' = s" | (app) "es_chunks s' = es_chunks s @ [\<lparr>ck_seq = es_next s, ck_kind = kind,
        ck_rows = rows, ck_bytes = bytes, ck_lsn = lsn\<rparr>]"
      "chunk_resources_ok s kind rows bytes" "append_causality s p kind lsn = Inr ()"
      "es_next s' = es_next s + 1" "es_first_retained s' = es_first_retained s"
      "es_published_frontier s' = (if kind = Frontier then Some lsn else es_published_frontier s)"
      "es_buffered_chunks s' = es_buffered_chunks s + 1"
      "es_buffered_rows s' = es_buffered_rows s + rows"
      "es_buffered_bytes s' = es_buffered_bytes s + bytes"
      "es_producer s' = es_producer s" "es_consumers s' = es_consumers s"
      "es_low_chunks s' = es_low_chunks s" "es_low_rows s' = es_low_rows s"
      "es_low_bytes s' = es_low_bytes s"
    using append_chunk_Inr[OF assms(2)] by blast
  then show ?thesis
  proof cases
    case app
    have "[es_first_retained s..es_next s] = [es_first_retained s..es_next s - 1] @ [es_next s]"
      using inv(1) by (intro upto_rec2) (simp add: chunks_inv_def)
    then have chunks: "chunks_inv s'"
      using inv(1) app by (cases kind) (auto simp: chunks_inv_def chunk_resources_ok_def)
    have "consumer_inv s' p c" if "c \<in> snd ` set (es_consumers s)" for c
    proof -
      have "consumer_inv s p c" using inv(4) that by blast
      moreover have "cs_frontier c < lsn" if "frontier_bound s p = Some b" "cs_frontier c \<le> b" for b
        using that app(3)
        by (cases "es_producer s"; cases kind)
          (auto simp: frontier_bound_def append_causality_def split: if_splits)
      moreover have "frontier_bound s p = Some b \<Longrightarrow> \<exists>b'. frontier_bound s' p = Some b' \<and> b \<le> b'" for b
        using app(3,6,10)
        by (cases "es_producer s"; cases kind)
          (auto simp: frontier_bound_def append_causality_def split: if_splits)
      ultimately show ?thesis
        using app(1,4,5) unfolding consumer_inv_def by (auto; fastforce)
    qed
    then show ?thesis using chunks inv app(11) by (simp add: stream_inv_def)
  qed (use assms(1) in simp)
qed

lemma sorted_seq_wrt:
  assumes "map ck_seq cs = [a..b]" "sorted_wrt R cs" "x \<in> set cs" "y \<in> set cs" "ck_seq x < ck_seq y"
  shows "R x y"
proof -
  obtain i j where ij: "i < length cs" "cs ! i = x" "j < length cs" "cs ! j = y"
    using assms(3,4) by (metis in_set_conv_nth)
  then have "i < j" using assms(5) seq_nth[OF assms(1)] by force
  then show ?thesis using sorted_wrt_nth_less[OF assms(2), of i j] ij by simp
qed

lemma frontier_max_Some:
  assumes "frontier_max cs = Some l"
  shows "\<exists>a \<in> set cs. ck_kind a = Frontier \<and> ck_lsn a = l"
proof -
  let ?ls = "map ck_lsn (filter (\<lambda>c. ck_kind c = Frontier) cs)"
  have "?ls \<noteq> []" "l = Max (set ?ls)" using assms by (auto simp: frontier_max_def Let_def split: if_splits)
  then have "l \<in> set ?ls" using Max_in[of "set ?ls"] by (metis List.finite_set set_empty)
  then show ?thesis by auto
qed

lemma next_unconsumed_bound:
  assumes "chunks_inv s" "es_producer s = Source" "causal_inv s"
    "\<not> (case next_unconsumed s new of None \<Rightarrow> False | Some l \<Rightarrow> l \<le> f)"
    "ch \<in> set (es_chunks s)" "new \<le> ck_seq ch"
  shows "f < ck_lsn ch"
proof -
  have seqs: "map ck_seq (es_chunks s) = [es_first_retained s..es_next s - 1]"
    using assms(1) by (simp add: chunks_inv_def)
  have mono: "sorted_wrt (\<lambda>a b. ck_lsn a \<le> ck_lsn b) (es_chunks s)"
    using assms(2,3) by (simp add: causal_inv_def)
  have "find (\<lambda>c. new \<le> ck_seq c) (es_chunks s) \<noteq> None"
    using assms(5,6) by (auto simp: find_None_iff)
  then obtain c0 where c0: "find (\<lambda>c. new \<le> ck_seq c) (es_chunks s) = Some c0" by blast
  then obtain i where i: "i < length (es_chunks s)" "c0 = es_chunks s ! i"
      "\<forall>j < i. \<not> new \<le> ck_seq (es_chunks s ! j)"
    by (auto simp: find_Some_iff)
  obtain j where j: "j < length (es_chunks s)" "es_chunks s ! j = ch"
    using assms(5) by (metis in_set_conv_nth)
  then have "i \<le> j" using i(3) assms(6) by (meson not_le_imp_less)
  then have "ck_lsn c0 \<le> ck_lsn ch"
    using sorted_wrt_nth_less[OF mono, of i j] i j by (cases "i = j") auto
  moreover have "f < ck_lsn c0" using assms(4) c0 by (simp add: next_unconsumed_def)
  ultimately show ?thesis by simp
qed

lemma advance_consumer_Inr:
  assumes "advance_consumer s p key expected new ef nf cl rl bl = Inr s'"
  shows "\<exists>c. map_of (es_consumers s) key = Some c \<and> cs_next c = expected \<and> cs_frontier c = ef
    \<and> expected \<le> new \<and> new \<le> es_next s \<and> ef \<le> nf \<and> (expected < new \<or> ef < nf)
    \<and> int (length (chunk_range s expected new)) = new - expected
    \<and> advance_frontier s p ef expected new nf = Inr ()
    \<and> s' = s\<lparr>es_consumers := AList.update key (c\<lparr>cs_next := new, cs_frontier := nf\<rparr>) (es_consumers s)\<rparr>"
proof -
  let ?bad = "fst (snd key) < 0 \<or> expected < 1 \<or> new < expected \<or> nf < ef
         \<or> (new = expected \<and> nf = ef) \<or> cl < 1 \<or> rl < 0 \<or> bl < 0 \<or> cl < new - expected"
  have ok: "\<not> ?bad" using assms unfolding advance_consumer_def by (metis Inl_Inr_False)
  obtain c where c: "map_of (es_consumers s) key = Some c"
    using assms ok unfolding advance_consumer_def if_not_P[OF ok] bind_res_Inr ok_or_Inr by blast
  note body = assms[unfolded advance_consumer_def if_not_P[OF ok] c ok_or_simps bind_res.simps Let_def
      if_Inl_Inr bind_res_unit Inr_inject]
  have "cs_next c = expected" "cs_frontier c = ef" "new \<le> es_next s"
      "int (length (chunk_range s expected new)) = new - expected"
      "advance_frontier s p (cs_frontier c) expected new nf = Inr ()"
      "s' = s\<lparr>es_consumers := AList.update key (c\<lparr>cs_next := new, cs_frontier := nf\<rparr>) (es_consumers s)\<rparr>"
    using body by (elim conjE; blast | linarith)+
  moreover have "expected \<le> new" "ef \<le> nf" "expected < new \<or> ef < nf" using ok by linarith+
  ultimately show ?thesis using c by blast
qed

lemma advanced_consumer_inv:
  assumes "stream_inv (s, p)" "map_of (es_consumers s) key = Some c"
    "advance_frontier s p (cs_frontier c) (cs_next c) new nf = Inr ()"
    "cs_next c \<le> new" "new \<le> es_next s" "cs_frontier c \<le> nf"
  shows "consumer_inv s p (c\<lparr>cs_next := new, cs_frontier := nf\<rparr>)"
proof -
  have ci: "chunks_inv s" and ca: "causal_inv s" and old: "consumer_inv s p c"
    using assms(1,2) by (auto simp: stream_inv_def dest!: map_of_SomeD)
  have seqs: "map ck_seq (es_chunks s) = [es_first_retained s..es_next s - 1]"
    using ci by (simp add: chunks_inv_def)
  have "nf = cs_activation c \<or> ((\<exists>b. frontier_bound s p = Some b \<and> nf \<le> b) \<and>
     (\<forall>ch \<in> set (es_chunks s). new \<le> ck_seq ch \<longrightarrow> nf < ck_lsn ch))"
  proof (cases "es_producer s")
    case Source
    have "\<forall>ch \<in> set (es_chunks s). new \<le> ck_seq ch \<longrightarrow> nf < ck_lsn ch"
      using next_unconsumed_bound[OF ci Source ca] assms(3) Source
      by (auto simp: advance_frontier_def split: if_splits)
    moreover have "nf = cs_frontier c \<or> (\<exists>b. p = Some b \<and> nf \<le> b)"
      using assms(3,6) Source
      by (auto simp: advance_frontier_def split: if_splits option.splits)
    ultimately show ?thesis
      using old Source by (auto simp: consumer_inv_def frontier_bound_def)
  next
    case Operator
    have nf: "nf = (case frontier_max (chunk_range s (cs_next c) new) of
        None \<Rightarrow> cs_frontier c | Some l \<Rightarrow> max (cs_frontier c) l)"
      using assms(3) Operator by (auto simp: advance_frontier_def split: if_splits)
    show ?thesis
    proof (cases "nf = cs_frontier c")
      case True
      then show ?thesis using old assms(4) by (force simp: consumer_inv_def)
    next
      case False
      then have "frontier_max (chunk_range s (cs_next c) new) = Some nf"
        using nf by (auto simp: max_def split: option.splits if_splits)
      then obtain a where a: "a \<in> set (es_chunks s)" "ck_seq a < new" "ck_kind a = Frontier"
          "ck_lsn a = nf"
        using frontier_max_Some by (fastforce simp: chunk_range_def)
      have "sorted_wrt causal (es_chunks s)" using ca Operator by (simp add: causal_inv_def)
      then have "\<forall>ch \<in> set (es_chunks s). new \<le> ck_seq ch \<longrightarrow> nf < ck_lsn ch"
        using sorted_seq_wrt[OF seqs _ a(1)] a by (fastforce simp: causal_def)
      moreover have "\<exists>f. es_published_frontier s = Some f \<and> nf \<le> f"
        using ca a Operator by (auto simp: causal_inv_def)
      ultimately show ?thesis using Operator by (simp add: frontier_bound_def)
    qed
  qed
  then show ?thesis using old assms(4,5,6) by (auto simp: consumer_inv_def)
qed

lemma causal_inv_consumers [simp]: "causal_inv (s\<lparr>es_consumers := x\<rparr>) = causal_inv s"
  by (cases "es_producer s") (simp_all add: causal_inv_def)

lemma chunks_inv_consumers [simp]: "chunks_inv (s\<lparr>es_consumers := x\<rparr>) = chunks_inv s"
  by (simp add: chunks_inv_def)

lemma frontier_bound_consumers [simp]: "frontier_bound (s\<lparr>es_consumers := x\<rparr>) p = frontier_bound s p"
  by (cases "es_producer s") (simp_all add: frontier_bound_def)

lemma consumer_inv_consumers [simp]: "consumer_inv (s\<lparr>es_consumers := x\<rparr>) p c = consumer_inv s p c"
  by (simp add: consumer_inv_def)

lemma stream_inv_advance:
  assumes "stream_inv (s, p)" "advance_consumer s p key expected new ef nf cl rl bl = Inr s'"
  shows "stream_inv (s', p)"
proof -
  obtain c where c: "map_of (es_consumers s) key = Some c" "cs_next c = expected" "cs_frontier c = ef"
      "expected \<le> new" "new \<le> es_next s" "ef \<le> nf" "advance_frontier s p ef expected new nf = Inr ()"
      and s': "s' = s\<lparr>es_consumers := AList.update key (c\<lparr>cs_next := new, cs_frontier := nf\<rparr>) (es_consumers s)\<rparr>"
    using advance_consumer_Inr[OF assms(2)] by blast
  have new: "consumer_inv s p (c\<lparr>cs_next := new, cs_frontier := nf\<rparr>)"
    using advanced_consumer_inv[OF assms(1) c(1)] c by blast
  have inv: "chunks_inv s" "causal_inv s" "distinct (map fst (es_consumers s))"
      "\<forall>c \<in> snd ` set (es_consumers s). consumer_inv s p c"
    using assms(1) by (auto simp: stream_inv_def)
  have dist: "distinct (map fst (es_consumers s'))" using inv(3) s' by (simp add: distinct_update)
  have "consumer_inv s' p d" if "(k, d) \<in> set (es_consumers s')" for k d
  proof -
    have "map_of (es_consumers s') k = Some d" using that dist by (simp add: map_of_is_SomeI)
    then have "d = c\<lparr>cs_next := new, cs_frontier := nf\<rparr> \<or> d \<in> snd ` set (es_consumers s)"
      using s' by (auto simp: update_conv' split: if_splits dest!: map_of_SomeD) force
    then have "consumer_inv s p d" using new inv(4) by blast
    then show ?thesis using s' by simp
  qed
  then show ?thesis
    using inv dist s' by (auto simp: stream_inv_def)
qed

lemma stream_inv_attach:
  assumes "stream_inv (s, p)" "attach_consumer s registered key activation = Inr s'"
  shows "stream_inv (s', p)"
proof -
  let ?l = "if es_producer s = Operator then 0 else activation"
  let ?c = "\<lparr>cs_next = (if es_producer s = Operator then 1 else es_next s), cs_activation = ?l, cs_frontier = ?l\<rparr>"
  have s': "s' = s\<lparr>es_consumers := es_consumers s @ [(key, ?c)]\<rparr>"
      and fresh: "map_of (es_consumers s) key = None" and op: "es_producer s = Operator \<longrightarrow> es_next s = 1"
    using assms(2) by (auto simp: attach_consumer_def Let_def split: prod.splits if_splits)
  have inv: "chunks_inv s" "causal_inv s" "distinct (map fst (es_consumers s))"
      "\<forall>c \<in> snd ` set (es_consumers s). consumer_inv s p c"
    using assms(1) by (auto simp: stream_inv_def)
  have "consumer_inv s p ?c"
    using inv(1) op by (auto simp: consumer_inv_def chunks_inv_def)
  then have "\<forall>c \<in> snd ` set (es_consumers s'). consumer_inv s' p c"
    using inv(4) s' by auto
  moreover have "distinct (map fst (es_consumers s'))"
    using inv(3) fresh s' by (auto simp: map_of_eq_None_iff)
  ultimately show ?thesis
    using inv s' by (auto simp: stream_inv_def)
qed

lemma stream_inv_publish:
  assumes "stream_inv (s, p)" "at_least p lsn"
  shows "stream_inv (s, Some lsn)"
proof -
  have "\<exists>b'. frontier_bound s (Some lsn) = Some b' \<and> b \<le> b'" if "frontier_bound s p = Some b" for b
    using that assms(2) by (cases "es_producer s") (auto simp: frontier_bound_def)
  then have "consumer_inv s (Some lsn) c" if "consumer_inv s p c" for c
    using that by (auto simp: consumer_inv_def)
  then show ?thesis using assms(1) by (auto simp: stream_inv_def)
qed

lemma stream_inv_step: "stream_step x y \<Longrightarrow> stream_inv x \<Longrightarrow> stream_inv y"
  by (induction rule: stream_step.induct)
    (auto intro: stream_inv_attach stream_inv_append stream_inv_advance stream_inv_gc stream_inv_publish)

lemma stream_reach_inv: "stream_reach x \<Longrightarrow> stream_inv x"
  by (induction rule: stream_reach.induct) (auto intro: stream_inv_fresh stream_inv_step)

end
