(* ===== verification/Effect_Stream_Guarantees.thy ===== *)
theory Effect_Stream_Guarantees
  imports Effect_Stream_Invariant
begin

text \<open>
  The guarantees of an effect stream over its whole history (\<open>sql/12_effect_stream.sql\<close>).
\<close>

section \<open>A concrete history\<close>

definition ew_fresh :: effect_stream where
  "ew_fresh = \<lparr>es_producer = Operator, es_producer_result = 9, es_next = 1, es_first_retained = 1,
     es_latest_data = None, es_published_frontier = None, es_buffered_chunks = 0,
     es_buffered_rows = 0, es_buffered_bytes = 0, es_target_rows = 10, es_target_bytes = 100,
     es_high_chunks = 3, es_high_rows = 1000, es_high_bytes = 1000, es_low_chunks = 1,
     es_low_rows = 10, es_low_bytes = 100, es_backpressured = False, es_chunks = [],
     es_consumers = []\<rparr>"

definition ew_consumer :: "int \<Rightarrow> nat \<Rightarrow> consumer" where
  "ew_consumer n f = \<lparr>cs_next = n, cs_activation = 0, cs_frontier = f\<rparr>"

definition ew_chunks :: "chunk list" where
  "ew_chunks =
     [\<lparr>ck_seq = 1, ck_kind = Data, ck_rows = 2, ck_bytes = 20, ck_lsn = 5\<rparr>,
      \<lparr>ck_seq = 2, ck_kind = Frontier, ck_rows = 0, ck_bytes = 0, ck_lsn = 5\<rparr>,
      \<lparr>ck_seq = 3, ck_kind = Data, ck_rows = 1, ck_bytes = 500, ck_lsn = 7\<rparr>]"

text \<open>Two chunks appended, one consumer past the frontier, then one more chunk.\<close>

definition ew_stream :: "int \<Rightarrow> effect_stream" where
  "ew_stream n = ew_fresh\<lparr>es_next := 4, es_latest_data := Some 7, es_published_frontier := Some 5,
     es_buffered_chunks := 3, es_buffered_rows := 3, es_buffered_bytes := 520,
     es_backpressured := True, es_chunks := ew_chunks,
     es_consumers := [((9, 2, 0), ew_consumer n 5)]\<rparr>"

definition ew_two :: "nat \<Rightarrow> int \<Rightarrow> effect_stream" where
  "ew_two f n = ew_fresh\<lparr>es_next := 3, es_latest_data := Some 5, es_published_frontier := Some 5,
     es_buffered_chunks := 2, es_buffered_rows := 2, es_buffered_bytes := 20,
     es_chunks := take 2 ew_chunks, es_consumers := [((9, 2, 0), ew_consumer n f)]\<rparr>"

lemmas ew_defs = ew_fresh_def ew_consumer_def ew_chunks_def ew_stream_def ew_two_def
lemmas stream_defs = append_chunk_def append_causality_def chunk_resources_ok_def above_def
  at_least_def greatest_lsn_def attach_consumer_def advance_consumer_def advance_frontier_def
  chunk_range_def frontier_max_def i64_max_def

lemma ew_two_reach: "stream_reach (ew_two 5 3, None)"
proof -
  let ?s0 = "ew_fresh\<lparr>es_consumers := [((9, 2, 0), ew_consumer 1 0)]\<rparr>"
  let ?s1 = "ew_fresh\<lparr>es_next := 2, es_latest_data := Some 5, es_buffered_chunks := 1,
      es_buffered_rows := 2, es_buffered_bytes := 20, es_chunks := take 1 ew_chunks,
      es_consumers := [((9, 2, 0), ew_consumer 1 0)]\<rparr>"
  have "stream_reach (ew_fresh, None)"
    by (intro stream_reach.fresh) (simp add: fresh_stream_def ew_fresh_def)
  moreover have "attach_consumer ew_fresh True (9, 2, 0) 8 = Inr ?s0"
    by (simp add: ew_defs stream_defs)
  ultimately have "stream_reach (?s0, None)"
    by (blast intro: stream_reach.step stream_step.attach)
  moreover have "append_chunk ?s0 None 1 Data 2 20 5 = Inr (Appended 1, ?s1)"
    by (simp add: ew_defs stream_defs Let_def)
  ultimately have "stream_reach (?s1, None)"
    by (blast intro: stream_reach.step stream_step.append)
  moreover have "append_chunk ?s1 None 2 Frontier 0 0 5 = Inr (Appended 2, ew_two 0 1)"
    by (simp add: ew_defs stream_defs Let_def numeral_2_eq_2)
  ultimately have "stream_reach (ew_two 0 1, None)"
    by (blast intro: stream_reach.step stream_step.append)
  moreover have "advance_consumer (ew_two 0 1) None (9, 2, 0) 1 3 0 5 2 10 100 = Inr (ew_two 5 3)"
    by (simp add: ew_defs stream_defs Let_def numeral_2_eq_2)
  ultimately show ?thesis
    by (blast intro: stream_reach.step stream_step.advance)
qed

lemma ew_reach: "stream_reach (ew_stream 3, None)"
proof -
  have "append_chunk (ew_two 5 3) None 3 Data 1 500 7 = Inr (Appended 3, ew_stream 3)"
    by (simp add: ew_defs stream_defs Let_def numeral_2_eq_2)
  then show ?thesis using ew_two_reach by (blast intro: stream_reach.step stream_step.append)
qed

lemma ew_reach_caught_up: "stream_reach (ew_stream 4, None)"
proof -
  have "advance_consumer (ew_stream 3) None (9, 2, 0) 3 4 5 5 1 10 100 = Inr (ew_stream 4)"
    by (simp add: ew_defs stream_defs Let_def)
  then show ?thesis using ew_reach by (blast intro: stream_reach.step stream_step.advance)
qed

section \<open>Guarantees\<close>

text \<open>
  C1: In every history of a stream, once a consumer has recorded a frontier beyond its
  activation, every chunk it has still to read is strictly above that frontier: a frontier is
  never taken back by later data.\<close>

theorem stream_frontier_sound:
  assumes "stream_reach (s, p)" "(key, c) \<in> set (es_consumers s)"
    "cs_frontier c \<noteq> cs_activation c" "ch \<in> set (es_chunks s)" "cs_next c \<le> ck_seq ch"
  shows "cs_frontier c < ck_lsn ch"
proof -
  have "consumer_inv s p c"
    using stream_reach_inv[OF assms(1)] assms(2) by (force simp: stream_inv_def)
  then show ?thesis using assms(3-5) by (auto simp: consumer_inv_def)
qed

theorem stream_frontier_sound_witness:
  "cs_frontier (ew_consumer 3 5) <
     ck_lsn \<lparr>ck_seq = 3, ck_kind = Data, ck_rows = 1, ck_bytes = 500, ck_lsn = 7\<rparr>"
  by (rule stream_frontier_sound[OF ew_reach, of "(9, 2, 0)"]) (simp_all add: ew_defs)

text \<open>
  C12: In every history of a stream, every chunk that a consumer has still to read is retained,
  exactly once, and the chunk, row and byte counters of the stream are the totals of its
  retained chunks: garbage collection never deletes unread input.\<close>

theorem stream_retains_unread:
  assumes "stream_reach (s, p)"
  shows "(\<forall>(key, c) \<in> set (es_consumers s). \<forall>q. cs_next c \<le> q \<longrightarrow> q < es_next s \<longrightarrow>
        length (filter (\<lambda>ch. ck_seq ch = q) (es_chunks s)) = 1) \<and>
    es_buffered_chunks s = int (length (es_chunks s)) \<and>
    es_buffered_rows s = sum_list (map ck_rows (es_chunks s)) \<and>
    es_buffered_bytes s = sum_list (map ck_bytes (es_chunks s))"
proof -
  have inv: "chunks_inv s" "\<forall>c \<in> snd ` set (es_consumers s). consumer_inv s p c"
    using stream_reach_inv[OF assms] by (auto simp: stream_inv_def)
  then have seqs: "map ck_seq (es_chunks s) = [es_first_retained s..es_next s - 1]"
    by (simp add: chunks_inv_def)
  have "length (filter (\<lambda>ch. ck_seq ch = q) (es_chunks s)) = 1"
    if "(key, c) \<in> set (es_consumers s)" "cs_next c \<le> q" "q < es_next s" for key c q
  proof -
    have "q \<in> set (map ck_seq (es_chunks s))"
      using that inv(2) unfolding seqs by (force simp: consumer_inv_def)
    moreover have "distinct (map ck_seq (es_chunks s))" by (simp add: seqs)
    moreover have "length (filter (\<lambda>ch. ck_seq ch = q) xs) = 1"
      if "q \<in> set (map ck_seq xs)" "distinct (map ck_seq xs)" for xs
      using that by (induction xs) (auto simp: filter_empty_conv image_iff)
    ultimately show ?thesis by blast
  qed
  then show ?thesis using inv(1) by (auto simp: chunks_inv_def)
qed

theorem stream_retains_unread_witness:
  "length (filter (\<lambda>ch. ck_seq ch = 3) (es_chunks (ew_stream 3))) = 1"
  using stream_retains_unread[OF ew_reach] by (simp add: ew_defs)

section \<open>Backpressure is released\<close>

fun gc_rounds :: "nat \<Rightarrow> int \<Rightarrow> int \<Rightarrow> int \<Rightarrow> effect_stream \<Rightarrow> effect_stream result" where
  "gc_rounds 0 cl rl bl s = Inr s"
| "gc_rounds (Suc n) cl rl bl s =
     bind_res (gc_stream s cl rl bl) (\<lambda>(k, s'). gc_rounds n cl rl bl s')"

lemma gc_stream_total:
  "1 \<le> cl \<Longrightarrow> 0 \<le> rl \<Longrightarrow> 0 \<le> bl \<Longrightarrow> \<exists>k s'. gc_stream s cl rl bl = Inr (k, s')"
  by (cases "slowest_next s") (simp_all add: gc_stream_def Let_def)

lemma slowest_caught_up:
  assumes "es_consumers s \<noteq> []" "\<forall>c \<in> snd ` set (es_consumers s). cs_next c = es_next s"
  shows "slowest_next s = Some (es_next s)"
proof -
  have "set (map (cs_next \<circ> snd) (es_consumers s)) = {es_next s}"
    using assms by (cases "es_consumers s") auto
  then show ?thesis using assms(1) by (simp add: slowest_next_def)
qed

text \<open>
  One round on a stream whose consumers have read everything: it deletes at least one chunk if
  one is left, and it clears the backpressure when none is left.
\<close>

lemma gc_round_progress:
  assumes "stream_inv (s, p)" "es_consumers s \<noteq> []"
    "\<forall>c \<in> snd ` set (es_consumers s). cs_next c = es_next s" "1 \<le> cl" "0 \<le> rl" "0 \<le> bl"
  shows "\<exists>k s'. gc_stream s cl rl bl = Inr (k, s') \<and> stream_inv (s', p)
    \<and> es_consumers s' = es_consumers s \<and> es_next s' = es_next s
    \<and> length (es_chunks s') \<le> length (es_chunks s) - 1
    \<and> (es_chunks s' = [] \<longrightarrow> \<not> es_backpressured s')"
proof -
  have ci: "chunks_inv s" using assms(1) by (simp add: stream_inv_def)
  obtain k s' where gc: "gc_stream s cl rl bl = Inr (k, s')" using gc_stream_total assms(4-6) by blast
  note slow = slowest_caught_up[OF assms(2,3)]
  have "es_chunks s \<noteq> [] \<Longrightarrow> es_first_retained s < es_next s"
    using ci unfolding chunks_inv_def by (metis Nil_is_map_conv linorder_not_le upto_Nil zle_diff1_eq)
  then have g: "es_chunks s' = drop k (es_chunks s)" "es_chunks s \<noteq> [] \<longrightarrow> 0 < k"
      "es_consumers s' = es_consumers s" "es_next s' = es_next s"
      "es_chunks s' = [] \<longrightarrow> \<not> es_backpressured s'"
    using gc_stream_Inr[OF ci gc] slow ci by (auto simp: chunks_inv_def)
  moreover have "stream_inv (s', p)" using stream_inv_gc[OF assms(1) gc] .
  ultimately show ?thesis using gc by (cases "es_chunks s") (auto intro!: exI[of _ k] exI[of _ s'])
qed

lemma gc_rounds_empty:
  assumes "stream_inv (s, p)" "es_consumers s \<noteq> []"
    "\<forall>c \<in> snd ` set (es_consumers s). cs_next c = es_next s"
    "1 \<le> cl" "0 \<le> rl" "0 \<le> bl" "length (es_chunks s) \<le> Suc n"
  shows "\<exists>s'. gc_rounds (Suc n) cl rl bl s = Inr s' \<and> es_chunks s' = [] \<and> \<not> es_backpressured s'"
  using assms
proof (induction n arbitrary: s)
  case (0 s)
  show ?case using gc_round_progress[OF 0(1-6)] 0(7) by fastforce
next
  case (Suc n s)
  obtain k s1 where r: "gc_stream s cl rl bl = Inr (k, s1)" "stream_inv (s1, p)"
      "es_consumers s1 = es_consumers s" "es_next s1 = es_next s"
      "length (es_chunks s1) \<le> length (es_chunks s) - 1"
    using gc_round_progress[OF Suc.prems(1-6)] by blast
  then have "\<exists>s'. gc_rounds (Suc n) cl rl bl s1 = Inr s' \<and> es_chunks s' = [] \<and> \<not> es_backpressured s'"
    using Suc.prems by (intro Suc.IH) auto
  then show ?case using r(1) by simp
qed

text \<open>
  C30: When every consumer of a reachable stream has read everything, as many rounds of garbage
  collection as the stream has chunks (at least one), under any valid limits, succeed, delete
  every chunk and clear the backpressure, so its producer is not blocked forever.\<close>

theorem stream_backpressure_released:
  assumes "stream_reach (s, p)" "es_consumers s \<noteq> []"
    "\<forall>c \<in> snd ` set (es_consumers s). cs_next c = es_next s"
    "1 \<le> cl" "0 \<le> rl" "0 \<le> bl" "0 < n" "length (es_chunks s) \<le> n"
  shows "\<exists>s'. gc_rounds n cl rl bl s = Inr s' \<and> es_chunks s' = [] \<and> \<not> es_backpressured s'"
  using gc_rounds_empty[OF stream_reach_inv[OF assms(1)] assms(2-6), of "n - 1"] assms(7,8)
  by simp

theorem stream_backpressure_released_witness:
  "es_backpressured (ew_stream 4) \<and>
   (\<exists>s'. gc_rounds 3 1 0 0 (ew_stream 4) = Inr s' \<and> es_chunks s' = [] \<and> \<not> es_backpressured s')"
proof
  show "es_backpressured (ew_stream 4)" by (simp add: ew_defs)
  show "\<exists>s'. gc_rounds 3 1 0 0 (ew_stream 4) = Inr s' \<and> es_chunks s' = [] \<and> \<not> es_backpressured s'"
    by (rule stream_backpressure_released[OF ew_reach_caught_up]) (simp_all add: ew_defs)
qed

end
