(* ===== verification/Plan_Model.thy ===== *)
theory Plan_Model
  imports Shiba_Prelude
begin

text \<open>
  The persisted and executable plan of a dataflow (\<open>src/planner/model.rs\<close>): stages in
  topological order, the slots each stage reads and emits, and the catalog-resolved scalar
  expressions of its operator.  \<open>BindingId\<close>, \<open>SlotId\<close> and object identifiers are natural numbers
  below \<open>2\<^sup>3\<^sup>2\<close>; the serde attributes, which only fix the JSON spelling, are not modelled.
\<close>

section \<open>Slots\<close>

type_synonym binding_id = nat
type_synonym slot_id = nat

record slot_type =
  ty_oid :: nat
  ty_typmod :: int
  ty_collation :: nat
  ty_nullable :: bool

record input_slot =
  in_binding :: binding_id
  in_port :: nat
  in_type :: slot_type

record output_slot =
  out_slot :: slot_id
  out_type :: slot_type

record slot_binding =
  sb_source :: slot_id
  sb_target :: binding_id

record stage_schema =
  sch_inputs :: "input_slot list"
  sch_outputs :: "output_slot list"

record dataflow_input =
  di_upstream :: nat
  di_bindings :: "slot_binding list"

section \<open>Scalar expressions\<close>

datatype bool_expr_kind = BoolAnd | BoolOr | BoolNot

datatype boolean_test_kind =
  TestTrue | TestNotTrue | TestFalse | TestNotFalse | TestUnknown | TestNotUnknown

datatype datum_repr = DatumText string

datatype 'e case_when = CaseWhen (arm_when: 'e) (arm_then: 'e)

datatype scalar_expr =
    EInput binding_id
  | EConstant slot_type "datum_repr option"
  | ECall nat "scalar_expr list" slot_type
  | EOperator nat "scalar_expr list" slot_type
  | EDistinct nat scalar_expr scalar_expr slot_type
  | ENullIf nat scalar_expr scalar_expr slot_type
  | EScalarArray nat scalar_expr scalar_expr bool slot_type
  | EBool bool_expr_kind "scalar_expr list"
  | EBooleanTest scalar_expr boolean_test_kind
  | ENullTest scalar_expr bool
  | ECoalesce "scalar_expr list" slot_type
  | ECase "scalar_expr option" "scalar_expr case_when list" scalar_expr slot_type
  | ECaseTest slot_type
  | ERelabel scalar_expr slot_type
  | ECoerceViaIo scalar_expr slot_type
  | ECoerceToDomain scalar_expr slot_type
  | ECollate scalar_expr nat slot_type

text \<open>The parts of an expression in the order in which \<open>ScalarExpr::visit\<close> shows them.\<close>

fun visit :: "scalar_expr \<Rightarrow> scalar_expr list" where
  "visit (EInput b) = [EInput b]"
| "visit (EConstant t v) = [EConstant t v]"
| "visit (ECaseTest t) = [ECaseTest t]"
| "visit (ECall f args t) = ECall f args t # concat (map visit args)"
| "visit (EOperator f args t) = EOperator f args t # concat (map visit args)"
| "visit (EBool k args) = EBool k args # concat (map visit args)"
| "visit (ECoalesce args t) = ECoalesce args t # concat (map visit args)"
| "visit (EScalarArray f l r u t) = EScalarArray f l r u t # visit l @ visit r"
| "visit (EDistinct f l r t) = EDistinct f l r t # visit l @ visit r"
| "visit (ENullIf f l r t) = ENullIf f l r t # visit l @ visit r"
| "visit (EBooleanTest a k) = EBooleanTest a k # visit a"
| "visit (ENullTest a n) = ENullTest a n # visit a"
| "visit (ERelabel a t) = ERelabel a t # visit a"
| "visit (ECoerceViaIo a t) = ECoerceViaIo a t # visit a"
| "visit (ECoerceToDomain a t) = ECoerceToDomain a t # visit a"
| "visit (ECollate a c t) = ECollate a c t # visit a"
| "visit (ECase operand arms els t) =
     ECase operand arms els t #
       (case operand of None \<Rightarrow> [] | Some a \<Rightarrow> visit a)
       @ concat (map (\<lambda>arm. case arm of CaseWhen w h \<Rightarrow> visit w @ visit h) arms)
       @ visit els"

section \<open>Operators\<close>

datatype operator_kind =
  KScan | KFilter | KProject | KJoin | KDistinct | KAggregate | KWindow | KTopN | KSink

datatype join_kind =
  JoinInner | JoinLeft | JoinRight | JoinFull | JoinSemi | JoinAnti | JoinNullAwareAnti

definition input_count :: "operator_kind \<Rightarrow> nat" where
  "input_count k = (if k = KScan then 0 else if k = KJoin then 2 else 1)"

record named_expr =
  ne_output :: slot_id
  ne_name :: "string option"
  ne_expr :: scalar_expr

record sort_group_expr =
  sg_expr :: scalar_expr
  sg_type :: slot_type
  sg_equality_operator :: nat
  sg_sort_operator :: nat
  sg_nulls_first :: bool
  sg_hashable :: bool

record scan_column =
  scol_output :: slot_id
  scol_attnum :: int

record scan_spec =
  scan_source_oid :: nat
  scan_columns :: "scan_column list"

record filter_spec =
  filter_predicate :: scalar_expr
  filter_outputs :: "named_expr list"

record project_spec =
  project_expressions :: "named_expr list"

record join_equi_key =
  jk_left_binding :: binding_id
  jk_right_binding :: binding_id

record join_spec =
  js_kind :: join_kind
  js_condition :: scalar_expr
  js_equi_keys :: "join_equi_key list"
  js_outputs :: "named_expr list"

record distinct_spec =
  ds_keys :: "sort_group_expr list"
  ds_outputs :: "named_expr list"

record group_expr =
  ge_output :: slot_id
  ge_name :: "string option"
  ge_key :: sort_group_expr

record aggregate_expr =
  ae_ref_id :: nat
  ae_output :: slot_id
  ae_function :: nat
  ae_input_collation :: nat
  ae_args :: "scalar_expr list"
  ae_direct_args :: "scalar_expr list"
  ae_distinct :: "sort_group_expr list"
  ae_filter :: "scalar_expr option"
  ae_order_by :: "sort_group_expr list"
  ae_type :: slot_type

record aggregate_spec =
  as_groups :: "group_expr list"
  as_aggregates :: "aggregate_expr list"

record window_expr =
  we_ref_id :: nat
  we_output :: slot_id
  we_function :: nat
  we_input_collation :: nat
  we_args :: "scalar_expr list"
  we_filter :: "scalar_expr option"
  we_star :: bool
  we_aggregate :: bool
  we_type :: slot_type

record window_frame =
  wf_options :: nat
  wf_start_offset :: "scalar_expr option"
  wf_end_offset :: "scalar_expr option"
  wf_start_in_range_function :: "nat option"
  wf_end_in_range_function :: "nat option"
  wf_in_range_collation :: nat
  wf_in_range_ascending :: bool
  wf_in_range_nulls_first :: bool

record window_spec =
  ws_partition_by :: "sort_group_expr list"
  ws_order_by :: "sort_group_expr list"
  ws_frame :: window_frame
  ws_functions :: "window_expr list"
  ws_outputs :: "named_expr list"

record topn_spec =
  ts_order_by :: "sort_group_expr list"
  ts_limit :: nat
  ts_offset :: nat
  ts_with_ties :: bool
  ts_outputs :: "named_expr list"

datatype operator_spec =
    OpScan scan_spec
  | OpFilter filter_spec
  | OpProject project_spec
  | OpJoin join_spec
  | OpDistinct distinct_spec
  | OpAggregate aggregate_spec
  | OpWindow window_spec
  | OpTopN topn_spec
  | OpSink

fun spec_kind :: "operator_spec \<Rightarrow> operator_kind" where
  "spec_kind (OpScan _) = KScan"
| "spec_kind (OpFilter _) = KFilter"
| "spec_kind (OpProject _) = KProject"
| "spec_kind (OpJoin _) = KJoin"
| "spec_kind (OpDistinct _) = KDistinct"
| "spec_kind (OpAggregate _) = KAggregate"
| "spec_kind (OpWindow _) = KWindow"
| "spec_kind (OpTopN _) = KTopN"
| "spec_kind OpSink = KSink"

fun spec_output_slots :: "operator_spec \<Rightarrow> slot_id list" where
  "spec_output_slots (OpScan s) = map scol_output (scan_columns s)"
| "spec_output_slots (OpFilter s) = map ne_output (filter_outputs s)"
| "spec_output_slots (OpProject s) = map ne_output (project_expressions s)"
| "spec_output_slots (OpJoin s) = map ne_output (js_outputs s)"
| "spec_output_slots (OpDistinct s) = map ne_output (ds_outputs s)"
| "spec_output_slots (OpAggregate s) =
     map ge_output (as_groups s) @ map ae_output (as_aggregates s)"
| "spec_output_slots (OpWindow s) = map ne_output (ws_outputs s) @ map we_output (ws_functions s)"
| "spec_output_slots (OpTopN s) = map ne_output (ts_outputs s)"
| "spec_output_slots OpSink = []"

text \<open>An option as the iterator over its value.\<close>

definition option_list :: "'a option \<Rightarrow> 'a list" where
  "option_list x = (case x of None \<Rightarrow> [] | Some v \<Rightarrow> [v])"

definition aggregate_expressions :: "aggregate_expr \<Rightarrow> scalar_expr list" where
  "aggregate_expressions a =
     ae_args a @ ae_direct_args a @ map sg_expr (ae_distinct a) @ option_list (ae_filter a)
       @ map sg_expr (ae_order_by a)"

fun spec_expressions :: "operator_spec \<Rightarrow> scalar_expr list" where
  "spec_expressions (OpScan _) = []"
| "spec_expressions OpSink = []"
| "spec_expressions (OpFilter s) = filter_predicate s # map ne_expr (filter_outputs s)"
| "spec_expressions (OpProject s) = map ne_expr (project_expressions s)"
| "spec_expressions (OpJoin s) = js_condition s # map ne_expr (js_outputs s)"
| "spec_expressions (OpDistinct s) = map sg_expr (ds_keys s) @ map ne_expr (ds_outputs s)"
| "spec_expressions (OpAggregate s) =
     map (\<lambda>g. sg_expr (ge_key g)) (as_groups s)
       @ concat (map aggregate_expressions (as_aggregates s))"
| "spec_expressions (OpWindow s) =
     map sg_expr (ws_partition_by s) @ map sg_expr (ws_order_by s)
       @ option_list (wf_start_offset (ws_frame s)) @ option_list (wf_end_offset (ws_frame s))
       @ concat (map (\<lambda>f. we_args f @ option_list (we_filter f)) (ws_functions s))
       @ map ne_expr (ws_outputs s)"
| "spec_expressions (OpTopN s) = map sg_expr (ts_order_by s) @ map ne_expr (ts_outputs s)"

section \<open>Plans\<close>

record dataflow_stage =
  st_spec :: operator_spec
  st_schema :: stage_schema
  st_inputs :: "dataflow_input list"

record execution_settings =
  es_timezone :: string
  es_datestyle :: string
  es_intervalstyle :: string
  es_extra_float_digits :: int
  es_bytea_output :: string

record dataflow_plan =
  pl_settings :: execution_settings
  pl_stages :: "dataflow_stage list"

end
