(* ===== verification/Plan_Validate.thy ===== *)
theory Plan_Validate
  imports Plan_Model Number_Text
begin

text \<open>
  The validation of a plan (\<open>src/planner/validate.rs\<close>), which registration and every load run
  before a plan is used.  The labels of the error texts are arguments, as in the source; a
  \<open>HashMap\<close> built from a list is the map in which the last entry of a key wins.
\<close>

section \<open>Texts\<close>

definition decimal :: "nat \<Rightarrow> string" where
  "decimal n = to_radix 10 n"

text \<open>The derived \<open>Debug\<close> texts.\<close>

fun kind_debug :: "operator_kind \<Rightarrow> string" where
  "kind_debug KScan = ''Scan''"
| "kind_debug KFilter = ''Filter''"
| "kind_debug KProject = ''Project''"
| "kind_debug KJoin = ''Join''"
| "kind_debug KDistinct = ''Distinct''"
| "kind_debug KAggregate = ''Aggregate''"
| "kind_debug KWindow = ''Window''"
| "kind_debug KTopN = ''TopN''"
| "kind_debug KSink = ''Sink''"

definition binding_debug :: "binding_id \<Rightarrow> string" where
  "binding_debug b = ''BindingId('' @ decimal b @ '')''"

definition slot_debug :: "slot_id \<Rightarrow> string" where
  "slot_debug s = ''SlotId('' @ decimal s @ '')''"

section \<open>Settings, slots and types\<close>

definition validate_execution_settings :: "execution_settings \<Rightarrow> unit result" where
  "validate_execution_settings s =
     (if es_timezone s = [] \<or> es_datestyle s = [] \<or> es_intervalstyle s = []
         \<or> \<not> (- 15 \<le> es_extra_float_digits s \<and> es_extra_float_digits s \<le> 3)
         \<or> \<not> (es_bytea_output s = ''hex'' \<or> es_bytea_output s = ''escape'')
      then Inl ''dataflow plan has invalid captured execution settings'' else Inr ())"

definition validate_slot_type :: "slot_type \<Rightarrow> string \<Rightarrow> unit result" where
  "validate_slot_type t node =
     (if ty_oid t = 0 then Inl (''node '' @ node @ '' declares a slot with invalid type OID'')
      else Inr ())"

fun has_duplicates_seen :: "'a set \<Rightarrow> 'a list \<Rightarrow> bool" where
  "has_duplicates_seen seen [] = False"
| "has_duplicates_seen seen (x # xs) = (x \<in> seen \<or> has_duplicates_seen (insert x seen) xs)"

definition has_duplicates :: "'a list \<Rightarrow> bool" where
  "has_duplicates xs = has_duplicates_seen {} xs"

type_synonym typing = "binding_id \<rightharpoonup> slot_type"

definition boolean_type :: slot_type where
  "boolean_type = \<lparr>ty_oid = 16, ty_typmod = - 1, ty_collation = 0, ty_nullable = True\<rparr>"

fun expression_type :: "scalar_expr \<Rightarrow> typing \<Rightarrow> slot_type option" where
  "expression_type (EInput b) bs = bs b"
| "expression_type (EConstant t _) bs = Some t"
| "expression_type (ECall _ _ t) bs = Some t"
| "expression_type (EOperator _ _ t) bs = Some t"
| "expression_type (EDistinct _ _ _ t) bs = Some t"
| "expression_type (ENullIf _ _ _ t) bs = Some t"
| "expression_type (EScalarArray _ _ _ _ t) bs = Some t"
| "expression_type (ECoalesce _ t) bs = Some t"
| "expression_type (ECase _ _ _ t) bs = Some t"
| "expression_type (ECaseTest t) bs = Some t"
| "expression_type (ERelabel _ t) bs = Some t"
| "expression_type (ECoerceViaIo _ t) bs = Some t"
| "expression_type (ECoerceToDomain _ t) bs = Some t"
| "expression_type (ECollate _ _ t) bs = Some t"
| "expression_type (EBool _ _) bs = Some boolean_type"
| "expression_type (EBooleanTest _ _) bs = Some boolean_type"
| "expression_type (ENullTest _ _) bs = Some boolean_type"

section \<open>Expressions\<close>

text \<open>The test of one part of an expression: the error it reports, if any.\<close>

definition part_error :: "typing \<Rightarrow> string \<Rightarrow> scalar_expr \<Rightarrow> string option" where
  "part_error bs node part =
     (let bad = (\<lambda>b what. if b then Some (''node '' @ node @ what) else None) in
      case part of
        EInput b \<Rightarrow>
          bad (bs b = None) ('' expression references unknown input binding '' @ binding_debug b)
      | EConstant t _ \<Rightarrow> bad (ty_oid t = 0) '' has an invalid constant''
      | ECall f _ t \<Rightarrow> bad (f = 0 \<or> ty_oid t = 0) '' has an invalid function call''
      | EOperator f _ t \<Rightarrow> bad (f = 0 \<or> ty_oid t = 0) '' has an invalid operator call''
      | EDistinct f _ _ t \<Rightarrow> bad (f = 0 \<or> ty_oid t = 0) '' has an invalid operator call''
      | ENullIf f _ _ t \<Rightarrow> bad (f = 0 \<or> ty_oid t = 0) '' has an invalid operator call''
      | EScalarArray f _ _ _ t \<Rightarrow> bad (f = 0 \<or> ty_oid t = 0) '' has an invalid operator call''
      | EBool k args \<Rightarrow>
          bad (args = [] \<or> (k = BoolNot \<and> length args \<noteq> 1)) '' has an invalid boolean expression''
      | ECoalesce args t \<Rightarrow>
          bad (args = [] \<or> ty_oid t = 0) '' has an invalid coalesce expression''
      | ECase _ arms _ t \<Rightarrow> bad (arms = [] \<or> ty_oid t = 0) '' has an invalid case expression''
      | ECaseTest t \<Rightarrow> bad (ty_oid t = 0) '' has an invalid CASE operand placeholder''
      | ERelabel _ t \<Rightarrow> bad (ty_oid t = 0) '' has an invalid coercion''
      | ECoerceViaIo _ t \<Rightarrow> bad (ty_oid t = 0) '' has an invalid coercion''
      | ECoerceToDomain _ t \<Rightarrow> bad (ty_oid t = 0) '' has an invalid coercion''
      | ECollate _ _ t \<Rightarrow> bad (ty_oid t = 0) '' has an invalid coercion''
      | _ \<Rightarrow> None)"

text \<open>A visitor that stops looking once it has an error.\<close>

fun first_error :: "('a \<Rightarrow> string option) \<Rightarrow> 'a list \<Rightarrow> unit result" where
  "first_error f [] = Inr ()"
| "first_error f (x # xs) = (case f x of Some e \<Rightarrow> Inl e | None \<Rightarrow> first_error f xs)"

fun last_opt :: "'a list \<Rightarrow> 'a option" where
  "last_opt [] = None"
| "last_opt (x # xs) = Some (last (x # xs))"

fun validate_case_test_scope ::
    "scalar_expr \<Rightarrow> slot_type list \<Rightarrow> typing \<Rightarrow> string \<Rightarrow> unit result" where
  "validate_case_test_scope (ECaseTest t) ops bs node =
     (case last_opt ops of
        None \<Rightarrow> Inl (''node '' @ node @
          '' has a CASE operand placeholder outside a simple CASE arm'')
      | Some o' \<Rightarrow>
          if ty_oid t \<noteq> ty_oid o' \<or> ty_typmod t \<noteq> ty_typmod o' \<or> ty_collation t \<noteq> ty_collation o'
          then Inl (''node '' @ node @ '' has a CASE operand placeholder with the wrong type'')
          else Inr ())"
| "validate_case_test_scope (EInput b) ops bs node = Inr ()"
| "validate_case_test_scope (EConstant t v) ops bs node = Inr ()"
| "validate_case_test_scope (ECall f args t) ops bs node =
     check_all (\<lambda>a. validate_case_test_scope a ops bs node) args"
| "validate_case_test_scope (EOperator f args t) ops bs node =
     check_all (\<lambda>a. validate_case_test_scope a ops bs node) args"
| "validate_case_test_scope (EBool k args) ops bs node =
     check_all (\<lambda>a. validate_case_test_scope a ops bs node) args"
| "validate_case_test_scope (ECoalesce args t) ops bs node =
     check_all (\<lambda>a. validate_case_test_scope a ops bs node) args"
| "validate_case_test_scope (EDistinct f l r t) ops bs node =
     bind_res (validate_case_test_scope l ops bs node) (\<lambda>_. validate_case_test_scope r ops bs node)"
| "validate_case_test_scope (ENullIf f l r t) ops bs node =
     bind_res (validate_case_test_scope l ops bs node) (\<lambda>_. validate_case_test_scope r ops bs node)"
| "validate_case_test_scope (EScalarArray f l r u t) ops bs node =
     bind_res (validate_case_test_scope l ops bs node) (\<lambda>_. validate_case_test_scope r ops bs node)"
| "validate_case_test_scope (EBooleanTest a k) ops bs node = validate_case_test_scope a ops bs node"
| "validate_case_test_scope (ENullTest a n) ops bs node = validate_case_test_scope a ops bs node"
| "validate_case_test_scope (ERelabel a t) ops bs node = validate_case_test_scope a ops bs node"
| "validate_case_test_scope (ECoerceViaIo a t) ops bs node = validate_case_test_scope a ops bs node"
| "validate_case_test_scope (ECoerceToDomain a t) ops bs node =
     validate_case_test_scope a ops bs node"
| "validate_case_test_scope (ECollate a c t) ops bs node = validate_case_test_scope a ops bs node"
| "validate_case_test_scope (ECase operand arms els t) ops bs node =
     bind_res (case operand of None \<Rightarrow> Inr () | Some a \<Rightarrow> validate_case_test_scope a ops bs node) (\<lambda>_.
     bind_res (case operand of
         None \<Rightarrow> Inr ops
       | Some a \<Rightarrow>
           bind_res (ok_or (''node '' @ node @ '' has a simple CASE operand with no type'')
               (expression_type a bs)) (\<lambda>ty. Inr (ops @ [ty]))) (\<lambda>arm_ops.
     bind_res (check_all (\<lambda>arm. case arm of CaseWhen w h \<Rightarrow>
         bind_res (validate_case_test_scope w arm_ops bs node)
           (\<lambda>_. validate_case_test_scope h ops bs node)) arms) (\<lambda>_.
     validate_case_test_scope els ops bs node)))"

definition validate_scalar_expr :: "scalar_expr \<Rightarrow> typing \<Rightarrow> string \<Rightarrow> unit result" where
  "validate_scalar_expr e bs node =
     bind_res (first_error (part_error bs node) (visit e)) (\<lambda>_.
     validate_case_test_scope e [] bs node)"

definition validate_expression_type ::
    "scalar_expr \<Rightarrow> slot_type \<Rightarrow> typing \<Rightarrow> string \<Rightarrow> string \<Rightarrow> unit result" where
  "validate_expression_type e declared bs label role =
     bind_res (ok_or (label @ '' has a '' @ role @ '' expression with no resolved type'')
         (expression_type e bs)) (\<lambda>resolved.
     if resolved \<noteq> declared
     then Inl (label @ '' has a '' @ role
       @ '' expression whose declared type does not match its expression'')
     else Inr ())"

definition validate_sort_group_expression ::
    "sort_group_expr \<Rightarrow> typing \<Rightarrow> string \<Rightarrow> string \<Rightarrow> unit result" where
  "validate_sort_group_expression s bs label role =
     (if sg_equality_operator s = 0 \<or> sg_sort_operator s = 0
      then Inl (label @ '' has an invalid '' @ role @ '' operator'')
      else
        bind_res (validate_slot_type (sg_type s) label) (\<lambda>_.
        validate_expression_type (sg_expr s) (sg_type s) bs label role))"

section \<open>Stages\<close>

definition input_on_port :: "input_slot list \<Rightarrow> binding_id \<Rightarrow> nat \<Rightarrow> bool" where
  "input_on_port inputs b port =
     (case find (\<lambda>i. in_binding i = b) inputs of None \<Rightarrow> False | Some i \<Rightarrow> in_port i = port)"

definition invalid_equi_key :: "dataflow_stage \<Rightarrow> typing \<Rightarrow> join_equi_key \<Rightarrow> bool" where
  "invalid_equi_key stage bs k =
     (bs (jk_left_binding k) = None \<or> bs (jk_right_binding k) = None
      \<or> bs (jk_left_binding k) \<noteq> bs (jk_right_binding k)
      \<or> \<not> input_on_port (sch_inputs (st_schema stage)) (jk_left_binding k) 0
      \<or> \<not> input_on_port (sch_inputs (st_schema stage)) (jk_right_binding k) 1)"

definition validate_aggregate_spec ::
    "aggregate_spec \<Rightarrow> string \<Rightarrow> typing \<Rightarrow> unit result" where
  "validate_aggregate_spec spec label bs =
     (if has_duplicates (map ae_ref_id (as_aggregates spec))
         \<or> list_ex (\<lambda>a. ae_ref_id a = 0 \<or> ae_function a = 0) (as_aggregates spec)
      then Inl (label @ '' has an invalid aggregate reference'')
      else
        bind_res (check_all (\<lambda>g. validate_sort_group_expression (ge_key g) bs label ''GROUP BY key'')
            (as_groups spec)) (\<lambda>_.
        check_all (\<lambda>a.
          bind_res (validate_slot_type (ae_type a) label) (\<lambda>_.
          bind_res (check_all (\<lambda>d. validate_sort_group_expression d bs label ''aggregate DISTINCT key'')
              (ae_distinct a)) (\<lambda>_.
          check_all (\<lambda>d. validate_sort_group_expression d bs label ''aggregate ORDER BY key'')
            (ae_order_by a)))) (as_aggregates spec)))"

definition validate_window_spec :: "window_spec \<Rightarrow> string \<Rightarrow> typing \<Rightarrow> unit result" where
  "validate_window_spec spec label bs =
     (if has_duplicates (map we_ref_id (ws_functions spec))
         \<or> list_ex (\<lambda>f. we_ref_id f = 0 \<or> we_function f = 0) (ws_functions spec)
         \<or> wf_start_in_range_function (ws_frame spec) = Some 0
         \<or> wf_end_in_range_function (ws_frame spec) = Some 0
      then Inl (label @ '' has an invalid Window specification'')
      else
        bind_res (check_all (\<lambda>f. validate_slot_type (we_type f) label) (ws_functions spec)) (\<lambda>_.
        bind_res (check_all (\<lambda>p. validate_sort_group_expression p bs label ''window PARTITION BY key'')
            (ws_partition_by spec)) (\<lambda>_.
        check_all (\<lambda>p. validate_sort_group_expression p bs label ''window ORDER BY key'')
          (ws_order_by spec))))"

definition validate_operator_config ::
    "dataflow_stage \<Rightarrow> string \<Rightarrow> typing \<Rightarrow> unit result" where
  "validate_operator_config stage label bs =
     (case st_spec stage of
        OpScan spec \<Rightarrow>
          if scan_source_oid spec = 0 \<or> list_ex (\<lambda>c. scol_attnum c = 0) (scan_columns spec)
             \<or> has_duplicates (map scol_output (scan_columns spec))
          then Inl (label @ '' has an invalid Scan specification'') else Inr ()
      | OpDistinct spec \<Rightarrow>
          check_all (\<lambda>k. validate_sort_group_expression k bs label ''DISTINCT key'') (ds_keys spec)
      | OpJoin spec \<Rightarrow>
          if list_ex (invalid_equi_key stage bs) (js_equi_keys spec)
          then Inl (label @ '' has invalid Join equality keys'')
          else if js_kind spec = JoinNullAwareAnti \<and> js_equi_keys spec \<noteq> []
          then Inl (label @ '' NullAwareAnti Join cannot use equality key arrangements'')
          else Inr ()
      | OpAggregate spec \<Rightarrow> validate_aggregate_spec spec label bs
      | OpWindow spec \<Rightarrow> validate_window_spec spec label bs
      | OpTopN spec \<Rightarrow>
          if ts_order_by spec = [] then Inl (label @ '' has an invalid TopN ordering'')
          else check_all (\<lambda>k. validate_sort_group_expression k bs label ''TopN ORDER BY key'')
                 (ts_order_by spec)
      | _ \<Rightarrow> Inr ())"

definition validate_operator_spec ::
    "dataflow_stage \<Rightarrow> string \<Rightarrow> typing \<Rightarrow> unit result" where
  "validate_operator_spec stage label bs =
     bind_res (validate_operator_config stage label bs) (\<lambda>_.
     check_all (\<lambda>e. validate_scalar_expr e bs label) (spec_expressions (st_spec stage)))"

text \<open>The loop over the declared inputs, which collects their types.\<close>

fun collect_bindings :: "nat \<Rightarrow> string \<Rightarrow> input_slot list \<Rightarrow> typing \<Rightarrow> typing result" where
  "collect_bindings ports label [] bs = Inr bs"
| "collect_bindings ports label (i # is) bs =
     (if ports \<le> in_port i
      then Inl (label @ '' declares binding '' @ binding_debug (in_binding i)
        @ '' on invalid input port '' @ decimal (in_port i))
      else
        bind_res (validate_slot_type (in_type i) label) (\<lambda>_.
        if bs (in_binding i) \<noteq> None
        then Inl (label @ '' declares duplicate input binding '' @ binding_debug (in_binding i))
        else collect_bindings ports label is (bs(in_binding i \<mapsto> in_type i))))"

fun check_outputs :: "string \<Rightarrow> output_slot list \<Rightarrow> slot_id set \<Rightarrow> unit result" where
  "check_outputs label [] slots = Inr ()"
| "check_outputs label (out # outs) slots =
     bind_res (validate_slot_type (out_type out) label) (\<lambda>_.
     if out_slot out \<in> slots
     then Inl (label @ '' declares duplicate output slot '' @ slot_debug (out_slot out))
     else check_outputs label outs (insert (out_slot out) slots))"

definition validate_stage :: "dataflow_stage \<Rightarrow> string \<Rightarrow> unit result" where
  "validate_stage stage label =
     bind_res (collect_bindings (input_count (spec_kind (st_spec stage))) label
         (sch_inputs (st_schema stage)) Map.empty) (\<lambda>bs.
     bind_res (check_outputs label (sch_outputs (st_schema stage)) {}) (\<lambda>_.
     if spec_output_slots (st_spec stage) \<noteq> map out_slot (sch_outputs (st_schema stage))
     then Inl (label @ '' operator outputs do not match its schema'')
     else validate_operator_spec stage label bs))"

section \<open>Edges\<close>

definition edge_text :: "dataflow_input \<Rightarrow> nat \<Rightarrow> string \<Rightarrow> string" where
  "edge_text input stage_id what =
     ''input '' @ decimal (di_upstream input) @ '' -> '' @ decimal stage_id @ what"

text \<open>
  The loops over the slot bindings of an input and over the inputs of a stage; the accumulator is
  the set of bindings already bound (\<open>bound[stage_id]\<close>).
\<close>

fun bind_slots ::
    "(slot_id \<rightharpoonup> slot_type) \<Rightarrow> (binding_id \<rightharpoonup> nat \<times> slot_type) \<Rightarrow> nat \<Rightarrow> (string \<Rightarrow> string)
     \<Rightarrow> slot_binding list \<Rightarrow> binding_id set \<Rightarrow> binding_id set result" where
  "bind_slots up down port txt [] bound = Inr bound"
| "bind_slots up down port txt (b # rest) bound =
     bind_res (ok_or (txt '' references an unknown output slot'') (up (sb_source b))) (\<lambda>source.
     bind_res (ok_or (txt '' references an unknown input binding'') (down (sb_target b)))
       (\<lambda>(p, target).
     if p \<noteq> port \<or> source \<noteq> target \<or> sb_target b \<in> bound
     then Inl (txt '' has an invalid slot binding'')
     else bind_slots up down port txt rest (insert (sb_target b) bound)))"

definition output_types :: "output_slot list \<Rightarrow> slot_id \<rightharpoonup> slot_type" where
  "output_types outs = map_of (rev (map (\<lambda>out. (out_slot out, out_type out)) outs))"

definition declared_inputs :: "input_slot list \<Rightarrow> binding_id \<rightharpoonup> nat \<times> slot_type" where
  "declared_inputs inputs =
     map_of (rev (map (\<lambda>i. (in_binding i, (in_port i, in_type i))) inputs))"

fun bind_inputs ::
    "dataflow_stage list \<Rightarrow> (binding_id \<rightharpoonup> nat \<times> slot_type) \<Rightarrow> nat \<Rightarrow> nat
     \<Rightarrow> dataflow_input list \<Rightarrow> binding_id set \<Rightarrow> binding_id set result" where
  "bind_inputs stages down stage_id port [] bound = Inr bound"
| "bind_inputs stages down stage_id port (input # inputs) bound =
     bind_res (bind_slots (output_types (sch_outputs (st_schema (stages ! di_upstream input))))
         down port (edge_text input stage_id) (di_bindings input) bound)
       (bind_inputs stages down stage_id (port + 1) inputs)"

definition validate_stage_bindings ::
    "dataflow_stage list \<Rightarrow> nat \<times> dataflow_stage \<Rightarrow> unit result" where
  "validate_stage_bindings stages = (\<lambda>(stage_id, stage).
     let inputs = sch_inputs (st_schema stage) in
     bind_res (bind_inputs stages (declared_inputs inputs) stage_id 0 (st_inputs stage) {})
       (\<lambda>bound.
     if list_ex (\<lambda>i. in_binding i \<notin> bound) inputs
     then Inl (''stage '' @ decimal stage_id @ '' has an unbound input'') else Inr ()))"

definition validate_slot_bindings :: "dataflow_stage list \<Rightarrow> unit result" where
  "validate_slot_bindings stages = check_all (validate_stage_bindings stages) (enumerate 0 stages)"

section \<open>Plans\<close>

text \<open>The first loop of \<open>validate\<close> and what it counts.\<close>

record plan_scan =
  ps_consumers :: "nat set list"
  ps_scans :: nat
  ps_sinks :: nat

fun scan_upstreams ::
    "string \<Rightarrow> nat \<Rightarrow> dataflow_input list \<Rightarrow> nat set list \<Rightarrow> nat set list result" where
  "scan_upstreams label stage_id [] cs = Inr cs"
| "scan_upstreams label stage_id (i # is) cs =
     (if stage_id \<le> di_upstream i then Inl (label @ '' has a non-upstream input'')
      else scan_upstreams label stage_id is
             (cs[di_upstream i := insert stage_id (cs ! di_upstream i)]))"

definition scan_stage :: "nat \<Rightarrow> dataflow_stage \<Rightarrow> plan_scan \<Rightarrow> plan_scan result" where
  "scan_stage stage_id stage ps =
     (let label = ''stage '' @ decimal stage_id;
          expected = input_count (spec_kind (st_spec stage)) in
      if length (st_inputs stage) \<noteq> expected
      then Inl (label @ '' ('' @ kind_debug (spec_kind (st_spec stage)) @ '') requires ''
        @ decimal expected @ '' inputs, found '' @ decimal (length (st_inputs stage)))
      else
        bind_res (scan_upstreams label stage_id (st_inputs stage) (ps_consumers ps)) (\<lambda>cs.
        bind_res (validate_stage stage label) (\<lambda>_.
        case st_spec stage of
          OpScan spec \<Rightarrow>
            if scan_source_oid spec = 0 then Inl (label @ '' has an invalid source OID'')
            else Inr (ps\<lparr>ps_consumers := cs, ps_scans := ps_scans ps + 1\<rparr>)
        | OpSink \<Rightarrow> Inr (ps\<lparr>ps_consumers := cs, ps_sinks := ps_sinks ps + 1\<rparr>)
        | _ \<Rightarrow> Inr (ps\<lparr>ps_consumers := cs\<rparr>))))"

fun scan_stages :: "nat \<Rightarrow> dataflow_stage list \<Rightarrow> plan_scan \<Rightarrow> plan_scan result" where
  "scan_stages stage_id [] ps = Inr ps"
| "scan_stages stage_id (s # ss) ps =
     bind_res (scan_stage stage_id s ps) (scan_stages (stage_id + 1) ss)"

definition check_consumers :: "nat set list \<Rightarrow> nat \<times> dataflow_stage \<Rightarrow> unit result" where
  "check_consumers cs = (\<lambda>(stage_id, stage).
     if spec_kind (st_spec stage) = KSink
     then if cs ! stage_id \<noteq> {}
       then Inl (''Sink stage '' @ decimal stage_id @ '' has a downstream consumer'') else Inr ()
     else if cs ! stage_id = {}
     then Inl (''stage '' @ decimal stage_id @ '' has no durable path to the Sink'') else Inr ())"

definition validate_plan :: "dataflow_plan \<Rightarrow> unit result" where
  "validate_plan plan =
     bind_res (validate_execution_settings (pl_settings plan)) (\<lambda>_.
     if pl_stages plan = [] then Inl ''dataflow plan has no stages''
     else
       bind_res (scan_stages 0 (pl_stages plan)
           \<lparr>ps_consumers = replicate (length (pl_stages plan)) {}, ps_scans = 0, ps_sinks = 0\<rparr>)
         (\<lambda>ps.
       if ps_scans ps = 0 then Inl ''dataflow plan has no Scan stage''
       else if ps_sinks ps \<noteq> 1
       then Inl (''dataflow plan must contain exactly one Sink, found '' @ decimal (ps_sinks ps))
       else
         bind_res (check_all (check_consumers (ps_consumers ps)) (enumerate 0 (pl_stages plan)))
           (\<lambda>_.
         validate_slot_bindings (pl_stages plan))))"

end
