(* ===== verification/Plan_Typing.thy ===== *)
theory Plan_Typing
  imports Plan_Validate
begin

text \<open>
  A type system for scalar expressions, stages and plans, and the proof that the validation of
  \<open>Plan_Validate\<close> accepts exactly what it types.  The validator visits an expression twice, once
  flat and once with the stack of CASE operands; the relation \<open>has_type\<close> is one judgement over the
  declared bindings \<open>bs\<close> and the types \<open>ops\<close> of the enclosing simple CASE operands.
\<close>

section \<open>The typing judgement\<close>

definition object_type :: "nat \<Rightarrow> slot_type \<Rightarrow> bool" where
  "object_type oid t \<longleftrightarrow> oid \<noteq> 0 \<and> ty_oid t \<noteq> 0"

text \<open>A placeholder has the type of the operand, up to nullability.\<close>

definition same_sql_type :: "slot_type \<Rightarrow> slot_type \<Rightarrow> bool" where
  "same_sql_type t u \<longleftrightarrow>
     ty_oid t = ty_oid u \<and> ty_typmod t = ty_typmod u \<and> ty_collation t = ty_collation u"

inductive has_type :: "typing \<Rightarrow> slot_type list \<Rightarrow> scalar_expr \<Rightarrow> slot_type \<Rightarrow> bool"
  for bs :: typing where
  HInput: "bs b = Some t \<Longrightarrow> has_type bs ops (EInput b) t"
| HConstant: "ty_oid t \<noteq> 0 \<Longrightarrow> has_type bs ops (EConstant t v) t"
| HCall: "object_type f t \<Longrightarrow> \<forall>a\<in>set args. \<exists>s. has_type bs ops a s \<Longrightarrow>
    has_type bs ops (ECall f args t) t"
| HOperator: "object_type f t \<Longrightarrow> \<forall>a\<in>set args. \<exists>s. has_type bs ops a s \<Longrightarrow>
    has_type bs ops (EOperator f args t) t"
| HDistinct: "object_type f t \<Longrightarrow> has_type bs ops l t1 \<Longrightarrow> has_type bs ops r t2 \<Longrightarrow>
    has_type bs ops (EDistinct f l r t) t"
| HNullIf: "object_type f t \<Longrightarrow> has_type bs ops l t1 \<Longrightarrow> has_type bs ops r t2 \<Longrightarrow>
    has_type bs ops (ENullIf f l r t) t"
| HScalarArray: "object_type f t \<Longrightarrow> has_type bs ops l t1 \<Longrightarrow> has_type bs ops r t2 \<Longrightarrow>
    has_type bs ops (EScalarArray f l r u t) t"
| HBool: "args \<noteq> [] \<Longrightarrow> (k = BoolNot \<Longrightarrow> length args = 1) \<Longrightarrow>
    \<forall>a\<in>set args. \<exists>s. has_type bs ops a s \<Longrightarrow> has_type bs ops (EBool k args) boolean_type"
| HBooleanTest: "has_type bs ops a s \<Longrightarrow> has_type bs ops (EBooleanTest a k) boolean_type"
| HNullTest: "has_type bs ops a s \<Longrightarrow> has_type bs ops (ENullTest a n) boolean_type"
| HCoalesce: "args \<noteq> [] \<Longrightarrow> ty_oid t \<noteq> 0 \<Longrightarrow> \<forall>a\<in>set args. \<exists>s. has_type bs ops a s \<Longrightarrow>
    has_type bs ops (ECoalesce args t) t"
| HSearchedCase: "arms \<noteq> [] \<Longrightarrow> ty_oid t \<noteq> 0 \<Longrightarrow>
    \<forall>arm\<in>set arms. (\<exists>s. has_type bs ops (arm_when arm) s) \<and> (\<exists>s. has_type bs ops (arm_then arm) s) \<Longrightarrow>
    has_type bs ops els t1 \<Longrightarrow> has_type bs ops (ECase None arms els t) t"
| HSimpleCase: "arms \<noteq> [] \<Longrightarrow> ty_oid t \<noteq> 0 \<Longrightarrow> has_type bs ops a ty \<Longrightarrow>
    \<forall>arm\<in>set arms. (\<exists>s. has_type bs (ops @ [ty]) (arm_when arm) s)
      \<and> (\<exists>s. has_type bs ops (arm_then arm) s) \<Longrightarrow>
    has_type bs ops els t1 \<Longrightarrow> has_type bs ops (ECase (Some a) arms els t) t"
| HCaseTest: "ty_oid t \<noteq> 0 \<Longrightarrow> same_sql_type t ty \<Longrightarrow>
    has_type bs (ops @ [ty]) (ECaseTest t) t"
| HRelabel: "ty_oid t \<noteq> 0 \<Longrightarrow> has_type bs ops a s \<Longrightarrow> has_type bs ops (ERelabel a t) t"
| HCoerceViaIo: "ty_oid t \<noteq> 0 \<Longrightarrow> has_type bs ops a s \<Longrightarrow> has_type bs ops (ECoerceViaIo a t) t"
| HCoerceToDomain: "ty_oid t \<noteq> 0 \<Longrightarrow> has_type bs ops a s \<Longrightarrow>
    has_type bs ops (ECoerceToDomain a t) t"
| HCollate: "ty_oid t \<noteq> 0 \<Longrightarrow> has_type bs ops a s \<Longrightarrow> has_type bs ops (ECollate a c t) t"

inductive_cases has_type_elims:
  "has_type bs ops (EInput b) t" "has_type bs ops (EConstant u v) t"
  "has_type bs ops (ECall f args u) t" "has_type bs ops (EOperator f args u) t"
  "has_type bs ops (EDistinct f l r u) t" "has_type bs ops (ENullIf f l r u) t"
  "has_type bs ops (EScalarArray f l r n u) t" "has_type bs ops (EBool k args) t"
  "has_type bs ops (EBooleanTest a k) t" "has_type bs ops (ENullTest a n) t"
  "has_type bs ops (ECoalesce args u) t" "has_type bs ops (ECaseTest u) t"
  "has_type bs ops (ERelabel a u) t" "has_type bs ops (ECoerceViaIo a u) t"
  "has_type bs ops (ECoerceToDomain a u) t" "has_type bs ops (ECollate a c u) t"

inductive_cases has_type_caseE:
  "has_type bs ops (ECase None arms els u) t" "has_type bs ops (ECase (Some a) arms els u) t"

definition typable :: "typing \<Rightarrow> slot_type list \<Rightarrow> scalar_expr \<Rightarrow> bool" where
  "typable bs ops e \<longleftrightarrow> (\<exists>t. has_type bs ops e t)"

lemma has_type_expression_type: "has_type bs ops e t \<Longrightarrow> expression_type e bs = Some t"
  by (erule has_type.cases) simp_all

lemma has_type_unique: "has_type bs ops e t \<Longrightarrow> has_type bs ops' e u \<Longrightarrow> t = u"
  by (metis has_type_expression_type option.inject)

lemma typable_type: "typable bs ops e \<Longrightarrow> expression_type e bs = Some t \<Longrightarrow> has_type bs ops e t"
  unfolding typable_def by (metis has_type_expression_type option.inject)

text \<open>The judgement of a node in terms of its parts.\<close>

lemma typable_simps:
  "typable bs ops (EInput b) \<longleftrightarrow> bs b \<noteq> None"
  "typable bs ops (EConstant t v) \<longleftrightarrow> ty_oid t \<noteq> 0"
  "typable bs ops (ECall f args t) \<longleftrightarrow> object_type f t \<and> (\<forall>a\<in>set args. typable bs ops a)"
  "typable bs ops (EOperator f args t) \<longleftrightarrow> object_type f t \<and> (\<forall>a\<in>set args. typable bs ops a)"
  "typable bs ops (EDistinct f l r t) \<longleftrightarrow> object_type f t \<and> typable bs ops l \<and> typable bs ops r"
  "typable bs ops (ENullIf f l r t) \<longleftrightarrow> object_type f t \<and> typable bs ops l \<and> typable bs ops r"
  "typable bs ops (EScalarArray f l r u t) \<longleftrightarrow>
     object_type f t \<and> typable bs ops l \<and> typable bs ops r"
  "typable bs ops (EBooleanTest a test) \<longleftrightarrow> typable bs ops a"
  "typable bs ops (ENullTest a n) \<longleftrightarrow> typable bs ops a"
  "typable bs ops (ECoalesce args t) \<longleftrightarrow>
     args \<noteq> [] \<and> ty_oid t \<noteq> 0 \<and> (\<forall>a\<in>set args. typable bs ops a)"
  "typable bs ops (ERelabel a t) \<longleftrightarrow> ty_oid t \<noteq> 0 \<and> typable bs ops a"
  "typable bs ops (ECoerceViaIo a t) \<longleftrightarrow> ty_oid t \<noteq> 0 \<and> typable bs ops a"
  "typable bs ops (ECoerceToDomain a t) \<longleftrightarrow> ty_oid t \<noteq> 0 \<and> typable bs ops a"
  "typable bs ops (ECollate a c t) \<longleftrightarrow> ty_oid t \<noteq> 0 \<and> typable bs ops a"
  unfolding typable_def by (auto intro: has_type.intros elim: has_type_elims)

lemma typable_bool:
  "typable bs ops (EBool k args) \<longleftrightarrow>
     args \<noteq> [] \<and> (k = BoolNot \<longrightarrow> length args = 1) \<and> (\<forall>a\<in>set args. typable bs ops a)"
proof
  assume "typable bs ops (EBool k args)"
  then show "args \<noteq> [] \<and> (k = BoolNot \<longrightarrow> length args = 1) \<and> (\<forall>a\<in>set args. typable bs ops a)"
    unfolding typable_def by (auto elim: has_type_elims)
next
  assume "args \<noteq> [] \<and> (k = BoolNot \<longrightarrow> length args = 1) \<and> (\<forall>a\<in>set args. typable bs ops a)"
  then have "has_type bs ops (EBool k args) boolean_type"
    unfolding typable_def by (intro HBool) auto
  then show "typable bs ops (EBool k args)" by (auto simp: typable_def)
qed

lemma typable_case_test:
  "typable bs ops (ECaseTest t) \<longleftrightarrow>
     ty_oid t \<noteq> 0 \<and> (\<exists>ty. last_opt ops = Some ty \<and> same_sql_type t ty)"
proof (cases ops rule: rev_cases)
  case (snoc xs x)
  then have "last_opt ops = Some x" by (cases xs) auto
  then show ?thesis using snoc by (auto simp: typable_def intro: has_type.intros elim: has_type_elims)
qed (auto simp: typable_def elim: has_type_elims)

lemma typable_searched_case:
  "typable bs ops (ECase None arms els t) \<longleftrightarrow>
     arms \<noteq> [] \<and> ty_oid t \<noteq> 0 \<and> typable bs ops els
     \<and> (\<forall>arm\<in>set arms. typable bs ops (arm_when arm) \<and> typable bs ops (arm_then arm))"
  unfolding typable_def by (auto intro: has_type.intros elim!: has_type_caseE)

lemma typable_simple_case:
  "typable bs ops (ECase (Some a) arms els t) \<longleftrightarrow>
     arms \<noteq> [] \<and> ty_oid t \<noteq> 0 \<and> typable bs ops els
     \<and> (\<exists>ty. has_type bs ops a ty
          \<and> (\<forall>arm\<in>set arms. typable bs (ops @ [ty]) (arm_when arm) \<and> typable bs ops (arm_then arm)))"
  unfolding typable_def by (auto intro: has_type.intros elim!: has_type_caseE)

section \<open>The validator accepts exactly the typable expressions\<close>

definition parts_ok :: "typing \<Rightarrow> string \<Rightarrow> scalar_expr \<Rightarrow> bool" where
  "parts_ok bs node e \<longleftrightarrow> (\<forall>p\<in>set (visit e). part_error bs node p = None)"

lemma first_error_Inr [res_simps]: "first_error f xs = Inr () \<longleftrightarrow> (\<forall>x\<in>set xs. f x = None)"
  by (induction xs) (auto split: option.splits)

lemma parts_ok_simps:
  "parts_ok bs node (EInput b) \<longleftrightarrow> bs b \<noteq> None"
  "parts_ok bs node (EConstant t v) \<longleftrightarrow> ty_oid t \<noteq> 0"
  "parts_ok bs node (ECall f args t) \<longleftrightarrow> object_type f t \<and> (\<forall>a\<in>set args. parts_ok bs node a)"
  "parts_ok bs node (EOperator f args t) \<longleftrightarrow> object_type f t \<and> (\<forall>a\<in>set args. parts_ok bs node a)"
  "parts_ok bs node (EDistinct f l r t) \<longleftrightarrow>
     object_type f t \<and> parts_ok bs node l \<and> parts_ok bs node r"
  "parts_ok bs node (ENullIf f l r t) \<longleftrightarrow>
     object_type f t \<and> parts_ok bs node l \<and> parts_ok bs node r"
  "parts_ok bs node (EScalarArray f l r u t) \<longleftrightarrow>
     object_type f t \<and> parts_ok bs node l \<and> parts_ok bs node r"
  "parts_ok bs node (EBool k args) \<longleftrightarrow>
     args \<noteq> [] \<and> (k = BoolNot \<longrightarrow> length args = 1) \<and> (\<forall>a\<in>set args. parts_ok bs node a)"
  "parts_ok bs node (EBooleanTest a test) \<longleftrightarrow> parts_ok bs node a"
  "parts_ok bs node (ENullTest a n) \<longleftrightarrow> parts_ok bs node a"
  "parts_ok bs node (ECoalesce args t) \<longleftrightarrow>
     args \<noteq> [] \<and> ty_oid t \<noteq> 0 \<and> (\<forall>a\<in>set args. parts_ok bs node a)"
  "parts_ok bs node (ECaseTest t) \<longleftrightarrow> ty_oid t \<noteq> 0"
  "parts_ok bs node (ERelabel a t) \<longleftrightarrow> ty_oid t \<noteq> 0 \<and> parts_ok bs node a"
  "parts_ok bs node (ECoerceViaIo a t) \<longleftrightarrow> ty_oid t \<noteq> 0 \<and> parts_ok bs node a"
  "parts_ok bs node (ECoerceToDomain a t) \<longleftrightarrow> ty_oid t \<noteq> 0 \<and> parts_ok bs node a"
  "parts_ok bs node (ECollate a c t) \<longleftrightarrow> ty_oid t \<noteq> 0 \<and> parts_ok bs node a"
  "parts_ok bs node (ECase operand arms els t) \<longleftrightarrow>
     arms \<noteq> [] \<and> ty_oid t \<noteq> 0 \<and> (\<forall>a. operand = Some a \<longrightarrow> parts_ok bs node a)
     \<and> (\<forall>arm\<in>set arms. parts_ok bs node (arm_when arm) \<and> parts_ok bs node (arm_then arm))
     \<and> parts_ok bs node els"
  unfolding parts_ok_def
  by (auto simp: part_error_def Let_def object_type_def ball_Un case_when.case_eq_if split: option.splits)

lemma parts_and_scope_typable:
  "parts_ok bs node e \<and> validate_case_test_scope e ops bs node = Inr () \<longleftrightarrow> typable bs ops e"
proof (induction e arbitrary: ops)
  case (ECaseTest t)
  show ?case
    by (auto simp: parts_ok_simps typable_case_test same_sql_type_def split: option.splits if_splits)
next
  case (ECase operand arms els t)
  have arm: "(parts_ok bs node (arm_when arm) \<and>
        validate_case_test_scope (arm_when arm) ops' bs node = Inr ()) = typable bs ops' (arm_when arm)"
      "(parts_ok bs node (arm_then arm) \<and>
        validate_case_test_scope (arm_then arm) ops bs node = Inr ()) = typable bs ops (arm_then arm)"
    if "arm \<in> set arms" for arm ops'
    using ECase.IH(2)[OF that] by (cases arm; auto)+
  have arms: "(\<forall>arm\<in>set arms. parts_ok bs node (arm_when arm) \<and> parts_ok bs node (arm_then arm))
      \<and> (\<forall>arm\<in>set arms. validate_case_test_scope (arm_when arm) ops' bs node = Inr ()
           \<and> validate_case_test_scope (arm_then arm) ops bs node = Inr ()) \<longleftrightarrow>
      (\<forall>arm\<in>set arms. typable bs ops' (arm_when arm) \<and> typable bs ops (arm_then arm))" for ops'
    using arm by blast
  have check: "check_all (\<lambda>arm. case arm of CaseWhen w h \<Rightarrow>
          bind_res (validate_case_test_scope w ops' bs node)
            (\<lambda>_. validate_case_test_scope h ops bs node)) arms = Inr () \<longleftrightarrow>
      (\<forall>arm\<in>set arms. validate_case_test_scope (arm_when arm) ops' bs node = Inr ()
           \<and> validate_case_test_scope (arm_then arm) ops bs node = Inr ())" for ops'
    unfolding check_all_Inr by (intro ball_cong refl) (auto simp: bind_res_unit split: case_when.split)
  show ?case
  proof (cases operand)
    case None
    then show ?thesis
      using arms[of ops] ECase.IH(3)[of ops]
      by (auto simp: parts_ok_simps typable_searched_case bind_res_unit check)
  next
    case (Some a)
    have a: "(parts_ok bs node a \<and> validate_case_test_scope a ops bs node = Inr ()) = typable bs ops a"
      using ECase.IH(1) Some by simp
    have "typable bs ops (ECase (Some a) arms els t) \<longleftrightarrow>
        arms \<noteq> [] \<and> ty_oid t \<noteq> 0 \<and> typable bs ops els \<and> typable bs ops a
        \<and> (\<exists>ty. expression_type a bs = Some ty \<and> (\<forall>arm\<in>set arms.
             typable bs (ops @ [ty]) (arm_when arm) \<and> typable bs ops (arm_then arm)))"
      unfolding typable_simple_case
      by (meson has_type_expression_type typable_def typable_type)
    also have "\<dots> \<longleftrightarrow> parts_ok bs node (ECase (Some a) arms els t)
        \<and> validate_case_test_scope (ECase (Some a) arms els t) ops bs node = Inr ()"
      unfolding arms[symmetric] a[symmetric] ECase.IH(3)[symmetric]
      by (auto simp: parts_ok_simps bind_res_unit bind_res_Inr ok_or_Inr check)
    finally show ?thesis using Some by simp
  qed
qed (auto simp: parts_ok_simps typable_simps typable_bool res_simps)

lemma validate_scalar_expr_typable [res_simps]:
  "validate_scalar_expr e bs node = Inr () \<longleftrightarrow> typable bs [] e"
  by (simp add: validate_scalar_expr_def bind_res_unit first_error_Inr
      parts_and_scope_typable[of bs node e "[]", unfolded parts_ok_def])

section \<open>Typed operators\<close>

text \<open>A grouping or sorting key has the type it declares.\<close>

definition key_typed :: "typing \<Rightarrow> sort_group_expr \<Rightarrow> bool" where
  "key_typed bs k \<longleftrightarrow>
     sg_equality_operator k \<noteq> 0 \<and> sg_sort_operator k \<noteq> 0 \<and> ty_oid (sg_type k) \<noteq> 0
     \<and> has_type bs [] (sg_expr k) (sg_type k)"

fun spec_keys :: "operator_spec \<Rightarrow> sort_group_expr list" where
  "spec_keys (OpDistinct s) = ds_keys s"
| "spec_keys (OpAggregate s) =
     map ge_key (as_groups s) @ concat (map (\<lambda>a. ae_distinct a @ ae_order_by a) (as_aggregates s))"
| "spec_keys (OpWindow s) = ws_partition_by s @ ws_order_by s"
| "spec_keys (OpTopN s) = ts_order_by s"
| "spec_keys _ = []"

lemma spec_keys_expressions: "sg_expr ` set (spec_keys s) \<subseteq> set (spec_expressions s)"
  by (cases s) (auto simp: aggregate_expressions_def)

definition declares :: "input_slot list \<Rightarrow> binding_id \<Rightarrow> nat \<Rightarrow> slot_type \<Rightarrow> bool" where
  "declares inputs b port t \<longleftrightarrow>
     (\<exists>i\<in>set inputs. in_binding i = b \<and> in_port i = port \<and> in_type i = t)"

text \<open>The conditions of an operator beyond the types of its expressions.\<close>

fun operator_wf :: "input_slot list \<Rightarrow> operator_spec \<Rightarrow> bool" where
  "operator_wf inputs (OpScan s) \<longleftrightarrow>
     scan_source_oid s \<noteq> 0 \<and> (\<forall>c\<in>set (scan_columns s). scol_attnum c \<noteq> 0)
     \<and> distinct (map scol_output (scan_columns s))"
| "operator_wf inputs (OpJoin s) \<longleftrightarrow>
     (\<forall>k\<in>set (js_equi_keys s). \<exists>t. declares inputs (jk_left_binding k) 0 t
        \<and> declares inputs (jk_right_binding k) 1 t)
     \<and> (js_kind s = JoinNullAwareAnti \<longrightarrow> js_equi_keys s = [])"
| "operator_wf inputs (OpAggregate s) \<longleftrightarrow>
     distinct (map ae_ref_id (as_aggregates s))
     \<and> (\<forall>a\<in>set (as_aggregates s). ae_ref_id a \<noteq> 0 \<and> object_type (ae_function a) (ae_type a))"
| "operator_wf inputs (OpWindow s) \<longleftrightarrow>
     distinct (map we_ref_id (ws_functions s))
     \<and> (\<forall>f\<in>set (ws_functions s). we_ref_id f \<noteq> 0 \<and> object_type (we_function f) (we_type f))
     \<and> wf_start_in_range_function (ws_frame s) \<noteq> Some 0
     \<and> wf_end_in_range_function (ws_frame s) \<noteq> Some 0"
| "operator_wf inputs (OpTopN s) \<longleftrightarrow> ts_order_by s \<noteq> []"
| "operator_wf inputs _ \<longleftrightarrow> True"

definition operator_typed :: "input_slot list \<Rightarrow> typing \<Rightarrow> operator_spec \<Rightarrow> bool" where
  "operator_typed inputs bs s \<longleftrightarrow>
     operator_wf inputs s \<and> (\<forall>k\<in>set (spec_keys s). key_typed bs k)
     \<and> (\<forall>e\<in>set (spec_expressions s). typable bs [] e)"

definition typing_of :: "input_slot list \<Rightarrow> typing" where
  "typing_of inputs = map_of (map (\<lambda>i. (in_binding i, in_type i)) inputs)"

lemma typing_of_Some:
  "distinct (map in_binding inputs) \<Longrightarrow>
     typing_of inputs b = Some t \<longleftrightarrow> (\<exists>i\<in>set inputs. in_binding i = b \<and> in_type i = t)"
  unfolding typing_of_def by (subst map_of_eq_Some_iff) (auto simp: comp_def)

lemma typing_of_None: "typing_of inputs b = None \<longleftrightarrow> b \<notin> in_binding ` set inputs"
  by (auto simp: typing_of_def map_of_eq_None_iff image_image)

lemma input_on_port_declares:
  assumes "distinct (map in_binding inputs)"
  shows "input_on_port inputs b port \<and> typing_of inputs b = Some t \<longleftrightarrow> declares inputs b port t"
proof (cases "find (\<lambda>i. in_binding i = b) inputs")
  case None
  then have "\<not> input_on_port inputs b port" by (simp add: input_on_port_def)
  moreover have "\<not> declares inputs b port t"
    using None unfolding find_None_iff declares_def by blast
  ultimately show ?thesis by simp
next
  case (Some i)
  then have i: "i \<in> set inputs" "in_binding i = b" by (auto simp: find_Some_iff)
  have uniq: "j = i" if "j \<in> set inputs" "in_binding j = b" for j
    using assms i that by (metis distinct_map inj_onD)
  have "declares inputs b port t \<longleftrightarrow> in_port i = port \<and> in_type i = t"
    unfolding declares_def using i uniq by blast
  moreover have "typing_of inputs b = Some t \<longleftrightarrow> in_type i = t"
    unfolding typing_of_Some[OF assms] using i uniq by blast
  ultimately show ?thesis using Some by (simp add: input_on_port_def)
qed

lemma has_duplicates_distinct [simp]: "has_duplicates xs \<longleftrightarrow> \<not> distinct xs"
proof -
  have "has_duplicates_seen s xs \<longleftrightarrow> \<not> distinct xs \<or> set xs \<inter> s \<noteq> {}" for s
    by (induction xs arbitrary: s) auto
  then show ?thesis by (simp add: has_duplicates_def)
qed

lemma validate_slot_type_Inr [res_simps]: "validate_slot_type t node = Inr () \<longleftrightarrow> ty_oid t \<noteq> 0"
  by (simp add: validate_slot_type_def)

text \<open>The validator checks the declared type only; the expression is typed with the others.\<close>

definition key_declared :: "typing \<Rightarrow> sort_group_expr \<Rightarrow> bool" where
  "key_declared bs k \<longleftrightarrow>
     sg_equality_operator k \<noteq> 0 \<and> sg_sort_operator k \<noteq> 0 \<and> ty_oid (sg_type k) \<noteq> 0
     \<and> expression_type (sg_expr k) bs = Some (sg_type k)"

lemma validate_sort_group_Inr [res_simps]:
  "validate_sort_group_expression k bs label role = Inr () \<longleftrightarrow> key_declared bs k"
  by (auto simp: validate_sort_group_expression_def validate_expression_type_def key_declared_def
      res_simps)

lemma key_typed_declared: "key_typed bs k \<longleftrightarrow> key_declared bs k \<and> typable bs [] (sg_expr k)"
  unfolding key_typed_def key_declared_def
  by (metis has_type_expression_type typable_def typable_type)

lemma invalid_equi_key_iff:
  assumes "distinct (map in_binding (sch_inputs (st_schema stage)))"
  shows "\<not> invalid_equi_key stage (typing_of (sch_inputs (st_schema stage))) k \<longleftrightarrow>
    (\<exists>t. declares (sch_inputs (st_schema stage)) (jk_left_binding k) 0 t
       \<and> declares (sch_inputs (st_schema stage)) (jk_right_binding k) 1 t)"
  unfolding input_on_port_declares[OF assms, symmetric] invalid_equi_key_def by auto

lemma validate_operator_config_iff:
  assumes "distinct (map in_binding (sch_inputs (st_schema stage)))"
  shows "validate_operator_config stage label (typing_of (sch_inputs (st_schema stage))) = Inr ()
    \<longleftrightarrow> operator_wf (sch_inputs (st_schema stage)) (st_spec stage)
      \<and> (\<forall>k\<in>set (spec_keys (st_spec stage)).
           key_declared (typing_of (sch_inputs (st_schema stage))) k)"
proof (cases "st_spec stage")
  case (OpJoin s)
  have "(\<exists>k\<in>set (js_equi_keys s).
        invalid_equi_key stage (typing_of (sch_inputs (st_schema stage))) k) \<longleftrightarrow>
      \<not> (\<forall>k\<in>set (js_equi_keys s).
        \<exists>t. declares (sch_inputs (st_schema stage)) (jk_left_binding k) 0 t
          \<and> declares (sch_inputs (st_schema stage)) (jk_right_binding k) 1 t)"
    using invalid_equi_key_iff[OF assms] by blast
  then show ?thesis
    using OpJoin by (simp add: validate_operator_config_def list_ex_iff)
qed (auto simp: validate_operator_config_def validate_aggregate_spec_def validate_window_spec_def
    object_type_def list_ex_iff res_simps)

lemma validate_operator_spec_iff:
  assumes "distinct (map in_binding (sch_inputs (st_schema stage)))"
  shows "validate_operator_spec stage label (typing_of (sch_inputs (st_schema stage))) = Inr ()
    \<longleftrightarrow> operator_typed (sch_inputs (st_schema stage)) (typing_of (sch_inputs (st_schema stage)))
          (st_spec stage)"
  using spec_keys_expressions[of "st_spec stage"]
  by (auto simp: validate_operator_spec_def operator_typed_def key_typed_declared res_simps
      validate_operator_config_iff[OF assms])

end
