(* ===== verification/Plan_Wellformed.thy ===== *)
theory Plan_Wellformed
  imports Plan_Typing
begin

text \<open>
  Well-formed plans: stages, edges and the shape of the graph, declaratively, and the proof that
  \<open>validate_plan\<close> decides exactly this.
\<close>

section \<open>The specification\<close>

definition settings_wf :: "execution_settings \<Rightarrow> bool" where
  "settings_wf s \<longleftrightarrow>
     es_timezone s \<noteq> [] \<and> es_datestyle s \<noteq> [] \<and> es_intervalstyle s \<noteq> []
     \<and> es_extra_float_digits s \<in> {- 15..3} \<and> es_bytea_output s \<in> {''hex'', ''escape''}"

definition stage_typed :: "dataflow_stage \<Rightarrow> bool" where
  "stage_typed s \<longleftrightarrow>
     (let inputs = sch_inputs (st_schema s); outputs = sch_outputs (st_schema s) in
      (\<forall>i\<in>set inputs. in_port i < input_count (spec_kind (st_spec s)) \<and> ty_oid (in_type i) \<noteq> 0)
      \<and> distinct (map in_binding inputs)
      \<and> (\<forall>out\<in>set outputs. ty_oid (out_type out) \<noteq> 0) \<and> distinct (map out_slot outputs)
      \<and> map out_slot outputs = spec_output_slots (st_spec s)
      \<and> operator_typed inputs (typing_of inputs) (st_spec s))"

text \<open>Every slot binding of an input connects an upstream output to a declared input of its port.\<close>

definition edge_typed :: "dataflow_stage list \<Rightarrow> dataflow_stage \<Rightarrow> nat \<Rightarrow> slot_binding \<Rightarrow> bool" where
  "edge_typed stages s port b \<longleftrightarrow>
     (\<exists>out\<in>set (sch_outputs (st_schema (stages ! di_upstream (st_inputs s ! port)))).
        out_slot out = sb_source b
        \<and> declares (sch_inputs (st_schema s)) (sb_target b) port (out_type out))"

definition bound_targets :: "dataflow_input list \<Rightarrow> binding_id list" where
  "bound_targets inputs = concat (map (\<lambda>i. map sb_target (di_bindings i)) inputs)"

definition edges_typed :: "dataflow_stage list \<Rightarrow> dataflow_stage \<Rightarrow> bool" where
  "edges_typed stages s \<longleftrightarrow>
     (\<forall>port<length (st_inputs s). \<forall>b\<in>set (di_bindings (st_inputs s ! port)).
        edge_typed stages s port b)
     \<and> distinct (bound_targets (st_inputs s))
     \<and> in_binding ` set (sch_inputs (st_schema s)) \<subseteq> set (bound_targets (st_inputs s))"

text \<open>Stage \<open>j\<close> reads the output of stage \<open>i\<close>.\<close>

definition reads :: "dataflow_stage list \<Rightarrow> nat \<Rightarrow> nat \<Rightarrow> bool" where
  "reads stages j i \<longleftrightarrow> j < length stages \<and> i \<in> di_upstream ` set (st_inputs (stages ! j))"

definition is_sink :: "dataflow_stage \<Rightarrow> bool" where
  "is_sink s \<longleftrightarrow> spec_kind (st_spec s) = KSink"

definition is_scan :: "dataflow_stage \<Rightarrow> bool" where
  "is_scan s \<longleftrightarrow> spec_kind (st_spec s) = KScan"

definition plan_typed :: "dataflow_plan \<Rightarrow> bool" where
  "plan_typed plan \<longleftrightarrow>
     (let stages = pl_stages plan in
      settings_wf (pl_settings plan)
      \<and> (\<forall>j<length stages. length (st_inputs (stages ! j)) = input_count (spec_kind (st_spec (stages ! j)))
           \<and> (\<forall>i. reads stages j i \<longrightarrow> i < j) \<and> stage_typed (stages ! j)
           \<and> edges_typed stages (stages ! j))
      \<and> (\<exists>j<length stages. is_scan (stages ! j))
      \<and> (\<exists>!j. j < length stages \<and> is_sink (stages ! j))
      \<and> (\<forall>i<length stages. is_sink (stages ! i) \<longleftrightarrow> \<not> (\<exists>j. reads stages j i)))"

section \<open>Stages\<close>

lemma collect_bindings_Inr:
  "collect_bindings ports label is bs = Inr bs' \<longleftrightarrow>
     (\<forall>i\<in>set is. in_port i < ports \<and> ty_oid (in_type i) \<noteq> 0 \<and> bs (in_binding i) = None)
     \<and> distinct (map in_binding is) \<and> bs' = bs ++ typing_of is"
proof (induction "is" arbitrary: bs)
  case (Cons i rest)
  show ?case
  proof (cases "in_binding i \<in> in_binding ` set rest")
    case True
    then obtain k where "k \<in> set rest" "in_binding k = in_binding i" by auto
    then have "\<not> (\<forall>k\<in>set rest. in_port k < ports \<and> ty_oid (in_type k) \<noteq> 0
        \<and> (bs(in_binding i \<mapsto> in_type i)) (in_binding k) = None)" by force
    then show ?thesis using True unfolding collect_bindings.simps by (simp add: Cons.IH res_simps)
  next
    case False
    have upd: "bs(in_binding i \<mapsto> in_type i) ++ typing_of rest = bs ++ typing_of (i # rest)"
      using False typing_of_None[of rest "in_binding i"]
      by (auto simp: typing_of_def map_add_def fun_eq_iff split: option.splits)
    have "(bs(in_binding i \<mapsto> in_type i)) (in_binding k) = bs (in_binding k)" if "k \<in> set rest" for k
      using False that by (metis fun_upd_other image_eqI)
    then have keep: "(\<forall>k\<in>set rest. in_port k < ports \<and> ty_oid (in_type k) \<noteq> 0
        \<and> (bs(in_binding i \<mapsto> in_type i)) (in_binding k) = None) \<longleftrightarrow>
      (\<forall>k\<in>set rest. in_port k < ports \<and> ty_oid (in_type k) \<noteq> 0 \<and> bs (in_binding k) = None)"
      by simp
    show ?thesis
      unfolding collect_bindings.simps if_Inl_Inr bind_res_unit Cons.IH upd keep
      using False by (auto simp: res_simps)
  qed
qed (auto simp: typing_of_def)

lemma check_outputs_Inr:
  "check_outputs label outs slots = Inr () \<longleftrightarrow>
     (\<forall>out\<in>set outs. ty_oid (out_type out) \<noteq> 0 \<and> out_slot out \<notin> slots)
     \<and> distinct (map out_slot outs)"
proof (induction outs arbitrary: slots)
  case (Cons out outs)
  show ?case unfolding check_outputs.simps bind_res_unit if_Inl_Inr Cons.IH
    by (auto simp: res_simps image_iff)
qed simp

lemma validate_stage_typed [res_simps]: "validate_stage s label = Inr () \<longleftrightarrow> stage_typed s"
proof -
  let ?is = "sch_inputs (st_schema s)"
  have "validate_operator_spec s label (typing_of ?is) = Inr () \<longleftrightarrow>
      operator_typed ?is (typing_of ?is) (st_spec s)" if "distinct (map in_binding ?is)"
    by (rule validate_operator_spec_iff[OF that])
  then show ?thesis
    by (auto simp: validate_stage_def stage_typed_def Let_def collect_bindings_Inr check_outputs_Inr
        bind_res_Inr)
qed

section \<open>Edges\<close>

lemma output_types_Some:
  "distinct (map out_slot outs) \<Longrightarrow>
     output_types outs s = Some t \<longleftrightarrow> (\<exists>out\<in>set outs. out_slot out = s \<and> out_type out = t)"
  unfolding output_types_def
  by (subst map_of_eq_Some_iff) (auto simp: comp_def rev_map distinct_map)

lemma declared_inputs_Some:
  "distinct (map in_binding is) \<Longrightarrow>
     declared_inputs is b = Some (p, t) \<longleftrightarrow> declares is b p t"
  unfolding declared_inputs_def declares_def
  by (subst map_of_eq_Some_iff) (auto simp: comp_def rev_map distinct_map)

lemma bind_slots_Inr:
  "bind_slots up down port txt bs bound = Inr bound' \<longleftrightarrow>
     (\<forall>b\<in>set bs. \<exists>t. up (sb_source b) = Some t \<and> down (sb_target b) = Some (port, t))
     \<and> distinct (map sb_target bs) \<and> sb_target ` set bs \<inter> bound = {}
     \<and> bound' = bound \<union> sb_target ` set bs"
  by (induction bs arbitrary: bound) (auto simp: res_simps)

lemma bind_inputs_Inr:
  "bind_inputs stages down stage_id port inputs bound = Inr bound' \<longleftrightarrow>
     (\<forall>k<length inputs. \<forall>b\<in>set (di_bindings (inputs ! k)). \<exists>t.
        output_types (sch_outputs (st_schema (stages ! di_upstream (inputs ! k)))) (sb_source b) = Some t
        \<and> down (sb_target b) = Some (port + k, t))
     \<and> distinct (bound_targets inputs) \<and> set (bound_targets inputs) \<inter> bound = {}
     \<and> bound' = bound \<union> set (bound_targets inputs)"
proof (induction inputs arbitrary: port bound)
  case (Cons i rest)
  have targets: "bound_targets (i # rest) = map sb_target (di_bindings i) @ bound_targets rest"
    by (simp add: bound_targets_def)
  show ?case
    unfolding bind_inputs.simps bind_res_Inr Cons.IH bind_slots_Inr length_Cons All_less_Suc2 targets
    by (simp add: Int_Un_distrib Int_Un_distrib2 Un_assoc) (use Int_commute in \<open>blast\<close>)
qed (auto simp: bound_targets_def)

lemma edge_typed_alt:
  "edge_typed stages s port b \<longleftrightarrow>
     (\<exists>t. (\<exists>out\<in>set (sch_outputs (st_schema (stages ! di_upstream (st_inputs s ! port)))).
            out_slot out = sb_source b \<and> out_type out = t)
       \<and> declares (sch_inputs (st_schema s)) (sb_target b) port t)"
  unfolding edge_typed_def by blast

lemma validate_stage_bindings_Inr:
  assumes "distinct (map in_binding (sch_inputs (st_schema s)))"
    and "\<And>i. i \<in> set (st_inputs s) \<Longrightarrow>
      distinct (map out_slot (sch_outputs (st_schema (stages ! di_upstream i))))"
  shows "validate_stage_bindings stages (j, s) = Inr () \<longleftrightarrow> edges_typed stages s"
proof -
  have *: "(\<exists>t. output_types (sch_outputs (st_schema (stages ! di_upstream (st_inputs s ! k))))
          (sb_source b) = Some t
        \<and> declared_inputs (sch_inputs (st_schema s)) (sb_target b) = Some (k, t))
      \<longleftrightarrow> edge_typed stages s k b"
    if "k < length (st_inputs s)" for k b
    unfolding edge_typed_alt declared_inputs_Some[OF assms(1)]
    using output_types_Some[OF assms(2)[OF nth_mem[OF that]]] by simp
  show ?thesis
    by (auto simp: validate_stage_bindings_def Let_def bind_res_Inr bind_inputs_Inr edges_typed_def
        list_ex_iff *)
qed

section \<open>The graph\<close>

lemma scan_upstreams_Inr:
  "stage_id \<le> length cs \<Longrightarrow>
     scan_upstreams label stage_id is cs = Inr cs' \<longleftrightarrow>
       (\<forall>i\<in>set is. di_upstream i < stage_id)
       \<and> cs' = map (\<lambda>u. cs ! u \<union> (if u \<in> di_upstream ` set is then {stage_id} else {}))
                 [0..<length cs]"
proof (induction "is" arbitrary: cs)
  case Nil
  then show ?case by (auto simp: map_nth)
next
  case (Cons i rest)
  then have IH: "scan_upstreams label stage_id rest cs1 = Inr cs' \<longleftrightarrow>
       (\<forall>i\<in>set rest. di_upstream i < stage_id)
       \<and> cs' = map (\<lambda>u. cs1 ! u \<union> (if u \<in> di_upstream ` set rest then {stage_id} else {}))
                 [0..<length cs1]" if "length cs1 = length cs" for cs1
    using that by simp
  show ?case
  proof (cases "di_upstream i < stage_id")
    case True
    have shifted: "map (\<lambda>u. cs[di_upstream i := insert stage_id (cs ! di_upstream i)] ! u
          \<union> (if u \<in> di_upstream ` set rest then {stage_id} else {})) [0..<length cs]
        = map (\<lambda>u. cs ! u \<union> (if u \<in> di_upstream ` set (i # rest) then {stage_id} else {}))
          [0..<length cs]"
      using True Cons.prems by (auto simp: nth_list_update)
    have "scan_upstreams label stage_id (i # rest) cs = Inr cs' \<longleftrightarrow>
        (\<forall>i\<in>set rest. di_upstream i < stage_id)
        \<and> cs' = map (\<lambda>u. cs[di_upstream i := insert stage_id (cs ! di_upstream i)] ! u
          \<union> (if u \<in> di_upstream ` set rest then {stage_id} else {})) [0..<length cs]"
      using True by (simp add: IH)
    then show ?thesis unfolding shifted using True by simp
  qed auto
qed

definition add_readers :: "nat \<Rightarrow> dataflow_stage list \<Rightarrow> nat set list \<Rightarrow> nat set list" where
  "add_readers k ss cs =
     map (\<lambda>u. cs ! u \<union> {k + j |j. j < length ss \<and> u \<in> di_upstream ` set (st_inputs (ss ! j))})
       [0..<length cs]"

definition stage_ok :: "nat \<Rightarrow> dataflow_stage \<Rightarrow> bool" where
  "stage_ok k s \<longleftrightarrow>
     length (st_inputs s) = input_count (spec_kind (st_spec s))
     \<and> (\<forall>i\<in>set (st_inputs s). di_upstream i < k) \<and> stage_typed s"

lemma scan_stage_Inr:
  assumes "k \<le> length (ps_consumers ps)"
  shows "scan_stage k s ps = Inr ps' \<longleftrightarrow>
    stage_ok k s
    \<and> ps' = \<lparr>ps_consumers = map (\<lambda>u. ps_consumers ps ! u
              \<union> (if u \<in> di_upstream ` set (st_inputs s) then {k} else {}))
              [0..<length (ps_consumers ps)],
            ps_scans = ps_scans ps + (if is_scan s then 1 else 0),
            ps_sinks = ps_sinks ps + (if is_sink s then 1 else 0)\<rparr>"
proof -
  have src: "scan_source_oid sp \<noteq> 0" if "stage_typed s" "st_spec s = OpScan sp" for sp
    using that by (simp add: stage_typed_def operator_typed_def Let_def)
  show ?thesis
    using src
    by (cases "st_spec s")
      (auto simp: scan_stage_def Let_def bind_res_Inr bind_res_unit validate_stage_typed
        scan_upstreams_Inr[OF assms] stage_ok_def is_scan_def is_sink_def)
qed

lemma add_readers_Cons:
  "add_readers k (s # ss) cs =
     add_readers (Suc k) ss (map (\<lambda>u. cs ! u
       \<union> (if u \<in> di_upstream ` set (st_inputs s) then {k} else {})) [0..<length cs])"
proof -
  have "{k + j |j. j < length (s # ss) \<and> u \<in> di_upstream ` set (st_inputs ((s # ss) ! j))} =
      (if u \<in> di_upstream ` set (st_inputs s) then {k} else {})
      \<union> {Suc k + j |j. j < length ss \<and> u \<in> di_upstream ` set (st_inputs (ss ! j))}" (is "?L = ?A \<union> ?B")
    for u
  proof (intro set_eqI)
    fix x
    have "x \<in> ?L \<longleftrightarrow> (\<exists>j<length (s # ss). x = k + j \<and> u \<in> di_upstream ` set (st_inputs ((s # ss) ! j)))"
      by auto
    also have "\<dots> \<longleftrightarrow> x \<in> ?A \<union> ?B"
      unfolding length_Cons Ex_less_Suc2 by auto
    finally show "x \<in> ?L \<longleftrightarrow> x \<in> ?A \<union> ?B" .
  qed
  then show ?thesis by (simp add: add_readers_def Un_assoc)
qed

lemma add_readers_Nil [simp]: "add_readers k [] cs = cs"
  by (simp add: add_readers_def map_nth)

lemma scan_stages_Inr:
  "k + length ss \<le> length (ps_consumers ps) \<Longrightarrow>
     scan_stages k ss ps = Inr ps' \<longleftrightarrow>
       (\<forall>j<length ss. stage_ok (k + j) (ss ! j))
       \<and> ps' = \<lparr>ps_consumers = add_readers k ss (ps_consumers ps),
               ps_scans = ps_scans ps + length (filter is_scan ss),
               ps_sinks = ps_sinks ps + length (filter is_sink ss)\<rparr>"
proof (induction ss arbitrary: k ps)
  case (Cons s ss)
  have k: "k \<le> length (ps_consumers ps)" using Cons.prems by simp
  show ?case
    unfolding scan_stages.simps bind_res_Inr scan_stage_Inr[OF k] length_Cons All_less_Suc2
    using Cons.prems by (auto simp: Cons.IH add_readers_Cons)
qed auto

lemma readers_of_plan:
  "u < length stages \<Longrightarrow>
     add_readers 0 stages (replicate (length stages) {}) ! u = {j. reads stages j u}"
  by (auto simp: add_readers_def reads_def)

lemma check_all_enumerate:
  "check_all f (enumerate 0 xs) = Inr () \<longleftrightarrow> (\<forall>i<length xs. f (i, xs ! i) = Inr ())"
  by (simp add: check_all_Inr split_paired_Ball_Sigma in_set_enumerate_eq Ball_def)

lemma stage_typed_distinct:
  assumes "stage_typed s"
  shows "distinct (map in_binding (sch_inputs (st_schema s)))"
    and "distinct (map out_slot (sch_outputs (st_schema s)))"
  using assms unfolding stage_typed_def Let_def by blast+

lemma check_consumers_Inr:
  "check_all (check_consumers cs) (enumerate 0 stages) = Inr () \<longleftrightarrow>
     (\<forall>i<length stages. is_sink (stages ! i) \<longleftrightarrow> cs ! i = {})"
  by (auto simp: check_all_enumerate check_consumers_def is_sink_def)

lemma validate_slot_bindings_Inr:
  assumes "\<forall>j<length stages. stage_ok j (stages ! j)"
  shows "validate_slot_bindings stages = Inr () \<longleftrightarrow>
    (\<forall>j<length stages. edges_typed stages (stages ! j))"
proof -
  have "validate_stage_bindings stages (j, stages ! j) = Inr () \<longleftrightarrow> edges_typed stages (stages ! j)"
    if j: "j < length stages" for j
  proof (rule validate_stage_bindings_Inr)
    show "distinct (map in_binding (sch_inputs (st_schema (stages ! j))))"
      using assms j by (simp add: stage_ok_def stage_typed_distinct)
    show "distinct (map out_slot (sch_outputs (st_schema (stages ! di_upstream i))))"
      if "i \<in> set (st_inputs (stages ! j))" for i
    proof -
      have "di_upstream i < length stages" using assms j that by (force simp: stage_ok_def)
      then have "stage_typed (stages ! di_upstream i)" using assms by (simp add: stage_ok_def)
      then show ?thesis by (rule stage_typed_distinct)
    qed
  qed
  then show ?thesis
    by (simp add: validate_slot_bindings_def check_all_enumerate)
qed

lemma one_sink:
  "length (filter P xs) = 1 \<longleftrightarrow> (\<exists>!j. j < length xs \<and> P (xs ! j))"
proof -
  have "length (filter P xs) = card {j. j < length xs \<and> P (xs ! j)}"
    by (rule length_filter_conv_card)
  then have "length (filter P xs) = 1 \<longleftrightarrow> (\<exists>x. {j. j < length xs \<and> P (xs ! j)} = {x})"
    by (simp add: card_1_singleton_iff)
  then show ?thesis unfolding Ex1_def set_eq_iff mem_Collect_eq singleton_iff by blast
qed

lemma some_scan: "length (filter P xs) \<noteq> 0 \<longleftrightarrow> (\<exists>j<length xs. P (xs ! j))"
  by (simp add: filter_empty_conv) (metis in_set_conv_nth)

lemma validate_settings_Inr: "validate_execution_settings s = Inr () \<longleftrightarrow> settings_wf s"
  by (auto simp: validate_execution_settings_def settings_wf_def)

section \<open>Validation decides well-formedness\<close>

lemma validate_plan_typed: "validate_plan plan = Inr () \<longleftrightarrow> plan_typed plan"
proof -
  let ?ss = "pl_stages plan"
  let ?init = "\<lparr>ps_consumers = replicate (length ?ss) {}, ps_scans = 0, ps_sinks = 0\<rparr>"
  have scan: "scan_stages 0 ?ss ?init = Inr ps' \<longleftrightarrow> (\<forall>j<length ?ss. stage_ok j (?ss ! j))
      \<and> ps' = \<lparr>ps_consumers = add_readers 0 ?ss (replicate (length ?ss) {}),
               ps_scans = length (filter is_scan ?ss), ps_sinks = length (filter is_sink ?ss)\<rparr>" for ps'
    by (subst scan_stages_Inr) simp_all
  have cons: "check_all (check_consumers (add_readers 0 ?ss (replicate (length ?ss) {})))
        (enumerate 0 ?ss) = Inr () \<longleftrightarrow>
      (\<forall>i<length ?ss. is_sink (?ss ! i) \<longleftrightarrow> \<not> (\<exists>j. reads ?ss j i))"
    by (simp add: check_consumers_Inr readers_of_plan)
  have ok: "stage_ok j (?ss ! j) \<longleftrightarrow>
      length (st_inputs (?ss ! j)) = input_count (spec_kind (st_spec (?ss ! j)))
      \<and> (\<forall>i. reads ?ss j i \<longrightarrow> i < j) \<and> stage_typed (?ss ! j)" if "j < length ?ss" for j
    using that by (auto simp: stage_ok_def reads_def)
  have "validate_plan plan = Inr () \<longleftrightarrow>
      settings_wf (pl_settings plan) \<and> ?ss \<noteq> [] \<and> (\<forall>j<length ?ss. stage_ok j (?ss ! j))
      \<and> length (filter is_scan ?ss) \<noteq> 0 \<and> length (filter is_sink ?ss) = 1
      \<and> (\<forall>i<length ?ss. is_sink (?ss ! i) \<longleftrightarrow> \<not> (\<exists>j. reads ?ss j i))
      \<and> validate_slot_bindings ?ss = Inr ()"
    unfolding validate_plan_def bind_res_unit validate_settings_Inr if_Inl_Inr bind_res_Inr scan
    using cons by auto
  also have "\<dots> \<longleftrightarrow> plan_typed plan"
    unfolding plan_typed_def Let_def one_sink some_scan
    using ok validate_slot_bindings_Inr[of ?ss] by auto
  finally show ?thesis .
qed

text \<open>
  C3: The validator accepts a plan exactly when the plan is well typed: its settings are
  complete; every stage has the inputs of its operator, all from earlier stages; every declared
  binding and output has a type and a unique identifier; every expression has a type under the
  declared bindings, with CASE placeholders only in the arms of a simple CASE and of the type of
  its operand; every key has the type it declares; every declared binding is bound exactly once,
  on its port, to an output of the same type; there is a Scan, exactly one Sink, and exactly the
  Sink has no reader.\<close>

theorem validate_plan_exact: "validate_plan plan = Inr () \<longleftrightarrow> plan_typed plan"
  by (rule validate_plan_typed)

end
