(* ===== verification/Scalar_Sql.thy ===== *)
theory Scalar_Sql
  imports Plan_Validate Postgres_Text
begin

text \<open>
  The compiler of scalar expressions to SQL text (\<open>src/planner/scalar_sql.rs\<close>).  The trait
  \<open>Catalog\<close>, whose answers come from the catalogs of the server, is the record \<open>catalog\<close>; the
  compiler only uses its four functions.
\<close>

section \<open>Catalog\<close>

record sql_binding =
  sq_binding_id :: nat
  sq_input_alias :: string
  sq_attribute_name :: string

record function_name =
  fn_schema :: string
  fn_name :: string

record operator_name =
  on_schema :: string
  on_name :: string
  on_kind :: char

record catalog =
  cat_function :: "nat \<Rightarrow> function_name result"
  cat_operator :: "nat \<Rightarrow> operator_name result"
  cat_type_name :: "slot_type \<Rightarrow> string result"
  cat_collation :: "nat \<Rightarrow> function_name result"

definition catalog_validate_type :: "catalog \<Rightarrow> slot_type \<Rightarrow> unit result" where
  "catalog_validate_type cat t =
     bind_res (cat_type_name cat t) (\<lambda>_.
     if ty_collation t \<noteq> 0 then bind_res (cat_collation cat (ty_collation t)) (\<lambda>_. Inr ())
     else Inr ())"

text \<open>The objects one part of an expression names.\<close>

definition part_catalog :: "catalog \<Rightarrow> scalar_expr \<Rightarrow> unit result" where
  "part_catalog cat part =
     (let typed = catalog_validate_type cat;
          operated = (\<lambda>oid t. bind_res (cat_operator cat oid) (\<lambda>_. typed t)) in
      case part of
        EConstant t _ \<Rightarrow> typed t
      | ECoalesce _ t \<Rightarrow> typed t
      | ECase _ _ _ t \<Rightarrow> typed t
      | ECaseTest t \<Rightarrow> typed t
      | ERelabel _ t \<Rightarrow> typed t
      | ECoerceViaIo _ t \<Rightarrow> typed t
      | ECoerceToDomain _ t \<Rightarrow> typed t
      | ECall oid _ t \<Rightarrow> bind_res (cat_function cat oid) (\<lambda>_. typed t)
      | EOperator oid _ t \<Rightarrow> operated oid t
      | EDistinct oid _ _ t \<Rightarrow> operated oid t
      | ENullIf oid _ _ t \<Rightarrow> operated oid t
      | EScalarArray oid _ _ _ t \<Rightarrow> operated oid t
      | ECollate _ oid t \<Rightarrow> bind_res (cat_collation cat oid) (\<lambda>_. typed t)
      | EInput _ \<Rightarrow> Inr ()
      | EBool _ _ \<Rightarrow> Inr ()
      | EBooleanTest _ _ \<Rightarrow> Inr ()
      | ENullTest _ _ \<Rightarrow> Inr ())"

definition validate_scalar_catalog_with :: "catalog \<Rightarrow> scalar_expr \<Rightarrow> unit result" where
  "validate_scalar_catalog_with cat e = check_all (part_catalog cat) (visit e)"

section \<open>Compiler\<close>

type_synonym compiler_bindings = "nat \<rightharpoonup> string \<times> string"

text \<open>\<open>Compiler::new\<close>: the bindings, with the map built so far.\<close>

fun compiler_new :: "sql_binding list \<Rightarrow> compiler_bindings \<Rightarrow> compiler_bindings result" where
  "compiler_new [] resolved = Inr resolved"
| "compiler_new (b # bs) resolved =
     (if sq_input_alias b = [] \<or> sq_attribute_name b = []
      then Inl (''scalar binding '' @ decimal (sq_binding_id b) @ '' has an empty identifier'')
      else if resolved (sq_binding_id b) \<noteq> None
      then Inl (''duplicate scalar binding '' @ decimal (sq_binding_id b))
      else compiler_new bs
             (resolved(sq_binding_id b \<mapsto> (sq_input_alias b, sq_attribute_name b))))"

fun join_with :: "string \<Rightarrow> string list \<Rightarrow> string" where
  "join_with sep [] = []"
| "join_with sep [x] = x"
| "join_with sep (x # xs) = x @ sep @ join_with sep xs"

definition qualified_operator :: "operator_name \<Rightarrow> string" where
  "qualified_operator op =
     ''OPERATOR('' @ quote_identifier (on_schema op) @ ''.'' @ on_name op @ '')''"

text \<open>\<open>{byte:02x}\<close> for a byte of the text, which a character of a string stands for.\<close>

definition lower_hex_digit :: "nat \<Rightarrow> char" where
  "lower_hex_digit d = (if d < 10 then char_of (48 + d) else char_of (87 + d))"

definition hex_byte :: "char \<Rightarrow> string" where
  "hex_byte c =
     [lower_hex_digit (of_char c div 16 mod 16), lower_hex_digit (of_char c mod 16)]"

definition compile_constant :: "catalog \<Rightarrow> slot_type \<Rightarrow> datum_repr option \<Rightarrow> string result" where
  "compile_constant cat t value =
     bind_res (cat_type_name cat t) (\<lambda>type_name.
     let input = (case value of
         None \<Rightarrow> ''NULL''
       | Some (DatumText text) \<Rightarrow>
           ''pg_catalog.convert_from(pg_catalog.decode('' @ [CHR 0x27]
             @ concat (map hex_byte text) @ [CHR 0x27] @ '', ''
             @ [CHR 0x27] @ ''hex'' @ [CHR 0x27] @ ''), '' @ [CHR 0x27] @ ''UTF8'' @ [CHR 0x27] @ '')'') in
     Inr (''CAST('' @ input @ '' AS '' @ type_name @ '')''))"

fun boolean_test_sql :: "boolean_test_kind \<Rightarrow> string" where
  "boolean_test_sql TestTrue = ''TRUE''"
| "boolean_test_sql TestNotTrue = ''NOT TRUE''"
| "boolean_test_sql TestFalse = ''FALSE''"
| "boolean_test_sql TestNotFalse = ''NOT FALSE''"
| "boolean_test_sql TestUnknown = ''UNKNOWN''"
| "boolean_test_sql TestNotUnknown = ''NOT UNKNOWN''"

text \<open>The last step of an operator call, given the compiled operands in order.\<close>

definition distinct_sql :: "string \<Rightarrow> string \<Rightarrow> string \<Rightarrow> string \<Rightarrow> string" where
  "distinct_sql a op left right =
     ''(SELECT CASE WHEN '' @ a @ ''.left_value IS NULL THEN '' @ a
       @ ''.right_value IS NOT NULL WHEN '' @ a @ ''.right_value IS NULL THEN TRUE ELSE NOT ('' @ a
       @ ''.left_value '' @ op @ '' '' @ a @ ''.right_value) END FROM (SELECT '' @ left
       @ '' AS left_value, '' @ right @ '' AS right_value) AS '' @ a @ '')''"

definition nullif_sql :: "string \<Rightarrow> string \<Rightarrow> string \<Rightarrow> string \<Rightarrow> string \<Rightarrow> string" where
  "nullif_sql a op type_name left right =
     ''(SELECT CASE WHEN ('' @ a @ ''.left_value '' @ op @ '' '' @ a
       @ ''.right_value) THEN CAST(NULL AS '' @ type_name @ '') ELSE '' @ a
       @ ''.left_value END FROM (SELECT '' @ left @ '' AS left_value, '' @ right
       @ '' AS right_value) AS '' @ a @ '')''"

definition nested_alias :: "string \<Rightarrow> string list \<Rightarrow> string" where
  "nested_alias stem ops = quote_identifier (stem @ decimal (length ops))"

definition bool_sql :: "bool_expr_kind \<Rightarrow> string list \<Rightarrow> string result" where
  "bool_sql k compiled =
     (case k of
        BoolAnd \<Rightarrow>
          if compiled \<noteq> [] then Inr (''('' @ join_with '' AND '' compiled @ '')'')
          else Inl ''boolean expression has invalid arity''
      | BoolOr \<Rightarrow>
          if compiled \<noteq> [] then Inr (''('' @ join_with '' OR '' compiled @ '')'')
          else Inl ''boolean expression has invalid arity''
      | BoolNot \<Rightarrow>
          (case compiled of
             [arg] \<Rightarrow> Inr (''(NOT ('' @ arg @ ''))'')
           | _ \<Rightarrow> Inl ''boolean expression has invalid arity''))"

fun compile_scoped ::
    "catalog \<Rightarrow> compiler_bindings \<Rightarrow> scalar_expr \<Rightarrow> string list \<Rightarrow> string result" where
  "compile_scoped cat bs (EInput b) ops =
     bind_res (ok_or (''unknown scalar binding '' @ decimal b) (bs b)) (\<lambda>(als, attribute).
     Inr (''('' @ quote_identifier als @ ''.row_value).'' @ quote_identifier attribute))"
| "compile_scoped cat bs (EConstant t v) ops = compile_constant cat t v"
| "compile_scoped cat bs (ECall oid args t) ops =
     bind_res (cat_function cat oid) (\<lambda>f.
     bind_res (traverse (\<lambda>a. compile_scoped cat bs a ops) args) (\<lambda>compiled.
     Inr (quote_identifier (fn_schema f) @ ''.'' @ quote_identifier (fn_name f) @ ''(''
       @ join_with '', '' compiled @ '')'')))"
| "compile_scoped cat bs (EOperator oid args t) ops =
     bind_res (cat_operator cat oid) (\<lambda>op.
     case args of
       [a] \<Rightarrow>
         if on_kind op = CHR ''l'' then
           bind_res (compile_scoped cat bs a ops) (\<lambda>right.
           Inr (''('' @ qualified_operator op @ '' '' @ right @ '')''))
         else if on_kind op = CHR ''r'' then
           bind_res (compile_scoped cat bs a ops) (\<lambda>left.
           Inr (''('' @ left @ '' '' @ qualified_operator op @ '')''))
         else Inl (''operator OID '' @ decimal oid @ '' has invalid arity'')
     | [a, b] \<Rightarrow>
         if on_kind op = CHR ''b'' then
           bind_res (compile_scoped cat bs a ops) (\<lambda>left.
           bind_res (compile_scoped cat bs b ops) (\<lambda>right.
           Inr (''('' @ left @ '' '' @ qualified_operator op @ '' '' @ right @ '')'')))
         else Inl (''operator OID '' @ decimal oid @ '' has invalid arity'')
     | _ \<Rightarrow> Inl (''operator OID '' @ decimal oid @ '' has invalid arity''))"
| "compile_scoped cat bs (EDistinct oid l r t) ops =
     bind_res (cat_operator cat oid) (\<lambda>op.
     if on_kind op \<noteq> CHR ''b''
     then Inl (''DISTINCT operator OID '' @ decimal oid @ '' is not binary'')
     else
       bind_res (compile_scoped cat bs l ops) (\<lambda>left.
       bind_res (compile_scoped cat bs r ops) (\<lambda>right.
       Inr (distinct_sql (nested_alias ''__shiba_distinct_'' ops) (qualified_operator op) left right))))"
| "compile_scoped cat bs (ENullIf oid l r t) ops =
     bind_res (cat_operator cat oid) (\<lambda>op.
     if on_kind op \<noteq> CHR ''b'' then Inl (''NULLIF operator OID '' @ decimal oid @ '' is not binary'')
     else
       bind_res (cat_type_name cat t) (\<lambda>type_name.
       bind_res (compile_scoped cat bs l ops) (\<lambda>left.
       bind_res (compile_scoped cat bs r ops) (\<lambda>right.
       Inr (nullif_sql (nested_alias ''__shiba_nullif_'' ops) (qualified_operator op) type_name
         left right)))))"
| "compile_scoped cat bs (EScalarArray oid l r use_or t) ops =
     bind_res (cat_operator cat oid) (\<lambda>op.
     if on_kind op \<noteq> CHR ''b''
     then Inl (''scalar-array operator OID '' @ decimal oid @ '' is not binary'')
     else
       bind_res (compile_scoped cat bs l ops) (\<lambda>left.
       bind_res (compile_scoped cat bs r ops) (\<lambda>right.
       Inr (''('' @ left @ '' '' @ qualified_operator op @ '' ''
         @ (if use_or then ''ANY'' else ''ALL'') @ '' ('' @ right @ ''))''))))"
| "compile_scoped cat bs (EBool k args) ops =
     bind_res (traverse (\<lambda>a. compile_scoped cat bs a ops) args) (bool_sql k)"
| "compile_scoped cat bs (EBooleanTest a test) ops =
     bind_res (compile_scoped cat bs a ops) (\<lambda>arg.
     Inr (''(('' @ arg @ '') IS '' @ boolean_test_sql test @ '')''))"
| "compile_scoped cat bs (ENullTest a is_not) ops =
     bind_res (compile_scoped cat bs a ops) (\<lambda>arg.
     Inr (''(('' @ arg @ '') IS '' @ (if is_not then ''NOT '' else '''') @ ''NULL)''))"
| "compile_scoped cat bs (ECoalesce args t) ops =
     (if args = [] then Inl ''COALESCE has no arguments''
      else
        bind_res (traverse (\<lambda>a. compile_scoped cat bs a ops) args) (\<lambda>compiled.
        Inr (''COALESCE('' @ join_with '', '' compiled @ '')'')))"
| "compile_scoped cat bs (ECase operand arms els t) ops =
     (if arms = [] then Inl ''CASE has no arms''
      else
        let als = nested_alias ''__shiba_case_'' ops;
            arm_ops = (case operand of None \<Rightarrow> ops | Some _ \<Rightarrow> ops @ [als @ ''.value'']) in
        bind_res (traverse (\<lambda>arm. case arm of CaseWhen w h \<Rightarrow>
            bind_res (compile_scoped cat bs w arm_ops) (\<lambda>when_sql.
            bind_res (compile_scoped cat bs h ops) (\<lambda>then_sql.
            Inr ('' WHEN '' @ when_sql @ '' THEN '' @ then_sql)))) arms) (\<lambda>arms_sql.
        bind_res (compile_scoped cat bs els ops) (\<lambda>else_sql.
        let sql = ''(CASE'' @ concat arms_sql @ '' ELSE '' @ else_sql @ '' END)'' in
        case operand of
          None \<Rightarrow> Inr sql
        | Some a \<Rightarrow>
            bind_res (compile_scoped cat bs a ops) (\<lambda>value.
            Inr (''(SELECT '' @ sql @ '' FROM (SELECT '' @ value @ '' AS value) AS '' @ als @ '')'')))))"
| "compile_scoped cat bs (ECaseTest t) ops =
     ok_or ''CASE operand placeholder is outside a simple CASE arm'' (last_opt ops)"
| "compile_scoped cat bs (ERelabel a t) ops =
     bind_res (compile_scoped cat bs a ops) (\<lambda>arg.
     bind_res (cat_type_name cat t) (\<lambda>type_name.
     Inr (''CAST(('' @ arg @ '') AS '' @ type_name @ '')'')))"
| "compile_scoped cat bs (ECoerceViaIo a t) ops =
     bind_res (compile_scoped cat bs a ops) (\<lambda>arg.
     bind_res (cat_type_name cat t) (\<lambda>type_name.
     Inr (''CAST(('' @ arg @ '') AS '' @ type_name @ '')'')))"
| "compile_scoped cat bs (ECoerceToDomain a t) ops =
     bind_res (compile_scoped cat bs a ops) (\<lambda>arg.
     bind_res (cat_type_name cat t) (\<lambda>type_name.
     Inr (''CAST(('' @ arg @ '') AS '' @ type_name @ '')'')))"
| "compile_scoped cat bs (ECollate a oid t) ops =
     bind_res (cat_collation cat oid) (\<lambda>collation.
     bind_res (compile_scoped cat bs a ops) (\<lambda>arg.
     Inr (''(('' @ arg @ '') COLLATE '' @ quote_identifier (fn_schema collation) @ ''.''
       @ quote_identifier (fn_name collation) @ '')'')))"

text \<open>\<open>Compiler::compile\<close> and \<open>compile_scalar_expression\<close>.\<close>

definition compile_expression ::
    "catalog \<Rightarrow> compiler_bindings \<Rightarrow> scalar_expr \<Rightarrow> string result" where
  "compile_expression cat bs e =
     bind_res (validate_scalar_catalog_with cat e) (\<lambda>_. compile_scoped cat bs e [])"

definition compile_scalar_expression ::
    "catalog \<Rightarrow> scalar_expr \<Rightarrow> sql_binding list \<Rightarrow> string result" where
  "compile_scalar_expression cat e bindings =
     bind_res (compiler_new bindings Map.empty) (\<lambda>bs. compile_expression cat bs e)"

end
