(* ===== verification/Scalar_Progress.thy ===== *)
theory Scalar_Progress
  imports Scalar_Sql Plan_Typing
begin

text \<open>
  Typed expressions compile: given the bindings of the stage, the compiler succeeds on a typable
  expression exactly when the catalog resolves its objects and the operators have the number of
  operands their kind takes.
\<close>

section \<open>Resolved objects and arities\<close>

definition resolved :: "catalog \<Rightarrow> scalar_expr \<Rightarrow> bool" where
  "resolved cat e \<longleftrightarrow> validate_scalar_catalog_with cat e = Inr ()"

definition type_resolved :: "catalog \<Rightarrow> slot_type \<Rightarrow> bool" where
  "type_resolved cat t \<longleftrightarrow>
     is_ok (cat_type_name cat t) \<and> (ty_collation t = 0 \<or> is_ok (cat_collation cat (ty_collation t)))"

lemma catalog_validate_type_Inr: "catalog_validate_type cat t = Inr () \<longleftrightarrow> type_resolved cat t"
  by (auto simp: catalog_validate_type_def type_resolved_def is_ok_iff bind_res_Inr)

definition binary :: "catalog \<Rightarrow> nat \<Rightarrow> bool" where
  "binary cat oid \<longleftrightarrow> (\<exists>op. cat_operator cat oid = Inr op \<and> on_kind op = CHR ''b'')"

definition operator_arity :: "catalog \<Rightarrow> nat \<Rightarrow> nat \<Rightarrow> bool" where
  "operator_arity cat oid n \<longleftrightarrow>
     (\<exists>op. cat_operator cat oid = Inr op
        \<and> (on_kind op = CHR ''b'' \<and> n = 2 \<or> on_kind op \<in> {CHR ''l'', CHR ''r''} \<and> n = 1))"

definition part_arity :: "catalog \<Rightarrow> scalar_expr \<Rightarrow> bool" where
  "part_arity cat part \<longleftrightarrow>
     (case part of
        EOperator oid args _ \<Rightarrow> operator_arity cat oid (length args)
      | EDistinct oid _ _ _ \<Rightarrow> binary cat oid
      | ENullIf oid _ _ _ \<Rightarrow> binary cat oid
      | EScalarArray oid _ _ _ _ \<Rightarrow> binary cat oid
      | _ \<Rightarrow> True)"

definition arities :: "catalog \<Rightarrow> scalar_expr \<Rightarrow> bool" where
  "arities cat e \<longleftrightarrow> (\<forall>p\<in>set (visit e). part_arity cat p)"

lemma part_catalog_Inr:
  "part_catalog cat p = Inr () \<longleftrightarrow>
     (case p of
        EConstant t _ \<Rightarrow> type_resolved cat t
      | ECoalesce _ t \<Rightarrow> type_resolved cat t
      | ECase _ _ _ t \<Rightarrow> type_resolved cat t
      | ECaseTest t \<Rightarrow> type_resolved cat t
      | ERelabel _ t \<Rightarrow> type_resolved cat t
      | ECoerceViaIo _ t \<Rightarrow> type_resolved cat t
      | ECoerceToDomain _ t \<Rightarrow> type_resolved cat t
      | ECall oid _ t \<Rightarrow> is_ok (cat_function cat oid) \<and> type_resolved cat t
      | EOperator oid _ t \<Rightarrow> is_ok (cat_operator cat oid) \<and> type_resolved cat t
      | EDistinct oid _ _ t \<Rightarrow> is_ok (cat_operator cat oid) \<and> type_resolved cat t
      | ENullIf oid _ _ t \<Rightarrow> is_ok (cat_operator cat oid) \<and> type_resolved cat t
      | EScalarArray oid _ _ _ t \<Rightarrow> is_ok (cat_operator cat oid) \<and> type_resolved cat t
      | ECollate _ oid t \<Rightarrow> is_ok (cat_collation cat oid) \<and> type_resolved cat t
      | _ \<Rightarrow> True)"
  by (cases p)
    (auto simp: part_catalog_def Let_def catalog_validate_type_Inr bind_res_Inr is_ok_iff)

lemma resolved_simps:
  "resolved cat (EInput b)"
  "resolved cat (EConstant t v) \<longleftrightarrow> type_resolved cat t"
  "resolved cat (ECaseTest t) \<longleftrightarrow> type_resolved cat t"
  "resolved cat (ECall f args t) \<longleftrightarrow>
     is_ok (cat_function cat f) \<and> type_resolved cat t \<and> (\<forall>a\<in>set args. resolved cat a)"
  "resolved cat (EOperator f args t) \<longleftrightarrow>
     is_ok (cat_operator cat f) \<and> type_resolved cat t \<and> (\<forall>a\<in>set args. resolved cat a)"
  "resolved cat (EDistinct f l r t) \<longleftrightarrow>
     is_ok (cat_operator cat f) \<and> type_resolved cat t \<and> resolved cat l \<and> resolved cat r"
  "resolved cat (ENullIf f l r t) \<longleftrightarrow>
     is_ok (cat_operator cat f) \<and> type_resolved cat t \<and> resolved cat l \<and> resolved cat r"
  "resolved cat (EScalarArray f l r u t) \<longleftrightarrow>
     is_ok (cat_operator cat f) \<and> type_resolved cat t \<and> resolved cat l \<and> resolved cat r"
  "resolved cat (EBool k args) \<longleftrightarrow> (\<forall>a\<in>set args. resolved cat a)"
  "resolved cat (EBooleanTest a test) \<longleftrightarrow> resolved cat a"
  "resolved cat (ENullTest a n) \<longleftrightarrow> resolved cat a"
  "resolved cat (ECoalesce args t) \<longleftrightarrow> type_resolved cat t \<and> (\<forall>a\<in>set args. resolved cat a)"
  "resolved cat (ERelabel a t) \<longleftrightarrow> type_resolved cat t \<and> resolved cat a"
  "resolved cat (ECoerceViaIo a t) \<longleftrightarrow> type_resolved cat t \<and> resolved cat a"
  "resolved cat (ECoerceToDomain a t) \<longleftrightarrow> type_resolved cat t \<and> resolved cat a"
  "resolved cat (ECollate a c t) \<longleftrightarrow>
     is_ok (cat_collation cat c) \<and> type_resolved cat t \<and> resolved cat a"
  "resolved cat (ECase operand arms els t) \<longleftrightarrow>
     type_resolved cat t \<and> (\<forall>a. operand = Some a \<longrightarrow> resolved cat a)
     \<and> (\<forall>arm\<in>set arms. resolved cat (arm_when arm) \<and> resolved cat (arm_then arm))
     \<and> resolved cat els"
  unfolding resolved_def validate_scalar_catalog_with_def check_all_Inr
  by (auto simp: part_catalog_Inr ball_Un case_when.case_eq_if split: option.splits)

lemma arities_simps:
  "arities cat (EInput b)"
  "arities cat (EConstant t v)"
  "arities cat (ECaseTest t)"
  "arities cat (ECall f args t) \<longleftrightarrow> (\<forall>a\<in>set args. arities cat a)"
  "arities cat (EOperator f args t) \<longleftrightarrow>
     operator_arity cat f (length args) \<and> (\<forall>a\<in>set args. arities cat a)"
  "arities cat (EDistinct f l r t) \<longleftrightarrow> binary cat f \<and> arities cat l \<and> arities cat r"
  "arities cat (ENullIf f l r t) \<longleftrightarrow> binary cat f \<and> arities cat l \<and> arities cat r"
  "arities cat (EScalarArray f l r u t) \<longleftrightarrow> binary cat f \<and> arities cat l \<and> arities cat r"
  "arities cat (EBool k args) \<longleftrightarrow> (\<forall>a\<in>set args. arities cat a)"
  "arities cat (EBooleanTest a test) \<longleftrightarrow> arities cat a"
  "arities cat (ENullTest a n) \<longleftrightarrow> arities cat a"
  "arities cat (ECoalesce args t) \<longleftrightarrow> (\<forall>a\<in>set args. arities cat a)"
  "arities cat (ERelabel a t) \<longleftrightarrow> arities cat a"
  "arities cat (ECoerceViaIo a t) \<longleftrightarrow> arities cat a"
  "arities cat (ECoerceToDomain a t) \<longleftrightarrow> arities cat a"
  "arities cat (ECollate a c t) \<longleftrightarrow> arities cat a"
  "arities cat (ECase operand arms els t) \<longleftrightarrow>
     (\<forall>a. operand = Some a \<longrightarrow> arities cat a)
     \<and> (\<forall>arm\<in>set arms. arities cat (arm_when arm) \<and> arities cat (arm_then arm))
     \<and> arities cat els"
  unfolding arities_def
  by (auto simp: part_arity_def ball_Un case_when.case_eq_if split: option.splits)

section \<open>Progress\<close>

lemma is_ok_bind: "is_ok (bind_res m f) \<longleftrightarrow> (\<exists>x. m = Inr x \<and> is_ok (f x))"
  by (cases m) auto

lemma is_ok_bind2:
  "is_ok (bind_res m (\<lambda>x. bind_res m' (f x))) \<longleftrightarrow> is_ok m \<and> is_ok m'"
  if "\<And>x y. is_ok (f x y)"
  using that by (cases m; cases m') auto

lemma is_ok_bind1: "(\<And>x. is_ok (f x)) \<Longrightarrow> is_ok (bind_res m f) \<longleftrightarrow> is_ok m"
  by (cases m) auto

lemma is_ok_bind3:
  "is_ok (bind_res m (\<lambda>x. bind_res m' (\<lambda>y. bind_res m'' (f x y)))) \<longleftrightarrow>
     is_ok m \<and> is_ok m' \<and> is_ok m''"
  if "\<And>x y z. is_ok (f x y z)"
  using that by (cases m; cases m'; cases m'') auto

lemma is_ok_traverse: "is_ok (traverse f xs) \<longleftrightarrow> (\<forall>x\<in>set xs. is_ok (f x))"
  by (simp add: is_ok_iff traverse_ok)

lemma traverse_length: "traverse f xs = Inr ys \<Longrightarrow> length ys = length xs"
  by (auto simp: traverse_Inr dest: list_all2_lengthD)

lemma bool_sql_ok:
  "is_ok (bool_sql k compiled) \<longleftrightarrow> compiled \<noteq> [] \<and> (k = BoolNot \<longrightarrow> length compiled = 1)"
  by (cases k) (auto simp: bool_sql_def split: list.splits)

lemma constant_ok: "is_ok (compile_constant cat t v) \<longleftrightarrow> is_ok (cat_type_name cat t)"
  by (simp add: compile_constant_def is_ok_bind1 Let_def)

lemma last_opt_snoc [simp]: "last_opt (xs @ [x]) = Some x"
  by (cases xs) auto

lemma last_opt_None [simp]: "last_opt xs = None \<longleftrightarrow> xs = []"
  by (cases xs) auto

definition covers :: "compiler_bindings \<Rightarrow> typing \<Rightarrow> bool" where
  "covers cb bs \<longleftrightarrow> dom bs \<subseteq> dom cb"

lemma binary_operator: "cat_operator cat f = Inr op \<Longrightarrow> binary cat f \<longleftrightarrow> on_kind op = CHR ''b''"
  by (simp add: binary_def)

lemma compile_operator_ok:
  assumes "is_ok (cat_operator cat f)"
    and "\<And>a. a \<in> set args \<Longrightarrow> is_ok (compile_scoped cat cb a ops) \<longleftrightarrow> arities cat a"
  shows "is_ok (compile_scoped cat cb (EOperator f args t) ops) \<longleftrightarrow>
    operator_arity cat f (length args) \<and> (\<forall>a\<in>set args. arities cat a)"
proof -
  obtain op where op: "cat_operator cat f = Inr op" using assms(1) by (auto simp: is_ok_iff)
  consider "args = []" | a where "args = [a]" | a b where "args = [a, b]"
    | a b c rest where "args = a # b # c # rest" by (metis remdups_adj.cases)
  then show ?thesis
    by cases (use op assms(2) in \<open>auto simp: operator_arity_def is_ok_bind1 is_ok_bind2\<close>)
qed

lemma compile_scoped_progress:
  assumes "covers cb bs"
  shows "resolved cat e \<Longrightarrow> typable bs tys e \<Longrightarrow> length ops = length tys \<Longrightarrow>
    is_ok (compile_scoped cat cb e ops) \<longleftrightarrow> arities cat e"
proof (induction e arbitrary: tys ops)
  case (EInput b)
  then have "b \<in> dom cb" using assms by (auto simp: covers_def typable_simps)
  then show ?case by (auto simp: arities_simps)
next
  case (EOperator f args t)
  then show ?case
    unfolding arities_simps
    by (intro compile_operator_ok) (auto simp: resolved_simps typable_simps)
next
  case (EDistinct f l r t)
  then obtain op where "cat_operator cat f = Inr op" by (auto simp: resolved_simps is_ok_iff)
  moreover have "is_ok (compile_scoped cat cb l ops) \<longleftrightarrow> arities cat l"
      "is_ok (compile_scoped cat cb r ops) \<longleftrightarrow> arities cat r"
    using EDistinct by (auto simp: resolved_simps typable_simps)
  ultimately show ?case
    by (simp add: arities_simps binary_operator is_ok_bind2)
next
  case (ENullIf f l r t)
  then obtain op where "cat_operator cat f = Inr op" by (auto simp: resolved_simps is_ok_iff)
  moreover have "is_ok (compile_scoped cat cb l ops) \<longleftrightarrow> arities cat l"
      "is_ok (compile_scoped cat cb r ops) \<longleftrightarrow> arities cat r"
    using ENullIf by (auto simp: resolved_simps typable_simps)
  ultimately show ?case
    using ENullIf.prems(1)
    by (simp add: arities_simps binary_operator is_ok_bind2 is_ok_bind3 resolved_simps type_resolved_def)
next
  case (EScalarArray f l r u t)
  then obtain op where "cat_operator cat f = Inr op" by (auto simp: resolved_simps is_ok_iff)
  moreover have "is_ok (compile_scoped cat cb l ops) \<longleftrightarrow> arities cat l"
      "is_ok (compile_scoped cat cb r ops) \<longleftrightarrow> arities cat r"
    using EScalarArray by (auto simp: resolved_simps typable_simps)
  ultimately show ?case
    by (simp add: arities_simps binary_operator is_ok_bind2)
next
  case (ECall f args t)
  have "is_ok (compile_scoped cat cb a ops) \<longleftrightarrow> arities cat a" if "a \<in> set args" for a
    using ECall that by (auto simp: resolved_simps typable_simps)
  then show ?case
    using ECall.prems
    by (simp add: resolved_simps typable_simps arities_simps is_ok_bind1 is_ok_bind2 is_ok_traverse)
next
  case (ECoalesce args t)
  have "is_ok (compile_scoped cat cb a ops) \<longleftrightarrow> arities cat a" if "a \<in> set args" for a
    using ECoalesce that by (auto simp: resolved_simps typable_simps)
  then show ?case
    using ECoalesce.prems
    by (simp add: resolved_simps typable_simps arities_simps is_ok_bind1 is_ok_bind2 is_ok_traverse)
next
  case (EBool k args)
  have "is_ok (compile_scoped cat cb a ops) \<longleftrightarrow> arities cat a" if "a \<in> set args" for a
    using EBool that by (auto simp: resolved_simps typable_bool)
  moreover have "is_ok (bool_sql k ys)" if "length ys = length args" for ys
    using EBool.prems(2) that by (auto simp: bool_sql_ok typable_bool)
  moreover have "is_ok (compile_scoped cat cb (EBool k args) ops) \<longleftrightarrow>
      is_ok (traverse (\<lambda>a. compile_scoped cat cb a ops) args)"
    using calculation(2) by (cases "traverse (\<lambda>a. compile_scoped cat cb a ops) args")
      (auto dest: traverse_length)
  ultimately show ?case by (simp add: arities_simps is_ok_traverse)
next
  case (ECaseTest t)
  then show ?case by (cases ops rule: rev_cases) (auto simp: typable_case_test arities_simps)
next
  case (ECase operand arms els t)
  define arm_ops where "arm_ops = (case operand of None \<Rightarrow> ops
    | Some _ \<Rightarrow> ops @ [nested_alias ''__shiba_case_'' ops @ ''.value''])"
  define arm_sql where "arm_sql = (\<lambda>arm. case arm of CaseWhen w h \<Rightarrow>
            bind_res (compile_scoped cat cb w arm_ops) (\<lambda>when_sql.
            bind_res (compile_scoped cat cb h ops) (\<lambda>then_sql.
            Inr ('' WHEN '' @ when_sql @ '' THEN '' @ then_sql))))"
  obtain tys' where tys': "length arm_ops = length tys'" "arms \<noteq> []" "typable bs tys els"
      "\<forall>arm\<in>set arms. typable bs tys' (arm_when arm) \<and> typable bs tys (arm_then arm)"
      "\<forall>a. operand = Some a \<longrightarrow> typable bs tys a"
  proof (cases operand)
    case None
    then have "length arm_ops = length tys" using ECase.prems(3) by (simp add: arm_ops_def)
    then show ?thesis
      using that[of tys] ECase.prems(2) None by (simp add: typable_searched_case)
  next
    case (Some a)
    then obtain ty where ty: "has_type bs tys a ty" "arms \<noteq> []" "typable bs tys els"
        "\<forall>arm\<in>set arms. typable bs (tys @ [ty]) (arm_when arm) \<and> typable bs tys (arm_then arm)"
      using ECase.prems(2) by (auto simp: typable_simple_case)
    moreover have "length arm_ops = length (tys @ [ty])"
      using ECase.prems(3) Some by (simp add: arm_ops_def)
    moreover have "\<forall>a. operand = Some a \<longrightarrow> typable bs tys a"
      using ty(1) Some by (auto simp: typable_def)
    ultimately show ?thesis by (intro that)
  qed
  have els: "is_ok (compile_scoped cat cb els ops) \<longleftrightarrow> arities cat els"
    using ECase.IH(3) ECase.prems tys' by (simp add: resolved_simps)
  have operand: "is_ok (compile_scoped cat cb a ops) \<longleftrightarrow> arities cat a" if "operand = Some a" for a
    using ECase.IH(1)[of a tys ops] ECase.prems tys' that by (auto simp: resolved_simps)
  have arm: "is_ok (arm_sql arm)
      \<longleftrightarrow> arities cat (arm_when arm) \<and> arities cat (arm_then arm)" if arm: "arm \<in> set arms" for arm
  proof -
    obtain w h where wh: "arm = CaseWhen w h" by (cases arm)
    have parts: "resolved cat w" "resolved cat h" "typable bs tys' w" "typable bs tys h"
      using ECase.prems(1) arm tys'(4) wh by (auto simp: resolved_simps dest!: bspec[OF _ arm])
    have "is_ok (compile_scoped cat cb w arm_ops) \<longleftrightarrow> arities cat w"
      using ECase.IH(2)[OF arm, of w tys' arm_ops] tys'(1) wh parts by simp
    moreover have "is_ok (compile_scoped cat cb h ops) \<longleftrightarrow> arities cat h"
      using ECase.IH(2)[OF arm, of h tys ops] ECase.prems(3) wh parts by simp
    ultimately show ?thesis by (simp add: wh arm_sql_def is_ok_bind2)
  qed
  have "is_ok (compile_scoped cat cb (ECase operand arms els t) ops) \<longleftrightarrow>
      (\<forall>arm\<in>set arms. arities cat (arm_when arm) \<and> arities cat (arm_then arm))
      \<and> arities cat els \<and> (\<forall>a. operand = Some a \<longrightarrow> arities cat a)"
  proof -
    have arms: "is_ok (traverse arm_sql arms) \<longleftrightarrow>
        (\<forall>arm\<in>set arms. arities cat (arm_when arm) \<and> arities cat (arm_then arm))"
      unfolding is_ok_traverse by (intro ball_cong refl arm)
    show ?thesis
      unfolding compile_scoped.simps Let_def arm_ops_def[symmetric] arm_sql_def[symmetric]
      using tys'(2) els operand arms
      by (cases operand) (simp_all add: is_ok_bind2 is_ok_bind3)
  qed
  then show ?case by (auto simp: arities_simps)
qed (auto simp: resolved_simps typable_simps arities_simps constant_ok type_resolved_def is_ok_bind1
      is_ok_bind2 is_ok_traverse)

end
