(* ===== verification/Stage_Bindings.thy ===== *)
theory Stage_Bindings
  imports Scalar_Sql
begin

text \<open>
  The bindings of a stage at run time (\<open>src/execution/bindings.rs\<close>): every slot binding of an edge
  becomes a qualified attribute of the live payload of its input.  The attributes of a composite
  type are a catalog read; the function that reads them is an argument.
\<close>

record attribute_ref =
  at_number :: int
  at_name :: string
  at_type_oid :: nat
  at_typmod :: int
  at_collation :: nat
  at_not_null :: bool

record 'row binding_input =
  bi_row_type :: 'row
  bi_alias :: string

definition attribute_matches_slot :: "attribute_ref \<Rightarrow> slot_type \<Rightarrow> bool" where
  "attribute_matches_slot a t \<longleftrightarrow>
     at_type_oid a = ty_oid t \<and> at_typmod a = ty_typmod t \<and> at_collation a = ty_collation t"

fun check_attributes :: "(attribute_ref \<times> output_slot) list \<Rightarrow> unit result" where
  "check_attributes [] = Inr ()"
| "check_attributes ((a, out) # rest) =
     (if \<not> attribute_matches_slot a (out_type out)
      then Inl (''typed payload for SlotId '' @ decimal (out_slot out) @ '' changed PostgreSQL type'')
      else check_attributes rest)"

definition validate_output_attributes ::
    "attribute_ref list \<Rightarrow> output_slot list \<Rightarrow> unit result" where
  "validate_output_attributes attributes outputs =
     (if length attributes \<noteq> length outputs
      then Inl ''typed payload attribute count does not match its stage schema''
      else check_attributes (zip attributes outputs))"

text \<open>\<open>Iterator::position\<close>.\<close>

fun position_of :: "('a \<Rightarrow> bool) \<Rightarrow> 'a list \<Rightarrow> nat option" where
  "position_of P [] = None"
| "position_of P (x # xs) = (if P x then Some 0 else map_option Suc (position_of P xs))"

text \<open>The loop over the slot bindings of one edge, with the bindings mapped and emitted so far.\<close>

fun map_edge ::
    "(binding_id \<rightharpoonup> input_slot) \<Rightarrow> nat \<Rightarrow> output_slot list \<Rightarrow> attribute_ref list \<Rightarrow> string
     \<Rightarrow> slot_binding list \<Rightarrow> binding_id set \<times> sql_binding list
     \<Rightarrow> (binding_id set \<times> sql_binding list) result" where
  "map_edge slots port outputs attributes als [] acc = Inr acc"
| "map_edge slots port outputs attributes als (m # rest) (mapped, bindings) =
     (if sb_target m \<in> mapped
      then Inl (''stage maps BindingId '' @ decimal (sb_target m) @ '' more than once'')
      else
        bind_res (ok_or (''edge maps unknown BindingId '' @ decimal (sb_target m))
            (slots (sb_target m))) (\<lambda>slot.
        if in_port slot \<noteq> port
        then Inl (''BindingId '' @ decimal (sb_target m) @ '' belongs to another input port'')
        else
          bind_res (ok_or (''edge references missing upstream SlotId '' @ decimal (sb_source m))
              (position_of (\<lambda>out. out_slot out = sb_source m) outputs)) (\<lambda>ordinal.
          let attribute = attributes ! ordinal in
          if \<not> attribute_matches_slot attribute (in_type slot)
          then Inl (''BindingId '' @ decimal (sb_target m) @ '' changed PostgreSQL type'')
          else map_edge slots port outputs attributes als rest
                 (insert (sb_target m) mapped,
                  bindings @ [\<lparr>sq_binding_id = sb_target m, sq_input_alias = als,
                               sq_attribute_name = at_name attribute\<rparr>]))))"

fun map_edges ::
    "('row \<Rightarrow> attribute_ref list result) \<Rightarrow> dataflow_stage list \<Rightarrow> (binding_id \<rightharpoonup> input_slot) \<Rightarrow> nat
     \<Rightarrow> (dataflow_input \<times> 'row binding_input) list \<Rightarrow> binding_id set \<times> sql_binding list
     \<Rightarrow> (binding_id set \<times> sql_binding list) result" where
  "map_edges attrs stages slots port [] acc = Inr acc"
| "map_edges attrs stages slots port ((edge, input) # rest) acc =
     (if length stages \<le> di_upstream edge then Inl ''stage references a missing upstream stage''
      else
        let outputs = sch_outputs (st_schema (stages ! di_upstream edge)) in
        bind_res (attrs (bi_row_type input)) (\<lambda>attributes.
        bind_res (validate_output_attributes attributes outputs) (\<lambda>_.
        bind_res (map_edge slots port outputs attributes (bi_alias input) (di_bindings edge) acc)
          (map_edges attrs stages slots (port + 1) rest))))"

definition input_slots :: "input_slot list \<Rightarrow> binding_id \<rightharpoonup> input_slot" where
  "input_slots inputs = map_of (rev (map (\<lambda>i. (in_binding i, i)) inputs))"

definition compile_stage_bindings ::
    "('row \<Rightarrow> attribute_ref list result) \<Rightarrow> dataflow_plan \<Rightarrow> dataflow_stage
     \<Rightarrow> 'row binding_input list \<Rightarrow> sql_binding list result" where
  "compile_stage_bindings attrs plan stage inputs =
     (let declared = sch_inputs (st_schema stage) in
      if length (st_inputs stage) \<noteq> length inputs
      then Inl (''stage has '' @ decimal (length (st_inputs stage)) @ '' input edges but ''
        @ decimal (length inputs) @ '' live payloads'')
      else if card (in_binding ` set declared) \<noteq> length declared
      then Inl ''stage has duplicate input BindingIds''
      else
        bind_res (map_edges attrs (pl_stages plan) (input_slots declared) 0
            (zip (st_inputs stage) inputs) ({}, [])) (\<lambda>(mapped, bindings).
        if card mapped \<noteq> length declared then Inl ''stage edges do not map every input BindingId''
        else Inr bindings))"

definition expressions_by_slot :: "named_expr list \<Rightarrow> slot_id \<rightharpoonup> named_expr" where
  "expressions_by_slot es = map_of (rev (map (\<lambda>e. (ne_output e, e)) es))"

definition compile_named_outputs ::
    "catalog \<Rightarrow> output_slot list \<Rightarrow> named_expr list \<Rightarrow> sql_binding list \<Rightarrow> string
     \<Rightarrow> string list result" where
  "compile_named_outputs cat outputs expressions bindings operator =
     (if card (ne_output ` set expressions) \<noteq> length expressions
      then Inl (operator @ '' output expressions contain duplicate SlotIds'')
      else if length expressions \<noteq> length outputs
      then Inl (operator @ '' output expression count does not match its schema'')
      else
        traverse (\<lambda>out.
          bind_res (ok_or (operator @ '' output SlotId '' @ decimal (out_slot out)
              @ '' has no expression'') (expressions_by_slot expressions (out_slot out))) (\<lambda>e.
          compile_scalar_expression cat (ne_expr e) bindings)) outputs)"

end
