(* ===== verification/Plan_Guarantees.thy ===== *)
theory Plan_Guarantees
  imports Plan_Wellformed Scalar_Progress Stage_Bindings
begin

text \<open>
  What a validated plan guarantees to the code that runs it: every stage leads to the Sink, and
  the bindings and expressions of every stage compile.
\<close>

section \<open>Paths to the Sink\<close>

definition feeds :: "dataflow_stage list \<Rightarrow> nat \<Rightarrow> nat \<Rightarrow> bool" where
  "feeds stages i j \<longleftrightarrow> reads stages j i"

lemma plan_typedD:
  assumes "plan_typed plan" "j < length (pl_stages plan)"
  shows "length (st_inputs (pl_stages plan ! j))
      = input_count (spec_kind (st_spec (pl_stages plan ! j)))"
    and "\<And>i. reads (pl_stages plan) j i \<Longrightarrow> i < j"
    and "stage_typed (pl_stages plan ! j)"
    and "edges_typed (pl_stages plan) (pl_stages plan ! j)"
    and "is_sink (pl_stages plan ! j) \<longleftrightarrow> \<not> (\<exists>k. reads (pl_stages plan) k j)"
  using assms unfolding plan_typed_def Let_def by blast+

lemma typed_stage_feeds_sink:
  assumes "plan_typed plan" "i < length (pl_stages plan)"
  shows "\<exists>k<length (pl_stages plan). is_sink (pl_stages plan ! k) \<and> (feeds (pl_stages plan))\<^sup>*\<^sup>* i k"
  using assms(2)
proof (induction "length (pl_stages plan) - i" arbitrary: i rule: less_induct)
  case less
  show ?case
  proof (cases "is_sink (pl_stages plan ! i)")
    case True
    then show ?thesis using less.prems by blast
  next
    case False
    then obtain j where j: "reads (pl_stages plan) j i"
      using plan_typedD(5)[OF assms(1) less.prems] by blast
    then have "j < length (pl_stages plan)" by (simp add: reads_def)
    moreover have "i < j" using plan_typedD(2)[OF assms(1) calculation j] .
    ultimately obtain k where "k < length (pl_stages plan)" "is_sink (pl_stages plan ! k)"
        "(feeds (pl_stages plan))\<^sup>*\<^sup>* j k"
      using less.hyps[of j] less.prems diff_less_mono2 by blast
    moreover have "feeds (pl_stages plan) i j" using j by (simp add: feeds_def)
    ultimately show ?thesis by (meson converse_rtranclp_into_rtranclp)
  qed
qed

section \<open>Bindings\<close>

lemma check_attributes_Inr:
  "length as = length outs \<Longrightarrow> check_attributes (zip as outs) = Inr () \<longleftrightarrow>
     list_all2 (\<lambda>a out. attribute_matches_slot a (out_type out)) as outs"
  by (induction as outs rule: list_induct2) auto

lemma validate_output_attributes_Inr:
  "validate_output_attributes as outs = Inr () \<longleftrightarrow>
     list_all2 (\<lambda>a out. attribute_matches_slot a (out_type out)) as outs"
  by (auto simp: validate_output_attributes_def check_attributes_Inr dest: list_all2_lengthD)

lemma position_of_Some: "position_of P xs = Some k \<Longrightarrow> k < length xs \<and> P (xs ! k)"
  by (induction xs arbitrary: k) (auto split: if_splits)

lemma position_of_ex: "x \<in> set xs \<Longrightarrow> P x \<Longrightarrow> \<exists>k. position_of P xs = Some k"
  by (induction xs) auto

lemma position_of_slot:
  assumes "distinct (map out_slot outs)" "out \<in> set outs"
  obtains k where "position_of (\<lambda>x. out_slot x = out_slot out) outs = Some k"
    "k < length outs" "outs ! k = out"
proof -
  obtain k where k: "position_of (\<lambda>x. out_slot x = out_slot out) outs = Some k"
    using position_of_ex[OF assms(2), of "\<lambda>x. out_slot x = out_slot out"] by blast
  then have "k < length outs" "out_slot (outs ! k) = out_slot out"
    by (auto dest: position_of_Some)
  then have "outs ! k = out" using assms by (metis distinct_map inj_onD nth_mem)
  then show ?thesis using that k \<open>k < length outs\<close> by blast
qed

lemma input_slots_declares:
  assumes "distinct (map in_binding inputs)" "declares inputs b port t"
  shows "\<exists>i. input_slots inputs b = Some i \<and> in_port i = port \<and> in_type i = t"
proof -
  obtain i where i: "i \<in> set inputs" "in_binding i = b" "in_port i = port" "in_type i = t"
    using assms(2) by (auto simp: declares_def)
  have "input_slots inputs b = Some i"
    unfolding input_slots_def
    using assms(1) i by (subst map_of_eq_Some_iff) (auto simp: comp_def rev_map distinct_map)
  then show ?thesis using i by blast
qed

text \<open>The bindings a slot binding compiles to.\<close>

definition named :: "string \<Rightarrow> attribute_ref list \<Rightarrow> sql_binding \<Rightarrow> bool" where
  "named als attributes b \<longleftrightarrow>
     sq_input_alias b = als \<and> sq_attribute_name b \<in> at_name ` set attributes"

lemma map_edge_progress:
  assumes outs: "distinct (map out_slot outs)"
    and attrs: "list_all2 (\<lambda>a out. attribute_matches_slot a (out_type out)) as outs"
    and typed: "\<forall>m\<in>set ms. \<exists>out\<in>set outs. out_slot out = sb_source m
      \<and> (\<exists>i. slots (sb_target m) = Some i \<and> in_port i = port \<and> in_type i = out_type out)"
    and fresh: "distinct (map sb_target ms)" "sb_target ` set ms \<inter> mapped = {}"
  shows "\<exists>bs. map_edge slots port outs as als ms (mapped, bindings)
        = Inr (mapped \<union> sb_target ` set ms, bindings @ bs)
      \<and> map sq_binding_id bs = map sb_target ms \<and> (\<forall>b\<in>set bs. named als as b)"
  using typed fresh
proof (induction ms arbitrary: mapped bindings)
  case (Cons m ms)
  obtain out i where out: "out \<in> set outs" "out_slot out = sb_source m"
      "slots (sb_target m) = Some i" "in_port i = port" "in_type i = out_type out"
    using Cons.prems(1) by auto
  obtain k where k: "position_of (\<lambda>x. out_slot x = sb_source m) outs = Some k" "k < length outs"
      "outs ! k = out"
    using position_of_slot[OF outs out(1)] out(2) by auto
  have match: "attribute_matches_slot (as ! k) (in_type i)" "as ! k \<in> set as"
    using attrs k out(5) by (auto simp: list_all2_conv_all_nth)
  let ?b = "\<lparr>sq_binding_id = sb_target m, sq_input_alias = als, sq_attribute_name = at_name (as ! k)\<rparr>"
  have fresh: "sb_target ` set ms \<inter> insert (sb_target m) mapped = {}" "distinct (map sb_target ms)"
    using Cons.prems by auto
  obtain bs where bs: "map_edge slots port outs as als ms
        (insert (sb_target m) mapped, bindings @ [?b])
      = Inr (insert (sb_target m) mapped \<union> sb_target ` set ms, (bindings @ [?b]) @ bs)"
      "map sq_binding_id bs = map sb_target ms" "\<forall>b\<in>set bs. named als as b"
    using Cons.IH[OF _ fresh(2,1), of "bindings @ [?b]"] Cons.prems(1) by auto
  have "map_edge slots port outs as als (m # ms) (mapped, bindings)
      = Inr (mapped \<union> sb_target ` set (m # ms), bindings @ ?b # bs)"
    using bs(1) Cons.prems(3) out k match by (simp add: Let_def)
  moreover have "named als as ?b" using match by (simp add: named_def)
  ultimately show ?case using bs(2,3) by (intro exI[of _ "?b # bs"]) simp
qed simp

text \<open>
  The live inputs of a stage: one payload per edge, whose attributes have the types of the
  upstream outputs.
\<close>

definition live_input ::
    "('row \<Rightarrow> attribute_ref list result) \<Rightarrow> dataflow_stage list \<Rightarrow> dataflow_input
     \<Rightarrow> 'row binding_input \<Rightarrow> bool" where
  "live_input attrs stages edge input \<longleftrightarrow>
     bi_alias input \<noteq> [] \<and>
     (\<exists>as. attrs (bi_row_type input) = Inr as \<and> (\<forall>a\<in>set as. at_name a \<noteq> [])
        \<and> list_all2 (\<lambda>a out. attribute_matches_slot a (out_type out)) as
            (sch_outputs (st_schema (stages ! di_upstream edge))))"

definition identified :: "sql_binding \<Rightarrow> bool" where
  "identified b \<longleftrightarrow> sq_input_alias b \<noteq> [] \<and> sq_attribute_name b \<noteq> []"

definition edge_wf :: "dataflow_stage list \<Rightarrow> (binding_id \<rightharpoonup> input_slot) \<Rightarrow> nat \<Rightarrow> dataflow_input \<Rightarrow> bool"
  where
  "edge_wf stages slots port edge \<longleftrightarrow>
     di_upstream edge < length stages
     \<and> distinct (map out_slot (sch_outputs (st_schema (stages ! di_upstream edge))))
     \<and> (\<forall>m\<in>set (di_bindings edge). \<exists>out\<in>set (sch_outputs (st_schema (stages ! di_upstream edge))).
          out_slot out = sb_source m
          \<and> (\<exists>i. slots (sb_target m) = Some i \<and> in_port i = port \<and> in_type i = out_type out))"

lemma map_edges_progress:
  assumes "length edges = length inputs"
    and "\<forall>k<length edges. edge_wf stages slots (port + k) (edges ! k)
      \<and> live_input attrs stages (edges ! k) (inputs ! k)"
    and "distinct (bound_targets edges)" "set (bound_targets edges) \<inter> mapped = {}"
  shows "\<exists>bs. map_edges attrs stages slots port (zip edges inputs) (mapped, bindings)
        = Inr (mapped \<union> set (bound_targets edges), bindings @ bs)
      \<and> map sq_binding_id bs = bound_targets edges \<and> (\<forall>b\<in>set bs. identified b)"
  using assms
proof (induction edges inputs arbitrary: port mapped bindings rule: list_induct2)
  case Nil
  then show ?case by (simp add: bound_targets_def)
next
  case (Cons e es i ins)
  have targets: "bound_targets (e # es) = map sb_target (di_bindings e) @ bound_targets es"
    by (simp add: bound_targets_def)
  let ?outs = "sch_outputs (st_schema (stages ! di_upstream e))"
  have e: "edge_wf stages slots port e" "live_input attrs stages e i"
    using Cons.prems(1) by force+
  obtain as where as: "attrs (bi_row_type i) = Inr as" "\<forall>a\<in>set as. at_name a \<noteq> []"
      "list_all2 (\<lambda>a out. attribute_matches_slot a (out_type out)) as ?outs" "bi_alias i \<noteq> []"
    using e(2) by (auto simp: live_input_def)
  obtain b1 where b1: "map_edge slots port ?outs as (bi_alias i) (di_bindings e) (mapped, bindings)
        = Inr (mapped \<union> sb_target ` set (di_bindings e), bindings @ b1)"
      "map sq_binding_id b1 = map sb_target (di_bindings e)" "\<forall>b\<in>set b1. named (bi_alias i) as b"
    using map_edge_progress[of ?outs as "di_bindings e" slots port mapped "bi_alias i" bindings]
      e(1) as(3) Cons.prems(2,3) by (auto simp: edge_wf_def targets)
  have rest: "\<forall>k<length es. edge_wf stages slots (port + 1 + k) (es ! k)
      \<and> live_input attrs stages (es ! k) (ins ! k)"
    using Cons.prems(1) by force
  obtain b2 where b2: "map_edges attrs stages slots (port + 1) (zip es ins)
        (mapped \<union> sb_target ` set (di_bindings e), bindings @ b1)
      = Inr (mapped \<union> sb_target ` set (di_bindings e) \<union> set (bound_targets es), (bindings @ b1) @ b2)"
      "map sq_binding_id b2 = bound_targets es" "\<forall>b\<in>set b2. identified b"
    using Cons.IH[OF rest, of "mapped \<union> sb_target ` set (di_bindings e)" "bindings @ b1"]
      Cons.prems(2,3) by (auto simp: targets)
  have "validate_output_attributes as ?outs = Inr ()"
    using as(3) by (simp only: validate_output_attributes_Inr)
  then have "map_edges attrs stages slots port (zip (e # es) (i # ins)) (mapped, bindings)
      = Inr (mapped \<union> set (bound_targets (e # es)), bindings @ b1 @ b2)"
    using e(1) as b1(1) b2(1)
    by (simp add: edge_wf_def Let_def targets Un_assoc)
  moreover have "\<forall>b\<in>set b1. identified b"
    using b1(3) as(2,4) by (auto simp: named_def identified_def)
  ultimately show ?case
    using b1(2) b2(2,3) by (intro exI[of _ "b1 @ b2"]) (auto simp: targets)
qed

text \<open>The live payloads of a stage, one per edge.\<close>

definition live_inputs ::
    "('row \<Rightarrow> attribute_ref list result) \<Rightarrow> dataflow_plan \<Rightarrow> dataflow_stage
     \<Rightarrow> 'row binding_input list \<Rightarrow> bool" where
  "live_inputs attrs plan stage inputs \<longleftrightarrow>
     list_all2 (live_input attrs (pl_stages plan)) (st_inputs stage) inputs"

lemma bound_targets_exact:
  assumes "edges_typed stages s"
  shows "set (bound_targets (st_inputs s)) = in_binding ` set (sch_inputs (st_schema s))"
proof
  show "set (bound_targets (st_inputs s)) \<subseteq> in_binding ` set (sch_inputs (st_schema s))"
  proof
    fix b
    assume "b \<in> set (bound_targets (st_inputs s))"
    then obtain edge m where "edge \<in> set (st_inputs s)" "m \<in> set (di_bindings edge)" "b = sb_target m"
      by (auto simp: bound_targets_def)
    then obtain k where "k < length (st_inputs s)" "m \<in> set (di_bindings (st_inputs s ! k))"
      by (metis in_set_conv_nth)
    then have "edge_typed stages s k m" using assms by (simp add: edges_typed_def)
    then show "b \<in> in_binding ` set (sch_inputs (st_schema s))"
      using \<open>b = sb_target m\<close> unfolding edge_typed_def declares_def by (metis image_eqI)
  qed
qed (use assms in \<open>simp add: edges_typed_def\<close>)

lemma stage_bindings_compile:
  assumes "plan_typed plan" "j < length (pl_stages plan)"
    and "live_inputs attrs plan (pl_stages plan ! j) inputs"
  shows "\<exists>bs. compile_stage_bindings attrs plan (pl_stages plan ! j) inputs = Inr bs
      \<and> map sq_binding_id bs = bound_targets (st_inputs (pl_stages plan ! j))
      \<and> (\<forall>b\<in>set bs. identified b)"
proof -
  let ?s = "pl_stages plan ! j" and ?ss = "pl_stages plan"
  let ?edges = "st_inputs ?s" and ?decl = "sch_inputs (st_schema ?s)"
  note typed = plan_typedD[OF assms(1,2)]
  have dist: "distinct (map in_binding ?decl)" by (rule stage_typed_distinct[OF typed(3)])
  have card: "card (in_binding ` set ?decl) = length ?decl"
    using distinct_card[OF dist] by simp
  have len: "length ?edges = length inputs"
    using assms(3) by (auto simp: live_inputs_def dest: list_all2_lengthD)
  have edge: "edge_wf ?ss (input_slots ?decl) k (?edges ! k)" if k: "k < length ?edges" for k
  proof -
    have "reads ?ss j (di_upstream (?edges ! k))" using k assms(2) by (simp add: reads_def)
    then have up: "di_upstream (?edges ! k) < length ?ss" using typed(2) assms(2) by fastforce
    moreover have "distinct (map out_slot (sch_outputs (st_schema (?ss ! di_upstream (?edges ! k)))))"
      by (rule stage_typed_distinct[OF plan_typedD(3)[OF assms(1) up]])
    moreover have "edge_typed ?ss ?s k m" if "m \<in> set (di_bindings (?edges ! k))" for m
      using typed(4) k that by (auto simp: edges_typed_def)
    ultimately show ?thesis
      unfolding edge_wf_def edge_typed_def using input_slots_declares[OF dist] by blast
  qed
  have dt: "distinct (bound_targets ?edges)"
    using typed(4) by (simp add: edges_typed_def)
  obtain bs where bs: "map_edges attrs ?ss (input_slots ?decl) 0 (zip ?edges inputs) ({}, [])
        = Inr (set (bound_targets ?edges), bs)"
      "map sq_binding_id bs = bound_targets ?edges" "\<forall>b\<in>set bs. identified b"
    using map_edges_progress[OF len, of ?ss "input_slots ?decl" 0 attrs "{}" "[]"] edge dt assms(3)
    by (auto simp: live_inputs_def list_all2_conv_all_nth)
  have "set (bound_targets ?edges) = in_binding ` set ?decl" by (rule bound_targets_exact[OF typed(4)])
  then have "card (set (bound_targets ?edges)) = length ?decl" using card by simp
  then show ?thesis
    using bs card len by (simp add: compile_stage_bindings_def Let_def)
qed

lemma compiler_new_ok:
  "(\<forall>b\<in>set bs. identified b \<and> m (sq_binding_id b) = None) \<Longrightarrow> distinct (map sq_binding_id bs) \<Longrightarrow>
     \<exists>cb. compiler_new bs m = Inr cb \<and> dom cb = dom m \<union> sq_binding_id ` set bs"
proof (induction bs arbitrary: m)
  case (Cons b bs)
  have "\<exists>cb. compiler_new bs (m(sq_binding_id b \<mapsto> (sq_input_alias b, sq_attribute_name b))) = Inr cb
      \<and> dom cb = dom (m(sq_binding_id b \<mapsto> (sq_input_alias b, sq_attribute_name b)))
          \<union> sq_binding_id ` set bs"
    using Cons.prems by (intro Cons.IH) (auto simp: image_iff)
  then show ?case using Cons.prems(1) by (auto simp: identified_def)
qed simp

lemma typable_compiles:
  assumes "typable bs [] e" "map sq_binding_id sqs = targets" "distinct targets"
    and "dom bs \<subseteq> set targets" "\<forall>b\<in>set sqs. identified b"
  shows "is_ok (compile_scalar_expression cat e sqs) \<longleftrightarrow> resolved cat e \<and> arities cat e"
proof -
  obtain cb where cb: "compiler_new sqs Map.empty = Inr cb" "dom cb = sq_binding_id ` set sqs"
    using compiler_new_ok[of sqs Map.empty] assms(2,3,5) by auto
  have covers: "covers cb bs" using cb(2) assms(2,4) by (auto simp: covers_def)
  show ?thesis
  proof (cases "resolved cat e")
    case True
    then show ?thesis
      using compile_scoped_progress[OF covers True assms(1), of "[]"] cb
      by (simp add: compile_scalar_expression_def compile_expression_def resolved_def)
  next
    case False
    then obtain err where "validate_scalar_catalog_with cat e = Inl err"
      by (cases "validate_scalar_catalog_with cat e") (auto simp: resolved_def)
    then show ?thesis
      using False cb by (simp add: compile_scalar_expression_def compile_expression_def)
  qed
qed

lemma expressions_by_slot_Some:
  assumes "distinct (map ne_output es)" "e \<in> set es"
  shows "expressions_by_slot es (ne_output e) = Some e"
  unfolding expressions_by_slot_def
  using assms by (subst map_of_eq_Some_iff) (auto simp: comp_def rev_map distinct_map)

lemma named_outputs_compile:
  assumes slots: "map ne_output es = map out_slot outs" "distinct (map out_slot outs)"
    and ok: "\<forall>e\<in>set es. is_ok (compile_scalar_expression cat (ne_expr e) sqs)"
  shows "is_ok (compile_named_outputs cat outs es sqs operator)"
proof -
  have dist: "distinct (map ne_output es)" using slots by simp
  have card: "card (ne_output ` set es) = length es" using distinct_card[OF dist] by simp
  have len: "length es = length outs" using slots(1) by (metis length_map)
  have "\<exists>e\<in>set es. expressions_by_slot es (out_slot out) = Some e" if "out \<in> set outs" for out
  proof -
    have "out_slot out \<in> set (map ne_output es)" using that slots(1) by simp
    then obtain e where "e \<in> set es" "ne_output e = out_slot out" by auto
    then show ?thesis using expressions_by_slot_Some[OF dist] by metis
  qed
  then show ?thesis
    using ok card len by (fastforce simp: compile_named_outputs_def is_ok_traverse is_ok_bind)
qed

section \<open>Validated plans run\<close>

text \<open>
  C21: In a validated plan the effects of every stage reach a Sink: from any stage there is a path
  of reading stages to it, and along every edge the stage number grows.\<close>

theorem every_stage_reaches_sink:
  assumes "validate_plan plan = Inr ()" "i < length (pl_stages plan)"
  shows "(\<exists>k<length (pl_stages plan). spec_kind (st_spec (pl_stages plan ! k)) = KSink
           \<and> (feeds (pl_stages plan))\<^sup>*\<^sup>* i k)
    \<and> (\<forall>j. feeds (pl_stages plan) i j \<longrightarrow> i < j)"
proof -
  have typed: "plan_typed plan" using assms(1) by (simp add: validate_plan_typed)
  have "i < j" if "feeds (pl_stages plan) i j" for j
    using that plan_typedD(2)[OF typed, of j i] by (auto simp: feeds_def reads_def)
  then show ?thesis using typed_stage_feeds_sink[OF typed assms(2)] by (auto simp: is_sink_def)
qed

text \<open>
  C7: The bindings and expressions of a validated plan compile.  With one live payload per edge,
  whose attributes have the types of the upstream outputs, the bindings of a stage compile, one for
  each declared binding; with them an expression of the stage compiles exactly when the catalog
  resolves its objects and gives its operators the arity of their use, so a binding is never
  unknown and a CASE placeholder never out of scope; and the outputs compile when their
  expressions do.\<close>

theorem validated_stage_compiles:
  assumes "validate_plan plan = Inr ()" "j < length (pl_stages plan)"
    and "live_inputs attrs plan (pl_stages plan ! j) inputs"
  shows "\<exists>bs. compile_stage_bindings attrs plan (pl_stages plan ! j) inputs = Inr bs
    \<and> set (map sq_binding_id bs) = in_binding ` set (sch_inputs (st_schema (pl_stages plan ! j)))
    \<and> (\<forall>e\<in>set (spec_expressions (st_spec (pl_stages plan ! j))).
         is_ok (compile_scalar_expression cat e bs) \<longleftrightarrow> resolved cat e \<and> arities cat e)
    \<and> (\<forall>es operator. map ne_output es = map out_slot (sch_outputs (st_schema (pl_stages plan ! j)))
         \<and> (\<forall>e\<in>set es. is_ok (compile_scalar_expression cat (ne_expr e) bs))
         \<longrightarrow> is_ok (compile_named_outputs cat (sch_outputs (st_schema (pl_stages plan ! j))) es bs operator))"
proof -
  let ?s = "pl_stages plan ! j"
  have plan: "plan_typed plan" using assms(1) by (simp add: validate_plan_typed)
  note typed = plan_typedD[OF plan assms(2)]
  note dist = stage_typed_distinct[OF typed(3)]
  obtain bs where bs: "compile_stage_bindings attrs plan ?s inputs = Inr bs"
      "map sq_binding_id bs = bound_targets (st_inputs ?s)" "\<forall>b\<in>set bs. identified b"
    using stage_bindings_compile[OF plan assms(2,3)] by blast
  have ids: "set (bound_targets (st_inputs ?s)) = in_binding ` set (sch_inputs (st_schema ?s))"
    by (rule bound_targets_exact[OF typed(4)])
  have "is_ok (compile_scalar_expression cat e bs) \<longleftrightarrow> resolved cat e \<and> arities cat e"
    if "e \<in> set (spec_expressions (st_spec ?s))" for e
  proof (rule typable_compiles[OF _ bs(2)])
    show "typable (typing_of (sch_inputs (st_schema ?s))) [] e"
      using typed(3) that by (simp add: stage_typed_def operator_typed_def Let_def)
    show "distinct (bound_targets (st_inputs ?s))" using typed(4) by (simp add: edges_typed_def)
    show "dom (typing_of (sch_inputs (st_schema ?s))) \<subseteq> set (bound_targets (st_inputs ?s))"
      unfolding ids by (auto simp: dom_def typing_of_None)
  qed (use bs(3) in simp)
  moreover have "set (map sq_binding_id bs) = in_binding ` set (sch_inputs (st_schema ?s))"
    using bs(2) ids by simp
  ultimately show ?thesis
    using bs(1) named_outputs_compile[OF _ dist(2)] by blast
qed

text \<open>A Scan, a Filter with a simple CASE and an operator, and a Sink.\<close>

definition int_type :: slot_type where
  "int_type = \<lparr>ty_oid = 23, ty_typmod = - 1, ty_collation = 0, ty_nullable = False\<rparr>"

definition sample_predicate :: scalar_expr where
  "sample_predicate =
     ECase (Some (EInput 7))
       [CaseWhen (EOperator 96 [ECaseTest int_type, EConstant int_type (Some (DatumText ''1''))] boolean_type)
          (EBool BoolNot [ENullTest (EInput 7) False])]
       (EConstant boolean_type None) boolean_type"

definition sample_plan :: dataflow_plan where
  "sample_plan =
     \<lparr>pl_settings = \<lparr>es_timezone = ''UTC'', es_datestyle = ''ISO'', es_intervalstyle = ''postgres'',
        es_extra_float_digits = 1, es_bytea_output = ''hex''\<rparr>,
      pl_stages =
        [\<lparr>st_spec = OpScan \<lparr>scan_source_oid = 16384,
             scan_columns = [\<lparr>scol_output = 0, scol_attnum = 1\<rparr>]\<rparr>,
           st_schema = \<lparr>sch_inputs = [], sch_outputs = [\<lparr>out_slot = 0, out_type = int_type\<rparr>]\<rparr>,
           st_inputs = []\<rparr>,
         \<lparr>st_spec = OpFilter \<lparr>filter_predicate = sample_predicate,
             filter_outputs = [\<lparr>ne_output = 3, ne_name = None, ne_expr = EInput 7\<rparr>]\<rparr>,
           st_schema = \<lparr>sch_inputs = [\<lparr>in_binding = 7, in_port = 0, in_type = int_type\<rparr>],
             sch_outputs = [\<lparr>out_slot = 3, out_type = int_type\<rparr>]\<rparr>,
           st_inputs = [\<lparr>di_upstream = 0, di_bindings = [\<lparr>sb_source = 0, sb_target = 7\<rparr>]\<rparr>]\<rparr>,
         \<lparr>st_spec = OpSink,
           st_schema = \<lparr>sch_inputs = [\<lparr>in_binding = 1, in_port = 0, in_type = int_type\<rparr>],
             sch_outputs = []\<rparr>,
           st_inputs = [\<lparr>di_upstream = 1, di_bindings = [\<lparr>sb_source = 3, sb_target = 1\<rparr>]\<rparr>]\<rparr>]\<rparr>"

lemma sample_plan_valid: "validate_plan sample_plan = Inr ()"
  by (simp add: sample_plan_def sample_predicate_def validate_plan_def validate_execution_settings_def
      scan_stage_def validate_stage_def validate_operator_spec_def validate_operator_config_def
      validate_scalar_expr_def part_error_def validate_slot_type_def validate_slot_bindings_def
      validate_stage_bindings_def check_consumers_def declared_inputs_def output_types_def
      input_count_def int_type_def boolean_type_def Let_def)

lemma sample_plan_length [simp]: "length (pl_stages sample_plan) = 3"
  by (simp add: sample_plan_def)

theorem every_stage_reaches_sink_witness:
  "(\<exists>k<3. spec_kind (st_spec (pl_stages sample_plan ! k)) = KSink
     \<and> (feeds (pl_stages sample_plan))\<^sup>*\<^sup>* 0 k)"
  using every_stage_reaches_sink[OF sample_plan_valid, of 0] by simp

definition sample_attribute :: attribute_ref where
  "sample_attribute = \<lparr>at_number = 1, at_name = ''id'', at_type_oid = 23, at_typmod = - 1,
     at_collation = 0, at_not_null = True\<rparr>"

lemma sample_live:
  "live_inputs (\<lambda>_. Inr [sample_attribute]) sample_plan (pl_stages sample_plan ! 1)
     [\<lparr>bi_row_type = (), bi_alias = ''input''\<rparr>]"
  by (simp add: live_inputs_def live_input_def sample_plan_def sample_attribute_def
      attribute_matches_slot_def int_type_def)

definition sample_catalog :: catalog where
  "sample_catalog =
     \<lparr>cat_function = (\<lambda>_. Inl ''unknown function''),
      cat_operator = (\<lambda>oid. if oid = 96 then Inr \<lparr>on_schema = ''pg_catalog'', on_name = ''='', on_kind = CHR ''b''\<rparr>
        else Inl ''unknown operator''),
      cat_type_name = (\<lambda>t. Inr (if ty_oid t = 16 then ''boolean'' else ''integer'')),
      cat_collation = (\<lambda>_. Inl ''unknown collation'')\<rparr>"

lemma sample_predicate_resolved:
  "resolved sample_catalog sample_predicate" "arities sample_catalog sample_predicate"
  by (simp_all add: sample_predicate_def resolved_simps arities_simps type_resolved_def
      sample_catalog_def int_type_def boolean_type_def operator_arity_def)

theorem validated_stage_compiles_witness:
  "\<exists>bs. compile_stage_bindings (\<lambda>_. Inr [sample_attribute]) sample_plan (pl_stages sample_plan ! 1)
       [\<lparr>bi_row_type = (), bi_alias = ''input''\<rparr>] = Inr bs
     \<and> is_ok (compile_scalar_expression sample_catalog sample_predicate bs)"
proof -
  have "sample_predicate \<in> set (spec_expressions (st_spec (pl_stages sample_plan ! 1)))"
    by (simp add: sample_plan_def)
  then show ?thesis
    using validated_stage_compiles[OF sample_plan_valid _ sample_live, of sample_catalog]
      sample_predicate_resolved by auto
qed

end
