(* ===== verification/Join_Planner.thy ===== *)
theory Join_Planner
  imports Kernel_Contract Plan_Validate
begin

text \<open>
  The control state of the differential join (\<open>src/execution/join/planner.rs\<close>).  The database
  probes the rows of the opposite input that may match the current event; the planner turns a page
  of measured candidates into an ordered prefix of output actions, the compare-and-set changes of
  the candidates' match counts, and the next continuation.  Counts are \<open>u64\<close>, bounded by
  \<open>i64::MAX\<close> where the code says so; sums of a count and a weight are taken in \<open>i128\<close>, hence exact.
\<close>

section \<open>Phases, sides and truth values\<close>

definition int_text :: "int \<Rightarrow> string" where
  "int_text v = (if v < 0 then CHR ''-'' # decimal (nat (- v)) else decimal (nat v))"

datatype join_phase = JPhPreflight | JPhProbe | JPhPending | JPhFinalize | JPhFrontier

fun join_phase_code :: "join_phase \<Rightarrow> int" where
  "join_phase_code JPhPreflight = 1"
| "join_phase_code JPhProbe = 2"
| "join_phase_code JPhPending = 3"
| "join_phase_code JPhFinalize = 4"
| "join_phase_code JPhFrontier = 5"

definition join_phase_from_code :: "int \<Rightarrow> join_phase result" where
  "join_phase_from_code c =
     (if c = 1 then Inr JPhPreflight else if c = 2 then Inr JPhProbe
      else if c = 3 then Inr JPhPending else if c = 4 then Inr JPhFinalize
      else if c = 5 then Inr JPhFrontier
      else if c = 0 then Inl ''idle phase means that no Join continuation exists''
      else Inl (''unknown Join phase code '' @ int_text c))"

datatype input_side = SideLeft | SideRight

fun side_code :: "input_side \<Rightarrow> int" where
  "side_code SideLeft = 0"
| "side_code SideRight = 1"

definition side_from_code :: "int \<Rightarrow> input_side result" where
  "side_from_code c =
     (if c = 0 then Inr SideLeft else if c = 1 then Inr SideRight
      else Inl (''unknown Join input side code '' @ int_text c))"

fun opposite :: "input_side \<Rightarrow> input_side" where
  "opposite SideLeft = SideRight"
| "opposite SideRight = SideLeft"

datatype match_truth = MatchFalse | MatchTrue | MatchUnknown

fun truth_code :: "match_truth \<Rightarrow> int" where
  "truth_code MatchFalse = 0"
| "truth_code MatchTrue = 1"
| "truth_code MatchUnknown = - 1"

definition truth_from_code :: "int \<Rightarrow> match_truth result" where
  "truth_from_code c =
     (if c = 0 then Inr MatchFalse else if c = 1 then Inr MatchTrue
      else if c = - 1 then Inr MatchUnknown else Inl (''unknown Join match truth code '' @ int_text c))"

text \<open>\<open>JoinMode\<close> has the constructors of \<open>JoinKind\<close>, and \<open>mode\<close> maps one to the other.\<close>

type_synonym join_mode = join_kind

section \<open>Counts and identifiers\<close>

definition join_validate_position :: "input_position \<Rightarrow> unit result" where
  "join_validate_position p =
     (if ip_stream_id p \<le> 0 \<or> ip_chunk_seq p \<le> 0 \<or> ip_row_ordinal p < 0
      then Inl ''Join continuation contains an invalid input position'' else Inr ())"

definition validate_stable_id :: "int \<Rightarrow> string \<Rightarrow> unit result" where
  "validate_stable_id v name =
     (if v \<le> 0 then Inl (name @ '' ID must be positive'') else Inr ())"

definition validate_count :: "nat \<Rightarrow> string \<Rightarrow> unit result" where
  "validate_count v name =
     (if i64_max_u64 < v then Inl (name @ '' count exceeds PostgreSQL bigint'') else Inr ())"

definition validate_positive_count :: "nat \<Rightarrow> string \<Rightarrow> unit result" where
  "validate_positive_count v name =
     (if v = 0 then Inl (name @ '' must be positive'') else validate_count v name)"

definition checked_count_sum :: "nat \<Rightarrow> nat \<Rightarrow> string \<Rightarrow> nat result" where
  "checked_count_sum l r name =
     bind_res (ok_or (name @ '' overflow'') (checked_add_u64 l r)) (\<lambda>s.
     bind_res (validate_count s name) (\<lambda>_. Inr s))"

definition checked_signed_count :: "nat \<Rightarrow> int \<Rightarrow> string \<Rightarrow> nat result" where
  "checked_signed_count base delta name =
     bind_res (validate_count base name) (\<lambda>_.
     let r = int base + delta in
     if \<not> (0 \<le> r \<and> r \<le> i64_max) then Inl (name @ '' underflow or overflow'') else Inr (nat r))"

definition checked_weight_product :: "int \<Rightarrow> nat \<Rightarrow> int result" where
  "checked_weight_product weight multiplicity =
     bind_res (validate_positive_count multiplicity ''Join candidate multiplicity'') (\<lambda>_.
     let p = weight * int multiplicity in
     if p = 0 \<or> p < i64_min \<or> i64_max < p then Inl ''Join pair weight underflow or overflow''
     else Inr p)"

definition count_to_i64 :: "nat \<Rightarrow> string \<Rightarrow> int result" where
  "count_to_i64 v name = bind_res (validate_count v name) (\<lambda>_. Inr (int v))"

section \<open>Events and expectations\<close>

record input_positions =
  jps_left :: input_position
  jps_right :: input_position

fun position_of_side :: "input_positions \<Rightarrow> input_side \<Rightarrow> input_position" where
  "position_of_side p SideLeft = jps_left p"
| "position_of_side p SideRight = jps_right p"

definition positions_validate :: "input_positions \<Rightarrow> unit result" where
  "positions_validate p =
     bind_res (join_validate_position (jps_left p)) (\<lambda>_. join_validate_position (jps_right p))"

definition positions_new :: "input_position \<Rightarrow> input_position \<Rightarrow> input_positions result" where
  "positions_new l r =
     bind_res (join_validate_position l) (\<lambda>_.
     bind_res (join_validate_position r) (\<lambda>_. Inr \<lparr>jps_left = l, jps_right = r\<rparr>))"

record input_event =
  ev_side :: input_side
  ev_positions :: input_positions
  ev_weight :: int
  ev_bytes :: nat

definition event_validate :: "input_event \<Rightarrow> unit result" where
  "event_validate e =
     bind_res (positions_validate (ev_positions e)) (\<lambda>_.
     if ev_weight e = 0 then Inl ''Join input event has zero weight''
     else if ev_bytes e = 0 then Inl ''Join input event has zero measured bytes''
     else Inr ())"

definition event_new :: "input_side \<Rightarrow> input_positions \<Rightarrow> int \<Rightarrow> nat \<Rightarrow> input_event result" where
  "event_new side positions weight bytes =
     (let e = \<lparr>ev_side = side, ev_positions = positions, ev_weight = weight, ev_bytes = bytes\<rparr> in
      bind_res (event_validate e) (\<lambda>_. Inr e))"

record match_counts =
  mc_matched :: nat
  mc_unknown :: nat

definition counts_default :: match_counts where
  "counts_default = \<lparr>mc_matched = 0, mc_unknown = 0\<rparr>"

definition counts_validate :: "match_counts \<Rightarrow> unit result" where
  "counts_validate c =
     bind_res (validate_count (mc_matched c) ''matched'') (\<lambda>_.
     validate_count (mc_unknown c) ''unknown'')"

definition counts_new :: "nat \<Rightarrow> nat \<Rightarrow> match_counts result" where
  "counts_new m u =
     (let c = \<lparr>mc_matched = m, mc_unknown = u\<rparr> in bind_res (counts_validate c) (\<lambda>_. Inr c))"

record candidate_expectation =
  ce_row_id :: int
  ce_multiplicity :: nat
  ce_truth :: match_truth
  ce_old :: match_counts
  ce_new :: match_counts

definition candidate_validate :: "candidate_expectation \<Rightarrow> unit result" where
  "candidate_validate c =
     bind_res (validate_stable_id (ce_row_id c) ''Join candidate'') (\<lambda>_.
     bind_res (validate_positive_count (ce_multiplicity c) ''Join candidate multiplicity'') (\<lambda>_.
     bind_res (counts_validate (ce_old c)) (\<lambda>_. counts_validate (ce_new c))))"

record own_expectation =
  oe_row_id :: "int option"
  oe_multiplicity :: nat
  oe_counts :: match_counts

definition own_absent :: own_expectation where
  "own_absent = \<lparr>oe_row_id = None, oe_multiplicity = 0, oe_counts = counts_default\<rparr>"

definition own_validate :: "own_expectation \<Rightarrow> unit result" where
  "own_validate w =
     bind_res (counts_validate (oe_counts w)) (\<lambda>_.
     case oe_row_id w of
       None \<Rightarrow>
         if oe_multiplicity w = 0 \<and> oe_counts w = counts_default then Inr ()
         else Inl ''absent Join own state contains counts or multiplicity''
     | Some row_id \<Rightarrow>
         bind_res (validate_stable_id row_id ''Join own arrangement row'') (\<lambda>_.
         validate_positive_count (oe_multiplicity w) ''Join own multiplicity''))"

definition own_present :: "int \<Rightarrow> nat \<Rightarrow> match_counts \<Rightarrow> own_expectation result" where
  "own_present row_id multiplicity counts =
     (let w = \<lparr>oe_row_id = Some row_id, oe_multiplicity = multiplicity, oe_counts = counts\<rparr> in
      bind_res (own_validate w) (\<lambda>_. Inr w))"

definition own_validate_event :: "own_expectation \<Rightarrow> int \<Rightarrow> unit result" where
  "own_validate_event w weight =
     bind_res (own_validate w) (\<lambda>_.
     bind_res (checked_signed_count (oe_multiplicity w) weight ''Join own multiplicity'') (\<lambda>_.
     Inr ()))"

section \<open>Progress of an event\<close>

record input_progress =
  ipg_positions :: input_positions
  ipg_side :: input_side
  ipg_weight :: int
  ipg_bytes :: nat
  ipg_own :: own_expectation
  ipg_after :: "int option"
  ipg_counts :: match_counts

definition progress_from_event :: "input_event \<Rightarrow> own_expectation \<Rightarrow> input_progress" where
  "progress_from_event e w =
     \<lparr>ipg_positions = ev_positions e, ipg_side = ev_side e, ipg_weight = ev_weight e,
      ipg_bytes = ev_bytes e, ipg_own = w, ipg_after = None, ipg_counts = counts_default\<rparr>"

definition progress_validate :: "input_progress \<Rightarrow> unit result" where
  "progress_validate p =
     bind_res (positions_validate (ipg_positions p)) (\<lambda>_.
     if ipg_weight p = 0 then Inl ''Join continuation contains a zero input weight''
     else if ipg_bytes p = 0 then Inl ''Join continuation contains zero input bytes''
     else
       bind_res (own_validate_event (ipg_own p) (ipg_weight p)) (\<lambda>_.
       bind_res (case ipg_after p of None \<Rightarrow> Inr ()
                 | Some row_id \<Rightarrow> validate_stable_id row_id ''Join candidate cursor'') (\<lambda>_.
       counts_validate (ipg_counts p))))"

definition progress_validate_resume :: "input_progress \<Rightarrow> input_event \<Rightarrow> unit result" where
  "progress_validate_resume p e =
     bind_res (event_validate e) (\<lambda>_.
     if ipg_side p \<noteq> ev_side e then Inl ''Join input side changed while resuming''
     else if ipg_positions p \<noteq> ev_positions e
     then Inl ''Join input positions changed while resuming''
     else if ipg_weight p \<noteq> ev_weight e then Inl ''Join input weight changed while resuming''
     else if ipg_bytes p \<noteq> ev_bytes e then Inl ''Join input byte size changed while resuming''
     else Inr ())"

definition complete_candidate ::
    "input_progress \<Rightarrow> candidate_expectation \<Rightarrow> input_progress result" where
  "complete_candidate p c =
     (let q = p\<lparr>ipg_after := Some (ce_row_id c)\<rparr> in
      case ce_truth c of
        MatchTrue \<Rightarrow>
          bind_res (checked_count_sum (mc_matched (ipg_counts p)) (ce_multiplicity c)
              ''Join event matched count'') (\<lambda>n.
          Inr (q\<lparr>ipg_counts := (ipg_counts p)\<lparr>mc_matched := n\<rparr>\<rparr>))
      | MatchUnknown \<Rightarrow>
          bind_res (checked_count_sum (mc_unknown (ipg_counts p)) (ce_multiplicity c)
              ''Join event unknown count'') (\<lambda>n.
          Inr (q\<lparr>ipg_counts := (ipg_counts p)\<lparr>mc_unknown := n\<rparr>\<rparr>))
      | MatchFalse \<Rightarrow> Inr q)"

record frontier_input =
  fi_side :: input_side
  fi_positions :: input_positions
  fi_frontier :: nat

definition frontier_input_validate :: "frontier_input \<Rightarrow> unit result" where
  "frontier_input_validate f =
     bind_res (positions_validate (fi_positions f)) (\<lambda>_.
     if fi_frontier f = 0 then Inl ''Join input frontier is zero'' else Inr ())"

definition frontier_input_new ::
    "input_side \<Rightarrow> input_positions \<Rightarrow> nat \<Rightarrow> frontier_input result" where
  "frontier_input_new side positions frontier =
     (let f = \<lparr>fi_side = side, fi_positions = positions, fi_frontier = frontier\<rparr> in
      bind_res (frontier_input_validate f) (\<lambda>_. Inr f))"

text \<open>\<open>FrontierContinuation\<close> has the fields of \<open>FrontierInputFacts\<close> and is made from them.\<close>

record frontier_continuation =
  fc_positions :: input_positions
  fc_side :: input_side
  fc_frontier :: nat

definition frontier_from_facts :: "frontier_input \<Rightarrow> frontier_continuation" where
  "frontier_from_facts f =
     \<lparr>fc_positions = fi_positions f, fc_side = fi_side f, fc_frontier = fi_frontier f\<rparr>"

definition frontier_validate_resume ::
    "frontier_continuation \<Rightarrow> frontier_input \<Rightarrow> unit result" where
  "frontier_validate_resume c f =
     bind_res (frontier_input_validate f) (\<lambda>_.
     if fc_side c \<noteq> fi_side f then Inl ''Join frontier side changed while resuming''
     else if fc_positions c \<noteq> fi_positions f
     then Inl ''Join frontier input positions changed while resuming''
     else if fc_frontier c \<noteq> fi_frontier f then Inl ''Join frontier value changed while resuming''
     else Inr ())"

section \<open>Continuations\<close>

datatype join_continuation =
    JPreflight input_positions input_side
  | JProbe input_progress
  | JPending input_progress candidate_expectation
  | JFinalize input_progress
  | JFrontier frontier_continuation

definition start_preflight :: "input_positions \<Rightarrow> input_side \<Rightarrow> join_continuation result" where
  "start_preflight positions side =
     bind_res (positions_validate positions) (\<lambda>_. Inr (JPreflight positions side))"

definition start_input :: "input_event \<Rightarrow> own_expectation \<Rightarrow> join_continuation result" where
  "start_input e w =
     bind_res (event_validate e) (\<lambda>_.
     bind_res (own_validate_event w (ev_weight e)) (\<lambda>_.
     Inr (JProbe (progress_from_event e w))))"

definition start_frontier :: "frontier_input \<Rightarrow> join_continuation result" where
  "start_frontier f =
     bind_res (frontier_input_validate f) (\<lambda>_. Inr (JFrontier (frontier_from_facts f)))"

fun join_phase_of :: "join_continuation \<Rightarrow> join_phase" where
  "join_phase_of (JPreflight _ _) = JPhPreflight"
| "join_phase_of (JProbe _) = JPhProbe"
| "join_phase_of (JPending _ _) = JPhPending"
| "join_phase_of (JFinalize _) = JPhFinalize"
| "join_phase_of (JFrontier _) = JPhFrontier"

fun continuation_progress :: "join_continuation \<Rightarrow> input_progress option" where
  "continuation_progress (JProbe p) = Some p"
| "continuation_progress (JPending p _) = Some p"
| "continuation_progress (JFinalize p) = Some p"
| "continuation_progress (JPreflight _ _) = None"
| "continuation_progress (JFrontier _) = None"

definition validate_input_resume :: "join_continuation \<Rightarrow> input_event \<Rightarrow> unit result" where
  "validate_input_resume c e =
     bind_res (ok_or ''input event cannot resume a Preflight or Frontier continuation''
         (continuation_progress c)) (\<lambda>p. progress_validate_resume p e)"

definition validate_frontier_resume :: "join_continuation \<Rightarrow> frontier_input \<Rightarrow> unit result" where
  "validate_frontier_resume c f =
     (case c of
        JFrontier fc \<Rightarrow> frontier_validate_resume fc f
      | _ \<Rightarrow> Inl ''frontier cannot pass an active Join input continuation'')"

definition validate_pending_candidate ::
    "input_progress \<Rightarrow> candidate_expectation \<Rightarrow> unit result" where
  "validate_pending_candidate p c =
     bind_res (progress_validate p) (\<lambda>_.
     bind_res (candidate_validate c) (\<lambda>_.
     if ce_truth c \<noteq> MatchTrue
     then Inl ''pending Join transition is not the second action of a true pair''
     else
       bind_res (checked_signed_count (mc_matched (ce_old c)) (ipg_weight p)
           ''pending Join candidate matched count'') (\<lambda>expected.
       if mc_matched (ce_new c) \<noteq> expected \<or> mc_unknown (ce_new c) \<noteq> mc_unknown (ce_old c)
       then Inl ''pending Join candidate counts do not match the input event''
       else if (case ipg_after p of None \<Rightarrow> False | Some a \<Rightarrow> ce_row_id c \<le> a)
       then Inl ''pending Join candidate does not follow the durable cursor''
       else Inr ())))"

definition restore_input ::
    "int \<Rightarrow> input_progress \<Rightarrow> candidate_expectation option \<Rightarrow> join_continuation result" where
  "restore_input phase_code p pending =
     bind_res (progress_validate p) (\<lambda>_.
     bind_res (join_phase_from_code phase_code) (\<lambda>phase.
     case phase of
       JPhPreflight \<Rightarrow> Inl ''Preflight phase cannot decode an input-progress continuation''
     | JPhProbe \<Rightarrow>
         if pending \<noteq> None then Inl ''Probe continuation contains a pending candidate''
         else Inr (JProbe p)
     | JPhPending \<Rightarrow>
         bind_res (ok_or ''pending-transition continuation omitted its candidate'' pending) (\<lambda>c.
         bind_res (candidate_validate c) (\<lambda>_.
         bind_res (validate_pending_candidate p c) (\<lambda>_. Inr (JPending p c))))
     | JPhFinalize \<Rightarrow>
         if pending \<noteq> None then Inl ''Finalize continuation contains a pending candidate''
         else Inr (JFinalize p)
     | JPhFrontier \<Rightarrow> Inl ''Frontier phase cannot decode an input continuation''))"

section \<open>Candidates\<close>

record projection_bytes =
  pb_pair :: "nat option"
  pb_candidate_only :: "nat option"

definition projection_validate :: "projection_bytes \<Rightarrow> unit result" where
  "projection_validate p =
     (if pb_pair p = Some 0 \<or> pb_candidate_only p = Some 0
      then Inl ''measured Join projection has zero bytes'' else Inr ())"

record candidate_probe =
  cp_row_id :: int
  cp_multiplicity :: nat
  cp_truth :: match_truth
  cp_old :: match_counts
  cp_row_bytes :: nat
  cp_output :: projection_bytes

definition probe_validate :: "candidate_probe \<Rightarrow> unit result" where
  "probe_validate c =
     bind_res (validate_stable_id (cp_row_id c) ''Join candidate'') (\<lambda>_.
     bind_res (validate_positive_count (cp_multiplicity c) ''Join candidate multiplicity'') (\<lambda>_.
     bind_res (counts_validate (cp_old c)) (\<lambda>_.
     if cp_row_bytes c = 0 then Inl ''Join candidate has zero measured bytes''
     else projection_validate (cp_output c))))"

record probe_page =
  pp_candidates :: "candidate_probe list"
  pp_complete :: bool

definition probe_page_new :: "candidate_probe list \<Rightarrow> bool \<Rightarrow> probe_page result" where
  "probe_page_new cs complete =
     (if cs = [] \<and> \<not> complete then Inl ''partial Join probe page is empty''
      else
        bind_res (check_all probe_validate cs) (\<lambda>_.
        Inr \<lparr>pp_candidates = cs, pp_complete = complete\<rparr>))"

datatype output_action_kind = ActPair | ActCandidate | ActCurrent

record output_action =
  oa_kind :: output_action_kind
  oa_side :: input_side
  oa_candidate :: "int option"
  oa_weight :: int
  oa_bytes :: nat

definition action_validate :: "output_action \<Rightarrow> unit result" where
  "action_validate a =
     (if oa_weight a = 0 then Inl ''Join output action has zero weight''
      else if oa_bytes a = 0 then Inl ''Join output action has zero measured bytes''
      else
        case (oa_kind a, oa_candidate a) of
          (ActPair, Some row_id) \<Rightarrow> validate_stable_id row_id ''Join action candidate''
        | (ActCandidate, Some row_id) \<Rightarrow> validate_stable_id row_id ''Join action candidate''
        | (ActCurrent, None) \<Rightarrow> Inr ()
        | _ \<Rightarrow> Inl ''Join output action has an invalid candidate identity'')"

text \<open>\<open>CandidateStateChange\<close> wraps the expectation of its compare-and-set.\<close>

type_synonym candidate_change = candidate_expectation

definition change_validate :: "candidate_change \<Rightarrow> unit result" where
  "change_validate c =
     bind_res (candidate_validate c) (\<lambda>_.
     if ce_old c = ce_new c then Inl ''Join candidate mutation does not change state'' else Inr ())"

definition apply_match_delta ::
    "match_counts \<Rightarrow> match_truth \<Rightarrow> int \<Rightarrow> match_counts result" where
  "apply_match_delta old truth weight =
     bind_res (counts_validate old) (\<lambda>_.
     case truth of
       MatchTrue \<Rightarrow>
         bind_res (checked_signed_count (mc_matched old) weight ''Join candidate matched count'')
           (\<lambda>n. Inr (old\<lparr>mc_matched := n\<rparr>))
     | MatchUnknown \<Rightarrow>
         bind_res (checked_signed_count (mc_unknown old) weight ''Join candidate unknown count'')
           (\<lambda>n. Inr (old\<lparr>mc_unknown := n\<rparr>))
     | MatchFalse \<Rightarrow> Inr old)"

fun candidate_side_is_output :: "join_mode \<Rightarrow> input_side \<Rightarrow> bool" where
  "candidate_side_is_output JoinInner side = False"
| "candidate_side_is_output JoinLeft side = (side = SideLeft)"
| "candidate_side_is_output JoinRight side = (side = SideRight)"
| "candidate_side_is_output JoinFull side = True"
| "candidate_side_is_output JoinSemi side = (side = SideLeft)"
| "candidate_side_is_output JoinAnti side = (side = SideLeft)"
| "candidate_side_is_output JoinNullAwareAnti side = (side = SideLeft)"

fun candidate_eligible :: "join_mode \<Rightarrow> match_counts \<Rightarrow> bool" where
  "candidate_eligible JoinInner c = False"
| "candidate_eligible JoinLeft c = (mc_matched c = 0)"
| "candidate_eligible JoinRight c = (mc_matched c = 0)"
| "candidate_eligible JoinFull c = (mc_matched c = 0)"
| "candidate_eligible JoinAnti c = (mc_matched c = 0)"
| "candidate_eligible JoinSemi c = (0 < mc_matched c)"
| "candidate_eligible JoinNullAwareAnti c = (mc_matched c = 0 \<and> mc_unknown c = 0)"

definition pair_mode :: "join_mode \<Rightarrow> bool" where
  "pair_mode mode \<longleftrightarrow> mode \<in> {JoinInner, JoinLeft, JoinRight, JoinFull}"

record classified =
  cl_expected :: candidate_expectation
  cl_actions :: "output_action list"

definition pair_actions ::
    "join_mode \<Rightarrow> input_side \<Rightarrow> int \<Rightarrow> candidate_probe \<Rightarrow> output_action list result" where
  "pair_actions mode side weight c =
     (if cp_truth c = MatchTrue \<and> pair_mode mode then
        bind_res (checked_weight_product weight (cp_multiplicity c)) (\<lambda>w.
        bind_res (ok_or ''Join pair probe omitted projected bytes'' (pb_pair (cp_output c))) (\<lambda>bytes.
        Inr [\<lparr>oa_kind = ActPair, oa_side = side, oa_candidate = Some (cp_row_id c),
              oa_weight = w, oa_bytes = bytes\<rparr>]))
      else Inr [])"

definition transition_actions ::
    "join_mode \<Rightarrow> input_side \<Rightarrow> match_counts \<Rightarrow> candidate_probe \<Rightarrow> output_action list result" where
  "transition_actions mode side new_counts c =
     (if candidate_side_is_output mode (opposite side) then
        let old_eligible = candidate_eligible mode (cp_old c);
            new_eligible = candidate_eligible mode new_counts in
        if old_eligible \<noteq> new_eligible then
          bind_res (count_to_i64 (cp_multiplicity c) ''Join transition weight'') (\<lambda>magnitude.
          bind_res (ok_or ''Join candidate transition probe omitted projected bytes''
              (pb_candidate_only (cp_output c))) (\<lambda>bytes.
          Inr [\<lparr>oa_kind = ActCandidate, oa_side = side, oa_candidate = Some (cp_row_id c),
                oa_weight = (if new_eligible then magnitude else - magnitude), oa_bytes = bytes\<rparr>]))
        else Inr []
      else Inr [])"

definition classify_candidate ::
    "join_mode \<Rightarrow> input_side \<Rightarrow> int \<Rightarrow> candidate_probe \<Rightarrow> classified result" where
  "classify_candidate mode side weight c =
     bind_res (probe_validate c) (\<lambda>_.
     bind_res (apply_match_delta (cp_old c) (cp_truth c) weight) (\<lambda>new_counts.
     let expected = \<lparr>ce_row_id = cp_row_id c, ce_multiplicity = cp_multiplicity c,
           ce_truth = cp_truth c, ce_old = cp_old c, ce_new = new_counts\<rparr> in
     bind_res (candidate_validate expected) (\<lambda>_.
     bind_res (pair_actions mode side weight c) (\<lambda>pairs.
     bind_res (transition_actions mode side new_counts c) (\<lambda>transitions.
     Inr \<lparr>cl_expected = expected, cl_actions = pairs @ transitions\<rparr>)))))"

section \<open>A page of candidates\<close>

definition after_cursor :: "int option \<Rightarrow> int \<Rightarrow> bool" where
  "after_cursor previous row_id \<longleftrightarrow> (case previous of None \<Rightarrow> True | Some a \<Rightarrow> a < row_id)"

text \<open>The loop of \<open>validate_probe_page_order\<close>; only its first row can be the pending one.\<close>

fun page_order :: "int option \<Rightarrow> candidate_expectation option \<Rightarrow> candidate_probe list \<Rightarrow> unit result"
  where
  "page_order previous pending [] = Inr ()"
| "page_order previous pending (c # cs) =
     bind_res (probe_validate c) (\<lambda>_.
     case pending of
       Some expected \<Rightarrow>
         if cp_row_id c \<noteq> ce_row_id expected
         then Inl ''pending Join candidate was not the first probe row''
         else if \<not> after_cursor previous (cp_row_id c)
         then Inl ''pending Join candidate does not follow the durable cursor''
         else page_order (Some (cp_row_id c)) None cs
     | None \<Rightarrow>
         if \<not> after_cursor previous (cp_row_id c)
         then Inl ''Join probe candidates are not in strict keyset order''
         else page_order (Some (cp_row_id c)) None cs)"

definition validate_probe_page_order ::
    "input_progress \<Rightarrow> candidate_expectation option \<Rightarrow> probe_page \<Rightarrow> unit result" where
  "validate_probe_page_order p pending page =
     (if pp_candidates page = [] then
        if pending \<noteq> None then Inl ''pending Join transition probe returned no candidate''
        else if pp_complete page then Inr () else Inl ''partial Join probe page is empty''
      else page_order (ipg_after p) pending (pp_candidates page))"

definition action_fits :: "nat \<Rightarrow> nat \<Rightarrow> output_action \<Rightarrow> work_budget \<Rightarrow> bool result" where
  "action_fits rows bytes a b =
     bind_res (action_validate a) (\<lambda>_.
     bind_res (ok_or ''Join output row count overflow'' (checked_add_u64 rows 1)) (\<lambda>next_rows.
     if max_output_rows b < next_rows then Inr False
     else
       bind_res (ok_or ''Join output byte count overflow'' (checked_add_u64 bytes (oa_bytes a)))
         (\<lambda>next_bytes. Inr (rows = 0 \<or> next_bytes \<le> max_output_bytes b))))"

text \<open>The actions of one candidate that still fit, with the rows and bytes of the page so far.\<close>

fun take_actions ::
    "work_budget \<Rightarrow> nat \<Rightarrow> nat \<Rightarrow> output_action list \<Rightarrow> (output_action list \<times> nat \<times> nat) result" where
  "take_actions b rows bytes [] = Inr ([], rows, bytes)"
| "take_actions b rows bytes (a # as) =
     bind_res (action_fits rows bytes a b) (\<lambda>fits.
     if \<not> fits then Inr ([], rows, bytes)
     else
       bind_res (ok_or ''Join output row count overflow'' (checked_add_u64 rows 1)) (\<lambda>rows'.
       bind_res (ok_or ''Join output byte count overflow'' (checked_add_u64 bytes (oa_bytes a)))
         (\<lambda>bytes'.
       bind_res (take_actions b rows' bytes' as) (\<lambda>(taken, r, n). Inr (a # taken, r, n)))))"

definition pair_then_transition :: "output_action list \<Rightarrow> bool" where
  "pair_then_transition as \<longleftrightarrow>
     length as = 2 \<and> oa_kind (as ! 0) = ActPair \<and> oa_kind (as ! 1) = ActCandidate"

text \<open>The index of the first action to take: a pending candidate has its pair already emitted.\<close>

definition first_action :: "candidate_expectation option \<Rightarrow> classified \<Rightarrow> nat result" where
  "first_action pending cl =
     (case pending of
        None \<Rightarrow> Inr 0
      | Some expected \<Rightarrow>
          if cl_expected cl \<noteq> expected
          then Inl ''pending Join candidate state changed while resuming''
          else if \<not> pair_then_transition (cl_actions cl)
          then Inl ''pending Join transition no longer follows its pair action''
          else Inr 1)"

record page_plan =
  pgp_progress :: input_progress
  pgp_actions :: "output_action list"
  pgp_changes :: "candidate_change list"
  pgp_rows :: nat
  pgp_bytes :: nat

text \<open>
  The loop over the candidates of a page.  Its result says whether every candidate was completed
  and which candidate is left between its two actions.
\<close>

fun plan_page ::
    "join_mode \<Rightarrow> work_budget \<Rightarrow> candidate_expectation option \<Rightarrow> candidate_probe list \<Rightarrow> page_plan
     \<Rightarrow> (page_plan \<times> candidate_expectation option \<times> bool) result" where
  "plan_page mode b pending [] st = Inr (st, None, True)"
| "plan_page mode b pending (c # cs) st =
     (let p = pgp_progress st in
      bind_res (classify_candidate mode (ipg_side p) (ipg_weight p) c) (\<lambda>cl.
      bind_res (first_action pending cl) (\<lambda>first.
      bind_res (take_actions b (pgp_rows st) (pgp_bytes st) (drop first (cl_actions cl)))
        (\<lambda>(taken, rows, bytes).
      let st' = st\<lparr>pgp_actions := pgp_actions st @ taken, pgp_rows := rows, pgp_bytes := bytes\<rparr> in
      if length taken \<noteq> length (cl_actions cl) - first then
        if 0 < first + length taken then
          if first + length taken \<noteq> 1 \<or> \<not> pair_then_transition (cl_actions cl)
          then Inl ''Join action prefix stopped at a non-resumable boundary''
          else Inr (st', Some (cl_expected cl), False)
        else Inr (st', None, False)
      else
        let changes = pgp_changes st
              @ (if ce_old (cl_expected cl) \<noteq> ce_new (cl_expected cl) then [cl_expected cl] else []) in
        bind_res (complete_candidate p (cl_expected cl)) (\<lambda>p'.
        plan_page mode b None cs (st'\<lparr>pgp_progress := p', pgp_changes := changes\<rparr>))))))"

record action_plan =
  apl_budget :: work_budget
  apl_usage :: work_usage
  apl_actions :: "output_action list"
  apl_changes :: "candidate_change list"
  apl_next :: join_continuation

fun sum_bytes :: "nat \<Rightarrow> candidate_probe list \<Rightarrow> nat result" where
  "sum_bytes acc [] = Inr acc"
| "sum_bytes acc (c # cs) =
     bind_res (ok_or ''Join probe input byte count overflow'' (checked_add_u64 acc (cp_row_bytes c)))
       (\<lambda>t. sum_bytes t cs)"

definition probe_state ::
    "join_continuation \<Rightarrow> (input_progress \<times> candidate_expectation option) result" where
  "probe_state c =
     (case c of
        JPreflight _ _ \<Rightarrow> Inl ''Preflight continuation has not validated its input event''
      | JProbe p \<Rightarrow> Inr (p, None)
      | JPending p cand \<Rightarrow> Inr (p, Some cand)
      | JFinalize _ \<Rightarrow> Inl ''Finalize continuation cannot probe more Join candidates''
      | JFrontier _ \<Rightarrow> Inl ''Frontier continuation cannot probe Join candidates'')"

definition plan_actions ::
    "join_mode \<Rightarrow> join_continuation \<Rightarrow> input_event \<Rightarrow> probe_page \<Rightarrow> work_budget \<Rightarrow> action_plan result"
  where
  "plan_actions mode c e page b =
     bind_res (validate_input_resume c e) (\<lambda>_.
     bind_res (probe_state c) (\<lambda>(p, pending).
     bind_res (progress_validate p) (\<lambda>_.
     bind_res (validate_probe_page_order p pending page) (\<lambda>_.
     let rows = length (pp_candidates page) in
     bind_res (sum_bytes 0 (pp_candidates page)) (\<lambda>bytes.
     bind_res (usage_validate (usage_default\<lparr>input_rows := rows, input_bytes := bytes\<rparr>) b) (\<lambda>_.
     bind_res (plan_page mode b pending (pp_candidates page)
         \<lparr>pgp_progress = p, pgp_actions = [], pgp_changes = [], pgp_rows = 0, pgp_bytes = 0\<rparr>)
       (\<lambda>(st, next_pending, completed).
     bind_res (check_all action_validate (pgp_actions st)) (\<lambda>_.
     bind_res (check_all change_validate (pgp_changes st)) (\<lambda>_.
     bind_res
       (case next_pending of
          Some cand \<Rightarrow>
            bind_res (validate_pending_candidate (pgp_progress st) cand) (\<lambda>_.
            Inr (JPending (pgp_progress st) cand))
        | None \<Rightarrow>
            Inr (if completed \<and> pp_complete page then JFinalize (pgp_progress st)
                 else JProbe (pgp_progress st))) (\<lambda>next.
     let usage = \<lparr>input_rows = rows, input_bytes = bytes, output_rows = pgp_rows st,
                  output_bytes = pgp_bytes st\<rparr> in
     bind_res (usage_validate usage b) (\<lambda>_.
     Inr \<lparr>apl_budget = b, apl_usage = usage, apl_actions = pgp_actions st,
          apl_changes = pgp_changes st, apl_next = next\<rparr>)))))))))))"

definition action_validate_commit :: "action_plan \<Rightarrow> primitive_facts \<Rightarrow> unit result" where
  "action_validate_commit plan f =
     bind_res (validate_protocol f (apl_budget plan) PhProcess Continue) (\<lambda>_.
     if pr_usage f \<noteq> apl_usage plan then Inl ''Join action commit usage differs from its plan''
     else if pr_state_rows f \<noteq> length (apl_changes plan)
     then Inl ''Join action commit changed an unexpected number of candidate rows''
     else if apl_actions plan = [] \<and> pr_output f \<noteq> NoOutput
     then Inl ''Join action commit created output for an empty action prefix''
     else Inr ())"

section \<open>The end of an event\<close>

datatype own_state_probe =
    OwnAbsent nat
  | OwnPresent int nat match_counts nat

fun own_output_bytes :: "own_state_probe \<Rightarrow> nat" where
  "own_output_bytes (OwnAbsent bytes) = bytes"
| "own_output_bytes (OwnPresent _ _ _ bytes) = bytes"

fun own_expectation_of :: "own_state_probe \<Rightarrow> own_expectation" where
  "own_expectation_of (OwnAbsent _) = own_absent"
| "own_expectation_of (OwnPresent row_id m counts _) =
     \<lparr>oe_row_id = Some row_id, oe_multiplicity = m, oe_counts = counts\<rparr>"

fun own_probe_validate :: "own_state_probe \<Rightarrow> unit result" where
  "own_probe_validate (OwnAbsent bytes) =
     (if bytes = 0 then Inl ''Join current-row projection has zero measured bytes'' else Inr ())"
| "own_probe_validate (OwnPresent row_id m counts bytes) =
     bind_res (validate_stable_id row_id ''Join own arrangement row'') (\<lambda>_.
     bind_res (validate_positive_count m ''Join own multiplicity'') (\<lambda>_.
     bind_res (counts_validate counts) (\<lambda>_.
     if bytes = 0 then Inl ''Join current-row projection has zero measured bytes'' else Inr ())))"

datatype own_change_kind = OwnInsert | OwnUpdate | OwnDelete

record own_change =
  oc_kind :: own_change_kind
  oc_row_id :: "int option"
  oc_old :: nat
  oc_new :: nat
  oc_counts :: match_counts

record finalize_plan =
  fpl_budget :: work_budget
  fpl_usage :: work_usage
  fpl_output :: "output_action option"
  fpl_change :: own_change

fun current_side_is_eligible :: "join_mode \<Rightarrow> input_side \<Rightarrow> match_counts \<Rightarrow> bool" where
  "current_side_is_eligible JoinInner side c = False"
| "current_side_is_eligible JoinLeft side c = (side = SideLeft \<and> mc_matched c = 0)"
| "current_side_is_eligible JoinRight side c = (side = SideRight \<and> mc_matched c = 0)"
| "current_side_is_eligible JoinFull side c = (mc_matched c = 0)"
| "current_side_is_eligible JoinSemi side c = (side = SideLeft \<and> 0 < mc_matched c)"
| "current_side_is_eligible JoinAnti side c = (side = SideLeft \<and> mc_matched c = 0)"
| "current_side_is_eligible JoinNullAwareAnti side c =
     (side = SideLeft \<and> mc_matched c = 0 \<and> mc_unknown c = 0)"

definition own_change_kind_of :: "int option \<Rightarrow> nat \<Rightarrow> own_change_kind result" where
  "own_change_kind_of row_id new =
     (case row_id of
        None \<Rightarrow>
          if new = 0 then Inl ''Join absent own row cannot remain absent after a nonzero event''
          else Inr OwnInsert
      | Some _ \<Rightarrow> Inr (if new = 0 then OwnDelete else OwnUpdate))"

definition plan_finalize ::
    "join_mode \<Rightarrow> join_continuation \<Rightarrow> input_event \<Rightarrow> own_state_probe \<Rightarrow> work_budget
     \<Rightarrow> finalize_plan result" where
  "plan_finalize mode c e own b =
     bind_res (validate_input_resume c e) (\<lambda>_.
     bind_res (own_probe_validate own) (\<lambda>_.
     bind_res
       (case c of
          JFinalize p \<Rightarrow> Inr p
        | JFrontier _ \<Rightarrow> Inl ''Join frontier cannot use input finalization''
        | _ \<Rightarrow> Inl ''Join input cannot finalize before its candidate scan completes'') (\<lambda>p.
     bind_res (progress_validate p) (\<lambda>_.
     if own_expectation_of own \<noteq> ipg_own p
     then Inl ''Join own arrangement changed while processing its fanout''
     else
       bind_res
         (case own of
            OwnAbsent _ \<Rightarrow> Inr (None, 0)
          | OwnPresent row_id m counts _ \<Rightarrow>
              if counts \<noteq> ipg_counts p
              then Inl ''Join own arrangement counts differ from the completed scan''
              else Inr (Some row_id, m)) (\<lambda>(row_id, old).
       bind_res (checked_signed_count old (ipg_weight p) ''Join own multiplicity'') (\<lambda>new.
       bind_res (own_change_kind_of row_id new) (\<lambda>kind.
       let output = (if current_side_is_eligible mode (ipg_side p) (ipg_counts p)
             then Some \<lparr>oa_kind = ActCurrent, oa_side = ipg_side p, oa_candidate = None,
                        oa_weight = ipg_weight p, oa_bytes = own_output_bytes own\<rparr>
             else None) in
       bind_res (case output of None \<Rightarrow> Inr () | Some a \<Rightarrow> action_validate a) (\<lambda>_.
       let usage = \<lparr>input_rows = 1, input_bytes = ipg_bytes p,
             output_rows = (if output = None then 0 else 1),
             output_bytes = (case output of None \<Rightarrow> 0 | Some a \<Rightarrow> oa_bytes a)\<rparr> in
       bind_res (usage_validate usage b) (\<lambda>_.
       Inr \<lparr>fpl_budget = b, fpl_usage = usage, fpl_output = output,
            fpl_change = \<lparr>oc_kind = kind, oc_row_id = row_id, oc_old = old, oc_new = new,
                          oc_counts = ipg_counts p\<rparr>\<rparr>))))))))) "

definition finalize_validate_commit ::
    "finalize_plan \<Rightarrow> primitive_facts \<Rightarrow> bool \<Rightarrow> unit result" where
  "finalize_validate_commit plan f expected_continuation =
     bind_res (validate_protocol f (fpl_budget plan) PhProcess
         (if expected_continuation then Continue else Finished)) (\<lambda>_.
     if pr_usage f \<noteq> fpl_usage plan then Inl ''Join finalize commit usage differs from its plan''
     else if pr_state_rows f \<noteq> 1
     then Inl ''Join finalize commit did not change exactly one own row''
     else if fpl_output plan = None \<and> pr_output f \<noteq> NoOutput
     then Inl ''Join finalize commit created an unexpected output chunk''
     else Inr ())"

section \<open>Frontiers\<close>

record input_frontiers =
  fr_left :: nat
  fr_right :: nat

fun frontier_get :: "input_frontiers \<Rightarrow> input_side \<Rightarrow> nat" where
  "frontier_get f SideLeft = fr_left f"
| "frontier_get f SideRight = fr_right f"

fun frontier_with :: "input_frontiers \<Rightarrow> input_side \<Rightarrow> nat \<Rightarrow> input_frontiers" where
  "frontier_with f SideLeft v = \<lparr>fr_left = v, fr_right = fr_right f\<rparr>"
| "frontier_with f SideRight v = \<lparr>fr_left = fr_left f, fr_right = v\<rparr>"

definition frontier_minimum :: "input_frontiers \<Rightarrow> nat" where
  "frontier_minimum f = (if fr_left f < fr_right f then fr_left f else fr_right f)"

record frontier_state =
  fs_consumed :: input_frontiers
  fs_published :: nat
  fs_latest_data :: "nat option"

definition frontier_state_validate :: "frontier_state \<Rightarrow> unit result" where
  "frontier_state_validate s =
     (if frontier_minimum (fs_consumed s) < fs_published s
      then Inl ''Join output frontier exceeds a consumed input frontier'' else Inr ())"

record frontier_plan =
  frp_budget :: work_budget
  frp_expected_input :: frontier_input
  frp_side :: input_side
  frp_old :: input_frontiers
  frp_new :: input_frontiers
  frp_expected_published :: nat
  frp_publish :: "nat option"

definition plan_frontier ::
    "join_continuation \<Rightarrow> frontier_input \<Rightarrow> frontier_state \<Rightarrow> work_budget \<Rightarrow> frontier_plan result"
  where
  "plan_frontier c f s b =
     bind_res (validate_frontier_resume c f) (\<lambda>_.
     bind_res (frontier_state_validate s) (\<lambda>_.
     if fi_frontier f \<le> frontier_get (fs_consumed s) (fi_side f)
     then Inl ''Join input frontier did not advance''
     else
       let new = frontier_with (fs_consumed s) (fi_side f) (fi_frontier f);
           complete_through = frontier_minimum new;
           publish = (if fs_published s < complete_through
               \<and> (case fs_latest_data s of None \<Rightarrow> True | Some d \<Rightarrow> d \<le> complete_through)
             then Some complete_through else None) in
       Inr \<lparr>frp_budget = b, frp_expected_input = f, frp_side = fi_side f,
            frp_old = fs_consumed s, frp_new = new, frp_expected_published = fs_published s,
            frp_publish = publish\<rparr>))"

definition frontier_validate_commit :: "frontier_plan \<Rightarrow> primitive_facts \<Rightarrow> unit result" where
  "frontier_validate_commit plan f =
     bind_res (validate_protocol f (frp_budget plan) PhFrontier Finished) (\<lambda>_.
     if pr_usage f \<noteq> usage_default then Inl ''Join frontier commit reported data-row work''
     else if pr_state_rows f \<noteq> 0 then Inl ''Join frontier commit changed arrangement state''
     else
       case (frp_publish plan, pr_output f) of
         (Some _, FrontierOutput _) \<Rightarrow> Inr ()
       | (None, NoOutput) \<Rightarrow> Inr ()
       | _ \<Rightarrow> Inl ''Join frontier commit output differs from its plan'')"

end
