(* ===== verification/Join_Step.thy ===== *)
theory Join_Step
  imports Join_Planner
begin

text \<open>
  One transition of the join kernel (\<open>src/execution/join/runtime.rs\<close>): the selection of the next
  input, the preflight of a row, a page of candidates, the end of a row and the forwarding of a
  frontier, with the statements that read and change the two arrangements as functions.  The rows
  of an arrangement are listed in the order of their identity column; a row value stands for its
  canonical key, on which the unique index of an arrangement is built, and an output row for the
  rows, or NULL, that its projection reads on the left and on the right.  The join condition, the
  predicate of the equality keys and the measured sizes are parameters, and so are the immutable
  input chunks.
\<close>

section \<open>State\<close>

record 'a join_row =
  jr_id :: int
  jr_value :: 'a
  jr_multiplicity :: nat
  jr_counts :: match_counts

record 'a arrangement =
  ar_rows :: "'a join_row list"
  ar_next_id :: int

record 'a join_effect =
  je_value :: 'a
  je_weight :: int
  je_bytes :: nat

datatype chunk_content = JoinData | JoinFrontierChunk

record 'a join_chunk =
  jc_kind :: chunk_content
  jc_lsn :: nat
  jc_effects :: "'a join_effect list"

text \<open>
  The parameters: the mode, the truth of the condition for a left and a right row, the key
  predicate for the side of the event, its row and a candidate, the sizes of a stored row and of
  an output row, the sequence number of the output chunk that the transaction appends to, and the
  input chunks.
\<close>

record 'a join_env =
  jv_mode :: join_mode
  jv_truth :: "'a \<Rightarrow> 'a \<Rightarrow> match_truth"
  jv_keyed :: "input_side \<Rightarrow> 'a \<Rightarrow> 'a \<Rightarrow> bool"
  jv_row_bytes :: "'a \<Rightarrow> nat"
  jv_output_bytes :: "'a option \<times> 'a option \<Rightarrow> nat"
  jv_output_chunk :: int
  jv_chunks :: "input_side \<Rightarrow> int \<Rightarrow> 'a join_chunk option"

type_synonym 'a join_output = "'a option \<times> 'a option"

record 'a join_db =
  jd_arrangement :: "input_side \<Rightarrow> 'a arrangement"
  jd_stream :: "input_side \<Rightarrow> int"
  jd_next_chunk :: "input_side \<Rightarrow> int"
  jd_consumed :: "input_side \<Rightarrow> nat"
  jd_published :: nat
  jd_latest_data :: "nat option"
  jd_continuation :: "join_continuation option"
  jd_output :: "('a join_output \<times> int) list"

section \<open>Statements\<close>

definition truth_from :: "'a join_env \<Rightarrow> input_side \<Rightarrow> 'a \<Rightarrow> 'a \<Rightarrow> match_truth" where
  "truth_from env side own other =
     (if side = SideLeft then jv_truth env own other else jv_truth env other own)"

text \<open>An output row of the row of one side and the row of the other.\<close>

definition oriented :: "input_side \<Rightarrow> 'a option \<Rightarrow> 'a option \<Rightarrow> 'a join_output" where
  "oriented side own other = (if side = SideLeft then (own, other) else (other, own))"

definition int64 :: "int \<Rightarrow> int result" where
  "int64 v = (if in_i64 v then Inr v else Inl ''bigint out of range'')"

text \<open>\<open>eligibility_sql\<close>, on the counts a statement computes.\<close>

fun eligibility_sql :: "join_mode \<Rightarrow> int \<Rightarrow> int \<Rightarrow> bool" where
  "eligibility_sql JoinInner m u = False"
| "eligibility_sql JoinLeft m u = (m = 0)"
| "eligibility_sql JoinRight m u = (m = 0)"
| "eligibility_sql JoinFull m u = (m = 0)"
| "eligibility_sql JoinAnti m u = (m = 0)"
| "eligibility_sql JoinSemi m u = (0 < m)"
| "eligibility_sql JoinNullAwareAnti m u = (m = 0 \<and> u = 0)"

text \<open>The rows of a page that fit its byte budget; the first always does.\<close>

fun bounded_rows ::
    "('a \<Rightarrow> nat) \<Rightarrow> nat \<Rightarrow> bool \<Rightarrow> nat \<Rightarrow> 'a join_row list \<Rightarrow> 'a join_row list" where
  "bounded_rows bytes limit first before [] = []"
| "bounded_rows bytes limit first before (r # rs) =
     (let running = before + bytes (jr_value r) in
      if first \<or> running \<le> limit then r # bounded_rows bytes limit False running rs else [])"

text \<open>The row of the probe for one candidate.\<close>

definition probe_row ::
    "'a join_env \<Rightarrow> input_side \<Rightarrow> 'a \<Rightarrow> int \<Rightarrow> 'a join_row \<Rightarrow> candidate_probe result" where
  "probe_row env side value weight r =
     (let mode = jv_mode env;
          truth = truth_from env side value (jr_value r);
          counts = jr_counts r in
      bind_res (int64 (int (mc_matched counts) + (if truth = MatchTrue then weight else 0))) (\<lambda>m.
      bind_res (int64 (int (mc_unknown counts) + (if truth = MatchUnknown then weight else 0))) (\<lambda>u.
      let c = \<lparr>cp_row_id = jr_id r, cp_multiplicity = jr_multiplicity r, cp_truth = truth,
            cp_old = counts, cp_row_bytes = jv_row_bytes env (jr_value r),
            cp_output = \<lparr>
              pb_pair = (if pair_mode mode \<and> truth = MatchTrue
                then Some (jv_output_bytes env (oriented side (Some value) (Some (jr_value r))))
                else None),
              pb_candidate_only = (if candidate_side_is_output mode (opposite side)
                  \<and> eligibility_sql mode (int (mc_matched counts)) (int (mc_unknown counts))
                    \<noteq> eligibility_sql mode m u
                then Some (jv_output_bytes env (oriented side None (Some (jr_value r))))
                else None)\<rparr>\<rparr> in
      bind_res (probe_validate c) (\<lambda>_. Inr c))))"

definition keyed_rows :: "'a join_env \<Rightarrow> input_side \<Rightarrow> 'a \<Rightarrow> int \<Rightarrow> 'a arrangement \<Rightarrow> 'a join_row list"
  where
  "keyed_rows env side value after ar =
     filter (\<lambda>r. after < jr_id r \<and> jv_keyed env side value (jr_value r)) (ar_rows ar)"

definition probe_candidates ::
    "'a join_env \<Rightarrow> 'a join_db \<Rightarrow> input_progress \<Rightarrow> 'a \<Rightarrow> work_budget \<Rightarrow> probe_page result" where
  "probe_candidates env db p value b =
     (let side = ipg_side p;
          ar = jd_arrangement db (opposite side);
          after = (case ipg_after p of None \<Rightarrow> 0 | Some a \<Rightarrow> a);
          rows = bounded_rows (jv_row_bytes env) (max_input_bytes b) True 0
                   (take (max_input_rows b) (keyed_rows env side value after ar)) in
      bind_res (traverse (probe_row env side value (ipg_weight p)) rows) (\<lambda>cs.
      let last_id = (if rows = [] then after else jr_id (last rows)) in
      probe_page_new cs (keyed_rows env side value last_id ar = [])))"

text \<open>The output row of an action; \<open>None\<close> when its candidate is not in the arrangement.\<close>

definition action_row ::
    "'a join_db \<Rightarrow> input_side \<Rightarrow> 'a \<Rightarrow> output_action \<Rightarrow> 'a join_output option" where
  "action_row db side value a =
     (let candidate = (\<lambda>row_id. map_option jr_value
            (find (\<lambda>r. jr_id r = row_id) (ar_rows (jd_arrangement db (opposite side))))) in
      case (oa_kind a, oa_candidate a) of
        (ActPair, Some row_id) \<Rightarrow>
          map_option (\<lambda>v. oriented side (Some value) (Some v)) (candidate row_id)
      | (ActCandidate, Some row_id) \<Rightarrow>
          map_option (\<lambda>v. oriented side None (Some v)) (candidate row_id)
      | (ActCurrent, _) \<Rightarrow> Some (oriented side (Some value) None)
      | _ \<Rightarrow> None)"

definition action_output ::
    "'a join_env \<Rightarrow> 'a join_db \<Rightarrow> input_side \<Rightarrow> 'a \<Rightarrow> output_action \<Rightarrow> ('a join_output \<times> int) result" where
  "action_output env db side value a =
     bind_res (action_validate a) (\<lambda>_.
     if oa_side a \<noteq> side then Inl ''Join output action changed its current input side''
     else
       bind_res (ok_or ''Join output projection changed after its bounded probe''
           (action_row db side value a)) (\<lambda>row. Inr (row, oa_weight a)))"

definition append_actions ::
    "'a join_env \<Rightarrow> 'a join_db \<Rightarrow> input_side \<Rightarrow> 'a \<Rightarrow> nat \<Rightarrow> output_action list \<Rightarrow> 'a join_db result"
  where
  "append_actions env db side value lsn actions =
     (if actions = [] then Inr db
      else
        bind_res (traverse (action_output env db side value) actions) (\<lambda>rows.
        if sum_list (map (jv_output_bytes env \<circ> fst) rows) \<noteq> sum_list (map oa_bytes actions)
        then Inl ''Join output projection changed after its bounded probe''
        else Inr (db\<lparr>jd_output := jd_output db @ rows, jd_latest_data := Some lsn\<rparr>)))"

definition data_output :: "'a join_env \<Rightarrow> output_action list \<Rightarrow> output_facts" where
  "data_output env actions =
     (if actions = [] then NoOutput else DataOutput (jv_output_chunk env))"

definition change_applies :: "'a join_row \<Rightarrow> candidate_change \<Rightarrow> bool" where
  "change_applies r c \<longleftrightarrow>
     jr_id r = ce_row_id c \<and> jr_multiplicity r = ce_multiplicity c \<and> jr_counts r = ce_old c"

definition change_row :: "candidate_change list \<Rightarrow> 'a join_row \<Rightarrow> 'a join_row" where
  "change_row changes r =
     (case find (change_applies r) changes of
        None \<Rightarrow> r
      | Some c \<Rightarrow> r\<lparr>jr_counts := ce_new c\<rparr>)"

definition apply_candidate_changes ::
    "'a arrangement \<Rightarrow> candidate_change list \<Rightarrow> ('a arrangement \<times> nat) result" where
  "apply_candidate_changes ar changes =
     (let updated = length (filter (\<lambda>r. list_ex (change_applies r) changes) (ar_rows ar)) in
      if updated \<noteq> length changes
      then Inl ''Join candidate compare-and-set changed an unexpected row count''
      else Inr (ar\<lparr>ar_rows := map (change_row changes) (ar_rows ar)\<rparr>, updated))"

definition own_matches :: "own_change \<Rightarrow> 'a join_row \<Rightarrow> bool" where
  "own_matches c r \<longleftrightarrow>
     oc_row_id c = Some (jr_id r) \<and> jr_multiplicity r = oc_old c \<and> jr_counts r = oc_counts c"

definition apply_own_change :: "'a arrangement \<Rightarrow> 'a \<Rightarrow> own_change \<Rightarrow> 'a arrangement result" where
  "apply_own_change ar value c =
     (case oc_kind c of
        OwnInsert \<Rightarrow>
          if list_ex (\<lambda>r. jr_value r = value) (ar_rows ar)
          then Inl ''Join own arrangement compare-and-set did not affect one row''
          else Inr \<lparr>ar_rows = ar_rows ar @ [\<lparr>jr_id = ar_next_id ar, jr_value = value,
                      jr_multiplicity = oc_new c, jr_counts = oc_counts c\<rparr>],
                    ar_next_id = ar_next_id ar + 1\<rparr>
      | OwnUpdate \<Rightarrow>
          if length (filter (own_matches c) (ar_rows ar)) \<noteq> 1
          then Inl ''Join own arrangement compare-and-set did not affect one row''
          else Inr (ar\<lparr>ar_rows := map (\<lambda>r. if own_matches c r
                      then r\<lparr>jr_multiplicity := oc_new c\<rparr> else r) (ar_rows ar)\<rparr>)
      | OwnDelete \<Rightarrow>
          if length (filter (own_matches c) (ar_rows ar)) \<noteq> 1
          then Inl ''Join own arrangement compare-and-set did not affect one row''
          else Inr (ar\<lparr>ar_rows := filter (\<lambda>r. \<not> own_matches c r) (ar_rows ar)\<rparr>))"

section \<open>Transitions\<close>

definition consumer_positions :: "'a join_db \<Rightarrow> input_positions result" where
  "consumer_positions db =
     bind_res (input_position_new (jd_stream db SideLeft) (jd_next_chunk db SideLeft) 0) (\<lambda>l.
     bind_res (input_position_new (jd_stream db SideRight) (jd_next_chunk db SideRight) 0) (\<lambda>r.
     positions_new l r))"

definition validate_positions_for_side ::
    "'a join_db \<Rightarrow> input_positions \<Rightarrow> input_side \<Rightarrow> unit result" where
  "validate_positions_for_side db positions owner =
     bind_res (positions_validate positions) (\<lambda>_.
     check_all (\<lambda>side.
       let p = position_of_side positions side in
       if ip_stream_id p \<noteq> jd_stream db side \<or> ip_chunk_seq p \<noteq> jd_next_chunk db side
          \<or> (side \<noteq> owner \<and> ip_row_ordinal p \<noteq> 0)
       then Inl ''Join continuation is not at its locked consumer positions''
       else Inr ()) [SideLeft, SideRight])"

definition load_event ::
    "'a join_env \<Rightarrow> 'a join_db \<Rightarrow> input_positions \<Rightarrow> input_side
     \<Rightarrow> (input_event \<times> 'a \<times> 'a join_chunk) result" where
  "load_event env db positions side =
     bind_res (validate_positions_for_side db positions side) (\<lambda>_.
     let p = position_of_side positions side in
     bind_res (ok_or ''Join continuation references a missing input chunk''
         (jv_chunks env side (ip_chunk_seq p))) (\<lambda>ch.
     if jc_kind ch \<noteq> JoinData \<or> ip_row_ordinal p < 0
        \<or> int (length (jc_effects ch)) \<le> ip_row_ordinal p
     then Inl ''Join data continuation references an invalid input row''
     else
       let effect = jc_effects ch ! nat (ip_row_ordinal p) in
       bind_res (event_new side positions (je_weight effect) (je_bytes effect)) (\<lambda>e.
       Inr (e, je_value effect, ch))))"

definition load_own_expectation ::
    "'a join_db \<Rightarrow> input_event \<Rightarrow> 'a \<Rightarrow> own_expectation result" where
  "load_own_expectation db e value =
     bind_res
       (case filter (\<lambda>r. jr_value r = value) (ar_rows (jd_arrangement db (ev_side e))) of
          [] \<Rightarrow> Inr own_absent
        | [r] \<Rightarrow> bind_res (counts_validate (jr_counts r)) (\<lambda>_.
                 own_present (jr_id r) (jr_multiplicity r) (jr_counts r))
        | _ \<Rightarrow> Inl ''Join own typed row has several arrangement identities'') (\<lambda>own.
     bind_res (own_validate_event own (ev_weight e)) (\<lambda>_. Inr own))"

definition open_next_input :: "'a join_env \<Rightarrow> 'a join_db \<Rightarrow> 'a join_db result" where
  "open_next_input env db =
     (let chunk = (\<lambda>side. jv_chunks env side (jd_next_chunk db side)) in
      bind_res
        (case (chunk SideLeft, chunk SideRight) of
           (Some l, Some r) \<Rightarrow> Inr (if jc_lsn l \<le> jc_lsn r then (SideLeft, l) else (SideRight, r))
         | (Some l, None) \<Rightarrow> Inr (SideLeft, l)
         | (None, Some r) \<Rightarrow> Inr (SideRight, r)
         | (None, None) \<Rightarrow> Inl ''runnable Join has neither a continuation nor an input chunk'')
        (\<lambda>(side, head).
      bind_res (consumer_positions db) (\<lambda>positions.
      bind_res
        (case jc_kind head of
           JoinData \<Rightarrow> start_preflight positions side
         | JoinFrontierChunk \<Rightarrow>
             bind_res (frontier_input_new side positions (jc_lsn head)) start_frontier) (\<lambda>c.
      Inr (db\<lparr>jd_continuation := Some c\<rparr>)))))"

definition step_preflight ::
    "'a join_env \<Rightarrow> 'a join_db \<Rightarrow> input_positions \<Rightarrow> input_side \<Rightarrow> 'a join_db result" where
  "step_preflight env db positions side =
     bind_res (load_event env db positions side) (\<lambda>(e, value, _).
     bind_res (load_own_expectation db e value) (\<lambda>own.
     bind_res (start_input e own) (\<lambda>next.
     Inr (db\<lparr>jd_continuation := Some next\<rparr>))))"

definition set_arrangement :: "'a join_db \<Rightarrow> input_side \<Rightarrow> 'a arrangement \<Rightarrow> 'a join_db" where
  "set_arrangement db side ar = db\<lparr>jd_arrangement := (jd_arrangement db)(side := ar)\<rparr>"

definition step_candidates ::
    "'a join_env \<Rightarrow> 'a join_db \<Rightarrow> join_continuation \<Rightarrow> work_budget \<Rightarrow> 'a join_db result" where
  "step_candidates env db c b =
     bind_res (ok_or ''Join candidate phase omitted input progress'' (continuation_progress c)) (\<lambda>p.
     bind_res (load_event env db (ipg_positions p) (ipg_side p)) (\<lambda>(e, value, ch).
     bind_res (validate_input_resume c e) (\<lambda>_.
     bind_res (probe_candidates env db p value b) (\<lambda>page.
     bind_res (plan_actions (jv_mode env) c e page b) (\<lambda>plan.
     bind_res (append_actions env db (ev_side e) value (jc_lsn ch) (apl_actions plan)) (\<lambda>db1.
     bind_res (apply_candidate_changes (jd_arrangement db1 (opposite (ev_side e)))
         (apl_changes plan)) (\<lambda>(ar, changed).
     bind_res (action_validate_commit plan \<lparr>pr_usage = apl_usage plan, pr_state_rows = changed,
         pr_output = data_output env (apl_actions plan)\<rparr>) (\<lambda>_.
     Inr ((set_arrangement db1 (opposite (ev_side e)) ar)
            \<lparr>jd_continuation := Some (apl_next plan)\<rparr>)))))))))"

definition next_position :: "input_positions \<Rightarrow> input_side \<Rightarrow> int \<Rightarrow> input_positions" where
  "next_position positions side ordinal =
     (if side = SideLeft
      then positions\<lparr>jps_left := (jps_left positions)\<lparr>ip_row_ordinal := ordinal\<rparr>\<rparr>
      else positions\<lparr>jps_right := (jps_right positions)\<lparr>ip_row_ordinal := ordinal\<rparr>\<rparr>)"

definition step_finalize ::
    "'a join_env \<Rightarrow> 'a join_db \<Rightarrow> join_continuation \<Rightarrow> work_budget \<Rightarrow> 'a join_db result" where
  "step_finalize env db c b =
     bind_res (ok_or ''Join Finalize phase omitted input progress'' (continuation_progress c)) (\<lambda>p.
     let side = ipg_side p in
     bind_res (load_event env db (ipg_positions p) side) (\<lambda>(e, value, ch).
     bind_res (validate_input_resume c e) (\<lambda>_.
     bind_res (load_own_expectation db e value) (\<lambda>own.
     if own \<noteq> ipg_own p then Inl ''Join own arrangement changed during its fanout''
     else
       let bytes = (if current_side_is_eligible (jv_mode env) side (ipg_counts p)
             then jv_output_bytes env (oriented side (Some value) None) else 1);
           probe = (case oe_row_id own of None \<Rightarrow> OwnAbsent bytes
             | Some row_id \<Rightarrow> OwnPresent row_id (oe_multiplicity own) (oe_counts own) bytes) in
       bind_res (own_probe_validate probe) (\<lambda>_.
       bind_res (plan_finalize (jv_mode env) c e probe b) (\<lambda>plan.
       let actions = (case fpl_output plan of None \<Rightarrow> [] | Some a \<Rightarrow> [a]);
           facts = \<lparr>pr_usage = fpl_usage plan, pr_state_rows = 1,
             pr_output = data_output env actions\<rparr> in
       bind_res (append_actions env db side value (jc_lsn ch) actions) (\<lambda>db1.
       bind_res (apply_own_change (jd_arrangement db1 side) value (fpl_change plan)) (\<lambda>ar.
       let db2 = set_arrangement db1 side ar;
           ordinal = ip_row_ordinal (position_of_side (ipg_positions p) side) in
       bind_res (ok_or ''Join input row ordinal overflow'' (checked_add_i64 ordinal 1)) (\<lambda>next.
       if next < int (length (jc_effects ch)) then
         bind_res (start_preflight (next_position (ipg_positions p) side next) side) (\<lambda>cont.
         bind_res (finalize_validate_commit plan facts True) (\<lambda>_.
         Inr (db2\<lparr>jd_continuation := Some cont\<rparr>)))
       else if next = int (length (jc_effects ch)) then
         bind_res (ok_or ''Join input chunk cursor overflow''
             (checked_add_i64 (jd_next_chunk db side) 1)) (\<lambda>seq.
         bind_res (finalize_validate_commit plan facts False) (\<lambda>_.
         Inr (db2\<lparr>jd_next_chunk := (jd_next_chunk db2)(side := seq), jd_continuation := None\<rparr>)))
       else Inl ''Join Finalize advanced beyond its immutable input chunk'')))))))))"

definition step_frontier ::
    "'a join_env \<Rightarrow> 'a join_db \<Rightarrow> frontier_continuation \<Rightarrow> work_budget \<Rightarrow> 'a join_db result" where
  "step_frontier env db fc b =
     bind_res (frontier_input_new (fc_side fc) (fc_positions fc) (fc_frontier fc)) (\<lambda>facts.
     bind_res (validate_frontier_resume (JFrontier fc) facts) (\<lambda>_.
     bind_res (validate_positions_for_side db (fi_positions facts) (fi_side facts)) (\<lambda>_.
     let side = fi_side facts; p = position_of_side (fi_positions facts) side in
     if ip_row_ordinal p \<noteq> 0 then Inl ''Join frontier continuation has a data row ordinal''
     else
       bind_res (ok_or ''Join frontier continuation references a missing chunk''
           (jv_chunks env side (ip_chunk_seq p))) (\<lambda>head.
       if jc_kind head \<noteq> JoinFrontierChunk \<or> jc_effects head \<noteq> [] \<or> jc_lsn head \<noteq> fi_frontier facts
       then Inl ''Join frontier continuation changed its immutable chunk''
       else
         let state = \<lparr>fs_consumed = \<lparr>fr_left = jd_consumed db SideLeft, fr_right = jd_consumed db SideRight\<rparr>,
               fs_published = jd_published db, fs_latest_data = jd_latest_data db\<rparr> in
         bind_res (plan_frontier (JFrontier fc) facts state b) (\<lambda>plan.
         bind_res (ok_or ''Join frontier chunk cursor overflow''
             (checked_add_i64 (jd_next_chunk db side) 1)) (\<lambda>seq.
         bind_res (frontier_validate_commit plan \<lparr>pr_usage = usage_default, pr_state_rows = 0,
             pr_output = (if frp_publish plan = None then NoOutput
               else FrontierOutput (jv_output_chunk env))\<rparr>) (\<lambda>_.
         Inr (db\<lparr>jd_published := (case frp_publish plan of None \<Rightarrow> jd_published db | Some l \<Rightarrow> l),
                 jd_next_chunk := (jd_next_chunk db)(side := seq),
                 jd_consumed := (jd_consumed db)(side := fi_frontier facts),
                 jd_continuation := None\<rparr>))))))))"

text \<open>One round of the loop of \<open>step\<close> on the current continuation, within the remaining budget.\<close>

definition join_transition ::
    "'a join_env \<Rightarrow> work_budget \<Rightarrow> 'a join_db \<Rightarrow> 'a join_db result" where
  "join_transition env b db =
     (case jd_continuation db of
        None \<Rightarrow> open_next_input env db
      | Some (JPreflight positions side) \<Rightarrow> step_preflight env db positions side
      | Some (JProbe p) \<Rightarrow> step_candidates env db (JProbe p) b
      | Some (JPending p cand) \<Rightarrow> step_candidates env db (JPending p cand) b
      | Some (JFinalize p) \<Rightarrow> step_finalize env db (JFinalize p) b
      | Some (JFrontier fc) \<Rightarrow> step_frontier env db fc b)"

fun join_run :: "'a join_env \<Rightarrow> work_budget list \<Rightarrow> 'a join_db \<Rightarrow> 'a join_db result" where
  "join_run env [] db = Inr db"
| "join_run env (b # bs) db = bind_res (join_transition env b db) (join_run env bs)"

definition join_initial :: "int \<Rightarrow> int \<Rightarrow> 'a join_db" where
  "join_initial left right =
     \<lparr>jd_arrangement = (\<lambda>_. \<lparr>ar_rows = [], ar_next_id = 1\<rparr>),
      jd_stream = (\<lambda>side. if side = SideLeft then left else right),
      jd_next_chunk = (\<lambda>_. 1), jd_consumed = (\<lambda>_. 0), jd_published = 0, jd_latest_data = None,
      jd_continuation = None, jd_output = []\<rparr>"

end
