(* ===== verification/Join_View.thy ===== *)
theory Join_View
  imports Join_Step
begin

text \<open>
  The result a join maintains, as a function of the weighted rows of its inputs, and how it
  changes with the weight of one row: the algebra behind the differential step.
\<close>

section \<open>The view\<close>

text \<open>Whether a join of this mode keeps a row of a side alone, by its true and unknown partners.\<close>

fun kept :: "join_mode \<Rightarrow> input_side \<Rightarrow> int \<Rightarrow> int \<Rightarrow> bool" where
  "kept JoinInner side m u = False"
| "kept JoinLeft side m u = (side = SideLeft \<and> m = 0)"
| "kept JoinRight side m u = (side = SideRight \<and> m = 0)"
| "kept JoinFull side m u = (m = 0)"
| "kept JoinSemi side m u = (side = SideLeft \<and> 0 < m)"
| "kept JoinAnti side m u = (side = SideLeft \<and> m = 0)"
| "kept JoinNullAwareAnti side m u = (side = SideLeft \<and> m = 0 \<and> u = 0)"

text \<open>The weights of an input: the total weight of the rows with a property.\<close>

type_synonym 'a weights = "input_side \<Rightarrow> ('a \<Rightarrow> bool) \<Rightarrow> int"

definition partners :: "'a join_env \<Rightarrow> 'a weights \<Rightarrow> input_side \<Rightarrow> 'a \<Rightarrow> match_truth \<Rightarrow> int" where
  "partners env T side x truth = T (opposite side) (\<lambda>y. truth_from env side x y = truth)"

definition kept_in :: "'a join_env \<Rightarrow> 'a weights \<Rightarrow> input_side \<Rightarrow> 'a \<Rightarrow> bool" where
  "kept_in env T side x \<longleftrightarrow>
     kept (jv_mode env) side (partners env T side x MatchTrue) (partners env T side x MatchUnknown)"

fun join_view :: "'a join_env \<Rightarrow> 'a weights \<Rightarrow> 'a join_output \<Rightarrow> int" where
  "join_view env T (Some l, Some r) =
     (if pair_mode (jv_mode env) \<and> jv_truth env l r = MatchTrue
      then T SideLeft (\<lambda>v. v = l) * T SideRight (\<lambda>v. v = r) else 0)"
| "join_view env T (Some l, None) =
     (if kept_in env T SideLeft l then T SideLeft (\<lambda>v. v = l) else 0)"
| "join_view env T (None, Some r) =
     (if kept_in env T SideRight r then T SideRight (\<lambda>v. v = r) else 0)"
| "join_view env T (None, None) = 0"

lemma opposite_opposite [simp]: "opposite (opposite s) = s"
  by (cases s) simp_all

lemma opposite_neq [simp]: "opposite s \<noteq> s" "s \<noteq> opposite s"
  by (cases s; simp)+

lemma truth_from_opposite: "truth_from env (opposite s) y x = truth_from env s x y"
  by (cases s) (simp_all add: truth_from_def)

lemma oriented_inj [simp]: "oriented s a b = oriented s a' b' \<longleftrightarrow> a = a' \<and> b = b'"
  by (auto simp: oriented_def)

lemma oriented_exhaust: obtains a b where "k = oriented s a b"
  by (cases s; cases k) (auto simp: oriented_def)

lemma join_view_oriented:
  "join_view env T (oriented s (Some x) (Some y)) =
     (if pair_mode (jv_mode env) \<and> truth_from env s x y = MatchTrue
      then T s (\<lambda>v. v = x) * T (opposite s) (\<lambda>v. v = y) else 0)"
  "join_view env T (oriented s (Some x) None) = (if kept_in env T s x then T s (\<lambda>v. v = x) else 0)"
  "join_view env T (oriented s None (Some y)) =
     (if kept_in env T (opposite s) y then T (opposite s) (\<lambda>v. v = y) else 0)"
  "join_view env T (oriented s None None) = 0"
  by (cases s; simp add: oriented_def truth_from_def mult.commute)+

section \<open>Weights of lists\<close>

definition weight_of :: "'a join_effect list \<Rightarrow> ('a \<Rightarrow> bool) \<Rightarrow> int" where
  "weight_of es P = (\<Sum>e\<leftarrow>es. if P (je_value e) then je_weight e else 0)"

definition row_total :: "'a join_row list \<Rightarrow> ('a \<Rightarrow> bool) \<Rightarrow> int" where
  "row_total rs P = (\<Sum>r\<leftarrow>rs. if P (jr_value r) then int (jr_multiplicity r) else 0)"

definition arranged :: "'a join_db \<Rightarrow> 'a weights" where
  "arranged db side = row_total (ar_rows (jd_arrangement db side))"

lemma row_total_simps [simp]:
  "row_total [] P = 0"
  "row_total (r # rs) P = (if P (jr_value r) then int (jr_multiplicity r) else 0) + row_total rs P"
  "row_total (rs @ rs') P = row_total rs P + row_total rs' P"
  by (simp_all add: row_total_def)

lemma weight_of_simps [simp]:
  "weight_of [] P = 0"
  "weight_of (e # es) P = (if P (je_value e) then je_weight e else 0) + weight_of es P"
  "weight_of (es @ es') P = weight_of es P + weight_of es' P"
  by (simp_all add: weight_of_def)

lemma row_total_map_counts:
  "(\<And>r. jr_value (f r) = jr_value r \<and> jr_multiplicity (f r) = jr_multiplicity r) \<Longrightarrow>
     row_total (map f rs) P = row_total rs P"
  by (induction rs) auto

definition net :: "('b \<times> int) list \<Rightarrow> 'b \<Rightarrow> int" where
  "net out k = (\<Sum>(row, w)\<leftarrow>out. if row = k then w else 0)"

lemma net_simps [simp]:
  "net [] k = 0"
  "net ((row, w) # out) k = (if row = k then w else 0) + net out k"
  "net (out @ out') k = net out k + net out' k"
  by (simp_all add: net_def)

section \<open>The change of one row\<close>

definition add_weight :: "'a weights \<Rightarrow> input_side \<Rightarrow> 'a \<Rightarrow> int \<Rightarrow> 'a weights" where
  "add_weight T side x w s P = T s P + (if s = side \<and> P x then w else 0)"

text \<open>What the event contributes to the output through one row of the opposite input.\<close>

definition pair_part ::
    "'a join_env \<Rightarrow> input_side \<Rightarrow> 'a \<Rightarrow> int \<Rightarrow> 'a join_output \<Rightarrow> 'a join_row \<Rightarrow> int" where
  "pair_part env side x w k r =
     (if pair_mode (jv_mode env) \<and> truth_from env side x (jr_value r) = MatchTrue
         \<and> k = oriented side (Some x) (Some (jr_value r))
      then w * int (jr_multiplicity r) else 0)"

definition transition_part ::
    "'a join_env \<Rightarrow> 'a weights \<Rightarrow> input_side \<Rightarrow> 'a \<Rightarrow> int \<Rightarrow> 'a join_output \<Rightarrow> 'a join_row \<Rightarrow> int" where
  "transition_part env T side x w k r =
     (if k = oriented side None (Some (jr_value r))
      then int (jr_multiplicity r)
        * (of_bool (kept_in env (add_weight T side x w) (opposite side) (jr_value r))
           - of_bool (kept_in env T (opposite side) (jr_value r)))
      else 0)"

definition row_part ::
    "'a join_env \<Rightarrow> 'a weights \<Rightarrow> input_side \<Rightarrow> 'a \<Rightarrow> int \<Rightarrow> 'a join_output \<Rightarrow> 'a join_row \<Rightarrow> int" where
  "row_part env T side x w k r = pair_part env side x w k r + transition_part env T side x w k r"

lemma sum_list_guard:
  "(\<Sum>r\<leftarrow>rs. if P (jr_value r) then c * int (jr_multiplicity r) else 0) = c * row_total rs P"
  by (induction rs) (auto simp: distrib_left)

lemma partners_add_weight:
  "partners env (add_weight T s x w) (opposite s) y t =
     partners env T (opposite s) y t + (if truth_from env s x y = t then w else 0)"
  "partners env (add_weight T s x w) s y t = partners env T s y t"
  by (simp_all add: partners_def add_weight_def truth_from_opposite)

lemma row_part_false:
  assumes "truth_from env s x (jr_value r) = MatchFalse"
  shows "row_part env T s x w k r = 0"
  using assms by (simp add: row_part_def pair_part_def transition_part_def kept_in_def partners_add_weight)

lemma join_view_change:
  assumes "\<And>P. T (opposite s) P = row_total rs P"
  shows "join_view env (add_weight T s x w) k =
    join_view env T k + (\<Sum>r\<leftarrow>rs. row_part env T s x w k r)
    + (if k = oriented s (Some x) None \<and> kept_in env T s x then w else 0)"
proof -
  let ?T' = "add_weight T s x w"
  have own: "?T' s P = T s P + (if P x then w else 0)" for P by (simp add: add_weight_def)
  have opp: "?T' (opposite s) P = T (opposite s) P" for P by (simp add: add_weight_def)
  obtain a b where k: "k = oriented s a b" by (rule oriented_exhaust)
  show ?thesis
  proof (cases a; cases b)
    fix y z
    assume ab: "a = Some y" "b = Some z"
    let ?c = "pair_mode (jv_mode env) \<and> truth_from env s x z = MatchTrue \<and> y = x"
    have "row_part env T s x w k r = (if jr_value r = z then (if ?c then w else 0) * int (jr_multiplicity r) else 0)" for r
      by (auto simp: row_part_def pair_part_def transition_part_def k ab)
    then have "(\<Sum>r\<leftarrow>rs. row_part env T s x w k r) = (if ?c then w else 0) * row_total rs (\<lambda>v. v = z)"
      by (simp only: sum_list_guard[of "\<lambda>v. v = z"])
    then show ?thesis
      by (auto simp: k ab join_view_oriented own opp assms distrib_right)
  next
    fix z
    assume ab: "a = None" "b = Some z"
    let ?d = "of_bool (kept_in env ?T' (opposite s) z) - of_bool (kept_in env T (opposite s) z) :: int"
    have "row_part env T s x w k r = (if jr_value r = z then ?d * int (jr_multiplicity r) else 0)" for r
      by (auto simp: row_part_def pair_part_def transition_part_def k ab)
    then have "(\<Sum>r\<leftarrow>rs. row_part env T s x w k r) = ?d * row_total rs (\<lambda>v. v = z)"
      by (simp only: sum_list_guard[of "\<lambda>v. v = z"])
    then show ?thesis
      by (auto simp: k ab join_view_oriented opp assms)
  next
    fix y
    assume ab: "a = Some y" "b = None"
    have "row_part env T s x w k r = 0" for r
      by (auto simp: row_part_def pair_part_def transition_part_def k ab)
    moreover have "kept_in env ?T' s y = kept_in env T s y"
      by (simp add: kept_in_def partners_add_weight)
    ultimately show ?thesis by (auto simp: k ab join_view_oriented own)
  next
    assume ab: "a = None" "b = None"
    have "row_part env T s x w k r = 0" for r
      by (auto simp: row_part_def pair_part_def transition_part_def k ab)
    then show ?thesis by (simp add: k ab join_view_oriented)
  qed
qed

end
