(* ===== verification/Join_Page.thy ===== *)
theory Join_Page
  imports Join_View
begin

text \<open>
  What a planned page does: its actions, together with the pair of a pending candidate, are the
  parts of the candidates it completes, and its changes bring their counts up to date.
\<close>

section \<open>Successful validations\<close>

lemma validate_count_Inr [res_simps]: "validate_count v name = Inr () \<longleftrightarrow> v \<le> i64_max_u64"
  by (auto simp: validate_count_def)

lemma validate_stable_id_Inr [res_simps]: "validate_stable_id v name = Inr () \<longleftrightarrow> 0 < v"
  by (auto simp: validate_stable_id_def)

lemma validate_positive_count_Inr [res_simps]:
  "validate_positive_count v name = Inr () \<longleftrightarrow> 0 < v \<and> v \<le> i64_max_u64"
  by (auto simp: validate_positive_count_def res_simps)

lemma counts_validate_Inr [res_simps]:
  "counts_validate c = Inr () \<longleftrightarrow> mc_matched c \<le> i64_max_u64 \<and> mc_unknown c \<le> i64_max_u64"
  by (auto simp: counts_validate_def res_simps)

lemma checked_signed_count_Inr [res_simps]:
  "checked_signed_count base delta name = Inr n \<longleftrightarrow>
     base \<le> i64_max_u64 \<and> int n = int base + delta \<and> int n \<le> i64_max"
  by (auto simp: checked_signed_count_def Let_def res_simps)

lemma checked_count_sum_Inr [res_simps]:
  "checked_count_sum l r name = Inr n \<longleftrightarrow> n = l + r \<and> n \<le> i64_max_u64"
  by (auto simp: checked_count_sum_def res_simps i64_max_u64_def u64_max_def)

lemma count_to_i64_Inr [res_simps]: "count_to_i64 v name = Inr n \<longleftrightarrow> n = int v \<and> v \<le> i64_max_u64"
  by (auto simp: count_to_i64_def res_simps)

lemma checked_weight_product_Inr [res_simps]:
  "checked_weight_product w m = Inr p \<longleftrightarrow>
     p = w * int m \<and> 0 < m \<and> m \<le> i64_max_u64 \<and> p \<noteq> 0 \<and> in_i64 p"
  by (auto simp: checked_weight_product_def Let_def res_simps in_i64_def)

section \<open>Classification\<close>

text \<open>The counts after the event, exactly.\<close>

definition shifted :: "match_counts \<Rightarrow> match_truth \<Rightarrow> int \<Rightarrow> match_counts \<Rightarrow> bool" where
  "shifted old truth w new \<longleftrightarrow>
     int (mc_matched new) = int (mc_matched old) + (if truth = MatchTrue then w else 0)
     \<and> int (mc_unknown new) = int (mc_unknown old) + (if truth = MatchUnknown then w else 0)"

lemma apply_match_delta_shifted: "apply_match_delta old truth w = Inr new \<Longrightarrow> shifted old truth w new"
  by (cases truth) (auto simp: apply_match_delta_def shifted_def res_simps)

definition pair_list :: "join_mode \<Rightarrow> input_side \<Rightarrow> int \<Rightarrow> candidate_probe \<Rightarrow> output_action list \<Rightarrow> bool"
  where
  "pair_list mode side w c as \<longleftrightarrow>
     (if cp_truth c = MatchTrue \<and> pair_mode mode
      then \<exists>bytes. as = [\<lparr>oa_kind = ActPair, oa_side = side, oa_candidate = Some (cp_row_id c),
             oa_weight = w * int (cp_multiplicity c), oa_bytes = bytes\<rparr>]
      else as = [])"

definition transition_list ::
    "join_mode \<Rightarrow> input_side \<Rightarrow> match_counts \<Rightarrow> candidate_probe \<Rightarrow> output_action list \<Rightarrow> bool" where
  "transition_list mode side new c as \<longleftrightarrow>
     (if candidate_side_is_output mode (opposite side)
         \<and> candidate_eligible mode (cp_old c) \<noteq> candidate_eligible mode new
      then \<exists>bytes. as = [\<lparr>oa_kind = ActCandidate, oa_side = side, oa_candidate = Some (cp_row_id c),
             oa_weight = (if candidate_eligible mode new then int (cp_multiplicity c)
                          else - int (cp_multiplicity c)), oa_bytes = bytes\<rparr>]
      else as = [])"

lemma pair_actions_list: "pair_actions mode side w c = Inr as \<Longrightarrow> pair_list mode side w c as"
  by (auto simp: pair_actions_def pair_list_def res_simps split: if_splits)

lemma transition_actions_list:
  "transition_actions mode side new c = Inr as \<Longrightarrow> transition_list mode side new c as"
  by (auto simp: transition_actions_def transition_list_def Let_def res_simps split: if_splits)

definition classification ::
    "join_mode \<Rightarrow> input_side \<Rightarrow> int \<Rightarrow> candidate_probe \<Rightarrow> classified \<Rightarrow> bool" where
  "classification mode side w c cl \<longleftrightarrow>
     ce_row_id (cl_expected cl) = cp_row_id c \<and> ce_multiplicity (cl_expected cl) = cp_multiplicity c
     \<and> ce_truth (cl_expected cl) = cp_truth c \<and> ce_old (cl_expected cl) = cp_old c
     \<and> shifted (cp_old c) (cp_truth c) w (ce_new (cl_expected cl))
     \<and> (\<exists>ps ts. cl_actions cl = ps @ ts \<and> pair_list mode side w c ps
          \<and> transition_list mode side (ce_new (cl_expected cl)) c ts)"

lemma classify_candidate_Inr:
  assumes "classify_candidate mode side w c = Inr cl"
  shows "classification mode side w c cl"
proof -
  obtain new ps ts where "apply_match_delta (cp_old c) (cp_truth c) w = Inr new"
      and ps: "pair_actions mode side w c = Inr ps" and ts: "transition_actions mode side new c = Inr ts"
      and cl: "cl = \<lparr>cl_expected = \<lparr>ce_row_id = cp_row_id c, ce_multiplicity = cp_multiplicity c,
        ce_truth = cp_truth c, ce_old = cp_old c, ce_new = new\<rparr>, cl_actions = ps @ ts\<rparr>"
    using assms by (auto simp: classify_candidate_def Let_def res_simps)
  then show ?thesis
    using apply_match_delta_shifted pair_actions_list[OF ps] transition_actions_list[OF ts]
    by (auto simp: classification_def)
qed

section \<open>Prefixes of actions\<close>

lemma take_actions_prefix:
  "take_actions b rows bytes as = Inr (taken, r, n) \<Longrightarrow> taken = take (length taken) as"
proof (induction as arbitrary: rows bytes taken r n)
  case (Cons a as)
  obtain fits where fits: "action_fits rows bytes a b = Inr fits"
    using Cons.prems by (auto simp: res_simps)
  show ?case
  proof (cases fits)
    case True
    then obtain rows' bytes' taken' where "take_actions b rows' bytes' as = Inr (taken', r, n)"
        "taken = a # taken'"
      using Cons.prems fits by (auto simp: res_simps)
    then show ?thesis using Cons.IH by simp
  qed (use Cons.prems fits in \<open>auto\<close>)
qed simp

text \<open>An additive measure of actions, such as their part of the weight of one output row.\<close>

definition measured :: "(output_action \<Rightarrow> int) \<Rightarrow> output_action list \<Rightarrow> int" where
  "measured f as = sum_list (map f as)"

lemma measured_simps [simp]:
  "measured f [] = 0" "measured f (a # as) = f a + measured f as"
  "measured f (as @ bs) = measured f as + measured f bs"
  by (simp_all add: measured_def)

text \<open>The pair action of a pending candidate; its measured size does not matter.\<close>

definition pending_action :: "input_side \<Rightarrow> int \<Rightarrow> candidate_expectation \<Rightarrow> output_action" where
  "pending_action side w e =
     \<lparr>oa_kind = ActPair, oa_side = side, oa_candidate = Some (ce_row_id e),
      oa_weight = w * int (ce_multiplicity e), oa_bytes = 0\<rparr>"

definition pending_measure ::
    "(output_action \<Rightarrow> int) \<Rightarrow> input_side \<Rightarrow> int \<Rightarrow> candidate_expectation option \<Rightarrow> int" where
  "pending_measure f side w pending =
     (case pending of None \<Rightarrow> 0 | Some e \<Rightarrow> f (pending_action side w e))"

definition ignores_bytes :: "(output_action \<Rightarrow> int) \<Rightarrow> bool" where
  "ignores_bytes f \<longleftrightarrow> (\<forall>a n. f (a\<lparr>oa_bytes := n\<rparr>) = f a)"

lemma classified_pair_first:
  assumes "classification mode side w c cl" "pair_then_transition (cl_actions cl)" "ignores_bytes f"
  shows "f (cl_actions cl ! 0) = f (pending_action side w (cl_expected cl))"
proof -
  obtain ps ts where as: "cl_actions cl = ps @ ts" "pair_list mode side w c ps"
      "transition_list mode side (ce_new (cl_expected cl)) c ts"
    using assms(1) by (auto simp: classification_def)
  have "ps \<noteq> []" using assms(2) as(1,3)
    by (auto simp: pair_then_transition_def transition_list_def split: if_splits)
  then obtain bytes where "cl_actions cl ! 0 = (pending_action side w (cl_expected cl))\<lparr>oa_bytes := bytes\<rparr>"
    using as(1,2) assms(1)
    by (auto simp: pair_list_def pending_action_def classification_def split: if_splits)
  then show ?thesis using assms(3) by (simp add: ignores_bytes_def)
qed

section \<open>The loop over a page\<close>

definition change_list :: "classified list \<Rightarrow> candidate_change list" where
  "change_list cls = filter (\<lambda>e. ce_old e \<noteq> ce_new e) (map cl_expected cls)"

lemma change_list_simps [simp]:
  "change_list [] = []"
  "change_list (cl # cls) =
     (if ce_old (cl_expected cl) \<noteq> ce_new (cl_expected cl) then [cl_expected cl] else []) @ change_list cls"
  by (simp_all add: change_list_def)

text \<open>The progress after completed candidates: the cursor and the accumulated counts.\<close>

definition truth_total :: "match_truth \<Rightarrow> candidate_probe list \<Rightarrow> nat" where
  "truth_total t cs = (\<Sum>c\<leftarrow>cs. if cp_truth c = t then cp_multiplicity c else 0)"

lemma truth_total_simps [simp]:
  "truth_total t [] = 0"
  "truth_total t (c # cs) = (if cp_truth c = t then cp_multiplicity c else 0) + truth_total t cs"
  by (simp_all add: truth_total_def)

definition advanced :: "input_progress \<Rightarrow> candidate_probe list \<Rightarrow> input_progress \<Rightarrow> bool" where
  "advanced p cs q \<longleftrightarrow>
     q = p\<lparr>ipg_after := (if cs = [] then ipg_after p else Some (cp_row_id (last cs))),
           ipg_counts := \<lparr>mc_matched = mc_matched (ipg_counts p) + truth_total MatchTrue cs,
             mc_unknown = mc_unknown (ipg_counts p) + truth_total MatchUnknown cs\<rparr>\<rparr>"

lemma advanced_Nil [simp]: "advanced p [] q \<longleftrightarrow> q = p"
  by (auto simp: advanced_def)

lemma complete_candidate_advanced:
  assumes "complete_candidate p (cl_expected cl) = Inr q" "classification mode side w c cl"
  shows "advanced p [c] q"
  using assms
  by (cases "cp_truth c")
    (auto simp: complete_candidate_def advanced_def classification_def Let_def res_simps)

lemma advanced_Cons: "advanced p [c] q \<Longrightarrow> advanced q cs r \<Longrightarrow> advanced p (c # cs) r"
  by (auto simp: advanced_def)

definition page_done ::
    "join_mode \<Rightarrow> candidate_expectation option \<Rightarrow> candidate_probe list \<Rightarrow> page_plan \<Rightarrow> page_plan \<Rightarrow> candidate_expectation option \<Rightarrow> bool
     \<Rightarrow> candidate_probe list \<Rightarrow> candidate_probe list \<Rightarrow> classified list \<Rightarrow> bool" where
  "page_done mode pending cs st st' np completed ds rest cls \<longleftrightarrow>
     (let side = ipg_side (pgp_progress st); w = ipg_weight (pgp_progress st) in
      cs = ds @ rest \<and> (completed \<longrightarrow> rest = [] \<and> np = None)
      \<and> list_all2 (classification mode side w) ds cls
      \<and> advanced (pgp_progress st) ds (pgp_progress st')
      \<and> pgp_changes st' = pgp_changes st @ change_list cls
      \<and> (\<forall>f. ignores_bytes f \<longrightarrow>
          measured f (pgp_actions st') + pending_measure f side w pending =
          measured f (pgp_actions st) + (\<Sum>cl\<leftarrow>cls. measured f (cl_actions cl))
          + pending_measure f side w np)
      \<and> (\<forall>e. np = Some e \<longrightarrow> (\<exists>c rest' cl. rest = c # rest' \<and> classification mode side w c cl
            \<and> cl_expected cl = e)))"

lemma plan_page_done:
  "plan_page mode b pending cs st = Inr (st', np, completed) \<Longrightarrow> (cs = [] \<Longrightarrow> pending = None) \<Longrightarrow>
    \<exists>ds rest cls. page_done mode pending cs st st' np completed ds rest cls"
proof (induction mode b pending cs st arbitrary: st' np completed rule: plan_page.induct)
  case (1 mode b pending st)
  then show ?case
    by (intro exI[of _ "[]"]) (auto simp: page_done_def pending_measure_def)
next
  case (2 mode b pending c cs st)
  let ?p = "pgp_progress st"
  let ?side = "ipg_side ?p" and ?w = "ipg_weight ?p"
  obtain cl first taken rows bytes where
      cl: "classify_candidate mode ?side ?w c = Inr cl" and first: "first_action pending cl = Inr first"
      and taken: "take_actions b (pgp_rows st) (pgp_bytes st) (drop first (cl_actions cl))
        = Inr (taken, rows, bytes)"
    using 2(2) by (auto simp: Let_def res_simps)
  note described = classify_candidate_Inr[OF cl]
  define st1 where "st1 = st\<lparr>pgp_actions := pgp_actions st @ taken, pgp_rows := rows, pgp_bytes := bytes\<rparr>"
  have step: "plan_page mode b pending (c # cs) st =
      (if length taken \<noteq> length (cl_actions cl) - first then
         if 0 < first + length taken then
           if first + length taken \<noteq> 1 \<or> \<not> pair_then_transition (cl_actions cl)
           then Inl ''Join action prefix stopped at a non-resumable boundary''
           else Inr (st1, Some (cl_expected cl), False)
         else Inr (st1, None, False)
       else
         bind_res (complete_candidate ?p (cl_expected cl)) (\<lambda>p'.
         plan_page mode b None cs (st1\<lparr>pgp_progress := p', pgp_changes := pgp_changes st
           @ (if ce_old (cl_expected cl) \<noteq> ce_new (cl_expected cl) then [cl_expected cl] else [])\<rparr>)))"
    by (simp only: plan_page.simps Let_def cl bind_res.simps first taken prod.case st1_def)
  have prefix: "taken = take (length taken) (drop first (cl_actions cl))"
    by (rule take_actions_prefix[OF taken])
  have pend: "first \<le> 1" "first = 1 \<longleftrightarrow> pending \<noteq> None" "\<forall>e. pending = Some e \<longrightarrow> cl_expected cl = e"
      "first = 1 \<longrightarrow> pair_then_transition (cl_actions cl)"
    using first by (auto simp: first_action_def split: option.splits if_splits)
  have pend_f: "pending_measure f ?side ?w pending = (if first = 1 then f (cl_actions cl ! 0) else 0)"
    if "ignores_bytes f" for f
    using pend classified_pair_first[OF described _ that]
    by (cases pending) (auto simp: pending_measure_def)
  show ?case
  proof (cases "length taken = length (cl_actions cl) - first")
    case False
    have stop: "(if 0 < first + length taken then
          if first + length taken \<noteq> 1 \<or> \<not> pair_then_transition (cl_actions cl)
          then Inl ''Join action prefix stopped at a non-resumable boundary''
          else Inr (st1, Some (cl_expected cl), False)
        else Inr (st1, None, False)) = Inr (st', np, completed)"
      using 2(2) unfolding step by (simp only: False not_False_eq_True if_True)
    have acts: "measured f taken + pending_measure f ?side ?w pending = pending_measure f ?side ?w np"
      if f: "ignores_bytes f" for f
    proof (cases "first + length taken = 0")
      case True
      then show ?thesis using stop pend_f[OF f] by (auto simp: pending_measure_def)
    next
      case ne: False
      then have one: "first + length taken = 1" and pt: "pair_then_transition (cl_actions cl)"
          and np: "np = Some (cl_expected cl)"
        using stop by (auto split: if_splits)
      have val: "f (cl_actions cl ! 0) = pending_measure f ?side ?w np"
        using classified_pair_first[OF described pt f] np by (simp add: pending_measure_def)
      show ?thesis
      proof (cases "first = 1")
        case True
        then show ?thesis using one pend_f[OF f] val by simp
      next
        case False
        then have "first = 0" "length taken = 1" using one by auto
        then have "taken = [cl_actions cl ! 0]"
          using prefix pt by (cases "cl_actions cl") (auto simp: pair_then_transition_def)
        then show ?thesis using pend_f[OF f] val False by simp
      qed
    qed
    have "page_done mode pending (c # cs) st st' np completed [] (c # cs) []"
      using stop acts described pend
      by (auto simp: page_done_def st1_def Let_def split: if_splits)
    then show ?thesis by blast
  next
    case True
    define changes where "changes = pgp_changes st
      @ (if ce_old (cl_expected cl) \<noteq> ce_new (cl_expected cl) then [cl_expected cl] else [])"
    obtain q where q: "complete_candidate ?p (cl_expected cl) = Inr q"
        and rest: "plan_page mode b None cs (st1\<lparr>pgp_progress := q, pgp_changes := changes\<rparr>)
          = Inr (st', np, completed)"
      using 2(2) True unfolding step changes_def[symmetric] by (auto simp: res_simps)
    have all: "taken = drop first (cl_actions cl)" using prefix True by simp
    have acts: "measured f taken + pending_measure f ?side ?w pending = measured f (cl_actions cl)"
      if "ignores_bytes f" for f
      using pend pend_f[OF that] all
      by (cases "cl_actions cl") (auto simp: pair_then_transition_def le_Suc_eq)
    note adv = complete_candidate_advanced[OF q described]
    have same: "ipg_side q = ?side" "ipg_weight q = ?w" using adv by (auto simp: advanced_def)
    obtain ds rest' cls where IH: "page_done mode None cs
        (st1\<lparr>pgp_progress := q, pgp_changes := changes\<rparr>) st' np completed ds rest' cls"
      using 2(1)[OF refl cl first taken refl refl st1_def _ changes_def q rest] True by blast
    have "page_done mode pending (c # cs) st st' np completed (c # ds) rest' (cl # cls)"
      using IH acts described advanced_Cons[OF adv] same
      by (auto simp: page_done_def Let_def st1_def changes_def pending_measure_def[of _ _ _ None])
    then show ?thesis by blast
  qed
qed

end
