(* ===== verification/Join_Invariant.thy ===== *)
theory Join_Invariant
  imports Join_Page
begin

text \<open>
  The invariant of a join between and inside its events, and its preservation by a page of
  candidates.
\<close>

section \<open>Arrangements\<close>

definition arrangement_ok :: "'a arrangement \<Rightarrow> bool" where
  "arrangement_ok ar \<longleftrightarrow>
     sorted_wrt (<) (map jr_id (ar_rows ar)) \<and> distinct (map jr_value (ar_rows ar))
     \<and> 0 < ar_next_id ar \<and> (\<forall>r\<in>set (ar_rows ar). 0 < jr_id r \<and> jr_id r < ar_next_id ar)"

text \<open>The stored counts of a row are the weights of its partners.\<close>

definition exact :: "'a join_env \<Rightarrow> 'a weights \<Rightarrow> input_side \<Rightarrow> 'a join_row \<Rightarrow> bool" where
  "exact env T side r \<longleftrightarrow>
     int (mc_matched (jr_counts r)) = partners env T side (jr_value r) MatchTrue
     \<and> int (mc_unknown (jr_counts r)) = partners env T side (jr_value r) MatchUnknown"

lemma exact_add_weight_own [simp]:
  "exact env (add_weight T s x w) s r = exact env T s r"
  by (simp add: exact_def partners_add_weight)

lemma exact_add_weight_false:
  "truth_from env s x (jr_value r) = MatchFalse \<Longrightarrow>
     exact env (add_weight T s x w) (opposite s) r = exact env T (opposite s) r"
  by (simp add: exact_def partners_add_weight)

lemma exact_shifted:
  assumes "exact env T (opposite s) r" "shifted (jr_counts r) (truth_from env s x (jr_value r)) w new"
  shows "exact env (add_weight T s x w) (opposite s) (r\<lparr>jr_counts := new\<rparr>)"
  using assms by (simp add: exact_def shifted_def partners_add_weight)

text \<open>The key predicate only leaves out candidates for which the condition is false.\<close>

definition keys_sound :: "'a join_env \<Rightarrow> bool" where
  "keys_sound env \<longleftrightarrow>
     (\<forall>s x y. \<not> jv_keyed env s x y \<longrightarrow> truth_from env s x y = MatchFalse)"

lemma sorted_ids_inj:
  assumes "sorted_wrt (<) (map jr_id rs)" "r \<in> set rs" "r' \<in> set rs" "jr_id r = jr_id r'"
  shows "r = r'"
proof -
  have "distinct (map jr_id rs)" using assms(1) by (simp add: strict_sorted_iff)
  then show ?thesis using assms(2-4) by (metis distinct_map inj_onD)
qed

lemma find_by_id:
  assumes "sorted_wrt (<) (map jr_id rs)" "r \<in> set rs"
  shows "find (\<lambda>q. jr_id q = jr_id r) rs = Some r"
proof (cases "find (\<lambda>q. jr_id q = jr_id r) rs")
  case None
  then show ?thesis using assms(2) by (auto simp: find_None_iff)
next
  case (Some q)
  then have "q \<in> set rs" "jr_id q = jr_id r" by (auto simp: find_Some_iff)
  then show ?thesis using Some sorted_ids_inj[OF assms(1) _ assms(2)] by auto
qed

section \<open>Probed rows\<close>

lemma bounded_rows_prefix: "\<exists>n. bounded_rows bytes limit first before rs = take n rs"
proof (induction rs arbitrary: first before)
  case (Cons r rs)
  then obtain n where "bounded_rows bytes limit False (before + bytes (jr_value r)) rs = take n rs"
    by blast
  then have "bounded_rows bytes limit first before (r # rs)
      = take (if first \<or> before + bytes (jr_value r) \<le> limit then Suc n else 0) (r # rs)"
    by (simp add: Let_def)
  then show ?case by blast
qed simp

lemma sorted_take_filter:
  fixes f :: "'b \<Rightarrow> int"
  assumes "sorted_wrt (<) (map f xs)" "ds = take n xs" "ds \<noteq> []"
  shows "filter (\<lambda>x. f x \<le> f (last ds)) xs = ds"
proof -
  obtain es where xs: "xs = ds @ es" using assms(2) append_take_drop_id by metis
  obtain bs d where ds: "ds = bs @ [d]" using assms(3) by (cases ds rule: rev_cases) auto
  have "\<forall>x\<in>set bs. f x < f d" "\<forall>x\<in>set es. f d < f x"
    using assms(1) unfolding xs ds by (auto simp: sorted_wrt_append)
  then have "filter (\<lambda>x. f x \<le> f d) bs = bs" "filter (\<lambda>x. f x \<le> f d) es = []"
    by (auto simp: filter_id_conv filter_empty_conv)
  then show ?thesis by (simp add: xs ds)
qed

lemma sum_list_filter:
  fixes g :: "'b \<Rightarrow> int"
  shows "sum_list (map g (filter P xs)) = (\<Sum>x\<leftarrow>xs. if P x then g x else 0)"
  by (induction xs) auto

definition cursor :: "input_progress \<Rightarrow> int" where
  "cursor p = (case ipg_after p of None \<Rightarrow> 0 | Some a \<Rightarrow> a)"

definition upto_cursor :: "int \<Rightarrow> 'a join_row list \<Rightarrow> ('a join_row \<Rightarrow> int) \<Rightarrow> int" where
  "upto_cursor c rs g = sum_list (map g (filter (\<lambda>r. jr_id r \<le> c) rs))"

lemma upto_cursor_page:
  assumes sorted: "sorted_wrt (<) (map jr_id (ar_rows ar))"
    and ds: "ds = take n (keyed_rows env side x after ar)" "ds \<noteq> []"
    and zero: "\<forall>r\<in>set (ar_rows ar). \<not> jv_keyed env side x (jr_value r) \<longrightarrow> g r = 0"
  shows "upto_cursor (jr_id (last ds)) (ar_rows ar) g
    = upto_cursor after (ar_rows ar) g + sum_list (map g ds)"
proof -
  let ?L = "ar_rows ar" and ?new = "jr_id (last ds)"
  have sub: "sorted_wrt (<) (map jr_id (keyed_rows env side x after ar))"
    using sorted by (simp add: keyed_rows_def sorted_wrt_map sorted_wrt_filter)
  have "last ds \<in> set (keyed_rows env side x after ar)"
    using ds by (metis in_set_takeD last_in_set)
  then have new: "after < ?new" by (simp add: keyed_rows_def)
  have D: "ds = filter (\<lambda>r. jr_id r \<le> ?new) (keyed_rows env side x after ar)"
    using sorted_take_filter[OF sub ds] by simp
  have "sum_list (map g ds) = (\<Sum>r\<leftarrow>?L. if jr_id r \<le> ?new \<and> after < jr_id r
      \<and> jv_keyed env side x (jr_value r) then g r else 0)"
    unfolding D[symmetric]
    by (subst D) (simp add: keyed_rows_def sum_list_filter conj_ac)
  also have "\<dots> = (\<Sum>r\<leftarrow>?L. if jr_id r \<le> ?new \<and> after < jr_id r then g r else 0)"
    using zero by (intro arg_cong[where f = sum_list] map_cong refl) auto
  finally have "upto_cursor after ?L g + sum_list (map g ds)
      = (\<Sum>r\<leftarrow>?L. (if jr_id r \<le> after then g r else 0)
          + (if jr_id r \<le> ?new \<and> after < jr_id r then g r else 0))"
    by (simp add: upto_cursor_def sum_list_filter sum_list_addf)
  also have "\<dots> = upto_cursor ?new ?L g"
    unfolding upto_cursor_def sum_list_filter
    using new by (intro arg_cong[where f = sum_list] map_cong refl) auto
  finally show ?thesis by simp
qed

lemma upto_cursor_all:
  assumes "\<forall>r\<in>set rs. c < jr_id r \<longrightarrow> g r = 0"
  shows "upto_cursor c rs g = sum_list (map g rs)"
  unfolding upto_cursor_def sum_list_filter
  using assms by (intro arg_cong[where f = sum_list] map_cong refl) auto

text \<open>The probe of a row copies what the arrangement stores.\<close>

definition probes :: "'a join_env \<Rightarrow> input_side \<Rightarrow> 'a \<Rightarrow> 'a join_row \<Rightarrow> candidate_probe \<Rightarrow> bool" where
  "probes env side x r c \<longleftrightarrow>
     cp_row_id c = jr_id r \<and> cp_multiplicity c = jr_multiplicity r \<and> cp_old c = jr_counts r
     \<and> cp_truth c = truth_from env side x (jr_value r)"

lemma probe_row_probes: "probe_row env side x w r = Inr c \<Longrightarrow> probes env side x r c"
  by (auto simp: probe_row_def probes_def Let_def res_simps)

lemma probe_candidates_Inr:
  assumes "probe_candidates env db p x b = Inr page"
  obtains n where
    "list_all2 (probes env (ipg_side p) x)
       (take n (keyed_rows env (ipg_side p) x (cursor p) (jd_arrangement db (opposite (ipg_side p)))))
       (pp_candidates page)"
    "pp_complete page \<longrightarrow> keyed_rows env (ipg_side p) x
       (if pp_candidates page = [] then cursor p else cp_row_id (last (pp_candidates page)))
       (jd_arrangement db (opposite (ipg_side p))) = []"
proof -
  let ?ar = "jd_arrangement db (opposite (ipg_side p))"
  define rows where "rows = bounded_rows (jv_row_bytes env) (max_input_bytes b) True 0
    (take (max_input_rows b) (keyed_rows env (ipg_side p) x (cursor p) ?ar))"
  obtain cs where cs: "traverse (probe_row env (ipg_side p) x (ipg_weight p)) rows = Inr cs"
      and page: "probe_page_new cs
        (keyed_rows env (ipg_side p) x (if rows = [] then cursor p else jr_id (last rows)) ?ar = []) = Inr page"
    using assms unfolding probe_candidates_def Let_def bind_res_Inr cursor_def[symmetric]
      rows_def[symmetric] by blast
  obtain m where m: "rows = take m (take (max_input_rows b) (keyed_rows env (ipg_side p) x (cursor p) ?ar))"
    using bounded_rows_prefix unfolding rows_def by metis
  have pg: "page = \<lparr>pp_candidates = cs, pp_complete =
      (keyed_rows env (ipg_side p) x (if rows = [] then cursor p else jr_id (last rows)) ?ar = [])\<rparr>"
    using page by (auto simp: probe_page_new_def res_simps split: if_splits)
  have all: "list_all2 (probes env (ipg_side p) x) rows cs"
    using cs unfolding traverse_Inr by (rule list_all2_mono) (rule probe_row_probes)
  moreover have "cs = [] \<longleftrightarrow> rows = []" using list_all2_lengthD[OF all] by auto
  moreover have "cp_row_id (last cs) = jr_id (last rows)" if "rows \<noteq> []"
  proof -
    have len: "length rows = length cs" by (rule list_all2_lengthD[OF all])
    then have "cs \<noteq> []" using that by auto
    have "probes env (ipg_side p) x (rows ! (length rows - 1)) (cs ! (length cs - 1))"
      using list_all2_nthD[OF all, of "length rows - 1"] that len \<open>cs \<noteq> []\<close> by simp
    then show ?thesis using that \<open>cs \<noteq> []\<close> by (simp add: last_conv_nth probes_def)
  qed
  ultimately show ?thesis
    using that[of "min m (max_input_rows b)"] m by (auto simp: pg take_take min.commute)
qed

section \<open>Actions and changes of completed candidates\<close>

text \<open>The part of an action in the weight of an output row.\<close>

definition action_part ::
    "'a join_db \<Rightarrow> input_side \<Rightarrow> 'a \<Rightarrow> 'a join_output \<Rightarrow> output_action \<Rightarrow> int" where
  "action_part db side x k a = (if action_row db side x a = Some k then oa_weight a else 0)"

lemma action_part_ignores [simp]: "ignores_bytes (action_part db side x k)"
  by (auto simp: ignores_bytes_def action_part_def action_row_def)

lemma append_actions_net:
  assumes "append_actions env db side x lsn as = Inr db'"
  shows "net (jd_output db') k = net (jd_output db) k + measured (action_part db side x k) as"
    and "db' = db\<lparr>jd_output := jd_output db', jd_latest_data := jd_latest_data db'\<rparr>"
proof -
  have part: "net rows k = measured (action_part db side x k) as"
    if "list_all2 (\<lambda>a y. action_output env db side x a = Inr y) as rows" for rows
    using that
    by (induction rule: list_all2_induct)
      (auto simp: action_output_def action_part_def res_simps split: if_splits)
  show "net (jd_output db') k = net (jd_output db) k + measured (action_part db side x k) as"
    using assms part by (auto simp: append_actions_def res_simps split: if_splits)
  show "db' = db\<lparr>jd_output := jd_output db', jd_latest_data := jd_latest_data db'\<rparr>"
    using assms by (auto simp: append_actions_def res_simps split: if_splits)
qed

lemma candidate_eligible_kept:
  "candidate_side_is_output mode s \<and> candidate_eligible mode c \<longleftrightarrow>
     kept mode s (int (mc_matched c)) (int (mc_unknown c))"
  by (cases mode) auto

lemma current_eligible_kept:
  "current_side_is_eligible mode s c \<longleftrightarrow> kept mode s (int (mc_matched c)) (int (mc_unknown c))"
  by (cases mode) auto

lemma classification_part:
  assumes row: "sorted_wrt (<) (map jr_id (ar_rows (jd_arrangement db (opposite side))))"
      "r \<in> set (ar_rows (jd_arrangement db (opposite side)))"
    and probe: "probes env side x r c" and cl: "classification (jv_mode env) side w c cl"
    and exact: "exact env T (opposite side) r"
  shows "measured (action_part db side x k) (cl_actions cl) = row_part env T side x w k r"
proof -
  let ?mode = "jv_mode env" and ?new = "ce_new (cl_expected cl)"
  obtain ps ts where as: "cl_actions cl = ps @ ts" "pair_list ?mode side w c ps"
      "transition_list ?mode side ?new c ts"
    using cl by (auto simp: classification_def)
  have find: "find (\<lambda>q. jr_id q = jr_id r) (ar_rows (jd_arrangement db (opposite side))) = Some r"
    by (rule find_by_id[OF row])
  have pairs: "measured (action_part db side x k) ps = pair_part env side x w k r"
    using as(2) probe find
    by (auto simp: pair_list_def pair_part_def probes_def action_part_def action_row_def
        split: if_splits)
  have "exact env (add_weight T side x w) (opposite side) (r\<lparr>jr_counts := ?new\<rparr>)"
    using cl probe by (intro exact_shifted[OF exact]) (auto simp: classification_def probes_def)
  then have new: "kept_in env (add_weight T side x w) (opposite side) (jr_value r) \<longleftrightarrow>
      candidate_side_is_output ?mode (opposite side) \<and> candidate_eligible ?mode ?new"
    by (simp add: kept_in_def exact_def candidate_eligible_kept)
  have old: "kept_in env T (opposite side) (jr_value r) \<longleftrightarrow>
      candidate_side_is_output ?mode (opposite side) \<and> candidate_eligible ?mode (cp_old c)"
    using exact probe by (simp add: kept_in_def exact_def candidate_eligible_kept probes_def)
  have "measured (action_part db side x k) ts = transition_part env T side x w k r"
    using as(3) probe find
    by (auto simp: transition_list_def transition_part_def new old probes_def action_part_def
        action_row_def split: if_splits)
  then show ?thesis using as(1) pairs by (simp add: row_part_def)
qed

lemma change_row_fields [simp]:
  "jr_id (change_row cs r) = jr_id r" "jr_value (change_row cs r) = jr_value r"
  "jr_multiplicity (change_row cs r) = jr_multiplicity r"
  by (simp_all add: change_row_def split: option.splits)

text \<open>The rows of the completed candidates get their new counts; the others keep theirs.\<close>

definition row_class ::
    "'a join_env \<Rightarrow> input_side \<Rightarrow> 'a \<Rightarrow> int \<Rightarrow> 'a join_row \<Rightarrow> classified \<Rightarrow> bool" where
  "row_class env side x w r cl \<longleftrightarrow>
     (\<exists>c. probes env side x r c \<and> classification (jv_mode env) side w c cl)"

lemma row_classD:
  assumes "row_class env side x w r cl"
  shows "ce_row_id (cl_expected cl) = jr_id r" "ce_multiplicity (cl_expected cl) = jr_multiplicity r"
    "ce_old (cl_expected cl) = jr_counts r"
    "shifted (jr_counts r) (truth_from env side x (jr_value r)) w (ce_new (cl_expected cl))"
  using assms by (auto simp: row_class_def probes_def classification_def)

lemma change_row_completed:
  assumes classes: "list_all2 (row_class env side x w) ds cls" and r: "r \<in> set ds"
    and inj: "\<And>q. q \<in> set ds \<Longrightarrow> jr_id q = jr_id r \<Longrightarrow> q = r"
  shows "\<exists>cl\<in>set cls. row_class env side x w r cl
    \<and> change_row (change_list cls) r = r\<lparr>jr_counts := ce_new (cl_expected cl)\<rparr>"
proof (cases "find (change_applies r) (change_list cls)")
  case (Some e)
  then have e: "e \<in> set (change_list cls)" "jr_id r = ce_row_id e"
    by (auto simp: find_Some_iff change_applies_def)
  then obtain cl where cl: "cl \<in> set cls" "e = cl_expected cl" by (auto simp: change_list_def)
  then obtain q where q: "q \<in> set ds" "row_class env side x w q cl"
    using classes by (metis in_set_conv_nth list_all2_conv_all_nth)
  then have "q = r" using inj e(2) cl(2) row_classD(1)[OF q(2)] by auto
  then show ?thesis using cl q Some by (auto simp: change_row_def)
next
  case None
  obtain cl where cl: "cl \<in> set cls" "row_class env side x w r cl"
    using classes r by (metis in_set_conv_nth list_all2_conv_all_nth)
  have "ce_old (cl_expected cl) = ce_new (cl_expected cl)"
  proof (rule ccontr)
    assume "ce_old (cl_expected cl) \<noteq> ce_new (cl_expected cl)"
    then have "cl_expected cl \<in> set (change_list cls)" using cl(1) by (auto simp: change_list_def)
    moreover have "change_applies r (cl_expected cl)"
      using row_classD[OF cl(2)] by (simp add: change_applies_def)
    ultimately show False using None by (auto simp: find_None_iff)
  qed
  then show ?thesis
    using cl row_classD(3)[OF cl(2)] None by (intro bexI[of _ cl]) (auto simp: change_row_def)
qed

lemma change_row_other:
  assumes "list_all2 (row_class env side x w) ds cls" "\<And>q. q \<in> set ds \<Longrightarrow> jr_id q \<noteq> jr_id r"
  shows "change_row (change_list cls) r = r"
proof -
  have "\<not> change_applies r e" if e: "e \<in> set (change_list cls)" for e
  proof -
    obtain cl where cl: "cl \<in> set cls" "e = cl_expected cl" using e by (auto simp: change_list_def)
    then obtain q where q: "q \<in> set ds" "row_class env side x w q cl"
      using assms(1) by (metis in_set_conv_nth list_all2_conv_all_nth)
    then show ?thesis
      using assms(2)[OF q(1)] row_classD(1)[OF q(2)] cl(2) by (auto simp: change_applies_def)
  qed
  then have "find (change_applies r) (change_list cls) = None" by (auto simp: find_None_iff)
  then show ?thesis by (simp add: change_row_def)
qed

section \<open>Inside an event\<close>

text \<open>
  With the row \<open>x\<close> of weight \<open>w\<close> of one side in progress: the stored counts below the cursor
  already include it, those above do not; the output is the view of the stored rows, the parts of
  the rows below the cursor and the pair of a pending candidate; the accumulated counts are the
  partners below the cursor.
\<close>

definition scanning ::
    "'a join_env \<Rightarrow> 'a join_db \<Rightarrow> 'a \<Rightarrow> input_progress \<Rightarrow> candidate_expectation option \<Rightarrow> bool" where
  "scanning env db x p pending \<longleftrightarrow>
     (let s = ipg_side p; w = ipg_weight p; T = arranged db;
          rows = ar_rows (jd_arrangement db (opposite s)) in
      (\<forall>t. arrangement_ok (jd_arrangement db t))
      \<and> (\<forall>r\<in>set (ar_rows (jd_arrangement db s)). exact env T s r)
      \<and> (\<forall>r\<in>set rows. exact env (if jr_id r \<le> cursor p then add_weight T s x w else T) (opposite s) r)
      \<and> (\<forall>t\<in>{MatchTrue, MatchUnknown}.
           int (if t = MatchTrue then mc_matched (ipg_counts p) else mc_unknown (ipg_counts p)) =
           upto_cursor (cursor p) rows
             (\<lambda>r. if truth_from env s x (jr_value r) = t then int (jr_multiplicity r) else 0))
      \<and> (\<forall>k. net (jd_output db) k = join_view env T k
           + upto_cursor (cursor p) rows (row_part env T s x w k)
           + pending_measure (action_part db s x k) s w pending))"

text \<open>The state after a page: arrangement changed, output appended, continuation replaced.\<close>

lemma plan_actions_Inr:
  assumes "plan_actions mode c e page b = Inr plan"
  obtains p pending st np completed where
    "probe_state c = Inr (p, pending)" "progress_validate_resume p e = Inr ()"
    "pp_candidates page = [] \<longrightarrow> pending = None"
    "plan_page mode b pending (pp_candidates page)
       \<lparr>pgp_progress = p, pgp_actions = [], pgp_changes = [], pgp_rows = 0, pgp_bytes = 0\<rparr>
       = Inr (st, np, completed)"
    "apl_actions plan = pgp_actions st" "apl_changes plan = pgp_changes st"
    "apl_next plan = (case np of Some cand \<Rightarrow> JPending (pgp_progress st) cand
       | None \<Rightarrow> if completed \<and> pp_complete page then JFinalize (pgp_progress st)
           else JProbe (pgp_progress st))"
proof -
  obtain p pending where ps: "probe_state c = Inr (p, pending)"
      and resume: "validate_input_resume c e = Inr ()"
      and order: "validate_probe_page_order p pending page = Inr ()"
      and rest: "\<exists>st np completed. plan_page mode b pending (pp_candidates page)
       \<lparr>pgp_progress = p, pgp_actions = [], pgp_changes = [], pgp_rows = 0, pgp_bytes = 0\<rparr>
       = Inr (st, np, completed) \<and> apl_actions plan = pgp_actions st
       \<and> apl_changes plan = pgp_changes st
       \<and> apl_next plan = (case np of Some cand \<Rightarrow> JPending (pgp_progress st) cand
           | None \<Rightarrow> if completed \<and> pp_complete page then JFinalize (pgp_progress st)
               else JProbe (pgp_progress st))"
    using assms unfolding plan_actions_def Let_def
    by (auto simp: bind_res_Inr split: option.splits)
  have "progress_validate_resume p e = Inr ()"
    using ps resume
    by (cases c) (auto simp: probe_state_def validate_input_resume_def)
  moreover have "pp_candidates page = [] \<longrightarrow> pending = None"
    using order by (auto simp: validate_probe_page_order_def split: if_splits)
  ultimately show ?thesis using that ps rest by blast
qed

end
