(* ===== verification/Join_Scan.thy ===== *)
theory Join_Scan
  imports Join_Invariant
begin

text \<open>
  A page of candidates preserves the invariant of the event in progress.
\<close>

section \<open>A page of candidates\<close>

lemma list_all2_compose:
  assumes "list_all2 P xs ys" "list_all2 Q ys zs"
  shows "list_all2 (\<lambda>x z. \<exists>y. P x y \<and> Q y z) xs zs"
  using list_all2_trans[of P Q "\<lambda>x z. \<exists>y. P x y \<and> Q y z", OF _ assms] by blast

lemma list_all2_take_append:
  assumes "list_all2 P xs (ys @ zs)"
  shows "list_all2 P (take (length ys) xs) ys"
  using assms by (auto simp: list_all2_append2 dest: list_all2_lengthD)

lemma truth_total_rows:
  assumes "list_all2 (probes env s x) rs cs"
  shows "int (truth_total t cs)
    = (\<Sum>r\<leftarrow>rs. if truth_from env s x (jr_value r) = t then int (jr_multiplicity r) else 0)"
  using assms by (induction rule: list_all2_induct) (auto simp: probes_def)

text \<open>What a planned page does to the arrangement it probes, for the rows it completes.\<close>

lemma completed_rows:
  fixes env :: "'a join_env" and db :: "'a join_db"
  assumes probed: "list_all2 (probes env s x)
      (take n (keyed_rows env s x c (jd_arrangement db (opposite s)))) cands"
    and plan: "plan_page mode b pending cands
      \<lparr>pgp_progress = p, pgp_actions = [], pgp_changes = [], pgp_rows = 0, pgp_bytes = 0\<rparr>
      = Inr (st, np, completed)" "cands = [] \<longrightarrow> pending = None"
    and mode: "mode = jv_mode env" "s = ipg_side p" "c = cursor p"
  obtains ds cls m where
    "ds = take m (keyed_rows env s x c (jd_arrangement db (opposite s)))"
    "list_all2 (row_class env s x (ipg_weight p)) ds cls"
    "pgp_changes st = change_list cls"
    "\<And>f. ignores_bytes f \<Longrightarrow> measured f (pgp_actions st) + pending_measure f s (ipg_weight p) pending
       = (\<Sum>cl\<leftarrow>cls. measured f (cl_actions cl)) + pending_measure f s (ipg_weight p) np"
    "pgp_progress st = p\<lparr>ipg_after := ipg_after (pgp_progress st), ipg_counts := ipg_counts (pgp_progress st)\<rparr>"
    "cursor (pgp_progress st) = (if ds = [] then c else jr_id (last ds))"
    "\<And>t. t \<in> {MatchTrue, MatchUnknown} \<Longrightarrow>
       int (if t = MatchTrue then mc_matched (ipg_counts (pgp_progress st)) else mc_unknown (ipg_counts (pgp_progress st)))
       = int (if t = MatchTrue then mc_matched (ipg_counts p) else mc_unknown (ipg_counts p))
         + (\<Sum>r\<leftarrow>ds. if truth_from env s x (jr_value r) = t then int (jr_multiplicity r) else 0)"
    "completed \<Longrightarrow> np = None \<and> (if cands = [] then c else cp_row_id (last cands)) = cursor (pgp_progress st)"
proof -
  let ?keyed = "keyed_rows env s x c (jd_arrangement db (opposite s))"
  let ?st0 = "\<lparr>pgp_progress = p, pgp_actions = [], pgp_changes = [], pgp_rows = 0, pgp_bytes = 0\<rparr>"
  obtain dc rest cls where done_page: "page_done mode pending cands ?st0 st np completed dc rest cls"
    using plan_page_done[OF plan(1)] plan(2) by blast
  then have cands: "cands = dc @ rest" and classes: "list_all2 (classification mode s (ipg_weight p)) dc cls"
      and adv: "advanced p dc (pgp_progress st)"
    using mode by (auto simp: page_done_def Let_def)
  define ds where "ds = take (length dc) (take n ?keyed)"
  have probes: "list_all2 (probes env s x) ds dc"
    unfolding ds_def by (rule list_all2_take_append) (use probed cands in simp)
  have empty: "ds = [] \<longleftrightarrow> dc = []" using list_all2_lengthD[OF probes] by auto
  have last: "cp_row_id (last dc) = jr_id (last ds)" if "ds \<noteq> []"
  proof -
    have "length ds = length dc" by (rule list_all2_lengthD[OF probes])
    then show ?thesis
      using list_all2_nthD[OF probes, of "length ds - 1"] that empty
      by (simp add: last_conv_nth probes_def)
  qed
  show ?thesis
  proof (rule that[of ds "min (length dc) n" cls])
    show "ds = take (min (length dc) n) ?keyed" by (simp add: ds_def take_take)
    show "list_all2 (row_class env s x (ipg_weight p)) ds cls"
      unfolding row_class_def using list_all2_compose[OF probes classes] mode(1) by simp
    show "pgp_changes st = change_list cls"
      using done_page by (simp add: page_done_def Let_def)
    show "measured f (pgp_actions st) + pending_measure f s (ipg_weight p) pending
       = (\<Sum>cl\<leftarrow>cls. measured f (cl_actions cl)) + pending_measure f s (ipg_weight p) np"
      if "ignores_bytes f" for f
      using done_page that mode by (simp add: page_done_def Let_def)
    show "pgp_progress st = p\<lparr>ipg_after := ipg_after (pgp_progress st),
        ipg_counts := ipg_counts (pgp_progress st)\<rparr>"
      using adv unfolding advanced_def by (metis input_progress.ext_inject input_progress.surjective
        input_progress.update_convs(6) input_progress.update_convs(7))
    show "cursor (pgp_progress st) = (if ds = [] then c else jr_id (last ds))"
      using adv mode(3) empty last by (auto simp: advanced_def cursor_def)
    show "int (if t = MatchTrue then mc_matched (ipg_counts (pgp_progress st))
          else mc_unknown (ipg_counts (pgp_progress st)))
       = int (if t = MatchTrue then mc_matched (ipg_counts p) else mc_unknown (ipg_counts p))
         + (\<Sum>r\<leftarrow>ds. if truth_from env s x (jr_value r) = t then int (jr_multiplicity r) else 0)"
      if "t \<in> {MatchTrue, MatchUnknown}" for t
      using adv that truth_total_rows[OF probes, of t] by (auto simp: advanced_def)
    show "np = None \<and> (if cands = [] then c else cp_row_id (last cands)) = cursor (pgp_progress st)"
      if completed
    proof -
      have "rest = []" "np = None" using done_page that by (simp_all add: page_done_def Let_def)
      then show ?thesis
        using adv mode(3) cands by (auto simp: advanced_def cursor_def)
    qed
  qed
qed

lemma row_part_unkeyed:
  assumes "keys_sound env" "\<not> jv_keyed env s x (jr_value r)"
  shows "row_part env T s x w k r = 0"
  using assms by (intro row_part_false) (simp add: keys_sound_def)

lemma arranged_map_counts:
  assumes "\<And>t. \<exists>f. (\<forall>r. jr_value (f r) = jr_value r \<and> jr_multiplicity (f r) = jr_multiplicity r)
      \<and> ar_rows (jd_arrangement db' t) = map f (ar_rows (jd_arrangement db t))"
  shows "arranged db' = arranged db"
proof (intro ext)
  fix t P
  obtain f where "\<forall>r. jr_value (f r) = jr_value r \<and> jr_multiplicity (f r) = jr_multiplicity r"
      "ar_rows (jd_arrangement db' t) = map f (ar_rows (jd_arrangement db t))"
    using assms by blast
  then show "arranged db' t P = arranged db t P"
    by (simp add: arranged_def row_total_map_counts)
qed

lemma arrangement_ok_change:
  "arrangement_ok ar \<Longrightarrow> arrangement_ok (ar\<lparr>ar_rows := map (change_row cs) (ar_rows ar)\<rparr>)"
  by (simp add: arrangement_ok_def comp_def)

lemma find_map_change:
  "find (\<lambda>r. jr_id r = i) (map (change_row cs) rs)
     = map_option (change_row cs) (find (\<lambda>r. jr_id r = i) rs)"
  by (induction rs) auto

lemma apply_candidate_changes_Inr:
  "apply_candidate_changes ar cs = Inr (ar', m) \<Longrightarrow>
     ar' = ar\<lparr>ar_rows := map (change_row cs) (ar_rows ar)\<rparr>"
  by (auto simp: apply_candidate_changes_def Let_def split: if_splits)

lemma action_part_change:
  assumes "jd_arrangement db' (opposite s)
      = (jd_arrangement db (opposite s))\<lparr>ar_rows := map (change_row cs) (ar_rows (jd_arrangement db (opposite s)))\<rparr>"
  shows "action_part db' s x k = action_part db s x k"
  by (rule ext) (simp add: action_part_def action_row_def assms find_map_change option.map_comp comp_def)

lemma upto_cursor_map_change:
  assumes "\<And>r. g (change_row cs r) = g r"
  shows "upto_cursor c (map (change_row cs) rs) g = upto_cursor c rs g"
  using assms by (simp add: upto_cursor_def filter_map comp_def)

lemma row_part_change [simp]:
  "row_part env T s x w k (change_row cs r) = row_part env T s x w k r"
  by (simp add: row_part_def pair_part_def transition_part_def)

lemma scanning_page:
  fixes env :: "'a join_env" and db db1 db' :: "'a join_db"
  assumes sound: "keys_sound env" and inv: "scanning env db x p pending"
    and probed: "list_all2 (probes env (ipg_side p) x)
      (take n (keyed_rows env (ipg_side p) x (cursor p) (jd_arrangement db (opposite (ipg_side p))))) cands"
    and plan: "plan_page (jv_mode env) b pending cands
      \<lparr>pgp_progress = p, pgp_actions = [], pgp_changes = [], pgp_rows = 0, pgp_bytes = 0\<rparr>
      = Inr (st, np, completed)" "cands = [] \<longrightarrow> pending = None"
    and out: "\<And>k. net (jd_output db') k = net (jd_output db) k
      + measured (action_part db (ipg_side p) x k) (pgp_actions st)"
    and ar: "jd_arrangement db' = (jd_arrangement db)(opposite (ipg_side p) :=
      (jd_arrangement db (opposite (ipg_side p)))\<lparr>ar_rows :=
         map (change_row (pgp_changes st)) (ar_rows (jd_arrangement db (opposite (ipg_side p))))\<rparr>)"
  shows "scanning env db' x (pgp_progress st) np" and "arranged db' = arranged db"
    and "pgp_progress st = p\<lparr>ipg_after := ipg_after (pgp_progress st), ipg_counts := ipg_counts (pgp_progress st)\<rparr>"
    and "completed \<Longrightarrow> np = None \<and>
      (if cands = [] then cursor p else cp_row_id (last cands)) = cursor (pgp_progress st)"
proof -
  define s where "s = ipg_side p"
  define w where "w = ipg_weight p"
  let ?rows = "ar_rows (jd_arrangement db (opposite s))" and ?q = "pgp_progress st"
  let ?T = "arranged db"
  obtain ds cls m where
      ds: "ds = take m (keyed_rows env s x (cursor p) (jd_arrangement db (opposite s)))"
      and classes: "list_all2 (row_class env s x w) ds cls"
      and changes: "pgp_changes st = change_list cls"
      and acts: "\<And>f. ignores_bytes f \<Longrightarrow> measured f (pgp_actions st) + pending_measure f s w pending
        = (\<Sum>cl\<leftarrow>cls. measured f (cl_actions cl)) + pending_measure f s w np"
      and q: "?q = p\<lparr>ipg_after := ipg_after ?q, ipg_counts := ipg_counts ?q\<rparr>"
      and cur: "cursor ?q = (if ds = [] then cursor p else jr_id (last ds))"
      and counts: "\<And>t. t \<in> {MatchTrue, MatchUnknown} \<Longrightarrow>
        int (if t = MatchTrue then mc_matched (ipg_counts ?q) else mc_unknown (ipg_counts ?q))
        = int (if t = MatchTrue then mc_matched (ipg_counts p) else mc_unknown (ipg_counts p))
          + (\<Sum>r\<leftarrow>ds. if truth_from env s x (jr_value r) = t then int (jr_multiplicity r) else 0)"
      and fin: "completed \<Longrightarrow> np = None \<and> (if cands = [] then cursor p else cp_row_id (last cands)) = cursor ?q"
    by (rule completed_rows[OF probed plan refl refl refl, folded s_def w_def]; rule that; assumption)
  show "pgp_progress st = p\<lparr>ipg_after := ipg_after (pgp_progress st), ipg_counts := ipg_counts (pgp_progress st)\<rparr>"
    by (rule q)
  show "completed \<Longrightarrow> np = None \<and>
      (if cands = [] then cursor p else cp_row_id (last cands)) = cursor (pgp_progress st)"
    by (rule fin)
  have same: "ipg_side ?q = s" "ipg_weight ?q = w"
    using arg_cong[OF q, of ipg_side] arg_cong[OF q, of ipg_weight] by (simp_all add: s_def w_def)
  have ok: "arrangement_ok (jd_arrangement db t)" for t
    using inv by (simp add: scanning_def Let_def)
  then have sorted: "sorted_wrt (<) (map jr_id ?rows)" by (simp add: arrangement_ok_def)
  have own: "\<forall>r\<in>set (ar_rows (jd_arrangement db s)). exact env ?T s r"
    and opp: "\<forall>r\<in>set ?rows. exact env (if jr_id r \<le> cursor p then add_weight ?T s x w else ?T) (opposite s) r"
    and cnt: "\<forall>t\<in>{MatchTrue, MatchUnknown}.
           int (if t = MatchTrue then mc_matched (ipg_counts p) else mc_unknown (ipg_counts p)) =
           upto_cursor (cursor p) ?rows
             (\<lambda>r. if truth_from env s x (jr_value r) = t then int (jr_multiplicity r) else 0)"
    and net0: "\<And>k. net (jd_output db) k = join_view env ?T k
           + upto_cursor (cursor p) ?rows (row_part env ?T s x w k)
           + pending_measure (action_part db s x k) s w pending"
    using inv unfolding scanning_def Let_def s_def[symmetric] w_def[symmetric] by blast+
  have in_ds: "r \<in> set ?rows \<and> cursor p < jr_id r \<and> jv_keyed env s x (jr_value r)" if "r \<in> set ds" for r
    using that ds by (auto simp: keyed_rows_def dest: in_set_takeD)
  have page_sum: "upto_cursor (cursor ?q) ?rows g = upto_cursor (cursor p) ?rows g + sum_list (map g ds)"
    if "\<forall>r\<in>set ?rows. \<not> jv_keyed env s x (jr_value r) \<longrightarrow> g r = 0" for g
  proof (cases "ds = []")
    case True
    then show ?thesis by (simp add: cur)
  next
    case False
    show ?thesis using upto_cursor_page[OF sorted ds False that] False by (simp add: cur)
  qed
  have le: "cursor p \<le> cursor ?q"
    using cur in_ds by (cases "ds = []") (auto dest: last_in_set intro: less_imp_le)
  have arr': "jd_arrangement db' (opposite s) = (jd_arrangement db (opposite s))\<lparr>ar_rows := map (change_row (pgp_changes st)) ?rows\<rparr>"
      "jd_arrangement db' s = jd_arrangement db s"
    by (simp_all add: ar s_def)
  have T': "arranged db' = ?T"
  proof (rule arranged_map_counts)
    fix t
    show "\<exists>f. (\<forall>r. jr_value (f r) = jr_value r \<and> jr_multiplicity (f r) = jr_multiplicity r)
      \<and> ar_rows (jd_arrangement db' t) = map f (ar_rows (jd_arrangement db t))"
    proof (cases "t = opposite s")
      case True
      then show ?thesis using arr' by (intro exI[of _ "change_row (pgp_changes st)"]) simp
    next
      case False
      then have "t = s" by (cases t; cases s) simp_all
      then show ?thesis using arr' by (intro exI[of _ id]) simp
    qed
  qed
  show "arranged db' = arranged db" by (rule T')
  have exact': "exact env (if jr_id r \<le> cursor ?q then add_weight ?T s x w else ?T) (opposite s)
      (change_row (pgp_changes st) r)" if r: "r \<in> set ?rows" for r
  proof (cases "r \<in> set ds")
    case True
    have "\<And>q. q \<in> set ds \<Longrightarrow> jr_id q = jr_id r \<Longrightarrow> q = r"
      using sorted_ids_inj[OF sorted] in_ds True by metis
    then obtain cl where cl: "row_class env s x w r cl"
        "change_row (pgp_changes st) r = r\<lparr>jr_counts := ce_new (cl_expected cl)\<rparr>"
      using change_row_completed[OF classes True] changes by auto
    have "exact env ?T (opposite s) r"
      using opp r in_ds[OF True] by force
    then have "exact env (add_weight ?T s x w) (opposite s) (change_row (pgp_changes st) r)"
      unfolding cl(2) by (rule exact_shifted[OF _ row_classD(4)[OF cl(1)]])
    moreover have "jr_id r \<le> cursor ?q"
    proof -
      have "ds \<noteq> []" using True by auto
      have "filter (\<lambda>x. jr_id x \<le> jr_id (last ds)) (keyed_rows env s x (cursor p) (jd_arrangement db (opposite s))) = ds"
        using sorted by (intro sorted_take_filter[OF _ ds \<open>ds \<noteq> []\<close>])
          (simp add: keyed_rows_def sorted_wrt_map sorted_wrt_filter)
      then have "jr_id r \<le> jr_id (last ds)" using True by (metis (no_types, lifting) mem_Collect_eq set_filter)
      then show ?thesis using cur \<open>ds \<noteq> []\<close> by simp
    qed
    ultimately show ?thesis by simp
  next
    case False
    have keep: "change_row (pgp_changes st) r = r"
      unfolding changes using False sorted_ids_inj[OF sorted] in_ds r
      by (intro change_row_other[OF classes]) metis
    show ?thesis
    proof (cases "jr_id r \<le> cursor p \<or> cursor ?q < jr_id r")
      case True
      then show ?thesis using opp r le keep by force
    next
      case between: False
      have "\<not> jv_keyed env s x (jr_value r)"
      proof
        assume "jv_keyed env s x (jr_value r)"
        then have "r \<in> set (keyed_rows env s x (cursor p) (jd_arrangement db (opposite s)))"
          using r between by (simp add: keyed_rows_def)
        moreover have "ds \<noteq> []" using between cur by auto
        moreover have "filter (\<lambda>x. jr_id x \<le> jr_id (last ds)) (keyed_rows env s x (cursor p) (jd_arrangement db (opposite s))) = ds"
          using sorted by (intro sorted_take_filter[OF _ ds \<open>ds \<noteq> []\<close>])
            (simp add: keyed_rows_def sorted_wrt_map sorted_wrt_filter)
        moreover have "jr_id r \<le> jr_id (last ds)" using between cur calculation(2) by auto
        ultimately show False using False by (metis (no_types, lifting) mem_Collect_eq set_filter)
      qed
      then have "truth_from env s x (jr_value r) = MatchFalse" using sound by (simp add: keys_sound_def)
      then show ?thesis
        using opp r between keep by (auto simp: exact_add_weight_false)
    qed
  qed
  have act: "measured (action_part db s x k) (cl_actions cl) = row_part env ?T s x w k r"
    if memb: "r \<in> set ds" and rc: "row_class env s x w r cl" for r cl k
  proof -
    obtain c where "probes env s x r c" "classification (jv_mode env) s w c cl"
      using rc by (auto simp: row_class_def)
    moreover have "exact env ?T (opposite s) r" using opp in_ds[OF memb] by force
    ultimately show ?thesis using classification_part[OF sorted] in_ds[OF memb] by blast
  qed
  have parts: "(\<Sum>cl\<leftarrow>cls. measured (action_part db s x k) (cl_actions cl))
      = sum_list (map (row_part env ?T s x w k) ds)" for k
  proof -
    have "list_all2 (\<lambda>r cl. measured (action_part db s x k) (cl_actions cl) = row_part env ?T s x w k r) ds cls"
      by (rule list.rel_mono_strong[OF classes]) (rule act)
    then show ?thesis by (induction rule: list_all2_induct) simp_all
  qed
  have net': "net (jd_output db') k = join_view env ?T k
      + upto_cursor (cursor ?q) ?rows (row_part env ?T s x w k)
      + pending_measure (action_part db s x k) s w np" for k
  proof -
    have "upto_cursor (cursor ?q) ?rows (row_part env ?T s x w k)
        = upto_cursor (cursor p) ?rows (row_part env ?T s x w k)
          + sum_list (map (row_part env ?T s x w k) ds)"
      by (intro page_sum ballI impI row_part_unkeyed[OF sound])
    then show ?thesis
      using out[of k] net0[of k] acts[of "action_part db s x k"] parts[of k] by (simp add: s_def)
  qed
  have cnt': "int (if t = MatchTrue then mc_matched (ipg_counts ?q) else mc_unknown (ipg_counts ?q))
      = upto_cursor (cursor ?q) ?rows
          (\<lambda>r. if truth_from env s x (jr_value r) = t then int (jr_multiplicity r) else 0)"
    if t: "t \<in> {MatchTrue, MatchUnknown}" for t
  proof -
    have "upto_cursor (cursor ?q) ?rows
          (\<lambda>r. if truth_from env s x (jr_value r) = t then int (jr_multiplicity r) else 0)
        = upto_cursor (cursor p) ?rows
          (\<lambda>r. if truth_from env s x (jr_value r) = t then int (jr_multiplicity r) else 0)
        + (\<Sum>r\<leftarrow>ds. if truth_from env s x (jr_value r) = t then int (jr_multiplicity r) else 0)"
      using sound t by (intro page_sum) (auto simp: keys_sound_def)
    then show ?thesis using counts[OF t] bspec[OF cnt t] by linarith
  qed
  show "scanning env db' x ?q np"
    unfolding scanning_def Let_def same T' arr' action_part_change[OF arr'(1)]
  proof (intro conjI allI ballI)
    show "arrangement_ok (jd_arrangement db' t)" for t
      using ok arrangement_ok_change by (cases "t = opposite s") (auto simp: ar s_def)
  next
    fix t :: match_truth
    assume "t \<in> {MatchTrue, MatchUnknown}"
    then show "int (if t = MatchTrue then mc_matched (ipg_counts ?q) else mc_unknown (ipg_counts ?q)) =
        upto_cursor (cursor ?q) (ar_rows ((jd_arrangement db (opposite s))\<lparr>ar_rows := map (change_row (pgp_changes st)) ?rows\<rparr>))
          (\<lambda>r. if truth_from env s x (jr_value r) = t then int (jr_multiplicity r) else 0)"
      using cnt' by (simp add: upto_cursor_map_change)
  next
    show "net (jd_output db') k = join_view env ?T k
        + upto_cursor (cursor ?q) (ar_rows ((jd_arrangement db (opposite s))\<lparr>ar_rows := map (change_row (pgp_changes st)) ?rows\<rparr>))
            (row_part env ?T s x w k)
        + pending_measure (action_part db s x k) s w np" for k
      using net'[of k] by (simp add: upto_cursor_map_change)
  next
    fix r'
    assume "r' \<in> set (ar_rows ((jd_arrangement db (opposite s))
        \<lparr>ar_rows := map (change_row (pgp_changes st)) ?rows\<rparr>))"
    then obtain r where r: "r \<in> set ?rows" "r' = change_row (pgp_changes st) r" by auto
    show "exact env (if jr_id r' \<le> cursor ?q then add_weight ?T s x w else ?T) (opposite s) r'"
      unfolding r(2) change_row_fields by (rule exact'[OF r(1)])
  qed (use own in blast)
qed

end
