(* ===== verification/Join_Refinement.thy ===== *)
theory Join_Refinement
  imports Join_Scan
begin

text \<open>
  The join maintains its view: after any committed transitions, at the boundary of two events,
  the appended rows add up to the view of the consumed rows of both inputs.
\<close>

section \<open>The change of the own row\<close>

lemma unique_row_split:
  assumes "arrangement_ok ar" "r0 \<in> set (ar_rows ar)"
  obtains as bs where "ar_rows ar = as @ r0 # bs" "\<forall>r\<in>set (as @ bs). jr_id r \<noteq> jr_id r0"
proof -
  obtain as bs where rows: "ar_rows ar = as @ r0 # bs" using assms(2) by (meson split_list)
  have "distinct (map jr_id (ar_rows ar))"
    using assms(1) by (simp add: arrangement_ok_def strict_sorted_iff)
  then have "jr_id r0 \<notin> jr_id ` set as" "jr_id r0 \<notin> jr_id ` set bs" by (simp_all add: rows)
  then have "\<forall>r\<in>set (as @ bs). jr_id r \<noteq> jr_id r0" by (metis Un_iff imageI set_append)
  then show ?thesis using that rows by blast
qed

lemma arrangement_ok_parts:
  assumes "arrangement_ok \<lparr>ar_rows = as @ r0 # bs, ar_next_id = n\<rparr>"
  shows "arrangement_ok \<lparr>ar_rows = as @ bs, ar_next_id = n\<rparr>"
    and "arrangement_ok \<lparr>ar_rows = as @ r0\<lparr>jr_multiplicity := m\<rparr> # bs, ar_next_id = n\<rparr>"
  using assms by (auto simp: arrangement_ok_def sorted_wrt_append)

lemma own_change_ok:
  fixes ar ar' :: "'a arrangement"
  assumes ok: "arrangement_ok ar"
    and own: "filter (\<lambda>r. jr_value r = x) (ar_rows ar) = [] \<and> rid = None \<and> old = 0
      \<or> (\<exists>r. filter (\<lambda>r. jr_value r = x) (ar_rows ar) = [r] \<and> rid = Some (jr_id r)
            \<and> old = jr_multiplicity r \<and> counts = jr_counts r)"
    and new: "int new = int old + w" and kind: "own_change_kind_of rid new = Inr kind"
    and app: "apply_own_change ar x
      \<lparr>oc_kind = kind, oc_row_id = rid, oc_old = old, oc_new = new, oc_counts = counts\<rparr> = Inr ar'"
  shows "arrangement_ok ar'"
    and "row_total (ar_rows ar') P = row_total (ar_rows ar) P + (if P x then w else 0)"
    and "\<forall>r\<in>set (ar_rows ar'). (\<exists>r0\<in>set (ar_rows ar). jr_value r = jr_value r0 \<and> jr_counts r = jr_counts r0)
      \<or> jr_value r = x \<and> jr_counts r = counts"
proof -
  let ?c = "\<lparr>oc_kind = kind, oc_row_id = rid, oc_old = old, oc_new = new, oc_counts = counts\<rparr>"
  have "arrangement_ok ar' \<and> row_total (ar_rows ar') P = row_total (ar_rows ar) P + (if P x then w else 0)
    \<and> (\<forall>r\<in>set (ar_rows ar'). (\<exists>r0\<in>set (ar_rows ar). jr_value r = jr_value r0 \<and> jr_counts r = jr_counts r0)
      \<or> jr_value r = x \<and> jr_counts r = counts)"
  proof (cases rid)
    case None
    then have old: "old = 0" and fresh: "\<forall>r\<in>set (ar_rows ar). jr_value r \<noteq> x"
      using own by (auto simp: filter_empty_conv)
    have "kind = OwnInsert" using kind None by (simp add: own_change_kind_of_def split: if_splits)
    then have ar': "ar' = \<lparr>ar_rows = ar_rows ar @ [\<lparr>jr_id = ar_next_id ar, jr_value = x,
          jr_multiplicity = new, jr_counts = counts\<rparr>], ar_next_id = ar_next_id ar + 1\<rparr>"
      using app by (simp add: apply_own_change_def split: if_splits)
    have "0 < ar_next_id ar" using ok by (simp add: arrangement_ok_def)
    moreover have "x \<notin> jr_value ` set (ar_rows ar)" using fresh by (metis imageE)
    ultimately have "arrangement_ok ar'"
      using ok unfolding ar' by (auto simp: arrangement_ok_def sorted_wrt_append)
    then show ?thesis using old new unfolding ar' by auto
  next
    case (Some i)
    then obtain r0 where flt: "filter (\<lambda>r. jr_value r = x) (ar_rows ar) = [r0]"
        and r0: "i = jr_id r0" "old = jr_multiplicity r0" "counts = jr_counts r0"
      using own by auto
    have "r0 \<in> set (filter (\<lambda>r. jr_value r = x) (ar_rows ar))" by (simp add: flt)
    then have mem: "r0 \<in> set (ar_rows ar)" and val: "jr_value r0 = x" by auto
    obtain as bs where rows: "ar_rows ar = as @ r0 # bs" "\<forall>r\<in>set (as @ bs). jr_id r \<noteq> jr_id r0"
      by (rule unique_row_split[OF ok mem])
    have hit: "own_matches ?c r0" using Some r0 by (simp add: own_matches_def)
    have miss: "\<not> own_matches ?c r" if "r \<in> set (as @ bs)" for r
      using that rows(2) Some r0(1) by (auto simp: own_matches_def)
    have ar: "ar = \<lparr>ar_rows = as @ r0 # bs, ar_next_id = ar_next_id ar\<rparr>" using rows(1) by simp
    show ?thesis
    proof (cases "new = 0")
      case True
      then have "kind = OwnDelete" using kind Some by (simp add: own_change_kind_of_def)
      then have "ar' = ar\<lparr>ar_rows := filter (\<lambda>r. \<not> own_matches ?c r) (ar_rows ar)\<rparr>"
        using app by (simp add: apply_own_change_def split: if_splits)
      moreover have "filter (\<lambda>r. \<not> own_matches ?c r) (ar_rows ar) = as @ bs"
        using hit miss by (simp add: rows(1) filter_id_conv)
      ultimately have ar': "ar' = \<lparr>ar_rows = as @ bs, ar_next_id = ar_next_id ar\<rparr>"
        by (cases ar) simp
      have "arrangement_ok ar'" using arrangement_ok_parts(1) ok ar unfolding ar' by metis
      then show ?thesis using new True r0(2) val unfolding ar' by (auto simp: rows(1))
    next
      case False
      then have "kind = OwnUpdate" using kind Some by (simp add: own_change_kind_of_def)
      then have "ar' = ar\<lparr>ar_rows := map (\<lambda>r. if own_matches ?c r then r\<lparr>jr_multiplicity := new\<rparr> else r) (ar_rows ar)\<rparr>"
        using app by (simp add: apply_own_change_def split: if_splits cong: if_cong)
      moreover have "map (\<lambda>r. if own_matches ?c r then r\<lparr>jr_multiplicity := new\<rparr> else r) (ar_rows ar)
          = as @ r0\<lparr>jr_multiplicity := new\<rparr> # bs"
        using hit miss by (simp add: rows(1) map_idI)
      ultimately have ar': "ar' = \<lparr>ar_rows = as @ r0\<lparr>jr_multiplicity := new\<rparr> # bs, ar_next_id = ar_next_id ar\<rparr>"
        by (cases ar) simp
      have "arrangement_ok ar'" using arrangement_ok_parts(2) ok ar unfolding ar' by metis
      then show ?thesis
        using new r0(2) val unfolding ar' by (auto simp: rows(1))
    qed
  qed
  then show "arrangement_ok ar'"
    and "row_total (ar_rows ar') P = row_total (ar_rows ar) P + (if P x then w else 0)"
    and "\<forall>r\<in>set (ar_rows ar'). (\<exists>r0\<in>set (ar_rows ar). jr_value r = jr_value r0 \<and> jr_counts r = jr_counts r0)
      \<or> jr_value r = x \<and> jr_counts r = counts" by auto
qed


section \<open>The rows an event leaves behind\<close>

definition chunk_rows :: "'a join_env \<Rightarrow> input_side \<Rightarrow> int \<Rightarrow> 'a join_effect list" where
  "chunk_rows env s n = (case jv_chunks env s n of None \<Rightarrow> [] | Some ch \<Rightarrow> jc_effects ch)"

fun continuation_positions :: "join_continuation \<Rightarrow> input_positions" where
  "continuation_positions (JPreflight ps _) = ps"
| "continuation_positions (JProbe p) = ipg_positions p"
| "continuation_positions (JPending p _) = ipg_positions p"
| "continuation_positions (JFinalize p) = ipg_positions p"
| "continuation_positions (JFrontier fc) = fc_positions fc"

definition row_ordinal :: "'a join_db \<Rightarrow> input_side \<Rightarrow> nat" where
  "row_ordinal db s = (case jd_continuation db of None \<Rightarrow> 0
     | Some c \<Rightarrow> nat (ip_row_ordinal (position_of_side (continuation_positions c) s)))"

text \<open>The rows of one input that are consumed: whole chunks, and a prefix of the current one.\<close>

definition join_consumed :: "'a join_env \<Rightarrow> 'a join_db \<Rightarrow> input_side \<Rightarrow> 'a join_effect list" where
  "join_consumed env db s =
     concat (map (chunk_rows env s) [1..jd_next_chunk db s - 1])
     @ take (row_ordinal db s) (chunk_rows env s (jd_next_chunk db s))"

definition accounted :: "'a join_env \<Rightarrow> 'a join_db \<Rightarrow> bool" where
  "accounted env db \<longleftrightarrow>
     (\<forall>s. 1 \<le> jd_next_chunk db s \<and> arranged db s = weight_of (join_consumed env db s))"

definition settled :: "'a join_env \<Rightarrow> 'a join_db \<Rightarrow> bool" where
  "settled env db \<longleftrightarrow>
     (\<forall>s. arrangement_ok (jd_arrangement db s))
     \<and> (\<forall>s. \<forall>r\<in>set (ar_rows (jd_arrangement db s)). exact env (arranged db) s r)
     \<and> (\<forall>k. net (jd_output db) k = join_view env (arranged db) k)"

text \<open>The row in progress, read again by every transaction.\<close>

definition event_row :: "'a join_env \<Rightarrow> 'a join_db \<Rightarrow> input_side \<Rightarrow> 'a join_effect" where
  "event_row env db s = chunk_rows env s (jd_next_chunk db s) ! row_ordinal db s"

definition in_event ::
    "'a join_env \<Rightarrow> 'a join_db \<Rightarrow> input_progress \<Rightarrow> candidate_expectation option \<Rightarrow> bool" where
  "in_event env db p pending \<longleftrightarrow>
     ipg_weight p = je_weight (event_row env db (ipg_side p))
     \<and> scanning env db (je_value (event_row env db (ipg_side p))) p pending"

definition scanned_all :: "'a join_env \<Rightarrow> 'a join_db \<Rightarrow> input_progress \<Rightarrow> bool" where
  "scanned_all env db p \<longleftrightarrow>
     (\<forall>r\<in>set (ar_rows (jd_arrangement db (opposite (ipg_side p)))). cursor p < jr_id r \<longrightarrow>
        \<not> jv_keyed env (ipg_side p) (je_value (event_row env db (ipg_side p))) (jr_value r))"

fun phase_ok :: "'a join_env \<Rightarrow> 'a join_db \<Rightarrow> join_continuation option \<Rightarrow> bool" where
  "phase_ok env db (Some (JProbe p)) = in_event env db p None"
| "phase_ok env db (Some (JPending p cand)) = in_event env db p (Some cand)"
| "phase_ok env db (Some (JFinalize p)) = (in_event env db p None \<and> scanned_all env db p)"
| "phase_ok env db _ = settled env db"

definition join_invariant :: "'a join_env \<Rightarrow> 'a join_db \<Rightarrow> bool" where
  "join_invariant env db \<longleftrightarrow> accounted env db \<and> phase_ok env db (jd_continuation db)"

section \<open>Reading the event\<close>

lemma load_event_Inr:
  assumes "load_event env db ps side = Inr (e, value, ch)" "jd_continuation db = Some c"
    "continuation_positions c = ps"
  shows "jv_chunks env side (jd_next_chunk db side) = Some ch"
    and "row_ordinal db side < length (jc_effects ch)"
    and "0 \<le> ip_row_ordinal (position_of_side ps side)"
    and "ip_row_ordinal (position_of_side ps (opposite side)) = 0"
    and "value = je_value (event_row env db side)"
    and "ev_weight e = je_weight (event_row env db side)" "ev_side e = side" "ev_positions e = ps"
proof -
  let ?p = "position_of_side ps side"
  have pos: "validate_positions_for_side db ps side = Inr ()"
      and ch: "jv_chunks env side (ip_chunk_seq ?p) = Some ch"
      and ord: "0 \<le> ip_row_ordinal ?p" "ip_row_ordinal ?p < int (length (jc_effects ch))"
      and val: "value = je_value (jc_effects ch ! nat (ip_row_ordinal ?p))"
      and e: "ev_weight e = je_weight (jc_effects ch ! nat (ip_row_ordinal ?p))" "ev_side e = side" "ev_positions e = ps"
    using assms(1) by (auto simp: load_event_def Let_def res_simps event_new_def split: if_splits)
  have seq: "ip_chunk_seq ?p = jd_next_chunk db side"
      and other: "ip_row_ordinal (position_of_side ps (opposite side)) = 0"
    using pos by (cases side; auto simp: validate_positions_for_side_def Let_def res_simps split: if_splits)+
  have ro: "row_ordinal db side = nat (ip_row_ordinal ?p)" using assms(2,3) by (simp add: row_ordinal_def)
  have er: "event_row env db side = jc_effects ch ! nat (ip_row_ordinal ?p)"
    using ch seq by (simp add: event_row_def chunk_rows_def ro)
  show "jv_chunks env side (jd_next_chunk db side) = Some ch" using ch seq by simp
  show "row_ordinal db side < length (jc_effects ch)" using ord by (simp add: ro)
  show "0 \<le> ip_row_ordinal (position_of_side ps side)" by (rule ord(1))
  show "ip_row_ordinal (position_of_side ps (opposite side)) = 0" by (rule other)
  show "value = je_value (event_row env db side)" using val er by simp
  show "ev_weight e = je_weight (event_row env db side)" "ev_side e = side" "ev_positions e = ps"
    using e er by simp_all
qed

section \<open>Selection, preflight and frontier\<close>

text \<open>Facts that do not look at the continuation.\<close>

lemma settled_cong:
  assumes "jd_arrangement db' = jd_arrangement db" "jd_output db' = jd_output db"
  shows "settled env db' = settled env db" "arranged db' = arranged db"
proof -
  show T: "arranged db' = arranged db" by (intro ext) (simp add: arranged_def assms(1))
  show "settled env db' = settled env db" by (simp add: settled_def T assms)
qed

lemma open_next_input_invariant:
  fixes env :: "'a join_env"
  assumes inv: "join_invariant env db" "jd_continuation db = None"
    and step: "open_next_input env db = Inr db'"
  shows "join_invariant env db'"
proof -
  obtain c where db': "db' = db\<lparr>jd_continuation := Some c\<rparr>"
      and c: "\<And>s. ip_row_ordinal (position_of_side (continuation_positions c) s) = 0"
      and ph: "phase_ok env db' (Some c) = settled env db'"
  proof -
    obtain side and head :: "'a join_chunk" and ps c where ps: "consumer_positions db = Inr ps"
        and c: "(case jc_kind head of JoinData \<Rightarrow> start_preflight ps side
          | JoinFrontierChunk \<Rightarrow> bind_res (frontier_input_new side ps (jc_lsn head)) start_frontier) = Inr c"
        and db': "db' = db\<lparr>jd_continuation := Some c\<rparr>"
      using step unfolding open_next_input_def Let_def bind_res_Inr split_paired_Ex prod.case sum.inject
      by (elim exE conjE) (rule that, assumption, assumption, rule sym, assumption)
    have zero: "ip_row_ordinal (position_of_side ps s) = 0" for s
      using ps by (cases s) (auto simp: consumer_positions_def input_position_new_def positions_new_def
        res_simps split: if_splits)
    show ?thesis
    proof (rule that[OF db'])
      show "ip_row_ordinal (position_of_side (continuation_positions c) s) = 0" for s
        using c zero[of s] by (auto simp: start_preflight_def start_frontier_def frontier_input_new_def
          frontier_from_facts_def Let_def res_simps split: chunk_content.splits)
      show "phase_ok env db' (Some c) = settled env db'"
        using c by (auto simp: start_preflight_def start_frontier_def res_simps split: chunk_content.splits)
    qed
  qed
  have "settled env db' = settled env db" "arranged db' = arranged db"
    by (rule settled_cong; simp add: db')+
  moreover have "join_consumed env db' = join_consumed env db"
    using inv(2) c by (intro ext) (simp add: db' join_consumed_def row_ordinal_def)
  ultimately show ?thesis
    using inv ph by (simp add: join_invariant_def accounted_def db')
qed

lemma scanning_start:
  assumes settled: "settled env db" and p: "ipg_after p = None" "ipg_counts p = counts_default"
  shows "scanning env db x p None"
proof -
  have ids: "\<not> jr_id r \<le> 0" if "r \<in> set (ar_rows (jd_arrangement db t))" for r t
    using settled that by (force simp: settled_def arrangement_ok_def)
  have zero: "upto_cursor 0 (ar_rows (jd_arrangement db t)) g = 0" for t g
    using ids by (simp add: upto_cursor_def filter_empty_conv)
  have cur: "cursor p = 0" by (simp add: cursor_def p(1))
  have "exact env (arranged db) t r" if "r \<in> set (ar_rows (jd_arrangement db t))" for r t
    using settled that by (simp add: settled_def)
  moreover have "exact env (if jr_id r \<le> 0 then T else arranged db) t r"
    if "r \<in> set (ar_rows (jd_arrangement db t))" for r t T
    using calculation[OF that] ids[OF that] by simp
  ultimately show ?thesis
    using settled unfolding scanning_def Let_def cur zero
    by (auto simp: settled_def p(2) counts_default_def pending_measure_def)
qed


lemma accounted_cong:
  assumes "accounted env db" "arranged db' = arranged db" "jd_next_chunk db' = jd_next_chunk db"
    "\<And>s. row_ordinal db' s = row_ordinal db s"
  shows "accounted env db'"
  using assms by (simp add: accounted_def join_consumed_def)

lemma step_preflight_invariant:
  assumes inv: "join_invariant env db" "jd_continuation db = Some (JPreflight ps side)"
    and step: "step_preflight env db ps side = Inr db'"
  shows "join_invariant env db'"
proof -
  obtain e val ch own where load: "load_event env db ps side = Inr (e, val, ch)"
      and next_c: "start_input e own = Inr (JProbe (progress_from_event e own))"
      and db': "db' = db\<lparr>jd_continuation := Some (JProbe (progress_from_event e own))\<rparr>"
    using step by (auto simp: step_preflight_def start_input_def res_simps)
  note ev = load_event_Inr[OF load inv(2) continuation_positions.simps(1)]
  let ?p = "progress_from_event e own"
  have same: "settled env db' = settled env db" "arranged db' = arranged db"
    by (rule settled_cong; simp add: db')+
  have ord: "row_ordinal db' s = row_ordinal db s" for s
    using ev(8) inv(2) by (simp add: row_ordinal_def db' progress_from_event_def)
  have row: "event_row env db' s = event_row env db s" for s
    using ord by (simp add: event_row_def db')
  have "in_event env db' ?p None"
    using scanning_start[of env db' ?p] same inv ev(6,7)
    by (simp add: in_event_def row join_invariant_def progress_from_event_def)
  then show ?thesis
    using accounted_cong[of env db db'] inv(1) same(2) ord by (simp add: join_invariant_def db')
qed

section \<open>A page of candidates\<close>

lemma step_candidates_invariant:
  fixes env :: "'a join_env" and db db' :: "'a join_db"
  assumes sound: "keys_sound env" and inv: "join_invariant env db" "jd_continuation db = Some c"
    and c: "c = JProbe p \<or> c = JPending p cand"
    and step: "step_candidates env db c b = Inr db'"
  shows "join_invariant env db'"
proof -
  let ?s = "ipg_side p" and ?ar = "jd_arrangement db (opposite (ipg_side p))"
  have cp: "continuation_progress c = Some p" "continuation_positions c = ipg_positions p"
    using c by auto
  obtain e val ch page plan db1 ar changed where
      load: "load_event env db (ipg_positions p) ?s = Inr (e, val, ch)"
      and probe: "probe_candidates env db p val b = Inr page"
      and plan: "plan_actions (jv_mode env) c e page b = Inr plan"
      and out: "append_actions env db (ev_side e) val (jc_lsn ch) (apl_actions plan) = Inr db1"
      and app: "apply_candidate_changes (jd_arrangement db1 (opposite (ev_side e))) (apl_changes plan) = Inr (ar, changed)"
      and db': "db' = (set_arrangement db1 (opposite (ev_side e)) ar)\<lparr>jd_continuation := Some (apl_next plan)\<rparr>"
    using step cp unfolding step_candidates_def by (auto simp: res_simps)
  note ev = load_event_Inr[OF load inv(2) cp(2)]
  define x where "x = je_value (event_row env db ?s)"
  have val: "val = x" by (simp add: x_def ev(5))
  obtain n where probed: "list_all2 (probes env ?s x) (take n (keyed_rows env ?s x (cursor p) ?ar)) (pp_candidates page)"
      and complete: "pp_complete page \<longrightarrow> keyed_rows env ?s x
       (if pp_candidates page = [] then cursor p else cp_row_id (last (pp_candidates page))) ?ar = []"
    using probe_candidates_Inr[OF probe[unfolded val]] by metis
  obtain p0 pending st np completed where ps: "probe_state c = Inr (p0, pending)"
      and nonempty: "pp_candidates page = [] \<longrightarrow> pending = None"
      and pg: "plan_page (jv_mode env) b pending (pp_candidates page)
       \<lparr>pgp_progress = p0, pgp_actions = [], pgp_changes = [], pgp_rows = 0, pgp_bytes = 0\<rparr>
       = Inr (st, np, completed)"
      and acts: "apl_actions plan = pgp_actions st" "apl_changes plan = pgp_changes st"
      and nxt: "apl_next plan = (case np of Some cand \<Rightarrow> JPending (pgp_progress st) cand
       | None \<Rightarrow> if completed \<and> pp_complete page then JFinalize (pgp_progress st)
           else JProbe (pgp_progress st))"
    by (rule plan_actions_Inr[OF plan])
  have p0: "p0 = p" and pend: "pending = (case c of JPending _ cd \<Rightarrow> Some cd | _ \<Rightarrow> None)"
    using ps c by (auto simp: probe_state_def)
  have event: "ipg_weight p = je_weight (event_row env db ?s)" "scanning env db x p pending"
    using inv c pend by (auto simp: join_invariant_def in_event_def x_def)
  note db1 = append_actions_net[OF out]
  have arr1: "jd_arrangement db1 = jd_arrangement db" "jd_next_chunk db1 = jd_next_chunk db"
    using arg_cong[OF db1(2), of jd_arrangement] arg_cong[OF db1(2), of jd_next_chunk] by simp_all
  have arr: "jd_arrangement db' = (jd_arrangement db)(opposite ?s :=
      ?ar\<lparr>ar_rows := map (change_row (pgp_changes st)) (ar_rows ?ar)\<rparr>)"
    using apply_candidate_changes_Inr[OF app] by (simp add: db' set_arrangement_def arr1 ev(7) acts)
  have net': "net (jd_output db') k = net (jd_output db) k + measured (action_part db ?s x k) (pgp_actions st)" for k
    using db1(1)[of k] by (simp add: db' set_arrangement_def ev(7) val acts)
  note page = scanning_page[OF sound event(2) probed pg[unfolded p0] nonempty net' arr]
  let ?q = "pgp_progress st"
  have q: "ipg_positions ?q = ipg_positions p" "ipg_side ?q = ?s" "ipg_weight ?q = ipg_weight p"
    using arg_cong[OF page(3), of ipg_positions] arg_cong[OF page(3), of ipg_side]
      arg_cong[OF page(3), of ipg_weight] by simp_all
  have cont: "jd_continuation db' = Some (apl_next plan)" by (simp add: db')
  have pos: "continuation_positions (apl_next plan) = ipg_positions p"
    by (simp add: nxt q split: option.splits)
  have chunk: "jd_next_chunk db' = jd_next_chunk db" by (simp add: db' set_arrangement_def arr1)
  have ord: "row_ordinal db' s = row_ordinal db s" for s
    by (simp add: row_ordinal_def cont pos inv(2) cp(2))
  have row: "event_row env db' s = event_row env db s" for s
    using ord by (simp add: event_row_def chunk)
  have inside: "in_event env db' ?q np"
    using page(1) event(1) by (simp add: in_event_def row q x_def)
  have "scanned_all env db' ?q" if "completed" "pp_complete page"
  proof -
    have "keyed_rows env ?s x (cursor ?q) ?ar = []" using complete page(4) that by auto
    then have "\<forall>r\<in>set (ar_rows ?ar). cursor ?q < jr_id r \<longrightarrow> \<not> jv_keyed env ?s x (jr_value r)"
      by (simp add: keyed_rows_def filter_empty_conv)
    then show ?thesis by (simp add: scanned_all_def q row arr x_def)
  qed
  then have "phase_ok env db' (jd_continuation db')"
    using inside by (auto simp: cont nxt split: option.splits)
  moreover have "accounted env db'"
    using accounted_cong[OF _ page(2) chunk ord] inv(1) by (simp add: join_invariant_def)
  ultimately show ?thesis by (simp add: join_invariant_def)
qed


section \<open>The end of an event\<close>

text \<open>The facts of a finished event, whatever the next position.\<close>

lemma plan_finalize_Inr:
  assumes "plan_finalize mode c e probe b = Inr plan" "c = JFinalize p"
    "probe = (case oe_row_id own of None \<Rightarrow> OwnAbsent bytes
      | Some row_id \<Rightarrow> OwnPresent row_id (oe_multiplicity own) (oe_counts own) bytes)"
  obtains kind new where
    "fpl_change plan = \<lparr>oc_kind = kind, oc_row_id = oe_row_id own,
       oc_old = (if oe_row_id own = None then 0 else oe_multiplicity own), oc_new = new, oc_counts = ipg_counts p\<rparr>"
    "int new = int (if oe_row_id own = None then 0 else oe_multiplicity own) + ipg_weight p"
    "own_change_kind_of (oe_row_id own) new = Inr kind"
    "oe_row_id own \<noteq> None \<Longrightarrow> oe_counts own = ipg_counts p"
    "fpl_output plan = (if current_side_is_eligible mode (ipg_side p) (ipg_counts p)
       then Some \<lparr>oa_kind = ActCurrent, oa_side = ipg_side p, oa_candidate = None,
              oa_weight = ipg_weight p, oa_bytes = bytes\<rparr> else None)"
  using assms unfolding plan_finalize_def Let_def
  by (cases "oe_row_id own") (auto simp: res_simps split: if_splits)

lemma load_own_Inr:
  assumes "load_own_expectation db e x = Inr own" "ev_side e = s"
  shows "filter (\<lambda>r. jr_value r = x) (ar_rows (jd_arrangement db s)) = [] \<and> oe_row_id own = None
    \<or> (\<exists>r. filter (\<lambda>r. jr_value r = x) (ar_rows (jd_arrangement db s)) = [r]
          \<and> oe_row_id own = Some (jr_id r) \<and> oe_multiplicity own = jr_multiplicity r
          \<and> oe_counts own = jr_counts r)"
  using assms
  by (auto simp: load_own_expectation_def res_simps own_present_def own_absent_def Let_def
      split: list.splits)

lemma finished_event:
  fixes env :: "'a join_env" and db db' :: "'a join_db"
  assumes sound: "keys_sound env" and inside: "in_event env db p None" "scanned_all env db p"
    and x: "x = je_value (event_row env db (ipg_side p))"
    and ok: "arrangement_ok ar'"
    and total: "\<And>P. row_total (ar_rows ar') P = row_total (ar_rows (jd_arrangement db (ipg_side p))) P
        + (if P x then ipg_weight p else 0)"
    and rows: "\<forall>r\<in>set (ar_rows ar').
        (\<exists>r0\<in>set (ar_rows (jd_arrangement db (ipg_side p))). jr_value r = jr_value r0 \<and> jr_counts r = jr_counts r0)
        \<or> jr_value r = x \<and> jr_counts r = ipg_counts p"
    and arr: "jd_arrangement db' = (jd_arrangement db)(ipg_side p := ar')"
    and out: "\<And>k. net (jd_output db') k = net (jd_output db) k
        + (if k = oriented (ipg_side p) (Some x) None
             \<and> current_side_is_eligible (jv_mode env) (ipg_side p) (ipg_counts p) then ipg_weight p else 0)"
  shows "settled env db'" "arranged db' = add_weight (arranged db) (ipg_side p) x (ipg_weight p)"
proof -
  define s where "s = ipg_side p"
  define w where "w = ipg_weight p"
  let ?T = "arranged db" and ?opp = "ar_rows (jd_arrangement db (opposite s))"
  have scan: "scanning env db x p None" using inside(1) by (simp add: in_event_def x)
  note facts = scan[unfolded scanning_def Let_def, folded s_def w_def]
  have oks: "arrangement_ok (jd_arrangement db t)" for t using facts by blast
  have own: "exact env ?T s r" if "r \<in> set (ar_rows (jd_arrangement db s))" for r
    using facts that by blast
  have opp: "exact env (if jr_id r \<le> cursor p then add_weight ?T s x w else ?T) (opposite s) r"
    if "r \<in> set ?opp" for r using facts that by blast
  have cnt: "int (if t = MatchTrue then mc_matched (ipg_counts p) else mc_unknown (ipg_counts p)) =
      upto_cursor (cursor p) ?opp (\<lambda>r. if truth_from env s x (jr_value r) = t then int (jr_multiplicity r) else 0)"
    if "t \<in> {MatchTrue, MatchUnknown}" for t using facts that by blast
  have net0: "net (jd_output db) k = join_view env ?T k
      + upto_cursor (cursor p) ?opp (row_part env ?T s x w k)" for k
  proof -
    have "net (jd_output db) k = join_view env ?T k
        + upto_cursor (cursor p) ?opp (row_part env ?T s x w k)
        + pending_measure (action_part db s x k) s w None" using facts by blast
    then show ?thesis by (simp add: pending_measure_def)
  qed
  have rest: "truth_from env s x (jr_value r) = MatchFalse" if "r \<in> set ?opp" "cursor p < jr_id r" for r
  proof -
    have "\<not> jv_keyed env s x (jr_value r)" using inside(2) that by (simp add: scanned_all_def x s_def)
    then show ?thesis using sound by (simp add: keys_sound_def)
  qed
  have all: "upto_cursor (cursor p) ?opp g = sum_list (map g ?opp)"
    if "\<And>r. truth_from env s x (jr_value r) = MatchFalse \<Longrightarrow> g r = 0" for g
    using rest that by (intro upto_cursor_all) blast
  have counts: "int (if t = MatchTrue then mc_matched (ipg_counts p) else mc_unknown (ipg_counts p))
      = partners env ?T s x t" if t: "t \<in> {MatchTrue, MatchUnknown}" for t
  proof -
    have "upto_cursor (cursor p) ?opp (\<lambda>r. if truth_from env s x (jr_value r) = t then int (jr_multiplicity r) else 0)
        = row_total ?opp (\<lambda>v. truth_from env s x v = t)"
      unfolding row_total_def using t by (subst all) auto
    then show ?thesis using cnt[OF t] by (simp add: partners_def arranged_def)
  qed
  have matched: "int (mc_matched (ipg_counts p)) = partners env ?T s x MatchTrue"
      "int (mc_unknown (ipg_counts p)) = partners env ?T s x MatchUnknown"
    using counts[of MatchTrue] counts[of MatchUnknown] by simp_all
  have T': "arranged db' = add_weight ?T s x w"
    by (intro ext) (simp add: arranged_def arr add_weight_def total s_def w_def)
  have exact': "exact env (arranged db') t r" if r: "r \<in> set (ar_rows (jd_arrangement db' t))" for t r
  proof (cases "t = s")
    case True
    then have "r \<in> set (ar_rows ar')" using r by (simp add: arr s_def)
    then consider r0 where "r0 \<in> set (ar_rows (jd_arrangement db s))" "jr_value r = jr_value r0" "jr_counts r = jr_counts r0"
      | "jr_value r = x" "jr_counts r = ipg_counts p" using rows s_def by blast
    then have "exact env ?T s r"
    proof cases
      case 1
      then show ?thesis using own[of r0] by (simp add: exact_def)
    next
      case 2
      then show ?thesis using matched by (simp add: exact_def)
    qed
    then show ?thesis by (simp add: T' True)
  next
    case False
    then have t: "t = opposite s" by (cases t; cases s) simp_all
    then have r: "r \<in> set ?opp" using r False by (simp add: arr s_def)
    show ?thesis
    proof (cases "jr_id r \<le> cursor p")
      case True
      then show ?thesis using opp[OF r] by (simp add: T' t)
    next
      case False
      then show ?thesis using opp[OF r] exact_add_weight_false[OF rest[OF r]] by (simp add: T' t)
    qed
  qed
  have view: "net (jd_output db') k = join_view env (arranged db') k" for k
  proof -
    have elig: "current_side_is_eligible (jv_mode env) s (ipg_counts p) = kept_in env ?T s x"
      by (simp add: current_eligible_kept kept_in_def matched)
    have "join_view env (add_weight ?T s x w) k = join_view env ?T k
        + (\<Sum>r\<leftarrow>?opp. row_part env ?T s x w k r) + (if k = oriented s (Some x) None \<and> kept_in env ?T s x then w else 0)"
      by (rule join_view_change) (simp add: arranged_def)
    moreover have "upto_cursor (cursor p) ?opp (row_part env ?T s x w k) = (\<Sum>r\<leftarrow>?opp. row_part env ?T s x w k r)"
      by (rule all) (rule row_part_false)
    ultimately show ?thesis
      using out[of k] net0[of k] elig by (simp add: T' s_def[symmetric] w_def[symmetric])
  qed
  show "arranged db' = add_weight (arranged db) (ipg_side p) x (ipg_weight p)"
    using T' by (simp add: s_def w_def)
  show "settled env db'"
    unfolding settled_def
  proof (intro conjI allI)
    show "arrangement_ok (jd_arrangement db' t)" for t using oks ok by (simp add: arr)
  qed (use exact' view in blast)+
qed


text \<open>The consumed rows when the current row is finished.\<close>

lemma take_Suc_event:
  assumes "jv_chunks env s (jd_next_chunk db s) = Some ch" "row_ordinal db s < length (jc_effects ch)"
  shows "take (Suc (row_ordinal db s)) (chunk_rows env s (jd_next_chunk db s))
    = take (row_ordinal db s) (chunk_rows env s (jd_next_chunk db s)) @ [event_row env db s]"
  using assms by (simp add: chunk_rows_def event_row_def take_Suc_conv_app_nth)

lemma accounted_advance:
  fixes env :: "'a join_env" and db db' :: "'a join_db"
  assumes acc: "accounted env db" and T: "arranged db' = add_weight (arranged db) s
      (je_value (event_row env db s)) (je_weight (event_row env db s))"
    and ch: "jv_chunks env s (jd_next_chunk db s) = Some ch" "row_ordinal db s < length (jc_effects ch)"
    and other: "jd_next_chunk db' (opposite s) = jd_next_chunk db (opposite s)"
      "row_ordinal db' (opposite s) = row_ordinal db (opposite s)"
    and here: "jd_next_chunk db' s = jd_next_chunk db s \<and> row_ordinal db' s = Suc (row_ordinal db s)
      \<or> jd_next_chunk db' s = jd_next_chunk db s + 1 \<and> row_ordinal db' s = 0
        \<and> Suc (row_ordinal db s) = length (jc_effects ch)"
  shows "accounted env db'"
  unfolding accounted_def
proof (intro allI conjI)
  fix t
  have t: "t = s \<or> t = opposite s" by (cases t; cases s) simp_all
  show "1 \<le> jd_next_chunk db' t"
    using acc[unfolded accounted_def, rule_format, of t] t other here by (elim disjE) simp_all
  have start: "1 \<le> jd_next_chunk db s" using acc by (simp add: accounted_def)
  have "join_consumed env db' s = join_consumed env db s @ [event_row env db s]"
    using here
  proof
    assume "jd_next_chunk db' s = jd_next_chunk db s \<and> row_ordinal db' s = Suc (row_ordinal db s)"
    then show ?thesis using take_Suc_event[OF ch] by (simp add: join_consumed_def)
  next
    assume h: "jd_next_chunk db' s = jd_next_chunk db s + 1 \<and> row_ordinal db' s = 0
        \<and> Suc (row_ordinal db s) = length (jc_effects ch)"
    have "take (Suc (row_ordinal db s)) (chunk_rows env s (jd_next_chunk db s)) = chunk_rows env s (jd_next_chunk db s)"
      using h ch by (simp add: chunk_rows_def)
    then have "join_consumed env db s @ [event_row env db s]
        = concat (map (chunk_rows env s) ([1..jd_next_chunk db s - 1] @ [jd_next_chunk db s]))"
      using take_Suc_event[OF ch] by (simp add: join_consumed_def)
    also have "[1..jd_next_chunk db s - 1] @ [jd_next_chunk db s] = [1..jd_next_chunk db s]"
      using start by (simp add: upto_rec2)
    finally show ?thesis using h by (simp add: join_consumed_def)
  qed
  moreover have "join_consumed env db' (opposite s) = join_consumed env db (opposite s)"
    using other by (simp add: join_consumed_def)
  ultimately show "arranged db' t = weight_of (join_consumed env db' t)"
    using acc t by (auto simp: accounted_def T add_weight_def)
qed

lemma step_finalize_Inr:
  fixes env :: "'a join_env" and db db' :: "'a join_db"
  assumes "step_finalize env db (JFinalize p) b = Inr db'"
  obtains e val own plan db1 ar and ch :: "'a join_chunk" where
    "load_event env db (ipg_positions p) (ipg_side p) = Inr (e, val, ch)"
    "load_own_expectation db e val = Inr own"
    "plan_finalize (jv_mode env) (JFinalize p) e (case oe_row_id own of
         None \<Rightarrow> OwnAbsent (if current_side_is_eligible (jv_mode env) (ipg_side p) (ipg_counts p)
             then jv_output_bytes env (oriented (ipg_side p) (Some val) None) else 1)
       | Some row_id \<Rightarrow> OwnPresent row_id (oe_multiplicity own) (oe_counts own)
           (if current_side_is_eligible (jv_mode env) (ipg_side p) (ipg_counts p)
             then jv_output_bytes env (oriented (ipg_side p) (Some val) None) else 1)) b = Inr plan"
    "append_actions env db (ipg_side p) val (jc_lsn ch)
       (case fpl_output plan of None \<Rightarrow> [] | Some a \<Rightarrow> [a]) = Inr db1"
    "apply_own_change (jd_arrangement db1 (ipg_side p)) val (fpl_change plan) = Inr ar"
    "ip_row_ordinal (position_of_side (ipg_positions p) (ipg_side p)) + 1 < int (length (jc_effects ch))
       \<and> db' = (set_arrangement db1 (ipg_side p) ar)\<lparr>jd_continuation := Some (JPreflight
           (next_position (ipg_positions p) (ipg_side p)
              (ip_row_ordinal (position_of_side (ipg_positions p) (ipg_side p)) + 1)) (ipg_side p))\<rparr>
     \<or> ip_row_ordinal (position_of_side (ipg_positions p) (ipg_side p)) + 1 = int (length (jc_effects ch))
       \<and> db' = (set_arrangement db1 (ipg_side p) ar)\<lparr>jd_next_chunk :=
           (jd_next_chunk (set_arrangement db1 (ipg_side p) ar))(ipg_side p := jd_next_chunk db (ipg_side p) + 1),
           jd_continuation := None\<rparr>"
proof -
  obtain e val ch own where load: "load_event env db (ipg_positions p) (ipg_side p) = Inr (e, val, ch)"
      and own: "load_own_expectation db e val = Inr own"
    using assms by (auto simp: step_finalize_def Let_def bind_res_Inr)
  show ?thesis
    using assms load own unfolding step_finalize_def Let_def
    by (auto simp: bind_res_Inr checked_add_i64_def start_preflight_def res_simps split: if_splits
        intro!: that[OF load own])
qed

lemma position_next [simp]:
  "ip_row_ordinal (position_of_side (next_position ps s n) t)
     = (if t = s then n else ip_row_ordinal (position_of_side ps t))"
  by (cases s; cases t) (simp_all add: next_position_def)

lemma step_finalize_invariant:
  fixes env :: "'a join_env" and db db' :: "'a join_db"
  assumes sound: "keys_sound env" and inv: "join_invariant env db" "jd_continuation db = Some (JFinalize p)"
    and step: "step_finalize env db (JFinalize p) b = Inr db'"
  shows "join_invariant env db'"
proof -
  let ?s = "ipg_side p"
  define ord where "ord = ip_row_ordinal (position_of_side (ipg_positions p) ?s)"
  obtain e val own plan db1 ar and ch :: "'a join_chunk" where
      load: "load_event env db (ipg_positions p) ?s = Inr (e, val, ch)"
      and own: "load_own_expectation db e val = Inr own"
      and plan: "plan_finalize (jv_mode env) (JFinalize p) e (case oe_row_id own of
         None \<Rightarrow> OwnAbsent (if current_side_is_eligible (jv_mode env) (ipg_side p) (ipg_counts p)
             then jv_output_bytes env (oriented (ipg_side p) (Some val) None) else 1)
       | Some row_id \<Rightarrow> OwnPresent row_id (oe_multiplicity own) (oe_counts own)
           (if current_side_is_eligible (jv_mode env) (ipg_side p) (ipg_counts p)
             then jv_output_bytes env (oriented (ipg_side p) (Some val) None) else 1)) b = Inr plan"
      and out: "append_actions env db ?s val (jc_lsn ch)
         (case fpl_output plan of None \<Rightarrow> [] | Some a \<Rightarrow> [a]) = Inr db1"
      and app: "apply_own_change (jd_arrangement db1 ?s) val (fpl_change plan) = Inr ar"
      and next_db: "ord + 1 < int (length (jc_effects ch))
           \<and> db' = (set_arrangement db1 ?s ar)\<lparr>jd_continuation :=
               Some (JPreflight (next_position (ipg_positions p) ?s (ord + 1)) ?s)\<rparr>
         \<or> ord + 1 = int (length (jc_effects ch))
           \<and> db' = (set_arrangement db1 ?s ar)\<lparr>jd_next_chunk :=
               (jd_next_chunk (set_arrangement db1 ?s ar))(?s := jd_next_chunk db ?s + 1),
               jd_continuation := None\<rparr>"
    unfolding ord_def by (rule step_finalize_Inr[OF step])
  note ev = load_event_Inr[OF load inv(2) continuation_positions.simps(4)]
  have inside: "in_event env db p None" "scanned_all env db p" and acc: "accounted env db"
    using inv by (simp_all add: join_invariant_def)
  have weight: "ipg_weight p = je_weight (event_row env db ?s)" using inside(1) by (simp add: in_event_def)
  obtain kind new where change: "fpl_change plan = \<lparr>oc_kind = kind, oc_row_id = oe_row_id own,
       oc_old = (if oe_row_id own = None then 0 else oe_multiplicity own), oc_new = new, oc_counts = ipg_counts p\<rparr>"
      and new: "int new = int (if oe_row_id own = None then 0 else oe_multiplicity own) + ipg_weight p"
      and kind: "own_change_kind_of (oe_row_id own) new = Inr kind"
      and counts: "oe_row_id own \<noteq> None \<Longrightarrow> oe_counts own = ipg_counts p"
      and action: "fpl_output plan = (if current_side_is_eligible (jv_mode env) ?s (ipg_counts p)
       then Some \<lparr>oa_kind = ActCurrent, oa_side = ?s, oa_candidate = None, oa_weight = ipg_weight p,
         oa_bytes = (if current_side_is_eligible (jv_mode env) (ipg_side p) (ipg_counts p)
             then jv_output_bytes env (oriented (ipg_side p) (Some val) None) else 1)\<rparr> else None)"
    by (rule plan_finalize_Inr[OF plan refl refl]; rule that; assumption)
  note db1 = append_actions_net[OF out]
  have arr1: "jd_arrangement db1 = jd_arrangement db" "jd_next_chunk db1 = jd_next_chunk db"
    using arg_cong[OF db1(2), of jd_arrangement] arg_cong[OF db1(2), of jd_next_chunk] by simp_all
  have ok: "arrangement_ok (jd_arrangement db ?s)"
    using inside(1) by (simp add: in_event_def scanning_def Let_def)
  have present: "filter (\<lambda>r. jr_value r = val) (ar_rows (jd_arrangement db ?s)) = [] \<and> oe_row_id own = None
        \<and> (if oe_row_id own = None then 0 else oe_multiplicity own) = 0
      \<or> (\<exists>r. filter (\<lambda>r. jr_value r = val) (ar_rows (jd_arrangement db ?s)) = [r]
          \<and> oe_row_id own = Some (jr_id r)
          \<and> (if oe_row_id own = None then 0 else oe_multiplicity own) = jr_multiplicity r
          \<and> ipg_counts p = jr_counts r)"
    using load_own_Inr[OF own ev(7)] counts by auto
  note own_ok = own_change_ok[OF ok present new kind app[unfolded arr1 change]]
  have arr: "jd_arrangement db' = (jd_arrangement db)(?s := ar)"
      and outs: "jd_output db' = jd_output db1"
    using next_db by (auto simp: set_arrangement_def arr1)
  have net': "net (jd_output db') k = net (jd_output db) k
      + (if k = oriented ?s (Some val) None \<and> current_side_is_eligible (jv_mode env) ?s (ipg_counts p)
         then ipg_weight p else 0)" for k
    using db1(1)[of k] by (auto simp: outs action action_part_def action_row_def)
  have settled: "settled env db'" and T: "arranged db' = add_weight (arranged db) ?s val (ipg_weight p)"
    using finished_event[OF sound inside ev(5) own_ok arr net'] by blast+
  have "accounted env db'"
  proof (rule accounted_advance[OF acc _ ev(1,2)])
    show "arranged db' = add_weight (arranged db) ?s (je_value (event_row env db ?s)) (je_weight (event_row env db ?s))"
      using T by (simp add: ev(5) weight)
    show "jd_next_chunk db' (opposite ?s) = jd_next_chunk db (opposite ?s)"
      using next_db by (auto simp: set_arrangement_def arr1)
    show "row_ordinal db' (opposite ?s) = row_ordinal db (opposite ?s)"
      using next_db ev(4) by (auto simp: row_ordinal_def inv(2) set_arrangement_def)
    show "jd_next_chunk db' ?s = jd_next_chunk db ?s \<and> row_ordinal db' ?s = Suc (row_ordinal db ?s)
      \<or> jd_next_chunk db' ?s = jd_next_chunk db ?s + 1 \<and> row_ordinal db' ?s = 0
        \<and> Suc (row_ordinal db ?s) = length (jc_effects ch)"
      using next_db ev(3) by (auto simp: row_ordinal_def inv(2) set_arrangement_def arr1 ord_def nat_add_distrib)
  qed
  then show ?thesis using settled next_db by (auto simp: join_invariant_def)
qed

section \<open>Frontiers, and any run\<close>

lemma step_frontier_invariant:
  fixes env :: "'a join_env" and db db' :: "'a join_db"
  assumes inv: "join_invariant env db" "jd_continuation db = Some (JFrontier fc)"
    and step: "step_frontier env db fc b = Inr db'"
  shows "join_invariant env db'"
proof -
  let ?s = "fc_side fc"
  obtain head :: "'a join_chunk" and pub where
      pos: "validate_positions_for_side db (fc_positions fc) ?s = Inr ()"
      and ord: "ip_row_ordinal (position_of_side (fc_positions fc) ?s) = 0"
      and head: "jv_chunks env ?s (ip_chunk_seq (position_of_side (fc_positions fc) ?s)) = Some head"
        "jc_effects head = []"
      and db': "db' = db\<lparr>jd_published := pub,
          jd_next_chunk := (jd_next_chunk db)(?s := jd_next_chunk db ?s + 1),
          jd_consumed := (jd_consumed db)(?s := fc_frontier fc), jd_continuation := None\<rparr>"
    using step
    by (auto simp: step_frontier_def frontier_input_new_def Let_def bind_res_Inr res_simps
        split: if_splits)
  have seq: "ip_chunk_seq (position_of_side (fc_positions fc) ?s) = jd_next_chunk db ?s"
      and other: "ip_row_ordinal (position_of_side (fc_positions fc) (opposite ?s)) = 0"
    using pos by (cases ?s; auto simp: validate_positions_for_side_def Let_def res_simps split: if_splits)+
  have zero: "row_ordinal db t = 0" for t
  proof -
    have "t = ?s \<or> t = opposite ?s" by (cases t; cases ?s) simp_all
    then show ?thesis using ord other by (auto simp: row_ordinal_def inv(2))
  qed
  have acc: "accounted env db" and settled: "settled env db"
    using inv by (simp_all add: join_invariant_def)
  have same: "settled env db' = settled env db" "arranged db' = arranged db"
    by (rule settled_cong; simp add: db')+
  have "join_consumed env db' t = join_consumed env db t" for t
  proof (cases "t = ?s")
    case True
    have "1 \<le> jd_next_chunk db ?s" using acc by (simp add: accounted_def)
    then have "[1..jd_next_chunk db ?s] = [1..jd_next_chunk db ?s - 1] @ [jd_next_chunk db ?s]"
      by (simp add: upto_rec2)
    moreover have "chunk_rows env ?s (jd_next_chunk db ?s) = []"
      using head seq by (simp add: chunk_rows_def)
    ultimately show ?thesis
      unfolding True join_consumed_def zero by (simp add: db' row_ordinal_def)
  next
    case False
    then show ?thesis unfolding join_consumed_def zero by (simp add: db' row_ordinal_def)
  qed
  moreover have "1 \<le> jd_next_chunk db' t" for t
    using acc[unfolded accounted_def, rule_format, of t] by (auto simp: db')
  ultimately have "accounted env db'"
    using acc by (simp add: accounted_def same(2))
  then show ?thesis using settled same(1) by (simp add: join_invariant_def db')
qed

lemma join_transition_invariant:
  assumes "keys_sound env" "join_invariant env db" "join_transition env b db = Inr db'"
  shows "join_invariant env db'"
proof (cases "jd_continuation db")
  case None
  then show ?thesis using assms open_next_input_invariant by (simp add: join_transition_def)
next
  case (Some c)
  show ?thesis
  proof (cases c)
    case (JPreflight ps side)
    then show ?thesis
      using assms Some step_preflight_invariant by (simp add: join_transition_def)
  next
    case (JProbe p)
    then show ?thesis
      using assms Some step_candidates_invariant[OF assms(1,2) Some] by (simp add: join_transition_def)
  next
    case (JPending p cand)
    then show ?thesis
      using assms Some step_candidates_invariant[OF assms(1,2) Some] by (simp add: join_transition_def)
  next
    case (JFinalize p)
    then show ?thesis
      using assms Some step_finalize_invariant by (simp add: join_transition_def)
  next
    case (JFrontier fc)
    then show ?thesis
      using assms Some step_frontier_invariant by (simp add: join_transition_def)
  qed
qed

lemma join_run_invariant:
  "keys_sound env \<Longrightarrow> join_invariant env db \<Longrightarrow> join_run env bs db = Inr db' \<Longrightarrow>
     join_invariant env db'"
proof (induction bs arbitrary: db)
  case (Cons b bs)
  then show ?case using join_transition_invariant by (fastforce simp: bind_res_Inr)
qed simp

lemma join_initial_invariant:
  fixes env :: "'a join_env"
  shows "join_invariant env (join_initial left right)"
proof -
  have T: "arranged (join_initial left right) = (\<lambda>(_ :: input_side) (_ :: 'a \<Rightarrow> bool). 0)"
    by (intro ext) (simp add: arranged_def join_initial_def)
  have "join_view env (\<lambda>_ _. 0) k = 0" for k :: "'a join_output"
    by (cases "fst k"; cases "snd k"; cases k) simp_all
  then have "settled env (join_initial left right)"
    unfolding settled_def T by (simp add: join_initial_def arrangement_ok_def)
  moreover have "join_consumed env (join_initial left right) s = []" for s
    by (simp add: join_consumed_def row_ordinal_def join_initial_def)
  ultimately show ?thesis
    unfolding join_invariant_def accounted_def T by (simp add: fun_eq_iff) (simp add: join_initial_def)
qed

text \<open>Between two events.\<close>

definition at_boundary :: "'a join_db \<Rightarrow> bool" where
  "at_boundary db \<longleftrightarrow>
     (case jd_continuation db of None \<Rightarrow> True | Some c \<Rightarrow> join_phase_of c \<in> {JPhPreflight, JPhFrontier})"

lemma boundary_settled:
  assumes "join_invariant env db" "at_boundary db"
  shows "settled env db"
  using assms
  by (cases "jd_continuation db"; cases "the (jd_continuation db)")
    (auto simp: join_invariant_def at_boundary_def)

lemma join_maintains_view:
  assumes "keys_sound env" "join_run env bs (join_initial left right) = Inr db" "at_boundary db"
  shows "net (jd_output db) row = join_view env (\<lambda>s. weight_of (join_consumed env db s)) row"
proof -
  have inv: "join_invariant env db"
    by (rule join_run_invariant[OF assms(1) join_initial_invariant assms(2)])
  have "arranged db = (\<lambda>s. weight_of (join_consumed env db s))"
    using inv by (intro ext) (simp add: join_invariant_def accounted_def)
  moreover have "net (jd_output db) row = join_view env (arranged db) row"
    using boundary_settled[OF inv assms(3)] by (simp only: settled_def)
  ultimately show ?thesis by simp
qed

end
