(* ===== verification/Join_Guarantees.thy ===== *)
theory Join_Guarantees
  imports Join_Refinement
begin

text \<open>
  The contract of the join kernel, and a run of it: a left join of one row with a partner that
  arrives later, whose pair and whose transition are emitted by different transactions.
\<close>

section \<open>A small input\<close>




























section \<open>The contract\<close>



end
