(* ===== verification/Window_Machine.thy ===== *)
theory Window_Machine
  imports Kernel_Contract
begin

text \<open>
  The Window phase machine (\<open>src/execution/window/machine.rs\<close>): admit an input chunk, then drain the
  dirty partitions, each through its peers, its frames, every window function, the difference of
  its candidate and visible rows and the cleanup of its work relations; a frontier is forwarded
  only after the drain.
\<close>

section \<open>Cursors\<close>

datatype win_after = WAdmitAfter input_position | WFinishInput | WFrontierAfter input_position

record win_cursor = wc_row_id :: "int option"

definition win_cursor_default :: win_cursor where
  "win_cursor_default = \<lparr>wc_row_id = None\<rparr>"

definition win_cursor_validate :: "win_cursor \<Rightarrow> unit result" where
  "win_cursor_validate c =
     (if non_positive (wc_row_id c) then Inl ''Window cursor is not positive''
      else Inr ())"

record win_diff_cursor =
  wd_row_id :: "int option"
  wd_repeat :: bool

definition win_diff_cursor_default :: win_diff_cursor where
  "win_diff_cursor_default = \<lparr>wd_row_id = None, wd_repeat = False\<rparr>"

definition win_diff_cursor_validate :: "win_diff_cursor \<Rightarrow> unit result" where
  "win_diff_cursor_validate c =
     (if non_positive (wd_row_id c)
      then Inl ''Window Diff cursor is not positive''
      else if wd_repeat c \<and> wd_row_id c = None then Inl ''Window Diff repeat cursor omitted its row''
      else Inr ())"

record win_fold_cursor =
  wf_output_ordinal :: int
  wf_last_frame_ordinal :: "int option"
  wf_ready_to_finalize :: bool

definition win_fold_cursor_validate :: "win_fold_cursor \<Rightarrow> unit result" where
  "win_fold_cursor_validate c =
     (if wf_output_ordinal c \<le> 0
         \<or> non_positive (wf_last_frame_ordinal c)
      then Inl ''Window aggregate fold cursor is not positive'' else Inr ())"

record win_cleanup_cursor =
  wk_relation_ordinal :: nat
  wk_row :: win_cursor

definition win_cleanup_cursor_default :: win_cleanup_cursor where
  "win_cleanup_cursor_default = \<lparr>wk_relation_ordinal = 0, wk_row = win_cursor_default\<rparr>"

section \<open>Phases\<close>

datatype win_leg = WRemove | WAdd

datatype win_kind =
    KAdmit | KEnumerate | KPeers | KFrames | KFold | KEvaluate | KDiff | KCleanup | KFrontier

fun win_kind_code :: "win_kind \<Rightarrow> int" where
  "win_kind_code KAdmit = 1"
| "win_kind_code KEnumerate = 2"
| "win_kind_code KPeers = 3"
| "win_kind_code KFrames = 4"
| "win_kind_code KFold = 5"
| "win_kind_code KEvaluate = 6"
| "win_kind_code KDiff = 7"
| "win_kind_code KCleanup = 8"
| "win_kind_code KFrontier = 9"

definition win_kind_from_code :: "int \<Rightarrow> win_kind result" where
  "win_kind_from_code c =
     (if c = 1 then Inr KAdmit else if c = 2 then Inr KEnumerate else if c = 3 then Inr KPeers
      else if c = 4 then Inr KFrames else if c = 5 then Inr KFold else if c = 6 then Inr KEvaluate
      else if c = 7 then Inr KDiff else if c = 8 then Inr KCleanup
      else if c = 9 then Inr KFrontier else Inl ''unknown Window phase code'')"

datatype win_phase =
    WAdmit
  | WEnumerate int win_cursor win_after
  | WPeers int win_cursor win_after
  | WFrames int win_cursor win_after
  | WFold int nat win_fold_cursor win_after
  | WEvaluate int nat win_cursor win_after
  | WDiff int win_leg win_diff_cursor win_after
  | WCleanup int win_cleanup_cursor win_after
  | WFrontier

fun win_kind_of :: "win_phase \<Rightarrow> win_kind" where
  "win_kind_of WAdmit = KAdmit"
| "win_kind_of (WEnumerate _ _ _) = KEnumerate"
| "win_kind_of (WPeers _ _ _) = KPeers"
| "win_kind_of (WFrames _ _ _) = KFrames"
| "win_kind_of (WFold _ _ _ _) = KFold"
| "win_kind_of (WEvaluate _ _ _ _) = KEvaluate"
| "win_kind_of (WDiff _ _ _ _) = KDiff"
| "win_kind_of (WCleanup _ _ _) = KCleanup"
| "win_kind_of WFrontier = KFrontier"

record win_continuation =
  wn_input_stream_id :: int
  wn_input :: "input_position option"
  wn_phase :: win_phase

datatype win_function = WNative | WAggregate

record win_machine = wm_function_kinds :: "win_function list"

definition win_machine_new :: "win_function list \<Rightarrow> win_machine result" where
  "win_machine_new kinds =
     (if kinds = [] then Inl ''Window must contain at least one function''
      else if u32_max < length kinds + 4 then Inl ''Window contains too many functions''
      else Inr \<lparr>wm_function_kinds = kinds\<rparr>)"

definition win_function_count :: "win_machine \<Rightarrow> nat" where
  "win_function_count m = length (wm_function_kinds m)"

text \<open>The subtraction \<open>ordinal - 1\<close> of \<open>u32\<close> wraps around in the release profile.\<close>

definition win_function_kind :: "win_machine \<Rightarrow> nat \<Rightarrow> win_function result" where
  "win_function_kind m ordinal =
     (let index = (if ordinal = 0 then u32_max else ordinal - 1) in
      if index < length (wm_function_kinds m) then Inr (wm_function_kinds m ! index)
      else Inl ''Window function ordinal is outside its plan'')"

definition win_fold_start :: win_fold_cursor where
  "win_fold_start = \<lparr>wf_output_ordinal = 1, wf_last_frame_ordinal = None, wf_ready_to_finalize = False\<rparr>"

definition win_first_function_phase ::
    "win_machine \<Rightarrow> int \<Rightarrow> nat \<Rightarrow> win_after \<Rightarrow> win_phase result" where
  "win_first_function_phase m q ordinal after =
     bind_res (win_function_kind m ordinal) (\<lambda>kind.
     Inr (case kind of
            WNative \<Rightarrow> WEvaluate q ordinal win_cursor_default after
          | WAggregate \<Rightarrow> WFold q ordinal win_fold_start after))"

section \<open>Actions and their results\<close>

datatype win_action =
    WDoAdmit input_position
  | WDoEnumerate int win_cursor
  | WBuildPeers int win_cursor
  | WBuildFrames int win_cursor
  | WDoFold int nat win_fold_cursor
  | WDoEvaluate int nat win_cursor
  | WDoDiff int win_leg win_diff_cursor
  | WDoCleanup int win_cleanup_cursor
  | WForwardFrontier input_position

datatype win_admission_target = WContinue input_position | WDrain int win_after | WIdle

record win_admission =
  wa_facts :: primitive_facts
  wa_target :: win_admission_target

record win_page =
  wp_facts :: primitive_facts
  wp_last_row_id :: "int option"
  wp_complete :: bool

record win_diff_page =
  wdp_facts :: primitive_facts
  wdp_last_row_id :: "int option"
  wdp_complete :: bool
  wdp_repeat_cursor :: bool

record win_fold_page =
  wfp_facts :: primitive_facts
  wfp_next_cursor :: "win_fold_cursor option"
  wfp_work_items :: nat

record win_cleanup =
  wcl_page :: win_page
  wcl_next_partition :: "int option"

datatype win_result =
    WAdmitted win_admission
  | WEnumerated win_page
  | WPeersBuilt win_page
  | WFramesBuilt win_page
  | WFolded win_fold_page
  | WEvaluated win_page
  | WDiffed win_diff_page
  | WCleaned win_cleanup
  | WForwarded primitive_facts

text \<open>\<open>WindowTransition::Committed\<close>, its only constructor.\<close>

type_synonym win_transition = "win_continuation option \<times> primitive_facts"

section \<open>Validation\<close>

definition win_validate_input :: "input_position \<Rightarrow> unit result" where
  "win_validate_input i =
     (if ip_stream_id i \<le> 0 \<or> ip_chunk_seq i \<le> 0 \<or> ip_row_ordinal i < 0
      then Inl ''Window input position is invalid'' else Inr ())"

definition win_validate_queue_id :: "int \<Rightarrow> unit result" where
  "win_validate_queue_id q =
     (if q \<le> 0 then Inl ''Window partition queue id is not positive'' else Inr ())"

definition win_validate_after :: "int \<Rightarrow> win_after \<Rightarrow> unit result" where
  "win_validate_after stream after =
     (if stream \<le> 0 then Inl ''Window partition target has an invalid input stream''
      else case after of
        WAdmitAfter i \<Rightarrow>
          bind_res (win_validate_input i) (\<lambda>_.
          if ip_stream_id i \<noteq> stream then Inl ''Window admission target changed its input stream''
          else Inr ())
      | WFrontierAfter f \<Rightarrow>
          bind_res (win_validate_input f) (\<lambda>_.
          if ip_stream_id f \<noteq> stream \<or> ip_row_ordinal f \<noteq> 0
          then Inl ''Window frontier target is invalid'' else Inr ())
      | WFinishInput \<Rightarrow> Inr ())"

definition win_validate_no_output :: "primitive_facts \<Rightarrow> unit result" where
  "win_validate_no_output f =
     (if pr_output f \<noteq> NoOutput \<or> output_rows (pr_usage f) \<noteq> 0 \<or> output_bytes (pr_usage f) \<noteq> 0
      then Inl ''Window internal phase reported external output'' else Inr ())"

definition win_cleanup_relation_count :: "win_machine \<Rightarrow> nat" where
  "win_cleanup_relation_count m = 4"

definition win_validate_drain :: "win_continuation \<Rightarrow> win_after \<Rightarrow> unit result" where
  "win_validate_drain c after =
     (if wn_input c \<noteq> None then Inl ''Window drain continuation retained an input cursor''
      else win_validate_after (wn_input_stream_id c) after)"

definition win_validate_rows :: "win_continuation \<Rightarrow> int \<Rightarrow> win_cursor \<Rightarrow> win_after \<Rightarrow> unit result" where
  "win_validate_rows c q cur after =
     bind_res (win_validate_queue_id q) (\<lambda>_.
     bind_res (win_cursor_validate cur) (\<lambda>_. win_validate_drain c after))"

definition win_validate :: "win_machine \<Rightarrow> win_continuation \<Rightarrow> unit result" where
  "win_validate m c =
     (if wn_input_stream_id c \<le> 0
         \<or> (case wn_input c of None \<Rightarrow> False | Some i \<Rightarrow> ip_stream_id i \<noteq> wn_input_stream_id c)
      then Inl ''Window continuation has an invalid input stream''
      else case wn_phase c of
        WAdmit \<Rightarrow> bind_res (ok_or ''Window input phase omitted its cursor'' (wn_input c)) win_validate_input
      | WFrontier \<Rightarrow>
          bind_res (ok_or ''Window input phase omitted its cursor'' (wn_input c)) win_validate_input
      | WEnumerate q cur after \<Rightarrow> win_validate_rows c q cur after
      | WPeers q cur after \<Rightarrow> win_validate_rows c q cur after
      | WFrames q cur after \<Rightarrow> win_validate_rows c q cur after
      | WDiff q leg cur after \<Rightarrow>
          bind_res (win_validate_queue_id q) (\<lambda>_.
          bind_res (win_diff_cursor_validate cur) (\<lambda>_. win_validate_drain c after))
      | WFold q ordinal cur after \<Rightarrow>
          bind_res (win_validate_queue_id q) (\<lambda>_.
          bind_res (win_function_kind m ordinal) (\<lambda>kind.
          if kind \<noteq> WAggregate then Inl ''native Window function entered aggregate fold''
          else bind_res (win_fold_cursor_validate cur) (\<lambda>_. win_validate_drain c after)))
      | WEvaluate q ordinal cur after \<Rightarrow>
          bind_res (win_validate_queue_id q) (\<lambda>_.
          bind_res (win_function_kind m ordinal) (\<lambda>kind.
          if kind \<noteq> WNative then Inl ''aggregate Window function entered native evaluation''
          else bind_res (win_cursor_validate cur) (\<lambda>_. win_validate_drain c after)))
      | WCleanup q cur after \<Rightarrow>
          bind_res (win_validate_queue_id q) (\<lambda>_.
          if win_cleanup_relation_count m \<le> wk_relation_ordinal cur
          then Inl ''Window cleanup relation ordinal is outside its plan''
          else bind_res (win_cursor_validate (wk_row cur)) (\<lambda>_. win_validate_drain c after)))"

definition win_action_of :: "win_machine \<Rightarrow> win_continuation \<Rightarrow> win_action result" where
  "win_action_of m c =
     bind_res (win_validate m c) (\<lambda>_.
     case wn_phase c of
       WAdmit \<Rightarrow>
         bind_res (ok_or ''Window Admit continuation omitted its input'' (wn_input c)) (\<lambda>i.
         Inr (WDoAdmit i))
     | WEnumerate q cur after \<Rightarrow> Inr (WDoEnumerate q cur)
     | WPeers q cur after \<Rightarrow> Inr (WBuildPeers q cur)
     | WFrames q cur after \<Rightarrow> Inr (WBuildFrames q cur)
     | WFold q ordinal cur after \<Rightarrow> Inr (WDoFold q ordinal cur)
     | WEvaluate q ordinal cur after \<Rightarrow> Inr (WDoEvaluate q ordinal cur)
     | WDiff q leg cur after \<Rightarrow> Inr (WDoDiff q leg cur)
     | WCleanup q cur after \<Rightarrow> Inr (WDoCleanup q cur)
     | WFrontier \<Rightarrow>
         bind_res (ok_or ''Window frontier continuation omitted its input'' (wn_input c)) (\<lambda>i.
         Inr (WForwardFrontier i)))"

section \<open>Pages\<close>

definition win_diff_page_validate ::
    "win_diff_page \<Rightarrow> win_diff_cursor \<Rightarrow> work_budget \<Rightarrow> unit result" where
  "win_diff_page_validate p previous b =
     bind_res (primitive_validate (wdp_facts p) b) (\<lambda>_.
     bind_res (page_facts_validate \<lparr>pf_usage = pr_usage (wdp_facts p),
                 pf_last_row_id = wdp_last_row_id p, pf_complete = wdp_complete p\<rparr> b) (\<lambda>_.
     if non_positive (wdp_last_row_id p)
     then Inl ''Window Diff page returned a non-positive cursor''
     else if wdp_repeat_cursor p \<and> (wdp_complete p \<or> wdp_last_row_id p = None)
     then Inl ''Window Diff residual has no resumable row''
     else if \<not> wdp_complete p \<and>
             (input_rows (pr_usage (wdp_facts p)) = 0 \<or> wdp_last_row_id p = None)
     then Inl ''partial Window Diff page made no resumable progress''
     else if \<not> wdp_complete p \<and>
             (opt_less (wdp_last_row_id p) (wd_row_id previous)
              \<or> (wdp_last_row_id p = wd_row_id previous \<and> \<not> wd_repeat previous))
     then Inl ''Window Diff page moved its cursor backwards''
     else if is_frontier_output (pr_output (wdp_facts p)) then Inl ''Window Diff emitted a frontier''
     else if input_rows (pr_usage (wdp_facts p)) < output_rows (pr_usage (wdp_facts p))
     then Inl ''Window Diff emitted more effects than rows compared''
     else Inr ()))"

definition win_page_validate :: "win_page \<Rightarrow> win_cursor \<Rightarrow> work_budget \<Rightarrow> bool \<Rightarrow> unit result" where
  "win_page_validate p previous b permits_output =
     bind_res (primitive_validate (wp_facts p) b) (\<lambda>_.
     bind_res (page_facts_validate \<lparr>pf_usage = pr_usage (wp_facts p),
                 pf_last_row_id = wp_last_row_id p, pf_complete = wp_complete p\<rparr> b) (\<lambda>_.
     if non_positive (wp_last_row_id p)
     then Inl ''Window page returned a non-positive cursor''
     else if \<not> wp_complete p \<and>
             (input_rows (pr_usage (wp_facts p)) = 0 \<or> wp_last_row_id p = None)
     then Inl ''partial Window page made no resumable progress''
     else if \<not> wp_complete p \<and> opt_less (wp_last_row_id p) (wc_row_id previous)
     then Inl ''Window page moved its cursor backwards''
     else if permits_output then
       (if is_frontier_output (pr_output (wp_facts p)) then Inl ''Window diff emitted a frontier''
        else if input_rows (pr_usage (wp_facts p)) < output_rows (pr_usage (wp_facts p))
        then Inl ''Window diff emitted more effects than rows compared''
        else Inr ())
     else win_validate_no_output (wp_facts p)))"

definition window_fold_work_item_cap :: nat where
  "window_fold_work_item_cap = 64"

definition win_current_visit ::
    "win_fold_page \<Rightarrow> win_fold_cursor \<Rightarrow> win_fold_cursor \<Rightarrow> nat \<Rightarrow> nat result" where
  "win_current_visit p previous next completed =
     (if completed = 0 then
        (case (wf_ready_to_finalize previous, wf_ready_to_finalize next) of
           (False, True) \<Rightarrow> Inr 1
         | (False, False) \<Rightarrow>
             if 0 < input_rows (pr_usage (wfp_facts p)) \<and> wf_last_frame_ordinal next \<noteq> None
                \<and> opt_less (wf_last_frame_ordinal previous) (wf_last_frame_ordinal next)
             then Inr 1
             else Inl ''partial Window aggregate fold made no resumable progress''
         | _ \<Rightarrow> Inl ''partial Window aggregate fold made no resumable progress'')
      else Inr (if wf_ready_to_finalize next \<or> wf_last_frame_ordinal next \<noteq> None then 1 else 0))"

definition win_fold_page_validate ::
    "win_fold_page \<Rightarrow> win_fold_cursor \<Rightarrow> work_budget \<Rightarrow> bool \<Rightarrow> unit result" where
  "win_fold_page_validate p previous b permits_output =
     bind_res (primitive_validate (wfp_facts p) b) (\<lambda>_.
     if permits_output then Inl ''Window aggregate fold cannot emit an external chunk''
     else
       bind_res (win_validate_no_output (wfp_facts p)) (\<lambda>_.
       if wfp_work_items p = 0 \<or> window_fold_work_item_cap < wfp_work_items p
       then Inl ''Window aggregate fold returned an invalid work-item count''
       else
         case wfp_next_cursor p of
           None \<Rightarrow> Inr ()
         | Some next \<Rightarrow>
             bind_res (win_fold_cursor_validate next) (\<lambda>_.
             if wf_output_ordinal next < wf_output_ordinal previous
             then Inl ''Window aggregate fold moved its output cursor backwards''
             else
               let completed = nat (wf_output_ordinal next - wf_output_ordinal previous) in
               bind_res (win_current_visit p previous next completed) (\<lambda>current.
               bind_res (ok_or ''Window aggregate fold work-item count overflow''
                   (checked_add_u64 completed current)) (\<lambda>visits.
               if wfp_work_items p < visits
               then Inl ''Window aggregate fold skipped an unvisited output ordinal''
               else Inr ())))))"

section \<open>Transitions\<close>

fun win_phase_after :: "win_phase \<Rightarrow> win_after result" where
  "win_phase_after (WEnumerate _ _ after) = Inr after"
| "win_phase_after (WPeers _ _ after) = Inr after"
| "win_phase_after (WFrames _ _ after) = Inr after"
| "win_phase_after (WFold _ _ _ after) = Inr after"
| "win_phase_after (WEvaluate _ _ _ after) = Inr after"
| "win_phase_after (WDiff _ _ _ after) = Inr after"
| "win_phase_after (WCleanup _ _ after) = Inr after"
| "win_phase_after WAdmit = Inl ''Window phase has no partition completion target''"
| "win_phase_after WFrontier = Inl ''Window phase has no partition completion target''"

definition win_next ::
    "win_continuation \<Rightarrow> input_position option \<Rightarrow> win_phase \<Rightarrow> win_continuation" where
  "win_next c input phase =
     \<lparr>wn_input_stream_id = wn_input_stream_id c, wn_input = input, wn_phase = phase\<rparr>"

definition win_apply_admission ::
    "win_machine \<Rightarrow> input_position \<Rightarrow> win_admission \<Rightarrow> work_budget \<Rightarrow> win_transition result" where
  "win_apply_admission m input a b =
     bind_res (primitive_validate (wa_facts a) b) (\<lambda>_.
     bind_res (win_validate_no_output (wa_facts a)) (\<lambda>_.
     if input_rows (pr_usage (wa_facts a)) = 0
     then Inl ''Window admission made no bounded input progress''
     else
       bind_res
         (case wa_target a of
            WContinue i \<Rightarrow>
              bind_res (win_validate_input i) (\<lambda>_.
              if ip_stream_id i \<noteq> ip_stream_id input \<or> ip_chunk_seq i \<noteq> ip_chunk_seq input
                 \<or> ip_row_ordinal i \<le> ip_row_ordinal input
              then Inl ''Window admission continuation did not advance its page''
              else Inr (Some \<lparr>wn_input_stream_id = ip_stream_id input, wn_input = Some i,
                              wn_phase = WAdmit\<rparr>))
          | WDrain q after \<Rightarrow>
              bind_res (win_validate_queue_id q) (\<lambda>_.
              bind_res (win_validate_after (ip_stream_id input) after) (\<lambda>_.
              Inr (Some \<lparr>wn_input_stream_id = ip_stream_id input, wn_input = None,
                         wn_phase = WEnumerate q win_cursor_default after\<rparr>)))
          | WIdle \<Rightarrow> Inr None) (\<lambda>next.
       bind_res (case next of None \<Rightarrow> Inr () | Some n \<Rightarrow> win_validate m n) (\<lambda>_.
       Inr (next, wa_facts a)))))"

datatype win_stage = SEnumerate | SPeers | SFrames

fun win_stage_phase :: "win_stage \<Rightarrow> int \<Rightarrow> win_cursor \<Rightarrow> win_after \<Rightarrow> win_phase" where
  "win_stage_phase SEnumerate q cur after = WEnumerate q cur after"
| "win_stage_phase SPeers q cur after = WPeers q cur after"
| "win_stage_phase SFrames q cur after = WFrames q cur after"

definition win_apply_internal_page ::
    "win_machine \<Rightarrow> win_continuation \<Rightarrow> int \<Rightarrow> win_cursor \<Rightarrow> win_page \<Rightarrow> win_stage \<Rightarrow> work_budget
     \<Rightarrow> win_transition result" where
  "win_apply_internal_page m c q cur page stage b =
     bind_res (win_page_validate page cur b False) (\<lambda>_.
     bind_res (win_phase_after (wn_phase c)) (\<lambda>after.
     bind_res
       (if \<not> wp_complete page
        then Inr (win_stage_phase stage q \<lparr>wc_row_id = wp_last_row_id page\<rparr> after)
        else case stage of
          SEnumerate \<Rightarrow> Inr (WPeers q win_cursor_default after)
        | SPeers \<Rightarrow> Inr (WFrames q win_cursor_default after)
        | SFrames \<Rightarrow> win_first_function_phase m q 1 after) (\<lambda>phase.
     Inr (Some (win_next c None phase), wp_facts page))))"

text \<open>The phase after the last row of a function.\<close>

definition win_after_function ::
    "win_machine \<Rightarrow> int \<Rightarrow> nat \<Rightarrow> win_after \<Rightarrow> win_phase result" where
  "win_after_function m q ordinal after =
     (if ordinal < win_function_count m then win_first_function_phase m q (ordinal + 1) after
      else Inr (WDiff q WRemove win_diff_cursor_default after))"

definition win_apply_fold ::
    "win_machine \<Rightarrow> win_continuation \<Rightarrow> int \<Rightarrow> nat \<Rightarrow> win_fold_cursor \<Rightarrow> win_fold_page \<Rightarrow> work_budget
     \<Rightarrow> win_transition result" where
  "win_apply_fold m c q ordinal cur page b =
     bind_res (win_fold_page_validate page cur b False) (\<lambda>_.
     bind_res (win_phase_after (wn_phase c)) (\<lambda>after.
     bind_res
       (case wfp_next_cursor page of
          Some next \<Rightarrow> Inr (WFold q ordinal next after)
        | None \<Rightarrow> win_after_function m q ordinal after) (\<lambda>phase.
     Inr (Some (win_next c None phase), wfp_facts page))))"

definition win_apply_evaluation ::
    "win_machine \<Rightarrow> win_continuation \<Rightarrow> int \<Rightarrow> nat \<Rightarrow> win_cursor \<Rightarrow> win_page \<Rightarrow> work_budget
     \<Rightarrow> win_transition result" where
  "win_apply_evaluation m c q ordinal cur page b =
     bind_res (win_page_validate page cur b False) (\<lambda>_.
     bind_res (win_phase_after (wn_phase c)) (\<lambda>after.
     bind_res
       (if \<not> wp_complete page
        then Inr (WEvaluate q ordinal \<lparr>wc_row_id = wp_last_row_id page\<rparr> after)
        else win_after_function m q ordinal after) (\<lambda>phase.
     Inr (Some (win_next c None phase), wp_facts page))))"

definition win_apply_diff ::
    "win_continuation \<Rightarrow> int \<Rightarrow> win_leg \<Rightarrow> win_diff_cursor \<Rightarrow> win_diff_page \<Rightarrow> work_budget
     \<Rightarrow> win_transition result" where
  "win_apply_diff c q leg cur page b =
     bind_res (win_diff_page_validate page cur b) (\<lambda>_.
     bind_res (win_phase_after (wn_phase c)) (\<lambda>after.
     Inr (Some (win_next c None
            (if \<not> wdp_complete page
             then WDiff q leg \<lparr>wd_row_id = wdp_last_row_id page, wd_repeat = wdp_repeat_cursor page\<rparr> after
             else case leg of
               WRemove \<Rightarrow> WDiff q WAdd win_diff_cursor_default after
             | WAdd \<Rightarrow> WCleanup q win_cleanup_cursor_default after)), wdp_facts page)))"

fun win_resume :: "win_continuation \<Rightarrow> win_after \<Rightarrow> win_continuation option" where
  "win_resume c (WAdmitAfter i) = Some (win_next c (Some i) WAdmit)"
| "win_resume c WFinishInput = None"
| "win_resume c (WFrontierAfter f) = Some (win_next c (Some f) WFrontier)"

definition win_apply_cleanup ::
    "win_machine \<Rightarrow> win_continuation \<Rightarrow> int \<Rightarrow> win_cleanup_cursor \<Rightarrow> win_cleanup \<Rightarrow> work_budget
     \<Rightarrow> win_transition result" where
  "win_apply_cleanup m c q cur cl b =
     (let page = wcl_page cl in
      bind_res (win_page_validate page (wk_row cur) b False) (\<lambda>_.
      bind_res (win_phase_after (wn_phase c)) (\<lambda>after.
      if \<not> wp_complete page \<and> wcl_next_partition cl \<noteq> None
      then Inl ''partial Window cleanup returned another partition''
      else
        bind_res
          (if \<not> wp_complete page
           then Inr (Some (win_next c None (WCleanup q \<lparr>wk_relation_ordinal = wk_relation_ordinal cur,
                  wk_row = \<lparr>wc_row_id = wp_last_row_id page\<rparr>\<rparr> after)))
           else if wk_relation_ordinal cur + 1 < win_cleanup_relation_count m
           then
             (if wcl_next_partition cl \<noteq> None
              then Inl ''Window cleanup returned a partition before all work relations''
              else Inr (Some (win_next c None (WCleanup q
                \<lparr>wk_relation_ordinal = wk_relation_ordinal cur + 1, wk_row = win_cursor_default\<rparr> after))))
           else case wcl_next_partition cl of
             Some next_queue \<Rightarrow>
               bind_res (win_validate_queue_id next_queue) (\<lambda>_.
               if next_queue \<le> q then Inl ''Window partition queue did not advance''
               else Inr (Some (win_next c None (WEnumerate next_queue win_cursor_default after))))
           | None \<Rightarrow> Inr (win_resume c after)) (\<lambda>next.
        Inr (next, wp_facts page)))))"

definition win_apply_frontier :: "primitive_facts \<Rightarrow> work_budget \<Rightarrow> win_transition result" where
  "win_apply_frontier f b =
     bind_res (validate_protocol f b PhFrontier Finished) (\<lambda>_.
     if \<not> is_frontier_output (pr_output f) \<or> input_rows (pr_usage f) \<noteq> 0
        \<or> input_bytes (pr_usage f) \<noteq> 0
     then Inl ''Window frontier commit is inconsistent''
     else Inr (None, f))"

definition win_apply ::
    "win_machine \<Rightarrow> win_continuation \<Rightarrow> win_result \<Rightarrow> work_budget \<Rightarrow> win_transition result" where
  "win_apply m c result b =
     bind_res (win_action_of m c) (\<lambda>expected.
     case (expected, result) of
       (WDoAdmit input, WAdmitted a) \<Rightarrow> win_apply_admission m input a b
     | (WDoEnumerate q cur, WEnumerated page) \<Rightarrow> win_apply_internal_page m c q cur page SEnumerate b
     | (WBuildPeers q cur, WPeersBuilt page) \<Rightarrow> win_apply_internal_page m c q cur page SPeers b
     | (WBuildFrames q cur, WFramesBuilt page) \<Rightarrow> win_apply_internal_page m c q cur page SFrames b
     | (WDoFold q ordinal cur, WFolded page) \<Rightarrow> win_apply_fold m c q ordinal cur page b
     | (WDoEvaluate q ordinal cur, WEvaluated page) \<Rightarrow> win_apply_evaluation m c q ordinal cur page b
     | (WDoDiff q leg cur, WDiffed page) \<Rightarrow> win_apply_diff c q leg cur page b
     | (WDoCleanup q cur, WCleaned page) \<Rightarrow> win_apply_cleanup m c q cur page b
     | (WForwardFrontier i, WForwarded f) \<Rightarrow> win_apply_frontier f b
     | _ \<Rightarrow> Inl ''database returned facts for another Window phase'')"

end
