(* ===== verification/Window_Properties.thy ===== *)
theory Window_Properties
  imports Window_Machine Resumable_Machine
begin

text \<open>
  The Window machine (\<open>src/execution/window/machine.rs\<close>) keeps its continuation valid and its
  budget, takes every dirty partition through all its stages in order, and emits rows only while
  it compares the candidate and visible rows of a partition.
\<close>

section \<open>Validation facts\<close>

lemma win_queue_id_Inr [res_simps]: "win_validate_queue_id q = Inr () \<longleftrightarrow> 0 < q"
  by (auto simp: win_validate_queue_id_def)

lemma win_input_Inr [res_simps]:
  "win_validate_input i = Inr () \<longleftrightarrow>
     0 < ip_stream_id i \<and> 0 < ip_chunk_seq i \<and> 0 \<le> ip_row_ordinal i"
  by (auto simp: win_validate_input_def)

lemma win_cursor_Inr [res_simps]: "win_cursor_validate c = Inr () \<longleftrightarrow> \<not> non_positive (wc_row_id c)"
  by (simp add: win_cursor_validate_def)

lemma win_diff_cursor_Inr [res_simps]:
  "win_diff_cursor_validate c = Inr () \<longleftrightarrow>
     \<not> non_positive (wd_row_id c) \<and> (wd_repeat c \<longrightarrow> wd_row_id c \<noteq> None)"
  by (auto simp: win_diff_cursor_validate_def)

lemma win_fold_cursor_Inr [res_simps]:
  "win_fold_cursor_validate c = Inr () \<longleftrightarrow>
     0 < wf_output_ordinal c \<and> \<not> non_positive (wf_last_frame_ordinal c)"
  by (auto simp: win_fold_cursor_validate_def)

lemma win_after_Inr:
  "win_validate_after stream after = Inr () \<longleftrightarrow> 0 < stream \<and>
     (case after of
        WAdmitAfter i \<Rightarrow> win_validate_input i = Inr () \<and> ip_stream_id i = stream
      | WFinishInput \<Rightarrow> True
      | WFrontierAfter f \<Rightarrow>
          win_validate_input f = Inr () \<and> ip_stream_id f = stream \<and> ip_row_ordinal f = 0)"
  by (cases after) (auto simp: win_validate_after_def bind_res_Inr)

lemma win_drain_Inr [res_simps]:
  "win_validate_drain c after = Inr () \<longleftrightarrow>
     wn_input c = None \<and> win_validate_after (wn_input_stream_id c) after = Inr ()"
  by (auto simp: win_validate_drain_def)

lemma win_no_output_Inr [res_simps]:
  "win_validate_no_output f = Inr () \<longleftrightarrow>
     pr_output f = NoOutput \<and> output_rows (pr_usage f) = 0 \<and> output_bytes (pr_usage f) = 0"
  by (auto simp: win_validate_no_output_def)

text \<open>A function ordinal of the plan is between one and the number of functions.\<close>

lemma win_function_kind_Inr [res_simps]:
  assumes "win_function_count m \<le> u32_max"
  shows "win_function_kind m ordinal = Inr kind \<longleftrightarrow>
     0 < ordinal \<and> ordinal \<le> win_function_count m \<and> wm_function_kinds m ! (ordinal - 1) = kind"
  using assms by (auto simp: win_function_kind_def win_function_count_def Let_def)

definition win_valid :: "win_machine \<Rightarrow> win_continuation \<Rightarrow> bool" where
  "win_valid m c \<longleftrightarrow> win_validate m c = Inr ()"

text \<open>What validation asks of the phase itself.\<close>

fun win_phase_ok :: "win_machine \<Rightarrow> win_phase \<Rightarrow> bool" where
  "win_phase_ok m WAdmit = True"
| "win_phase_ok m WFrontier = True"
| "win_phase_ok m (WEnumerate q cur after) = (0 < q \<and> \<not> non_positive (wc_row_id cur))"
| "win_phase_ok m (WPeers q cur after) = (0 < q \<and> \<not> non_positive (wc_row_id cur))"
| "win_phase_ok m (WFrames q cur after) = (0 < q \<and> \<not> non_positive (wc_row_id cur))"
| "win_phase_ok m (WFold q ordinal cur after) =
     (0 < q \<and> win_function_kind m ordinal = Inr WAggregate \<and> win_fold_cursor_validate cur = Inr ())"
| "win_phase_ok m (WEvaluate q ordinal cur after) =
     (0 < q \<and> win_function_kind m ordinal = Inr WNative \<and> \<not> non_positive (wc_row_id cur))"
| "win_phase_ok m (WDiff q leg cur after) = (0 < q \<and> win_diff_cursor_validate cur = Inr ())"
| "win_phase_ok m (WCleanup q cur after) =
     (0 < q \<and> wk_relation_ordinal cur < 4 \<and> \<not> non_positive (wc_row_id (wk_row cur)))"

lemma win_valid_drain:
  assumes "win_phase_after (wn_phase c) = Inr after"
  shows "win_valid m c \<longleftrightarrow> wn_input c = None
    \<and> win_validate_after (wn_input_stream_id c) after = Inr () \<and> win_phase_ok m (wn_phase c)"
  using assms unfolding win_valid_def win_validate_def
  by (cases "wn_phase c"; cases "wn_input c")
    (auto simp: win_validate_rows_def win_cleanup_relation_count_def bind_res_Inr win_drain_Inr
      win_queue_id_Inr win_cursor_Inr win_after_Inr split: if_splits)

lemma win_valid_input:
  assumes "win_phase_after (wn_phase c) = Inl e"
  shows "win_valid m c \<longleftrightarrow> (\<exists>i. wn_input c = Some i \<and> win_validate_input i = Inr ()
    \<and> ip_stream_id i = wn_input_stream_id c)"
  using assms unfolding win_valid_def win_validate_def
  by (cases "wn_phase c"; cases "wn_input c") (auto simp: bind_res_Inr ok_or_def win_input_Inr)

lemma win_action_valid: "win_action_of m c = Inr a \<Longrightarrow> win_valid m c"
  by (auto simp: win_action_of_def win_valid_def bind_res_Inr)

lemma win_apply_valid: "win_apply m c r b = Inr t \<Longrightarrow> win_valid m c"
  by (auto simp: win_apply_def bind_res_Inr intro: win_action_valid)

lemma win_next_inj [simp]: "win_next c i p = win_next c i' p' \<longleftrightarrow> i = i' \<and> p = p'"
  by (auto simp: win_next_def)

lemma win_next_fields [simp]:
  "wn_phase (win_next c i p) = p" "wn_input (win_next c i p) = i"
  "wn_input_stream_id (win_next c i p) = wn_input_stream_id c"
  by (simp_all add: win_next_def)

section \<open>Stages\<close>

text \<open>
  The stages of a partition: enumeration, peers, frames, the functions, the two legs of the
  comparison, and the four work relations of the cleanup.
\<close>

definition win_stage :: "win_machine \<Rightarrow> win_phase \<Rightarrow> (int \<times> nat) option" where
  "win_stage m p =
     (case p of
        WEnumerate q _ _ \<Rightarrow> Some (q, 0)
      | WPeers q _ _ \<Rightarrow> Some (q, 1)
      | WFrames q _ _ \<Rightarrow> Some (q, 2)
      | WFold q ordinal _ _ \<Rightarrow> Some (q, ordinal + 2)
      | WEvaluate q ordinal _ _ \<Rightarrow> Some (q, ordinal + 2)
      | WDiff q WRemove _ _ \<Rightarrow> Some (q, win_function_count m + 3)
      | WDiff q WAdd _ _ \<Rightarrow> Some (q, win_function_count m + 4)
      | WCleanup q cur _ \<Rightarrow> Some (q, win_function_count m + 5 + wk_relation_ordinal cur)
      | WAdmit \<Rightarrow> None
      | WFrontier \<Rightarrow> None)"

lemma win_stage_drain: "win_stage m p \<noteq> None \<longleftrightarrow> (\<exists>after. win_phase_after p = Inr after)"
  by (cases p) (auto simp: win_stage_def split: win_leg.splits)

definition win_last_stage :: "win_machine \<Rightarrow> nat" where
  "win_last_stage m = win_function_count m + 8"

text \<open>The next continuation of one step of a drain.\<close>

definition win_moves ::
    "win_machine \<Rightarrow> win_continuation \<Rightarrow> win_after \<Rightarrow> int \<times> nat \<Rightarrow> win_continuation option \<Rightarrow> bool" where
  "win_moves m c after x n \<longleftrightarrow>
     (\<exists>p. n = Some (win_next c None p) \<and> win_phase_after p = Inr after \<and> win_phase_ok m p
        \<and> (win_stage m p = Some x \<or> win_stage m p = Some (fst x, Suc (snd x))
           \<or> snd x = win_last_stage m \<and> (\<exists>q'. fst x < q' \<and> win_stage m p = Some (q', 0))))
     \<or> snd x = win_last_stage m \<and> n = win_resume c after"

lemma win_moves_next:
  "win_phase_after p = Inr after \<Longrightarrow> win_phase_ok m p \<Longrightarrow>
     win_stage m p = Some x \<or> win_stage m p = Some (fst x, Suc (snd x)) \<Longrightarrow>
     win_moves m c after x (Some (win_next c None p))"
  by (auto simp: win_moves_def)

lemma win_first_function_Inr:
  assumes "win_first_function_phase m q ordinal after = Inr p" "win_function_count m \<le> u32_max" "0 < q"
  shows "win_phase_after p = Inr after \<and> win_phase_ok m p \<and> win_stage m p = Some (q, ordinal + 2)"
proof -
  obtain kind where "win_function_kind m ordinal = Inr kind"
      "p = (case kind of WNative \<Rightarrow> WEvaluate q ordinal win_cursor_default after
          | WAggregate \<Rightarrow> WFold q ordinal win_fold_start after)"
    using assms(1) by (auto simp: win_first_function_phase_def bind_res_Inr)
  then show ?thesis
    using assms(3)
    by (cases kind) (simp_all add: win_fold_start_def win_cursor_default_def win_stage_def win_fold_cursor_Inr)
qed

lemma win_after_function_Inr:
  assumes "win_after_function m q ordinal after = Inr p" "win_function_count m \<le> u32_max" "0 < q"
    "ordinal \<le> win_function_count m"
  shows "win_phase_after p = Inr after \<and> win_phase_ok m p \<and> win_stage m p = Some (q, ordinal + 3)"
  using assms win_first_function_Inr[of m q "ordinal + 1" after p]
  by (auto simp: win_after_function_def win_stage_def win_diff_cursor_Inr win_diff_cursor_default_def
      split: if_splits)

lemma win_page_Inr:
  "win_page_validate p cur b False = Inr () \<longleftrightarrow>
     primitive_validate (wp_facts p) b = Inr ()
     \<and> page_facts_validate \<lparr>pf_usage = pr_usage (wp_facts p), pf_last_row_id = wp_last_row_id p,
          pf_complete = wp_complete p\<rparr> b = Inr ()
     \<and> \<not> non_positive (wp_last_row_id p)
     \<and> (\<not> wp_complete p \<longrightarrow> 0 < input_rows (pr_usage (wp_facts p)) \<and> wp_last_row_id p \<noteq> None
          \<and> \<not> opt_less (wp_last_row_id p) (wc_row_id cur))
     \<and> win_validate_no_output (wp_facts p) = Inr ()"
  by (auto simp: win_page_validate_def bind_res_Inr split: if_splits)

text \<open>Every step of a drain is internal, except in the stages of the comparison.\<close>

definition win_drain_facts :: "win_machine \<Rightarrow> nat \<Rightarrow> primitive_facts \<Rightarrow> work_budget \<Rightarrow> bool" where
  "win_drain_facts m i f b \<longleftrightarrow> primitive_validate f b = Inr () \<and> \<not> is_frontier_output (pr_output f)
     \<and> (pr_output f \<noteq> NoOutput \<longrightarrow> i = win_function_count m + 3 \<or> i = win_function_count m + 4)"

lemma win_internal_facts:
  "primitive_validate f b = Inr () \<Longrightarrow> win_validate_no_output f = Inr () \<Longrightarrow> win_drain_facts m i f b"
  by (simp add: win_drain_facts_def win_no_output_Inr)

lemma win_internal_step:
  assumes step: "win_apply_internal_page m c q cur page stage b = Inr (n, f)"
    and after: "win_phase_after (wn_phase c) = Inr after" and q: "0 < q"
    and count: "win_function_count m \<le> u32_max"
    and x: "x = (q, case stage of SEnumerate \<Rightarrow> 0 | SPeers \<Rightarrow> 1 | SFrames \<Rightarrow> 2)"
  shows "win_moves m c after x n \<and> win_drain_facts m (snd x) f b"
proof -
  obtain p where page: "win_page_validate page cur b False = Inr ()" and f: "f = wp_facts page"
      and n: "n = Some (win_next c None p)"
      and p: "(if \<not> wp_complete page
        then Inr (win_stage_phase stage q \<lparr>wc_row_id = wp_last_row_id page\<rparr> after)
        else case stage of
          SEnumerate \<Rightarrow> Inr (WPeers q win_cursor_default after)
        | SPeers \<Rightarrow> Inr (WFrames q win_cursor_default after)
        | SFrames \<Rightarrow> win_first_function_phase m q 1 after) = Inr p"
    using step after by (auto simp: win_apply_internal_page_def bind_res_Inr)
  have "win_moves m c after x n"
    unfolding n
  proof (rule win_moves_next)
    show "win_phase_after p = Inr after" "win_phase_ok m p"
        "win_stage m p = Some x \<or> win_stage m p = Some (fst x, Suc (snd x))"
      using p page q win_first_function_Inr[OF _ count q, of 1 after p]
      by (cases stage; cases "wp_complete page";
          auto simp: x win_page_Inr win_cursor_default_def win_stage_def numeral_2_eq_2)+
  qed
  then show ?thesis using page f by (auto simp: win_page_Inr intro: win_internal_facts)
qed


lemma win_fold_page_Inr:
  assumes "win_fold_page_validate p cur b False = Inr ()"
  shows "primitive_validate (wfp_facts p) b = Inr ()" "win_validate_no_output (wfp_facts p) = Inr ()"
    "\<And>next. wfp_next_cursor p = Some next \<Longrightarrow> win_fold_cursor_validate next = Inr ()"
  using assms
  by (auto simp: win_fold_page_validate_def bind_res_Inr Let_def split: if_splits option.splits)

lemma win_fold_step:
  assumes step: "win_apply_fold m c q ordinal cur page b = Inr (n, f)"
    and after: "win_phase_after (wn_phase c) = Inr after" and q: "0 < q"
    and count: "win_function_count m \<le> u32_max"
    and kind: "win_function_kind m ordinal = Inr WAggregate"
  shows "win_moves m c after (q, ordinal + 2) n \<and> win_drain_facts m (ordinal + 2) f b"
proof -
  obtain p where page: "win_fold_page_validate page cur b False = Inr ()" and f: "f = wfp_facts page"
      and n: "n = Some (win_next c None p)"
      and p: "(case wfp_next_cursor page of
          Some next \<Rightarrow> Inr (WFold q ordinal next after)
        | None \<Rightarrow> win_after_function m q ordinal after) = Inr p"
    using step after by (auto simp: win_apply_fold_def bind_res_Inr)
  have "ordinal \<le> win_function_count m" using kind by (simp add: win_function_kind_Inr[OF count])
  note after_fun = win_after_function_Inr[OF _ count q this, of after p]
  have "win_moves m c after (q, ordinal + 2) n"
    unfolding n
  proof (rule win_moves_next)
    show "win_phase_after p = Inr after" "win_phase_ok m p"
        "win_stage m p = Some (q, ordinal + 2)
         \<or> win_stage m p = Some (fst (q, ordinal + 2), Suc (snd (q, ordinal + 2)))"
      using p after_fun win_fold_page_Inr(3)[OF page] q kind
      by (cases "wfp_next_cursor page"; auto simp: win_stage_def)+
  qed
  then show ?thesis using win_fold_page_Inr(1,2)[OF page] f by (auto intro: win_internal_facts)
qed

lemma win_evaluation_step:
  assumes step: "win_apply_evaluation m c q ordinal cur page b = Inr (n, f)"
    and after: "win_phase_after (wn_phase c) = Inr after" and q: "0 < q"
    and count: "win_function_count m \<le> u32_max"
    and kind: "win_function_kind m ordinal = Inr WNative"
  shows "win_moves m c after (q, ordinal + 2) n \<and> win_drain_facts m (ordinal + 2) f b"
proof -
  obtain p where page: "win_page_validate page cur b False = Inr ()" and f: "f = wp_facts page"
      and n: "n = Some (win_next c None p)"
      and p: "(if \<not> wp_complete page
        then Inr (WEvaluate q ordinal \<lparr>wc_row_id = wp_last_row_id page\<rparr> after)
        else win_after_function m q ordinal after) = Inr p"
    using step after by (auto simp: win_apply_evaluation_def bind_res_Inr)
  have "ordinal \<le> win_function_count m" using kind by (simp add: win_function_kind_Inr[OF count])
  note after_fun = win_after_function_Inr[OF _ count q this, of after p]
  have "win_moves m c after (q, ordinal + 2) n"
    unfolding n
  proof (rule win_moves_next)
    show "win_phase_after p = Inr after" "win_phase_ok m p"
        "win_stage m p = Some (q, ordinal + 2)
         \<or> win_stage m p = Some (fst (q, ordinal + 2), Suc (snd (q, ordinal + 2)))"
      using p after_fun page q kind
      by (cases "wp_complete page"; auto simp: win_stage_def win_page_Inr)+
  qed
  then show ?thesis using page f by (auto simp: win_page_Inr intro: win_internal_facts)
qed

lemma win_diff_page_Inr:
  assumes "win_diff_page_validate p cur b = Inr ()"
  shows "primitive_validate (wdp_facts p) b = Inr ()" "\<not> is_frontier_output (pr_output (wdp_facts p))"
    "win_diff_cursor_validate \<lparr>wd_row_id = wdp_last_row_id p, wd_repeat = wdp_repeat_cursor p\<rparr> = Inr ()"
  using assms
  by (auto simp: win_diff_page_validate_def bind_res_Inr win_diff_cursor_Inr split: if_splits)

lemma win_diff_step:
  assumes step: "win_apply_diff c q leg cur page b = Inr (n, f)"
    and after: "win_phase_after (wn_phase c) = Inr after" and q: "0 < q"
    and i: "i = win_function_count m + (case leg of WRemove \<Rightarrow> 3 | WAdd \<Rightarrow> 4)"
  shows "win_moves m c after (q, i) n \<and> win_drain_facts m i f b"
proof -
  define p where "p = (if \<not> wdp_complete page
      then WDiff q leg \<lparr>wd_row_id = wdp_last_row_id page, wd_repeat = wdp_repeat_cursor page\<rparr> after
      else case leg of
        WRemove \<Rightarrow> WDiff q WAdd win_diff_cursor_default after
      | WAdd \<Rightarrow> WCleanup q win_cleanup_cursor_default after)"
  have page: "win_diff_page_validate page cur b = Inr ()" and f: "f = wdp_facts page"
      and n: "n = Some (win_next c None p)"
    using step after by (auto simp: win_apply_diff_def bind_res_Inr p_def)
  have "win_moves m c after (q, i) n"
    unfolding n
  proof (rule win_moves_next)
    show "win_phase_after p = Inr after" by (cases leg) (simp_all add: p_def)
    show "win_phase_ok m p"
      using win_diff_page_Inr(3)[OF page] q
      by (cases leg) (simp_all add: p_def win_diff_cursor_default_def win_cleanup_cursor_default_def
          win_cursor_default_def win_diff_cursor_Inr)
    show "win_stage m p = Some (q, i) \<or> win_stage m p = Some (fst (q, i), Suc (snd (q, i)))"
      by (cases leg) (simp_all add: p_def i win_stage_def win_cleanup_cursor_default_def)
  qed
  then show ?thesis
    using win_diff_page_Inr(1,2)[OF page] f by (simp add: win_drain_facts_def i split: win_leg.splits)
qed

lemma win_cleanup_step:
  assumes step: "win_apply_cleanup m c q cur page b = Inr (n, f)"
    and after: "win_phase_after (wn_phase c) = Inr after" and q: "0 < q"
    and rel: "wk_relation_ordinal cur < 4" and i: "i = win_function_count m + 5 + wk_relation_ordinal cur"
  shows "win_moves m c after (q, i) n \<and> win_drain_facts m i f b"
proof -
  let ?pg = "wcl_page page"
  have page: "win_page_validate ?pg (wk_row cur) b False = Inr ()" and f: "f = wp_facts ?pg"
    using step after by (auto simp: win_apply_cleanup_def Let_def bind_res_Inr split: if_splits)
  then have facts: "win_drain_facts m i f b" by (auto simp: win_page_Inr intro: win_internal_facts)
  consider (partial) "n = Some (win_next c None (WCleanup q \<lparr>wk_relation_ordinal = wk_relation_ordinal cur,
          wk_row = \<lparr>wc_row_id = wp_last_row_id ?pg\<rparr>\<rparr> after))"
    | (relation) "wk_relation_ordinal cur + 1 < 4" "n = Some (win_next c None (WCleanup q
          \<lparr>wk_relation_ordinal = wk_relation_ordinal cur + 1, wk_row = win_cursor_default\<rparr> after))"
    | (partition) q' where "\<not> wk_relation_ordinal cur + 1 < 4" "q < q'" "0 < q'"
          "n = Some (win_next c None (WEnumerate q' win_cursor_default after))"
    | (ended) "\<not> wk_relation_ordinal cur + 1 < 4" "n = win_resume c after"
    using step after
    by (auto simp: win_apply_cleanup_def win_cleanup_relation_count_def Let_def bind_res_Inr
        win_queue_id_Inr split: if_splits option.splits)
  then have "win_moves m c after (q, i) n"
  proof cases
    case partial
    then show ?thesis
      using page q rel i by (simp only:) (rule win_moves_next, auto simp: win_stage_def win_page_Inr)
  next
    case relation
    then show ?thesis
      using q i by (simp only:) (rule win_moves_next, auto simp: win_stage_def win_cursor_default_def)
  next
    case partition
    moreover have "i = win_last_stage m" using partition(1) rel i by (simp add: win_last_stage_def)
    ultimately show ?thesis
      using q by (auto simp: win_moves_def win_stage_def win_cursor_default_def)
  next
    case ended
    then show ?thesis using rel i by (simp add: win_moves_def win_last_stage_def)
  qed
  then show ?thesis using facts by simp
qed

section \<open>One step of the machine\<close>

lemma win_drain_step:
  assumes step: "win_apply m c r b = Inr (n, f)" and after: "win_phase_after (wn_phase c) = Inr after"
    and count: "win_function_count m \<le> u32_max" and stage: "win_stage m (wn_phase c) = Some x"
  shows "win_moves m c after x n \<and> win_drain_facts m (snd x) f b"
proof -
  have v: "win_phase_ok m (wn_phase c)"
    using win_apply_valid[OF step] win_valid_drain[OF after] by simp
  obtain a where act: "win_action_of m c = Inr a"
      "(case (a, r) of
       (WDoAdmit input, WAdmitted a) \<Rightarrow> win_apply_admission m input a b
     | (WDoEnumerate q cur, WEnumerated page) \<Rightarrow> win_apply_internal_page m c q cur page SEnumerate b
     | (WBuildPeers q cur, WPeersBuilt page) \<Rightarrow> win_apply_internal_page m c q cur page SPeers b
     | (WBuildFrames q cur, WFramesBuilt page) \<Rightarrow> win_apply_internal_page m c q cur page SFrames b
     | (WDoFold q ordinal cur, WFolded page) \<Rightarrow> win_apply_fold m c q ordinal cur page b
     | (WDoEvaluate q ordinal cur, WEvaluated page) \<Rightarrow> win_apply_evaluation m c q ordinal cur page b
     | (WDoDiff q leg cur, WDiffed page) \<Rightarrow> win_apply_diff c q leg cur page b
     | (WDoCleanup q cur, WCleaned page) \<Rightarrow> win_apply_cleanup m c q cur page b
     | (WForwardFrontier i, WForwarded f) \<Rightarrow> win_apply_frontier f b
     | _ \<Rightarrow> Inl ''database returned facts for another Window phase'') = Inr (n, f)"
    using step unfolding win_apply_def bind_res_Inr by blast
  show ?thesis
  proof (cases "wn_phase c")
    case (WEnumerate q cur after')
    then obtain page where "win_apply_internal_page m c q cur page SEnumerate b = Inr (n, f)"
      using act by (cases r) (auto simp: win_action_of_def bind_res_Inr)
    then show ?thesis
      using v WEnumerate stage by (intro win_internal_step[OF _ after _ count]) (auto simp: win_stage_def)
  next
    case (WPeers q cur after')
    then obtain page where "win_apply_internal_page m c q cur page SPeers b = Inr (n, f)"
      using act by (cases r) (auto simp: win_action_of_def bind_res_Inr)
    then show ?thesis
      using v WPeers stage by (intro win_internal_step[OF _ after _ count]) (auto simp: win_stage_def)
  next
    case (WFrames q cur after')
    then obtain page where "win_apply_internal_page m c q cur page SFrames b = Inr (n, f)"
      using act by (cases r) (auto simp: win_action_of_def bind_res_Inr)
    then show ?thesis
      using v WFrames stage by (intro win_internal_step[OF _ after _ count]) (auto simp: win_stage_def)
  next
    case (WFold q ordinal cur after')
    then obtain page where "win_apply_fold m c q ordinal cur page b = Inr (n, f)"
      using act by (cases r) (auto simp: win_action_of_def bind_res_Inr)
    then show ?thesis
      using win_fold_step[OF _ after _ count] v WFold stage by (auto simp: win_stage_def)
  next
    case (WEvaluate q ordinal cur after')
    then obtain page where "win_apply_evaluation m c q ordinal cur page b = Inr (n, f)"
      using act by (cases r) (auto simp: win_action_of_def bind_res_Inr)
    then show ?thesis
      using win_evaluation_step[OF _ after _ count] v WEvaluate stage by (auto simp: win_stage_def)
  next
    case (WDiff q leg cur after')
    then obtain page where "win_apply_diff c q leg cur page b = Inr (n, f)"
      using act by (cases r) (auto simp: win_action_of_def bind_res_Inr)
    moreover have "x = (q, win_function_count m + (case leg of WRemove \<Rightarrow> 3 | WAdd \<Rightarrow> 4))"
      using stage WDiff by (cases leg) (simp_all add: win_stage_def)
    ultimately show ?thesis
      using win_diff_step[OF _ after, of q leg cur page b n f] v WDiff by simp
  next
    case (WCleanup q cur after')
    then obtain page where "win_apply_cleanup m c q cur page b = Inr (n, f)"
      using act by (cases r) (auto simp: win_action_of_def bind_res_Inr)
    then show ?thesis
      using win_cleanup_step[OF _ after, of m q cur page b n f] v WCleanup stage
      by (auto simp: win_stage_def)
  qed (use after in simp_all)
qed

text \<open>Outside a drain: the admission of a chunk, and the frontier.\<close>

lemma win_input_step:
  assumes step: "win_apply m c r b = Inr (n, f)" and outside: "win_phase_after (wn_phase c) = Inl e"
  shows "primitive_validate f b = Inr ()"
    and "wn_phase c = WAdmit \<Longrightarrow> pr_output f = NoOutput \<and> 0 < input_rows (pr_usage f)
      \<and> (case n of None \<Rightarrow> True | Some c' \<Rightarrow> win_valid m c')"
    and "wn_phase c = WFrontier \<Longrightarrow> is_frontier_output (pr_output f) \<and> n = None"
proof -
  have phase: "wn_phase c = WAdmit \<or> wn_phase c = WFrontier" using outside by (cases "wn_phase c") auto
  have adm: "\<exists>i a. win_apply_admission m i a b = Inr (n, f)" if "wn_phase c = WAdmit"
  proof -
    obtain a where a: "win_action_of m c = Inr a"
      using step unfolding win_apply_def bind_res_Inr by blast
    moreover from a that obtain i where "a = WDoAdmit i"
      by (auto simp: win_action_of_def bind_res_Inr)
    ultimately show ?thesis using step by (cases r) (auto simp: win_apply_def)
  qed
  have fr: "win_apply_frontier f b = Inr (n, f)" if front: "wn_phase c = WFrontier"
  proof -
    obtain a where a: "win_action_of m c = Inr a"
      using step unfolding win_apply_def bind_res_Inr by blast
    moreover from a front obtain i where "a = WForwardFrontier i"
      by (auto simp: win_action_of_def bind_res_Inr)
    ultimately obtain g where "win_apply_frontier g b = Inr (n, f)"
      using step by (cases r) (auto simp: win_apply_def)
    moreover from this have "f = g" by (auto simp: win_apply_frontier_def bind_res_Inr split: if_splits)
    ultimately show ?thesis by simp
  qed
  have a: "primitive_validate f b = Inr () \<and> pr_output f = NoOutput \<and> 0 < input_rows (pr_usage f)
      \<and> (case n of None \<Rightarrow> True | Some c' \<Rightarrow> win_valid m c')" if "wn_phase c = WAdmit"
    using adm[OF that]
    by (auto simp: win_apply_admission_def bind_res_Inr win_no_output_Inr win_valid_def
        split: if_splits option.splits)
  have g: "primitive_validate f b = Inr () \<and> is_frontier_output (pr_output f) \<and> n = None"
    if "wn_phase c = WFrontier"
    using fr[OF that] by (auto simp: win_apply_frontier_def bind_res_Inr validate_protocol_Inr split: if_splits)
  show "primitive_validate f b = Inr ()" using phase a g by blast
  show "wn_phase c = WAdmit \<Longrightarrow> pr_output f = NoOutput \<and> 0 < input_rows (pr_usage f)
      \<and> (case n of None \<Rightarrow> True | Some c' \<Rightarrow> win_valid m c')" using a by blast
  show "wn_phase c = WFrontier \<Longrightarrow> is_frontier_output (pr_output f) \<and> n = None" using g by blast
qed

section \<open>The contract of the machine\<close>

text \<open>The runtime builds the machine of a plan for every step and applies the facts to it.\<close>

definition win_step_machine ::
    "win_function list \<Rightarrow> win_continuation \<Rightarrow> win_result \<Rightarrow> work_budget \<Rightarrow> win_transition result" where
  "win_step_machine kinds c r b = bind_res (win_machine_new kinds) (\<lambda>m. win_apply m c r b)"

abbreviation win_of :: "win_function list \<Rightarrow> win_machine" where
  "win_of kinds \<equiv> \<lparr>wm_function_kinds = kinds\<rparr>"

lemma win_step_machine_Inr:
  "win_step_machine kinds c r b = Inr t \<longleftrightarrow>
     kinds \<noteq> [] \<and> length kinds + 4 \<le> u32_max \<and> win_apply (win_of kinds) c r b = Inr t"
  by (auto simp: win_step_machine_def win_machine_new_def)

definition win_epoch :: "win_continuation \<Rightarrow> win_after option" where
  "win_epoch c = (case win_phase_after (wn_phase c) of Inl _ \<Rightarrow> None | Inr after \<Rightarrow> Some after)"

lemma win_resume_next: "win_resume (win_next c i p) after = win_resume c after"
  by (cases after) (simp_all add: win_next_def)

lemma win_resume_valid:
  assumes "win_validate_after (wn_input_stream_id c) after = Inr ()" "win_resume c after = Some c'"
  shows "win_valid m c'"
  using assms by (cases after) (auto simp: win_valid_input win_next_def win_after_Inr)

lemma win_step_valid:
  assumes step: "win_step_machine kinds c r b = Inr (Some c', f)"
  shows "win_valid (win_of kinds) c'"
proof -
  let ?m = "win_of kinds"
  have ap: "win_apply ?m c r b = Inr (Some c', f)" and count: "win_function_count ?m \<le> u32_max"
    using step by (auto simp: win_step_machine_Inr win_function_count_def)
  have valid: "win_valid ?m c" by (rule win_apply_valid[OF ap])
  show ?thesis
  proof (cases "win_phase_after (wn_phase c)")
    case (Inl e)
    then have "wn_phase c = WAdmit \<or> wn_phase c = WFrontier" by (cases "wn_phase c") auto
    then show ?thesis using win_input_step[OF ap Inl] by auto
  next
    case (Inr after)
    then obtain x where x: "win_stage ?m (wn_phase c) = Some x" using win_stage_drain by blast
    have after: "win_validate_after (wn_input_stream_id c) after = Inr ()"
      using valid win_valid_drain[OF Inr] by simp
    have "win_moves ?m c after x (Some c')" using win_drain_step[OF ap Inr count x] by simp
    then consider p where "c' = win_next c None p" "win_phase_after p = Inr after" "win_phase_ok ?m p"
      | "win_resume c after = Some c'"
      unfolding win_moves_def by auto
    then show ?thesis
    proof cases
      case 1
      then show ?thesis using after by (simp add: win_valid_drain win_next_def)
    next
      case 2
      then show ?thesis by (rule win_resume_valid[OF after])
    qed
  qed
qed

lemma win_step_budget:
  assumes step: "win_step_machine kinds c r b = Inr (n, f)"
  shows "primitive_validate f b = Inr ()"
    and "is_frontier_output (pr_output f) \<Longrightarrow> n = None"
proof -
  let ?m = "win_of kinds"
  have ap: "win_apply ?m c r b = Inr (n, f)" and count: "win_function_count ?m \<le> u32_max"
    using step by (auto simp: win_step_machine_Inr win_function_count_def)
  have "primitive_validate f b = Inr () \<and> (is_frontier_output (pr_output f) \<longrightarrow> n = None)"
  proof (cases "win_phase_after (wn_phase c)")
    case (Inl e)
    then have "wn_phase c = WAdmit \<or> wn_phase c = WFrontier" by (cases "wn_phase c") auto
    then show ?thesis using win_input_step[OF ap Inl] by auto
  next
    case (Inr after)
    then obtain x where x: "win_stage ?m (wn_phase c) = Some x" using win_stage_drain by blast
    then show ?thesis using win_drain_step[OF ap Inr count x] by (simp add: win_drain_facts_def)
  qed
  then show "primitive_validate f b = Inr ()" "is_frontier_output (pr_output f) \<Longrightarrow> n = None" by blast+
qed

lemma win_epoch_kept:
  assumes step: "win_step_machine kinds c r b = Inr (n, f)" and epoch: "win_epoch c = Some after"
  shows "(\<exists>c'. n = Some c' \<and> win_epoch c' = Some after \<and> win_resume c' after = win_resume c after)
    \<or> n = win_resume c after"
proof -
  let ?m = "win_of kinds"
  have ap: "win_apply ?m c r b = Inr (n, f)" and count: "win_function_count ?m \<le> u32_max"
    using step by (auto simp: win_step_machine_Inr win_function_count_def)
  have ph: "win_phase_after (wn_phase c) = Inr after"
    using epoch by (simp add: win_epoch_def split: sum.splits)
  then obtain x where x: "win_stage ?m (wn_phase c) = Some x" using win_stage_drain by blast
  have "win_moves ?m c after x n" using win_drain_step[OF ap ph count x] by simp
  then show ?thesis
    unfolding win_moves_def by (auto simp: win_epoch_def win_resume_next)
qed

interpretation window: draining_machine
    "win_valid (win_of kinds)" "win_step_machine kinds" win_epoch win_resume
  for kinds
proof
  show "win_step_machine kinds c r b = Inr (n, f) \<Longrightarrow> win_valid (win_of kinds) c" for c r b n f
    by (auto simp: win_step_machine_Inr intro: win_apply_valid)
  show "win_step_machine kinds c r b = Inr (Some c', f) \<Longrightarrow> win_valid (win_of kinds) c'" for c r b c' f
    by (rule win_step_valid)
  show "win_step_machine kinds c r b = Inr (n, f) \<Longrightarrow> primitive_validate f b = Inr ()" for c r b n f
    by (rule win_step_budget)
  show "win_step_machine kinds c r b = Inr (n, f) \<Longrightarrow> is_frontier_output (pr_output f) \<Longrightarrow> n = None"
    for c r b n f by (rule win_step_budget)
  show "win_step_machine kinds c r b = Inr (n, f) \<Longrightarrow> win_epoch c = Some e \<Longrightarrow>
      (\<exists>c'. n = Some c' \<and> win_epoch c' = Some e \<and> win_resume c' e = win_resume c e)
      \<or> n = win_resume c e" for c r b n f e
    by (rule win_epoch_kept)
qed

definition win_stage_of :: "win_function list \<Rightarrow> win_continuation \<Rightarrow> (int \<times> nat) option" where
  "win_stage_of kinds c = win_stage (win_of kinds) (wn_phase c)"

text \<open>A drain of Window works through the partitions, each from stage 0 to the last.\<close>

interpretation window_stages: staged_machine
    "win_step_machine kinds" "win_stage_of kinds" 0 "\<lambda>i. i = length kinds + 8"
  for kinds
proof
  fix c r b c' f q i q' k
  assume step: "win_step_machine kinds c r b = Inr (Some c', f)"
    and s: "win_stage_of kinds c = Some (q, i)" "win_stage_of kinds c' = Some (q', k)"
  let ?m = "win_of kinds"
  have ap: "win_apply ?m c r b = Inr (Some c', f)" and count: "win_function_count ?m \<le> u32_max"
    using step by (auto simp: win_step_machine_Inr win_function_count_def)
  have x: "win_stage ?m (wn_phase c) = Some (q, i)" using s(1) by (simp add: win_stage_of_def)
  then obtain after where ph: "win_phase_after (wn_phase c) = Inr after" using win_stage_drain by blast
  have "win_moves ?m c after (q, i) (Some c')" using win_drain_step[OF ap ph count x] by simp
  moreover have "win_resume c after \<noteq> Some c'"
    using s(2) by (cases after) (auto simp: win_stage_of_def win_stage_def win_next_def)
  ultimately show "q' = q \<and> (k = i \<or> k = Suc i) \<or> q < q' \<and> k = 0 \<and> i = length kinds + 8"
    using s(2) by (auto simp: win_moves_def win_stage_of_def win_next_def win_last_stage_def
        win_function_count_def)
qed

end
