(* ===== verification/Window_Codec.thy ===== *)
theory Window_Codec
  imports Window_Properties Continuation_Codec
begin

text \<open>
  The durable form of a Window continuation (\<open>src/execution/window/step.rs\<close>).  The ordinals of a
  function and of a work relation are stored as an \<open>integer\<close>, so that encoding can fail.
\<close>

section \<open>Rows\<close>

record win_fields =
  wx_phase :: int
  wx_input_stream_id :: int
  wx_input_chunk_seq :: "int option"
  wx_input_row_ordinal :: "int option"
  wx_partition_queue_id :: "int option"
  wx_function_ordinal :: "int option"
  wx_output_ordinal :: "int option"
  wx_cursor_row_id :: "int option"
  wx_fold_ready :: bool
  wx_cursor_repeat :: bool
  wx_diff_leg :: "int option"
  wx_cleanup_ordinal :: "int option"
  wx_after_kind :: "int option"
  wx_after_chunk_seq :: "int option"
  wx_after_row_ordinal :: "int option"

definition win_decode_after :: "win_fields \<Rightarrow> win_after result" where
  "win_decode_after f =
     (case (wx_after_kind f, wx_after_chunk_seq f, wx_after_row_ordinal f) of
        (Some kind, Some chunk, Some row) \<Rightarrow>
          if kind = 1
          then bind_res (input_position_new (wx_input_stream_id f) chunk row) (\<lambda>i.
               Inr (WAdmitAfter i))
          else if kind = 3
          then bind_res (input_position_new (wx_input_stream_id f) chunk row) (\<lambda>i.
               Inr (WFrontierAfter i))
          else Inl ''Window continuation has an invalid partition target''
      | (Some kind, None, None) \<Rightarrow>
          if kind = 2 then Inr WFinishInput
          else Inl ''Window continuation has an invalid partition target''
      | _ \<Rightarrow> Inl ''Window continuation has an invalid partition target'')"

definition win_decode_input :: "win_fields \<Rightarrow> input_position option result" where
  "win_decode_input f =
     (case (wx_input_chunk_seq f, wx_input_row_ordinal f) of
        (Some chunk, Some row) \<Rightarrow>
          bind_res (input_position_new (wx_input_stream_id f) chunk row) (\<lambda>i. Inr (Some i))
      | (None, None) \<Rightarrow> Inr None
      | _ \<Rightarrow> Inl ''Window continuation has a partial input cursor'')"

definition win_decode_queue :: "win_fields \<Rightarrow> int result" where
  "win_decode_queue f =
     ok_or ''Window continuation omitted its partition'' (wx_partition_queue_id f)"

definition win_plain :: "win_fields \<Rightarrow> unit result" where
  "win_plain f =
     (if wx_function_ordinal f \<noteq> None \<or> wx_output_ordinal f \<noteq> None \<or> wx_cursor_repeat f
         \<or> wx_diff_leg f \<noteq> None \<or> wx_cleanup_ordinal f \<noteq> None
      then Inl ''Window continuation contains another phase's fields'' else Inr ())"

definition win_decode_rows ::
    "win_fields \<Rightarrow> (int \<Rightarrow> win_cursor \<Rightarrow> win_after \<Rightarrow> win_phase) \<Rightarrow> win_phase result" where
  "win_decode_rows f build =
     bind_res (win_plain f) (\<lambda>_.
     bind_res (win_decode_queue f) (\<lambda>q.
     bind_res (win_decode_after f) (\<lambda>after.
     Inr (build q \<lparr>wc_row_id = wx_cursor_row_id f\<rparr> after))))"

text \<open>\<open>u32::try_from\<close> of an \<open>integer\<close>.\<close>

definition win_ordinal :: "int \<Rightarrow> string \<Rightarrow> nat result" where
  "win_ordinal v text = (if v < 0 then Inl text else Inr (nat v))"

definition win_decode_phase :: "win_fields \<Rightarrow> win_kind \<Rightarrow> win_phase result" where
  "win_decode_phase f kind =
     (case kind of
        KEnumerate \<Rightarrow> win_decode_rows f WEnumerate
      | KPeers \<Rightarrow> win_decode_rows f WPeers
      | KFrames \<Rightarrow> win_decode_rows f WFrames
      | KFold \<Rightarrow>
          if wx_cursor_repeat f \<or> wx_diff_leg f \<noteq> None \<or> wx_cleanup_ordinal f \<noteq> None
          then Inl ''Window function continuation contains another phase's fields''
          else
            bind_res (ok_or ''Window function continuation omitted its ordinal'' (wx_function_ordinal f)) (\<lambda>v.
            bind_res (win_ordinal v ''Window function ordinal is negative'') (\<lambda>ordinal.
            bind_res (win_decode_queue f) (\<lambda>q.
            bind_res (ok_or ''Window aggregate fold omitted its output ordinal'' (wx_output_ordinal f)) (\<lambda>out.
            bind_res (win_decode_after f) (\<lambda>after.
            Inr (WFold q ordinal \<lparr>wf_output_ordinal = out, wf_last_frame_ordinal = wx_cursor_row_id f,
                   wf_ready_to_finalize = wx_fold_ready f\<rparr> after))))))
      | KEvaluate \<Rightarrow>
          if wx_cursor_repeat f \<or> wx_diff_leg f \<noteq> None \<or> wx_cleanup_ordinal f \<noteq> None
          then Inl ''Window function continuation contains another phase's fields''
          else
            bind_res (ok_or ''Window function continuation omitted its ordinal'' (wx_function_ordinal f)) (\<lambda>v.
            bind_res (win_ordinal v ''Window function ordinal is negative'') (\<lambda>ordinal.
            if wx_output_ordinal f \<noteq> None
            then Inl ''Window native evaluation contains an output ordinal''
            else
              bind_res (win_decode_queue f) (\<lambda>q.
              bind_res (win_decode_after f) (\<lambda>after.
              Inr (WEvaluate q ordinal \<lparr>wc_row_id = wx_cursor_row_id f\<rparr> after)))))
      | KDiff \<Rightarrow>
          if wx_function_ordinal f \<noteq> None \<or> wx_output_ordinal f \<noteq> None \<or> wx_cleanup_ordinal f \<noteq> None
          then Inl ''Window Diff continuation contains another phase's fields''
          else
            bind_res (win_decode_queue f) (\<lambda>q.
            bind_res
              (if wx_diff_leg f = Some 1 then Inr WRemove
               else if wx_diff_leg f = Some 2 then Inr WAdd
               else Inl ''Window Diff continuation has an invalid leg'') (\<lambda>leg.
            bind_res (win_decode_after f) (\<lambda>after.
            Inr (WDiff q leg \<lparr>wd_row_id = wx_cursor_row_id f, wd_repeat = wx_cursor_repeat f\<rparr> after))))
      | KCleanup \<Rightarrow>
          if wx_function_ordinal f \<noteq> None \<or> wx_output_ordinal f \<noteq> None \<or> wx_cursor_repeat f
             \<or> wx_diff_leg f \<noteq> None
          then Inl ''Window Cleanup continuation contains another phase's fields''
          else
            bind_res (win_decode_queue f) (\<lambda>q.
            bind_res (ok_or ''Window Cleanup continuation omitted its relation'' (wx_cleanup_ordinal f)) (\<lambda>v.
            bind_res (win_ordinal v ''Window cleanup ordinal is negative'') (\<lambda>rel.
            bind_res (win_decode_after f) (\<lambda>after.
            Inr (WCleanup q \<lparr>wk_relation_ordinal = rel, wk_row = \<lparr>wc_row_id = wx_cursor_row_id f\<rparr>\<rparr> after)))))
      | _ \<Rightarrow>
          if wx_partition_queue_id f \<noteq> None \<or> wx_function_ordinal f \<noteq> None \<or> wx_output_ordinal f \<noteq> None
             \<or> wx_cursor_row_id f \<noteq> None \<or> wx_cursor_repeat f \<or> wx_diff_leg f \<noteq> None
             \<or> wx_cleanup_ordinal f \<noteq> None \<or> wx_after_kind f \<noteq> None \<or> wx_after_chunk_seq f \<noteq> None
             \<or> wx_after_row_ordinal f \<noteq> None
          then Inl ''Window idle phase contains work fields''
          else Inr (if kind = KAdmit then WAdmit else WFrontier))"

definition decode_window_fields :: "win_fields \<Rightarrow> win_continuation result" where
  "decode_window_fields f =
     bind_res (win_decode_input f) (\<lambda>input.
     bind_res (phase_code_active (wx_phase f)) (\<lambda>code.
     bind_res (win_kind_from_code code) (\<lambda>kind.
     if kind \<noteq> KFold \<and> wx_fold_ready f
     then Inl ''non-Fold Window continuation contains ready state''
     else
       bind_res (win_decode_phase f kind) (\<lambda>phase.
       Inr \<lparr>wn_input_stream_id = wx_input_stream_id f, wn_input = input, wn_phase = phase\<rparr>))))"

fun encode_window_after :: "win_fields \<Rightarrow> win_after \<Rightarrow> win_fields" where
  "encode_window_after f (WAdmitAfter i) =
     f\<lparr>wx_after_kind := Some 1, wx_after_chunk_seq := Some (ip_chunk_seq i),
       wx_after_row_ordinal := Some (ip_row_ordinal i)\<rparr>"
| "encode_window_after f WFinishInput = f\<lparr>wx_after_kind := Some 2\<rparr>"
| "encode_window_after f (WFrontierAfter i) =
     f\<lparr>wx_after_kind := Some 3, wx_after_chunk_seq := Some (ip_chunk_seq i),
       wx_after_row_ordinal := Some (ip_row_ordinal i)\<rparr>"

definition win_i32 :: "nat \<Rightarrow> string \<Rightarrow> int result" where
  "win_i32 v text = (if i32_max < int v then Inl text else Inr (int v))"

definition win_encode_phase :: "win_fields \<Rightarrow> win_phase \<Rightarrow> win_fields result" where
  "win_encode_phase f p =
     (case p of
        WAdmit \<Rightarrow> Inr f
      | WFrontier \<Rightarrow> Inr f
      | WEnumerate q cur after \<Rightarrow>
          Inr (encode_window_after (f\<lparr>wx_partition_queue_id := Some q, wx_cursor_row_id := wc_row_id cur\<rparr>) after)
      | WPeers q cur after \<Rightarrow>
          Inr (encode_window_after (f\<lparr>wx_partition_queue_id := Some q, wx_cursor_row_id := wc_row_id cur\<rparr>) after)
      | WFrames q cur after \<Rightarrow>
          Inr (encode_window_after (f\<lparr>wx_partition_queue_id := Some q, wx_cursor_row_id := wc_row_id cur\<rparr>) after)
      | WFold q ordinal cur after \<Rightarrow>
          bind_res (win_i32 ordinal ''Window function exceeds i32'') (\<lambda>v.
          Inr (encode_window_after (f\<lparr>wx_partition_queue_id := Some q, wx_function_ordinal := Some v,
            wx_output_ordinal := Some (wf_output_ordinal cur), wx_cursor_row_id := wf_last_frame_ordinal cur,
            wx_fold_ready := wf_ready_to_finalize cur\<rparr>) after))
      | WEvaluate q ordinal cur after \<Rightarrow>
          bind_res (win_i32 ordinal ''Window function exceeds i32'') (\<lambda>v.
          Inr (encode_window_after (f\<lparr>wx_partition_queue_id := Some q, wx_function_ordinal := Some v,
            wx_cursor_row_id := wc_row_id cur\<rparr>) after))
      | WDiff q leg cur after \<Rightarrow>
          Inr (encode_window_after (f\<lparr>wx_partition_queue_id := Some q, wx_cursor_row_id := wd_row_id cur,
            wx_cursor_repeat := wd_repeat cur,
            wx_diff_leg := Some (case leg of WRemove \<Rightarrow> 1 | WAdd \<Rightarrow> 2)\<rparr>) after)
      | WCleanup q cur after \<Rightarrow>
          bind_res (win_i32 (wk_relation_ordinal cur) ''Window cleanup ordinal exceeds i32'') (\<lambda>v.
          Inr (encode_window_after (f\<lparr>wx_partition_queue_id := Some q, wx_cleanup_ordinal := Some v,
            wx_cursor_row_id := wc_row_id (wk_row cur)\<rparr>) after)))"

definition encode_window_fields :: "win_continuation \<Rightarrow> win_fields result" where
  "encode_window_fields c =
     win_encode_phase \<lparr>wx_phase = win_kind_code (win_kind_of (wn_phase c)),
       wx_input_stream_id = wn_input_stream_id c,
       wx_input_chunk_seq = map_option ip_chunk_seq (wn_input c),
       wx_input_row_ordinal = map_option ip_row_ordinal (wn_input c),
       wx_partition_queue_id = None, wx_function_ordinal = None, wx_output_ordinal = None,
       wx_cursor_row_id = None, wx_fold_ready = False, wx_cursor_repeat = False, wx_diff_leg = None,
       wx_cleanup_ordinal = None, wx_after_kind = None, wx_after_chunk_seq = None,
       wx_after_row_ordinal = None\<rparr> (wn_phase c)"

section \<open>Round trips\<close>

text \<open>The columns are integers of PostgreSQL; of the two ordinals only the range matters.\<close>

definition win_canonical :: "win_fields \<Rightarrow> bool" where
  "win_canonical f \<longleftrightarrow> (\<forall>v. wx_function_ordinal f = Some v \<or> wx_cleanup_ordinal f = Some v \<longrightarrow> v \<le> i32_max)"

definition win_codable :: "win_machine \<Rightarrow> win_continuation \<Rightarrow> bool" where
  "win_codable m c \<longleftrightarrow> win_valid m c \<and> int (win_function_count m) \<le> i32_max"

lemma win_kind_code_active: "phase_code_active (win_kind_code k) = Inr (win_kind_code k)"
  by (cases k) (simp_all add: phase_code_active_def)

lemma win_kind_from_code_Inr: "win_kind_from_code v = Inr k \<longleftrightarrow> v = win_kind_code k"
  by (cases k) (auto simp: win_kind_from_code_def split: if_splits)

lemma win_decode_after_Inr:
  "win_decode_after f = Inr after \<longleftrightarrow>
     (case after of
        WFinishInput \<Rightarrow> wx_after_kind f = Some 2 \<and> wx_after_chunk_seq f = None \<and> wx_after_row_ordinal f = None
      | WAdmitAfter i \<Rightarrow> wx_after_kind f = Some 1 \<and> wx_after_chunk_seq f = Some (ip_chunk_seq i) \<and>
          wx_after_row_ordinal f = Some (ip_row_ordinal i) \<and>
          win_validate_input i = Inr () \<and> ip_stream_id i = wx_input_stream_id f
      | WFrontierAfter i \<Rightarrow> wx_after_kind f = Some 3 \<and> wx_after_chunk_seq f = Some (ip_chunk_seq i) \<and>
          wx_after_row_ordinal f = Some (ip_row_ordinal i) \<and>
          win_validate_input i = Inr () \<and> ip_stream_id i = wx_input_stream_id f)"
  by (cases after; cases "wx_after_kind f"; cases "wx_after_chunk_seq f"; cases "wx_after_row_ordinal f")
    (auto simp: win_decode_after_def input_position_new_def win_input_Inr)

lemma encode_window_after_keeps [simp]:
  "wx_phase (encode_window_after f a) = wx_phase f"
  "wx_input_stream_id (encode_window_after f a) = wx_input_stream_id f"
  "wx_input_chunk_seq (encode_window_after f a) = wx_input_chunk_seq f"
  "wx_input_row_ordinal (encode_window_after f a) = wx_input_row_ordinal f"
  "wx_partition_queue_id (encode_window_after f a) = wx_partition_queue_id f"
  "wx_function_ordinal (encode_window_after f a) = wx_function_ordinal f"
  "wx_output_ordinal (encode_window_after f a) = wx_output_ordinal f"
  "wx_cursor_row_id (encode_window_after f a) = wx_cursor_row_id f"
  "wx_fold_ready (encode_window_after f a) = wx_fold_ready f"
  "wx_cursor_repeat (encode_window_after f a) = wx_cursor_repeat f"
  "wx_diff_leg (encode_window_after f a) = wx_diff_leg f"
  "wx_cleanup_ordinal (encode_window_after f a) = wx_cleanup_ordinal f"
  by (cases a; simp)+

lemma win_decode_encode_after:
  "win_validate_after (wx_input_stream_id f) a = Inr () \<Longrightarrow> wx_after_chunk_seq f = None \<Longrightarrow>
     wx_after_row_ordinal f = None \<Longrightarrow> win_decode_after (encode_window_after f a) = Inr a"
  by (cases a) (auto simp: win_decode_after_Inr win_after_Inr)

lemmas win_code_defs = encode_window_fields_def win_encode_phase_def decode_window_fields_def
  win_decode_input_def win_decode_phase_def win_decode_rows_def win_plain_def win_decode_queue_def
  win_ordinal_def win_i32_def win_canonical_def ok_or_def win_kind_code_active

lemma win_kind_from_code [simp]: "win_kind_from_code (win_kind_code k) = Inr k"
  by (simp add: win_kind_from_code_Inr)

lemma win_function_fits:
  assumes "win_function_kind m ordinal = Inr kind" "int (win_function_count m) \<le> i32_max"
  shows "int ordinal \<le> i32_max"
proof -
  have "win_function_count m \<le> u32_max" using assms(2) by (simp add: i32_max_def u32_max_def)
  then show ?thesis using assms by (simp add: win_function_kind_Inr)
qed

lemma win_decode_encode:
  assumes "win_codable m c"
  shows "\<exists>f. encode_window_fields c = Inr f \<and> win_canonical f \<and> decode_window_fields f = Inr c"
proof -
  have v: "win_valid m c" and max: "int (win_function_count m) \<le> i32_max"
    using assms by (auto simp: win_codable_def)
  have fits: "int ordinal \<le> i32_max" if "win_function_kind m ordinal = Inr kind" for ordinal kind
    using win_function_fits[OF that max] by simp
  have small: "int k \<le> i32_max" if "k < 4" for k using that by (simp add: i32_max_def)
  show ?thesis
  proof (cases "win_phase_after (wn_phase c)")
    case (Inl e)
    then show ?thesis
      using v by (cases c; cases "wn_phase c") (auto simp: win_valid_input win_code_defs win_input_Inr
        input_position_new_def simp del: win_kind_code.simps)
  next
    case (Inr after)
    then show ?thesis
      using v unfolding win_valid_drain[OF Inr]
      by (cases c; cases "wn_phase c") (auto simp: win_code_defs win_decode_encode_after
        simp del: win_kind_code.simps dest: fits small split: win_leg.splits)
  qed
qed

lemma win_encode_decode:
  assumes "win_canonical f" "decode_window_fields f = Inr c"
  shows "encode_window_fields c = Inr f"
proof -
  obtain i kind ph where i: "win_decode_input f = Inr i" and kind: "wx_phase f = win_kind_code kind"
      and ready: "kind = KFold \<or> \<not> wx_fold_ready f" and ph: "win_decode_phase f kind = Inr ph"
      and c: "c = \<lparr>wn_input_stream_id = wx_input_stream_id f, wn_input = i, wn_phase = ph\<rparr>"
    using assms(2) by (auto simp: decode_window_fields_def bind_res_Inr win_kind_from_code_Inr
        phase_code_active_def split: if_splits)
  have input: "map_option ip_chunk_seq i = wx_input_chunk_seq f"
      "map_option ip_row_ordinal i = wx_input_row_ordinal f"
    using i by (auto simp: win_decode_input_def bind_res_Inr input_position_new_def
        split: option.splits if_splits)
  have after: "encode_window_after f' a = f"
    if "win_decode_after f = Inr a" "f = f'\<lparr>wx_after_kind := wx_after_kind f,
      wx_after_chunk_seq := wx_after_chunk_seq f, wx_after_row_ordinal := wx_after_row_ordinal f\<rparr>"
      "wx_after_chunk_seq f' = None" "wx_after_row_ordinal f' = None" for f' a
    using that by (cases a; cases f; cases f') (auto simp: win_decode_after_Inr)
  have kind_of: "win_kind_of ph = kind"
    using ph by (cases kind) (auto simp: win_decode_phase_def win_decode_rows_def bind_res_Inr split: if_splits)
  show ?thesis
    using ph ready input assms(1) kind kind_of unfolding c
    by (cases kind) (auto simp: win_decode_phase_def win_decode_rows_def win_plain_def win_decode_queue_def
        win_ordinal_def win_i32_def win_canonical_def encode_window_fields_def win_encode_phase_def
        bind_res_Inr ok_or_Inr split: if_splits intro!: after)
qed

interpretation win_codec: continuation_codec
  "win_codable m" win_canonical encode_window_fields decode_window_fields for m
  by unfold_locales (auto intro: win_decode_encode win_encode_decode)

end
