(* ===== verification/Window_Guarantees.thy ===== *)
theory Window_Guarantees
  imports Window_Codec
begin

text \<open>
  The guarantees of the Window operator's machine and of its durable row
  (\<open>src/execution/window/machine.rs\<close>, \<open>src/execution/window/step.rs\<close>).
\<close>

section \<open>Where rows are emitted\<close>

lemma win_emits_in_comparison:
  assumes step: "win_step_machine kinds c r b = Inr (n, f)" and s: "win_stage_of kinds c = Some (q, i)"
    and emits: "pr_output f \<noteq> NoOutput"
  shows "i = length kinds + 3 \<or> i = length kinds + 4"
proof -
  let ?m = "win_of kinds"
  have ap: "win_apply ?m c r b = Inr (n, f)" and count: "win_function_count ?m \<le> u32_max"
    using step by (auto simp: win_step_machine_Inr win_function_count_def)
  have x: "win_stage ?m (wn_phase c) = Some (q, i)" using s by (simp add: win_stage_of_def)
  then obtain after where "win_phase_after (wn_phase c) = Inr after" using win_stage_drain by blast
  from win_drain_step[OF ap this count x] emits show ?thesis
    by (simp add: win_drain_facts_def win_function_count_def)
qed

lemma win_run_emits:
  assumes run: "machine_run (win_step_machine kinds) (Some c) steps = Inr (n, fs)"
    and drain: "in_drain (win_step_machine kinds) (win_stage_of kinds) c steps"
    and p: "p < length fs" "pr_output (fs ! p) \<noteq> NoOutput"
  shows "\<exists>c1 fs1 q1 j. machine_run (win_step_machine kinds) (Some c) (take p steps) = Inr (Some c1, fs1)
    \<and> win_stage_of kinds c1 = Some (q1, j) \<and> (j = length kinds + 3 \<or> j = length kinds + 4)"
proof -
  have "p < length steps" using p machine_run_length[OF run] by simp
  then obtain c1 fs1 n1 where at: "machine_run (win_step_machine kinds) (Some c) (take p steps) = Inr (Some c1, fs1)"
      and step: "win_step_machine kinds c1 (fst (steps ! p)) (snd (steps ! p)) = Inr (n1, fs ! p)"
    using machine_run_nth[OF run] by blast
  obtain q1 j where "win_stage_of kinds c1 = Some (q1, j)"
    using in_drain_stage[OF drain _ at] \<open>p < length steps\<close> by auto
  then show ?thesis using win_emits_in_comparison[OF step _ p(2)] at by blast
qed

section \<open>A concrete run\<close>

definition ww_budget :: work_budget where
  "ww_budget = \<lparr>max_input_rows = 10, max_input_bytes = 100, max_output_rows = 4, max_output_bytes = 100\<rparr>"

definition ww_facts :: "nat \<Rightarrow> output_facts \<Rightarrow> primitive_facts" where
  "ww_facts out facts =
     \<lparr>pr_usage = \<lparr>input_rows = 3, input_bytes = 3, output_rows = out, output_bytes = out * 9\<rparr>,
      pr_state_rows = 1, pr_output = facts\<rparr>"

definition ww_page :: win_page where
  "ww_page = \<lparr>wp_facts = ww_facts 0 NoOutput, wp_last_row_id = Some 3, wp_complete = True\<rparr>"

definition ww_at :: "win_phase \<Rightarrow> win_continuation" where
  "ww_at p = \<lparr>wn_input_stream_id = 1, wn_input = None, wn_phase = p\<rparr>"

definition ww_start :: win_continuation where
  "ww_start = ww_at (WEnumerate 7 win_cursor_default WFinishInput)"

text \<open>One native function: the partition goes through its pages and both legs of the comparison.\<close>

definition ww_results :: "win_result list" where
  "ww_results =
     [WEnumerated ww_page, WPeersBuilt ww_page, WFramesBuilt ww_page, WEvaluated ww_page,
      WDiffed \<lparr>wdp_facts = ww_facts 2 (DataOutput 4), wdp_last_row_id = Some 3, wdp_complete = True,
               wdp_repeat_cursor = False\<rparr>]"

definition ww_steps :: "(win_result \<times> work_budget) list" where
  "ww_steps = map (\<lambda>r. (r, ww_budget)) ww_results"

lemmas win_run_defs =
  win_step_machine_def win_machine_new_def win_apply_def win_action_of_def win_validate_def
  win_validate_rows_def win_validate_queue_id_def win_validate_drain_def win_validate_after_def
  win_cursor_validate_def win_diff_cursor_validate_def win_apply_internal_page_def
  win_apply_evaluation_def win_apply_diff_def win_page_validate_def win_diff_page_validate_def
  win_validate_no_output_def win_after_function_def win_first_function_phase_def win_function_kind_def
  win_function_count_def win_next_def win_cursor_default_def win_diff_cursor_default_def
  primitive_validate_def usage_validate_def validate_dimension_def page_facts_validate_def
  ww_budget_def ww_facts_def ww_page_def ww_at_def ww_start_def u32_max_def

lemma ww_transitions:
  "win_step_machine [WNative] (ww_at (WEnumerate 7 win_cursor_default WFinishInput)) (WEnumerated ww_page) ww_budget
     = Inr (Some (ww_at (WPeers 7 win_cursor_default WFinishInput)), ww_facts 0 NoOutput)"
  "win_step_machine [WNative] (ww_at (WPeers 7 win_cursor_default WFinishInput)) (WPeersBuilt ww_page) ww_budget
     = Inr (Some (ww_at (WFrames 7 win_cursor_default WFinishInput)), ww_facts 0 NoOutput)"
  "win_step_machine [WNative] (ww_at (WFrames 7 win_cursor_default WFinishInput)) (WFramesBuilt ww_page) ww_budget
     = Inr (Some (ww_at (WEvaluate 7 1 win_cursor_default WFinishInput)), ww_facts 0 NoOutput)"
  "win_step_machine [WNative] (ww_at (WEvaluate 7 1 win_cursor_default WFinishInput)) (WEvaluated ww_page) ww_budget
     = Inr (Some (ww_at (WDiff 7 WRemove win_diff_cursor_default WFinishInput)), ww_facts 0 NoOutput)"
  "win_step_machine [WNative] (ww_at (WDiff 7 WRemove win_diff_cursor_default WFinishInput))
      (WDiffed \<lparr>wdp_facts = ww_facts 2 (DataOutput 4), wdp_last_row_id = Some 3, wdp_complete = True,
               wdp_repeat_cursor = False\<rparr>) ww_budget
     = Inr (Some (ww_at (WDiff 7 WAdd win_diff_cursor_default WFinishInput)), ww_facts 2 (DataOutput 4))"
  by (simp_all add: win_run_defs Let_def)

lemma ww_prefixes:
  "machine_run (win_step_machine [WNative]) (Some ww_start) (take 0 ww_steps) = Inr (Some ww_start, [])"
  "machine_run (win_step_machine [WNative]) (Some ww_start) (take 1 ww_steps)
     = Inr (Some (ww_at (WPeers 7 win_cursor_default WFinishInput)), [ww_facts 0 NoOutput])"
  "machine_run (win_step_machine [WNative]) (Some ww_start) (take 2 ww_steps)
     = Inr (Some (ww_at (WFrames 7 win_cursor_default WFinishInput)), [ww_facts 0 NoOutput, ww_facts 0 NoOutput])"
  "machine_run (win_step_machine [WNative]) (Some ww_start) (take 3 ww_steps)
     = Inr (Some (ww_at (WEvaluate 7 1 win_cursor_default WFinishInput)), [ww_facts 0 NoOutput, ww_facts 0 NoOutput, ww_facts 0 NoOutput])"
  "machine_run (win_step_machine [WNative]) (Some ww_start) (take 4 ww_steps)
     = Inr (Some (ww_at (WDiff 7 WRemove win_diff_cursor_default WFinishInput)),
         [ww_facts 0 NoOutput, ww_facts 0 NoOutput, ww_facts 0 NoOutput, ww_facts 0 NoOutput])"
  "machine_run (win_step_machine [WNative]) (Some ww_start) (take 5 ww_steps)
     = Inr (Some (ww_at (WDiff 7 WAdd win_diff_cursor_default WFinishInput)),
         [ww_facts 0 NoOutput, ww_facts 0 NoOutput, ww_facts 0 NoOutput, ww_facts 0 NoOutput, ww_facts 2 (DataOutput 4)])"
  by (simp_all add: ww_steps_def ww_results_def ww_start_def ww_transitions ww_transitions[unfolded One_nat_def]
      take_Cons')

lemma ww_drain: "in_drain (win_step_machine [WNative]) (win_stage_of [WNative]) ww_start ww_steps"
  unfolding in_drain_def
proof (intro allI impI)
  fix p assume "p \<le> length ww_steps"
  then have "p = 0 \<or> p = 1 \<or> p = 2 \<or> p = 3 \<or> p = 4 \<or> p = 5"
    by (auto simp: ww_steps_def ww_results_def)
  then show "\<exists>c' fs. machine_run (win_step_machine [WNative]) (Some ww_start) (take p ww_steps)
        = Inr (Some c', fs) \<and> win_stage_of [WNative] c' \<noteq> None"
    using ww_prefixes by (auto simp: win_stage_of_def win_stage_def ww_start_def ww_at_def)
qed

section \<open>Guarantees\<close>

text \<open>
  C19: A drain of the Window machine works through the dirty partitions in the order of their queue
  and takes each through every stage in order: enumeration, peers, frames, the functions of the
  plan, the comparison and the cleanup of its work relations.  It leaves a partition only after the
  last work relation is cleaned, and it emits rows only in the comparison.\<close>

theorem win_drain_order:
  assumes "machine_run (win_step_machine kinds) (Some c) steps = Inr (Some c', fs)"
    "in_drain (win_step_machine kinds) (win_stage_of kinds) c steps"
    "win_stage_of kinds c = Some (q, i)" "win_stage_of kinds c' = Some (q', k)"
  shows "q \<le> q' \<and>
    (q' = q \<longrightarrow> i \<le> k \<and>
      (\<forall>j. i \<le> j \<and> j \<le> k \<longrightarrow> passes (win_step_machine kinds) (win_stage_of kinds) c steps (q, j))) \<and>
    (q < q' \<longrightarrow>
      (\<forall>j. i \<le> j \<and> j \<le> length kinds + 8 \<longrightarrow>
         passes (win_step_machine kinds) (win_stage_of kinds) c steps (q, j)) \<and>
      (\<forall>j \<le> k. passes (win_step_machine kinds) (win_stage_of kinds) c steps (q', j))) \<and>
    (\<forall>p < length fs. pr_output (fs ! p) \<noteq> NoOutput \<longrightarrow>
      (\<exists>c1 fs1 q1 j. machine_run (win_step_machine kinds) (Some c) (take p steps) = Inr (Some c1, fs1) \<and>
         win_stage_of kinds c1 = Some (q1, j) \<and> (j = length kinds + 3 \<or> j = length kinds + 4)))"
proof -
  have "\<forall>p < length fs. pr_output (fs ! p) \<noteq> NoOutput \<longrightarrow>
      (\<exists>c1 fs1 q1 j. machine_run (win_step_machine kinds) (Some c) (take p steps) = Inr (Some c1, fs1) \<and>
         win_stage_of kinds c1 = Some (q1, j) \<and> (j = length kinds + 3 \<or> j = length kinds + 4))"
    using win_run_emits[OF assms(1,2)] by blast
  then show ?thesis using window_stages.run_stages[OF assms] by simp
qed

theorem win_drain_order_witness:
  "passes (win_step_machine [WNative]) (win_stage_of [WNative]) ww_start ww_steps (7, 0)
   \<and> passes (win_step_machine [WNative]) (win_stage_of [WNative]) ww_start ww_steps (7, 3)
   \<and> passes (win_step_machine [WNative]) (win_stage_of [WNative]) ww_start ww_steps (7, 4)"
proof -
  have run: "machine_run (win_step_machine [WNative]) (Some ww_start) ww_steps
     = Inr (Some (ww_at (WDiff 7 WAdd win_diff_cursor_default WFinishInput)),
         [ww_facts 0 NoOutput, ww_facts 0 NoOutput, ww_facts 0 NoOutput, ww_facts 0 NoOutput, ww_facts 2 (DataOutput 4)])"
    using ww_prefixes(6) by (simp add: ww_steps_def ww_results_def)
  have "win_stage_of [WNative] ww_start = Some (7, 0)"
    "win_stage_of [WNative] (ww_at (WDiff 7 WAdd win_diff_cursor_default WFinishInput)) = Some (7, 5)"
    by (simp_all add: win_stage_of_def win_stage_def ww_start_def ww_at_def win_function_count_def)
  from win_drain_order[OF run ww_drain this] show ?thesis by simp
qed

text \<open>
  C33: The durable row of a Window continuation is exact: a valid continuation of a plan whose
  functions fit an \<open>integer\<close> is encoded, decoding the row gives it back, and no other row of the
  relation decodes to it.\<close>

theorem win_row_exact:
  assumes "win_valid m c" "int (win_function_count m) \<le> i32_max"
  shows "\<exists>f. encode_window_fields c = Inr f \<and> decode_window_fields f = Inr c \<and>
    (\<forall>g. win_canonical g \<longrightarrow> (decode_window_fields g = Inr c) = (g = f))"
proof -
  have "win_codable m c" using assms by (simp add: win_codable_def)
  then show ?thesis
    using win_codec.decode_encode[of m c] win_codec.row_unique[of m c] by auto
qed

theorem win_row_exact_witness:
  "\<exists>f. encode_window_fields ww_start = Inr f \<and> decode_window_fields f = Inr ww_start
     \<and> wx_partition_queue_id f = Some 7"
proof -
  have "win_valid (win_of [WNative]) ww_start"
    by (simp add: win_valid_drain ww_start_def ww_at_def win_after_Inr win_cursor_default_def)
  then obtain f where "encode_window_fields ww_start = Inr f" "decode_window_fields f = Inr ww_start"
    using win_row_exact[of "win_of [WNative]" ww_start] by (auto simp: i32_max_def win_function_count_def)
  then show ?thesis
    by (auto simp: encode_window_fields_def win_encode_phase_def ww_start_def ww_at_def)
qed

end
