(* ===== verification/Linear_Statements.thy ===== *)
theory Linear_Statements
  imports Payload_Rows
begin

text \<open>
  The two SQL statements of the linear operators Scan, Filter and Project
  (\<open>src/execution/linear/runtime.rs\<close>) and the code that runs and checks them: a bounded page of an
  input chunk is filtered and projected into the output payload, and a bounded page of the
  bootstrap relation is moved into it.  The predicate and the projection, which the code compiles
  to SQL text, are parameters; a predicate has SQL's three values.
\<close>

section \<open>Data\<close>

datatype linear_kind = LScan | LFilter | LProject

record ('i, 'o) linear_env =
  le_input :: "int \<Rightarrow> int \<Rightarrow> 'i payload_row list"
  le_predicate :: "'i \<Rightarrow> bool option"
  le_project :: "'i \<Rightarrow> 'o"
  le_input_octets :: "'i \<Rightarrow> nat"
  le_output_octets :: "'o \<Rightarrow> nat"

text \<open>The payload of the output stream (stream, chunk, row) and the bootstrap relation of a Scan.\<close>

record 'o linear_store =
  ls_payload :: "(int \<times> int \<times> 'o payload_row) list"
  ls_bootstrap :: "(int \<times> 'o) list"

record transform_facts =
  tff_usage :: work_usage
  tff_first :: int
  tff_last :: int
  tff_output :: output_facts

record bootstrap_facts =
  bof_usage :: work_usage
  bof_first :: "int option"
  bof_last :: "int option"
  bof_output :: output_facts

section \<open>Inserting payload rows\<close>

definition numbered_rows :: "int \<Rightarrow> int \<Rightarrow> (int \<times> 'o) list \<Rightarrow> (int \<times> int \<times> 'o payload_row) list" where
  "numbered_rows stream seq rows =
     map (\<lambda>i. (stream, seq, \<lparr>pw_ordinal = int i, pw_weight = fst (rows ! i), pw_value = snd (rows ! i)\<rparr>))
       [0..<length rows]"

text \<open>The relation is keyed by stream, chunk and ordinal.\<close>

definition insert_payload ::
    "int \<Rightarrow> int \<Rightarrow> (int \<times> 'o) list \<Rightarrow> 'o linear_store \<Rightarrow> 'o linear_store result" where
  "insert_payload stream seq rows st =
     (if list_ex (\<lambda>(s, n, r). s = stream \<and> n = seq \<and> pw_ordinal r < int (length rows)
                    \<and> 0 \<le> pw_ordinal r) (ls_payload st)
      then Inl ''duplicate key value violates unique constraint''
      else Inr (st\<lparr>ls_payload := ls_payload st @ numbered_rows stream seq rows\<rparr>))"

section \<open>The transform statement\<close>

definition input_octets :: "('i, 'o) linear_env \<Rightarrow> 'i payload_row \<Rightarrow> int" where
  "input_octets env r = effect_row_bytes (le_input_octets env (pw_value r))"

definition output_octets :: "('i, 'o) linear_env \<Rightarrow> 'i payload_row \<Rightarrow> int" where
  "output_octets env r = effect_row_bytes (le_output_octets env (le_project env (pw_value r)))"

text \<open>\<open>emit AND (predicate IS TRUE)\<close>\<close>

definition row_passes :: "('i, 'o) linear_env \<Rightarrow> bool \<Rightarrow> 'i payload_row \<Rightarrow> bool" where
  "row_passes env emit r \<longleftrightarrow> emit \<and> le_predicate env (pw_value r) = Some True"

definition input_source :: "'i payload_row list \<Rightarrow> int \<Rightarrow> int \<Rightarrow> 'i payload_row list" where
  "input_source payload first rows =
     filter (\<lambda>r. first \<le> pw_ordinal r \<and> pw_ordinal r < rows) (sort_key pw_ordinal payload)"

definition input_bounded ::
    "('i, 'o) linear_env \<Rightarrow> 'i payload_row list \<Rightarrow> int \<Rightarrow> int \<Rightarrow> nat \<Rightarrow> int \<Rightarrow> 'i payload_row list" where
  "input_bounded env payload first rows max_rows max_bytes =
     fst (page_split True max_rows max_bytes (input_octets env) 0 (input_source payload first rows))"

text \<open>
  \<open>selected\<close>: the rows before the first one that passes, and those whose running totals of passing
  rows and of their bytes are within the target; the first passing row is always taken.
\<close>

fun select_output ::
    "('i, 'o) linear_env \<Rightarrow> bool \<Rightarrow> int \<Rightarrow> int \<Rightarrow> int \<Rightarrow> int \<Rightarrow> 'i payload_row list \<Rightarrow> 'i payload_row list"
where
  "select_output env emit max_rows max_bytes rows bytes [] = []"
| "select_output env emit max_rows max_bytes rows bytes (r # rs) =
     (let passes = row_passes env emit r;
          rows' = rows + of_bool passes;
          bytes' = bytes + (if passes then output_octets env r else 0);
          others = select_output env emit max_rows max_bytes rows' bytes' rs
      in if rows' = 0 \<or> (rows' \<le> max_rows \<and> bytes' \<le> max_bytes) \<or> (passes \<and> rows' = 1)
         then r # others else others)"

record transform_stats =
  tst_processed :: int
  tst_first :: "int option"
  tst_last :: "int option"
  tst_input_bytes :: int
  tst_emitted :: int
  tst_output_bytes :: int
  tst_inserted :: int
  tst_stored_bytes :: int

definition transform_statement ::
    "('i, 'o) linear_env \<Rightarrow> 'i payload_row list \<Rightarrow> int \<Rightarrow> int \<Rightarrow> nat \<Rightarrow> int \<Rightarrow> int \<Rightarrow> int \<Rightarrow> int \<Rightarrow> int
     \<Rightarrow> bool \<Rightarrow> 'o linear_store \<Rightarrow> (transform_stats \<times> 'o linear_store) result" where
  "transform_statement env payload first rows max_in_rows max_in_bytes max_out_rows max_out_bytes
      stream seq emit st =
     (let selected = select_output env emit max_out_rows max_out_bytes 0 0
                       (input_bounded env payload first rows max_in_rows max_in_bytes);
          passing = filter (row_passes env emit) selected;
          ordinals = map pw_ordinal selected
      in bind_res (to_bigint (sum_list (map (input_octets env) selected))) (\<lambda>in_bytes.
         bind_res (to_bigint (sum_list (map (output_octets env) passing))) (\<lambda>out_bytes.
         bind_res (insert_payload stream seq
                     (map (\<lambda>r. (pw_weight r, le_project env (pw_value r))) passing) st) (\<lambda>st'.
         Inr (\<lparr>tst_processed = int (length selected),
               tst_first = (if selected = [] then None else Some (Min (set ordinals))),
               tst_last = (if selected = [] then None else Some (Max (set ordinals))),
               tst_input_bytes = in_bytes, tst_emitted = int (length passing),
               tst_output_bytes = out_bytes, tst_inserted = int (length passing),
               tst_stored_bytes = out_bytes\<rparr>, st')))))"

definition i64_from_usize :: "nat \<Rightarrow> int result" where
  "i64_from_usize v = (if i64_max < int v then Inl ''work budget exceeds bigint'' else Inr (int v))"

definition null_column :: "string \<Rightarrow> 'a option \<Rightarrow> 'a result" where
  "null_column name v = ok_or (''database returned NULL '' @ name) v"

definition run_transform_primitive ::
    "('i, 'o) linear_env \<Rightarrow> step_context \<Rightarrow> chunk_meta \<Rightarrow> int \<Rightarrow> bool \<Rightarrow> 'o linear_store
     \<Rightarrow> (transform_facts \<times> step_context \<times> 'o linear_store) result" where
  "run_transform_primitive env c ch first emit st =
     bind_res (context_output c) (\<lambda>out.
     let b = sc_transition_budget c in
     bind_res (i64_from_usize (max_input_rows b)) (\<lambda>in_rows.
     bind_res (i64_from_usize (max_input_bytes b)) (\<lambda>in_bytes.
     bind_res (i64_from_usize (max_output_rows b)) (\<lambda>out_rows.
     bind_res (i64_from_usize (max_output_bytes b)) (\<lambda>out_bytes.
     let max_rows = min out_rows (os_target_rows out);
         max_bytes = min out_bytes (os_target_bytes out) in
     bind_res (i64_from_u64 (cm_rows ch)) (\<lambda>rows.
     bind_res (transform_statement env (le_input env (cm_stream_id ch) (cm_sequence ch)) first rows
                 (nat in_rows) in_bytes max_rows max_bytes (os_stream_id out) (os_next out) emit st)
       (\<lambda>(s, st').
     bind_res (nonnegative ''processed input rows'' (tst_processed s)) (\<lambda>processed.
     bind_res (null_column ''first input ordinal'' (tst_first s)) (\<lambda>first_row.
     bind_res (null_column ''last input ordinal'' (tst_last s)) (\<lambda>last_row.
     bind_res (nonnegative ''processed input bytes'' (tst_input_bytes s)) (\<lambda>input_bytes.
     bind_res (nonnegative ''emitted rows'' (tst_emitted s)) (\<lambda>emitted.
     bind_res (nonnegative ''emitted bytes'' (tst_output_bytes s)) (\<lambda>output_bytes.
     bind_res (nonnegative ''inserted output rows'' (tst_inserted s)) (\<lambda>inserted.
     bind_res (nonnegative ''stored output bytes'' (tst_stored_bytes s)) (\<lambda>stored.
     bind_res
       (if processed = 0 \<or> first_row \<noteq> first then Inr True
        else bind_res (i64_from_u64 processed) (\<lambda>n.
          Inr (last_row \<noteq> first + n - 1 \<or> inserted \<noteq> emitted \<or> stored \<noteq> output_bytes))) (\<lambda>bad.
     if bad then Inl ''linear primitive returned inconsistent row facts''
     else
       let facts = (if emitted = 0 then NoOutput else DataOutput (os_next out));
           usage = \<lparr>input_rows = processed, input_bytes = input_bytes, output_rows = emitted,
                    output_bytes = output_bytes\<rparr> in
       bind_res (usage_validate usage b) (\<lambda>_.
       if max_rows < 0 then Inl ''negative output row target''
       else if nat max_rows < emitted then Inl ''linear primitive exceeded its stream target''
       else if 1 < emitted \<and> max_bytes < 0 then Inl ''negative output byte target''
       else if 1 < emitted \<and> nat max_bytes < output_bytes
       then Inl ''linear primitive exceeded its stream target''
       else
         bind_res
           (if emitted = 0 then Inr c
            else record_output_append c (NewChunk (os_next out)) emitted output_bytes (cm_lsn ch))
           (\<lambda>c'.
         Inr (\<lparr>tff_usage = usage, tff_first = first_row, tff_last = last_row, tff_output = facts\<rparr>,
              c', st')))))))))))))))))))"

section \<open>The bootstrap statement\<close>

record bootstrap_stats =
  bst_rows :: int
  bst_first :: "int option"
  bst_last :: "int option"
  bst_bytes :: int
  bst_inserted :: int
  bst_stored_bytes :: int
  bst_deleted :: int

definition bootstrap_octets :: "('i, 'o) linear_env \<Rightarrow> int \<times> 'o \<Rightarrow> int" where
  "bootstrap_octets env x = effect_row_bytes (le_output_octets env (snd x))"

definition bootstrap_page ::
    "('i, 'o) linear_env \<Rightarrow> int \<Rightarrow> nat \<Rightarrow> int \<Rightarrow> (int \<times> 'o) list \<Rightarrow> (int \<times> 'o) list" where
  "bootstrap_page env first max_rows max_bytes rows =
     fst (page_split True max_rows max_bytes (bootstrap_octets env) 0
       (filter (\<lambda>x. first \<le> fst x) (sort_key fst rows)))"

definition bootstrap_statement ::
    "('i, 'o) linear_env \<Rightarrow> int \<Rightarrow> int \<Rightarrow> int \<Rightarrow> int \<Rightarrow> int \<Rightarrow> 'o linear_store
     \<Rightarrow> (bootstrap_stats \<times> 'o linear_store) result" where
  "bootstrap_statement env first max_rows max_bytes stream seq st =
     (if max_rows < 0 then Inl ''LIMIT must not be negative''
      else
        let selected = bootstrap_page env first (nat max_rows) max_bytes (ls_bootstrap st);
            left = filter (\<lambda>x. fst x \<notin> set (map fst selected)) (ls_bootstrap st)
        in bind_res (to_bigint (sum_list (map (bootstrap_octets env) selected))) (\<lambda>bytes.
           bind_res (insert_payload stream seq (map (\<lambda>x. (1, snd x)) selected) st) (\<lambda>st'.
           Inr (\<lparr>bst_rows = int (length selected),
                 bst_first = (if selected = [] then None else Some (Min (set (map fst selected)))),
                 bst_last = (if selected = [] then None else Some (Max (set (map fst selected)))),
                 bst_bytes = bytes, bst_inserted = int (length selected), bst_stored_bytes = bytes,
                 bst_deleted = int (length (ls_bootstrap st)) - int (length left)\<rparr>,
                st'\<lparr>ls_bootstrap := left\<rparr>))))"

definition run_bootstrap_primitive ::
    "('i, 'o) linear_env \<Rightarrow> step_context \<Rightarrow> int \<Rightarrow> nat \<Rightarrow> 'o linear_store
     \<Rightarrow> (bootstrap_facts \<times> step_context \<times> 'o linear_store) result" where
  "run_bootstrap_primitive env c first activation st =
     bind_res (context_output c) (\<lambda>out.
     let b = sc_transition_budget c in
     bind_res (i64_from_usize (max_input_rows b)) (\<lambda>in_rows.
     bind_res (i64_from_usize (max_output_rows b)) (\<lambda>out_rows.
     bind_res (i64_from_usize (max_input_bytes b)) (\<lambda>in_bytes.
     bind_res (i64_from_usize (max_output_bytes b)) (\<lambda>out_bytes.
     bind_res (bootstrap_statement env first (min (min in_rows out_rows) (os_target_rows out))
                 (min (min in_bytes out_bytes) (os_target_bytes out)) (os_stream_id out)
                 (os_next out) st) (\<lambda>(s, st').
     bind_res (nonnegative ''bootstrap row count'' (bst_rows s)) (\<lambda>rows.
     bind_res (nonnegative ''bootstrap bytes'' (bst_bytes s)) (\<lambda>bytes.
     bind_res (nonnegative ''bootstrap inserted rows'' (bst_inserted s)) (\<lambda>inserted.
     bind_res (nonnegative ''bootstrap stored bytes'' (bst_stored_bytes s)) (\<lambda>stored.
     bind_res (nonnegative ''bootstrap deleted rows'' (bst_deleted s)) (\<lambda>deleted.
     if inserted \<noteq> rows \<or> deleted \<noteq> rows \<or> stored \<noteq> bytes
     then Inl ''Scan bootstrap primitive returned inconsistent row facts''
     else
       let usage = \<lparr>input_rows = rows, input_bytes = bytes, output_rows = rows, output_bytes = bytes\<rparr> in
       bind_res (usage_validate usage b) (\<lambda>_.
       bind_res
         (if rows = 0 then Inr c
          else record_output_append c (NewChunk (os_next out)) rows bytes activation) (\<lambda>c'.
       Inr (\<lparr>bof_usage = usage, bof_first = bst_first s, bof_last = bst_last s,
             bof_output = (if rows = 0 then NoOutput else DataOutput (os_next out))\<rparr>, c', st'))))))))))))))"

end
