(* ===== verification/Linear_Step.thy ===== *)
theory Linear_Step
  imports Linear_Statements Step_Properties
begin

text \<open>
  One durable step of Scan, Filter and Project (\<open>src/execution/linear\<close>): the typed continuation
  of \<open>machine.rs\<close> and \<open>storage.rs\<close>, and the step functions of \<open>runtime.rs\<close>.  A Scan first moves
  its bootstrap relation into the output stream, then publishes the activation boundary, and from
  then on transforms the source chunks and forwards the source frontier; Filter and Project
  transform data chunks and forward frontier chunks.
\<close>

section \<open>Continuations\<close>

datatype scan_phase = ScBootstrap | ScSnapshotFrontier | ScData | ScSourceFrontier

definition scan_phase_decode :: "int \<Rightarrow> scan_phase result" where
  "scan_phase_decode raw =
     bind_res (phase_code_active raw) (\<lambda>v.
     if v = 1 then Inr ScBootstrap else if v = 2 then Inr ScSnapshotFrontier
     else if v = 3 then Inr ScData else if v = 4 then Inr ScSourceFrontier
     else Inl ''Scan continuation has unknown phase'')"

fun scan_phase_code :: "scan_phase \<Rightarrow> int" where
  "scan_phase_code ScBootstrap = 1"
| "scan_phase_code ScSnapshotFrontier = 2"
| "scan_phase_code ScData = 3"
| "scan_phase_code ScSourceFrontier = 4"

record scan_continuation =
  scn_phase :: scan_phase
  scn_stream_id :: int
  scn_chunk_seq :: "int option"
  scn_next_row :: "int option"
  scn_next_bootstrap :: "int option"
  scn_frontier :: "nat option"

record transform_continuation =
  trn_stream_id :: int
  trn_chunk_seq :: int
  trn_next_row :: int

text \<open>The rows of the two continuation relations; a position is its text.\<close>

record scan_fields =
  scf_phase :: int
  scf_stream_id :: int
  scf_chunk_seq :: "int option"
  scf_next_row :: "int option"
  scf_next_bootstrap :: "int option"
  scf_frontier :: "string option"

datatype linear_row = ScanRow scan_fields | TransformRow transform_continuation

definition decode_scan :: "linear_row \<Rightarrow> scan_continuation result" where
  "decode_scan row =
     (case row of
        TransformRow _ \<Rightarrow> Inl ''typed continuation relation has an unexpected ABI''
      | ScanRow f \<Rightarrow>
          bind_res
            (case scf_frontier f of
               None \<Rightarrow> Inr None
             | Some t \<Rightarrow> bind_res (lsn_of_text ''Scan continuation LSN'' t) (\<lambda>l. Inr (Some l)))
            (\<lambda>frontier.
          bind_res (scan_phase_decode (scf_phase f)) (\<lambda>phase.
          Inr \<lparr>scn_phase = phase, scn_stream_id = scf_stream_id f, scn_chunk_seq = scf_chunk_seq f,
               scn_next_row = scf_next_row f, scn_next_bootstrap = scf_next_bootstrap f,
               scn_frontier = frontier\<rparr>)))"

definition scan_row :: "scan_continuation \<Rightarrow> linear_row" where
  "scan_row c =
     ScanRow \<lparr>scf_phase = scan_phase_code (scn_phase c), scf_stream_id = scn_stream_id c,
              scf_chunk_seq = scn_chunk_seq c, scf_next_row = scn_next_row c,
              scf_next_bootstrap = scn_next_bootstrap c,
              scf_frontier = map_option (\<lambda>l. format_lsn (of_nat l)) (scn_frontier c)\<rparr>"

definition decode_transform :: "linear_row \<Rightarrow> transform_continuation result" where
  "decode_transform row =
     (case row of
        TransformRow f \<Rightarrow> Inr f
      | ScanRow _ \<Rightarrow> Inl ''typed continuation relation has an unexpected ABI'')"

definition positive_column :: "int option \<Rightarrow> bool" where
  "positive_column v \<longleftrightarrow> (case v of None \<Rightarrow> False | Some n \<Rightarrow> 0 < n)"

definition nonnegative_column :: "int option \<Rightarrow> bool" where
  "nonnegative_column v \<longleftrightarrow> (case v of None \<Rightarrow> False | Some n \<Rightarrow> 0 \<le> n)"

definition validate_scan :: "scan_continuation \<Rightarrow> unit result" where
  "validate_scan c =
     (if scn_stream_id c \<le> 0 then Inl ''Scan continuation has an invalid input stream''
      else if
        (case scn_phase c of
           ScBootstrap \<Rightarrow> scn_chunk_seq c = None \<and> scn_next_row c = None
             \<and> positive_column (scn_next_bootstrap c) \<and> scn_frontier c = None
         | ScSnapshotFrontier \<Rightarrow> scn_chunk_seq c = None \<and> scn_next_row c = None
             \<and> scn_next_bootstrap c = None \<and> scn_frontier c \<noteq> None
         | ScData \<Rightarrow> positive_column (scn_chunk_seq c) \<and> nonnegative_column (scn_next_row c)
             \<and> scn_next_bootstrap c = None \<and> scn_frontier c = None
         | ScSourceFrontier \<Rightarrow> scn_chunk_seq c = None \<and> scn_next_row c = None
             \<and> scn_next_bootstrap c = None \<and> scn_frontier c \<noteq> None)
      then Inr () else Inl ''Scan continuation fields do not match its phase'')"

type_synonym linear_db = "linear_row step_db"

definition replace_scan ::
    "step_context \<Rightarrow> linear_db \<Rightarrow> scan_continuation option \<Rightarrow> scan_continuation
     \<Rightarrow> (step_context \<times> linear_db) result" where
  "replace_scan c db previous nxt =
     bind_res (validate_scan nxt) (\<lambda>_.
     replace_cas c db (map_option scan_row previous) (Some (scan_row nxt)) ''Scan'')"

definition replace_transform ::
    "step_context \<Rightarrow> linear_db \<Rightarrow> transform_continuation option \<Rightarrow> transform_continuation
     \<Rightarrow> (step_context \<times> linear_db) result" where
  "replace_transform c db previous nxt =
     (if trn_stream_id nxt \<le> 0 \<or> trn_chunk_seq nxt \<le> 0 \<or> trn_next_row nxt < 0
      then Inl ''linear continuation contains an invalid cursor''
      else replace_cas c db (map_option TransformRow previous) (Some (TransformRow nxt)) ''linear'')"

definition delete_continuation ::
    "step_context \<Rightarrow> linear_db \<Rightarrow> bool \<Rightarrow> (step_context \<times> linear_db) result" where
  "delete_continuation c db expected =
     (if \<not> expected then Inr (c, db) else clear_locked c db ''linear'')"

section \<open>Frontiers of the source\<close>

text \<open>\<open>filter(|frontier| *frontier > consumed)\<close>\<close>

definition new_source_frontier :: "input_state \<Rightarrow> nat option" where
  "new_source_frontier i =
     (case is_source_frontier i of
        Some f \<Rightarrow> if is_consumed i < f then Some f else None
      | None \<Rightarrow> None)"

definition assert_frontier_skips ::
    "step_context \<Rightarrow> linear_db \<Rightarrow> nat \<Rightarrow> unit result" where
  "assert_frontier_skips c db frontier =
     bind_res (context_input c 0) (\<lambda>input.
     if list_ex (\<lambda>ch. is_next input \<le> ck_seq ch \<and> ck_lsn ch \<le> frontier)
          (case db_streams db (is_stream_id input) of None \<Rightarrow> [] | Some s \<Rightarrow> es_chunks s)
     then Inl ''Scan frontier would skip a published source chunk'' else Inr ())"

definition source_frontier_after_chunk ::
    "step_context \<Rightarrow> linear_db \<Rightarrow> chunk_meta \<Rightarrow> nat option result" where
  "source_frontier_after_chunk c db ch =
     bind_res (context_input c 0) (\<lambda>input.
     case new_source_frontier input of
       None \<Rightarrow> Inr None
     | Some f \<Rightarrow>
         bind_res (read_chunk db input (cm_sequence ch + 1)) (\<lambda>found.
         Inr (case found of
                None \<Rightarrow> Some f
              | Some n \<Rightarrow> if f < cm_lsn n then Some f else None)))"

section \<open>The transform of a data chunk\<close>

type_synonym 'o linear_outcome =
  "(step_receipt \<times> step_context \<times> linear_db \<times> 'o linear_store) result"

definition data_continuation :: "input_state \<Rightarrow> chunk_meta \<Rightarrow> int \<Rightarrow> scan_continuation" where
  "data_continuation input ch row =
     \<lparr>scn_phase = ScData, scn_stream_id = is_stream_id input, scn_chunk_seq = Some (cm_sequence ch),
      scn_next_row = Some row, scn_next_bootstrap = None, scn_frontier = None\<rparr>"

definition scan_frontier_position :: "scan_phase \<Rightarrow> int \<Rightarrow> nat \<Rightarrow> scan_continuation" where
  "scan_frontier_position phase stream frontier =
     \<lparr>scn_phase = phase, scn_stream_id = stream, scn_chunk_seq = None, scn_next_row = None,
      scn_next_bootstrap = None, scn_frontier = Some frontier\<rparr>"

definition transform_position :: "input_state \<Rightarrow> chunk_meta \<Rightarrow> int \<Rightarrow> transform_continuation" where
  "transform_position input ch row =
     \<lparr>trn_stream_id = is_stream_id input, trn_chunk_seq = cm_sequence ch, trn_next_row = row\<rparr>"

text \<open>The chunk is not finished: its position is stored.\<close>

definition store_position ::
    "linear_kind \<Rightarrow> step_context \<Rightarrow> linear_db \<Rightarrow> input_state \<Rightarrow> chunk_meta \<Rightarrow> bool \<Rightarrow> int \<Rightarrow> int
     \<Rightarrow> (step_context \<times> linear_db) result" where
  "store_position kind c db input ch had row next_row =
     (case kind of
        LScan \<Rightarrow> replace_scan c db (if had then Some (data_continuation input ch row) else None)
                   (data_continuation input ch next_row)
      | _ \<Rightarrow> replace_transform c db (if had then Some (transform_position input ch row) else None)
               (transform_position input ch next_row))"

text \<open>The chunk is finished: its position is dropped and the input advances.\<close>

definition finish_chunk ::
    "linear_kind \<Rightarrow> step_context \<Rightarrow> linear_db \<Rightarrow> input_state \<Rightarrow> chunk_meta \<Rightarrow> bool
     \<Rightarrow> (step_context \<times> linear_db) result" where
  "finish_chunk kind c db input ch had =
     bind_res (delete_continuation c db had) (\<lambda>(c1, db1).
     bind_res
       (if kind = LScan
        then bind_res (source_frontier_after_chunk c1 db1 ch) (\<lambda>frontier.
             case frontier of
               None \<Rightarrow> Inr (c1, db1)
             | Some f \<Rightarrow>
                 replace_scan c1 db1 None (scan_frontier_position ScSourceFrontier (is_stream_id input) f))
        else Inr (c1, db1)) (\<lambda>(c2, db2).
     advance_input c2 db2 0 (cm_sequence ch + 1) (is_consumed input)
       \<lparr>input_rows = cm_rows ch, input_bytes = cm_bytes ch, output_rows = 0, output_bytes = 0\<rparr>))"

definition step_data_transform ::
    "('i, 'o) linear_env \<Rightarrow> linear_kind \<Rightarrow> step_context \<Rightarrow> linear_db \<Rightarrow> 'o linear_store \<Rightarrow> bool
     \<Rightarrow> chunk_meta \<Rightarrow> int \<Rightarrow> 'o linear_outcome" where
  "step_data_transform env kind c db st had ch row =
     (if row < 0 \<or> cm_rows ch \<le> nat row then Inl ''linear continuation row is outside its input chunk''
      else
        bind_res (context_input c 0) (\<lambda>input.
        if cm_sequence ch \<noteq> is_next input then Inl ''linear chunk is not at the consumer cursor''
        else
          bind_res
            (if row = 0
             then bind_res (measure_rows (le_input_octets env)
                    (le_input env (cm_stream_id ch) (cm_sequence ch)) ch) (\<lambda>_. Inr ())
             else Inr ()) (\<lambda>_.
          let emit = (kind \<noteq> LScan \<or> is_activation input < cm_lsn ch) in
          bind_res (run_transform_primitive env c ch row emit st) (\<lambda>(facts, c1, st1).
          if tff_first facts \<noteq> row then Inl ''linear primitive did not start at its continuation''
          else
            bind_res (ok_or ''linear row ordinal space exhausted'' (checked_add_i64 (tff_last facts) 1))
              (\<lambda>next_row.
            bind_res (i64_from_u64 (cm_rows ch)) (\<lambda>rows.
            bind_res
              (if next_row < rows then store_position kind c1 db input ch had row next_row
               else if next_row = rows then finish_chunk kind c1 db input ch had
               else Inl ''linear primitive advanced beyond its input chunk'') (\<lambda>(c2, db2).
            bind_res (transition_facts c2 PhProcess
              \<lparr>pr_usage = tff_usage facts, pr_state_rows = 0, pr_output = tff_output facts\<rparr>) (\<lambda>(r, c3).
            Inr (r, c3, db2, st1)))))))))"

section \<open>The steps of a Scan\<close>

definition first_bootstrap_sequence :: "(int \<times> 'o) list \<Rightarrow> int \<Rightarrow> int option" where
  "first_bootstrap_sequence rows at =
     (let later = filter (\<lambda>s. at \<le> s) (map fst rows)
      in if later = [] then None else Some (Min (set later)))"

text \<open>Where the bootstrap goes on: at the next sequence, or nowhere.\<close>

definition bootstrap_remaining ::
    "bootstrap_facts \<Rightarrow> int \<Rightarrow> (int \<times> 'o) list \<Rightarrow> int option result" where
  "bootstrap_remaining facts first rows =
     (case (bof_first facts, bof_last facts) of
        (None, None) \<Rightarrow>
          if input_rows (bof_usage facts) = 0 then Inr None
          else Inl ''Scan bootstrap primitive returned an invalid cursor''
      | (Some a, Some z) \<Rightarrow>
          if a \<noteq> first then Inl ''Scan bootstrap primitive returned an invalid cursor''
          else
            bind_res (i64_from_u64 (input_rows (bof_usage facts))) (\<lambda>n.
            if z \<noteq> first + n - 1 then Inl ''Scan bootstrap primitive returned an invalid cursor''
            else
              case first_bootstrap_sequence rows (z + 1) of
                None \<Rightarrow> Inr None
              | Some k \<Rightarrow>
                  if k \<noteq> z + 1 then Inl ''Scan bootstrap relation has a sequence gap''
                  else Inr (Some k))
      | _ \<Rightarrow> Inl ''Scan bootstrap primitive returned an invalid cursor'')"

definition step_bootstrap ::
    "('i, 'o) linear_env \<Rightarrow> step_context \<Rightarrow> linear_db \<Rightarrow> 'o linear_store \<Rightarrow> scan_continuation
     \<Rightarrow> 'o linear_outcome" where
  "step_bootstrap env c db st cur =
     bind_res (ok_or ''Scan bootstrap continuation omitted its cursor'' (scn_next_bootstrap cur)) (\<lambda>first.
     bind_res (context_input c 0) (\<lambda>input.
     bind_res (run_bootstrap_primitive env c first (is_activation input) st) (\<lambda>(facts, c1, st1).
     bind_res (bootstrap_remaining facts first (ls_bootstrap st1)) (\<lambda>remaining.
     bind_res
       (replace_scan c1 db (Some cur)
          (case remaining of
             Some k \<Rightarrow> cur\<lparr>scn_next_bootstrap := Some k\<rparr>
           | None \<Rightarrow> scan_frontier_position ScSnapshotFrontier (scn_stream_id cur) (is_activation input)))
       (\<lambda>(c2, db2).
     bind_res (transition_facts c2 PhAdmit
       \<lparr>pr_usage = bof_usage facts, pr_state_rows = input_rows (bof_usage facts),
        pr_output = bof_output facts\<rparr>) (\<lambda>(r, c3).
     Inr (r, c3, db2, st1)))))))"

definition step_snapshot_frontier ::
    "step_context \<Rightarrow> linear_db \<Rightarrow> 'o linear_store \<Rightarrow> scan_continuation \<Rightarrow> 'o linear_outcome" where
  "step_snapshot_frontier c db st cur =
     bind_res (context_input c 0) (\<lambda>input.
     bind_res (ok_or ''Scan snapshot frontier omitted its LSN'' (scn_frontier cur)) (\<lambda>frontier.
     if frontier \<noteq> is_activation input \<or> is_consumed input \<noteq> is_activation input
     then Inl ''Scan snapshot frontier does not match its activation boundary''
     else
       bind_res (append_frontier c db frontier) (\<lambda>(_, c1, db1).
       bind_res (replace_cas c1 db1 (Some (scan_row cur)) None ''Scan'') (\<lambda>(c2, db2).
       bind_res (step_transition c2 PhFrontier usage_default) (\<lambda>r.
       Inr (r, c2, db2, st))))))"

definition step_available_source_frontier ::
    "step_context \<Rightarrow> linear_db \<Rightarrow> 'o linear_store \<Rightarrow> 'o linear_outcome" where
  "step_available_source_frontier c db st =
     bind_res (context_input c 0) (\<lambda>input.
     bind_res (ok_or ''runnable Scan has neither a chunk nor a source frontier''
                 (new_source_frontier input)) (\<lambda>frontier.
     bind_res (assert_frontier_skips c db frontier) (\<lambda>_.
     bind_res (append_frontier c db frontier) (\<lambda>(_, c1, db1).
     bind_res (advance_input c1 db1 0 (is_next input) frontier usage_default) (\<lambda>(c2, db2).
     bind_res (step_transition c2 PhFrontier usage_default) (\<lambda>r.
     Inr (r, c2, db2, st)))))))"

definition step_scan_frontier ::
    "step_context \<Rightarrow> linear_db \<Rightarrow> 'o linear_store \<Rightarrow> nat \<Rightarrow> 'o linear_outcome" where
  "step_scan_frontier c db st frontier =
     bind_res (context_input c 0) (\<lambda>input.
     if frontier \<le> is_consumed input
        \<or> (case is_source_frontier input of None \<Rightarrow> True | Some available \<Rightarrow> available < frontier)
     then Inl ''Scan frontier continuation is outside the published frontier''
     else
       bind_res (assert_frontier_skips c db frontier) (\<lambda>_.
       bind_res (append_frontier c db frontier) (\<lambda>(_, c1, db1).
       bind_res (advance_input c1 db1 0 (is_next input) frontier usage_default) (\<lambda>(c2, db2).
       bind_res (delete_continuation c2 db2 True) (\<lambda>(c3, db3).
       bind_res (step_transition c3 PhFrontier usage_default) (\<lambda>r.
       Inr (r, c3, db3, st)))))))"

definition scan_data ::
    "('i, 'o) linear_env \<Rightarrow> step_context \<Rightarrow> linear_db \<Rightarrow> 'o linear_store \<Rightarrow> scan_continuation option
     \<Rightarrow> 'o linear_outcome" where
  "scan_data env c db st cur =
     (let row = (case cur of
                   None \<Rightarrow> 0
                 | Some k \<Rightarrow> (case scn_next_row k of None \<Rightarrow> 0 | Some r \<Rightarrow> r)) in
      bind_res (next_chunk c db 0) (\<lambda>found.
      case found of
        None \<Rightarrow>
          if cur \<noteq> None then Inl ''Scan continuation references a missing input chunk''
          else step_available_source_frontier c db st
      | Some ch \<Rightarrow>
          if cm_kind ch \<noteq> Data then Inl ''source stream contains a frontier chunk''
          else if (case cur of None \<Rightarrow> False | Some k \<Rightarrow> scn_chunk_seq k \<noteq> Some (cm_sequence ch))
          then Inl ''Scan continuation is not at its input cursor''
          else step_data_transform env LScan c db st (cur \<noteq> None) ch row))"

definition execute_scan ::
    "('i, 'o) linear_env \<Rightarrow> int \<Rightarrow> step_context \<Rightarrow> linear_db \<Rightarrow> 'o linear_store \<Rightarrow> 'o linear_outcome"
where
  "execute_scan env source c db st =
     bind_res (context_input c 0) (\<lambda>input.
     if is_source_oid input \<noteq> Some source
     then Inl ''Scan source OID does not match its source stream''
     else
       bind_res (lock_one db ''Scan'' decode_scan) (\<lambda>cur.
       bind_res (bind_continuation_authority c (cur \<noteq> None)) (\<lambda>c1.
       bind_res
         (case cur of
            None \<Rightarrow> Inr ()
          | Some k \<Rightarrow>
              if scn_stream_id k \<noteq> is_stream_id input
              then Inl ''Scan continuation references another input stream''
              else validate_scan k) (\<lambda>_.
       case cur of
         None \<Rightarrow> scan_data env c1 db st None
       | Some k \<Rightarrow>
           (case scn_phase k of
              ScBootstrap \<Rightarrow> step_bootstrap env c1 db st k
            | ScSnapshotFrontier \<Rightarrow> step_snapshot_frontier c1 db st k
            | ScSourceFrontier \<Rightarrow>
                bind_res (ok_or ''Scan frontier continuation omitted its LSN'' (scn_frontier k))
                  (\<lambda>f. step_scan_frontier c1 db st f)
            | ScData \<Rightarrow> scan_data env c1 db st (Some k))))))"

section \<open>The step of Filter and Project\<close>

definition execute_transform ::
    "('i, 'o) linear_env \<Rightarrow> linear_kind \<Rightarrow> step_context \<Rightarrow> linear_db \<Rightarrow> 'o linear_store
     \<Rightarrow> 'o linear_outcome" where
  "execute_transform env kind c db st =
     bind_res (lock_one db ''linear'' decode_transform) (\<lambda>cur.
     bind_res (bind_continuation_authority c (cur \<noteq> None)) (\<lambda>c1.
     bind_res (context_input c1 0) (\<lambda>input.
     if (case cur of None \<Rightarrow> False | Some k \<Rightarrow> trn_stream_id k \<noteq> is_stream_id input)
     then Inl ''linear continuation references another input stream''
     else
       bind_res (next_chunk c1 db 0) (\<lambda>found.
       bind_res (ok_or ''runnable linear stage has no input chunk'' found) (\<lambda>ch.
       if (case cur of None \<Rightarrow> False | Some k \<Rightarrow> trn_chunk_seq k \<noteq> cm_sequence ch)
       then Inl ''linear continuation is not at its input cursor''
       else
         let row = (case cur of None \<Rightarrow> 0 | Some k \<Rightarrow> trn_next_row k) in
         if row < 0 then Inl ''linear continuation has a negative row ordinal''
         else if cm_kind ch = Frontier
         then
           if row \<noteq> 0 then Inl ''frontier continuation has a row offset''
           else
             bind_res (append_frontier c1 db (cm_lsn ch)) (\<lambda>(_, c2, db2).
             bind_res (advance_input c2 db2 0 (cm_sequence ch + 1) (cm_lsn ch) usage_default) (\<lambda>(c3, db3).
             bind_res (delete_continuation c3 db3 (cur \<noteq> None)) (\<lambda>(c4, db4).
             bind_res (step_transition c4 PhFrontier usage_default) (\<lambda>r.
             Inr (r, c4, db4, st)))))
         else step_data_transform env kind c1 db st (cur \<noteq> None) ch row)))))"

fun expected_producer :: "linear_kind \<Rightarrow> producer_kind" where
  "expected_producer LScan = Source"
| "expected_producer LFilter = Operator"
| "expected_producer LProject = Operator"

text \<open>\<open>source\<close> is the source relation of a Scan.\<close>

definition linear_step ::
    "('i, 'o) linear_env \<Rightarrow> linear_kind \<Rightarrow> int \<Rightarrow> step_context \<Rightarrow> linear_db \<Rightarrow> 'o linear_store
     \<Rightarrow> 'o linear_outcome" where
  "linear_step env kind source c db st =
     (if length (sc_inputs c) \<noteq> 1 then Inl ''linear stage must have exactly one input''
      else
        bind_res (context_input c 0) (\<lambda>input.
        if is_port input \<noteq> 0 then Inl ''linear stage must have exactly one input''
        else if is_producer input \<noteq> expected_producer kind
        then Inl ''linear stage input producer does not match its operator''
        else if kind = LScan then execute_scan env source c db st
        else execute_transform env kind c db st))"

definition scan_descriptor :: operator_descriptor where
  "scan_descriptor = \<lparr>od_phases = [PhAdmit, PhProcess, PhFrontier], od_inputs = [SourceInput],
                      od_output = EffectStreamOutput\<rparr>"

definition transform_descriptor :: operator_descriptor where
  "transform_descriptor = \<lparr>od_phases = [PhAdmit, PhProcess, PhFrontier], od_inputs = [OperatorInput],
                           od_output = EffectStreamOutput\<rparr>"

end
