(* ===== verification/Linear_Refinement.thy ===== *)
theory Linear_Refinement
  imports Linear_Step "HOL-Library.Sublist"
begin

text \<open>
  What the statements of the linear operators select (\<open>src/execution/linear/runtime.rs\<close>): a page
  of the transform statement is a range of the ordinals of its chunk, and what it inserts is the
  filtered and projected image of that range.
\<close>

section \<open>Ranges of a sorted list\<close>

lemma subseq_set: "subseq ys xs \<Longrightarrow> set ys \<subseteq> set xs"
  by (auto simp: subseq_conv_nths dest: in_set_nthsD)

lemma subseq_distinct: "subseq ys xs \<Longrightarrow> distinct xs \<Longrightarrow> distinct ys"
  by (auto simp: subseq_conv_nths)

lemma subseq_distinct_filter:
  "subseq ys xs \<Longrightarrow> distinct xs \<Longrightarrow> ys = filter (\<lambda>x. x \<in> set ys) xs"
proof (induction xs arbitrary: ys)
  case (Cons x xs)
  from Cons.prems(1) consider (skip) "subseq ys xs" | (take) ys' where "ys = x # ys'" "subseq ys' xs"
    by (cases rule: list_emb.cases) auto
  then show ?case
  proof cases
    case skip
    then have "x \<notin> set ys" using subseq_set Cons.prems(2) by fastforce
    then show ?thesis using Cons.IH[OF skip] Cons.prems(2) by simp
  next
    case take
    have "ys' = filter (\<lambda>y. y \<in> set ys') xs" using Cons.IH[OF take(2)] Cons.prems(2) by simp
    also have "\<dots> = filter (\<lambda>y. y \<in> set ys) xs" using Cons.prems(2) take(1) by (auto intro: filter_cong)
    finally show ?thesis using take(1) by simp
  qed
qed simp

lemma filter_range_split:
  fixes f :: "'a \<Rightarrow> int"
  assumes "sorted (map f xs)" "lo \<le> a" "a \<le> b"
  shows "filter (\<lambda>x. lo \<le> f x \<and> f x < b) xs
    = filter (\<lambda>x. lo \<le> f x \<and> f x < a) xs @ filter (\<lambda>x. a \<le> f x \<and> f x < b) xs"
  using assms(1)
proof (induction xs)
  case (Cons x xs)
  show ?case
  proof (cases "f x < a")
    case True
    then show ?thesis using Cons assms(2,3) by auto
  next
    case False
    then have "filter (\<lambda>y. lo \<le> f y \<and> f y < a) xs = []" using Cons.prems by (auto simp: filter_empty_conv)
    then show ?thesis using Cons assms(2,3) False by auto
  qed
qed simp

text \<open>Distinct ordinals whose number fits between their least and their greatest are a range.\<close>

lemma ordinal_range:
  fixes ords :: "int list"
  assumes "distinct ords" "ords \<noteq> []" "Min (set ords) = a" "Max (set ords) = a + int (length ords) - 1"
  shows "set ords = {a..<a + int (length ords)}"
proof (rule card_subset_eq)
  show "set ords \<subseteq> {a..<a + int (length ords)}"
  proof
    fix x assume "x \<in> set ords"
    then have "Min (set ords) \<le> x" "x \<le> Max (set ords)" by simp_all
    then show "x \<in> {a..<a + int (length ords)}" using assms(3,4) by simp
  qed
  show "card (set ords) = card {a..<a + int (length ords)}"
    using assms(1) by (simp add: distinct_card)
qed simp

section \<open>Pages\<close>

lemma page_split_subseq: "subseq (fst (page_split first n limit bytes running xs)) xs"
proof (induction xs arbitrary: first n running)
  case (Cons x xs)
  show ?case
    using Cons[of False "n - 1" "running + bytes x"]
    by (auto simp: Let_def split: prod.splits)
qed simp

lemma select_output_subseq: "subseq (select_output env emit mr mb rows bytes xs) xs"
  by (induction xs arbitrary: rows bytes) (auto simp: Let_def)

text \<open>The rows of a payload with an ordinal below a bound, in order.\<close>

definition rows_upto :: "'i payload_row list \<Rightarrow> int \<Rightarrow> 'i payload_row list" where
  "rows_upto payload k =
     filter (\<lambda>r. 0 \<le> pw_ordinal r \<and> pw_ordinal r < k) (sort_key pw_ordinal payload)"

definition transform_image ::
    "('i, 'o) linear_env \<Rightarrow> bool \<Rightarrow> 'i payload_row list \<Rightarrow> (int \<times> 'o) list" where
  "transform_image env emit rows =
     map (\<lambda>r. (pw_weight r, le_project env (pw_value r))) (filter (row_passes env emit) rows)"

definition emitted :: "'o linear_store \<Rightarrow> (int \<times> 'o) list" where
  "emitted st = map (\<lambda>(s, n, r). (pw_weight r, pw_value r)) (ls_payload st)"

lemma transform_image_append [simp]:
  "transform_image env emit (xs @ ys) = transform_image env emit xs @ transform_image env emit ys"
  by (simp add: transform_image_def)

lemma insert_payload_Inr:
  "insert_payload stream seq rows st = Inr st' \<Longrightarrow>
     emitted st' = emitted st @ rows \<and> ls_bootstrap st' = ls_bootstrap st"
  by (auto simp: insert_payload_def emitted_def numbered_rows_def o_def map_nth split: if_splits
      intro: nth_equalityI)

lemma selected_range:
  assumes keys: "distinct (map pw_ordinal payload)"
    and sub: "subseq ys (input_source payload first rows)" and ne: "ys \<noteq> []"
    and min: "Min (set (map pw_ordinal ys)) = first"
    and max: "Max (set (map pw_ordinal ys)) = first + int (length ys) - 1"
  shows "ys = filter (\<lambda>r. first \<le> pw_ordinal r \<and> pw_ordinal r < first + int (length ys))
      (sort_key pw_ordinal payload)"
    and "first + int (length ys) \<le> rows"
proof -
  let ?s = "sort_key pw_ordinal payload" and ?xs = "input_source payload first rows"
  have ds: "distinct (map pw_ordinal ?s)"
    using keys by (simp add: distinct_map inj_on_def)
  then have dx: "distinct (map pw_ordinal ?xs)" by (simp add: input_source_def distinct_map_filter)
  then have dx': "distinct ?xs" by (simp add: distinct_map)
  have incl: "set ys \<subseteq> set ?xs" using sub by (rule subseq_set)
  have dy: "distinct (map pw_ordinal ys)"
    using sub dx by (meson subseq_map subseq_distinct)
  have range: "pw_ordinal ` set ys = {first..<first + int (length ys)}"
    using ordinal_range[of "map pw_ordinal ys" first] dy ne min max by simp
  have mem: "r \<in> set ys \<longleftrightarrow> pw_ordinal r < first + int (length ys)" if "r \<in> set ?xs" for r
  proof
    assume "r \<in> set ys" then show "pw_ordinal r < first + int (length ys)" using range by auto
  next
    assume "pw_ordinal r < first + int (length ys)"
    then have "pw_ordinal r \<in> pw_ordinal ` set ys" using that by (simp add: range input_source_def)
    then obtain r' where "r' \<in> set ys" "pw_ordinal r' = pw_ordinal r" by auto
    then show "r \<in> set ys" using dx incl that by (metis (no_types, lifting) distinct_map inj_onD subsetD)
  qed
  obtain z where z: "z \<in> set ys" "pw_ordinal z = first + int (length ys) - 1"
    using max ne Max_in[of "pw_ordinal ` set ys"] by (auto simp: image_iff)
  then show le: "first + int (length ys) \<le> rows" using incl by (auto simp: input_source_def)
  have "ys = filter (\<lambda>r. r \<in> set ys) ?xs" by (rule subseq_distinct_filter[OF sub dx'])
  also have "\<dots> = filter (\<lambda>r. pw_ordinal r < first + int (length ys)) ?xs"
    using mem by (intro filter_cong) auto
  also have "\<dots> = filter (\<lambda>r. first \<le> pw_ordinal r \<and> pw_ordinal r < first + int (length ys)) ?s"
    using le by (auto simp: input_source_def intro: filter_cong)
  finally show "ys = filter (\<lambda>r. first \<le> pw_ordinal r \<and> pw_ordinal r < first + int (length ys)) ?s" .
qed

section \<open>The primitives\<close>

text \<open>What a step never changes of its context.\<close>

definition same_step :: "step_context \<Rightarrow> step_context \<Rightarrow> bool" where
  "same_step c c' \<longleftrightarrow> sc_result_oid c' = sc_result_oid c \<and> sc_stage_id c' = sc_stage_id c
     \<and> sc_inputs c' = sc_inputs c
     \<and> map_option os_stream_id (sc_output c') = map_option os_stream_id (sc_output c)"

lemma same_step_refl [simp]: "same_step c c"
  by (simp add: same_step_def)

lemma same_step_trans: "same_step c c' \<Longrightarrow> same_step c' c'' \<Longrightarrow> same_step c c''"
  by (simp add: same_step_def)

lemma record_output_append_same: "record_output_append c t rows bytes lsn = Inr c' \<Longrightarrow> same_step c c'"
  by (cases t) (auto simp: record_output_append_def res_simps same_step_def split: option.splits if_splits)

lemma append_if_rows_same:
  "(if n = 0 then Inr c else record_output_append c t rows bytes lsn) = Inr c' \<Longrightarrow> same_step c c'"
  by (auto split: if_splits dest: record_output_append_same)

lemma int_of_u64: "i64_from_u64 v = Inr y \<longleftrightarrow> int v \<le> i64_max \<and> y = int v"
  by (auto simp: i64_from_u64_def)

lemma nonnegative_value: "nonnegative m v = Inr n \<longleftrightarrow> 0 \<le> v \<and> n = nat v"
  by (auto simp: nonnegative_def)

lemma page_check_Inr:
  "bind_res (if n = 0 \<or> a \<noteq> first then Inr True else bind_res (i64_from_u64 n) (\<lambda>v. Inr (bad v)))
     (\<lambda>b. if b then Inl e else k) = Inr x \<longleftrightarrow>
     n \<noteq> 0 \<and> a = first \<and> int n \<le> i64_max \<and> \<not> bad (int n) \<and> k = Inr x"
  by (auto simp: i64_from_u64_def)

lemma transform_statement_Inr:
  assumes "transform_statement env payload first rows a b d e stream seq emit st = Inr (s, st')"
  shows "\<exists>ys. subseq ys (input_source payload first rows) \<and>
    tst_processed s = int (length ys) \<and>
    (ys \<noteq> [] \<longrightarrow> tst_first s = Some (Min (set (map pw_ordinal ys))) \<and>
       tst_last s = Some (Max (set (map pw_ordinal ys)))) \<and>
    emitted st' = emitted st @ transform_image env emit ys \<and> ls_bootstrap st' = ls_bootstrap st"
proof -
  let ?ys = "select_output env emit d e 0 0 (input_bounded env payload first rows a b)"
  have "subseq ?ys (input_source payload first rows)"
    using select_output_subseq page_split_subseq unfolding input_bounded_def
    by (rule subseq_order.order_trans)
  then show ?thesis
    using assms insert_payload_Inr unfolding transform_statement_def Let_def
    by (intro exI[of _ ?ys]) (fastforce simp: res_simps transform_image_def)
qed

lemma run_transform_Inr:
  assumes run: "run_transform_primitive env c ch first emit st = Inr (f, c', st')"
    and keys: "distinct (map pw_ordinal (le_input env (cm_stream_id ch) (cm_sequence ch)))"
  shows "tff_first f = first" "first \<le> tff_last f" "tff_last f < int (cm_rows ch)"
    "emitted st' = emitted st @ transform_image env emit
       (filter (\<lambda>r. first \<le> pw_ordinal r \<and> pw_ordinal r < tff_last f + 1)
          (sort_key pw_ordinal (le_input env (cm_stream_id ch) (cm_sequence ch))))"
    "ls_bootstrap st' = ls_bootstrap st" "same_step c c'"
proof -
  let ?payload = "le_input env (cm_stream_id ch) (cm_sequence ch)"
  obtain a b d e stream seq s where
      stmt: "transform_statement env ?payload first (int (cm_rows ch)) a b d e stream seq emit st = Inr (s, st')"
    and some: "0 < tst_processed s" "tst_first s = Some first" "tst_last s = Some (first + tst_processed s - 1)"
    and f: "tff_first f = first" "tff_last f = first + tst_processed s - 1" and same: "same_step c c'"
  proof -
    assume found: "\<And>a b d e stream seq s.
      transform_statement env ?payload first (int (cm_rows ch)) a b d e stream seq emit st = Inr (s, st') \<Longrightarrow>
      0 < tst_processed s \<Longrightarrow> tst_first s = Some first \<Longrightarrow>
      tst_last s = Some (first + tst_processed s - 1) \<Longrightarrow> tff_first f = first \<Longrightarrow>
      tff_last f = first + tst_processed s - 1 \<Longrightarrow> same_step c c' \<Longrightarrow> thesis"
    show thesis
      using run unfolding run_transform_primitive_def Let_def
      apply (simp only: bind_res_Inr[of "context_output _"] bind_res_Inr[of "i64_from_usize _"]
          bind_res_Inr[of "i64_from_u64 _"] bind_res_Inr[of "transform_statement _ _ _ _ _ _ _ _ _ _ _ _"]
          bind_res_Inr[of "nonnegative _ _"] bind_res_Inr[of "null_column _ _"] page_check_Inr
          split_paired_Ex prod.case)
      apply (simp only: bind_res_Inr if_Inl_Inr sum.inject prod.inject null_column_def ok_or_Inr)
      apply (elim exE conjE)
      apply (rule found)
            apply (simp add: int_of_u64 nonnegative_value)
           apply (auto simp: nonnegative_value dest: append_if_rows_same)
      done
  qed
  obtain ys where ys: "subseq ys (input_source ?payload first (int (cm_rows ch)))"
      "tst_processed s = int (length ys)"
      "ys \<noteq> [] \<longrightarrow> tst_first s = Some (Min (set (map pw_ordinal ys))) \<and>
         tst_last s = Some (Max (set (map pw_ordinal ys)))"
      "emitted st' = emitted st @ transform_image env emit ys" "ls_bootstrap st' = ls_bootstrap st"
    using transform_statement_Inr[OF stmt] by blast
  have n: "tst_processed s = int (length ys)" "ys \<noteq> []" using ys(2) some(1) by auto
  note range = selected_range[OF keys ys(1) n(2)]
  have mm: "Min (set (map pw_ordinal ys)) = first" "Max (set (map pw_ordinal ys)) = first + int (length ys) - 1"
    using ys(3) some n by auto
  show "tff_first f = first" "same_step c c'" "ls_bootstrap st' = ls_bootstrap st" by fact+
  show "first \<le> tff_last f" using f some(1) by simp
  show "tff_last f < int (cm_rows ch)" using range(2)[OF mm] f n by simp
  show "emitted st' = emitted st @ transform_image env emit
       (filter (\<lambda>r. first \<le> pw_ordinal r \<and> pw_ordinal r < tff_last f + 1) (sort_key pw_ordinal ?payload))"
    using ys(4) range(1)[OF mm] f n by simp
qed

text \<open>The bootstrap statement takes a prefix of the relation, in the order of its sequence.\<close>

lemma sort_key_filter: "sort_key f (filter P xs) = filter P (sort_key f xs)"
  by (induction xs) (auto simp: filter_insort_triv filter_insort)

lemma bootstrap_page_prefix:
  assumes "distinct (map fst rows)" "\<forall>x \<in> set rows. first \<le> fst x"
  shows "\<exists>m. bootstrap_page env first max_rows max_bytes rows = take m (sort_key fst rows) \<and>
    sort_key fst (filter (\<lambda>x. fst x \<notin> set (map fst (take m (sort_key fst rows)))) rows)
      = drop m (sort_key fst rows) \<and>
    (0 < max_rows \<longrightarrow> rows \<noteq> [] \<longrightarrow> take m (sort_key fst rows) \<noteq> [])"
proof -
  let ?s = "sort_key fst rows"
  have all: "filter (\<lambda>x. first \<le> fst x) ?s = ?s" using assms(2) by (auto intro: filter_True)
  obtain m where "page_split True max_rows max_bytes (bootstrap_octets env) 0 ?s = (take m ?s, drop m ?s)"
    using page_split_prefix[of ?s "bootstrap_octets env" max_rows True max_bytes 0]
    by (auto simp: bootstrap_octets_def effect_row_bytes_def)
  then have page: "bootstrap_page env first max_rows max_bytes rows = take m ?s"
    by (simp add: bootstrap_page_def all)
  have ne: "take m ?s \<noteq> []" if "0 < max_rows" "rows \<noteq> []"
  proof -
    have "?s \<noteq> []" using that(2) by (metis length_0_conv length_sort)
    from page_split_nonempty[OF that(1) this, of max_bytes "bootstrap_octets env" 0] page
    show ?thesis by (simp add: bootstrap_page_def all)
  qed
  have d: "distinct (map fst ?s)" using assms(1) by (simp add: distinct_map inj_on_def)
  then have "distinct (map fst (take m ?s) @ map fst (drop m ?s))" by (metis append_take_drop_id map_append)
  then have disj: "set (map fst (take m ?s)) \<inter> set (map fst (drop m ?s)) = {}" by simp
  have "filter (\<lambda>x. fst x \<notin> set (map fst (take m ?s))) ?s
      = filter (\<lambda>x. fst x \<notin> set (map fst (take m ?s))) (take m ?s @ drop m ?s)" by simp
  also have "\<dots> = drop m ?s"
    unfolding filter_append using disj by (auto simp: filter_empty_conv filter_id_conv)
  finally show ?thesis using page ne by (auto simp: sort_key_filter)
qed

text \<open>The relation as it will be emitted: every row once, in order, with weight one.\<close>

definition bootstrap_image :: "(int \<times> 'o) list \<Rightarrow> (int \<times> 'o) list" where
  "bootstrap_image rows = map (\<lambda>x. (1, snd x)) (sort_key fst rows)"

definition positive_context :: "step_context \<Rightarrow> bool" where
  "positive_context c \<longleftrightarrow>
     0 < max_input_rows (sc_transition_budget c) \<and> 0 < max_output_rows (sc_transition_budget c) \<and>
     (case sc_output c of None \<Rightarrow> False | Some out \<Rightarrow> 0 < os_target_rows out)"

lemma bootstrap_statement_Inr:
  fixes st :: "'o linear_store"
  assumes stmt: "bootstrap_statement env first max_rows max_bytes stream seq st = Inr (s, st')"
    and keys: "distinct (map fst (ls_bootstrap st))" "\<forall>x \<in> set (ls_bootstrap st). first \<le> fst x"
    and pos: "0 < max_rows"
  shows "\<exists>page :: (int \<times> 'o) list. bst_rows s = int (length page) \<and>
    bst_first s = (if page = [] then None else Some (Min (set (map fst page)))) \<and>
    bst_last s = (if page = [] then None else Some (Max (set (map fst page)))) \<and>
    emitted st @ bootstrap_image (ls_bootstrap st) = emitted st' @ bootstrap_image (ls_bootstrap st') \<and>
    distinct (map fst (ls_bootstrap st')) \<and>
    (page = [] \<longrightarrow> ls_bootstrap st' = []) \<and>
    (\<forall>x \<in> set (ls_bootstrap st'). \<forall>y \<in> set page. fst y < fst x)"
proof -
  let ?s = "sort_key fst (ls_bootstrap st)"
  obtain m where m: "bootstrap_page env first (nat max_rows) max_bytes (ls_bootstrap st) = take m ?s"
      "sort_key fst (filter (\<lambda>x. fst x \<notin> set (map fst (take m ?s))) (ls_bootstrap st)) = drop m ?s"
      "ls_bootstrap st \<noteq> [] \<longrightarrow> take m ?s \<noteq> []"
    using bootstrap_page_prefix[OF keys, of env "nat max_rows" max_bytes] pos by auto
  let ?page = "take m ?s" and ?left = "filter (\<lambda>x. fst x \<notin> set (map fst (take m ?s))) (ls_bootstrap st)"
  obtain st1 where ins: "insert_payload stream seq (map (\<lambda>x. (1, snd x)) ?page) st = Inr st1"
      "st' = st1\<lparr>ls_bootstrap := ?left\<rparr>"
    and s: "bst_rows s = int (length ?page)"
      "bst_first s = (if ?page = [] then None else Some (Min (set (map fst ?page))))"
      "bst_last s = (if ?page = [] then None else Some (Max (set (map fst ?page))))"
    using stmt unfolding bootstrap_statement_def Let_def m(1)
    by (simp only: bind_res_Inr if_Inl_Inr split_paired_Ex prod.case sum.inject prod.inject) auto
  have em: "emitted st' = emitted st @ map (\<lambda>x. (1, snd x)) ?page"
    using insert_payload_Inr[OF ins(1)] by (simp add: ins(2) emitted_def)
  have "bootstrap_image (ls_bootstrap st) = map (\<lambda>x. (1, snd x)) (take m ?s) @ map (\<lambda>x. (1, snd x)) (drop m ?s)"
    unfolding bootstrap_image_def map_append[symmetric] append_take_drop_id ..
  moreover have "bootstrap_image (ls_bootstrap st') = map (\<lambda>x. (1, snd x)) (drop m ?s)"
    using m(2) by (simp add: ins(2) bootstrap_image_def)
  ultimately have image: "emitted st @ bootstrap_image (ls_bootstrap st) = emitted st' @ bootstrap_image (ls_bootstrap st')"
    using em by simp
  have "sorted (map fst ?s)" "distinct (map fst ?s)"
    using keys(1) by (simp_all add: distinct_map inj_on_def)
  then have "sorted_wrt (<) (map fst (take m ?s) @ map fst (drop m ?s))"
    by (metis append_take_drop_id map_append strict_sorted_iff)
  moreover have "set ?left = set (drop m ?s)" by (metis m(2) set_sort)
  ultimately have beyond: "\<forall>x \<in> set (ls_bootstrap st'). \<forall>y \<in> set ?page. fst y < fst x"
    by (auto simp: ins(2) sorted_wrt_append)
  have "ls_bootstrap st' = []" if "?page = []"
    using that m(3) by (auto simp: ins(2))
  moreover have "distinct (map fst (ls_bootstrap st'))"
    using keys(1) by (simp add: ins(2) distinct_map_filter)
  ultimately show ?thesis using s image beyond by (intro exI[of _ ?page]) auto
qed

lemma run_bootstrap_Inr:
  fixes st :: "'o linear_store"
  assumes run: "run_bootstrap_primitive env c first activation st = Inr (f, c', st')"
    and keys: "distinct (map fst (ls_bootstrap st))" "\<forall>x \<in> set (ls_bootstrap st). first \<le> fst x"
    and pos: "positive_context c"
  shows "\<exists>page :: (int \<times> 'o) list. input_rows (bof_usage f) = length page \<and>
    bof_first f = (if page = [] then None else Some (Min (set (map fst page)))) \<and>
    bof_last f = (if page = [] then None else Some (Max (set (map fst page)))) \<and>
    emitted st @ bootstrap_image (ls_bootstrap st) = emitted st' @ bootstrap_image (ls_bootstrap st') \<and>
    distinct (map fst (ls_bootstrap st')) \<and>
    (page = [] \<longrightarrow> ls_bootstrap st' = []) \<and>
    (\<forall>x \<in> set (ls_bootstrap st'). \<forall>y \<in> set page. fst y < fst x) \<and> same_step c c'"
proof -
  obtain max_rows max_bytes stream seq s where
      stmt: "bootstrap_statement env first max_rows max_bytes stream seq st = Inr (s, st')"
    and rows: "0 < max_rows" and f: "input_rows (bof_usage f) = nat (bst_rows s)"
      "bof_first f = bst_first s" "bof_last f = bst_last s" and same: "same_step c c'"
  proof -
    assume found: "\<And>max_rows max_bytes stream seq s.
      bootstrap_statement env first max_rows max_bytes stream seq st = Inr (s, st') \<Longrightarrow>
      0 < max_rows \<Longrightarrow> input_rows (bof_usage f) = nat (bst_rows s) \<Longrightarrow>
      bof_first f = bst_first s \<Longrightarrow> bof_last f = bst_last s \<Longrightarrow> same_step c c' \<Longrightarrow> thesis"
    show thesis
      using run unfolding run_bootstrap_primitive_def Let_def
      apply (simp only: bind_res_Inr if_Inl_Inr split_paired_Ex prod.case sum.inject prod.inject
          context_output_def ok_or_Inr nonnegative_value i64_from_usize_def)
      apply (elim exE conjE)
      apply (rule found)
           apply simp
          apply (use pos in \<open>auto simp: positive_context_def dest: append_if_rows_same\<close>)
      done
  qed
  show ?thesis
    using bootstrap_statement_Inr[OF stmt keys rows] same unfolding f
    by (elim exE conjE) (rule exI, intro conjI; (assumption | simp))
qed

end
