(* ===== verification/Linear_Run.thy ===== *)
theory Linear_Run
  imports Linear_Refinement
begin

text \<open>
  Committed transactions of a linear stage, one after another on the same database: the payload
  they have inserted is the image of the input they have consumed.
\<close>

section \<open>The stage and its transactions\<close>

text \<open>The consumer that the stage is of its input stream, and what the catalog fixes about it.\<close>

record linear_stage =
  lg_kind :: linear_kind
  lg_key :: consumer_key
  lg_input :: int
  lg_output :: int
  lg_activation :: nat
  lg_source :: int

definition input_chunks :: "linear_stage \<Rightarrow> linear_db \<Rightarrow> chunk list" where
  "input_chunks stg db = (case db_streams db (lg_input stg) of None \<Rightarrow> [] | Some s \<Rightarrow> es_chunks s)"

definition consumer_next :: "linear_stage \<Rightarrow> linear_db \<Rightarrow> int option" where
  "consumer_next stg db =
     (case db_streams db (lg_input stg) of
        None \<Rightarrow> None
      | Some s \<Rightarrow> map_option cs_next (map_of (es_consumers s) (lg_key stg)))"

definition belongs :: "linear_stage \<Rightarrow> step_context \<Rightarrow> bool" where
  "belongs stg c \<longleftrightarrow> (sc_result_oid c, sc_stage_id c, 0) = lg_key stg
     \<and> map_option os_stream_id (sc_output c) = Some (lg_output stg)
     \<and> (case context_input c 0 of
          Inl _ \<Rightarrow> False
        | Inr i \<Rightarrow> is_stream_id i = lg_input stg \<and> is_activation i = lg_activation stg)"

text \<open>
  A context that was opened on this database: it has read the cursor of its consumer, and its
  budget and the row target of its output are positive.
\<close>

definition opened :: "linear_stage \<Rightarrow> step_context \<Rightarrow> linear_db \<Rightarrow> bool" where
  "opened stg c db \<longleftrightarrow> belongs stg c \<and> positive_context c
     \<and> (case context_input c 0 of
          Inl _ \<Rightarrow> False
        | Inr i \<Rightarrow> consumer_next stg db = Some (is_next i))"

definition linear_transaction ::
    "linear_stage \<Rightarrow> ('i, 'o) linear_env \<Rightarrow> step_context \<Rightarrow> linear_db \<times> 'o linear_store
     \<Rightarrow> (linear_db \<times> 'o linear_store) result" where
  "linear_transaction stg env c x =
     (case x of (db, st) \<Rightarrow>
       if \<not> opened stg c db then Inl ''the context was opened on another state''
       else
         bind_res (linear_step env (lg_kind stg) (lg_source stg) c db st) (\<lambda>(r, c', db1, st1).
         bind_res (step_commit c' db1 r) (\<lambda>(e, db2). Inr (db2, st1))))"

fun linear_run ::
    "linear_stage \<Rightarrow> ('i, 'o) linear_env \<Rightarrow> step_context list \<Rightarrow> linear_db \<times> 'o linear_store
     \<Rightarrow> (linear_db \<times> 'o linear_store) result" where
  "linear_run stg env [] x = Inr x"
| "linear_run stg env (c # cs) x = bind_res (linear_transaction stg env c x) (linear_run stg env cs)"

section \<open>The expected output\<close>

definition chunk_at :: "chunk list \<Rightarrow> int \<Rightarrow> chunk option" where
  "chunk_at chunks n = (case filter (\<lambda>ch. ck_seq ch = n) chunks of [ch] \<Rightarrow> Some ch | _ \<Rightarrow> None)"

text \<open>The image of the rows of a chunk with an ordinal below a bound, and of the whole chunk.\<close>

definition chunk_part ::
    "linear_stage \<Rightarrow> ('i, 'o) linear_env \<Rightarrow> chunk list \<Rightarrow> int \<Rightarrow> int \<Rightarrow> (int \<times> 'o) list" where
  "chunk_part stg env chunks n k =
     (case chunk_at chunks n of
        None \<Rightarrow> []
      | Some ch \<Rightarrow>
          if ck_kind ch = Data
          then transform_image env (lg_kind stg \<noteq> LScan \<or> lg_activation stg < ck_lsn ch)
                 (rows_upto (le_input env (lg_input stg) n) k)
          else [])"

definition chunk_image ::
    "linear_stage \<Rightarrow> ('i, 'o) linear_env \<Rightarrow> chunk list \<Rightarrow> int \<Rightarrow> (int \<times> 'o) list" where
  "chunk_image stg env chunks n =
     chunk_part stg env chunks n (case chunk_at chunks n of None \<Rightarrow> 0 | Some ch \<Rightarrow> ck_rows ch)"

definition consumed_image ::
    "linear_stage \<Rightarrow> ('i, 'o) linear_env \<Rightarrow> chunk list \<Rightarrow> int \<Rightarrow> int \<Rightarrow> (int \<times> 'o) list" where
  "consumed_image stg env chunks lo hi = concat (map (chunk_image stg env chunks) [lo..hi - 1])"

text \<open>The position that the continuation row stores, and the bootstrap cursor.\<close>

fun row_offset :: "linear_row list \<Rightarrow> int" where
  "row_offset [TransformRow k] = trn_next_row k"
| "row_offset [ScanRow f] = (case scf_next_row f of None \<Rightarrow> 0 | Some r \<Rightarrow> r)"
| "row_offset _ = 0"

fun bootstrap_cursor :: "linear_row list \<Rightarrow> int option" where
  "bootstrap_cursor [ScanRow f] = (if scf_phase f = 1 then scf_next_bootstrap f else None)"
| "bootstrap_cursor _ = None"

definition pending_image :: "linear_db \<Rightarrow> 'o linear_store \<Rightarrow> (int \<times> 'o) list" where
  "pending_image db st =
     (if bootstrap_cursor (db_continuation db) = None then [] else bootstrap_image (ls_bootstrap st))"

definition linear_state ::
    "linear_stage \<Rightarrow> ('i, 'o) linear_env \<Rightarrow> chunk list \<Rightarrow> int \<Rightarrow> (int \<times> 'o) list
     \<Rightarrow> linear_db \<Rightarrow> 'o linear_store \<Rightarrow> bool" where
  "linear_state stg env chunks lo base db st \<longleftrightarrow>
     input_chunks stg db = chunks \<and>
     (\<exists>cur. consumer_next stg db = Some cur \<and> lo \<le> cur \<and>
        emitted st @ pending_image db st = base @ consumed_image stg env chunks lo cur
          @ chunk_part stg env chunks cur (row_offset (db_continuation db))) \<and>
     (\<forall>k. bootstrap_cursor (db_continuation db) = Some k \<longrightarrow>
        distinct (map fst (ls_bootstrap st)) \<and> (\<forall>x \<in> set (ls_bootstrap st). k \<le> fst x))"

lemma rows_upto_zero [simp]: "rows_upto payload 0 = []"
  by (auto simp: rows_upto_def filter_empty_conv)

lemma chunk_part_zero [simp]: "chunk_part stg env chunks n 0 = []"
  by (simp add: chunk_part_def transform_image_def split: option.splits)

lemma consumed_image_next:
  "lo \<le> cur \<Longrightarrow> consumed_image stg env chunks lo (cur + 1)
     = consumed_image stg env chunks lo cur @ chunk_image stg env chunks cur"
  by (simp add: consumed_image_def upto_rec2)

section \<open>The primitives of the context\<close>

lemma same_step_belongs: "same_step c c' \<Longrightarrow> belongs stg c \<Longrightarrow> belongs stg c'"
  by (auto simp: same_step_def belongs_def context_input_def split: if_splits)

text \<open>The input side of the database: the chunks and the cursor of the stage.\<close>

definition same_source :: "linear_stage \<Rightarrow> linear_db \<Rightarrow> linear_db \<Rightarrow> bool" where
  "same_source stg db db' \<longleftrightarrow> input_chunks stg db' = input_chunks stg db
     \<and> consumer_next stg db' = consumer_next stg db"

lemma same_source_refl [simp]: "same_source stg db db"
  by (simp add: same_source_def)

lemma same_source_trans: "same_source stg db db' \<Longrightarrow> same_source stg db' db'' \<Longrightarrow> same_source stg db db''"
  by (simp add: same_source_def)

lemma same_source_streams:
  "db_streams db' (lg_input stg) = db_streams db (lg_input stg) \<Longrightarrow> same_source stg db db'"
  by (simp add: same_source_def input_chunks_def consumer_next_def)

lemma authority_same: "bind_continuation_authority c p = Inr c' \<Longrightarrow> same_step c c'"
  by (auto simp: bind_continuation_authority_def same_step_def split: if_splits option.splits)

lemma replace_cas_rows:
  assumes "replace_cas c db old new owner = Inr (c', db')"
  shows "same_step c c'" "db_streams db' = db_streams db"
    "new = Some f \<Longrightarrow> db_continuation db' = [f]"
    "new = None \<Longrightarrow> db_continuation db = [g] \<Longrightarrow> old \<noteq> None \<Longrightarrow> db_continuation db' = []"
proof -
  note r = replace_cas_Inr[OF assms]
  show "same_step c c'" using r by (simp add: record_continuation_replace_def same_step_def)
  show "db_streams db' = db_streams db" using r by (metis step_db.select_convs(1) step_db.surjective step_db.update_convs(4))
  show "new = Some f \<Longrightarrow> db_continuation db' = [f]" using r by simp
  show "db_continuation db' = []" if "new = None" "db_continuation db = [g]" "old \<noteq> None"
    using r that by (cases old) auto
qed

lemma replace_cas_new:
  "replace_cas c db old (Some f) owner = Inr (c', db') \<Longrightarrow>
     same_step c c' \<and> db_streams db' = db_streams db \<and> db_continuation db' = [f]"
  using replace_cas_rows[of c db old "Some f" owner c' db'] by simp

lemma delete_continuation_rows:
  assumes "delete_continuation c db had = Inr (c', db')" "had \<longleftrightarrow> db_continuation db \<noteq> []"
  shows "same_step c c' \<and> db_streams db' = db_streams db \<and> db_continuation db' = []"
  using assms by (auto simp: delete_continuation_def clear_locked_def record_continuation_replace_def
      same_step_def res_simps split: if_splits)

lemma append_frontier_rows:
  assumes "append_frontier c db lsn = Inr (out, c', db')" "belongs stg c" "lg_input stg \<noteq> lg_output stg"
  shows "same_step c c' \<and> same_source stg db db' \<and> db_continuation db' = db_continuation db"
proof -
  obtain o1 outcome s' where o1: "sc_output c = Some o1"
      "(case outcome of Appended sequence \<Rightarrow>
         if sequence \<noteq> os_next o1 then Inl ''frontier append returned an unexpected chunk sequence''
         else bind_res (record_frontier_output c sequence lsn) (\<lambda>c'.
           Inr (FrontierOutput sequence, c', put_stream db (os_stream_id o1) s'))
       | _ \<Rightarrow> Inl ''locked output stream returned another frontier append outcome'') = Inr (out, c', db')"
    using assms(1) unfolding append_frontier_def context_output_def find_stream_def
      bind_res_Inr[of "ok_or _ _"] ok_or_Inr bind_res_Inr[of "append_chunk _ _ _ _ _ _ _"] by auto
  then obtain q where rec: "record_frontier_output c q lsn = Inr c'" "db' = put_stream db (os_stream_id o1) s'"
    by (cases outcome) (auto simp: res_simps)
  have "same_step c c'"
    using o1(1) rec(1) by (auto simp: record_frontier_output_def record_published_frontier_def res_simps
        same_step_def split: if_splits)
  moreover have "os_stream_id o1 \<noteq> lg_input stg"
    using assms(2,3) o1(1) by (auto simp: belongs_def)
  ultimately show ?thesis
    using rec(2) by (auto simp: put_stream_def intro: same_source_streams)
qed

lemma advance_input_rows:
  assumes "advance_input c db 0 n frontier u = Inr (c', db')" "belongs stg c"
  shows "same_step c c' \<and> input_chunks stg db' = input_chunks stg db
    \<and> consumer_next stg db' = Some n \<and> db_continuation db' = db_continuation db"
proof -
  obtain i s s' e where i: "context_input c 0 = Inr i" "db_streams db (is_stream_id i) = Some s"
      "c' = record_input_advance c" "db' = put_stream db (is_stream_id i) s'"
    and adv: "advance_consumer s (db_published db) (sc_result_oid c, sc_stage_id c, 0) (is_next i) n
      (is_consumed i) frontier (max e 1) (int (input_rows u)) (int (input_bytes u)) = Inr s'"
    using assms(1) by (auto simp: advance_input_def find_stream_def res_simps i64_from_u64_def)
  have key: "(sc_result_oid c, sc_stage_id c, 0) = lg_key stg" "is_stream_id i = lg_input stg"
    using assms(2) i(1) by (auto simp: belongs_def)
  have "es_chunks s' = es_chunks s" "map_option cs_next (map_of (es_consumers s') (lg_key stg)) = Some n"
    using adv unfolding key(1) by (auto simp: advance_consumer_def res_simps Let_def update_conv')
  then show ?thesis
    using i key(2) by (auto simp: put_stream_def input_chunks_def consumer_next_def
        record_input_advance_def same_step_def)
qed

lemma commit_rows:
  assumes "step_commit c db r = Inr (e, db')" "belongs stg c" "lg_input stg \<noteq> lg_output stg"
  shows "same_source stg db db' \<and> db_continuation db' = db_continuation db"
proof -
  obtain db1 where pub: "publish_pending_output c db = Inr db1"
      and db': "db_streams db' = db_streams db1" "db_continuation db' = db_continuation db1"
    using step_commit_Inr[OF assms(1)] by auto
  have "db_streams db1 (lg_input stg) = db_streams db (lg_input stg)"
    using pub assms(2,3) by (auto simp: publish_pending_output_def put_stream_def res_simps belongs_def
        split: option.splits if_splits)
  then show ?thesis using publish_keeps[OF pub] db' by (auto intro: same_source_streams)
qed

section \<open>A data chunk\<close>

lemma read_chunk_at:
  assumes "next_chunk c db 0 = Inr (Some ch)" "belongs stg c" "context_input c 0 = Inr i"
  shows "\<exists>k. chunk_at (input_chunks stg db) (is_next i) = Some k \<and> cm_kind ch = ck_kind k
    \<and> ck_rows k = int (cm_rows ch) \<and> cm_lsn ch = ck_lsn k
    \<and> cm_stream_id ch = lg_input stg \<and> cm_sequence ch = is_next i"
proof -
  have i: "is_stream_id i = lg_input stg" using assms(2,3) by (simp add: belongs_def)
  have r: "read_chunk db i (is_next i) = Inr (Some ch)" using assms(1,3) by (simp add: next_chunk_def)
  define found where "found = filter (\<lambda>ch. ck_seq ch = is_next i) (input_chunks stg db)"
  show ?thesis
    using r unfolding read_chunk_def i input_chunks_def[symmetric] found_def[symmetric] chunk_at_def
    by (auto simp: res_simps nonnegative_value i split: list.splits)
qed

lemma rows_upto_extend:
  assumes "0 \<le> a" "a \<le> b"
  shows "rows_upto payload b
    = rows_upto payload a @ filter (\<lambda>r. a \<le> pw_ordinal r \<and> pw_ordinal r < b) (sort_key pw_ordinal payload)"
  unfolding rows_upto_def using assms by (intro filter_range_split) simp_all

text \<open>The rows that a continuation row stands for.\<close>

definition at_rows :: "linear_row list \<Rightarrow> int \<Rightarrow> bool" where
  "at_rows rows k \<longleftrightarrow> row_offset rows = k \<and> bootstrap_cursor rows = None"

lemma at_rows_simps [simp]:
  "at_rows [] 0"
  "at_rows [TransformRow (transform_position i ch k)] k"
  "at_rows [scan_row (data_continuation i ch k)] k"
  "at_rows [scan_row (scan_frontier_position ScSourceFrontier n f)] 0"
  "at_rows [scan_row (scan_frontier_position ScSnapshotFrontier n f)] 0"
  by (simp_all add: at_rows_def transform_position_def scan_row_def data_continuation_def
      scan_frontier_position_def)

lemma store_position_rows:
  assumes "store_position kind c db i ch had row k = Inr (c', db')"
  shows "same_step c c' \<and> db_streams db' = db_streams db \<and> at_rows (db_continuation db') k"
  using assms
  by (cases kind) (auto simp: store_position_def replace_scan_def replace_transform_def res_simps
      dest!: replace_cas_new)

lemma finish_chunk_rows:
  assumes "finish_chunk kind c db i ch had = Inr (c', db')" "had \<longleftrightarrow> db_continuation db \<noteq> []"
    "belongs stg c"
  shows "same_step c c' \<and> input_chunks stg db' = input_chunks stg db
    \<and> consumer_next stg db' = Some (cm_sequence ch + 1) \<and> at_rows (db_continuation db') 0"
proof -
  obtain c1 db1 c2 db2 where
    del: "delete_continuation c db had = Inr (c1, db1)" and
    mid: "(if kind = LScan
        then bind_res (source_frontier_after_chunk c1 db1 ch) (\<lambda>frontier.
             case frontier of
               None \<Rightarrow> Inr (c1, db1)
             | Some f \<Rightarrow>
                 replace_scan c1 db1 None (scan_frontier_position ScSourceFrontier (is_stream_id i) f))
        else Inr (c1, db1)) = Inr (c2, db2)" and
    adv: "advance_input c2 db2 0 (cm_sequence ch + 1) (is_consumed i)
       \<lparr>input_rows = cm_rows ch, input_bytes = cm_bytes ch, output_rows = 0, output_bytes = 0\<rparr> = Inr (c', db')"
    using assms(1) unfolding finish_chunk_def bind_res_Inr split_paired_Ex prod.case by blast
  note d = delete_continuation_rows[OF del assms(2)]
  have m: "same_step c1 c2 \<and> db_streams db2 = db_streams db1 \<and> at_rows (db_continuation db2) 0"
    using mid d
    by (auto simp: replace_scan_def res_simps split: if_splits option.splits dest!: replace_cas_new)
  have "belongs stg c2" using assms(3) d m by (blast intro: same_step_belongs)
  note a = advance_input_rows[OF adv this]
  show ?thesis
    using a d m by (auto simp: input_chunks_def intro: same_step_trans)
qed

lemma step_data_transform_state:
  assumes step: "step_data_transform env (lg_kind stg) c db st had ch row = Inr (r, c', db', st')"
    and found: "next_chunk c db 0 = Inr (Some ch)" "cm_kind ch = Data"
    and ctx: "belongs stg c" "context_input c 0 = Inr i" "consumer_next stg db = Some (is_next i)"
    and cont: "had \<longleftrightarrow> db_continuation db \<noteq> []" "at_rows (db_continuation db) row"
    and inv: "linear_state stg env chunks lo base db st"
    and keys: "\<And>n. distinct (map pw_ordinal (le_input env (lg_input stg) n))"
  shows "linear_state stg env chunks lo base db' st' \<and> belongs stg c'"
proof -
  obtain k where k: "chunk_at (input_chunks stg db) (is_next i) = Some k" "ck_kind k = Data"
      "ck_rows k = int (cm_rows ch)" "cm_lsn ch = ck_lsn k" "cm_stream_id ch = lg_input stg"
      "cm_sequence ch = is_next i"
    using read_chunk_at[OF found(1) ctx(1,2)] found(2) by auto
  let ?payload = "le_input env (lg_input stg) (is_next i)"
  let ?emit = "lg_kind stg \<noteq> LScan \<or> lg_activation stg < ck_lsn k"
  have act: "is_activation i = lg_activation stg" using ctx(1,2) by (simp add: belongs_def)
  obtain f c1 c2 where
    row: "0 \<le> row" and
    run: "run_transform_primitive env c ch row ?emit st = Inr (f, c1, st')" and
    store: "(if tff_last f + 1 < int (cm_rows ch)
       then store_position (lg_kind stg) c1 db i ch had row (tff_last f + 1)
       else if tff_last f + 1 = int (cm_rows ch) then finish_chunk (lg_kind stg) c1 db i ch had
       else Inl ''linear primitive advanced beyond its input chunk'') = Inr (c2, db')" and
    facts: "transition_facts c2 PhProcess
       \<lparr>pr_usage = tff_usage f, pr_state_rows = 0, pr_output = tff_output f\<rparr> = Inr (r, c')"
  proof -
    assume that: "\<And>f c1 c2. 0 \<le> row \<Longrightarrow> run_transform_primitive env c ch row ?emit st = Inr (f, c1, st') \<Longrightarrow>
      (if tff_last f + 1 < int (cm_rows ch)
       then store_position (lg_kind stg) c1 db i ch had row (tff_last f + 1)
       else if tff_last f + 1 = int (cm_rows ch) then finish_chunk (lg_kind stg) c1 db i ch had
       else Inl ''linear primitive advanced beyond its input chunk'') = Inr (c2, db') \<Longrightarrow>
      transition_facts c2 PhProcess
       \<lparr>pr_usage = tff_usage f, pr_state_rows = 0, pr_output = tff_output f\<rparr> = Inr (r, c') \<Longrightarrow> thesis"
    show thesis
      using step unfolding step_data_transform_def Let_def ctx(2) bind_res.simps act k(4)
      by (simp only: if_Inl_Inr bind_res_Inr split_paired_Ex prod.case ok_or_Inr checked_add_i64_Some
          int_of_u64 sum.inject prod.inject)
        (elim exE conjE, hypsubst, rule that, simp, assumption, simp, assumption)
  qed
  note r = run_transform_Inr[OF run, unfolded k(5,6), OF keys]
  have belongs1: "belongs stg c1" using ctx(1) r(6) by (blast intro: same_step_belongs)
  have c': "same_step c2 c'"
    using facts by (auto simp: transition_facts_def record_state_rows_def res_simps same_step_def)
  define pos where "pos = tff_last f + 1"
  have pos: "row \<le> pos" using r(2) by (simp add: pos_def)
  have emitted: "emitted st' = emitted st @ transform_image env ?emit
      (filter (\<lambda>r. row \<le> pw_ordinal r \<and> pw_ordinal r < pos) (sort_key pw_ordinal ?payload))"
    using r(4) by (simp add: pos_def)
  have chunks: "input_chunks stg db = chunks" and lo: "lo \<le> is_next i"
    and eq: "emitted st = base @ consumed_image stg env chunks lo (is_next i)
        @ chunk_part stg env chunks (is_next i) row"
    using inv ctx(3) cont(2) by (auto simp: linear_state_def at_rows_def pending_image_def)
  have part: "chunk_part stg env chunks (is_next i) n = transform_image env ?emit (rows_upto ?payload n)" for n
    using k(1,2) chunks by (simp add: chunk_part_def)
  have eq': "emitted st' = base @ consumed_image stg env chunks lo (is_next i)
      @ chunk_part stg env chunks (is_next i) pos"
    using emitted eq rows_upto_extend[OF row pos, of ?payload] by (simp add: part)
  show ?thesis
  proof (cases "pos < int (cm_rows ch)")
    case True
    then have "store_position (lg_kind stg) c1 db i ch had row pos = Inr (c2, db')"
      using store by (simp add: pos_def)
    note s = store_position_rows[OF this]
    have "same_source stg db db'" using s by (auto intro: same_source_streams)
    then have "linear_state stg env chunks lo base db' st'"
      using s eq' chunks lo ctx(3)
      by (auto simp: linear_state_def at_rows_def pending_image_def same_source_def)
    then show ?thesis using s c' belongs1 by (blast intro: same_step_belongs)
  next
    case False
    then have all: "pos = int (cm_rows ch)" and fin: "finish_chunk (lg_kind stg) c1 db i ch had = Inr (c2, db')"
      using store by (auto simp: pos_def split: if_splits)
    note s = finish_chunk_rows[OF fin cont(1) belongs1]
    have "chunk_part stg env chunks (is_next i) pos = chunk_image stg env chunks (is_next i)"
      using k(1,3) chunks all by (simp add: chunk_image_def)
    then have "linear_state stg env chunks lo base db' st'"
      using s eq' chunks lo k(6)
      by (auto simp: linear_state_def at_rows_def pending_image_def consumed_image_next)
    then show ?thesis using s c' belongs1 by (blast intro: same_step_belongs)
  qed
qed

section \<open>The other steps\<close>

text \<open>A step that only moves the frontier, or the phase, keeps the state.\<close>

lemma linear_state_kept:
  assumes "linear_state stg env chunks lo base db st" "same_source stg db db'"
    "at_rows (db_continuation db) 0" "at_rows (db_continuation db') 0"
  shows "linear_state stg env chunks lo base db' st"
  using assms by (auto simp: linear_state_def at_rows_def pending_image_def same_source_def)

lemma step_transition_context:
  "bind_res (step_transition c phase u) (\<lambda>r. Inr (r, c, db, st)) = Inr (r', c', db', st') \<Longrightarrow>
     c' = c \<and> db' = db \<and> st' = st"
  by (auto simp: bind_res_Inr)

text \<open>A stored continuation: the row decodes to it.\<close>

lemma decode_scan_row:
  assumes "decode_scan row = Inr k"
  shows "\<exists>f. row = ScanRow f \<and> scf_phase f = scan_phase_code (scn_phase k) \<and>
    scf_next_row f = scn_next_row k \<and> scf_next_bootstrap f = scn_next_bootstrap k"
  using assms
  by (auto simp: decode_scan_def scan_phase_decode_def phase_code_active_def res_simps
      split: linear_row.splits if_splits)

lemma frontier_phase_rows:
  assumes "decode_scan row = Inr k" "validate_scan k = Inr ()" "scn_phase k \<noteq> ScBootstrap"
    "scn_phase k \<noteq> ScData"
  shows "at_rows [row] 0"
  using decode_scan_row[OF assms(1)] assms(2-4)
  by (cases "scn_phase k") (auto simp: at_rows_def validate_scan_def split: if_splits)

lemma data_phase_rows:
  assumes "decode_scan row = Inr k" "validate_scan k = Inr ()" "scn_phase k = ScData"
  shows "at_rows [row] (case scn_next_row k of None \<Rightarrow> 0 | Some r \<Rightarrow> r)"
  using decode_scan_row[OF assms(1)] assms(2,3) by (auto simp: at_rows_def)

lemma bootstrap_phase_rows:
  assumes "decode_scan row = Inr k" "validate_scan k = Inr ()" "scn_phase k = ScBootstrap"
  shows "row_offset [row] = 0 \<and> bootstrap_cursor [row] = scn_next_bootstrap k \<and> scn_next_bootstrap k \<noteq> None
    \<and> scn_next_row k = None"
  using decode_scan_row[OF assms(1)] assms(2,3)
  by (auto simp: validate_scan_def positive_column_def split: if_splits option.splits)

lemma step_bootstrap_state:
  fixes st :: "'o linear_store"
  assumes step: "step_bootstrap env c db st k = Inr (r, c', db', st')"
    and row: "db_continuation db = [row]" "decode_scan row = Inr k" "validate_scan k = Inr ()"
      "scn_phase k = ScBootstrap"
    and ctx: "belongs stg c" "positive_context c"
    and inv: "linear_state stg env chunks lo base db st"
  shows "linear_state stg env chunks lo base db' st' \<and> belongs stg c'"
proof -
  note b = bootstrap_phase_rows[OF row(2-4)]
  obtain first where first: "scn_next_bootstrap k = Some first" using b by auto
  obtain i f c1 remaining c2 where i: "context_input c 0 = Inr i" and
    run: "run_bootstrap_primitive env c first (is_activation i) st = Inr (f, c1, st')" and
    rest: "bootstrap_remaining f first (ls_bootstrap st') = Inr remaining" and
    rep: "replace_scan c1 db (Some k)
          (case remaining of
             Some s \<Rightarrow> k\<lparr>scn_next_bootstrap := Some s\<rparr>
           | None \<Rightarrow> scan_frontier_position ScSnapshotFrontier (scn_stream_id k) (is_activation i)) = Inr (c2, db')" and
    facts: "transition_facts c2 PhAdmit
       \<lparr>pr_usage = bof_usage f, pr_state_rows = input_rows (bof_usage f), pr_output = bof_output f\<rparr> = Inr (r, c')"
    using step unfolding step_bootstrap_def first ok_or_simps bind_res.simps
    by (simp only: bind_res_Inr[of "context_input _ _"] bind_res_Inr[of "run_bootstrap_primitive _ _ _ _ _"]
        bind_res_Inr[of "bootstrap_remaining _ _ _"] bind_res_Inr[of "replace_scan _ _ _ _"]
        bind_res_Inr[of "transition_facts _ _ _"] split_paired_Ex prod.case sum.inject prod.inject) blast
  have keys: "distinct (map fst (ls_bootstrap st))" "\<forall>x \<in> set (ls_bootstrap st). first \<le> fst x"
    using inv b first row(1) by (auto simp: linear_state_def)
  obtain page :: "(int \<times> 'o) list" where page: "input_rows (bof_usage f) = length page"
      "bof_first f = (if page = [] then None else Some (Min (set (map fst page))))"
      "bof_last f = (if page = [] then None else Some (Max (set (map fst page))))"
      "emitted st @ bootstrap_image (ls_bootstrap st) = emitted st' @ bootstrap_image (ls_bootstrap st')"
      "distinct (map fst (ls_bootstrap st'))" "page = [] \<longrightarrow> ls_bootstrap st' = []"
      "\<forall>x \<in> set (ls_bootstrap st'). \<forall>y \<in> set page. fst y < fst x" "same_step c c1"
    using run_bootstrap_Inr[OF run keys ctx(2)] by blast
  have later: "z + 1 \<le> fst x" if "bof_last f = Some z" "x \<in> set (ls_bootstrap st')" for x z
  proof -
    have "page \<noteq> []" "z = Max (fst ` set page)" using that(1) page(3) by (auto split: if_splits)
    then have "z \<in> fst ` set page" using Max_in[of "fst ` set page"] by simp
    then obtain y where "y \<in> set page" "fst y = z" by auto
    then have "z < fst x" using page(7) that(2) by blast
    then show ?thesis by simp
  qed
  have rem: "remaining = None \<longrightarrow> ls_bootstrap st' = []"
      "\<forall>s. remaining = Some s \<longrightarrow> (\<forall>x \<in> set (ls_bootstrap st'). s \<le> fst x)"
  proof -
    show "remaining = None \<longrightarrow> ls_bootstrap st' = []"
    proof
      assume "remaining = None"
      show "ls_bootstrap st' = []"
      proof (cases "page = []")
        case False
        then obtain z where z: "bof_last f = Some z" "first_bootstrap_sequence (ls_bootstrap st') (z + 1) = None"
          using rest page(2,3) \<open>remaining = None\<close> by (auto simp: bootstrap_remaining_def res_simps split: option.splits if_splits)
        then have "filter (\<lambda>s. z + 1 \<le> s) (map fst (ls_bootstrap st')) = []"
          by (simp add: first_bootstrap_sequence_def Let_def split: if_splits)
        then show ?thesis using later[OF z(1)] by (cases "ls_bootstrap st'") (auto simp: filter_empty_conv)
      qed (use page(6) in simp)
    qed
    show "\<forall>s. remaining = Some s \<longrightarrow> (\<forall>x \<in> set (ls_bootstrap st'). s \<le> fst x)"
    proof (intro allI impI ballI)
      fix s x assume s: "remaining = Some s" and x: "x \<in> set (ls_bootstrap st')"
      then obtain z where "bof_last f = Some z" "s = z + 1"
        using rest by (auto simp: bootstrap_remaining_def res_simps split: option.splits if_splits)
      then show "s \<le> fst x" using later x by simp
    qed
  qed
  have c': "same_step c2 c'"
    using facts by (auto simp: transition_facts_def record_state_rows_def res_simps same_step_def)
  have new: "same_step c1 c2 \<and> db_streams db' = db_streams db \<and> db_continuation db' = [scan_row
      (case remaining of
             Some s \<Rightarrow> k\<lparr>scn_next_bootstrap := Some s\<rparr>
           | None \<Rightarrow> scan_frontier_position ScSnapshotFrontier (scn_stream_id k) (is_activation i))]"
    using rep by (auto simp: replace_scan_def res_simps dest!: replace_cas_new)
  have source: "same_source stg db db'" using new by (auto intro: same_source_streams)
  have pend: "pending_image db st = bootstrap_image (ls_bootstrap st)" "row_offset (db_continuation db) = 0"
    using b first row(1) by (auto simp: pending_image_def)
  have "linear_state stg env chunks lo base db' st'"
  proof (cases remaining)
    case None
    then have "at_rows (db_continuation db') 0" using new by simp
    moreover have "emitted st' = emitted st @ bootstrap_image (ls_bootstrap st)"
      using page(4) rem(1) None by (simp add: bootstrap_image_def)
    ultimately show ?thesis
      using inv source pend by (auto simp: linear_state_def at_rows_def same_source_def pending_image_def)
  next
    case (Some s)
    then have cur: "bootstrap_cursor (db_continuation db') = Some s" "row_offset (db_continuation db') = 0"
      using new row(4) b by (simp_all add: scan_row_def)
    then have "pending_image db' st' = bootstrap_image (ls_bootstrap st')" by (simp add: pending_image_def)
    then show ?thesis
      using inv source pend page(4,5) rem(2) Some cur
      by (auto simp: linear_state_def same_source_def)
  qed
  moreover have "belongs stg c'"
    using ctx(1) page(8) new c' by (meson same_step_belongs)
  ultimately show ?thesis by simp
qed

lemma step_snapshot_frontier_state:
  assumes step: "step_snapshot_frontier c db st k = Inr (r, c', db', st')"
    and row: "db_continuation db = [row]" "at_rows [row] 0"
    and ctx: "belongs stg c" "lg_input stg \<noteq> lg_output stg"
    and inv: "linear_state stg env chunks lo base db st"
  shows "linear_state stg env chunks lo base db' st' \<and> belongs stg c'"
proof -
  obtain f out c1 db1 where app: "append_frontier c db f = Inr (out, c1, db1)"
      and rep: "replace_cas c1 db1 (Some (scan_row k)) None ''Scan'' = Inr (c', db')" and st: "st' = st"
    using step unfolding step_snapshot_frontier_def by (auto simp: res_simps split: if_splits)
  note a = append_frontier_rows[OF app ctx]
  have new: "same_step c1 c'" "db_streams db' = db_streams db1" "db_continuation db' = []"
    using replace_cas_rows(1,2)[OF rep] replace_cas_rows(4)[OF rep refl, of row] a row(1) by simp_all
  have "same_source stg db1 db'" using new(2) by (intro same_source_streams) simp
  then have "same_source stg db db'" using a same_source_trans by blast
  then show ?thesis
    using linear_state_kept[OF inv, of db'] new row a ctx(1) unfolding st
    by (auto intro: same_step_belongs)
qed

lemma source_frontier_rows:
  assumes "append_frontier c db f = Inr (out, c1, db1)"
    "advance_input c1 db1 0 n g u = Inr (c2, db2)" "belongs stg c" "lg_input stg \<noteq> lg_output stg"
  shows "belongs stg c2 \<and> input_chunks stg db2 = input_chunks stg db \<and> consumer_next stg db2 = Some n
    \<and> db_continuation db2 = db_continuation db"
proof -
  note a = append_frontier_rows[OF assms(1,3,4)]
  then have "belongs stg c1" using assms(3) by (blast intro: same_step_belongs)
  note b = advance_input_rows[OF assms(2) this]
  show ?thesis using a b assms(3) by (auto simp: same_source_def intro: same_step_belongs)
qed

lemma step_available_source_frontier_state:
  assumes step: "step_available_source_frontier c db st = Inr (r, c', db', st')"
    and row: "db_continuation db = []"
    and ctx: "belongs stg c" "lg_input stg \<noteq> lg_output stg" "context_input c 0 = Inr i"
      "consumer_next stg db = Some (is_next i)"
    and inv: "linear_state stg env chunks lo base db st"
  shows "linear_state stg env chunks lo base db' st' \<and> belongs stg c'"
proof -
  obtain f out c1 db1 where app: "append_frontier c db f = Inr (out, c1, db1)"
      and adv: "advance_input c1 db1 0 (is_next i) f usage_default = Inr (c', db')" and st: "st' = st"
    using step unfolding step_available_source_frontier_def by (auto simp: ctx(3) res_simps)
  note s = source_frontier_rows[OF app adv ctx(1,2)]
  then have "same_source stg db db'" using ctx(4) by (simp add: same_source_def)
  then show ?thesis using linear_state_kept[OF inv, of db'] s row unfolding st by simp
qed

lemma step_scan_frontier_state:
  assumes step: "step_scan_frontier c db st f = Inr (r, c', db', st')"
    and row: "db_continuation db = [row]" "at_rows [row] 0"
    and ctx: "belongs stg c" "lg_input stg \<noteq> lg_output stg" "context_input c 0 = Inr i"
      "consumer_next stg db = Some (is_next i)"
    and inv: "linear_state stg env chunks lo base db st"
  shows "linear_state stg env chunks lo base db' st' \<and> belongs stg c'"
proof -
  obtain out c1 db1 c2 db2 where app: "append_frontier c db f = Inr (out, c1, db1)"
      and adv: "advance_input c1 db1 0 (is_next i) f usage_default = Inr (c2, db2)"
      and del: "delete_continuation c2 db2 True = Inr (c', db')" and st: "st' = st"
    using step unfolding step_scan_frontier_def by (auto simp: ctx(3) res_simps split: if_splits)
  note s = source_frontier_rows[OF app adv ctx(1,2)]
  have d: "same_step c2 c'" "db_streams db' = db_streams db2" "db_continuation db' = []"
    using delete_continuation_rows[OF del] s row(1) by auto
  have "same_source stg db db2" using s ctx(4) by (simp add: same_source_def)
  moreover have "same_source stg db2 db'" using d(2) by (auto intro: same_source_streams)
  ultimately have "same_source stg db db'" by (rule same_source_trans)
  then show ?thesis
    using linear_state_kept[OF inv, of db'] s d row unfolding st by (auto intro: same_step_belongs)
qed

section \<open>A transaction\<close>

lemma bound_context:
  assumes "bind_continuation_authority c p = Inr c1" "opened stg c db"
  shows "opened stg c1 db"
  using assms unfolding bind_continuation_authority_def
  by (auto simp: opened_def belongs_def positive_context_def context_input_def split: if_splits option.splits)

lemma openedD:
  assumes "opened stg c db"
  obtains i where "context_input c 0 = Inr i" "belongs stg c" "positive_context c"
    "consumer_next stg db = Some (is_next i)"
  using assms by (auto simp: opened_def split: sum.splits)

lemma scan_data_state:
  assumes step: "scan_data env c db st cur = Inr (r, c', db', st')"
    and kind: "lg_kind stg = LScan"
    and ctx: "opened stg c db" "lg_input stg \<noteq> lg_output stg"
    and cont: "cur \<noteq> None \<longleftrightarrow> db_continuation db \<noteq> []"
      "at_rows (db_continuation db) (case cur of None \<Rightarrow> 0 | Some k \<Rightarrow>
         (case scn_next_row k of None \<Rightarrow> 0 | Some r \<Rightarrow> r))"
    and inv: "linear_state stg env chunks lo base db st"
    and keys: "\<And>n. distinct (map pw_ordinal (le_input env (lg_input stg) n))"
  shows "linear_state stg env chunks lo base db' st' \<and> belongs stg c'"
proof -
  obtain i where i: "context_input c 0 = Inr i" "belongs stg c" "positive_context c"
      "consumer_next stg db = Some (is_next i)"
    using ctx(1) by (rule openedD)
  obtain found where found: "next_chunk c db 0 = Inr found"
    using step unfolding scan_data_def Let_def by (auto simp: bind_res_Inr)
  show ?thesis
  proof (cases found)
    case None
    then have "cur = None" "step_available_source_frontier c db st = Inr (r, c', db', st')"
      using step unfolding scan_data_def Let_def found by (auto split: if_splits)
    then show ?thesis
      using step_available_source_frontier_state[OF _ _ i(2) ctx(2) i(1,4) inv] cont(1) by auto
  next
    case (Some ch)
    then have "cm_kind ch = Data" "step_data_transform env LScan c db st (cur \<noteq> None) ch
        (case cur of None \<Rightarrow> 0 | Some k \<Rightarrow> (case scn_next_row k of None \<Rightarrow> 0 | Some r \<Rightarrow> r))
          = Inr (r, c', db', st')"
      using step unfolding scan_data_def Let_def found by (auto split: if_splits)
    then show ?thesis
      using step_data_transform_state[of env stg, unfolded kind, OF _ _ _ i(2,1,4) cont inv keys] found Some
      by blast
  qed
qed

lemma execute_scan_state:
  assumes step: "execute_scan env source c db st = Inr (r, c', db', st')"
    and kind: "lg_kind stg = LScan"
    and ctx: "opened stg c db" "lg_input stg \<noteq> lg_output stg"
    and inv: "linear_state stg env chunks lo base db st"
    and keys: "\<And>n. distinct (map pw_ordinal (le_input env (lg_input stg) n))"
  shows "linear_state stg env chunks lo base db' st' \<and> belongs stg c'"
proof -
  obtain i cur c1 where
    lock: "lock_one db ''Scan'' decode_scan = Inr cur" and
    auth: "bind_continuation_authority c (cur \<noteq> None) = Inr c1" and
    valid: "\<forall>k. cur = Some k \<longrightarrow> validate_scan k = Inr ()" and
    rest: "(case cur of
         None \<Rightarrow> scan_data env c1 db st None
       | Some k \<Rightarrow>
           (case scn_phase k of
              ScBootstrap \<Rightarrow> step_bootstrap env c1 db st k
            | ScSnapshotFrontier \<Rightarrow> step_snapshot_frontier c1 db st k
            | ScSourceFrontier \<Rightarrow>
                bind_res (ok_or ''Scan frontier continuation omitted its LSN'' (scn_frontier k))
                  (\<lambda>f. step_scan_frontier c1 db st f)
            | ScData \<Rightarrow> scan_data env c1 db st (Some k))) = Inr (r, c', db', st')"
  proof -
    assume that: "\<And>cur c1. lock_one db ''Scan'' decode_scan = Inr cur \<Longrightarrow>
      bind_continuation_authority c (cur \<noteq> None) = Inr c1 \<Longrightarrow>
      \<forall>k. cur = Some k \<longrightarrow> validate_scan k = Inr () \<Longrightarrow>
      (case cur of
         None \<Rightarrow> scan_data env c1 db st None
       | Some k \<Rightarrow>
           (case scn_phase k of
              ScBootstrap \<Rightarrow> step_bootstrap env c1 db st k
            | ScSnapshotFrontier \<Rightarrow> step_snapshot_frontier c1 db st k
            | ScSourceFrontier \<Rightarrow>
                bind_res (ok_or ''Scan frontier continuation omitted its LSN'' (scn_frontier k))
                  (\<lambda>f. step_scan_frontier c1 db st f)
            | ScData \<Rightarrow> scan_data env c1 db st (Some k))) = Inr (r, c', db', st') \<Longrightarrow> thesis"
    show thesis
      using step unfolding execute_scan_def
      by (simp only: bind_res_Inr[of "context_input _ _"] bind_res_Inr[of "lock_one _ _ _"] if_Inl_Inr
          bind_res_Inr[of "bind_continuation_authority _ _"])
        (elim exE conjE, rule that, assumption, assumption, auto simp: bind_res_Inr split: option.splits if_splits)
  qed
  have o1: "opened stg c1 db" by (rule bound_context[OF auth ctx(1)])
  obtain i where i: "context_input c1 0 = Inr i" "belongs stg c1" "positive_context c1"
      "consumer_next stg db = Some (is_next i)"
    using o1 by (rule openedD)
  show ?thesis
  proof (cases cur)
    case None
    then have "db_continuation db = []" using lock_one_Inr[OF lock] by simp
    then show ?thesis
      using scan_data_state[OF _ kind o1 ctx(2) _ _ inv keys, of None] rest None by simp
  next
    case (Some k)
    obtain row where row: "db_continuation db = [row]" "decode_scan row = Inr k"
      using lock_one_Inr[OF lock] Some by auto
    have v: "validate_scan k = Inr ()" using valid Some by simp
    show ?thesis
    proof (cases "scn_phase k")
      case ScBootstrap
      then show ?thesis
        using step_bootstrap_state[OF _ row v ScBootstrap i(2,3) inv] rest Some by simp
    next
      case ScSnapshotFrontier
      then show ?thesis
        using step_snapshot_frontier_state[OF _ row(1) frontier_phase_rows[OF row(2) v] i(2) ctx(2) inv]
          rest Some by simp
    next
      case ScData
      then show ?thesis
        using scan_data_state[OF _ kind o1 ctx(2) _ _ inv keys, of "Some k"] rest Some row(1)
          data_phase_rows[OF row(2) v ScData] by simp
    next
      case ScSourceFrontier
      then show ?thesis
        using step_scan_frontier_state[OF _ row(1) frontier_phase_rows[OF row(2) v] i(2) ctx(2) i(1,4) inv]
          rest Some by (auto simp: res_simps)
    qed
  qed
qed

lemma decode_transform_Inr: "decode_transform row = Inr k \<longleftrightarrow> row = TransformRow k"
  by (cases row) (auto simp: decode_transform_def)

lemma execute_transform_state:
  assumes step: "execute_transform env (lg_kind stg) c db st = Inr (r, c', db', st')"
    and ctx: "opened stg c db" "lg_input stg \<noteq> lg_output stg"
    and inv: "linear_state stg env chunks lo base db st"
    and keys: "\<And>n. distinct (map pw_ordinal (le_input env (lg_input stg) n))"
  shows "linear_state stg env chunks lo base db' st' \<and> belongs stg c'"
proof -
  obtain cur c1 ch where
    lock: "lock_one db ''linear'' decode_transform = Inr cur" and
    auth: "bind_continuation_authority c (cur \<noteq> None) = Inr c1" and
    found: "next_chunk c1 db 0 = Inr (Some ch)" and
    rest: "(let row = (case cur of None \<Rightarrow> 0 | Some k \<Rightarrow> trn_next_row k) in
         if row < 0 then Inl ''linear continuation has a negative row ordinal''
         else if cm_kind ch = Frontier
         then
           if row \<noteq> 0 then Inl ''frontier continuation has a row offset''
           else
             bind_res (append_frontier c1 db (cm_lsn ch)) (\<lambda>(_, c2, db2).
             bind_res (advance_input c2 db2 0 (cm_sequence ch + 1) (cm_lsn ch) usage_default) (\<lambda>(c3, db3).
             bind_res (delete_continuation c3 db3 (cur \<noteq> None)) (\<lambda>(c4, db4).
             bind_res (step_transition c4 PhFrontier usage_default) (\<lambda>r.
             Inr (r, c4, db4, st)))))
         else step_data_transform env (lg_kind stg) c1 db st (cur \<noteq> None) ch row) = Inr (r, c', db', st')"
    using step unfolding execute_transform_def
    by (simp only: bind_res_Inr[of "lock_one _ _ _"] bind_res_Inr[of "bind_continuation_authority _ _"]
        bind_res_Inr[of "context_input _ _"] bind_res_Inr[of "next_chunk _ _ _"] bind_res_Inr[of "ok_or _ _"]
        ok_or_Inr if_Inl_Inr) blast
  have o1: "opened stg c1 db" by (rule bound_context[OF auth ctx(1)])
  obtain i where i: "context_input c1 0 = Inr i" "belongs stg c1" "positive_context c1"
      "consumer_next stg db = Some (is_next i)"
    using o1 by (rule openedD)
  let ?row = "case cur of None \<Rightarrow> 0 | Some k \<Rightarrow> trn_next_row k"
  have had: "cur \<noteq> None \<longleftrightarrow> db_continuation db \<noteq> []" and at: "at_rows (db_continuation db) ?row"
    using lock_one_Inr[OF lock]
    by (auto simp: decode_transform_Inr at_rows_def split: option.splits)
  show ?thesis
  proof (cases "cm_kind ch")
    case Data
    then have "step_data_transform env (lg_kind stg) c1 db st (cur \<noteq> None) ch ?row = Inr (r, c', db', st')"
      using rest by (simp add: Let_def split: if_splits)
    then show ?thesis
      using step_data_transform_state[OF _ found Data i(2,1,4) had at inv keys] by blast
  next
    case Frontier
    obtain out c2 db2 c3 db3 where zero: "?row = 0" and app: "append_frontier c1 db (cm_lsn ch) = Inr (out, c2, db2)"
      and adv: "advance_input c2 db2 0 (cm_sequence ch + 1) (cm_lsn ch) usage_default = Inr (c3, db3)"
      and del: "delete_continuation c3 db3 (cur \<noteq> None) = Inr (c', db')" and st: "st' = st"
      using rest Frontier unfolding Let_def by (auto simp: res_simps split: if_splits)
    note s = source_frontier_rows[OF app adv i(2) ctx(2)]
    have d: "same_step c3 c'" "db_streams db' = db_streams db3" "db_continuation db' = []"
      using delete_continuation_rows[OF del] s had by auto
    obtain k where k: "chunk_at (input_chunks stg db) (is_next i) = Some k" "cm_kind ch = ck_kind k"
        "cm_sequence ch = is_next i"
      using read_chunk_at[OF found i(2,1)] by blast
    have new: "input_chunks stg db' = input_chunks stg db" "consumer_next stg db' = Some (is_next i + 1)"
      using s d(2) k(3) by (auto simp: input_chunks_def consumer_next_def)
    have "chunk_image stg env chunks (is_next i) = []" if "input_chunks stg db = chunks"
      using that k(1,2) Frontier by (simp add: chunk_image_def chunk_part_def)
    then have "linear_state stg env chunks lo base db' st'"
      using inv new d(3) at zero i(4) unfolding st
      by (auto simp: linear_state_def at_rows_def pending_image_def consumed_image_next)
    then show ?thesis using s d(1) by (auto intro: same_step_belongs)
  qed
qed

lemma linear_transaction_state:
  assumes run: "linear_transaction stg env c (db, st) = Inr (db', st')"
    and streams: "lg_input stg \<noteq> lg_output stg"
    and inv: "linear_state stg env chunks lo base db st"
    and keys: "\<And>n. distinct (map pw_ordinal (le_input env (lg_input stg) n))"
  shows "linear_state stg env chunks lo base db' st'"
proof -
  obtain r c1 db1 e where opened: "opened stg c db"
      and step: "linear_step env (lg_kind stg) (lg_source stg) c db st = Inr (r, c1, db1, st')"
      and commit: "step_commit c1 db1 r = Inr (e, db')"
    using run by (auto simp: linear_transaction_def res_simps split: if_splits)
  have state: "linear_state stg env chunks lo base db1 st' \<and> belongs stg c1"
  proof (cases "lg_kind stg = LScan")
    case True
    then have "execute_scan env (lg_source stg) c db st = Inr (r, c1, db1, st')"
      using step by (auto simp: linear_step_def res_simps split: if_splits)
    then show ?thesis by (rule execute_scan_state[OF _ True opened streams inv keys])
  next
    case False
    then have "execute_transform env (lg_kind stg) c db st = Inr (r, c1, db1, st')"
      using step by (auto simp: linear_step_def res_simps split: if_splits)
    then show ?thesis by (rule execute_transform_state[OF _ opened streams inv keys])
  qed
  note c = commit_rows[OF commit _ streams]
  show ?thesis using state c by (auto simp: linear_state_def same_source_def pending_image_def)
qed

lemma linear_run_state:
  "linear_run stg env cs (db, st) = Inr (db', st') \<Longrightarrow> lg_input stg \<noteq> lg_output stg \<Longrightarrow>
   linear_state stg env chunks lo base db st \<Longrightarrow>
   (\<And>n. distinct (map pw_ordinal (le_input env (lg_input stg) n))) \<Longrightarrow>
     linear_state stg env chunks lo base db' st'"
proof (induction cs arbitrary: db st)
  case (Cons c cs)
  obtain db1 st1 where "linear_transaction stg env c (db, st) = Inr (db1, st1)"
      "linear_run stg env cs (db1, st1) = Inr (db', st')"
    using Cons.prems(1) by (auto simp: bind_res_Inr)
  then show ?case using Cons.IH linear_transaction_state[OF _ Cons.prems(2-4)] Cons.prems(2,4) by blast
qed simp

section \<open>The continuation row\<close>

definition scan_codable :: "scan_continuation \<Rightarrow> bool" where
  "scan_codable k \<longleftrightarrow> (\<forall>l. scn_frontier k = Some l \<longrightarrow> l \<le> u64_max)"

definition scan_canonical :: "linear_row \<Rightarrow> bool" where
  "scan_canonical row \<longleftrightarrow> (\<forall>f t. row = ScanRow f \<longrightarrow> scf_frontier f = Some t \<longrightarrow> (\<exists>w. t = format_lsn w))"

lemma decode_scan_encode: "scan_codable k \<Longrightarrow> decode_scan (scan_row k) = Inr k"
proof -
  assume k: "scan_codable k"
  have "scan_phase_decode (scan_phase_code p) = Inr p" for p
    by (cases p) (simp_all add: scan_phase_decode_def phase_code_active_def)
  moreover have "lsn_of_text name (format_lsn (of_nat l)) = Inr l" if "l \<le> u64_max" for name l
    using that by (simp add: lsn_of_text_def parse_format_lsn u64_max_def unat_of_nat)
  ultimately show ?thesis
    using k by (cases k; cases "scn_frontier k") (auto simp: decode_scan_def scan_row_def scan_codable_def)
qed

lemma scan_row_canonical: "scan_canonical (scan_row k)"
  by (auto simp: scan_canonical_def scan_row_def)

lemma scan_encode_decode:
  assumes "scan_canonical row" "decode_scan row = Inr k"
  shows "scan_row k = row"
proof -
  have "format_lsn (of_nat l) = format_lsn w" if "lsn_of_text name (format_lsn w) = Inr l" for name l w
    using that by (auto simp: lsn_of_text_def parse_format_lsn)
  moreover have "scan_phase_code p = v" if "scan_phase_decode v = Inr p" for p v
    using that by (auto simp: scan_phase_decode_def phase_code_active_def res_simps split: if_splits)
  ultimately show ?thesis
    using assms
    by (auto simp: decode_scan_def scan_canonical_def scan_row_def res_simps split: linear_row.splits option.splits)
qed

end
