(* ===== verification/Linear_Guarantees.thy ===== *)
theory Linear_Guarantees
  imports Linear_Run Continuation_Codec
begin

text \<open>
  The guarantees of Scan, Filter and Project (\<open>src/execution/linear\<close>).
\<close>

interpretation scan_codec: continuation_codec scan_codable scan_canonical "\<lambda>k. Inr (scan_row k)" decode_scan
  by unfold_locales (auto simp: decode_scan_encode scan_row_canonical intro: scan_encode_decode)

section \<open>A concrete run\<close>

text \<open>
  A Filter over one chunk of three rows, with a budget of two rows for a step: the first and the
  last row pass, the predicate of the second one is NULL.
\<close>

definition lw_env :: "(int, int) linear_env" where
  "lw_env = \<lparr>le_input = (\<lambda>s n. if s = 1 \<and> n = 1
       then [\<lparr>pw_ordinal = 0, pw_weight = 1, pw_value = 1\<rparr>, \<lparr>pw_ordinal = 1, pw_weight = -1, pw_value = 2\<rparr>,
             \<lparr>pw_ordinal = 2, pw_weight = 2, pw_value = 3\<rparr>] else []),
     le_predicate = (\<lambda>v. if v = 2 then None else Some True), le_project = (\<lambda>v. v * 10),
     le_input_octets = (\<lambda>v. 2), le_output_octets = (\<lambda>v. 2)\<rparr>"

definition lw_stage :: linear_stage where
  "lw_stage = \<lparr>lg_kind = LFilter, lg_key = (9, 2, 0), lg_input = 1, lg_output = 2, lg_activation = 0,
     lg_source = 0\<rparr>"

definition lw_budget :: work_budget where
  "lw_budget = \<lparr>max_input_rows = 2, max_input_bytes = 1000, max_output_rows = 10, max_output_bytes = 1000\<rparr>"

definition lw_stream :: "int \<Rightarrow> chunk list \<Rightarrow> consumer_key \<Rightarrow> int \<Rightarrow> effect_stream" where
  "lw_stream n chunks key cursor = \<lparr>es_producer = Operator, es_producer_result = 9, es_next = n,
     es_first_retained = 1, es_latest_data = (if chunks = [] then None else Some 5),
     es_published_frontier = None, es_buffered_chunks = int (length chunks),
     es_buffered_rows = sum_list (map ck_rows chunks), es_buffered_bytes = sum_list (map ck_bytes chunks),
     es_target_rows = 10, es_target_bytes = 100, es_high_chunks = 9, es_high_rows = 1000,
     es_high_bytes = 1000, es_low_chunks = 1, es_low_rows = 10, es_low_bytes = 100,
     es_backpressured = False, es_chunks = chunks,
     es_consumers = [(key, \<lparr>cs_next = cursor, cs_activation = 0, cs_frontier = 0\<rparr>)]\<rparr>"

definition lw_chunk :: "int \<Rightarrow> int \<Rightarrow> int \<Rightarrow> chunk" where
  "lw_chunk n rows bytes = \<lparr>ck_seq = n, ck_kind = Data, ck_rows = rows, ck_bytes = bytes, ck_lsn = 5\<rparr>"

definition lw_db :: "int \<Rightarrow> chunk list \<Rightarrow> int \<Rightarrow> linear_row list \<Rightarrow> int \<Rightarrow> linear_db" where
  "lw_db cursor out n rows revision = \<lparr>db_streams = (\<lambda>i. if i = 1
         then Some (lw_stream 2 [lw_chunk 1 3 30] (9, 2, 0) cursor)
         else if i = 2 then Some (lw_stream n out (9, 3, 0) 1) else None),
     db_published = None,
     db_checkpoint = \<lparr>cp_revision = revision, cp_has_continuation = (rows \<noteq> []), cp_admitted_rows = 0,
       cp_admitted_bytes = 0\<rparr>, db_continuation = rows\<rparr>"

definition lw_context :: "int \<Rightarrow> bool \<Rightarrow> int \<Rightarrow> nat option \<Rightarrow> step_context" where
  "lw_context revision had n latest = \<lparr>sc_result_oid = 9, sc_stage_id = 2, sc_quantum_budget = lw_budget,
     sc_transition_budget = lw_budget, sc_expected_revision = revision, sc_had_continuation = had,
     sc_presence = None, sc_admission = \<lparr>ap_rows = 0, ap_bytes = 0\<rparr>, sc_continuation_changed = False,
     sc_input_advanced = False, sc_frontier_output = None, sc_state_rows = 0,
     sc_inputs = [\<lparr>is_port = 0, is_stream_id = 1, is_producer = Operator, is_source_oid = None,
       is_slot_generation = None, is_next = 1, is_available = 2, is_activation = 0,
       is_consumed = 0, is_source_frontier = None\<rparr>],
     sc_output = Some \<lparr>os_stream_id = 2, os_next = n, os_target_rows = 10, os_target_bytes = 100,
       os_latest_data = latest, os_published = None, os_pending = None\<rparr>\<rparr>"

definition lw_position :: linear_row where
  "lw_position = TransformRow \<lparr>trn_stream_id = 1, trn_chunk_seq = 1, trn_next_row = 2\<rparr>"

definition lw_store :: "(int \<times> int \<times> int payload_row) list \<Rightarrow> int linear_store" where
  "lw_store rows = \<lparr>ls_payload = rows, ls_bootstrap = []\<rparr>"

definition lw_first :: "int \<times> int \<times> int payload_row" where
  "lw_first = (2, 1, \<lparr>pw_ordinal = 0, pw_weight = 1, pw_value = 10\<rparr>)"

definition lw_second :: "int \<times> int \<times> int payload_row" where
  "lw_second = (2, 2, \<lparr>pw_ordinal = 0, pw_weight = 2, pw_value = 30\<rparr>)"

lemmas lw_defs = lw_env_def lw_stage_def lw_budget_def lw_stream_def lw_chunk_def lw_db_def lw_context_def
  lw_position_def lw_store_def lw_first_def lw_second_def

lemmas linear_run_defs = linear_transaction_def opened_def belongs_def positive_context_def
  context_input_def consumer_next_def linear_step_def execute_transform_def lock_one_def
  decode_transform_def bind_continuation_authority_def next_chunk_def read_chunk_def nonnegative_def
  step_data_transform_def measure_rows_def to_bigint_def in_i64_def effect_row_bytes_def
  payload_facts_check_def required_def i64_from_u64_def run_transform_primitive_def context_output_def
  i64_from_usize_def transform_statement_def input_bounded_def input_source_def input_octets_def
  output_octets_def row_passes_def insert_payload_def numbered_rows_def null_column_def
  usage_validate_def validate_dimension_def record_output_append_def above_def at_least_def
  checked_add_i64_def store_position_def replace_transform_def transform_position_def replace_cas_def
  prepare_continuation_replace_def record_continuation_replace_def transition_facts_def
  validate_protocol_def primitive_validate_def record_state_rows_def checked_add_u64_def
  step_transition_def context_output_facts_def pending_output_chunk_def receipt_validate_def
  receipt_output_check_def has_durable_progress_def effects_output_def step_commit_def
  publish_pending_output_def find_stream_def append_chunk_def chunk_resources_ok_def
  append_causality_def put_stream_def finish_chunk_def delete_continuation_def clear_locked_def
  advance_input_def frontier_max_def next_unconsumed_def checked_sub_i64_def advance_consumer_def chunk_range_def advance_frontier_def
  record_input_advance_def greatest_lsn_def u64_max_def i64_max_def i64_min_def i32_max_def

lemma lw_step1:
  "linear_transaction lw_stage lw_env (lw_context 3 False 1 None) (lw_db 1 [] 1 [] 3, lw_store [])
     = Inr (lw_db 1 [lw_chunk 1 1 10] 2 [lw_position] 4, lw_store [lw_first])"
  by (simp add: lw_defs linear_run_defs Let_def fun_eq_iff)

lemma lw_step2:
  "linear_transaction lw_stage lw_env (lw_context 4 True 2 (Some 5))
      (lw_db 1 [lw_chunk 1 1 10] 2 [lw_position] 4, lw_store [lw_first])
     = Inr (lw_db 2 [lw_chunk 1 1 10, lw_chunk 2 1 10] 3 [] 5, lw_store [lw_first, lw_second])"
  by (simp add: lw_defs linear_run_defs Let_def fun_eq_iff)

lemma lw_run:
  "linear_run lw_stage lw_env [lw_context 3 False 1 None, lw_context 4 True 2 (Some 5)]
     (lw_db 1 [] 1 [] 3, lw_store [])
     = Inr (lw_db 2 [lw_chunk 1 1 10, lw_chunk 2 1 10] 3 [] 5, lw_store [lw_first, lw_second])"
  by (simp only: linear_run.simps lw_step1 lw_step2 bind_res.simps)

section \<open>Guarantees\<close>

text \<open>
  C6: A linear stage computes its view of the input: whatever transactions it commits, the payload
  it has inserted (with what is left of a Scan's bootstrap relation) is its former payload, the
  bootstrap relation with weight one, and, chunk by chunk in the order of the input, the filtered
  and projected rows with their weights: every consumed chunk whole, and of the chunk at the cursor
  the rows before the stored position.  Rows of a source chunk at or below the activation boundary
  of a Scan are in the bootstrap relation and are not emitted again.  The assumption on the input
  is the key of the payload relation: a chunk has no two rows of one ordinal.\<close>

theorem linear_refines_view:
  assumes "linear_run stg env contexts (db, st) = Inr (db', st')"
    "consumer_next stg db = Some lo" "lg_input stg \<noteq> lg_output stg"
    "\<And>n. distinct (map pw_ordinal (le_input env (lg_input stg) n))"
    "row_offset (db_continuation db) = 0"
    "\<And>k. bootstrap_cursor (db_continuation db) = Some k \<Longrightarrow>
       distinct (map fst (ls_bootstrap st)) \<and> (\<forall>x \<in> set (ls_bootstrap st). k \<le> fst x)"
  shows "\<exists>cur. consumer_next stg db' = Some cur \<and> lo \<le> cur \<and>
    emitted st' @ pending_image db' st' =
      emitted st @ pending_image db st @ consumed_image stg env (input_chunks stg db) lo cur
      @ chunk_part stg env (input_chunks stg db) cur (row_offset (db_continuation db'))"
proof -
  have "linear_state stg env (input_chunks stg db) lo (emitted st @ pending_image db st) db st"
    using assms(2,5,6) by (auto simp: linear_state_def consumed_image_def)
  from linear_run_state[OF assms(1,3) this assms(4)] show ?thesis
    by (auto simp: linear_state_def)
qed

theorem linear_refines_view_witness:
  "consumed_image lw_stage lw_env [lw_chunk 1 3 30] 1 2 = [(1, 10), (2, 30)]"
proof -
  have start: "consumer_next lw_stage (lw_db 1 [] 1 [] 3) = Some 1"
      "input_chunks lw_stage (lw_db 1 [] 1 [] 3) = [lw_chunk 1 3 30]"
      "pending_image (lw_db 1 [] 1 [] 3) (lw_store []) = []" "emitted (lw_store []) = []"
    by (simp_all add: consumer_next_def input_chunks_def pending_image_def emitted_def lw_defs)
  have final: "consumer_next lw_stage (lw_db 2 [lw_chunk 1 1 10, lw_chunk 2 1 10] 3 [] 5) = Some 2"
      "pending_image (lw_db 2 [lw_chunk 1 1 10, lw_chunk 2 1 10] 3 [] 5) (lw_store [lw_first, lw_second]) = []"
      "row_offset (db_continuation (lw_db 2 [lw_chunk 1 1 10, lw_chunk 2 1 10] 3 [] 5)) = 0"
      "emitted (lw_store [lw_first, lw_second]) = [(1, 10), (2, 30)]"
    by (simp_all add: consumer_next_def pending_image_def emitted_def lw_defs)
  have "\<exists>cur. consumer_next lw_stage (lw_db 2 [lw_chunk 1 1 10, lw_chunk 2 1 10] 3 [] 5) = Some cur \<and> 1 \<le> cur \<and>
    emitted (lw_store [lw_first, lw_second])
      @ pending_image (lw_db 2 [lw_chunk 1 1 10, lw_chunk 2 1 10] 3 [] 5) (lw_store [lw_first, lw_second]) =
    emitted (lw_store []) @ pending_image (lw_db 1 [] 1 [] 3) (lw_store [])
      @ consumed_image lw_stage lw_env (input_chunks lw_stage (lw_db 1 [] 1 [] 3)) 1 cur
      @ chunk_part lw_stage lw_env (input_chunks lw_stage (lw_db 1 [] 1 [] 3)) cur
          (row_offset (db_continuation (lw_db 2 [lw_chunk 1 1 10, lw_chunk 2 1 10] 3 [] 5)))"
    by (rule linear_refines_view[OF lw_run start(1)]) (simp_all add: lw_defs)
  then show ?thesis unfolding start final by auto
qed

end
