(* ===== verification/Spec2Isabelle.thy ===== *)
theory Spec2Isabelle
  imports Admission_Schedule Ingress_Guarantees TopN_Guarantees TopN_Step Aggregate_Guarantees
    Sink_Guarantees Distinct_Guarantees Step_Guarantees Scheduler_Guarantees Feedback_Guarantees
    Effect_Stream_Guarantees Plan_Guarantees Join_Guarantees Window_Guarantees
    Linear_Guarantees
begin

text \<open>
  Verification of Shiba, a PostgreSQL extension that keeps the results of registered queries up
  to date: it follows the logical replication stream of the server, publishes the changes of the
  source tables as effect streams, and runs each query as a graph of operators whose kernels read
  chunks of weighted rows and append chunks of weighted rows, one bounded transaction at a time.

  \<^bold>\<open>The parts and how they interact.\<close>  The transport (\<open>src/replication/transport.rs\<close>) frames
  CopyData messages; the parser (\<open>src/replication/pgoutput.rs\<close>) decodes their payload; the
  ingress (\<open>src/ingress.rs\<close>) groups row changes into bounded batches of one transaction; the
  ingress runtime (\<open>src/runtime/ingress.rs\<close>) publishes the batches and acknowledges the durable
  position.  Published chunks live in effect streams (\<open>sql/12_effect_stream.sql\<close>) with a cursor
  per consumer.  The scheduler (\<open>src/runtime/scheduler.rs\<close>) picks ready stages through a cache of
  loaded dataflows (\<open>src/planner/runtime.rs\<close>); the runner (\<open>src/execution/runner.rs\<close>) opens a
  step context (\<open>src/execution/step.rs\<close>), runs the kernel of the operator and commits: input
  cursor, output chunk, continuation row and checkpoint move in one transaction.  The kernels
  (\<open>src/execution/linear\<close>, \<open>topn\<close>, \<open>aggregate\<close>, \<open>window\<close>, \<open>distinct\<close>, \<open>join\<close>, \<open>sink\<close>)
  are phase machines whose state between   transactions is one continuation row (\<open>src/execution/continuation.rs\<close>).
  Before any of that, a registered query is a plan (\<open>src/planner/model.rs\<close>): an array of stages
  that refer to earlier ones, validated once (\<open>src/planner/validate.rs\<close>) and then compiled, scalar
  expressions becoming SQL text over column bindings (\<open>src/planner/scalar_sql.rs\<close>,
  \<open>src/execution/bindings.rs\<close>).

  \<^bold>\<open>Theories and code.\<close>
  \<^item> \<open>Shiba_Prelude\<close>: results as sums, checked machine arithmetic, shared hints.
  \<^item> \<open>Work_Quantum\<close>: \<open>src/planner/dataflow.rs\<close>.  \<open>Kernel_Contract\<close>, \<open>Admission_Schedule\<close>:
    \<open>src/execution/contract.rs\<close> and the settings of \<open>src/config.rs\<close>.
  \<^item> \<open>Wire_Bytes\<close>, \<open>Number_Text\<close>, \<open>Postgres_Text\<close>: \<open>src/postgres.rs\<close> and the byte and number
    readers of the replication code.  \<open>Transport\<close>: \<open>src/replication/transport.rs\<close>.
  \<^item> \<open>Pgoutput\<close>, with the grammar \<open>Pgoutput_Grammar\<close> and the exactness proof \<open>Pgoutput_Exact\<close>:
    \<open>src/replication/pgoutput.rs\<close>.
  \<^item> \<open>Replication_Ingress\<close>, \<open>Ingress_Invariants\<close>, \<open>Ingress_Properties\<close>, \<open>Ingress_Guarantees\<close>:
    \<open>src/ingress.rs\<close>.  \<open>Feedback\<close>, \<open>Feedback_Properties\<close>, \<open>Feedback_Guarantees\<close>:
    \<open>src/runtime/ingress.rs\<close>.
  \<^item> \<open>Effect_Stream\<close>, \<open>Effect_Stream_Invariant\<close>, \<open>Effect_Stream_Guarantees\<close>: the functions of
    \<open>sql/12_effect_stream.sql\<close> over the tables of \<open>sql/00_catalog.sql\<close>.
  \<^item> \<open>Step_Context\<close>, \<open>Step_Commit\<close>, \<open>Step_Properties\<close>, \<open>Step_Guarantees\<close>:
    \<open>src/execution/step.rs\<close>, \<open>stream.rs\<close>, \<open>continuation.rs\<close> and \<open>runner.rs\<close>.
  \<^item> \<open>Loaded_Dataflow\<close>: \<open>src/planner/runtime.rs\<close>.  \<open>Dataflow_Cache\<close>, \<open>Cache_Guarantees\<close>,
    \<open>Scheduler\<close>, \<open>Scheduler_Guarantees\<close>: \<open>src/runtime/scheduler.rs\<close>.
  \<^item> \<open>Plan_Model\<close>, \<open>Plan_Validate\<close>: \<open>src/planner/model.rs\<close> and \<open>validate.rs\<close>, with the typing rules
    and well-formedness as independent relations in \<open>Plan_Typing\<close> and \<open>Plan_Wellformed\<close>.
    \<open>Scalar_Sql\<close>, \<open>Stage_Bindings\<close>: \<open>src/planner/scalar_sql.rs\<close> and \<open>src/execution/bindings.rs\<close>;
    \<open>Scalar_Progress\<close>, \<open>Plan_Guarantees\<close>: what validation gives the later passes.
  \<^item> \<open>Resumable_Machine\<close> and \<open>Continuation_Codec\<close>: the interfaces of the operator machines and of
    their rows, as locales; every operator interprets them.
  \<^item> \<open>TopN_Machine\<close>, \<open>TopN_Properties\<close>, \<open>TopN_Codec\<close>, \<open>TopN_Guarantees\<close>, \<open>TopN_Step\<close>:
    \<open>src/execution/topn\<close>.  \<open>Aggregate_Machine\<close>, \<open>Aggregate_Properties\<close>, \<open>Aggregate_Codec\<close>,
    \<open>Aggregate_Guarantees\<close>: \<open>src/execution/aggregate\<close>.  \<open>Window_Machine\<close>, \<open>Window_Properties\<close>,
    \<open>Window_Codec\<close>, \<open>Window_Guarantees\<close>: \<open>machine.rs\<close> and the row of \<open>step.rs\<close> of
    \<open>src/execution/window\<close>.
  \<^item> \<open>Payload_Rows\<close>: the rows of a chunk, their sizes and bounded pages.  \<open>Linear_Statements\<close>,
    \<open>Linear_Step\<close>, \<open>Linear_Refinement\<close>, \<open>Linear_Run\<close>, \<open>Linear_Guarantees\<close>:
    \<open>src/execution/linear\<close>, its statements, its steps, one step and a run of steps against the view.
  \<^item> \<open>Distinct_Machine\<close>, \<open>Distinct_Store\<close>, \<open>Distinct_Step\<close>, \<open>Distinct_Refinement\<close>,
    \<open>Distinct_Guarantees\<close>: \<open>src/execution/distinct\<close>, with the SQL statements of the operator as
    functions on its state relations.  \<open>Sink\<close>, \<open>Sink_Guarantees\<close>: \<open>src/execution/sink\<close>.
  \<^item> \<open>Join_Planner\<close>: \<open>src/execution/join/planner.rs\<close>.  \<open>Join_Step\<close>: the transitions of
    \<open>runtime.rs\<close> over the two arrangements.  \<open>Join_View\<close>: the view of a join and how it changes with
    one row.  \<open>Join_Page\<close>, \<open>Join_Invariant\<close>, \<open>Join_Scan\<close>, \<open>Join_Refinement\<close>,
    \<open>Join_Guarantees\<close>: a page, the invariant inside an event, its preservation, the contract.

  \<^bold>\<open>What the lemmas show.\<close>  The text codecs and parsers are exact against independent grammars.
  The ingress delivers the changes of a transaction in order within its memory bounds and fails
  only for external reasons; feedback never acknowledges a position that is not durable.  An
  effect stream keeps every unread chunk, collects the others, and keeps data above the frontiers
  its consumers have recorded.  A commit is exactly-once by its revision, and the context mirrors
  the stream it appends to.  The scheduler attempts exactly the ready stages and starves none; its
  cache is a list in order of recency.  The operator machines resume from any committed
  continuation, which their rows carry without loss.  The validator accepts exactly the
  well-formed plans; in an accepted plan every stage feeds the sink and every scalar of a stage
  compiles.  A drain of Aggregate or Window takes its items in the order of their queue, each
  through all its stages.  The output of a linear operator is the filtered and projected image of
  what it has consumed, row by row and in order.  Distinct emits the differences of its view,
  the output of a join adds up to its view at the boundary of any two events, and the Sink applies
  each row exactly its weight.

  \<^bold>\<open>Conventions.\<close>  A \<open>Result\<close> is a sum with the error text on the left, a panic or failed
  assertion included.  \<open>u64\<close> and \<open>usize\<close> (64 bits) are natural numbers and \<open>i64\<close> integers with the
  checked operations of the prelude, where the code uses checked operations; transaction
  identifiers and the fields of the wire format are words.  A transaction that ends in an error
  leaves the database unchanged, so errors carry no state.  Loops over external events take the
  script of the events; fuel occurs only in \<open>sink_run\<close>, where the sum of the absolute weights is
  shown to be enough.

  \<^bold>\<open>Not modelled.\<close>  The lowering of PostgreSQL's analysed queries and the registration, admission
  and lifecycle commands work on server structures and catalogs that are not part of the
  repository.  The statements of Aggregate, TopN and Window are SQL texts; where a step is modelled without them
  they are parameters, like the predicate and projection of a linear operator.  The set-based page of an inner
  join (\<open>execute_inner_page\<close>) is one such statement; the model has the transitions that every mode
  can take.  Background workers, memory
  contexts, panics across \<open>pg_try\<close> and the SPI plumbing are process glue.
\<close>

end
